(* ===== verification/Prelude.thy ===== *)
theory Prelude
  imports Complex_Main "HOL-Library.Char_ord"
begin

text \<open>
  Shared vocabulary of the NimHunt development: results of fallible Python
  code, the few Python string operations the code uses, queries over SQL
  tables kept as row lists, and the locale \<open>table\<close> through which every
  theory reads and writes the tables of the database record.
\<close>

section \<open>Collections of facts\<close>

named_theorems const_defs \<open>numeric settings of constants.py\<close>
named_theorems db_simps \<open>reads of a table after a write to another table\<close>
named_theorems reads \<open>definitions of the read helpers of db_access.py\<close>

section \<open>Results of fallible code\<close>

text \<open>
  A Python exception is a value of \<open>py_error\<close>: the class and the fixed part of
  the message (formatted arguments are left out).
\<close>

datatype py_error =
    ValueError string
  | RuntimeError string
  | PermissionError string
  | IntegrityError string
  | TypeError string
  | OSError string
  | CooldownError int

type_synonym 'a res = "py_error + 'a"

definition bindE :: "'e + 'a \<Rightarrow> ('a \<Rightarrow> 'e + 'b) \<Rightarrow> 'e + 'b" where
  "bindE r k = (case r of Inl e \<Rightarrow> Inl e | Inr x \<Rightarrow> k x)"

lemma bindE_simps [simp]: "bindE (Inl e) k = Inl e" "bindE (Inr x) k = k x"
  by (simp_all add: bindE_def)

lemma bindE_Inr_iff: "bindE r k = Inr y \<longleftrightarrow> (\<exists>x. r = Inr x \<and> k x = Inr y)"
  by (cases r) auto

lemma bindE_InrE [elim!]:
  assumes "bindE r k = Inr y"
  obtains x where "r = Inr x" "k x = Inr y"
  using assms by (auto simp: bindE_Inr_iff)

definition guardE :: "bool \<Rightarrow> 'e \<Rightarrow> 'e + unit" where
  "guardE b e = (if b then Inr () else Inl e)"

lemma guardE_simps [simp]:
  "guardE True e = Inr ()" "guardE False e = Inl e"
  "guardE b e = Inr u \<longleftrightarrow> b"
  by (simp_all add: guardE_def)

definition is_ok :: "'e + 'a \<Rightarrow> bool" where
  "is_ok r = (case r of Inl _ \<Rightarrow> False | Inr _ \<Rightarrow> True)"

lemma is_ok_simps [simp]: "is_ok (Inr x)" "\<not> is_ok (Inl e)"
  by (simp_all add: is_ok_def)

lemma is_ok_iff: "is_ok r \<longleftrightarrow> (\<exists>x. r = Inr x)"
  by (cases r) auto

text \<open>A loop that may still be running yields \<open>None\<close>; one that returned without raising:\<close>

definition returns_ok :: "('e + 'a) option \<Rightarrow> bool" where
  "returns_ok r = (case r of None \<Rightarrow> False | Some x \<Rightarrow> is_ok x)"

lemma returns_ok_iff: "returns_ok r \<longleftrightarrow> (\<exists>x. r = Some (Inr x))"
  by (auto simp: returns_ok_def is_ok_iff split: option.splits)

text \<open>A call that returned a value with a given property:\<close>

definition gives :: "('e + 'a) \<Rightarrow> ('a \<Rightarrow> bool) \<Rightarrow> bool" where
  "gives r P = (case r of Inl _ \<Rightarrow> False | Inr x \<Rightarrow> P x)"

lemma gives_iff: "gives r P \<longleftrightarrow> (\<exists>x. r = Inr x \<and> P x)"
  by (simp add: gives_def split: sum.split)

section \<open>Strings\<close>

text \<open>
  Text is ASCII in the model: a Python string is a list of characters, and the
  case conversions act on the 26 Latin letters. The case mappings of the rest of
  Unicode are outside the model.
\<close>

definition code_of :: "char \<Rightarrow> nat" where
  "code_of c = of_char c"

definition py_isspace :: "char \<Rightarrow> bool" where
  "py_isspace c \<longleftrightarrow> (let n = code_of c in 9 \<le> n \<and> n \<le> 13 \<or> 28 \<le> n \<and> n \<le> 32 \<or> n = 133 \<or> n = 160)"

definition py_isdigit :: "char \<Rightarrow> bool" where
  "py_isdigit c \<longleftrightarrow> 48 \<le> code_of c \<and> code_of c \<le> 57"

definition py_isupper :: "char \<Rightarrow> bool" where
  "py_isupper c \<longleftrightarrow> 65 \<le> code_of c \<and> code_of c \<le> 90"

definition py_islower :: "char \<Rightarrow> bool" where
  "py_islower c \<longleftrightarrow> 97 \<le> code_of c \<and> code_of c \<le> 122"

definition py_isascii :: "char \<Rightarrow> bool" where
  "py_isascii c \<longleftrightarrow> code_of c < 128"

definition py_isalnum :: "char \<Rightarrow> bool" where
  "py_isalnum c \<longleftrightarrow> py_isdigit c \<or> py_isupper c \<or> py_islower c"

definition upper_char :: "char \<Rightarrow> char" where
  "upper_char c = (if py_islower c then char_of (code_of c - 32) else c)"

definition lower_char :: "char \<Rightarrow> char" where
  "lower_char c = (if py_isupper c then char_of (code_of c + 32) else c)"

definition py_upper :: "string \<Rightarrow> string" where
  "py_upper s = map upper_char s"

definition py_lower :: "string \<Rightarrow> string" where
  "py_lower s = map lower_char s"

definition py_strip :: "string \<Rightarrow> string" where
  "py_strip s = rev (dropWhile py_isspace (rev (dropWhile py_isspace s)))"

text \<open>\<open>''''.join(s.split())\<close>: every whitespace character goes.\<close>

definition join_split :: "string \<Rightarrow> string" where
  "join_split s = filter (\<lambda>c. \<not> py_isspace c) s"

definition starts_with :: "string \<Rightarrow> string \<Rightarrow> bool" where
  "starts_with p s \<longleftrightarrow> take (length p) s = p"

text \<open>Code equations over \<open>int\<close>, whose binary numerals evaluate faster than \<open>nat\<close>.\<close>

lemma int_code_of [code_unfold]: "int (code_of c) = of_char c"
  by (cases c) (simp add: code_of_def)

lemma char_test_code [code]:
  "py_isdigit c \<longleftrightarrow> (let n = of_char c :: int in 48 \<le> n \<and> n \<le> 57)"
  "py_isupper c \<longleftrightarrow> (let n = of_char c :: int in 65 \<le> n \<and> n \<le> 90)"
  "py_islower c \<longleftrightarrow> (let n = of_char c :: int in 97 \<le> n \<and> n \<le> 122)"
  "py_isascii c \<longleftrightarrow> (of_char c :: int) < 128"
  "py_isspace c \<longleftrightarrow> (let n = of_char c :: int in 9 \<le> n \<and> n \<le> 13 \<or> 28 \<le> n \<and> n \<le> 32 \<or> n = 133 \<or> n = 160)"
  unfolding py_isdigit_def py_isupper_def py_islower_def py_isascii_def py_isspace_def
  by (simp_all add: Let_def flip: int_code_of)

lemma char_of_int: "char_of (int n) = char_of n"
  by (simp add: char_of_def bit_of_nat_iff_bit)

lemma case_char_code [code]:
  "upper_char c = (if py_islower c then char_of (of_char c - 32 :: int) else c)"
  "lower_char c = (if py_isupper c then char_of (of_char c + 32 :: int) else c)"
proof -
  have "py_islower c \<Longrightarrow> (of_char c - 32 :: int) = int (code_of c - 32)"
    by (auto simp: py_islower_def simp flip: int_code_of)
  then show "upper_char c = (if py_islower c then char_of (of_char c - 32 :: int) else c)"
    by (simp add: upper_char_def char_of_int)
  have "(of_char c + 32 :: int) = int (code_of c + 32)" by (simp flip: int_code_of)
  then show "lower_char c = (if py_isupper c then char_of (of_char c + 32 :: int) else c)"
    by (simp only: lower_char_def char_of_int)
qed

lemma code_of_char_of: "n < 256 \<Longrightarrow> code_of (char_of n) = n"
  by (simp add: code_of_def)

lemma code_of_lt [simp]: "code_of c < 256"
  by (simp add: code_of_def)

lemma upper_char_upper [simp]: "upper_char (upper_char c) = upper_char c"
proof (cases "py_islower c")
  case True
  then have "65 \<le> code_of (upper_char c) \<and> code_of (upper_char c) \<le> 90"
    using code_of_lt [of c]
    by (auto simp: upper_char_def py_islower_def code_of_char_of)
  then show ?thesis
    by (auto simp: upper_char_def [of "upper_char c"] py_islower_def)
qed (simp add: upper_char_def)

lemma py_upper_idem [simp]: "py_upper (py_upper s) = py_upper s"
  by (simp add: py_upper_def)

lemma py_upper_length [simp]: "length (py_upper s) = length s"
  by (simp add: py_upper_def)

lemma py_strip_Nil [simp]: "py_strip [] = []"
  by (simp add: py_strip_def)

lemma py_strip_subset: "set (py_strip s) \<subseteq> set s"
  unfolding py_strip_def by (metis order_trans set_dropWhileD set_rev subsetI)

lemma dropWhile_last_id: "xs \<noteq> [] \<Longrightarrow> \<not> P (hd xs) \<Longrightarrow> dropWhile P xs = xs"
  by (cases xs) auto

lemma strip_last:
  "dropWhile P (rev (dropWhile P xs)) \<noteq> [] \<Longrightarrow>
   \<not> P (last (dropWhile P (rev (dropWhile P xs))))"
proof -
  let ?ys = "dropWhile P xs"
  assume ne: "dropWhile P (rev ?ys) \<noteq> []"
  then have "?ys \<noteq> []" by (metis dropWhile.simps(1) rev.simps(1))
  have "last (dropWhile P (rev ?ys)) = last (rev ?ys)"
    using ne by (metis last_appendR takeWhile_dropWhile_id)
  also have "\<dots> = hd ?ys"
    using \<open>?ys \<noteq> []\<close> by (simp add: last_rev)
  finally show ?thesis
    using \<open>?ys \<noteq> []\<close> by (metis hd_dropWhile)
qed

lemma py_strip_idem [simp]: "py_strip (py_strip s) = py_strip s"
proof (cases "py_strip s = []")
  case False
  let ?t = "dropWhile py_isspace (rev (dropWhile py_isspace s))"
  have t: "?t \<noteq> []" using False by (auto simp: py_strip_def)
  have "\<not> py_isspace (last ?t)" using t by (rule strip_last)
  then have "dropWhile py_isspace (rev ?t) = rev ?t"
    using t by (intro dropWhile_last_id) (auto simp: hd_rev)
  moreover have "dropWhile py_isspace ?t = ?t"
    by (rule dropWhile_last_id [OF t]) (metis hd_dropWhile t)
  ultimately show ?thesis by (simp add: py_strip_def)
qed simp

section \<open>Queries over a table\<close>

text \<open>
  A table is the list of its rows in row-id order. \<open>find_row\<close> is
  \<^verbatim>\<open>SELECT ... WHERE key = ?\<close> with \<open>fetchone\<close>, \<open>update_where\<close> an
  \<^verbatim>\<open>UPDATE ... WHERE\<close>, \<open>count_where\<close> a \<^verbatim>\<open>COUNT(*)\<close> and the row count of
  an update, \<open>sum_where\<close> a \<^verbatim>\<open>COALESCE(SUM(...), 0)\<close>.
\<close>

definition find_row :: "('r \<Rightarrow> int) \<Rightarrow> int \<Rightarrow> 'r list \<Rightarrow> 'r option" where
  "find_row key k rows = find (\<lambda>r. key r = k) rows"

definition update_where :: "('r \<Rightarrow> bool) \<Rightarrow> ('r \<Rightarrow> 'r) \<Rightarrow> 'r list \<Rightarrow> 'r list" where
  "update_where P f rows = map (\<lambda>r. if P r then f r else r) rows"

definition count_where :: "('r \<Rightarrow> bool) \<Rightarrow> 'r list \<Rightarrow> int" where
  "count_where P rows = int (length (filter P rows))"

definition sum_where :: "('r \<Rightarrow> int) \<Rightarrow> ('r \<Rightarrow> bool) \<Rightarrow> 'r list \<Rightarrow> int" where
  "sum_where f P rows = sum_list (map f (filter P rows))"

text \<open>\<^verbatim>\<open>ORDER BY key LIMIT n\<close>: a stable sort, then the first \<open>n\<close> rows.\<close>

definition order_limit :: "('r \<Rightarrow> 'k::linorder) \<Rightarrow> int \<Rightarrow> 'r list \<Rightarrow> 'r list" where
  "order_limit key n rows = take (nat n) (sort_key key rows)"

lemma find_row_Nil [simp]: "find_row key k [] = None"
  by (simp add: find_row_def)

lemma find_row_Cons [simp]:
  "find_row key k (r # rows) = (if key r = k then Some r else find_row key k rows)"
  by (simp add: find_row_def)

lemma find_row_SomeD: "find_row key k rows = Some r \<Longrightarrow> r \<in> set rows \<and> key r = k"
  by (auto simp: find_row_def find_Some_iff)

lemma find_row_None_iff: "find_row key k rows = None \<longleftrightarrow> k \<notin> key ` set rows"
  by (auto simp: find_row_def find_None_iff)

lemma find_row_append:
  "find_row key k (xs @ ys) = (case find_row key k xs of None \<Rightarrow> find_row key k ys | Some r \<Rightarrow> Some r)"
  by (induction xs) auto

lemma find_row_distinct:
  "distinct (map key rows) \<Longrightarrow> r \<in> set rows \<Longrightarrow> find_row key (key r) rows = Some r"
  by (induction rows) (auto simp: image_iff)

lemma find_row_update_where:
  assumes "\<And>r. key (f r) = key r"
  shows "find_row key k (update_where P f rows) =
    map_option (\<lambda>r. if P r then f r else r) (find_row key k rows)"
  using assms by (induction rows) (auto simp: update_where_def)

lemma update_where_Nil [simp]: "update_where P f [] = []"
  by (simp add: update_where_def)

lemma update_where_Cons [simp]:
  "update_where P f (r # rows) = (if P r then f r else r) # update_where P f rows"
  by (simp add: update_where_def)

lemma length_update_where [simp]: "length (update_where P f rows) = length rows"
  by (simp add: update_where_def)

lemma map_update_where:
  "(\<And>r. P r \<Longrightarrow> g (f r) = g r) \<Longrightarrow> map g (update_where P f rows) = map g rows"
  by (simp add: update_where_def)

lemma set_update_where: "set (update_where P f rows) = (\<lambda>r. if P r then f r else r) ` set rows"
  by (simp add: update_where_def)

lemma count_where_Nil [simp]: "count_where P [] = 0"
  by (simp add: count_where_def)

lemma count_where_Cons [simp]:
  "count_where P (r # rows) = (if P r then 1 else 0) + count_where P rows"
  by (simp add: count_where_def)

lemma count_where_append [simp]:
  "count_where P (xs @ ys) = count_where P xs + count_where P ys"
  by (simp add: count_where_def)

lemma count_where_nonneg [simp]: "0 \<le> count_where P rows"
  by (simp add: count_where_def)

lemma count_where_0_iff: "count_where P rows = 0 \<longleftrightarrow> (\<forall>r\<in>set rows. \<not> P r)"
  by (auto simp: count_where_def filter_empty_conv)

lemma count_where_pos_iff: "0 < count_where P rows \<longleftrightarrow> (\<exists>r\<in>set rows. P r)"
  using count_where_0_iff [of P rows] count_where_nonneg [of P rows]
  by (metis order_le_less order_less_irrefl)

lemma count_where_key:
  "distinct (map key rows) \<Longrightarrow> find_row key k rows = Some r \<Longrightarrow> count_where (\<lambda>r. key r = k) rows = 1"
proof (induction rows)
  case (Cons x rows)
  have "count_where (\<lambda>r. key r = k) rows = 0" if "key x = k"
    using Cons.prems(1) that by (auto simp: count_where_0_iff intro: rev_image_eqI)
  then show ?case using Cons by auto
qed simp

lemma count_where_mono:
  "(\<And>r. r \<in> set rows \<Longrightarrow> P r \<Longrightarrow> Q r) \<Longrightarrow> count_where P rows \<le> count_where Q rows"
  by (induction rows) fastforce+

lemma count_where_cong:
  "(\<And>r. r \<in> set rows \<Longrightarrow> P r = Q r) \<Longrightarrow> count_where P rows = count_where Q rows"
  by (induction rows) auto

lemma count_where_update_same:
  "(\<And>r. P r \<Longrightarrow> Q (f r) = Q r) \<Longrightarrow> count_where Q (update_where P f rows) = count_where Q rows"
  by (induction rows) auto

lemma sum_where_Nil [simp]: "sum_where f P [] = 0"
  by (simp add: sum_where_def)

lemma sum_where_Cons [simp]:
  "sum_where f P (r # rows) = (if P r then f r else 0) + sum_where f P rows"
  by (simp add: sum_where_def)

lemma sum_where_append [simp]:
  "sum_where f P (xs @ ys) = sum_where f P xs + sum_where f P ys"
  by (simp add: sum_where_def)

lemma sum_where_nonneg:
  "(\<And>r. r \<in> set rows \<Longrightarrow> P r \<Longrightarrow> 0 \<le> f r) \<Longrightarrow> 0 \<le> sum_where f P rows"
  by (induction rows) auto

lemma set_order_limit: "set (order_limit key n rows) \<subseteq> set rows"
  by (metis order_limit_def set_sort set_take_subset)

lemma order_limit_all:
  "int (length rows) \<le> n \<Longrightarrow> order_limit key n rows = sort_key key rows"
  by (simp add: order_limit_def)

lemma length_order_limit: "int (length (order_limit key n rows)) \<le> max 0 n"
  by (simp add: order_limit_def)

lemma sum_where_sort [simp]: "sum_where f P (sort_key key rows) = sum_where f P rows"
proof -
  have ins: "sum_where f P (insort_key key x xs) = sum_where f P (x # xs)" for x xs
    by (induction xs) auto
  show ?thesis by (induction rows) (simp_all add: ins)
qed

section \<open>The table interface\<close>

text \<open>
  One table of the database record: its rows, its functional update, its key.
  Everything the other theories need of a write to one table is proved here
  once, from the two laws of a record field.
\<close>

locale table =
  fixes rows :: "'d \<Rightarrow> 'r list"
    and put :: "('r list \<Rightarrow> 'r list) \<Rightarrow> 'd \<Rightarrow> 'd"
    and key :: "'r \<Rightarrow> int"
  assumes rows_put: "rows (put f d) = f (rows d)"
begin

lemma lookup_insert:
  "find_row key k (rows (put (\<lambda>rs. rs @ [r]) d)) =
    (case find_row key k (rows d) of
       Some r' \<Rightarrow> Some r' | None \<Rightarrow> if key r = k then Some r else None)"
  by (simp add: rows_put find_row_append split: option.splits)

lemma lookup_insert_fresh:
  "key r \<notin> key ` set (rows d) \<Longrightarrow>
   find_row key (key r) (rows (put (\<lambda>rs. rs @ [r]) d)) = Some r"
  using find_row_None_iff [of key "key r" "rows d"] by (simp add: lookup_insert)

lemma lookup_update:
  assumes "\<And>r. key (f r) = key r"
  shows "find_row key k (rows (put (update_where P f) d)) =
    map_option (\<lambda>r. if P r then f r else r) (find_row key k (rows d))"
  unfolding rows_put by (rule find_row_update_where) (rule assms)

lemma keys_update:
  assumes "\<And>r. key (f r) = key r"
  shows "map key (rows (put (update_where P f) d)) = map key (rows d)"
  by (simp add: rows_put map_update_where assms)

lemma distinct_insert:
  "distinct (map key (rows d)) \<Longrightarrow> key r \<notin> key ` set (rows d) \<Longrightarrow>
   distinct (map key (rows (put (\<lambda>rs. rs @ [r]) d)))"
  by (auto simp: rows_put)

lemma count_update_one:
  assumes "distinct (map key (rows d))" and "find_row key k (rows d) = Some r"
    and "\<And>r. key (f r) = key r"
  shows "count_where Q (rows (put (update_where (\<lambda>r. key r = k) f) d)) =
    count_where Q (rows d) - (if Q r then 1 else 0) + (if Q (f r) then 1 else 0)"
  using assms(1,2)
proof (simp only: rows_put, induction "rows d" arbitrary: d)
  case Nil
  then show ?case by simp
next
  case (Cons x xs)
  have same: "update_where (\<lambda>r. key r = key x) f xs = xs"
    using Cons.prems(1) Cons.hyps(2)[symmetric]
    by (auto simp: update_where_def image_iff intro!: map_idI)
  have step: "count_where Q (update_where (\<lambda>r. key r = k) f xs) =
      count_where Q xs - (if Q r then 1 else 0) + (if Q (f r) then 1 else 0)"
    if "key x \<noteq> k"
    using Cons.hyps(1) [of "put (\<lambda>_. xs) d"] Cons.prems Cons.hyps(2)[symmetric] that
    by (simp add: rows_put)
  show ?case
    using Cons.prems Cons.hyps(2)[symmetric] same step by auto
qed

end

end
