(* ===== verification/Wallet.thy ===== *)
theory Wallet
  imports Prelude
begin

text \<open>
  Address rules of \<^verbatim>\<open>wallet.py\<close>: the IBAN-style checksum of Nimiq user-friendly
  addresses, their canonical form, and the rule that every financial path
  calls, \<open>normalise_nimiq_address\<close>. The placeholder addresses of local
  development are included with their flag as an argument.
\<close>

section \<open>Checksum\<close>

definition NIMIQ_ADDRESS_ALPHABET :: string where
  "NIMIQ_ADDRESS_ALPHABET = ''0123456789ABCDEFGHJKLMNPQRSTUVXY''"

definition normalise_address_candidate :: "string \<Rightarrow> string" where
  "normalise_address_candidate value = join_split (py_upper (py_strip value))"

text \<open>
  One character of the rearranged address: a digit stays, a letter becomes the
  two decimal digits of \<open>ord(c) - ord('A') + 10\<close>, anything else raises.
\<close>

definition iban_part :: "char \<Rightarrow> string option" where
  "iban_part c =
    (if py_isdigit c then Some [c]
     else if py_isupper c
     then (let n = code_of c - 55 in Some [char_of (48 + n div 10), char_of (48 + n mod 10)])
     else None)"

lemma iban_part_code [code]:
  "iban_part c = (if py_isdigit c then Some [c] else if py_isupper c
     then (let n = of_char c - 55 :: int in Some [char_of (48 + n div 10), char_of (48 + n mod 10)])
     else None)"
proof -
  have "char_of (48 + (of_char c - 55 :: int) div 10) = char_of (48 + (code_of c - 55) div 10)
      \<and> char_of (48 + (of_char c - 55 :: int) mod 10) = char_of (48 + (code_of c - 55) mod 10)"
    if "py_isupper c"
  proof -
    have n: "(of_char c - 55 :: int) = int (code_of c - 55)"
      using that by (auto simp: py_isupper_def simp flip: int_code_of)
    have "48 + int m div 10 = int (48 + m div 10)" "48 + int m mod 10 = int (48 + m mod 10)" for m :: nat
      by (simp_all add: zdiv_int zmod_int)
    then show ?thesis unfolding n by (simp only: char_of_int simp_thms)
  qed
  then show ?thesis by (simp add: iban_part_def Let_def)
qed

fun iban_parts :: "string \<Rightarrow> string option" where
  "iban_parts [] = Some []"
| "iban_parts (c # cs) =
    (case iban_part c of None \<Rightarrow> None
     | Some p \<Rightarrow> (case iban_parts cs of None \<Rightarrow> None | Some q \<Rightarrow> Some (p @ q)))"

definition iban_rearranged_numeric :: "string \<Rightarrow> string res" where
  "iban_rearranged_numeric a =
    (case iban_parts (drop 4 a @ take 4 a) of
       None \<Rightarrow> Inl (ValueError ''address contains invalid characters'') | Some s \<Rightarrow> Inr s)"

definition digit_value :: "char \<Rightarrow> int" where
  "digit_value c = int (code_of c) - 48"

definition mod97_decimal_string :: "string \<Rightarrow> int" where
  "mod97_decimal_string value =
     foldl (\<lambda>remainder c. (remainder * 10 + digit_value c) mod 97) 0 value"

definition is_valid_nimiq_user_friendly_address :: "string \<Rightarrow> bool" where
  "is_valid_nimiq_user_friendly_address value =
    (let address = normalise_address_candidate value in
     if length address \<noteq> 36 then False
     else if \<not> starts_with ''NQ'' address then False
     else if \<not> list_all py_isdigit (take 2 (drop 2 address)) then False
     else if \<not> list_all (\<lambda>c. c \<in> set NIMIQ_ADDRESS_ALPHABET) (drop 4 address) then False
     else (case iban_rearranged_numeric address of Inl _ \<Rightarrow> False
           | Inr s \<Rightarrow> mod97_decimal_string s = 1))"

fun format_user_friendly_address :: "string \<Rightarrow> string" where
  "format_user_friendly_address (a # b # c # d # e # rest) =
     a # b # c # d # CHR '' '' # format_user_friendly_address (e # rest)"
| "format_user_friendly_address s = s"

definition is_allowed_dev_placeholder_address :: "string \<Rightarrow> bool" where
  "is_allowed_dev_placeholder_address value =
    (let candidate = py_upper (py_strip value) in
     starts_with ''NQ00 NIMHUNT DEV '' candidate
     \<and> (starts_with ''NQ00 NIMHUNT DEV SPOT DEPOSIT'' candidate
        \<or> starts_with ''NQ00 NIMHUNT DEV CLAIM PAYOUT'' candidate
        \<or> starts_with ''NQ00 NIMHUNT DEV CANCELLATION FEE POOL'' candidate))"

definition normalise_nimiq_address :: "bool \<Rightarrow> string \<Rightarrow> string res" where
  "normalise_nimiq_address allow_dev_placeholder value =
    (let raw = py_strip value in
     if raw = [] then Inl (ValueError ''address must be non-empty'')
     else if allow_dev_placeholder \<and> is_allowed_dev_placeholder_address raw then Inr raw
     else let address = normalise_address_candidate raw in
       if is_valid_nimiq_user_friendly_address address
       then Inr (format_user_friendly_address address)
       else Inl (ValueError ''address must be a valid Nimiq user-friendly address''))"

section \<open>Canonical form\<close>

lemma py_isspace_space: "py_isspace (CHR '' '')"
  by (simp add: py_isspace_def code_of_def)

lemma join_split_Nil [simp]: "join_split [] = []"
  by (simp add: join_split_def)

lemma join_split_format [simp]: "join_split (format_user_friendly_address s) = join_split s"
  by (induction s rule: format_user_friendly_address.induct)
     (auto simp: join_split_def py_isspace_space)

lemma join_split_idem [simp]: "join_split (join_split s) = join_split s"
  by (simp add: join_split_def)

lemma upper_space_iff: "py_isspace (upper_char c) = py_isspace c"
proof (cases "py_islower c")
  case True
  then have "\<not> py_isspace c" by (auto simp: py_isspace_def py_islower_def Let_def)
  moreover have "code_of c - 32 < 256" using code_of_lt [of c] by linarith
  then have "code_of (upper_char c) = code_of c - 32"
    using True by (simp only: upper_char_def code_of_char_of if_True)
  then have "\<not> py_isspace (upper_char c)"
    using True by (auto simp: py_isspace_def py_islower_def Let_def)
  ultimately show ?thesis by simp
qed (simp add: upper_char_def)

lemma join_split_upper: "join_split (py_upper s) = py_upper (join_split s)"
  by (induction s) (auto simp: join_split_def py_upper_def upper_space_iff)

lemma join_split_strip [simp]: "join_split (py_strip s) = join_split s"
proof -
  have d: "filter (\<lambda>c. \<not> P c) (dropWhile P xs) = filter (\<lambda>c. \<not> P c) xs" for P and xs :: string
    by (induction xs) auto
  have "filter (\<lambda>c. \<not> py_isspace c) (rev (dropWhile py_isspace (rev t)))
      = filter (\<lambda>c. \<not> py_isspace c) t" for t
    by (metis d rev_filter rev_rev_ident)
  then show ?thesis unfolding join_split_def py_strip_def by (simp add: d)
qed

lemma normalise_candidate_alt: "normalise_address_candidate s = py_upper (join_split s)"
  by (simp add: normalise_address_candidate_def join_split_upper join_split_strip)

lemma candidate_idem [simp]:
  "normalise_address_candidate (normalise_address_candidate s) = normalise_address_candidate s"
  by (simp add: normalise_candidate_alt join_split_upper)

lemma candidate_strip [simp]: "normalise_address_candidate (py_strip s) = normalise_address_candidate s"
  by (simp add: normalise_candidate_alt)

lemma candidate_format [simp]:
  "normalise_address_candidate (format_user_friendly_address s) = normalise_address_candidate s"
  by (simp add: normalise_candidate_alt)

lemma valid_candidate [simp]:
  "is_valid_nimiq_user_friendly_address (normalise_address_candidate s)
     = is_valid_nimiq_user_friendly_address s"
  by (simp add: is_valid_nimiq_user_friendly_address_def)

lemma normalise_idem:
  assumes "normalise_nimiq_address False v = Inr a"
  shows "normalise_nimiq_address False a = Inr a"
proof -
  have v: "is_valid_nimiq_user_friendly_address v" "a = format_user_friendly_address (normalise_address_candidate v)"
    using assms by (auto simp: normalise_nimiq_address_def Let_def split: if_splits)
  have "is_valid_nimiq_user_friendly_address a"
    using v valid_candidate [of a] valid_candidate [of v] by simp
  moreover have "py_strip a \<noteq> []"
  proof
    assume "py_strip a = []"
    then have "normalise_address_candidate a = []" by (simp add: normalise_address_candidate_def py_upper_def)
    then have "\<not> is_valid_nimiq_user_friendly_address a" by (simp add: is_valid_nimiq_user_friendly_address_def)
    then show False using calculation by simp
  qed
  ultimately show ?thesis using v by (simp add: normalise_nimiq_address_def Let_def)
qed

section \<open>The checksum as a number\<close>

text \<open>The decimal number a digit string denotes; \<open>mod97\<close> computes it modulo 97.\<close>

definition decimal_value :: "string \<Rightarrow> int" where
  "decimal_value = foldl (\<lambda>n c. n * 10 + digit_value c) 0"

lemma decimal_value_append:
  "decimal_value (s @ t) = decimal_value s * 10 ^ length t + decimal_value t"
proof -
  have "foldl (\<lambda>n c. n * 10 + digit_value c) k t = k * 10 ^ length t + decimal_value t" for k
  proof (induction t rule: rev_induct)
    case (snoc x xs)
    have "(a + b) * 10 + e = a * 10 + (b * 10 + e)" for a b e :: int by simp
    with snoc show ?case
      by (simp only: decimal_value_def foldl_append foldl_Cons foldl_Nil length_append_singleton
          power_Suc2 mult.assoc)
  qed (simp add: decimal_value_def)
  then show ?thesis unfolding decimal_value_def foldl_append .
qed

lemma mod97_decimal: "mod97_decimal_string s = decimal_value s mod 97"
proof (induction s rule: rev_induct)
  case (snoc x xs)
  have "mod97_decimal_string (xs @ [x]) = (mod97_decimal_string xs * 10 + digit_value x) mod 97"
    by (simp add: mod97_decimal_string_def)
  also have "\<dots> = (decimal_value xs * 10 + digit_value x) mod 97"
    unfolding snoc.IH by (metis mod_add_left_eq mod_mult_left_eq)
  finally show ?case by (simp add: decimal_value_def)
qed (simp add: mod97_decimal_string_def decimal_value_def)

lemma iban_parts_append:
  "iban_parts (s @ t) =
    (case iban_parts s of None \<Rightarrow> None
     | Some p \<Rightarrow> (case iban_parts t of None \<Rightarrow> None | Some q \<Rightarrow> Some (p @ q)))"
  by (induction s) (auto split: option.splits)

text \<open>The value a character contributes: 0 to 9 for a digit, 10 to 35 for a letter.\<close>

definition iban_value :: "char \<Rightarrow> int" where
  "iban_value c = (if py_isdigit c then int (code_of c) - 48 else int (code_of c) - 55)"

lemma iban_part_value: "iban_part c = Some p \<Longrightarrow>
  decimal_value p = iban_value c \<and> length p = (if py_isdigit c then 1 else 2)"
proof -
  assume p: "iban_part c = Some p"
  show ?thesis
  proof (cases "py_isdigit c")
    case True
    with p show ?thesis
      by (auto simp: iban_part_def decimal_value_def digit_value_def iban_value_def)
  next
    case False
    with p have u: "py_isupper c" by (auto simp: iban_part_def split: if_splits)
    let ?n = "code_of c - 55"
    have n: "?n \<le> 35" "int ?n = int (code_of c) - 55" using u by (auto simp: py_isupper_def)
    have pe: "p = [char_of (48 + ?n div 10), char_of (48 + ?n mod 10)]"
      using p False u by (auto simp: iban_part_def Let_def)
    have d: "digit_value (char_of (48 + k)) = int k" if "k < 100" for k :: nat
    proof -
      have "48 + k < 256" using that by simp
      then have "code_of (char_of (48 + k)) = 48 + k" by (rule code_of_char_of)
      then show ?thesis by (simp only: digit_value_def of_nat_add)
    qed
    have "?n div 10 < 100" "?n mod 10 < 100" using n(1) by linarith+
    then have "decimal_value p = int (?n div 10) * 10 + int (?n mod 10)"
      by (simp only: pe decimal_value_def foldl_Cons foldl_Nil d mult_zero_left add_0)
    also have "\<dots> = int (?n div 10 * 10 + ?n mod 10)"
      by (simp only: of_nat_add of_nat_mult of_nat_numeral)
    also have "\<dots> = int ?n" by (simp only: div_mult_mod_eq)
    finally have "decimal_value p = iban_value c" using False n(2) by (simp only: iban_value_def if_False)
    then show ?thesis using False pe by simp
  qed
qed

lemma iban_value_inj:
  assumes "iban_part c \<noteq> None" and "iban_part c' \<noteq> None" and "py_isdigit c = py_isdigit c'"
    and "iban_value c = iban_value c'"
  shows "c = c'"
proof -
  have "code_of c = code_of c'"
    using assms by (auto simp: iban_value_def split: if_splits)
  then show ?thesis by (simp add: code_of_def)
qed

lemma iban_value_bounds: "iban_part c \<noteq> None \<Longrightarrow> 0 \<le> iban_value c \<and> iban_value c \<le> 35"
  by (auto simp: iban_part_def iban_value_def py_isdigit_def py_isupper_def split: if_splits)

lemma coprime_10_97: "coprime (10::int) 97"
proof (rule coprimeI)
  fix c :: int
  assume "c dvd 10" "c dvd 97"
  then have "c dvd 97 * 33 - 10 * 320" by (meson dvd_diff dvd_mult2)
  then show "c dvd 1" by simp
qed

lemma pow10_coprime_97: "coprime ((10::int) ^ n) 97"
proof -
  show ?thesis using coprime_10_97 by (simp add: coprime_power_left_iff)
qed

lemma substitution_changes_mod97:
  assumes "iban_parts (s @ c # t) = Some x" and "iban_parts (s @ c' # t) = Some y"
    and "py_isdigit c = py_isdigit c'" and "c \<noteq> c'"
  shows "mod97_decimal_string x \<noteq> mod97_decimal_string y"
proof
  assume eq: "mod97_decimal_string x = mod97_decimal_string y"
  obtain u v p p' where uv: "iban_parts s = Some u" "iban_parts t = Some v"
      "iban_part c = Some p" "iban_part c' = Some p'"
    and x: "x = u @ p @ v" and y: "y = u @ p' @ v"
    using assms(1,2) by (auto simp: iban_parts_append split: option.splits)
  have p: "decimal_value p = iban_value c" "decimal_value p' = iban_value c'" "length p = length p'"
    using iban_part_value [OF uv(3)] iban_part_value [OF uv(4)] assms(3) by auto
  have "decimal_value x - decimal_value y = (iban_value c - iban_value c') * 10 ^ length v"
    by (simp add: x y decimal_value_append p algebra_simps)
  moreover have "decimal_value x mod 97 = decimal_value y mod 97"
    using eq by (simp add: mod97_decimal)
  ultimately have "97 dvd (iban_value c - iban_value c') * 10 ^ length v"
    by (metis mod_eq_dvd_iff)
  then have "97 dvd (iban_value c - iban_value c')"
    using pow10_coprime_97 [of "length v"] by (metis coprime_commute coprime_dvd_mult_left_iff)
  moreover have "\<bar>iban_value c - iban_value c'\<bar> < 97"
    using iban_value_bounds [of c] iban_value_bounds [of c'] uv by auto
  ultimately have "iban_value c = iban_value c'" using dvd_imp_le_int [of "iban_value c - iban_value c'" 97] by fastforce
  then show False using iban_value_inj [of c c'] uv assms(3,4) by auto
qed

end
