(* ===== verification/Constants.thy ===== *)
theory Constants
  imports Prelude
begin

text \<open>
  The settings of \<^verbatim>\<open>constants.py\<close> at their default values. Status, type and
  reason codes are simp rules, since the code compares them everywhere; the
  numeric settings unfold through the collection \<open>const_defs\<close>.
\<close>

section \<open>Draft creation and Spot limits\<close>

definition DRAFT_CREATION_WINDOW_SECONDS :: int where
  [const_defs]: "DRAFT_CREATION_WINDOW_SECONDS = 60 * 60"

definition DRAFT_RESERVATION_STALE_SECONDS :: int where
  [const_defs]: "DRAFT_RESERVATION_STALE_SECONDS = 5 * 60"

definition DRAFT_CREATION_LIMIT_PER_USER :: int where
  [const_defs]: "DRAFT_CREATION_LIMIT_PER_USER = 10"

definition DRAFT_CREATION_GLOBAL_LIMIT :: int where
  [const_defs]: "DRAFT_CREATION_GLOBAL_LIMIT = 200"

definition SPOT_TITLE_MIN_CHARS :: int where
  [const_defs]: "SPOT_TITLE_MIN_CHARS = 3"

definition SPOT_TITLE_MAX_CHARS :: int where
  [const_defs]: "SPOT_TITLE_MAX_CHARS = 27"

definition MIN_SPOT_RADIUS_METRES :: int where
  [const_defs]: "MIN_SPOT_RADIUS_METRES = 25"

definition MAX_SPOT_RADIUS_METRES :: int where
  [const_defs]: "MAX_SPOT_RADIUS_METRES = 1000"

definition MIN_SPOT_CLAIM_DURATION_SECONDS :: int where
  [const_defs]: "MIN_SPOT_CLAIM_DURATION_SECONDS = 0"

definition MAX_SPOT_CLAIM_DURATION_SECONDS :: int where
  [const_defs]: "MAX_SPOT_CLAIM_DURATION_SECONDS = 12 * 60 * 60"

definition MIN_SPOT_ENDS_AFTER_SECONDS :: int where
  [const_defs]: "MIN_SPOT_ENDS_AFTER_SECONDS = 60 * 60"

definition MAX_SPOT_ENDS_AFTER_SECONDS :: int where
  [const_defs]: "MAX_SPOT_ENDS_AFTER_SECONDS = 4 * 7 * 24 * 60 * 60"

definition DEFAULT_DRAFT_SPOT_ENDS_AFTER_SECONDS :: int where
  [const_defs]: "DEFAULT_DRAFT_SPOT_ENDS_AFTER_SECONDS = 24 * 60 * 60"

definition MIN_SPOT_MAX_CLAIMS_PER_USER :: int where
  [const_defs]: "MIN_SPOT_MAX_CLAIMS_PER_USER = 0"

definition MAX_SPOT_MAX_CLAIMS_PER_USER :: int where
  [const_defs]: "MAX_SPOT_MAX_CLAIMS_PER_USER = 10"

definition MIN_SPOT_MAX_TOTAL_CLAIMS :: int where
  [const_defs]: "MIN_SPOT_MAX_TOTAL_CLAIMS = 1"

definition MIN_PRIZEDRAW_MAX_TOTAL_CLAIMS :: int where
  [const_defs]: "MIN_PRIZEDRAW_MAX_TOTAL_CLAIMS = 0"

definition MIN_FINITE_PRIZEDRAW_TOTAL_PARTICIPANTS :: int where
  [const_defs]: "MIN_FINITE_PRIZEDRAW_TOTAL_PARTICIPANTS = 2"

definition MAX_SPOT_MAX_TOTAL_CLAIMS :: int where
  [const_defs]: "MAX_SPOT_MAX_TOTAL_CLAIMS = 1000"

definition MIN_PRIZEDRAW_PRIZE_COUNT :: int where
  [const_defs]: "MIN_PRIZEDRAW_PRIZE_COUNT = 1"

definition MAX_PRIZEDRAW_PRIZE_COUNT :: int where
  [const_defs]: "MAX_PRIZEDRAW_PRIZE_COUNT = 100"

definition DEFAULT_DRAFT_PRIZEDRAW_PRIZE_COUNT :: int where
  [const_defs]: "DEFAULT_DRAFT_PRIZEDRAW_PRIZE_COUNT = 1"

definition PRIZEDRAW_PRIZE_COUNT_OPTIONS :: "int list" where
  [const_defs]: "PRIZEDRAW_PRIZE_COUNT_OPTIONS =
    [1, 2, 3, 4, 5, 6, 7, 8, 9, 10, 11, 12, 15, 20, 25, 50, 100]"

definition DEFAULT_DRAFT_PRIZEDRAW_MAX_TOTAL_CLAIMS :: int where
  [const_defs]: "DEFAULT_DRAFT_PRIZEDRAW_MAX_TOTAL_CLAIMS = MIN_PRIZEDRAW_MAX_TOTAL_CLAIMS"

section \<open>Money, in Luna\<close>

definition LUNA_PER_NIM :: int where
  [const_defs]: "LUNA_PER_NIM = 100000"

definition MIN_SPOT_TOTAL_VALUE_NIM :: int where
  [const_defs]: "MIN_SPOT_TOTAL_VALUE_NIM = 500"

definition MIN_SPOT_TOTAL_VALUE :: int where
  [const_defs]: "MIN_SPOT_TOTAL_VALUE = MIN_SPOT_TOTAL_VALUE_NIM * LUNA_PER_NIM"

definition MIN_STANDARD_CLAIM_PAYOUT :: int where
  [const_defs]: "MIN_STANDARD_CLAIM_PAYOUT = 100 * LUNA_PER_NIM"

definition MIN_PRIZEDRAW_PRIZE_PAYOUT :: int where
  [const_defs]: "MIN_PRIZEDRAW_PRIZE_PAYOUT = 1000 * LUNA_PER_NIM"

definition STANDARD_SPOT_CREATION_FEE :: int where
  [const_defs]: "STANDARD_SPOT_CREATION_FEE = 200 * LUNA_PER_NIM"

definition PRIZEDRAW_SPOT_CREATION_FEE :: int where
  [const_defs]: "PRIZEDRAW_SPOT_CREATION_FEE = 200 * LUNA_PER_NIM"

definition SPOT_CANCELLATION_FEE :: int where
  [const_defs]: "SPOT_CANCELLATION_FEE = 500 * LUNA_PER_NIM"

section \<open>Draft defaults\<close>

definition DEFAULT_DRAFT_SPOT_RADIUS_METRES :: int where
  [const_defs]: "DEFAULT_DRAFT_SPOT_RADIUS_METRES = 200"

definition DEFAULT_DRAFT_SPOT_CLAIM_DURATION_SECONDS :: int where
  [const_defs]: "DEFAULT_DRAFT_SPOT_CLAIM_DURATION_SECONDS = 0"

definition DEFAULT_DRAFT_SPOT_MAX_CLAIMS_PER_USER :: int where
  [const_defs]: "DEFAULT_DRAFT_SPOT_MAX_CLAIMS_PER_USER = 1"

definition DEFAULT_DRAFT_SPOT_MAX_TOTAL_CLAIMS :: int where
  [const_defs]: "DEFAULT_DRAFT_SPOT_MAX_TOTAL_CLAIMS = MIN_SPOT_MAX_TOTAL_CLAIMS"

definition DEFAULT_DRAFT_SPOT_TOTAL_VALUE :: int where
  [const_defs]: "DEFAULT_DRAFT_SPOT_TOTAL_VALUE = MIN_SPOT_TOTAL_VALUE"

definition DEFAULT_DRAFT_SPOT_USE_PASSWORD :: int where
  [const_defs]: "DEFAULT_DRAFT_SPOT_USE_PASSWORD = 0"

definition SPOT_DEPOSIT_KEY_VERSION :: int where
  [const_defs]: "SPOT_DEPOSIT_KEY_VERSION = 1"

section \<open>Claim location and heartbeat budget\<close>

definition CLAIM_PAYOUT_ADDRESS_MAX_CHARS :: int where
  [const_defs]: "CLAIM_PAYOUT_ADDRESS_MAX_CHARS = 160"

definition CLAIM_LOCATION_STALE_AFTER_SECONDS :: int where
  [const_defs]: "CLAIM_LOCATION_STALE_AFTER_SECONDS = 3 * 60"

definition CLAIM_LOCATION_MAX_ACCURACY_MARGIN_METRES :: rat where
  [const_defs]: "CLAIM_LOCATION_MAX_ACCURACY_MARGIN_METRES = 50"

definition CLAIM_LOCATION_SOFT_OUTSIDE_MARGIN_METRES :: rat where
  [const_defs]: "CLAIM_LOCATION_SOFT_OUTSIDE_MARGIN_METRES = 25"

text \<open>The literals \<^verbatim>\<open>0.10\<close> and \<^verbatim>\<open>0.35\<close> are the binary64 numbers nearest to them.\<close>

definition CLAIM_LOCATION_SOFT_PENALTY :: rat where
  [const_defs]: "CLAIM_LOCATION_SOFT_PENALTY = 3602879701896397 / 36028797018963968"

definition CLAIM_LOCATION_HARD_PENALTY :: rat where
  [const_defs]: "CLAIM_LOCATION_HARD_PENALTY = 3152519739159347 / 9007199254740992"

section \<open>Status, type and reason codes\<close>

definition USER_STATUS_ACTIVE :: int where [simp]: "USER_STATUS_ACTIVE = 1"

definition USER_STATUS_LIMITED :: int where [simp]: "USER_STATUS_LIMITED = 2"

definition USER_STATUS_BANNED :: int where [simp]: "USER_STATUS_BANNED = 3"

definition SPOT_STATUS_DRAFT :: int where [simp]: "SPOT_STATUS_DRAFT = 0"

definition SPOT_STATUS_PUBLISHED :: int where [simp]: "SPOT_STATUS_PUBLISHED = 1"

definition SPOT_STATUS_COMPLETED :: int where [simp]: "SPOT_STATUS_COMPLETED = 2"

definition SPOT_STATUS_CANCELLED :: int where [simp]: "SPOT_STATUS_CANCELLED = 3"

definition SPOT_STATUS_BANNED :: int where [simp]: "SPOT_STATUS_BANNED = 4"

definition CLAIM_STATUS_PENDING :: int where [simp]: "CLAIM_STATUS_PENDING = 0"

definition CLAIM_STATUS_SUCCESS :: int where [simp]: "CLAIM_STATUS_SUCCESS = 1"

definition CLAIM_STATUS_FAILED :: int where [simp]: "CLAIM_STATUS_FAILED = 2"

definition TRANS_TYPE_FILL_SPOT :: int where [simp]: "TRANS_TYPE_FILL_SPOT = 10"

definition TRANS_TYPE_CANCEL_SPOT :: int where [simp]: "TRANS_TYPE_CANCEL_SPOT = 11"

definition TRANS_TYPE_REMAINDER_REFUND :: int where [simp]: "TRANS_TYPE_REMAINDER_REFUND = 12"

definition TRANS_TYPE_CLAIM :: int where [simp]: "TRANS_TYPE_CLAIM = 20"

definition TRANS_TYPE_PLAT_FEE :: int where [simp]: "TRANS_TYPE_PLAT_FEE = 30"

definition TRANS_TYPE_CREATION_FEE :: int where [simp]: "TRANS_TYPE_CREATION_FEE = 31"

definition TRANS_STATUS_PENDING :: int where [simp]: "TRANS_STATUS_PENDING = 0"

definition TRANS_STATUS_CONFIRMED :: int where [simp]: "TRANS_STATUS_CONFIRMED = 1"

definition TRANS_STATUS_FAILED :: int where [simp]: "TRANS_STATUS_FAILED = 2"

definition REPORT_STATUS_PENDING :: int where [simp]: "REPORT_STATUS_PENDING = 0"

definition REPORT_STATUS_APPROVED :: int where [simp]: "REPORT_STATUS_APPROVED = 1"

definition REPORT_STATUS_DISMISSED :: int where [simp]: "REPORT_STATUS_DISMISSED = 2"

definition REPORT_REASON_VALUES :: "int list" where
  [const_defs]: "REPORT_REASON_VALUES = [10, 20, 30, 40, 90]"

definition REPORT_DETAILS_MAX_CHARS :: int where
  [const_defs]: "REPORT_DETAILS_MAX_CHARS = 300"

section \<open>Query limits of db_access.py\<close>

definition DEFAULT_LIMIT :: int where
  [const_defs]: "DEFAULT_LIMIT = 100"

definition MAX_LIMIT :: int where
  [const_defs]: "MAX_LIMIT = 500"

definition GEOHASH_DEFAULT_PRECISION :: int where
  [const_defs]: "GEOHASH_DEFAULT_PRECISION = 8"

end
