(* ===== verification/Schema.thy ===== *)
theory Schema
  imports Constants
begin

text \<open>
  The tables of \<^verbatim>\<open>database.py\<close>: one record per \<^verbatim>\<open>CREATE TABLE\<close>, its \<^verbatim>\<open>CHECK\<close>
  constraints as a predicate on a row, its unique indexes as predicates on the
  table, and the statements the code issues as functions that apply the
  triggers, test the constraints on the resulting table and reject the write
  with \<open>IntegrityError\<close> otherwise. The \<^verbatim>\<open>app_metadata\<close> table is kept as one
  field per family of keys; families have disjoint key texts.
\<close>

section \<open>Rows\<close>

record user_row =
  us_id :: int
  us_device_id_hash :: string
  us_display_name :: "string option"
  us_status :: int
  us_created_at :: int
  us_last_seen_at :: int

record spot_row =
  sp_id :: int
  sp_created_by :: int
  sp_link :: string
  sp_deposit_address :: string
  sp_deposit_key_index :: "int option"
  sp_deposit_key_path :: "string option"
  sp_deposit_key_version :: int
  sp_title :: string
  sp_description :: "string option"
  sp_lat :: "rat option"
  sp_long :: "rat option"
  sp_geohash :: "string option"
  sp_city :: "string option"
  sp_country :: "string option"
  sp_radius :: int
  sp_claim_duration :: int
  sp_max_claims_per_user :: int
  sp_max_total_claims :: int
  sp_use_password :: int
  sp_total_value :: int
  sp_creation_fee :: int
  sp_creation_fee_address :: string
  sp_starts_at :: "int option"
  sp_ends_at :: int
  sp_status :: int
  sp_created_at :: int
  sp_updated_at :: int
  sp_cancellation_started_at :: "int option"

record prizedraw_row =
  pd_spot_id :: int
  pd_prize_count :: int

record claim_row =
  cl_id :: int
  cl_spot_id :: int
  cl_recipient :: int
  cl_payout_address :: "string option"
  cl_lat :: rat
  cl_long :: rat
  cl_accuracy :: rat
  cl_status :: int
  cl_claimed_at :: int
  cl_updated_at :: int

record code_row =
  cc_id :: int
  cc_spot_id :: int
  cc_code :: string
  cc_used_by :: "int option"

record attempt_row =
  at_claim_id :: int
  at_code_id :: int
  at_created_at :: int

record trans_row =
  tr_id :: int
  tr_user_id :: int
  tr_spot_id :: "int option"
  tr_claim_id :: "int option"
  tr_type :: int
  tr_amount :: int
  tr_from_address :: string
  tr_to_address :: string
  tr_tx_hash :: string
  tr_block_number :: "int option"
  tr_status :: int
  tr_created_at :: int
  tr_completed_at :: "int option"

record report_row =
  rp_id :: int
  rp_spot_id :: int
  rp_reported_by :: int
  rp_reason :: int
  rp_details :: "string option"
  rp_status :: int
  rp_moderator_note :: "string option"
  rp_created_at :: int
  rp_reviewed_at :: "int option"

datatype admission_status = AdmissionPending | AdmissionConsumed

record admission_row =
  da_id :: int
  da_user_id :: int
  da_key_index :: int
  da_status :: admission_status
  da_created_at :: int
  da_consumed_at :: "int option"

text \<open>
  The JSON document of \<^verbatim>\<open>location_behavior_guard\<close> under a user's metadata key,
  and the rows of \<^verbatim>\<open>SECURITY_EVENT\<close>.
\<close>

record behaviour_doc =
  lb_version :: int
  lb_meaningful :: int
  lb_signed_inside :: int
  lb_browser_outside :: int
  lb_centre_spots :: "int list"
  lb_streak_spots :: "int list"
  lb_outside_since_inside :: bool
  lb_last_signed_spot :: "int option"
  lb_last_signed_at :: "int option"
  lb_last_outside_at :: "int option"
  lb_restricted_until :: "int option"

datatype decision_type = TemporaryRestriction | AutomaticBan

record event_row =
  ev_id :: int
  ev_user_id :: int
  ev_code :: string
  ev_decision :: decision_type
  ev_created_at :: int
  ev_expires_at :: "int option"

text \<open>
  The database with SQLite's clock \<open>unixepoch()\<close> and the \<^verbatim>\<open>AUTOINCREMENT\<close>
  sequences (the largest id ever given out). The clock stands still inside one
  operation; it moves between operations.
\<close>

record db =
  db_now :: int
  db_users :: "user_row list"
  db_user_seq :: int
  db_spots :: "spot_row list"
  db_spot_seq :: int
  db_prizedraws :: "prizedraw_row list"
  db_claims :: "claim_row list"
  db_claim_seq :: int
  db_codes :: "code_row list"
  db_code_seq :: int
  db_attempts :: "attempt_row list"
  db_trans :: "trans_row list"
  db_trans_seq :: int
  db_reports :: "report_row list"
  db_report_seq :: int
  db_admissions :: "admission_row list"
  db_admission_seq :: int
  db_next_key_index :: "int option"
  db_remainder_settled :: "int list"
  db_behaviour :: "(int \<times> behaviour_doc) list"
  db_events :: "event_row list"
  db_event_seq :: int

definition empty_db :: "int \<Rightarrow> db" where
  "empty_db now = \<lparr>db_now = now, db_users = [], db_user_seq = 0, db_spots = [], db_spot_seq = 0,
     db_prizedraws = [], db_claims = [], db_claim_seq = 0, db_codes = [], db_code_seq = 0,
     db_attempts = [], db_trans = [], db_trans_seq = 0, db_reports = [], db_report_seq = 0,
     db_admissions = [], db_admission_seq = 0, db_next_key_index = None,
     db_remainder_settled = [], db_behaviour = [], db_events = [], db_event_seq = 0\<rparr>"

interpretation users: table db_users db_users_update us_id
  by unfold_locales simp

interpretation spots: table db_spots db_spots_update sp_id
  by unfold_locales simp

interpretation prizedraws: table db_prizedraws db_prizedraws_update pd_spot_id
  by unfold_locales simp

interpretation claims: table db_claims db_claims_update cl_id
  by unfold_locales simp

interpretation codes: table db_codes db_codes_update cc_id
  by unfold_locales simp

interpretation attempts: table db_attempts db_attempts_update at_claim_id
  by unfold_locales simp

interpretation trans: table db_trans db_trans_update tr_id
  by unfold_locales simp

interpretation reports: table db_reports db_reports_update rp_id
  by unfold_locales simp

interpretation admissions: table db_admissions db_admissions_update da_id
  by unfold_locales simp

section \<open>CHECK constraints\<close>

definition between :: "'a::linorder \<Rightarrow> 'a \<Rightarrow> 'a \<Rightarrow> bool" where
  [simp]: "between lo hi x \<longleftrightarrow> lo \<le> x \<and> x \<le> hi"

definition opt_all :: "('a \<Rightarrow> bool) \<Rightarrow> 'a option \<Rightarrow> bool" where
  "opt_all P v = (case v of None \<Rightarrow> True | Some x \<Rightarrow> P x)"

lemma opt_all_simps [simp]: "opt_all P None" "opt_all P (Some x) = P x"
  by (simp_all add: opt_all_def)

lemma opt_all_mono: "opt_all P v \<Longrightarrow> (\<And>x. P x \<Longrightarrow> Q x) \<Longrightarrow> opt_all Q v"
  by (cases v) auto

definition user_check :: "user_row \<Rightarrow> bool" where
  "user_check r \<longleftrightarrow> 0 < us_created_at r \<and> 0 < us_last_seen_at r"

definition spot_check :: "spot_row \<Rightarrow> bool" where
  "spot_check r \<longleftrightarrow>
     opt_all (between (- 90) 90) (sp_lat r)
   \<and> opt_all (between (- 180) 180) (sp_long r)
   \<and> between MIN_SPOT_RADIUS_METRES MAX_SPOT_RADIUS_METRES (sp_radius r)
   \<and> between MIN_SPOT_CLAIM_DURATION_SECONDS MAX_SPOT_CLAIM_DURATION_SECONDS (sp_claim_duration r)
   \<and> between MIN_SPOT_MAX_CLAIMS_PER_USER MAX_SPOT_MAX_CLAIMS_PER_USER (sp_max_claims_per_user r)
   \<and> between MIN_PRIZEDRAW_MAX_TOTAL_CLAIMS MAX_SPOT_MAX_TOTAL_CLAIMS (sp_max_total_claims r)
   \<and> (sp_use_password r = 0 \<or> sp_use_password r = 1)
   \<and> MIN_SPOT_TOTAL_VALUE \<le> sp_total_value r
   \<and> 0 \<le> sp_creation_fee r
   \<and> filter (\<lambda>c. c \<noteq> CHR '' '') (sp_creation_fee_address r) \<noteq> []
   \<and> opt_all (\<lambda>t. 0 < t) (sp_starts_at r)
   \<and> between MIN_SPOT_ENDS_AFTER_SECONDS MAX_SPOT_ENDS_AFTER_SECONDS (sp_ends_at r)
   \<and> 0 < sp_created_at r \<and> 0 < sp_updated_at r
   \<and> opt_all (\<lambda>t. 0 < t) (sp_cancellation_started_at r)
   \<and> opt_all (\<lambda>i. 0 \<le> i) (sp_deposit_key_index r)
   \<and> 0 < sp_deposit_key_version r"

definition prizedraw_check :: "prizedraw_row \<Rightarrow> bool" where
  "prizedraw_check r \<longleftrightarrow> between MIN_PRIZEDRAW_PRIZE_COUNT MAX_PRIZEDRAW_PRIZE_COUNT (pd_prize_count r)"

definition claim_check :: "claim_row \<Rightarrow> bool" where
  "claim_check r \<longleftrightarrow> between (- 90) 90 (cl_lat r) \<and> between (- 180) 180 (cl_long r)
   \<and> 0 \<le> cl_accuracy r \<and> cl_accuracy r \<le> 1
   \<and> 0 < cl_claimed_at r \<and> 0 < cl_updated_at r"

definition attempt_check :: "attempt_row \<Rightarrow> bool" where
  "attempt_check r \<longleftrightarrow> 0 < at_created_at r"

definition trans_check :: "trans_row \<Rightarrow> bool" where
  "trans_check r \<longleftrightarrow> 0 \<le> tr_amount r
   \<and> opt_all (\<lambda>b. 0 \<le> b) (tr_block_number r)
   \<and> (tr_status r = TRANS_STATUS_PENDING \<or> tr_status r = TRANS_STATUS_CONFIRMED
      \<or> tr_status r = TRANS_STATUS_FAILED)
   \<and> 0 < tr_created_at r
   \<and> opt_all (\<lambda>t. tr_created_at r \<le> t) (tr_completed_at r)"

definition report_check :: "report_row \<Rightarrow> bool" where
  "report_check r \<longleftrightarrow> 0 < rp_created_at r \<and> opt_all (\<lambda>t. rp_created_at r \<le> t) (rp_reviewed_at r)"

section \<open>Foreign keys and unique indexes\<close>

definition has_user :: "db \<Rightarrow> int \<Rightarrow> bool" where
  "has_user d u \<longleftrightarrow> find_row us_id u (db_users d) \<noteq> None"

definition has_spot :: "db \<Rightarrow> int \<Rightarrow> bool" where
  "has_spot d s \<longleftrightarrow> find_row sp_id s (db_spots d) \<noteq> None"

definition has_claim :: "db \<Rightarrow> int \<Rightarrow> bool" where
  "has_claim d c \<longleftrightarrow> find_row cl_id c (db_claims d) \<noteq> None"

definition somes :: "('r \<Rightarrow> 'k option) \<Rightarrow> 'r list \<Rightarrow> 'k list" where
  "somes f rows = map (\<lambda>r. the (f r)) (filter (\<lambda>r. f r \<noteq> None) rows)"

definition unique_on :: "('r \<Rightarrow> 'k option) \<Rightarrow> 'r list \<Rightarrow> bool" where
  "unique_on f rows \<longleftrightarrow> distinct (somes f rows)"

text \<open>
  A partial unique index is the uniqueness of an optional key: \<open>None\<close> for a
  row outside the index. The four financial indexes of \<^verbatim>\<open>trans\<close> hold the
  non-failed rows of their types.
\<close>

definition active :: "trans_row \<Rightarrow> bool" where
  "active r \<longleftrightarrow> tr_status r \<noteq> TRANS_STATUS_FAILED"

definition claim_payout_slot :: "trans_row \<Rightarrow> int option" where
  "claim_payout_slot r =
     (if tr_claim_id r \<noteq> None \<and> tr_type r = TRANS_TYPE_CLAIM \<and> active r
      then tr_claim_id r else None)"

definition cancellation_slot :: "trans_row \<Rightarrow> (int \<times> int) option" where
  "cancellation_slot r =
     (if tr_spot_id r \<noteq> None
         \<and> (tr_type r = TRANS_TYPE_CANCEL_SPOT \<or> tr_type r = TRANS_TYPE_PLAT_FEE) \<and> active r
      then Some (the (tr_spot_id r), tr_type r) else None)"

definition creation_fee_slot :: "trans_row \<Rightarrow> int option" where
  "creation_fee_slot r =
     (if tr_spot_id r \<noteq> None \<and> tr_type r = TRANS_TYPE_CREATION_FEE \<and> active r
      then tr_spot_id r else None)"

definition remainder_refund_slot :: "trans_row \<Rightarrow> int option" where
  "remainder_refund_slot r =
     (if tr_spot_id r \<noteq> None \<and> tr_type r = TRANS_TYPE_REMAINDER_REFUND \<and> active r
      then tr_spot_id r else None)"

lemma somes_simps [simp]:
  "somes f [] = []"
  "somes f (r # rows) = (case f r of None \<Rightarrow> somes f rows | Some k \<Rightarrow> k # somes f rows)"
  "somes f (rows @ rows') = somes f rows @ somes f rows'"
  by (auto simp: somes_def split: option.splits)

lemma set_somes: "set (somes f rows) = {k. \<exists>r\<in>set rows. f r = Some k}"
  by (force simp: somes_def image_iff)

text \<open>A partial unique index keeps its law under the writes the code issues.\<close>

locale unique_index =
  fixes slot :: "'r \<Rightarrow> 'k option"
begin

lemma unique_Nil: "unique_on slot []"
  by (simp add: unique_on_def)

lemma unique_append:
  "unique_on slot (rows @ [r]) \<longleftrightarrow>
   unique_on slot rows \<and> (\<forall>k. slot r = Some k \<longrightarrow> (\<forall>x\<in>set rows. slot x \<noteq> Some k))"
  by (auto simp: unique_on_def set_somes split: option.splits)

lemma unique_update:
  assumes "unique_on slot rows" and "\<And>r. P r \<Longrightarrow> slot (f r) = slot r \<or> slot (f r) = None"
  shows "unique_on slot (update_where P f rows)"
proof -
  have sub: "set (somes slot (update_where P f xs)) \<subseteq> set (somes slot xs)" for xs
    using assms(2) by (fastforce simp: set_somes set_update_where split: if_splits)
  have "distinct (somes slot rows) \<Longrightarrow> distinct (somes slot (update_where P f rows))"
  proof (induction rows)
    case Nil
    then show ?case by simp
  next
    case (Cons r rows)
    then show ?case
      using assms(2) [of r] sub [of rows] by (cases "slot r") (auto split: option.splits)
  qed
  then show ?thesis using assms(1) by (simp add: unique_on_def)
qed

lemma unique_filter: "unique_on slot rows \<Longrightarrow> unique_on slot (filter P rows)"
  by (induction rows) (auto simp: unique_on_def set_somes split: option.splits)

lemma unique_same:
  "unique_on slot rows \<Longrightarrow> distinct (map key rows) \<Longrightarrow> r \<in> set rows \<Longrightarrow> r' \<in> set rows \<Longrightarrow>
   slot r = Some k \<Longrightarrow> slot r' = Some k \<Longrightarrow> r = r'"
  by (induction rows) (auto simp: unique_on_def set_somes split: option.splits)

end

interpretation payout_index: unique_index claim_payout_slot .

interpretation cancellation_index: unique_index cancellation_slot .

interpretation creation_fee_index: unique_index creation_fee_slot .

interpretation remainder_index: unique_index remainder_refund_slot .

interpretation used_by_index: unique_index cc_used_by .

interpretation key_index: unique_index sp_deposit_key_index .

end
