(* ===== verification/Store.thy ===== *)
theory Store
  imports Schema
begin

text \<open>
  The SQL statements of the code on the tables of \<open>Schema\<close>: inserts with
  \<^verbatim>\<open>AUTOINCREMENT\<close> ids, updates with their triggers, the cascading delete of
  a Spot. Each statement either yields the new database or the error SQLite
  raises, and then changes nothing.
\<close>

section \<open>Row ids\<close>

definition next_id :: "int \<Rightarrow> int list \<Rightarrow> int" where
  "next_id seq keys = foldr max keys seq + 1"

lemma foldr_max_ge: "seq \<le> foldr max keys (seq::int)" "k \<in> set keys \<Longrightarrow> k \<le> foldr max keys seq"
  by (induction keys) (auto simp: max_def)

lemma next_id_fresh: "next_id seq keys \<notin> set keys"
  using foldr_max_ge(2) [of _ keys seq] by (fastforce simp: next_id_def)

lemma next_id_gt: "seq < next_id seq keys"
  using foldr_max_ge(1) [of seq keys] by (simp add: next_id_def)

section \<open>USER\<close>

definition insert_user :: "string \<Rightarrow> string option \<Rightarrow> int \<Rightarrow> db \<Rightarrow> (int \<times> db) res" where
  "insert_user device name status d =
    (let i = next_id (db_user_seq d) (map us_id (db_users d));
         r = \<lparr>us_id = i, us_device_id_hash = device, us_display_name = name, us_status = status,
              us_created_at = db_now d, us_last_seen_at = db_now d\<rparr>
     in if \<not> user_check r then Inl (IntegrityError ''CHECK constraint failed: user'')
        else if device \<in> us_device_id_hash ` set (db_users d)
        then Inl (IntegrityError ''UNIQUE constraint failed: user.device_id_hash'')
        else Inr (i, d\<lparr>db_users := db_users d @ [r], db_user_seq := i\<rparr>))"

section \<open>SPOT\<close>

definition write_spots :: "spot_row list \<Rightarrow> db \<Rightarrow> db res" where
  "write_spots rows d =
    (if \<not> list_all spot_check rows then Inl (IntegrityError ''CHECK constraint failed: spot'')
     else if \<not> distinct (map sp_link rows) then Inl (IntegrityError ''UNIQUE constraint failed: spot.link'')
     else if \<not> distinct (map sp_deposit_address rows)
     then Inl (IntegrityError ''UNIQUE constraint failed: spot.deposit_address'')
     else if \<not> unique_on sp_deposit_key_index rows
     then Inl (IntegrityError ''UNIQUE constraint failed: spot.deposit_key_index'')
     else Inr (d\<lparr>db_spots := rows\<rparr>))"

definition insert_spot :: "spot_row \<Rightarrow> db \<Rightarrow> (int \<times> db) res" where
  "insert_spot r d =
    (let i = next_id (db_spot_seq d) (map sp_id (db_spots d));
         r' = r\<lparr>sp_id := i, sp_created_at := db_now d, sp_updated_at := db_now d\<rparr>
     in if \<not> has_user d (sp_created_by r') then Inl (IntegrityError ''FOREIGN KEY constraint failed'')
        else bindE (write_spots (db_spots d @ [r']) d)
               (\<lambda>d'. Inr (i, d'\<lparr>db_spot_seq := i\<rparr>)))"

text \<open>
  Trigger \<^verbatim>\<open>trg_spot_stamp_updated_at\<close> runs when the update lists an editable
  column or the status (\<open>stamped\<close>);
  \<^verbatim>\<open>trg_spot_max_total_claims_prizedraw_update\<close> when it lists
  \<^verbatim>\<open>max_total_claims\<close> (\<open>lists_max\<close>).
\<close>

definition stamp_spot :: "int \<Rightarrow> bool \<Rightarrow> spot_row \<Rightarrow> spot_row \<Rightarrow> spot_row" where
  "stamp_spot now stamped old new =
     (if stamped \<and> sp_updated_at new = sp_updated_at old then new\<lparr>sp_updated_at := now\<rparr> else new)"

definition max_total_trigger_ok :: "db \<Rightarrow> spot_row \<Rightarrow> bool" where
  "max_total_trigger_ok d new \<longleftrightarrow>
     \<not> (\<exists>pd\<in>set (db_prizedraws d). pd_spot_id pd = sp_id new
          \<and> 0 < sp_max_total_claims new \<and> sp_max_total_claims new < pd_prize_count pd)"

definition update_spots ::
  "bool \<Rightarrow> bool \<Rightarrow> (spot_row \<Rightarrow> bool) \<Rightarrow> (spot_row \<Rightarrow> spot_row) \<Rightarrow> db \<Rightarrow> db res" where
  "update_spots lists_max stamped P f d =
    (if lists_max \<and> \<not> list_all (\<lambda>r. P r \<longrightarrow> max_total_trigger_ok d (f r)) (db_spots d)
     then Inl (IntegrityError ''spot.max_total_claims cannot be lower than prizedraw.prize_count unless it is 0/unlimited'')
     else write_spots
            (update_where P (\<lambda>r. stamp_spot (db_now d) stamped r (f r)) (db_spots d)) d)"

section \<open>PRIZEDRAW\<close>

text \<open>Triggers \<^verbatim>\<open>trg_prizedraw_prize_count_insert\<close> and \<^verbatim>\<open>..._update\<close>.\<close>

definition prize_count_trigger_ok :: "db \<Rightarrow> prizedraw_row \<Rightarrow> bool" where
  "prize_count_trigger_ok d pd \<longleftrightarrow>
    (case find_row sp_id (pd_spot_id pd) (db_spots d) of None \<Rightarrow> True
     | Some s \<Rightarrow> \<not> (0 < sp_max_total_claims s \<and> sp_max_total_claims s < pd_prize_count pd))"

definition insert_prizedraw :: "prizedraw_row \<Rightarrow> db \<Rightarrow> db res" where
  "insert_prizedraw pd d =
    (if \<not> prize_count_trigger_ok d pd
     then Inl (IntegrityError ''prizedraw.prize_count cannot exceed spot.max_total_claims unless max_total_claims is 0/unlimited'')
     else if \<not> prizedraw_check pd then Inl (IntegrityError ''CHECK constraint failed: prizedraw'')
     else if pd_spot_id pd \<in> pd_spot_id ` set (db_prizedraws d)
     then Inl (IntegrityError ''UNIQUE constraint failed: prizedraw.spot_id'')
     else if \<not> has_spot d (pd_spot_id pd) then Inl (IntegrityError ''FOREIGN KEY constraint failed'')
     else Inr (d\<lparr>db_prizedraws := db_prizedraws d @ [pd]\<rparr>))"

definition update_prize_count :: "int \<Rightarrow> int \<Rightarrow> db \<Rightarrow> db res" where
  "update_prize_count s n d =
    (let new = \<lparr>pd_spot_id = s, pd_prize_count = n\<rparr> in
     if s \<in> pd_spot_id ` set (db_prizedraws d) \<and> \<not> prize_count_trigger_ok d new
     then Inl (IntegrityError ''prizedraw.prize_count cannot exceed spot.max_total_claims unless max_total_claims is 0/unlimited'')
     else if s \<in> pd_spot_id ` set (db_prizedraws d) \<and> \<not> prizedraw_check new
     then Inl (IntegrityError ''CHECK constraint failed: prizedraw'')
     else Inr (d\<lparr>db_prizedraws := update_where (\<lambda>r. pd_spot_id r = s)
                    (\<lambda>r. r\<lparr>pd_prize_count := n\<rparr>) (db_prizedraws d)\<rparr>))"

section \<open>CLAIM\<close>

text \<open>Trigger \<^verbatim>\<open>trg_claim_block_cancelling_spot_insert\<close>, then the constraints.\<close>

definition insert_claim :: "claim_row \<Rightarrow> db \<Rightarrow> (int \<times> db) res" where
  "insert_claim r d =
    (let i = next_id (db_claim_seq d) (map cl_id (db_claims d));
         r' = r\<lparr>cl_id := i, cl_claimed_at := db_now d, cl_updated_at := db_now d\<rparr>
     in if (case find_row sp_id (cl_spot_id r') (db_spots d) of None \<Rightarrow> False
            | Some s \<Rightarrow> sp_cancellation_started_at s \<noteq> None)
        then Inl (IntegrityError ''spot cancellation has started'')
        else if \<not> claim_check r' then Inl (IntegrityError ''CHECK constraint failed: claim'')
        else if \<not> (has_spot d (cl_spot_id r') \<and> has_user d (cl_recipient r'))
        then Inl (IntegrityError ''FOREIGN KEY constraint failed'')
        else Inr (i, d\<lparr>db_claims := db_claims d @ [r'], db_claim_seq := i\<rparr>))"

text \<open>
  Every update of \<^verbatim>\<open>claim\<close> lists the accuracy or the status, so
  \<^verbatim>\<open>trg_claim_stamp_updated_at\<close> leaves \<^verbatim>\<open>updated_at\<close> at the present second
  whether or not the statement sets it. When the status is listed,
  \<^verbatim>\<open>trg_claim_code_attempt_cleanup\<close> drops the candidate code of each claim
  that became terminal.
\<close>

definition terminal :: "int \<Rightarrow> bool" where
  "terminal st \<longleftrightarrow> st = CLAIM_STATUS_SUCCESS \<or> st = CLAIM_STATUS_FAILED"

definition cleanup_attempts :: "claim_row list \<Rightarrow> attempt_row list \<Rightarrow> attempt_row list" where
  "cleanup_attempts updated as =
     filter (\<lambda>a. \<not> (\<exists>c\<in>set updated. cl_id c = at_claim_id a \<and> terminal (cl_status c))) as"

definition update_claims ::
  "bool \<Rightarrow> (claim_row \<Rightarrow> bool) \<Rightarrow> (claim_row \<Rightarrow> claim_row) \<Rightarrow> db \<Rightarrow> db res" where
  "update_claims lists_status P f d =
    (let g = (\<lambda>r. (f r)\<lparr>cl_updated_at := db_now d\<rparr>);
         rows = update_where P g (db_claims d)
     in if \<not> list_all claim_check rows then Inl (IntegrityError ''CHECK constraint failed: claim'')
        else Inr (d\<lparr>db_claims := rows,
                    db_attempts := (if lists_status
                      then cleanup_attempts (map g (filter P (db_claims d))) (db_attempts d)
                      else db_attempts d)\<rparr>))"

section \<open>CLAIM\_CODE and CLAIM\_CODE\_ATTEMPT\<close>

text \<open>The triggers \<^verbatim>\<open>trg_claim_code_match_spot_*\<close>.\<close>

definition code_match_spot :: "db \<Rightarrow> code_row \<Rightarrow> bool" where
  "code_match_spot d r \<longleftrightarrow> (case cc_used_by r of None \<Rightarrow> True
     | Some c \<Rightarrow> map_option cl_spot_id (find_row cl_id c (db_claims d)) = Some (cc_spot_id r))"

definition insert_code :: "int \<Rightarrow> string \<Rightarrow> db \<Rightarrow> (int \<times> db) res" where
  "insert_code s code d =
    (let i = next_id (db_code_seq d) (map cc_id (db_codes d));
         r = \<lparr>cc_id = i, cc_spot_id = s, cc_code = code, cc_used_by = None\<rparr>
     in if (s, code) \<in> (\<lambda>r. (cc_spot_id r, cc_code r)) ` set (db_codes d)
        then Inl (IntegrityError ''UNIQUE constraint failed: claim_code.spot_id, claim_code.code'')
        else if \<not> has_spot d s then Inl (IntegrityError ''FOREIGN KEY constraint failed'')
        else Inr (i, d\<lparr>db_codes := db_codes d @ [r], db_code_seq := i\<rparr>))"

definition update_used_by :: "(code_row \<Rightarrow> bool) \<Rightarrow> int option \<Rightarrow> db \<Rightarrow> db res" where
  "update_used_by P v d =
    (let f = (\<lambda>r. r\<lparr>cc_used_by := v\<rparr>); rows = update_where P f (db_codes d)
     in if \<not> list_all (\<lambda>r. P r \<longrightarrow> code_match_spot d (f r)) (db_codes d)
        then Inl (IntegrityError ''claim_code.used_by must reference a claim from the same spot'')
        else if \<not> unique_on cc_used_by rows
        then Inl (IntegrityError ''UNIQUE constraint failed: claim_code.used_by'')
        else Inr (d\<lparr>db_codes := rows\<rparr>))"

definition delete_codes :: "(code_row \<Rightarrow> bool) \<Rightarrow> db \<Rightarrow> db" where
  "delete_codes P d =
    (let gone = map cc_id (filter P (db_codes d))
     in d\<lparr>db_codes := filter (\<lambda>r. \<not> P r) (db_codes d),
          db_attempts := filter (\<lambda>a. at_code_id a \<notin> set gone) (db_attempts d)\<rparr>)"

text \<open>\<^verbatim>\<open>trg_claim_code_attempt_match_spot\<close> and \<^verbatim>\<open>trg_claim_code_attempt_pending\<close>.\<close>

definition insert_attempt :: "int \<Rightarrow> int \<Rightarrow> db \<Rightarrow> db res" where
  "insert_attempt c k d =
    (let a = \<lparr>at_claim_id = c, at_code_id = k, at_created_at = db_now d\<rparr>;
         claim = find_row cl_id c (db_claims d); code = find_row cc_id k (db_codes d)
     in if map_option cl_spot_id claim \<noteq> map_option cc_spot_id code
        then Inl (IntegrityError ''claim_code_attempt must join a claim and code from the same spot'')
        else if map_option cl_status claim \<noteq> Some CLAIM_STATUS_PENDING
        then Inl (IntegrityError ''claim_code_attempt requires a pending claim'')
        else if \<not> attempt_check a then Inl (IntegrityError ''CHECK constraint failed: claim_code_attempt'')
        else if c \<in> at_claim_id ` set (db_attempts d)
        then Inl (IntegrityError ''UNIQUE constraint failed: claim_code_attempt.claim_id'')
        else Inr (d\<lparr>db_attempts := db_attempts d @ [a]\<rparr>))"

section \<open>TRANSACTION\<close>

definition write_trans :: "trans_row list \<Rightarrow> db \<Rightarrow> db res" where
  "write_trans rows d =
    (if \<not> list_all trans_check rows then Inl (IntegrityError ''CHECK constraint failed: trans'')
     else if \<not> distinct (map tr_tx_hash rows)
     then Inl (IntegrityError ''UNIQUE constraint failed: trans.tx_hash'')
     else if \<not> unique_on claim_payout_slot rows
     then Inl (IntegrityError ''UNIQUE constraint failed: trans.claim_id'')
     else if \<not> (unique_on cancellation_slot rows \<and> unique_on creation_fee_slot rows
              \<and> unique_on remainder_refund_slot rows)
     then Inl (IntegrityError ''UNIQUE constraint failed: trans.spot_id, trans.type'')
     else Inr (d\<lparr>db_trans := rows\<rparr>))"

text \<open>Trigger \<^verbatim>\<open>trg_trans_match_claim_spot_insert\<close>, then the constraints.\<close>

definition insert_trans :: "trans_row \<Rightarrow> db \<Rightarrow> (int \<times> db) res" where
  "insert_trans r d =
    (let i = next_id (db_trans_seq d) (map tr_id (db_trans d));
         r' = r\<lparr>tr_id := i, tr_created_at := db_now d\<rparr>
     in if tr_spot_id r' \<noteq> None \<and> tr_claim_id r' \<noteq> None
           \<and> map_option cl_spot_id (find_row cl_id (the (tr_claim_id r')) (db_claims d)) \<noteq> tr_spot_id r'
        then Inl (IntegrityError ''trans.claim_id must reference a claim from the same spot'')
        else bindE (write_trans (db_trans d @ [r']) d) (\<lambda>d'.
          if has_user d (tr_user_id r') \<and> opt_all (has_spot d) (tr_spot_id r')
             \<and> opt_all (has_claim d) (tr_claim_id r')
          then Inr (i, d'\<lparr>db_trans_seq := i\<rparr>)
          else Inl (IntegrityError ''FOREIGN KEY constraint failed'')))"

definition update_trans :: "(trans_row \<Rightarrow> bool) \<Rightarrow> (trans_row \<Rightarrow> trans_row) \<Rightarrow> db \<Rightarrow> db res" where
  "update_trans P f d = write_trans (update_where P f (db_trans d)) d"

text \<open>Trigger \<^verbatim>\<open>trg_trans_set_completed_at_update\<close>.\<close>

definition complete_trans :: "int \<Rightarrow> trans_row \<Rightarrow> trans_row \<Rightarrow> trans_row" where
  "complete_trans now old new =
     (if tr_status new \<noteq> TRANS_STATUS_PENDING \<and> tr_status old = TRANS_STATUS_PENDING
         \<and> tr_completed_at new = None
      then new\<lparr>tr_completed_at := Some now\<rparr> else new)"

section \<open>Deleting a Spot\<close>

text \<open>
  \<^verbatim>\<open>ON DELETE CASCADE\<close> for the Prizedraw, claims, codes, attempts and reports;
  \<^verbatim>\<open>ON DELETE SET NULL\<close> for the audit rows of \<^verbatim>\<open>trans\<close>.
\<close>

definition delete_spots :: "(spot_row \<Rightarrow> bool) \<Rightarrow> db \<Rightarrow> db" where
  "delete_spots P d =
    (let gone = sp_id ` set (filter P (db_spots d));
         gone_claims = cl_id ` set (filter (\<lambda>c. cl_spot_id c \<in> gone) (db_claims d));
         gone_codes = cc_id ` set (filter (\<lambda>c. cc_spot_id c \<in> gone) (db_codes d));
         detach = (\<lambda>r. r\<lparr>tr_spot_id := (if tr_spot_id r \<in> Some ` gone then None else tr_spot_id r),
                          tr_claim_id := (if tr_claim_id r \<in> Some ` gone_claims then None else tr_claim_id r)\<rparr>)
     in d\<lparr>db_spots := filter (\<lambda>r. \<not> P r) (db_spots d),
          db_prizedraws := filter (\<lambda>r. pd_spot_id r \<notin> gone) (db_prizedraws d),
          db_claims := filter (\<lambda>c. cl_spot_id c \<notin> gone) (db_claims d),
          db_codes := map (\<lambda>r. r\<lparr>cc_used_by := (if cc_used_by r \<in> Some ` gone_claims then None else cc_used_by r)\<rparr>)
                        (filter (\<lambda>r. cc_spot_id r \<notin> gone) (db_codes d)),
          db_attempts := filter (\<lambda>a. at_claim_id a \<notin> gone_claims \<and> at_code_id a \<notin> gone_codes) (db_attempts d),
          db_trans := map detach (db_trans d),
          db_reports := filter (\<lambda>r. rp_spot_id r \<notin> gone) (db_reports d)\<rparr>)"

section \<open>Facts about the statements\<close>

lemma write_spots_Inr: "write_spots rows d = Inr d' \<longleftrightarrow>
    list_all spot_check rows \<and> distinct (map sp_link rows) \<and> distinct (map sp_deposit_address rows)
  \<and> unique_on sp_deposit_key_index rows \<and> d' = d\<lparr>db_spots := rows\<rparr>"
  by (auto simp: write_spots_def)

lemma write_trans_Inr: "write_trans rows d = Inr d' \<longleftrightarrow>
    list_all trans_check rows \<and> distinct (map tr_tx_hash rows) \<and> unique_on claim_payout_slot rows
  \<and> unique_on cancellation_slot rows \<and> unique_on creation_fee_slot rows
  \<and> unique_on remainder_refund_slot rows \<and> d' = d\<lparr>db_trans := rows\<rparr>"
  by (auto simp: write_trans_def)

lemma stamp_spot_sel [simp]:
  "sp_id (stamp_spot n b old new) = sp_id new"
  "sp_created_by (stamp_spot n b old new) = sp_created_by new"
  "sp_status (stamp_spot n b old new) = sp_status new"
  "sp_max_total_claims (stamp_spot n b old new) = sp_max_total_claims new"
  "sp_max_claims_per_user (stamp_spot n b old new) = sp_max_claims_per_user new"
  "sp_total_value (stamp_spot n b old new) = sp_total_value new"
  "sp_creation_fee (stamp_spot n b old new) = sp_creation_fee new"
  "sp_claim_duration (stamp_spot n b old new) = sp_claim_duration new"
  "sp_use_password (stamp_spot n b old new) = sp_use_password new"
  "sp_starts_at (stamp_spot n b old new) = sp_starts_at new"
  "sp_ends_at (stamp_spot n b old new) = sp_ends_at new"
  "sp_link (stamp_spot n b old new) = sp_link new"
  "sp_deposit_address (stamp_spot n b old new) = sp_deposit_address new"
  "sp_deposit_key_index (stamp_spot n b old new) = sp_deposit_key_index new"
  "sp_cancellation_started_at (stamp_spot n b old new) = sp_cancellation_started_at new"
  by (simp_all add: stamp_spot_def)

lemma complete_trans_sel [simp]:
  "tr_id (complete_trans n old new) = tr_id new"
  "tr_spot_id (complete_trans n old new) = tr_spot_id new"
  "tr_claim_id (complete_trans n old new) = tr_claim_id new"
  "tr_type (complete_trans n old new) = tr_type new"
  "tr_status (complete_trans n old new) = tr_status new"
  "tr_amount (complete_trans n old new) = tr_amount new"
  "tr_tx_hash (complete_trans n old new) = tr_tx_hash new"
  "tr_from_address (complete_trans n old new) = tr_from_address new"
  "tr_to_address (complete_trans n old new) = tr_to_address new"
  "tr_created_at (complete_trans n old new) = tr_created_at new"
  by (simp_all add: complete_trans_def)

lemma update_claims_Inr: "update_claims b P f d = Inr d' \<longleftrightarrow>
    (let g = (\<lambda>r. (f r)\<lparr>cl_updated_at := db_now d\<rparr>) in
     list_all claim_check (update_where P g (db_claims d))
   \<and> d' = d\<lparr>db_claims := update_where P g (db_claims d),
            db_attempts := (if b then cleanup_attempts (map g (filter P (db_claims d))) (db_attempts d)
                            else db_attempts d)\<rparr>)"
  by (auto simp: update_claims_def Let_def)

lemma insert_claim_Inr:
  assumes "insert_claim r d = Inr (i, d')"
  shows "d' = d\<lparr>db_claims := db_claims d @ [r\<lparr>cl_id := i, cl_claimed_at := db_now d, cl_updated_at := db_now d\<rparr>],
                db_claim_seq := i\<rparr>"
    and "i \<notin> cl_id ` set (db_claims d)" and "has_spot d (cl_spot_id r)" and "has_user d (cl_recipient r)"
    and "i = next_id (db_claim_seq d) (map cl_id (db_claims d))"
    and "claim_check (r\<lparr>cl_id := i, cl_claimed_at := db_now d, cl_updated_at := db_now d\<rparr>)"
  using assms next_id_fresh [of "db_claim_seq d" "map cl_id (db_claims d)"]
  by (auto simp: insert_claim_def Let_def split: if_splits)

lemma insert_trans_Inr:
  assumes "insert_trans r d = Inr (i, d')"
  shows "d' = d\<lparr>db_trans := db_trans d @ [r\<lparr>tr_id := i, tr_created_at := db_now d\<rparr>], db_trans_seq := i\<rparr>"
    and "i \<notin> tr_id ` set (db_trans d)"
    and "write_trans (db_trans d @ [r\<lparr>tr_id := i, tr_created_at := db_now d\<rparr>]) d
         = Inr (d\<lparr>db_trans := db_trans d @ [r\<lparr>tr_id := i, tr_created_at := db_now d\<rparr>]\<rparr>)"
  using assms next_id_fresh [of "db_trans_seq d" "map tr_id (db_trans d)"]
  by (auto simp: insert_trans_def Let_def write_trans_Inr split: if_splits)

end
