(* ===== verification/Integrity.thy ===== *)
theory Integrity
  imports Store
begin

text \<open>
  The integrity of the database as a whole, \<open>db_ok\<close>: keys, \<^verbatim>\<open>CHECK\<close>s, unique
  indexes, foreign keys and what the triggers maintain across tables. Every
  statement of \<open>Store\<close> keeps it; the operations of the later theories are
  compositions of these statements.
\<close>

section \<open>The invariant\<close>

definition users_ok :: "db \<Rightarrow> bool" where
  "users_ok d \<longleftrightarrow> distinct (map us_id (db_users d)) \<and> distinct (map us_device_id_hash (db_users d))
     \<and> list_all user_check (db_users d)"

definition spots_ok :: "db \<Rightarrow> bool" where
  "spots_ok d \<longleftrightarrow> distinct (map sp_id (db_spots d)) \<and> list_all spot_check (db_spots d)
     \<and> distinct (map sp_link (db_spots d)) \<and> distinct (map sp_deposit_address (db_spots d))
     \<and> unique_on sp_deposit_key_index (db_spots d)
     \<and> list_all (\<lambda>s. has_user d (sp_created_by s)) (db_spots d)"

definition prizedraws_ok :: "db \<Rightarrow> bool" where
  "prizedraws_ok d \<longleftrightarrow> distinct (map pd_spot_id (db_prizedraws d))
     \<and> list_all (\<lambda>p. prizedraw_check p \<and> has_spot d (pd_spot_id p) \<and> prize_count_trigger_ok d p)
         (db_prizedraws d)"

definition claims_ok :: "db \<Rightarrow> bool" where
  "claims_ok d \<longleftrightarrow> distinct (map cl_id (db_claims d))
     \<and> list_all (\<lambda>c. claim_check c \<and> has_spot d (cl_spot_id c) \<and> has_user d (cl_recipient c)) (db_claims d)"

definition codes_ok :: "db \<Rightarrow> bool" where
  "codes_ok d \<longleftrightarrow> distinct (map cc_id (db_codes d))
     \<and> distinct (map (\<lambda>k. (cc_spot_id k, cc_code k)) (db_codes d)) \<and> unique_on cc_used_by (db_codes d)
     \<and> list_all (\<lambda>k. has_spot d (cc_spot_id k) \<and> code_match_spot d k) (db_codes d)"

definition trans_ok :: "db \<Rightarrow> bool" where
  "trans_ok d \<longleftrightarrow> distinct (map tr_id (db_trans d)) \<and> list_all trans_check (db_trans d)
     \<and> distinct (map tr_tx_hash (db_trans d)) \<and> unique_on claim_payout_slot (db_trans d)
     \<and> unique_on cancellation_slot (db_trans d) \<and> unique_on creation_fee_slot (db_trans d)
     \<and> unique_on remainder_refund_slot (db_trans d)
     \<and> list_all (\<lambda>t. has_user d (tr_user_id t) \<and> opt_all (has_spot d) (tr_spot_id t)
          \<and> opt_all (has_claim d) (tr_claim_id t)) (db_trans d)"

definition attempts_ok :: "db \<Rightarrow> bool" where
  "attempts_ok d \<longleftrightarrow> distinct (map at_claim_id (db_attempts d))
     \<and> list_all (\<lambda>a. \<exists>c k. find_row cl_id (at_claim_id a) (db_claims d) = Some c
          \<and> find_row cc_id (at_code_id a) (db_codes d) = Some k
          \<and> cl_spot_id c = cc_spot_id k \<and> \<not> terminal (cl_status c)) (db_attempts d)"

definition db_ok :: "db \<Rightarrow> bool" where
  "db_ok d \<longleftrightarrow> users_ok d \<and> spots_ok d \<and> prizedraws_ok d \<and> claims_ok d \<and> codes_ok d \<and> trans_ok d
     \<and> attempts_ok d"

lemmas db_ok_defs = db_ok_def users_ok_def spots_ok_def prizedraws_ok_def claims_ok_def codes_ok_def
  trans_ok_def attempts_ok_def

lemma db_ok_empty: "db_ok (empty_db now)"
  by (simp add: db_ok_defs empty_db_def unique_on_def)

section \<open>Existence through the keys\<close>

lemma has_user_iff: "has_user d u \<longleftrightarrow> u \<in> us_id ` set (db_users d)"
  using find_row_None_iff [of us_id u "db_users d"] by (simp add: has_user_def)

lemma has_spot_iff: "has_spot d s \<longleftrightarrow> s \<in> sp_id ` set (db_spots d)"
  using find_row_None_iff [of sp_id s "db_spots d"] by (simp add: has_spot_def)

lemma has_claim_iff: "has_claim d c \<longleftrightarrow> c \<in> cl_id ` set (db_claims d)"
  using find_row_None_iff [of cl_id c "db_claims d"] by (simp add: has_claim_def)

text \<open>The cross-table predicates read one table each.\<close>

lemma has_user_cong: "db_users d' = db_users d \<Longrightarrow> has_user d' = has_user d"
  by (simp add: has_user_def fun_eq_iff)

lemma has_spot_cong: "db_spots d' = db_spots d \<Longrightarrow> has_spot d' = has_spot d"
  by (simp add: has_spot_def fun_eq_iff)

lemma has_claim_cong: "db_claims d' = db_claims d \<Longrightarrow> has_claim d' = has_claim d"
  by (simp add: has_claim_def fun_eq_iff)

lemma code_match_cong: "db_claims d' = db_claims d \<Longrightarrow> code_match_spot d' = code_match_spot d"
  by (simp add: code_match_spot_def fun_eq_iff cong: option.case_cong)

lemma prize_trigger_cong:
  "db_spots d' = db_spots d \<Longrightarrow> prize_count_trigger_ok d' = prize_count_trigger_ok d"
  by (simp add: prize_count_trigger_ok_def fun_eq_iff)

lemmas table_congs = has_user_cong has_spot_cong has_claim_cong code_match_cong prize_trigger_cong

lemma update_where_keys_image:
  "(\<And>r. P r \<Longrightarrow> key (f r) = key r) \<Longrightarrow> key ` set (update_where P f rows) = key ` set rows"
  by (metis list.set_map map_update_where)

lemma list_all_update_where:
  "list_all Q rows \<Longrightarrow> (\<And>r. r \<in> set rows \<Longrightarrow> P r \<Longrightarrow> Q r \<Longrightarrow> Q (f r)) \<Longrightarrow>
   list_all Q (update_where P f rows)"
  by (auto simp: list_all_iff set_update_where)

lemma db_ok_claim_row: "db_ok d \<Longrightarrow> c \<in> set (db_claims d) \<Longrightarrow> find_row cl_id (cl_id c) (db_claims d) = Some c"
  by (simp add: db_ok_def claims_ok_def find_row_distinct)

lemma db_ok_spot_row: "db_ok d \<Longrightarrow> s \<in> set (db_spots d) \<Longrightarrow> find_row sp_id (sp_id s) (db_spots d) = Some s"
  by (simp add: db_ok_def spots_ok_def find_row_distinct)

section \<open>Statements keep the invariant\<close>

lemma insert_user_ok:
  assumes "insert_user h n st d = Inr (i, d')" and "db_ok d"
  shows "db_ok d'"
proof -
  let ?r = "\<lparr>us_id = i, us_device_id_hash = h, us_display_name = n, us_status = st,
             us_created_at = db_now d, us_last_seen_at = db_now d\<rparr>"
  have d': "d' = d\<lparr>db_users := db_users d @ [?r], db_user_seq := i\<rparr>" "user_check ?r"
    "h \<notin> us_device_id_hash ` set (db_users d)" "i \<notin> us_id ` set (db_users d)"
    using assms(1) next_id_fresh [of "db_user_seq d" "map us_id (db_users d)"]
    by (auto simp: insert_user_def Let_def split: if_splits)
  have mono: "has_user d u \<Longrightarrow> has_user d' u" for u by (auto simp: has_user_iff d'(1))
  have same: "has_spot d' = has_spot d" "has_claim d' = has_claim d" "code_match_spot d' = code_match_spot d"
    "prize_count_trigger_ok d' = prize_count_trigger_ok d"
    by (rule table_congs, simp add: d'(1))+
  have "users_ok d'" using assms(2) d'(2-) by (auto simp: db_ok_def users_ok_def d'(1))
  moreover have "spots_ok d' \<and> claims_ok d' \<and> trans_ok d'"
    using assms(2) mono same
    by (auto simp: db_ok_def spots_ok_def claims_ok_def trans_ok_def d'(1) list_all_iff)
  moreover have "prizedraws_ok d' \<and> codes_ok d' \<and> attempts_ok d'"
    using assms(2) same by (auto simp: db_ok_def prizedraws_ok_def codes_ok_def attempts_ok_def d'(1))
  ultimately show ?thesis by (simp add: db_ok_def)
qed

lemma update_users_ok:
  assumes "db_ok d" and "list_all user_check (update_where P f (db_users d))"
    and "\<And>r. us_id (f r) = us_id r" and "\<And>r. us_device_id_hash (f r) = us_device_id_hash r"
  shows "db_ok (d\<lparr>db_users := update_where P f (db_users d)\<rparr>)" (is "db_ok ?d")
proof -
  have same: "has_spot ?d = has_spot d" "has_claim ?d = has_claim d"
    "code_match_spot ?d = code_match_spot d" "prize_count_trigger_ok ?d = prize_count_trigger_ok d"
    by (rule table_congs, simp)+
  have users: "has_user ?d = has_user d"
    using update_where_keys_image [of P us_id f "db_users d"] assms(3)
    by (simp add: fun_eq_iff has_user_iff)
  show ?thesis using assms same users by (simp add: db_ok_defs map_update_where)
qed

text \<open>
  A write of Spot rows that keeps the ids and creators and, where it changes a
  participant cap, respects the Prizedraw trigger.
\<close>

lemma write_spots_ok:
  assumes ok: "db_ok d" and w: "write_spots rows d = Inr d'"
    and ids: "map sp_id rows = map sp_id (db_spots d)"
    and crt: "map sp_created_by rows = map sp_created_by (db_spots d)"
    and cap: "\<And>p. p \<in> set (db_prizedraws d) \<Longrightarrow> prize_count_trigger_ok d' p"
  shows "db_ok d'"
proof -
  have d': "d' = d\<lparr>db_spots := rows\<rparr>" using w by (simp add: write_spots_Inr)
  have img: "sp_id ` set rows = sp_id ` set (db_spots d)" using ids by (metis list.set_map)
  have imgb: "sp_created_by ` set rows = sp_created_by ` set (db_spots d)" using crt by (metis list.set_map)
  have "has_user d' = has_user d" "has_claim d' = has_claim d" "code_match_spot d' = code_match_spot d"
    by (rule table_congs, simp add: d')+
  moreover have "has_spot d' = has_spot d" by (simp add: fun_eq_iff has_spot_iff img d')
  ultimately have same: "has_spot d' = has_spot d" "has_user d' = has_user d" "has_claim d' = has_claim d"
    "code_match_spot d' = code_match_spot d" by simp_all
  have creators: "list_all (\<lambda>s. has_user d (sp_created_by s)) rows"
    using ok imgb by (force simp: db_ok_def spots_ok_def list_all_iff image_iff)
  have "spots_ok d'"
    using ok w creators same ids by (simp add: spots_ok_def db_ok_def write_spots_Inr d')
  moreover have "prizedraws_ok d'"
    using ok cap same by (simp add: db_ok_def prizedraws_ok_def d' list_all_iff)
  ultimately show ?thesis using ok same by (simp add: db_ok_defs d')
qed

lemma update_spots_Inr:
  assumes "update_spots m st P f d = Inr d'"
  shows "write_spots (update_where P (\<lambda>r. stamp_spot (db_now d) st r (f r)) (db_spots d)) d = Inr d'"
    and "d' = d\<lparr>db_spots := update_where P (\<lambda>r. stamp_spot (db_now d) st r (f r)) (db_spots d)\<rparr>"
    and "m \<Longrightarrow> r \<in> set (db_spots d) \<Longrightarrow> P r \<Longrightarrow> max_total_trigger_ok d (f r)"
  using assms by (auto simp: update_spots_def write_spots_Inr list_all_iff split: if_splits)

lemma update_spots_ok:
  assumes ok: "db_ok d" and u: "update_spots m st P f d = Inr d'"
    and id: "\<And>r. sp_id (f r) = sp_id r" and crt: "\<And>r. sp_created_by (f r) = sp_created_by r"
    and cap: "m \<or> (\<forall>r. sp_max_total_claims (f r) = sp_max_total_claims r)"
  shows "db_ok d'"
proof (rule write_spots_ok [OF ok update_spots_Inr(1) [OF u]])
  let ?g = "\<lambda>r. stamp_spot (db_now d) st r (f r)"
  note d' = update_spots_Inr(2) [OF u]
  show "map sp_id (update_where P ?g (db_spots d)) = map sp_id (db_spots d)"
    by (rule map_update_where) (simp add: id)
  show "map sp_created_by (update_where P ?g (db_spots d)) = map sp_created_by (db_spots d)"
    by (rule map_update_where) (simp add: crt)
  fix p assume p: "p \<in> set (db_prizedraws d)"
  have old: "prize_count_trigger_ok d p"
    using ok p by (auto simp: db_ok_def prizedraws_ok_def list_all_iff)
  have f: "find_row sp_id (pd_spot_id p) (db_spots d')
      = map_option (\<lambda>r. if P r then ?g r else r) (find_row sp_id (pd_spot_id p) (db_spots d))"
    by (simp add: d' find_row_update_where id)
  show "prize_count_trigger_ok d' p"
  proof (cases "find_row sp_id (pd_spot_id p) (db_spots d)")
    case None
    then show ?thesis by (simp add: prize_count_trigger_ok_def f)
  next
    case (Some s)
    have s: "s \<in> set (db_spots d)" "sp_id s = pd_spot_id p" using find_row_SomeD [OF Some] by auto
    have "0 < sp_max_total_claims (f s) \<longrightarrow> pd_prize_count p \<le> sp_max_total_claims (f s)" if "P s"
    proof (cases m)
      case True
      then show ?thesis
        using update_spots_Inr(3) [OF u True s(1) that] p s(2) id [of s]
        by (force simp: max_total_trigger_ok_def)
    next
      case False
      then show ?thesis using cap old Some by (auto simp: prize_count_trigger_ok_def)
    qed
    then show ?thesis using old Some by (auto simp: prize_count_trigger_ok_def f not_less)
  qed
qed

lemma find_row_mono:
  "find_row key k xs = Some r \<Longrightarrow> find_row key k (xs @ ys) = Some r"
  by (simp add: find_row_append)

lemma insert_spot_Inr:
  assumes "insert_spot r d = Inr (i, d')"
  shows "i \<notin> sp_id ` set (db_spots d)" and "has_user d (sp_created_by r)"
    and "write_spots (db_spots d @ [r\<lparr>sp_id := i, sp_created_at := db_now d, sp_updated_at := db_now d\<rparr>]) d
      = Inr (d\<lparr>db_spots := db_spots d @ [r\<lparr>sp_id := i, sp_created_at := db_now d, sp_updated_at := db_now d\<rparr>]\<rparr>)"
    and "d' = d\<lparr>db_spots := db_spots d @ [r\<lparr>sp_id := i, sp_created_at := db_now d, sp_updated_at := db_now d\<rparr>],
                db_spot_seq := i\<rparr>"
  using assms next_id_fresh [of "db_spot_seq d" "map sp_id (db_spots d)"]
  by (auto simp: insert_spot_def Let_def write_spots_Inr split: if_splits)

lemma insert_spot_ok:
  assumes "insert_spot r d = Inr (i, d')" and ok: "db_ok d"
  shows "db_ok d'"
proof -
  note ins = insert_spot_Inr [OF assms(1)]
  let ?r = "r\<lparr>sp_id := i, sp_created_at := db_now d, sp_updated_at := db_now d\<rparr>"
  have same: "has_user d' = has_user d" "has_claim d' = has_claim d" "code_match_spot d' = code_match_spot d"
    by (rule table_congs, simp add: ins(4))+
  have mono: "has_spot d s \<Longrightarrow> has_spot d' s" for s by (auto simp: has_spot_iff ins(4))
  have trig: "has_spot d (pd_spot_id p) \<Longrightarrow> prize_count_trigger_ok d p \<Longrightarrow> prize_count_trigger_ok d' p" for p
    by (auto simp: prize_count_trigger_ok_def has_spot_def ins(4) find_row_append split: option.splits)
  have "spots_ok d'"
    using ok ins(1-3) unfolding spots_ok_def same by (auto simp: db_ok_def spots_ok_def write_spots_Inr ins(4))
  moreover have sel: "db_users d' = db_users d" "db_prizedraws d' = db_prizedraws d"
    "db_claims d' = db_claims d" "db_codes d' = db_codes d" "db_trans d' = db_trans d"
    by (simp_all add: ins(4))
  moreover have "prizedraws_ok d'" "claims_ok d'" "codes_ok d'"
    using ok mono trig
    by (auto simp: db_ok_def prizedraws_ok_def claims_ok_def codes_ok_def sel same list_all_iff)
  moreover have "trans_ok d'"
    using ok mono by (auto simp: db_ok_def trans_ok_def sel same list_all_iff elim!: opt_all_mono)
  moreover have "users_ok d'" "attempts_ok d'"
    using ok by (auto simp: db_ok_def users_ok_def attempts_ok_def ins(4))
  ultimately show ?thesis by (simp add: db_ok_def)
qed

lemma insert_prizedraw_ok:
  assumes "insert_prizedraw p d = Inr d'" and ok: "db_ok d"
  shows "db_ok d'"
proof -
  have ins: "d' = d\<lparr>db_prizedraws := db_prizedraws d @ [p]\<rparr>" "prize_count_trigger_ok d p" "prizedraw_check p"
    "pd_spot_id p \<notin> pd_spot_id ` set (db_prizedraws d)" "has_spot d (pd_spot_id p)"
    using assms(1) by (auto simp: insert_prizedraw_def split: if_splits)
  have same: "has_user d' = has_user d" "has_spot d' = has_spot d" "has_claim d' = has_claim d"
    "code_match_spot d' = code_match_spot d" "prize_count_trigger_ok d' = prize_count_trigger_ok d"
    by (rule table_congs, simp add: ins(1))+
  have "prizedraws_ok d'" using ok ins(2-) same by (auto simp: db_ok_def prizedraws_ok_def ins(1))
  then show ?thesis using ok same by (simp add: db_ok_defs ins(1))
qed

lemma update_prize_count_ok:
  assumes "update_prize_count s n d = Inr d'" and ok: "db_ok d"
  shows "db_ok d'"
proof -
  let ?P = "\<lambda>r. pd_spot_id r = s" and ?f = "\<lambda>r. r\<lparr>pd_prize_count := n\<rparr>"
  have ins: "d' = d\<lparr>db_prizedraws := update_where ?P ?f (db_prizedraws d)\<rparr>"
    using assms(1) by (auto simp: update_prize_count_def Let_def split: if_splits)
  have new: "r\<lparr>pd_prize_count := n\<rparr> = \<lparr>pd_spot_id = s, pd_prize_count = n\<rparr>" if "pd_spot_id r = s" for r
    using that by (cases r) simp
  have good: "prize_count_trigger_ok d (?f r) \<and> prizedraw_check (?f r)"
    if "r \<in> set (db_prizedraws d)" "pd_spot_id r = s" for r
    using assms(1) that unfolding new [OF that(2)]
    by (auto simp: update_prize_count_def Let_def split: if_splits)
  have same: "has_user d' = has_user d" "has_spot d' = has_spot d" "has_claim d' = has_claim d"
    "code_match_spot d' = code_match_spot d" "prize_count_trigger_ok d' = prize_count_trigger_ok d"
    by (rule table_congs, simp add: ins(1))+
  have "prizedraws_ok d'"
    using ok good same
    by (auto simp: db_ok_def prizedraws_ok_def ins(1) map_update_where intro!: list_all_update_where)
  then show ?thesis using ok same by (simp add: db_ok_defs ins(1))
qed

lemma insert_claim_ok:
  assumes "insert_claim r d = Inr (i, d')" and ok: "db_ok d"
  shows "db_ok d'"
proof -
  note ins = insert_claim_Inr [OF assms(1)]
  have same: "has_user d' = has_user d" "has_spot d' = has_spot d"
    "prize_count_trigger_ok d' = prize_count_trigger_ok d"
    by (rule table_congs, simp add: ins(1))+
  have mono: "has_claim d c \<Longrightarrow> has_claim d' c" for c by (auto simp: has_claim_iff ins(1))
  have code: "code_match_spot d k \<Longrightarrow> code_match_spot d' k" for k
    by (auto simp: code_match_spot_def ins(1) find_row_append split: option.splits)
  have "claims_ok d'" using ok ins(2-) unfolding claims_ok_def same by (auto simp: db_ok_def claims_ok_def ins(1))
  moreover have sel: "db_users d' = db_users d" "db_spots d' = db_spots d" "db_prizedraws d' = db_prizedraws d"
    "db_codes d' = db_codes d" "db_trans d' = db_trans d" by (simp_all add: ins(1))
  moreover have "codes_ok d'" "trans_ok d'"
    using ok mono code
    by (auto simp: db_ok_def codes_ok_def trans_ok_def sel same list_all_iff elim!: opt_all_mono)
  moreover have "attempts_ok d'"
    using ok by (fastforce simp: db_ok_def attempts_ok_def ins(1) list_all_iff find_row_append)
  moreover have "users_ok d'" "spots_ok d'" "prizedraws_ok d'"
    using ok same by (auto simp: db_ok_def users_ok_def spots_ok_def prizedraws_ok_def ins(1))
  ultimately show ?thesis by (simp add: db_ok_def)
qed

lemma cleanup_attempts_set:
  "a \<in> set (cleanup_attempts cs as) \<longleftrightarrow> a \<in> set as \<and> \<not> (\<exists>c\<in>set cs. cl_id c = at_claim_id a \<and> terminal (cl_status c))"
  by (simp add: cleanup_attempts_def)

text \<open>Updates of claims keep ids, Spots and recipients; a status may change when it is listed.\<close>

lemma update_claims_ok:
  assumes u: "update_claims b P f d = Inr d'" and ok: "db_ok d"
    and id: "\<And>r. cl_id (f r) = cl_id r" and spot: "\<And>r. cl_spot_id (f r) = cl_spot_id r"
    and rec: "\<And>r. cl_recipient (f r) = cl_recipient r"
    and st: "b \<or> (\<forall>r. cl_status (f r) = cl_status r)"
  shows "db_ok d'"
proof -
  let ?g = "\<lambda>r. (f r)\<lparr>cl_updated_at := db_now d\<rparr>"
  let ?rows = "update_where P ?g (db_claims d)"
  have d': "d' = d\<lparr>db_claims := ?rows, db_attempts := (if b
      then cleanup_attempts (map ?g (filter P (db_claims d))) (db_attempts d) else db_attempts d)\<rparr>"
    and chk: "list_all claim_check ?rows"
    using u by (auto simp: update_claims_Inr Let_def)
  have sel: "db_users d' = db_users d" "db_spots d' = db_spots d" "db_prizedraws d' = db_prizedraws d"
    "db_codes d' = db_codes d" "db_trans d' = db_trans d" "db_claims d' = ?rows"
    "db_attempts d' = (if b then cleanup_attempts (map ?g (filter P (db_claims d))) (db_attempts d)
      else db_attempts d)" by (simp_all add: d')
  have same: "has_user d' = has_user d" "has_spot d' = has_spot d"
    "prize_count_trigger_ok d' = prize_count_trigger_ok d"
    by (rule table_congs, simp add: d')+
  have look: "find_row cl_id k (db_claims d') = map_option (\<lambda>r. if P r then ?g r else r)
      (find_row cl_id k (db_claims d))" for k
    by (simp add: sel find_row_update_where id)
  have hc: "has_claim d' = has_claim d" by (simp add: fun_eq_iff has_claim_def look)
  have cm: "code_match_spot d' = code_match_spot d"
    by (auto simp: fun_eq_iff code_match_spot_def look option.map_comp comp_def if_distrib spot
        split: option.splits)
  have "claims_ok d'"
  proof -
    have "list_all (\<lambda>c. has_spot d (cl_spot_id c) \<and> has_user d (cl_recipient c)) ?rows"
      using ok by (auto simp: db_ok_def claims_ok_def list_all_iff set_update_where spot rec)
    then show ?thesis using ok chk
      by (auto simp: claims_ok_def db_ok_def same sel map_update_where id list_all_iff)
  qed
  moreover have "attempts_ok d'"
  proof -
    have "\<exists>c k. find_row cl_id (at_claim_id a) (db_claims d') = Some c
          \<and> find_row cc_id (at_code_id a) (db_codes d) = Some k
          \<and> cl_spot_id c = cc_spot_id k \<and> \<not> terminal (cl_status c)" if a: "a \<in> set (db_attempts d')" for a
    proof -
      have a0: "a \<in> set (db_attempts d)" using a by (auto simp: sel cleanup_attempts_set split: if_splits)
      obtain c k where c: "find_row cl_id (at_claim_id a) (db_claims d) = Some c"
          "find_row cc_id (at_code_id a) (db_codes d) = Some k"
          "cl_spot_id c = cc_spot_id k" "\<not> terminal (cl_status c)"
        using ok a0 by (auto simp: db_ok_def attempts_ok_def list_all_iff)
      have "c \<in> set (db_claims d)" "cl_id c = at_claim_id a" using find_row_SomeD [OF c(1)] by auto
      then have "\<not> terminal (cl_status (f c))" if "P c"
        using a c(4) st that id by (auto simp: sel cleanup_attempts_set split: if_splits)
      then show ?thesis using c by (auto simp: look spot)
    qed
    moreover have "distinct (map at_claim_id (db_attempts d'))"
      using ok by (auto simp: db_ok_def attempts_ok_def sel cleanup_attempts_def distinct_map_filter)
    ultimately show ?thesis by (simp add: attempts_ok_def list_all_iff sel)
  qed
  ultimately show ?thesis
    using ok same hc cm by (simp add: db_ok_def users_ok_def spots_ok_def prizedraws_ok_def codes_ok_def trans_ok_def sel)
qed

lemma insert_code_ok:
  assumes "insert_code s c d = Inr (i, d')" and ok: "db_ok d"
  shows "db_ok d'"
proof -
  let ?r = "\<lparr>cc_id = i, cc_spot_id = s, cc_code = c, cc_used_by = None\<rparr>"
  have ins: "d' = d\<lparr>db_codes := db_codes d @ [?r], db_code_seq := i\<rparr>" "i \<notin> cc_id ` set (db_codes d)"
    "(s, c) \<notin> (\<lambda>r. (cc_spot_id r, cc_code r)) ` set (db_codes d)" "has_spot d s"
    using assms(1) next_id_fresh [of "db_code_seq d" "map cc_id (db_codes d)"]
    by (auto simp: insert_code_def Let_def split: if_splits)
  have same: "has_user d' = has_user d" "has_spot d' = has_spot d" "has_claim d' = has_claim d"
    "code_match_spot d' = code_match_spot d" "prize_count_trigger_ok d' = prize_count_trigger_ok d"
    by (rule table_congs, simp add: ins(1))+
  have "codes_ok d'"
    using ok ins(2-) same
    by (auto simp: db_ok_def codes_ok_def ins(1) used_by_index.unique_append code_match_spot_def)
  moreover have "attempts_ok d'"
    using ok by (fastforce simp: db_ok_def attempts_ok_def ins(1) list_all_iff find_row_append)
  ultimately show ?thesis
    using ok same by (simp add: db_ok_def users_ok_def spots_ok_def prizedraws_ok_def claims_ok_def trans_ok_def ins(1))
qed

lemma attempts_codes_ok:
  assumes "attempts_ok d" and "db_attempts d' = db_attempts d" and "db_claims d' = db_claims d"
    and "\<And>k r. find_row cc_id k (db_codes d) = Some r \<Longrightarrow>
           \<exists>r'. find_row cc_id k (db_codes d') = Some r' \<and> cc_spot_id r' = cc_spot_id r"
  shows "attempts_ok d'"
  unfolding attempts_ok_def list_all_iff assms(2,3)
proof (intro conjI ballI)
  show "distinct (map at_claim_id (db_attempts d))" using assms(1) by (simp add: attempts_ok_def)
  fix a assume "a \<in> set (db_attempts d)"
  then obtain c k where c: "find_row cl_id (at_claim_id a) (db_claims d) = Some c"
      "find_row cc_id (at_code_id a) (db_codes d) = Some k"
      "cl_spot_id c = cc_spot_id k" "\<not> terminal (cl_status c)"
    using assms(1) by (auto simp: attempts_ok_def list_all_iff)
  then show "\<exists>c k. find_row cl_id (at_claim_id a) (db_claims d) = Some c
      \<and> find_row cc_id (at_code_id a) (db_codes d') = Some k \<and> cl_spot_id c = cc_spot_id k
      \<and> \<not> terminal (cl_status c)"
    using assms(4) [OF c(2)] by auto
qed

lemma update_used_by_ok:
  assumes "update_used_by P v d = Inr d'" and ok: "db_ok d"
  shows "db_ok d'"
proof -
  let ?f = "\<lambda>r. r\<lparr>cc_used_by := v\<rparr>"
  have ins: "d' = d\<lparr>db_codes := update_where P ?f (db_codes d)\<rparr>"
    "list_all (\<lambda>r. P r \<longrightarrow> code_match_spot d (?f r)) (db_codes d)"
    "unique_on cc_used_by (update_where P ?f (db_codes d))"
    using assms(1) by (auto simp: update_used_by_def Let_def split: if_splits)
  have same: "has_user d' = has_user d" "has_spot d' = has_spot d" "has_claim d' = has_claim d"
    "code_match_spot d' = code_match_spot d" "prize_count_trigger_ok d' = prize_count_trigger_ok d"
    by (rule table_congs, simp add: ins(1))+
  have "codes_ok d'"
    using ok ins(2-) same
    by (auto simp: db_ok_def codes_ok_def ins(1) map_update_where list_all_iff set_update_where)
  moreover have "attempts_ok d'"
  proof -
    have "find_row cc_id k (db_codes d') = map_option (\<lambda>r. if P r then ?f r else r) (find_row cc_id k (db_codes d))"
      for k by (simp add: ins(1) find_row_update_where)
    then have "\<exists>r'. find_row cc_id k (db_codes d') = Some r' \<and> cc_spot_id r' = cc_spot_id r"
      if "find_row cc_id k (db_codes d) = Some r" for k r using that by simp
    moreover have "attempts_ok d" using ok by (simp add: db_ok_def)
    ultimately show ?thesis by (intro attempts_codes_ok [of d d']) (simp_all add: ins(1))
  qed
  ultimately show ?thesis
    using ok same by (simp add: db_ok_def users_ok_def spots_ok_def prizedraws_ok_def claims_ok_def trans_ok_def ins(1))
qed

lemma delete_codes_ok:
  assumes ok: "db_ok d"
  shows "db_ok (delete_codes P d)"
proof -
  let ?d = "delete_codes P d"
  have sel: "db_users ?d = db_users d" "db_spots ?d = db_spots d" "db_prizedraws ?d = db_prizedraws d"
    "db_claims ?d = db_claims d" "db_trans ?d = db_trans d" "db_codes ?d = filter (\<lambda>r. \<not> P r) (db_codes d)"
    "db_attempts ?d = filter (\<lambda>a. at_code_id a \<notin> set (map cc_id (filter P (db_codes d)))) (db_attempts d)"
    by (simp_all add: delete_codes_def Let_def)
  have same: "has_user ?d = has_user d" "has_spot ?d = has_spot d" "has_claim ?d = has_claim d"
    "code_match_spot ?d = code_match_spot d" "prize_count_trigger_ok ?d = prize_count_trigger_ok d"
    by (rule table_congs, simp add: sel)+
  have "codes_ok ?d"
    using ok unfolding codes_ok_def same sel
    by (auto simp: db_ok_def codes_ok_def distinct_map_filter list_all_iff intro: used_by_index.unique_filter)
  moreover have "attempts_ok ?d"
    unfolding attempts_ok_def list_all_iff
  proof (intro conjI ballI)
    show "distinct (map at_claim_id (db_attempts ?d))"
      using ok by (simp add: sel db_ok_def attempts_ok_def distinct_map_filter)
    fix a assume a: "a \<in> set (db_attempts ?d)"
    then obtain c k where c: "find_row cl_id (at_claim_id a) (db_claims d) = Some c"
        "find_row cc_id (at_code_id a) (db_codes d) = Some k"
        "cl_spot_id c = cc_spot_id k" "\<not> terminal (cl_status c)"
      using ok by (auto simp: sel db_ok_def attempts_ok_def list_all_iff)
    have k: "k \<in> set (db_codes d)" "cc_id k = at_code_id a" using find_row_SomeD [OF c(2)] by auto
    then have "\<not> P k" using a by (force simp: sel image_iff)
    moreover have "distinct (map cc_id (db_codes ?d))" using ok by (simp add: sel db_ok_def codes_ok_def distinct_map_filter)
    ultimately have "find_row cc_id (at_code_id a) (db_codes ?d) = Some k"
      using k find_row_distinct [of cc_id "db_codes ?d" k] by (simp add: sel)
    then show "\<exists>c k. find_row cl_id (at_claim_id a) (db_claims ?d) = Some c
        \<and> find_row cc_id (at_code_id a) (db_codes ?d) = Some k \<and> cl_spot_id c = cc_spot_id k
        \<and> \<not> terminal (cl_status c)"
      using c by (simp add: sel)
  qed
  ultimately show ?thesis
    using ok same
    by (simp add: db_ok_def users_ok_def spots_ok_def prizedraws_ok_def claims_ok_def trans_ok_def sel)
qed

lemma insert_attempt_ok:
  assumes "insert_attempt c k d = Inr d'" and ok: "db_ok d"
  shows "db_ok d'"
proof -
  let ?a = "\<lparr>at_claim_id = c, at_code_id = k, at_created_at = db_now d\<rparr>"
  have ins: "d' = d\<lparr>db_attempts := db_attempts d @ [?a]\<rparr>" "c \<notin> at_claim_id ` set (db_attempts d)"
    and row: "\<exists>r q. find_row cl_id c (db_claims d) = Some r \<and> find_row cc_id k (db_codes d) = Some q
      \<and> cl_spot_id r = cc_spot_id q \<and> cl_status r = CLAIM_STATUS_PENDING"
    using assms(1)
    by (cases "find_row cc_id k (db_codes d)"; auto simp: insert_attempt_def Let_def split: if_splits)+
  have same: "has_user d' = has_user d" "has_spot d' = has_spot d" "has_claim d' = has_claim d"
    "code_match_spot d' = code_match_spot d" "prize_count_trigger_ok d' = prize_count_trigger_ok d"
    by (rule table_congs, simp add: ins(1))+
  have "attempts_ok d'"
    using ok ins(2) row by (auto simp: db_ok_def attempts_ok_def ins(1) terminal_def)
  then show ?thesis
    using ok same
    by (simp add: db_ok_def users_ok_def spots_ok_def prizedraws_ok_def claims_ok_def codes_ok_def trans_ok_def ins(1))
qed

lemma db_ok_trans:
  assumes ok: "db_ok d" and "trans_ok d'"
    and sel: "db_users d' = db_users d" "db_spots d' = db_spots d" "db_prizedraws d' = db_prizedraws d"
      "db_claims d' = db_claims d" "db_codes d' = db_codes d" "db_attempts d' = db_attempts d"
  shows "db_ok d'"
proof -
  have same: "has_user d' = has_user d" "has_spot d' = has_spot d" "has_claim d' = has_claim d"
    "code_match_spot d' = code_match_spot d" "prize_count_trigger_ok d' = prize_count_trigger_ok d"
    by (rule table_congs, simp add: sel)+
  show ?thesis
    using ok assms(2) same
    by (simp add: db_ok_def users_ok_def spots_ok_def prizedraws_ok_def claims_ok_def codes_ok_def
        attempts_ok_def sel)
qed

lemma insert_trans_ok:
  assumes "insert_trans r d = Inr (i, d')" and ok: "db_ok d"
  shows "db_ok d'"
proof (rule db_ok_trans [OF ok])
  note ins = insert_trans_Inr [OF assms(1)]
  have same: "has_user d' = has_user d" "has_spot d' = has_spot d" "has_claim d' = has_claim d"
    by (rule table_congs, simp add: ins(1))+
  have fk: "has_user d (tr_user_id r) \<and> opt_all (has_spot d) (tr_spot_id r) \<and> opt_all (has_claim d) (tr_claim_id r)"
    using assms(1) by (auto simp: insert_trans_def Let_def split: if_splits)
  have sel: "db_trans d' = db_trans d @ [r\<lparr>tr_id := i, tr_created_at := db_now d\<rparr>]" by (simp add: ins(1))
  show "trans_ok d'"
    using ok ins(2,3) fk unfolding trans_ok_def same sel
    by (auto simp: db_ok_def trans_ok_def write_trans_Inr)
qed (simp_all add: insert_trans_Inr(1) [OF assms(1)])

lemma update_trans_ok:
  assumes "update_trans P f d = Inr d'" and ok: "db_ok d"
    and id: "\<And>r. tr_id (f r) = tr_id r" and user: "\<And>r. tr_user_id (f r) = tr_user_id r"
    and spot: "\<And>r. tr_spot_id (f r) = tr_spot_id r" and claim: "\<And>r. tr_claim_id (f r) = tr_claim_id r"
  shows "db_ok d'"
proof (rule db_ok_trans [OF ok])
  have d': "d' = d\<lparr>db_trans := update_where P f (db_trans d)\<rparr>"
    using assms(1) by (simp add: update_trans_def write_trans_Inr)
  have same: "has_user d' = has_user d" "has_spot d' = has_spot d" "has_claim d' = has_claim d"
    by (rule table_congs, simp add: d')+
  have sel: "db_trans d' = update_where P f (db_trans d)" by (simp add: d')
  have "list_all (\<lambda>t. has_user d (tr_user_id t) \<and> opt_all (has_spot d) (tr_spot_id t)
          \<and> opt_all (has_claim d) (tr_claim_id t)) (update_where P f (db_trans d))"
    using ok by (auto simp: db_ok_def trans_ok_def list_all_iff set_update_where user spot claim)
  then show "trans_ok d'"
    using ok assms(1) unfolding trans_ok_def same sel
    by (simp add: db_ok_def trans_ok_def update_trans_def write_trans_Inr map_update_where id)
  show "db_users d' = db_users d" "db_spots d' = db_spots d" "db_prizedraws d' = db_prizedraws d"
    "db_claims d' = db_claims d" "db_codes d' = db_codes d" "db_attempts d' = db_attempts d"
    by (simp_all add: d')
qed

section \<open>Deleting Spots\<close>

lemma find_row_filter_keep:
  assumes "distinct (map key rows)" and "find_row key k rows = Some r" and "Q r"
  shows "find_row key k (filter Q rows) = Some r"
proof -
  have "r \<in> set (filter Q rows)" "key r = k" using find_row_SomeD [OF assms(2)] assms(3) by auto
  then show ?thesis
    using find_row_distinct [of key "filter Q rows" r] assms(1) by (simp add: distinct_map_filter)
qed

definition gone_spots :: "(spot_row \<Rightarrow> bool) \<Rightarrow> db \<Rightarrow> int set" where
  "gone_spots P d = sp_id ` set (filter P (db_spots d))"

lemma delete_spots_sel:
  "db_users (delete_spots P d) = db_users d"
  "db_spots (delete_spots P d) = filter (\<lambda>r. \<not> P r) (db_spots d)"
  "db_prizedraws (delete_spots P d) = filter (\<lambda>r. pd_spot_id r \<notin> gone_spots P d) (db_prizedraws d)"
  "db_claims (delete_spots P d) = filter (\<lambda>r. cl_spot_id r \<notin> gone_spots P d) (db_claims d)"
  by (simp_all add: delete_spots_def Let_def gone_spots_def)

lemma has_spot_deleted:
  assumes "distinct (map sp_id (db_spots d))"
  shows "has_spot (delete_spots P d) s \<longleftrightarrow> has_spot d s \<and> s \<notin> gone_spots P d"
  using assms by (auto simp: has_spot_iff delete_spots_sel gone_spots_def distinct_map inj_on_def)

lemma claim_row_deleted:
  assumes "distinct (map cl_id (db_claims d))"
  shows "find_row cl_id c (db_claims (delete_spots P d)) = (case find_row cl_id c (db_claims d) of None \<Rightarrow> None
    | Some r \<Rightarrow> if cl_spot_id r \<in> gone_spots P d then None else Some r)"
proof (cases "find_row cl_id c (db_claims d)")
  case None
  then have "find_row cl_id c (db_claims (delete_spots P d)) = None"
    by (auto simp: delete_spots_sel find_row_None_iff)
  then show ?thesis using None by simp
next
  case (Some r)
  have r: "r \<in> set (db_claims d)" "cl_id r = c" using find_row_SomeD [OF Some] by auto
  show ?thesis
  proof (cases "cl_spot_id r \<in> gone_spots P d")
    case True
    have "cl_id x = c \<Longrightarrow> x \<in> set (db_claims d) \<Longrightarrow> x = r" for x
      using assms r by (auto simp: distinct_map inj_on_def)
    then have "c \<notin> cl_id ` set (db_claims (delete_spots P d))"
      using True by (auto simp: delete_spots_sel)
    then show ?thesis using Some True by (simp add: find_row_None_iff)
  next
    case False
    then show ?thesis
      using Some find_row_filter_keep [OF assms Some, of "\<lambda>r. cl_spot_id r \<notin> gone_spots P d"]
      by (simp add: delete_spots_sel)
  qed
qed

lemma prize_trigger_deleted:
  assumes "distinct (map sp_id (db_spots d))" and "prize_count_trigger_ok d p"
  shows "prize_count_trigger_ok (delete_spots P d) p"
proof (cases "find_row sp_id (pd_spot_id p) (db_spots (delete_spots P d))")
  case (Some s)
  then have "s \<in> set (db_spots d)" "sp_id s = pd_spot_id p"
    using find_row_SomeD [OF Some] by (auto simp: delete_spots_sel)
  then have "find_row sp_id (pd_spot_id p) (db_spots d) = Some s"
    using find_row_distinct [OF assms(1)] by metis
  then show ?thesis using assms(2) Some by (simp add: prize_count_trigger_ok_def)
qed (simp add: prize_count_trigger_ok_def)

lemma delete_spots_tables:
  "db_codes (delete_spots P d) = map (\<lambda>r. r\<lparr>cc_used_by := (if cc_used_by r \<in> Some ` cl_id ` {c \<in> set (db_claims d).
       cl_spot_id c \<in> gone_spots P d} then None else cc_used_by r)\<rparr>)
     (filter (\<lambda>r. cc_spot_id r \<notin> gone_spots P d) (db_codes d))"
  "db_attempts (delete_spots P d) = filter (\<lambda>a. at_claim_id a \<notin> cl_id ` {c \<in> set (db_claims d).
       cl_spot_id c \<in> gone_spots P d} \<and> at_code_id a \<notin> cc_id ` {k \<in> set (db_codes d).
       cc_spot_id k \<in> gone_spots P d}) (db_attempts d)"
  "db_trans (delete_spots P d) = update_where (\<lambda>_. True) (\<lambda>r. r\<lparr>
       tr_spot_id := (if tr_spot_id r \<in> Some ` gone_spots P d then None else tr_spot_id r),
       tr_claim_id := (if tr_claim_id r \<in> Some ` cl_id ` {c \<in> set (db_claims d).
         cl_spot_id c \<in> gone_spots P d} then None else tr_claim_id r)\<rparr>) (db_trans d)"
  by (simp_all add: delete_spots_def Let_def gone_spots_def update_where_def)

lemma delete_spots_codes_ok:
  assumes ok: "db_ok d"
  shows "codes_ok (delete_spots P d)"
proof -
  let ?d = "delete_spots P d"
  let ?G = "cl_id ` {c \<in> set (db_claims d). cl_spot_id c \<in> gone_spots P d}"
  let ?f = "\<lambda>r. r\<lparr>cc_used_by := (if cc_used_by r \<in> Some ` ?G then None else cc_used_by r)\<rparr>"
  have sd: "distinct (map sp_id (db_spots d))" and cd: "distinct (map cl_id (db_claims d))"
    using ok by (auto simp: db_ok_def spots_ok_def claims_ok_def)
  have codes: "db_codes ?d = update_where (\<lambda>_. True) ?f (filter (\<lambda>r. cc_spot_id r \<notin> gone_spots P d) (db_codes d))"
    by (simp add: delete_spots_tables update_where_def)
  have "code_match_spot ?d (?f k)" if k: "k \<in> set (db_codes d)" "cc_spot_id k \<notin> gone_spots P d" for k
  proof (cases "cc_used_by k")
    case (Some c)
    have m: "map_option cl_spot_id (find_row cl_id c (db_claims d)) = Some (cc_spot_id k)"
      using ok k(1) Some by (auto simp: db_ok_def codes_ok_def list_all_iff code_match_spot_def)
    then obtain r where r: "find_row cl_id c (db_claims d) = Some r" "cl_spot_id r = cc_spot_id k" by auto
    show ?thesis using Some r k(2) by (simp add: code_match_spot_def claim_row_deleted [OF cd])
  qed (simp add: code_match_spot_def)
  then have "list_all (\<lambda>k. has_spot ?d (cc_spot_id k) \<and> code_match_spot ?d k) (db_codes ?d)"
    using ok by (auto simp: db_ok_def codes_ok_def delete_spots_tables(1) list_all_iff has_spot_deleted [OF sd])
  moreover have "unique_on cc_used_by (db_codes ?d)"
    unfolding codes
    by (rule used_by_index.unique_update) (use ok in \<open>auto simp: db_ok_def codes_ok_def
        intro: used_by_index.unique_filter\<close>)
  moreover have "distinct (map cc_id (db_codes ?d))"
      "distinct (map (\<lambda>k. (cc_spot_id k, cc_code k)) (db_codes ?d))"
    unfolding codes
    using ok by (simp_all add: map_update_where db_ok_def codes_ok_def distinct_map_filter)
  ultimately show ?thesis by (simp add: codes_ok_def)
qed

lemma delete_spots_trans_ok:
  assumes ok: "db_ok d"
  shows "trans_ok (delete_spots P d)"
proof -
  let ?d = "delete_spots P d"
  let ?G = "cl_id ` {c \<in> set (db_claims d). cl_spot_id c \<in> gone_spots P d}"
  let ?f = "\<lambda>r. r\<lparr>tr_spot_id := (if tr_spot_id r \<in> Some ` gone_spots P d then None else tr_spot_id r),
       tr_claim_id := (if tr_claim_id r \<in> Some ` ?G then None else tr_claim_id r)\<rparr>"
  have sd: "distinct (map sp_id (db_spots d))" using ok by (auto simp: db_ok_def spots_ok_def)
  have users: "has_user ?d = has_user d" by (rule has_user_cong) (simp add: delete_spots_sel)
  have claims: "has_claim d c \<Longrightarrow> c \<notin> ?G \<Longrightarrow> has_claim ?d c" for c
    by (auto simp: has_claim_iff delete_spots_sel image_iff)
  have rows: "db_trans ?d = update_where (\<lambda>_. True) ?f (db_trans d)" by (rule delete_spots_tables)
  have "list_all (\<lambda>t. has_user d (tr_user_id t) \<and> opt_all (has_spot ?d) (tr_spot_id t)
          \<and> opt_all (has_claim ?d) (tr_claim_id t)) (db_trans ?d)"
  proof -
    have spot: "opt_all (has_spot d) v \<Longrightarrow> opt_all (has_spot ?d) (if v \<in> Some ` gone_spots P d then None else v)" for v
      by (cases v) (auto simp: has_spot_deleted [OF sd])
    have claim: "opt_all (has_claim d) v \<Longrightarrow> opt_all (has_claim ?d) (if v \<in> Some ` ?G then None else v)" for v
      using claims by (cases v) (simp_all add: inj_image_mem_iff)
    show ?thesis
      using ok spot claim unfolding rows
      by (simp add: list_all_iff set_update_where db_ok_def trans_ok_def)
  qed
  moreover have "unique_on claim_payout_slot (db_trans ?d)" "unique_on cancellation_slot (db_trans ?d)"
    "unique_on creation_fee_slot (db_trans ?d)" "unique_on remainder_refund_slot (db_trans ?d)"
    unfolding rows
    by ((rule payout_index.unique_update cancellation_index.unique_update creation_fee_index.unique_update
          remainder_index.unique_update);
        use ok in \<open>auto simp: db_ok_def trans_ok_def claim_payout_slot_def cancellation_slot_def
          creation_fee_slot_def remainder_refund_slot_def active_def\<close>)+
  moreover have "list_all trans_check (db_trans ?d)"
    unfolding rows using ok
    by (intro list_all_update_where) (auto simp: db_ok_def trans_ok_def trans_check_def)
  moreover have "distinct (map tr_id (db_trans ?d))" "distinct (map tr_tx_hash (db_trans ?d))"
    unfolding rows using ok by (simp_all add: map_update_where db_ok_def trans_ok_def)
  ultimately show ?thesis by (simp add: trans_ok_def users)
qed

lemma delete_spots_attempts_ok:
  assumes ok: "db_ok d"
  shows "attempts_ok (delete_spots P d)"
  unfolding attempts_ok_def list_all_iff
proof (intro conjI ballI)
  let ?d = "delete_spots P d"
  have cd: "distinct (map cl_id (db_claims d))" and kd: "distinct (map cc_id (db_codes d))"
    using ok by (auto simp: db_ok_def claims_ok_def codes_ok_def)
  show "distinct (map at_claim_id (db_attempts ?d))"
    using ok by (simp add: delete_spots_tables db_ok_def attempts_ok_def distinct_map_filter)
  fix a assume a: "a \<in> set (db_attempts ?d)"
  then obtain c k where c: "find_row cl_id (at_claim_id a) (db_claims d) = Some c"
      "find_row cc_id (at_code_id a) (db_codes d) = Some k"
      "cl_spot_id c = cc_spot_id k" "\<not> terminal (cl_status c)"
    using ok by (auto simp: delete_spots_tables db_ok_def attempts_ok_def list_all_iff)
  have mem: "c \<in> set (db_claims d)" "cl_id c = at_claim_id a"
    using find_row_SomeD [OF c(1)] by auto
  then have ns: "cl_spot_id c \<notin> gone_spots P d"
    using a by (force simp: delete_spots_tables image_iff)
  have "find_row cc_id (at_code_id a) (filter (\<lambda>r. cc_spot_id r \<notin> gone_spots P d) (db_codes d)) = Some k"
    using ns c(2,3) by (intro find_row_filter_keep [OF kd]) auto
  then have "\<exists>k'. find_row cc_id (at_code_id a) (db_codes ?d) = Some k' \<and> cc_spot_id k' = cc_spot_id k"
    unfolding delete_spots_tables update_where_def [of "\<lambda>_. True", simplified, symmetric]
    by (simp add: find_row_update_where)
  then show "\<exists>c k. find_row cl_id (at_claim_id a) (db_claims ?d) = Some c
      \<and> find_row cc_id (at_code_id a) (db_codes ?d) = Some k \<and> cl_spot_id c = cc_spot_id k
      \<and> \<not> terminal (cl_status c)"
    using c ns by (auto simp: claim_row_deleted [OF cd])
qed

lemma delete_spots_ok:
  assumes ok: "db_ok d"
  shows "db_ok (delete_spots P d)"
proof -
  let ?d = "delete_spots P d"
  have sd: "distinct (map sp_id (db_spots d))" using ok by (auto simp: db_ok_def spots_ok_def)
  have users: "has_user ?d = has_user d" by (rule has_user_cong) (simp add: delete_spots_sel)
  have "users_ok ?d" using ok by (simp add: db_ok_def users_ok_def delete_spots_sel)
  moreover have "spots_ok ?d"
    using ok unfolding spots_ok_def users delete_spots_sel
    by (auto simp: db_ok_def spots_ok_def distinct_map_filter list_all_iff intro: key_index.unique_filter)
  moreover have "prizedraws_ok ?d"
    using ok prize_trigger_deleted [OF sd]
    by (auto simp: db_ok_def prizedraws_ok_def delete_spots_sel(3) distinct_map_filter list_all_iff has_spot_deleted [OF sd])
  moreover have "claims_ok ?d"
    using ok unfolding claims_ok_def users delete_spots_sel(4)
    by (auto simp: db_ok_def claims_ok_def distinct_map_filter list_all_iff has_spot_deleted [OF sd])
  ultimately show ?thesis
    using delete_spots_codes_ok [OF ok] delete_spots_trans_ok [OF ok] delete_spots_attempts_ok [OF ok]
    by (simp add: db_ok_def)
qed

section \<open>Fields outside the invariant\<close>

lemma db_ok_other [simp]:
  "db_ok (d\<lparr>db_next_key_index := x\<rparr>) = db_ok d"
  "db_ok (d\<lparr>db_admissions := as\<rparr>) = db_ok d"
  "db_ok (d\<lparr>db_admission_seq := n\<rparr>) = db_ok d"
  "db_ok (d\<lparr>db_remainder_settled := s\<rparr>) = db_ok d"
  "db_ok (d\<lparr>db_reports := rs\<rparr>) = db_ok d"
  "db_ok (d\<lparr>db_report_seq := m\<rparr>) = db_ok d"
  "db_ok (d\<lparr>db_now := t\<rparr>) = db_ok d"
  "db_ok (d\<lparr>db_behaviour := bs\<rparr>) = db_ok d"
  "db_ok (d\<lparr>db_events := es\<rparr>) = db_ok d"
  "db_ok (d\<lparr>db_event_seq := k\<rparr>) = db_ok d"
proof -
  have *: "db_ok d' = db_ok d" if sel: "db_users d' = db_users d" "db_spots d' = db_spots d"
      "db_prizedraws d' = db_prizedraws d" "db_claims d' = db_claims d" "db_codes d' = db_codes d"
      "db_attempts d' = db_attempts d" "db_trans d' = db_trans d" for d'
  proof -
    have "has_user d' = has_user d" "has_spot d' = has_spot d" "has_claim d' = has_claim d"
      "code_match_spot d' = code_match_spot d" "prize_count_trigger_ok d' = prize_count_trigger_ok d"
      by (rule table_congs, simp add: sel)+
    then show ?thesis by (simp add: db_ok_defs sel)
  qed
  show "db_ok (d\<lparr>db_next_key_index := x\<rparr>) = db_ok d" "db_ok (d\<lparr>db_admissions := as\<rparr>) = db_ok d"
    "db_ok (d\<lparr>db_admission_seq := n\<rparr>) = db_ok d" "db_ok (d\<lparr>db_remainder_settled := s\<rparr>) = db_ok d"
    "db_ok (d\<lparr>db_reports := rs\<rparr>) = db_ok d" "db_ok (d\<lparr>db_report_seq := m\<rparr>) = db_ok d"
    "db_ok (d\<lparr>db_now := t\<rparr>) = db_ok d" "db_ok (d\<lparr>db_behaviour := bs\<rparr>) = db_ok d"
    "db_ok (d\<lparr>db_events := es\<rparr>) = db_ok d" "db_ok (d\<lparr>db_event_seq := k\<rparr>) = db_ok d"
    by (rule *; simp)+
qed

end
