(* ===== verification/Samples.thy ===== *)
theory Samples
  imports Integrity
begin

text \<open>
  A small concrete database on which the properties of the development are
  instantiated: a creator, three other users and one Spot of each kind. The
  Spot rows start from \<open>sample_spot\<close>, a published standard Spot for two
  claims whose claim duration is zero.
\<close>

definition sample_user :: "int \<Rightarrow> string \<Rightarrow> user_row" where
  "sample_user i h = \<lparr>us_id = i, us_device_id_hash = h, us_display_name = None,
     us_status = USER_STATUS_ACTIVE, us_created_at = 10, us_last_seen_at = 10\<rparr>"

definition sample_spot :: spot_row where
  "sample_spot = \<lparr>sp_id = 1, sp_created_by = 1, sp_link = ''l'', sp_deposit_address = ''D'',
     sp_deposit_key_index = Some 0, sp_deposit_key_path = None, sp_deposit_key_version = 1,
     sp_title = ''spot'', sp_description = None, sp_lat = Some 0, sp_long = Some 0,
     sp_geohash = None, sp_city = None, sp_country = None, sp_radius = 200, sp_claim_duration = 0,
     sp_max_claims_per_user = 1, sp_max_total_claims = 2, sp_use_password = 0,
     sp_total_value = 50000000, sp_creation_fee = 20000000, sp_creation_fee_address = ''F'',
     sp_starts_at = Some 500000, sp_ends_at = 2419200, sp_status = SPOT_STATUS_PUBLISHED,
     sp_created_at = 10, sp_updated_at = 10, sp_cancellation_started_at = None\<rparr>"

definition sample_deposit :: trans_row where
  "sample_deposit = \<lparr>tr_id = 1, tr_user_id = 1, tr_spot_id = Some 1, tr_claim_id = None,
     tr_type = TRANS_TYPE_FILL_SPOT, tr_amount = 70000000, tr_from_address = ''W'', tr_to_address = ''D'',
     tr_tx_hash = ''h1'', tr_block_number = Some 1, tr_status = TRANS_STATUS_CONFIRMED,
     tr_created_at = 10, tr_completed_at = Some 11\<rparr>"

definition sample_claim :: "int \<Rightarrow> int \<Rightarrow> int \<Rightarrow> claim_row" where
  "sample_claim i u st = \<lparr>cl_id = i, cl_spot_id = 1, cl_recipient = u, cl_payout_address = None,
     cl_lat = 0, cl_long = 0, cl_accuracy = 1, cl_status = st, cl_claimed_at = 900000,
     cl_updated_at = 999900\<rparr>"

definition sample_db :: db where
  "sample_db = (empty_db 1000000)\<lparr>
     db_users := [sample_user 1 ''a'', sample_user 2 ''b'', sample_user 3 ''c'', sample_user 4 ''d''],
     db_user_seq := 4, db_spots := [sample_spot], db_spot_seq := 1,
     db_trans := [sample_deposit], db_trans_seq := 1, db_next_key_index := Some 1\<rparr>"

text \<open>The same with two pending claims of users 2 and 3.\<close>

definition sample_claims_db :: db where
  "sample_claims_db = sample_db\<lparr>
     db_claims := [sample_claim 1 2 CLAIM_STATUS_PENDING, sample_claim 2 3 CLAIM_STATUS_PENDING],
     db_claim_seq := 2\<rparr>"

definition sample_draft_db :: db where
  "sample_draft_db = sample_db\<lparr>db_spots := [sample_spot\<lparr>sp_status := SPOT_STATUS_DRAFT, sp_starts_at := None\<rparr>]\<rparr>"

text \<open>A Prizedraw of two prizes among at most five entries.\<close>

definition sample_draw_db :: db where
  "sample_draw_db = sample_db\<lparr>
     db_spots := [sample_spot\<lparr>sp_max_total_claims := 5\<rparr>],
     db_prizedraws := [\<lparr>pd_spot_id = 1, pd_prize_count = 2\<rparr>]\<rparr>"

lemmas sample_defs = sample_user_def sample_spot_def sample_deposit_def sample_claim_def sample_db_def
  sample_claims_db_def sample_draft_db_def sample_draw_db_def empty_db_def

lemma sample_db_ok: "db_ok sample_db"
  by (simp add: sample_defs db_ok_defs user_check_def spot_check_def trans_check_def unique_on_def
      const_defs has_user_def has_spot_def claim_payout_slot_def cancellation_slot_def
      creation_fee_slot_def remainder_refund_slot_def)

lemma sample_claims_db_ok: "db_ok sample_claims_db"
  by (simp add: sample_defs db_ok_defs user_check_def spot_check_def trans_check_def unique_on_def
      const_defs has_user_def has_spot_def claim_payout_slot_def cancellation_slot_def claim_check_def
      creation_fee_slot_def remainder_refund_slot_def)

end
