(* ===== verification/Binary64.thy ===== *)
theory Binary64
  imports Prelude "HOL-Library.Log_Nat"
begin

text \<open>
  Python's \<^verbatim>\<open>float\<close> on the values the code computes with: finite IEEE binary64
  numbers as rationals, with the result of an operation rounded to nearest,
  ties to even (\<open>fl\<close>). Overflow is left out: the modelled quantities are
  metres, degrees and scores. The rounding is monotone and keeps every number
  that is already representable, which is all the other theories use of it
  (locale \<open>rounding\<close>).
\<close>

section \<open>The exponent of a positive rational\<close>

definition ilog2 :: "rat \<Rightarrow> int" where
  "ilog2 x = (let (p, q) = quotient_of x; k = bitlen p - bitlen q
              in if 2 powi k \<le> x then k else k - 1)"

lemma pow_bitlen:
  assumes "0 < (p::int)"
  shows "2 powi (bitlen p - 1) \<le> rat_of_int p" and "rat_of_int p < 2 powi bitlen p"
proof -
  have b: "2 ^ nat (bitlen p - 1) \<le> p" "p < 2 ^ nat (bitlen p)"
    using bitlen_bounds [OF assms] by auto
  have nn: "0 < bitlen p"
    using b(2) assms by (cases "bitlen p \<le> 0") auto
  from nn have e: "2 powi (bitlen p - 1) = rat_of_int (2 ^ nat (bitlen p - 1))"
    "2 powi bitlen p = rat_of_int (2 ^ nat (bitlen p))"
    by (simp_all add: power_int_def)
  show "2 powi (bitlen p - 1) \<le> rat_of_int p" "rat_of_int p < 2 powi bitlen p"
    unfolding e using b by (simp_all only: of_int_le_iff of_int_less_iff)
qed

lemma ilog2_bounds:
  assumes "0 < x"
  shows "2 powi (ilog2 x) \<le> x" and "x < 2 powi (ilog2 x + 1)"
proof -
  obtain p q where pq: "quotient_of x = (p, q)" by (cases "quotient_of x")
  have q: "0 < q" using pq by (rule quotient_of_denom_pos)
  have x: "x = rat_of_int p / rat_of_int q" using pq by (rule quotient_of_div)
  have p: "0 < p" using assms x q by (auto simp: zero_less_divide_iff)
  let ?k = "bitlen p - bitlen q"
  have "x * rat_of_int q = rat_of_int p" using q by (simp add: x)
  have lo: "2 powi (?k - 1) \<le> x"
  proof -
    have "2 powi (?k - 1) * rat_of_int q \<le> 2 powi (?k - 1) * 2 powi bitlen q"
      using pow_bitlen(2) [OF q] by (intro mult_left_mono) auto
    also have "\<dots> = 2 powi (bitlen p - 1)"
      by (simp flip: power_int_add)
    also have "\<dots> \<le> rat_of_int p" by (rule pow_bitlen(1) [OF p])
    finally show ?thesis using q by (simp add: x pos_le_divide_eq)
  qed
  have hi: "x < 2 powi (?k + 1)"
  proof -
    have "rat_of_int p < 2 powi bitlen p" by (rule pow_bitlen(2) [OF p])
    also have "\<dots> = 2 powi (?k + 1) * 2 powi (bitlen q - 1)"
      by (simp flip: power_int_add)
    also have "\<dots> \<le> 2 powi (?k + 1) * rat_of_int q"
      using pow_bitlen(1) [OF q] by (intro mult_left_mono) auto
    finally show ?thesis using q by (simp add: x pos_divide_less_eq)
  qed
  show "2 powi (ilog2 x) \<le> x" "x < 2 powi (ilog2 x + 1)"
    using lo hi by (auto simp: ilog2_def pq Let_def not_le)
qed

lemma powi_less_imp: "(2::rat) powi a < 2 powi b \<Longrightarrow> a < b"
  by (metis not_le one_le_numeral power_int_increasing linorder_not_less)

lemma ilog2_mono:
  assumes "0 < x" and "x \<le> y"
  shows "ilog2 x \<le> ilog2 y"
proof -
  have "2 powi (ilog2 x) \<le> x" by (rule ilog2_bounds(1) [OF assms(1)])
  also have "x \<le> y" by (rule assms(2))
  also have "y < 2 powi (ilog2 y + 1)" using assms by (intro ilog2_bounds(2)) simp
  finally show ?thesis using powi_less_imp by fastforce
qed

section \<open>Rounding to nearest, ties to even\<close>

definition round_even :: "rat \<Rightarrow> int" where
  "round_even x = (let f = \<lfloor>x\<rfloor>; r = x - of_int f
     in if r < 1 / 2 then f else if 1 / 2 < r then f + 1 else if even f then f else f + 1)"

lemma round_even_of_int [simp]: "round_even (of_int n) = n"
  by (simp add: round_even_def)

lemma round_even_bounds: "\<lfloor>x\<rfloor> \<le> round_even x" "round_even x \<le> \<lfloor>x\<rfloor> + 1"
  by (simp_all add: round_even_def Let_def)

lemma round_even_mono:
  assumes "x \<le> y"
  shows "round_even x \<le> round_even y"
proof (cases "\<lfloor>x\<rfloor> = \<lfloor>y\<rfloor>")
  case True
  with assms show ?thesis by (simp add: round_even_def Let_def)
next
  case False
  with assms have "\<lfloor>x\<rfloor> + 1 \<le> \<lfloor>y\<rfloor>" using floor_mono [OF assms] by simp
  then show ?thesis using round_even_bounds(2) [of x] round_even_bounds(1) [of y] by linarith
qed

definition quantum :: "rat \<Rightarrow> int" where
  "quantum x = max (ilog2 x - 52) (- 1074)"

definition fl_pos :: "rat \<Rightarrow> rat" where
  "fl_pos x = of_int (round_even (x * 2 powi (- quantum x))) * 2 powi (quantum x)"

definition fl :: "rat \<Rightarrow> rat" where
  "fl x = (if x = 0 then 0 else if 0 < x then fl_pos x else - fl_pos (- x))"

lemma powi_split: "(2::rat) powi a = 2 powi (a - b) * 2 powi b"
  by (simp flip: power_int_add)

lemma powi_grid: "b \<le> e \<Longrightarrow> (2::rat) powi e = of_int (2 ^ nat (e - b)) * 2 powi b"
  using powi_split [of e b] by (simp add: power_int_def [of _ "e - b"])

lemma fl_pos_le_grid:
  assumes "x \<le> of_int n * 2 powi e" and "quantum x \<le> e"
  shows "fl_pos x \<le> of_int n * 2 powi e"
proof -
  let ?q = "quantum x"
  have g: "rat_of_int n * 2 powi e = of_int (n * 2 ^ nat (e - ?q)) * 2 powi ?q"
    using powi_grid [OF assms(2)] by simp
  have "x * 2 powi (- ?q) \<le> of_int (n * 2 ^ nat (e - ?q))"
    using assms(1) unfolding g by (simp add: power_int_minus field_simps)
  then have "round_even (x * 2 powi (- ?q)) \<le> n * 2 ^ nat (e - ?q)"
    using round_even_mono round_even_of_int by metis
  then have "of_int (round_even (x * 2 powi (- ?q))) * 2 powi ?q
      \<le> of_int (n * 2 ^ nat (e - ?q)) * (2 powi ?q :: rat)"
    by (intro mult_right_mono) (simp_all only: of_int_le_iff zero_le_power_int zero_le_numeral)
  then show ?thesis unfolding fl_pos_def g .
qed

lemma fl_pos_ge_grid:
  assumes "of_int n * 2 powi e \<le> x" and "quantum x \<le> e"
  shows "of_int n * 2 powi e \<le> fl_pos x"
proof -
  let ?q = "quantum x"
  have g: "rat_of_int n * 2 powi e = of_int (n * 2 ^ nat (e - ?q)) * 2 powi ?q"
    using powi_grid [OF assms(2)] by simp
  have "of_int (n * 2 ^ nat (e - ?q)) \<le> x * 2 powi (- ?q)"
    using assms(1) unfolding g by (simp add: power_int_minus field_simps)
  then have "n * 2 ^ nat (e - ?q) \<le> round_even (x * 2 powi (- ?q))"
    using round_even_mono round_even_of_int by metis
  then have "of_int (n * 2 ^ nat (e - ?q)) * (2 powi ?q :: rat)
      \<le> of_int (round_even (x * 2 powi (- ?q))) * 2 powi ?q"
    by (intro mult_right_mono) (simp_all only: of_int_le_iff zero_le_power_int zero_le_numeral)
  then show ?thesis unfolding fl_pos_def g .
qed

lemma fl_pos_exact:
  assumes "x = of_int n * 2 powi e" and "quantum x \<le> e"
  shows "fl_pos x = x"
  using fl_pos_le_grid [of x n e] fl_pos_ge_grid [of n e x] assms by simp

lemma quantum_mono: "0 < x \<Longrightarrow> x \<le> y \<Longrightarrow> quantum x \<le> quantum y"
  using ilog2_mono [of x y] by (auto simp: quantum_def)

lemma fl_pos_mono:
  assumes "0 < x" and "x \<le> y"
  shows "fl_pos x \<le> fl_pos y"
proof (cases "quantum x = quantum y")
  case True
  have "x * 2 powi (- quantum y) \<le> y * 2 powi (- quantum y)"
    using assms(2) by (intro mult_right_mono) auto
  then have "round_even (x * 2 powi (- quantum y)) \<le> round_even (y * 2 powi (- quantum y))"
    by (rule round_even_mono)
  then show ?thesis unfolding fl_pos_def True
    by (intro mult_right_mono) (simp_all only: of_int_le_iff zero_le_power_int zero_le_numeral)
next
  case False
  then have lt: "quantum x < quantum y" using quantum_mono [OF assms] by simp
  then have qy: "quantum y = ilog2 y - 52" by (auto simp: quantum_def)
  have "fl_pos x \<le> of_int 1 * 2 powi (ilog2 y)"
  proof (rule fl_pos_le_grid)
    from lt have "ilog2 x + 1 \<le> ilog2 y" by (auto simp: quantum_def)
    then have "2 powi (ilog2 x + 1) \<le> (2::rat) powi (ilog2 y)"
      by (intro power_int_increasing) auto
    then show "x \<le> of_int 1 * 2 powi ilog2 y" using ilog2_bounds(2) [OF assms(1)] by simp
    show "quantum x \<le> ilog2 y" using lt qy by linarith
  qed
  also have "\<dots> \<le> fl_pos y"
    using assms qy by (intro fl_pos_ge_grid) (simp_all add: ilog2_bounds(1))
  finally show ?thesis .
qed

lemma fl_pos_nonneg: "0 < x \<Longrightarrow> 0 \<le> fl_pos x"
  using round_even_mono [of 0 "x * 2 powi (- quantum x)"] round_even_of_int [of 0]
  by (simp add: fl_pos_def)

lemma fl_0 [simp]: "fl 0 = 0"
  by (simp add: fl_def)

theorem fl_mono:
  assumes "x \<le> y"
  shows "fl x \<le> fl y"
proof -
  consider "0 < x" | "x \<le> 0" "0 \<le> y" | "y < 0" using assms by linarith
  then show ?thesis
  proof cases
    case 1
    with assms show ?thesis by (auto simp: fl_def fl_pos_mono)
  next
    case 2
    have "fl x \<le> 0" using 2 fl_pos_nonneg [of "- x"] by (auto simp: fl_def)
    also have "0 \<le> fl y" using 2 fl_pos_nonneg [of y] by (auto simp: fl_def)
    finally show ?thesis .
  next
    case 3
    with assms show ?thesis using fl_pos_mono [of "- y" "- x"] by (auto simp: fl_def)
  qed
qed

section \<open>Representable numbers\<close>

definition is_float :: "rat \<Rightarrow> bool" where
  "is_float x \<longleftrightarrow> fl x = x"

lemma fl_pos_float:
  assumes "0 < x" and "x = of_int n * 2 powi e" and "n \<le> 2 ^ 53" and "- 1074 \<le> e"
  shows "fl_pos x = x"
proof (cases "n = 2 ^ 53")
  case True
  have "x = of_int (2 ^ 52) * 2 powi (e + 1)"
    using assms(2) True by (simp add: power_int_add)
  moreover have "quantum x \<le> e + 1"
  proof -
    have "2 powi (ilog2 x) \<le> (2::rat) powi (e + 53)"
      using ilog2_bounds(1) [OF assms(1)] assms(2) True by (simp add: power_int_add)
    then have "ilog2 x \<le> e + 53"
      by (metis linorder_not_less one_less_numeral_iff power_int_strict_increasing semiring_norm(76))
    then show ?thesis using assms(4) by (simp add: quantum_def)
  qed
  ultimately show ?thesis by (rule fl_pos_exact)
next
  case False
  with assms(3) have n: "n < 2 ^ 53" by simp
  have "2 powi (ilog2 x) \<le> x" by (rule ilog2_bounds(1) [OF assms(1)])
  also have "x < 2 powi (e + 53)"
  proof -
    have "rat_of_int n < of_int (2 ^ 53)" using n by (simp only: of_int_less_iff)
    then show ?thesis using assms(2) by (simp add: power_int_add)
  qed
  finally have "ilog2 x < e + 53" by (rule powi_less_imp)
  then have "quantum x \<le> e" using assms(4) by (simp add: quantum_def)
  with assms(2) show ?thesis by (rule fl_pos_exact)
qed

lemma fl_pos_shape:
  assumes "0 < x"
  shows "\<exists>n e. fl_pos x = of_int n * 2 powi e \<and> n \<le> 2 ^ 53 \<and> - 1074 \<le> e"
proof -
  let ?q = "quantum x"
  have "x * 2 powi (- ?q) \<le> of_int (2 ^ 53)"
  proof -
    have "x < 2 powi (ilog2 x + 1)" by (rule ilog2_bounds(2) [OF assms])
    also have "\<dots> \<le> 2 powi (?q + 53)"
      by (intro power_int_increasing) (auto simp: quantum_def)
    finally have "x * 2 powi (- ?q) \<le> 2 powi (?q + 53) * 2 powi (- ?q)"
      by (intro mult_right_mono) auto
    also have "\<dots> = 2 powi 53" by (simp flip: power_int_add)
    finally show ?thesis by (simp add: power_int_def)
  qed
  then have "round_even (x * 2 powi (- ?q)) \<le> 2 ^ 53"
    using round_even_mono round_even_of_int by metis
  moreover have "- 1074 \<le> ?q" by (simp add: quantum_def)
  ultimately show ?thesis unfolding fl_pos_def by blast
qed

theorem fl_idem [simp]: "fl (fl x) = fl x"
proof -
  have pos: "fl_pos (fl_pos y) = fl_pos y" if "0 < y" "0 < fl_pos y" for y
    using fl_pos_shape [OF that(1)] fl_pos_float [OF that(2)] by blast
  consider "x = 0" | "0 < x" | "x < 0" by linarith
  then show ?thesis
  proof cases
    case 2
    then show ?thesis using pos [of x] fl_pos_nonneg [of x] by (auto simp: fl_def)
  next
    case 3
    then show ?thesis using pos [of "- x"] fl_pos_nonneg [of "- x"] by (auto simp: fl_def)
  qed simp
qed

lemma fl_of_nat:
  assumes "0 \<le> n" and "n \<le> 2 ^ 53"
  shows "fl (of_int n) = of_int n"
  using fl_pos_float [of "of_int n" n 0] assms by (auto simp: fl_def)

section \<open>The interface\<close>

locale rounding =
  fixes rnd :: "rat \<Rightarrow> rat"
  assumes rnd_mono: "x \<le> y \<Longrightarrow> rnd x \<le> rnd y"
    and rnd_idem: "rnd (rnd x) = rnd x"
    and rnd_0: "rnd 0 = 0"
begin

lemma rnd_nonneg: "0 \<le> x \<Longrightarrow> 0 \<le> rnd x"
  using rnd_mono [of 0 x] by (simp add: rnd_0)

lemma sub_le: "rnd a = a \<Longrightarrow> 0 \<le> b \<Longrightarrow> rnd (a - b) \<le> a"
  using rnd_mono [of "a - b" a] by simp

lemma max0_sub_le: "rnd a = a \<Longrightarrow> 0 \<le> a \<Longrightarrow> 0 \<le> b \<Longrightarrow> max 0 (rnd (a - b)) \<le> a"
  using sub_le by simp

lemma max0_stable: "rnd (max 0 (rnd x)) = max 0 (rnd x)"
  by (simp add: max_def rnd_idem rnd_0)

end

interpretation binary64: rounding fl
  by unfold_locales (simp_all add: fl_mono)

end
