(* ===== verification/Validation.thy ===== *)
theory Validation
  imports Wallet Samples Binary64 "HOL-Library.While_Combinator"
begin

text \<open>
  The general helpers of \<^verbatim>\<open>db_access.py\<close>: limits and text, the validators that
  guard every Spot write, fees and minimum payouts, the geohash encoder and
  the location arithmetic of claims. A Python float is a rational that
  \<open>fl\<close> rounds to binary64 after each operation; infinities and NaN are outside
  the model, and Haversine distances are an argument of the code that uses
  them.
\<close>

unbundle bit_operations_syntax

named_theorems valid \<open>what a validator that returns has checked\<close>

section \<open>Limits and text\<close>

definition clamp_limit :: "int \<Rightarrow> int" where
  "clamp_limit limit = max 1 (min limit MAX_LIMIT)"

definition normalise_offset :: "int \<Rightarrow> int" where
  "normalise_offset offset = max 0 offset"

text \<open>\<^verbatim>\<open>LIMIT ? OFFSET ?\<close> over the rows in order.\<close>

definition page :: "int \<Rightarrow> int \<Rightarrow> 'r list \<Rightarrow> 'r list" where
  "page limit offset rows = take (nat (clamp_limit limit)) (drop (nat (normalise_offset offset)) rows)"

definition require_one :: "int \<Rightarrow> string \<Rightarrow> unit res" where
  "require_one rowcount message = guardE (rowcount = 1) (RuntimeError message)"

definition clean_optional_text :: "string option \<Rightarrow> string option" where
  "clean_optional_text value =
    (case value of None \<Rightarrow> None
     | Some v \<Rightarrow> (let s = py_strip v in if s = [] then None else Some s))"

definition normalise_claim_code :: "bool \<Rightarrow> string option \<Rightarrow> string option res" where
  "normalise_claim_code required value =
    (case clean_optional_text value of
       None \<Rightarrow> if required then Inl (ValueError ''A claim code is required for this spot.'') else Inr None
     | Some cleaned \<Rightarrow> let c = py_upper cleaned in
         if \<not> (list_all py_isascii c \<and> list_all py_isalnum c)
         then Inl (ValueError ''Claim codes contain uppercase letters and numbers only.'')
         else Inr (Some c))"

definition clean_optional_nimiq_address :: "bool \<Rightarrow> bool \<Rightarrow> string option \<Rightarrow> string option res" where
  "clean_optional_nimiq_address dev required value =
    (case clean_optional_text value of
       None \<Rightarrow> if required then Inl (ValueError ''payout_address is required'') else Inr None
     | Some cleaned \<Rightarrow>
         if int (length cleaned) > CLAIM_PAYOUT_ADDRESS_MAX_CHARS
         then Inl (ValueError ''payout_address is too long'')
         else bindE (normalise_nimiq_address dev cleaned) (\<lambda>a. Inr (Some a)))"

section \<open>Validators of Spot fields\<close>

definition validate_spot_title :: "string \<Rightarrow> string res" where
  "validate_spot_title title =
    (let t = py_strip title in
     if \<not> between SPOT_TITLE_MIN_CHARS SPOT_TITLE_MAX_CHARS (int (length t))
     then Inl (ValueError ''title must be between min and max characters'') else Inr t)"

definition validate_optional_coordinates ::
  "rat option \<Rightarrow> rat option \<Rightarrow> (rat option \<times> rat option) res" where
  "validate_optional_coordinates lat long =
    (case (lat, long) of
       (None, None) \<Rightarrow> Inr (None, None)
     | (Some la, Some lo) \<Rightarrow>
         if \<not> between (- 90) 90 la then Inl (ValueError ''lat must be between -90 and 90'')
         else if \<not> between (- 180) 180 lo then Inl (ValueError ''long must be between -180 and 180'')
         else Inr (Some la, Some lo)
     | _ \<Rightarrow> Inl (ValueError ''lat and long must be supplied together''))"

definition validate_int_range :: "string \<Rightarrow> int \<Rightarrow> int option \<Rightarrow> int \<Rightarrow> int res" where
  "validate_int_range field_name min_value max_value value =
    (if value < min_value then Inl (ValueError (field_name @ '' is too small''))
     else if (case max_value of None \<Rightarrow> False | Some m \<Rightarrow> value > m)
     then Inl (ValueError (field_name @ '' is too large''))
     else Inr value)"

definition validate_non_negative_int :: "string \<Rightarrow> int \<Rightarrow> int res" where
  "validate_non_negative_int field_name value = validate_int_range field_name 0 None value"

definition validate_spot_claim_duration :: "int \<Rightarrow> int res" where
  "validate_spot_claim_duration =
     validate_int_range ''claim_duration'' MIN_SPOT_CLAIM_DURATION_SECONDS (Some MAX_SPOT_CLAIM_DURATION_SECONDS)"

definition validate_spot_max_claims_per_user :: "int \<Rightarrow> int res" where
  "validate_spot_max_claims_per_user =
     validate_int_range ''max_claims_per_user'' MIN_SPOT_MAX_CLAIMS_PER_USER (Some MAX_SPOT_MAX_CLAIMS_PER_USER)"

definition validate_positive_optional_timestamp :: "string \<Rightarrow> int option \<Rightarrow> int option res" where
  "validate_positive_optional_timestamp field_name value =
    (case value of None \<Rightarrow> Inr None
     | Some v \<Rightarrow> if v \<le> 0 then Inl (ValueError (field_name @ '' must be a positive Unix timestamp''))
                 else Inr (Some v))"

definition validate_spot_ends_after_seconds :: "int option \<Rightarrow> int res" where
  "validate_spot_ends_after_seconds value =
     validate_int_range ''ends_at'' MIN_SPOT_ENDS_AFTER_SECONDS (Some MAX_SPOT_ENDS_AFTER_SECONDS)
       (case value of None \<Rightarrow> DEFAULT_DRAFT_SPOT_ENDS_AFTER_SECONDS | Some v \<Rightarrow> v)"

definition validate_spot_time_window :: "int option \<Rightarrow> int option \<Rightarrow> (int option \<times> int) res" where
  "validate_spot_time_window starts_at ends_at =
     bindE (validate_positive_optional_timestamp ''starts_at'' starts_at) (\<lambda>s.
     bindE (validate_spot_ends_after_seconds ends_at) (\<lambda>e. Inr (s, e)))"

definition validate_spot_radius :: "int \<Rightarrow> int res" where
  "validate_spot_radius radius =
    (if \<not> between MIN_SPOT_RADIUS_METRES MAX_SPOT_RADIUS_METRES radius
     then Inl (ValueError ''radius must be between min and max metres'') else Inr radius)"

definition validate_spot_max_total_claims :: "bool \<Rightarrow> int \<Rightarrow> int res" where
  "validate_spot_max_total_claims is_prizedraw value =
    bindE (validate_int_range ''max_total_claims'' MIN_PRIZEDRAW_MAX_TOTAL_CLAIMS
             (Some MAX_SPOT_MAX_TOTAL_CLAIMS) value) (\<lambda>m.
     if m = 0 \<and> \<not> is_prizedraw
     then Inl (ValueError ''max_total_claims can only be 0/unlimited for Prizedraw spots'')
     else if m < MIN_SPOT_MAX_TOTAL_CLAIMS \<and> \<not> is_prizedraw
     then Inl (ValueError ''max_total_claims is too small'')
     else if is_prizedraw \<and> 0 < m \<and> m < MIN_FINITE_PRIZEDRAW_TOTAL_PARTICIPANTS
     then Inl (ValueError ''finite Prizedraw max_total_claims is too small'')
     else Inr m)"

definition validate_prizedraw_prize_count :: "int \<Rightarrow> int res" where
  "validate_prizedraw_prize_count prize_count =
    bindE (validate_int_range ''prize_count'' MIN_PRIZEDRAW_PRIZE_COUNT
             (Some MAX_PRIZEDRAW_PRIZE_COUNT) prize_count) (\<lambda>n.
     if PRIZEDRAW_PRIZE_COUNT_OPTIONS \<noteq> [] \<and> n \<notin> set PRIZEDRAW_PRIZE_COUNT_OPTIONS
     then Inl (ValueError ''prize_count must be one of the allowed Prizedraw prize-count values'')
     else Inr n)"

definition validate_prizedraw_participant_limits :: "int \<Rightarrow> int \<Rightarrow> int \<Rightarrow> unit res" where
  "validate_prizedraw_participant_limits max_claims_per_user max_total_claims prize_count =
    (if max_total_claims = 0 then Inr ()
     else if max_total_claims < MIN_FINITE_PRIZEDRAW_TOTAL_PARTICIPANTS
     then Inl (ValueError ''finite Prizedraw max_total_claims is too small'')
     else if 0 < max_claims_per_user \<and> max_total_claims \<le> max_claims_per_user
     then Inl (ValueError ''max_claims_per_user must be less than max_total_claims for a finite Prizedraw'')
     else if max_total_claims \<le> prize_count
     then Inl (ValueError ''prize_count must be less than max_total_claims for a finite Prizedraw'')
     else Inr ())"

definition validate_bool_flag :: "string \<Rightarrow> int \<Rightarrow> int res" where
  "validate_bool_flag field_name value =
    (if value \<noteq> 0 \<and> value \<noteq> 1 then Inl (ValueError (field_name @ '' must be 0 or 1'')) else Inr value)"

section \<open>Fees and minimum payouts\<close>

definition minimum_payout_luna :: "bool \<Rightarrow> int" where
  "minimum_payout_luna is_prizedraw =
    (if is_prizedraw then MIN_PRIZEDRAW_PRIZE_PAYOUT else MIN_STANDARD_CLAIM_PAYOUT)"

definition configured_spot_creation_fee :: "bool \<Rightarrow> int" where
  "configured_spot_creation_fee is_prizedraw =
    (if is_prizedraw then max 0 PRIZEDRAW_SPOT_CREATION_FEE else max 0 STANDARD_SPOT_CREATION_FEE)"

definition spot_creation_fee_amount :: "spot_row \<Rightarrow> int" where
  "spot_creation_fee_amount spot = max 0 (sp_creation_fee spot)"

definition spot_required_deposit_amount :: "spot_row \<Rightarrow> int" where
  "spot_required_deposit_amount spot = max 0 (sp_total_value spot) + spot_creation_fee_amount spot"

section \<open>Geohash\<close>

definition GEOHASH_ALPHABET :: string where
  "GEOHASH_ALPHABET = ''0123456789bcdefghjkmnpqrstuvwxyz''"

text \<open>
  The state of the encoder's loop: both intervals, the position in the current
  character, its bits so far and which coordinate comes next.
\<close>

record geo_state =
  gs_lat_lo :: rat
  gs_lat_hi :: rat
  gs_lon_lo :: rat
  gs_lon_hi :: rat
  gs_even :: bool
  gs_bit :: nat
  gs_ch :: nat
  gs_out :: string

definition geo_start :: geo_state where
  "geo_start = \<lparr>gs_lat_lo = - 90, gs_lat_hi = 90, gs_lon_lo = - 180, gs_lon_hi = 180,
     gs_even = True, gs_bit = 0, gs_ch = 0, gs_out = []\<rparr>"

definition geo_step :: "rat \<Rightarrow> rat \<Rightarrow> geo_state \<Rightarrow> geo_state" where
  "geo_step lat lon g =
    (let weight = [16, 8, 4, 2, 1] ! gs_bit g;
         mid = (if gs_even g then fl (fl (gs_lon_lo g + gs_lon_hi g) / 2)
                else fl (fl (gs_lat_lo g + gs_lat_hi g) / 2));
         up = (if gs_even g then mid \<le> lon else mid \<le> lat);
         g1 = (if gs_even g
               then (if up then g\<lparr>gs_lon_lo := mid, gs_ch := gs_ch g OR weight\<rparr> else g\<lparr>gs_lon_hi := mid\<rparr>)
               else (if up then g\<lparr>gs_lat_lo := mid, gs_ch := gs_ch g OR weight\<rparr> else g\<lparr>gs_lat_hi := mid\<rparr>));
         g2 = g1\<lparr>gs_even := \<not> gs_even g\<rparr>
     in if gs_bit g < 4 then g2\<lparr>gs_bit := gs_bit g + 1\<rparr>
        else g2\<lparr>gs_out := gs_out g2 @ [GEOHASH_ALPHABET ! gs_ch g2], gs_bit := 0, gs_ch := 0\<rparr>)"

text \<open>The loop appends one character every five rounds, so its rounds are counted here.\<close>

fun geo_rounds :: "nat \<Rightarrow> rat \<Rightarrow> rat \<Rightarrow> geo_state \<Rightarrow> geo_state" where
  "geo_rounds 0 lat lon g = g"
| "geo_rounds (Suc n) lat lon g = geo_rounds n lat lon (geo_step lat lon g)"

definition encode_geohash :: "rat \<Rightarrow> rat \<Rightarrow> int \<Rightarrow> string res" where
  "encode_geohash lat lon precision =
    (if \<not> between (- 90) 90 lat then Inl (ValueError ''lat must be between -90 and 90'')
     else if \<not> between (- 180) 180 lon then Inl (ValueError ''long must be between -180 and 180'')
     else if precision \<le> 0 then Inl (ValueError ''precision must be positive'')
     else Inr (gs_out (geo_rounds (5 * nat precision) lat lon geo_start)))"

section \<open>Location arithmetic\<close>

definition location_accuracy_margin_metres :: "rat option \<Rightarrow> rat" where
  "location_accuracy_margin_metres reading_accuracy_metres =
    (case reading_accuracy_metres of None \<Rightarrow> 0
     | Some r \<Rightarrow> min (max 0 r) (max 0 CLAIM_LOCATION_MAX_ACCURACY_MARGIN_METRES))"

definition effective_distance_metres :: "rat \<Rightarrow> rat option \<Rightarrow> rat" where
  "effective_distance_metres distance_metres_value reading_accuracy_metres =
     max 0 (fl (distance_metres_value - location_accuracy_margin_metres reading_accuracy_metres))"

definition duration_claim_penalty :: "rat \<Rightarrow> int \<Rightarrow> rat" where
  "duration_claim_penalty effective_distance radius_metres =
    (let outside_by = max 0 (fl (effective_distance - of_int radius_metres)) in
     if outside_by \<le> 0 then 0
     else if outside_by \<le> max 0 CLAIM_LOCATION_SOFT_OUTSIDE_MARGIN_METRES
     then max 0 CLAIM_LOCATION_SOFT_PENALTY
     else max 0 CLAIM_LOCATION_HARD_PENALTY)"

section \<open>What the validators guarantee\<close>

lemma clamp_limit_bounds: "1 \<le> clamp_limit n" "clamp_limit n \<le> 500"
  by (auto simp: clamp_limit_def const_defs)

lemma clamp_limit_500 [simp]: "clamp_limit 500 = 500"
  by (simp add: clamp_limit_def const_defs)

lemma require_one_Inr [simp]: "require_one n m = Inr u \<longleftrightarrow> n = 1"
  by (simp add: require_one_def)

lemma require_one_1 [simp]: "require_one 1 m = Inr ()"
  by (simp add: require_one_def)

lemma validate_spot_title_Inr [valid]:
  "validate_spot_title t = Inr t' \<longleftrightarrow> t' = py_strip t \<and> between 3 27 (int (length t'))"
  by (auto simp: validate_spot_title_def const_defs Let_def)

lemma validate_optional_coordinates_Inr [valid]:
  "validate_optional_coordinates la lo = Inr (la', lo') \<longleftrightarrow>
   la' = la \<and> lo' = lo \<and> (la = None \<longleftrightarrow> lo = None)
   \<and> opt_all (between (- 90) 90) la \<and> opt_all (between (- 180) 180) lo"
  by (auto simp: validate_optional_coordinates_def split: option.splits)

lemma validate_int_range_Inr [valid]:
  "validate_int_range f lo hi v = Inr v' \<longleftrightarrow> v' = v \<and> lo \<le> v \<and> opt_all (\<lambda>m. v \<le> m) hi"
  by (auto simp: validate_int_range_def split: option.splits)

lemma validate_claim_duration_Inr [valid]:
  "validate_spot_claim_duration v = Inr v' \<longleftrightarrow> v' = v \<and> between 0 43200 v"
  by (auto simp: validate_spot_claim_duration_def valid const_defs)

lemma validate_max_claims_per_user_Inr [valid]:
  "validate_spot_max_claims_per_user v = Inr v' \<longleftrightarrow> v' = v \<and> between 0 10 v"
  by (auto simp: validate_spot_max_claims_per_user_def valid const_defs)

lemma validate_timestamp_Inr [valid]:
  "validate_positive_optional_timestamp f v = Inr v' \<longleftrightarrow> v' = v \<and> opt_all (\<lambda>t. 0 < t) v"
  by (auto simp: validate_positive_optional_timestamp_def split: option.splits)

lemma validate_ends_after_Inr [valid]:
  "validate_spot_ends_after_seconds v = Inr e \<Longrightarrow> between 3600 2419200 e \<and> (v \<noteq> None \<longrightarrow> v = Some e)"
  by (auto simp: validate_spot_ends_after_seconds_def valid const_defs split: option.splits)

lemma validate_window_Inr [valid]:
  "validate_spot_time_window s e = Inr (s', e') \<Longrightarrow>
   s' = s \<and> opt_all (\<lambda>t. 0 < t) s \<and> between 3600 2419200 e' \<and> (e \<noteq> None \<longrightarrow> e = Some e')"
  by (auto simp: validate_spot_time_window_def valid dest!: validate_ends_after_Inr)

lemma validate_radius_Inr [valid]:
  "validate_spot_radius r = Inr r' \<longleftrightarrow> r' = r \<and> between 25 1000 r"
  by (auto simp: validate_spot_radius_def const_defs)

lemma validate_max_total_Inr [valid]:
  "validate_spot_max_total_claims pd m = Inr m' \<longleftrightarrow>
   m' = m \<and> between 0 1000 m \<and> (\<not> pd \<longrightarrow> 1 \<le> m) \<and> (pd \<longrightarrow> m \<noteq> 1)"
  by (auto simp: validate_spot_max_total_claims_def validate_int_range_def const_defs)

lemma validate_prize_count_Inr [valid]:
  "validate_prizedraw_prize_count n = Inr n' \<Longrightarrow>
   n' = n \<and> between 1 100 n \<and> n \<in> set PRIZEDRAW_PRIZE_COUNT_OPTIONS"
  by (auto simp: validate_prizedraw_prize_count_def valid split: if_splits)
     (simp_all add: const_defs)

lemma validate_participant_limits_Inr [valid]:
  "validate_prizedraw_participant_limits u t p = Inr x \<longleftrightarrow>
   (t \<noteq> 0 \<longrightarrow> 2 \<le> t \<and> (0 < u \<longrightarrow> u < t) \<and> p < t)"
  by (auto simp: validate_prizedraw_participant_limits_def const_defs)

lemma validate_bool_flag_Inr [valid]:
  "validate_bool_flag f v = Inr v' \<longleftrightarrow> v' = v \<and> (v = 0 \<or> v = 1)"
  by (auto simp: validate_bool_flag_def)

lemma normalise_claim_code_Inr [valid]:
  "normalise_claim_code r v = Inr (Some c) \<Longrightarrow> c \<noteq> [] \<and> list_all py_isalnum c \<and> py_upper c = c"
  by (auto simp: normalise_claim_code_def clean_optional_text_def Let_def py_upper_def
      split: option.splits if_splits)

lemma required_deposit_nonneg: "0 \<le> spot_required_deposit_amount s"
  by (simp add: spot_required_deposit_amount_def spot_creation_fee_amount_def)

section \<open>The geohash encoder\<close>

lemma geo_rounds_add: "geo_rounds (m + n) lat lon g = geo_rounds n lat lon (geo_rounds m lat lon g)"
  by (induction m arbitrary: g) auto

lemma geo_rounds_Suc: "geo_rounds (Suc n) lat lon g = geo_step lat lon (geo_rounds n lat lon g)"
  using geo_rounds_add [of n 1 lat lon g] by simp

lemma or_lt_32: "a < 32 \<Longrightarrow> b < 32 \<Longrightarrow> a OR b < (32::nat)"
proof -
  assume "a < 32" "b < 32"
  then have "take_bit 5 (a OR b) = a OR b"
    by (simp add: take_bit_or take_bit_nat_eq_self)
  moreover have "take_bit 5 (a OR b) < 2 ^ 5" by (rule take_bit_nat_less_exp)
  ultimately show ?thesis by simp
qed

text \<open>
  The encoder's invariant after \<open>n\<close> rounds: the position in the character,
  the number of characters written, and the cell that holds the point.
\<close>

definition geo_inv :: "rat \<Rightarrow> rat \<Rightarrow> nat \<Rightarrow> geo_state \<Rightarrow> bool" where
  "geo_inv lat lon n g \<longleftrightarrow>
     gs_bit g = n mod 5 \<and> length (gs_out g) = n div 5 \<and> gs_ch g < 32
   \<and> set (gs_out g) \<subseteq> set GEOHASH_ALPHABET
   \<and> gs_lat_lo g \<le> lat \<and> lat \<le> gs_lat_hi g \<and> gs_lon_lo g \<le> lon \<and> lon \<le> gs_lon_hi g"

lemma geo_weight: "b < 5 \<Longrightarrow> [16, 8, 4, 2, 1] ! b < (32::nat)"
  by (auto simp: less_Suc_eq numeral_eq_Suc)

lemma geo_alphabet_nth: "c < 32 \<Longrightarrow> GEOHASH_ALPHABET ! c \<in> set GEOHASH_ALPHABET"
  by (rule nth_mem) (simp add: GEOHASH_ALPHABET_def)

lemma geo_step_inv:
  assumes "geo_inv lat lon n g"
  shows "geo_inv lat lon (Suc n) (geo_step lat lon g)"
proof -
  let ?w = "[16, 8, 4, 2, 1] ! gs_bit g :: nat"
  have b: "gs_bit g = n mod 5" and c: "gs_ch g < 32" and w: "?w < 32"
    using assms geo_weight [of "n mod 5"] by (auto simp: geo_inv_def)
  have ch: "gs_ch g OR ?w < 32" using c w by (rule or_lt_32)
  show ?thesis
  proof (cases "gs_bit g < 4")
    case True
    have "Suc n mod 5 = Suc (n mod 5)" "Suc n div 5 = n div 5"
      using True b by (auto simp: mod_Suc div_Suc)
    then show ?thesis
      using assms True ch by (auto simp: geo_inv_def geo_step_def Let_def)
  next
    case False
    have "n mod 5 = 4" using False b mod_less_divisor [of 5 n] by linarith
    then have "Suc n mod 5 = 0" "Suc n div 5 = Suc (n div 5)"
      by (auto simp: mod_Suc div_Suc)
    then show ?thesis
      using assms False ch c geo_alphabet_nth [OF ch] geo_alphabet_nth [OF c]
      by (auto simp: geo_inv_def geo_step_def Let_def)
  qed
qed

lemma geo_rounds_inv:
  assumes "between (- 90) 90 lat" and "between (- 180) 180 lon"
  shows "geo_inv lat lon n (geo_rounds n lat lon geo_start)"
proof (induction n)
  case 0
  then show ?case using assms by (simp add: geo_inv_def geo_start_def)
next
  case (Suc n)
  then show ?case using geo_step_inv by (simp only: geo_rounds_Suc)
qed

lemma geo_step_out: "gs_out (geo_step lat lon g) = gs_out g \<or>
    (\<exists>c. gs_out (geo_step lat lon g) = gs_out g @ [c])"
  by (auto simp: geo_step_def Let_def)

lemma geo_rounds_out: "\<exists>t. gs_out (geo_rounds n lat lon g) = gs_out g @ t"
proof (induction n)
  case (Suc n)
  then show ?case using geo_step_out [of lat lon "geo_rounds n lat lon g"]
    by (auto simp only: geo_rounds_Suc append_assoc)
qed simp

lemma geo_rounds_prefix:
  assumes "between (- 90) 90 lat" and "between (- 180) 180 lon" and "p \<le> q"
  shows "gs_out (geo_rounds (5 * p) lat lon geo_start)
    = take p (gs_out (geo_rounds (5 * q) lat lon geo_start))"
proof -
  let ?g = "geo_rounds (5 * p) lat lon geo_start"
  obtain t where "gs_out (geo_rounds (5 * q) lat lon geo_start) = gs_out ?g @ t"
    using geo_rounds_out [of "5 * (q - p)" lat lon ?g] geo_rounds_add [of "5 * p" "5 * (q - p)"] assms(3)
    by (metis distrib_left le_add_diff_inverse)
  moreover have "length (gs_out ?g) = p"
    using geo_rounds_inv [OF assms(1,2), of "5 * p"] by (simp add: geo_inv_def)
  ultimately show ?thesis by simp
qed

text \<open>The counted rounds are the code's loop, which stops after \<open>precision\<close> characters.\<close>

lemma geo_loop:
  assumes "between (- 90) 90 lat" and "between (- 180) 180 lon"
  shows "while_option (\<lambda>g. length (gs_out g) < p) (geo_step lat lon) geo_start
    = Some (geo_rounds (5 * p) lat lon geo_start)"
proof -
  have f: "geo_rounds k lat lon geo_start = (geo_step lat lon ^^ k) geo_start" for k
    by (induction k) (auto simp: geo_rounds_Suc simp del: geo_rounds.simps(2))
  have len: "length (gs_out ((geo_step lat lon ^^ k) geo_start)) = k div 5" for k
    using geo_rounds_inv [OF assms, of k] by (simp add: geo_inv_def f)
  have ex: "\<not> length (gs_out ((geo_step lat lon ^^ (5 * p)) geo_start)) < p"
    by (simp add: len)
  have least: "(LEAST k. \<not> length (gs_out ((geo_step lat lon ^^ k) geo_start)) < p) = 5 * p"
    by (rule Least_equality) (auto simp: len)
  show ?thesis
    unfolding while_option_def least f using ex by (auto simp: len intro: exI [of _ "5 * p"])
qed

end
