(* ===== verification/BaseProps.thy ===== *)
theory BaseProps
  imports Validation
begin

text \<open>
  What the address rules and the geohash encoder guarantee: the canonical form
  of an address is a fixed point of its normaliser, the checksum catches every
  single substitution inside a character class, and the encoder's text, read back
  without it, names the cell that contains the point.
\<close>

section \<open>Addresses\<close>

text \<open>
  C17: Outside local development a normalised address is valid, has 36 characters
  without its separators and spells the same account as the input (the same text
  once spaces, hyphens and case are removed). Normalising it again, or any other
  spelling of it, gives the same text; and two accepted inputs have equal
  normal forms exactly when they spell the same account, so comparing
  normalised addresses compares accounts.
\<close>

theorem normalise_address_canonical:
  assumes n: "normalise_nimiq_address False v = Inr a"
  shows "is_valid_nimiq_user_friendly_address a \<and> length (normalise_address_candidate a) = 36
    \<and> normalise_address_candidate a = normalise_address_candidate v
    \<and> normalise_nimiq_address False a = Inr a
    \<and> (\<forall>w. normalise_address_candidate w = normalise_address_candidate a \<longrightarrow> normalise_nimiq_address False w = Inr a)
    \<and> (\<forall>w b. normalise_nimiq_address False w = Inr b
         \<longrightarrow> (b = a \<longleftrightarrow> normalise_address_candidate w = normalise_address_candidate v))"
proof -
  have v: "is_valid_nimiq_user_friendly_address v" "a = format_user_friendly_address (normalise_address_candidate v)"
    using n by (auto simp: normalise_nimiq_address_def Let_def split: if_splits)
  have cand: "normalise_address_candidate a = normalise_address_candidate v" by (simp add: v(2))
  have valid: "is_valid_nimiq_user_friendly_address a"
    using v(1) valid_candidate [of a] valid_candidate [of v] cand by simp
  have len: "length (normalise_address_candidate a) = 36"
    using valid by (auto simp: is_valid_nimiq_user_friendly_address_def Let_def split: if_splits)
  have all: "normalise_nimiq_address False w = Inr a"
    if w: "normalise_address_candidate w = normalise_address_candidate a" for w
  proof -
    have "py_strip w \<noteq> []"
    proof
      assume "py_strip w = []"
      then have "normalise_address_candidate w = []" by (simp add: normalise_address_candidate_def py_upper_def)
      then show False using w len by simp
    qed
    moreover have "is_valid_nimiq_user_friendly_address w"
      using valid valid_candidate [of a] valid_candidate [of w] w by simp
    ultimately show ?thesis
      using w cand v by (simp add: normalise_nimiq_address_def Let_def)
  qed
  moreover have "b = a \<longleftrightarrow> normalise_address_candidate w = normalise_address_candidate v"
    if b: "normalise_nimiq_address False w = Inr b" for w b
  proof -
    have "b = format_user_friendly_address (normalise_address_candidate w)"
      using b by (auto simp: normalise_nimiq_address_def Let_def split: if_splits)
    then have "normalise_address_candidate b = normalise_address_candidate w" by simp
    then show ?thesis using b cand all by (metis Inr_inject)
  qed
  ultimately show ?thesis using valid len cand by blast
qed

lemma candidate_fixed:
  assumes "normalise_address_candidate a = a"
  shows "py_upper a = a" and "list_all (\<lambda>c. \<not> py_isspace c) a"
proof -
  have e: "py_upper (join_split a) = a" using assms by (simp add: normalise_candidate_alt)
  then have "length (join_split a) = length a" by (metis py_upper_length)
  then have f: "join_split a = a" unfolding join_split_def by (metis filter_True length_filter_less nat_less_le)
  show "py_upper a = a" using e f by simp
  show "list_all (\<lambda>c. \<not> py_isspace c) a" using f unfolding join_split_def by (metis filter_id_conv list_all_iff)
qed

lemma alnum_upper_fixed: "py_isdigit c \<or> py_isupper c \<Longrightarrow> upper_char c = c \<and> \<not> py_isspace c"
  by (auto simp: upper_char_def py_isdigit_def py_isupper_def py_islower_def py_isspace_def Let_def)

text \<open>Where the exchanged character ends up in the rearranged address.\<close>

lemma rearranged_split:
  "\<exists>u v. \<forall>c. drop 4 (s @ c # t) @ take 4 (s @ c # t) = u @ c # v"
proof (cases "length s < 4")
  case True
  then have "drop 4 (s @ c # t) @ take 4 (s @ c # t) = (drop (3 - length s) t @ s) @ c # take (3 - length s) t" for c
    by (simp add: drop_Cons' take_Cons')
  then show ?thesis by blast
next
  case False
  then have "drop 4 (s @ c # t) @ take 4 (s @ c # t) = drop 4 s @ c # (t @ take 4 s)" for c
    by simp
  then show ?thesis by blast
qed

text \<open>
  C40: The checksum detects every single-character error inside a class: in a
  valid address, replacing one digit by another digit or one letter by another
  letter gives text that is rejected.
\<close>

theorem address_substitution_rejected:
  assumes "is_valid_nimiq_user_friendly_address (s @ c # t)" and "normalise_address_candidate (s @ c # t) = s @ c # t"
    and "py_isdigit c \<and> py_isdigit c' \<or> py_isupper c \<and> py_isupper c'" and "c \<noteq> c'"
  shows "\<not> is_valid_nimiq_user_friendly_address (s @ c' # t) \<and> \<not> is_ok (normalise_nimiq_address False (s @ c' # t))"
proof -
  note fx = candidate_fixed [OF assms(2)]
  have c': "upper_char c' = c'" "\<not> py_isspace c'" using assms(3) alnum_upper_fixed by blast+
  have "join_split (s @ c' # t) = s @ c' # t" "py_upper (s @ c' # t) = s @ c' # t"
    using fx c' by (auto simp: join_split_def py_upper_def list_all_iff)
  then have cand: "normalise_address_candidate (s @ c' # t) = s @ c' # t" by (simp add: normalise_candidate_alt)
  obtain u v where uv: "\<And>c. drop 4 (s @ c # t) @ take 4 (s @ c # t) = u @ c # v"
    using rearranged_split by blast
  obtain x where x: "iban_parts (u @ c # v) = Some x" "mod97_decimal_string x = 1"
    using assms(1,2)
    by (auto simp: is_valid_nimiq_user_friendly_address_def iban_rearranged_numeric_def uv Let_def
        simp del: drop_append take_append split: if_splits option.splits sum.splits)
  have cls: "py_isdigit c = py_isdigit c'"
    using assms(3) by (auto simp: py_isdigit_def py_isupper_def)
  have no: "\<not> is_valid_nimiq_user_friendly_address (s @ c' # t)"
  proof
    assume "is_valid_nimiq_user_friendly_address (s @ c' # t)"
    then obtain y where y: "iban_parts (u @ c' # v) = Some y" "mod97_decimal_string y = 1"
      using cand
      by (auto simp: is_valid_nimiq_user_friendly_address_def iban_rearranged_numeric_def uv Let_def
          simp del: drop_append take_append split: if_splits option.splits sum.splits)
    show False using substitution_changes_mod97 [OF x(1) y(1) cls assms(4)] x(2) y(2) by simp
  qed
  have "\<not> is_valid_nimiq_user_friendly_address (normalise_address_candidate (s @ c' # t))" using no by simp
  then show ?thesis using no by (auto simp: normalise_nimiq_address_def Let_def split: if_splits)
qed

theorem normalise_address_canonical_witness:
  "normalise_nimiq_address False ''NQ07 0000 0000 0000 0000 0000 0000 0000 0000''
     = Inr ''NQ07 0000 0000 0000 0000 0000 0000 0000 0000''"
proof -
  have "normalise_nimiq_address False '' nq0700000000000000000000000000000000''
      = Inr ''NQ07 0000 0000 0000 0000 0000 0000 0000 0000''" by code_simp
  then show ?thesis using normalise_address_canonical by blast
qed

theorem address_substitution_rejected_witness:
  "\<not> is_ok (normalise_nimiq_address False ''NQ07000000000000000000000000000000008'')
   \<and> \<not> is_valid_nimiq_user_friendly_address (''NQ0'' @ CHR ''8'' # ''00000000000000000000000000000000'')"
proof -
  have "is_valid_nimiq_user_friendly_address (''NQ0'' @ CHR ''7'' # ''00000000000000000000000000000000'')"
    "normalise_address_candidate (''NQ0'' @ CHR ''7'' # ''00000000000000000000000000000000'')
       = ''NQ0'' @ CHR ''7'' # ''00000000000000000000000000000000''" by code_simp+
  moreover have "py_isdigit (CHR ''7'') \<and> py_isdigit (CHR ''8'')" by code_simp
  ultimately have "\<not> is_valid_nimiq_user_friendly_address (''NQ0'' @ CHR ''8'' # ''00000000000000000000000000000000'')"
    using address_substitution_rejected [of "''NQ0''" "CHR ''7''" "''00000000000000000000000000000000''" "CHR ''8''"] by simp
  moreover have "\<not> is_ok (normalise_nimiq_address False ''NQ07000000000000000000000000000000008'')" by code_simp
  ultimately show ?thesis by blast
qed

section \<open>Geohash\<close>

text \<open>
  A geohash read back without the encoder: every character stands for the five
  binary digits of its position in the alphabet, and the digits halve the
  longitude and the latitude interval in turn, a 1 keeping the upper half.
\<close>

definition geohash_digits :: "char \<Rightarrow> bool list" where
  "geohash_digits c =
     (let v = length (takeWhile (\<lambda>x. x \<noteq> c) GEOHASH_ALPHABET)
      in map (\<lambda>k. odd (v div 2 ^ k)) [4, 3, 2, 1, 0])"

definition half_interval :: "bool \<Rightarrow> rat \<times> rat \<Rightarrow> rat \<times> rat" where
  "half_interval b i =
     (let mid = fl (fl (fst i + snd i) / 2) in if b then (mid, snd i) else (fst i, mid))"

fun halve_in_turn :: "bool list \<Rightarrow> rat \<times> rat \<Rightarrow> rat \<times> rat \<Rightarrow> (rat \<times> rat) \<times> (rat \<times> rat)" where
  "halve_in_turn [] lon lat = (lon, lat)"
| "halve_in_turn [a] lon lat = (half_interval a lon, lat)"
| "halve_in_turn (a # b # ds) lon lat = halve_in_turn ds (half_interval a lon) (half_interval b lat)"

definition geohash_cell :: "string \<Rightarrow> (rat \<times> rat) \<times> (rat \<times> rat)" where
  "geohash_cell s = halve_in_turn (concat (map geohash_digits s)) (- 180, 180) (- 90, 90)"

text \<open>The digits of the character under construction, and the cell they have cut out so far.\<close>

definition digits_value :: "bool list \<Rightarrow> nat" where
  "digits_value ds = fold (\<lambda>(b, w) v. if b then v OR w else v) (zip ds [16, 8, 4, 2, 1]) 0"

lemma digits_value_snoc:
  assumes "length ds < 5"
  shows "digits_value (ds @ [b]) = (if b then digits_value ds OR ([16, 8, 4, 2, 1] ! length ds) else digits_value ds)"
proof -
  have "zip (ds @ [b]) [16, 8, 4, 2, 1::nat] = zip ds [16, 8, 4, 2, 1] @ [(b, [16, 8, 4, 2, 1] ! length ds)]"
    using assms by (auto simp: zip_append1 less_Suc_eq numeral_eq_Suc length_Suc_conv)
  then show ?thesis by (simp add: digits_value_def)
qed

lemma geohash_digits_alphabet:
  assumes "length ds = 5"
  shows "geohash_digits (GEOHASH_ALPHABET ! digits_value ds) = ds"
proof -
  have "list_all (\<lambda>ds. geohash_digits (GEOHASH_ALPHABET ! digits_value ds) = ds) (List.n_lists 5 [True, False])"
    by code_simp
  then show ?thesis using assms by (auto simp: list_all_iff set_n_lists)
qed

lemma halve_in_turn_snoc:
  "halve_in_turn (ds @ [b]) lon lat =
     (let (x, y) = halve_in_turn ds lon lat
      in if even (length ds) then (half_interval b x, y) else (x, half_interval b y))"
  by (induction ds lon lat rule: halve_in_turn.induct) auto

definition geo_digits_inv :: "nat \<Rightarrow> geo_state \<Rightarrow> bool list \<Rightarrow> bool" where
  "geo_digits_inv n g ds \<longleftrightarrow>
     length ds = n mod 5 \<and> gs_bit g = n mod 5 \<and> length (gs_out g) = n div 5
   \<and> gs_ch g = digits_value ds \<and> (gs_even g \<longleftrightarrow> even n)
   \<and> length (concat (map geohash_digits (gs_out g)) @ ds) = n
   \<and> halve_in_turn (concat (map geohash_digits (gs_out g)) @ ds) (- 180, 180) (- 90, 90)
       = ((gs_lon_lo g, gs_lon_hi g), (gs_lat_lo g, gs_lat_hi g))"

lemma geo_step_digits:
  assumes "geo_digits_inv n g ds"
  shows "\<exists>ds. geo_digits_inv (Suc n) (geo_step lat lon g) ds"
proof -
  define b where "b = (if gs_even g then fl (fl (gs_lon_lo g + gs_lon_hi g) / 2) \<le> lon
                       else fl (fl (gs_lat_lo g + gs_lat_hi g) / 2) \<le> lat)"
  have l: "length ds < 5" using assms by (simp add: geo_digits_inv_def)
  note v = digits_value_snoc [OF l, of b]
  have cell: "halve_in_turn (concat (map geohash_digits (gs_out g)) @ ds @ [b]) (- 180, 180) (- 90, 90)
      = ((gs_lon_lo (geo_step lat lon g), gs_lon_hi (geo_step lat lon g)),
         (gs_lat_lo (geo_step lat lon g), gs_lat_hi (geo_step lat lon g)))"
    using assms halve_in_turn_snoc [of "concat (map geohash_digits (gs_out g)) @ ds" b]
    by (auto simp: geo_digits_inv_def geo_step_def Let_def b_def half_interval_def)
  have ev: "gs_even (geo_step lat lon g) \<longleftrightarrow> even (Suc n)"
    using assms by (auto simp: geo_digits_inv_def geo_step_def Let_def)
  show ?thesis
  proof (cases "n mod 5 < 4")
    case True
    then have "Suc n mod 5 = Suc (n mod 5)" "Suc n div 5 = n div 5" by (auto simp: mod_Suc div_Suc)
    then have "geo_digits_inv (Suc n) (geo_step lat lon g) (ds @ [b])"
      using assms True cell ev v by (auto simp: geo_digits_inv_def geo_step_def Let_def b_def)
    then show ?thesis ..
  next
    case False
    then have n4: "n mod 5 = 4" using mod_less_divisor [of 5 n] by linarith
    then have m: "Suc n mod 5 = 0" "Suc n div 5 = Suc (n div 5)" by (auto simp: mod_Suc div_Suc)
    have out: "gs_out (geo_step lat lon g) = gs_out g @ [GEOHASH_ALPHABET ! digits_value (ds @ [b])]"
      "gs_bit (geo_step lat lon g) = 0" "gs_ch (geo_step lat lon g) = 0"
      using assms n4 v by (auto simp: geo_digits_inv_def geo_step_def Let_def b_def)
    have "length (ds @ [b]) = 5" using assms n4 by (simp add: geo_digits_inv_def)
    from geohash_digits_alphabet [OF this]
    have "geo_digits_inv (Suc n) (geo_step lat lon g) []"
      using assms m out cell ev by (auto simp: geo_digits_inv_def digits_value_def)
    then show ?thesis ..
  qed
qed

lemma geo_rounds_digits: "\<exists>ds. geo_digits_inv n (geo_rounds n lat lon geo_start) ds"
proof (induction n)
  case 0
  have "geo_digits_inv 0 geo_start []" by (simp add: geo_digits_inv_def geo_start_def digits_value_def)
  then show ?case by auto
next
  case (Suc n)
  then show ?case using geo_step_digits by (auto simp only: geo_rounds_Suc)
qed

text \<open>A boundary belongs to the cell above it.\<close>

lemma geo_rounds_half_open:
  "(lat < gs_lat_hi (geo_rounds n lat lon geo_start) \<or> gs_lat_hi (geo_rounds n lat lon geo_start) = 90)
   \<and> (lon < gs_lon_hi (geo_rounds n lat lon geo_start) \<or> gs_lon_hi (geo_rounds n lat lon geo_start) = 180)"
proof (induction n)
  case 0
  then show ?case by (simp add: geo_start_def)
next
  case (Suc n)
  then show ?case by (auto simp: geo_rounds_Suc geo_step_def Let_def simp del: geo_rounds.simps(2))
qed

text \<open>
  C16: The encoder's loop terminates for every point and precision; its text has
  exactly the requested number of characters of the geohash alphabet, and a
  coarser geohash is a prefix of a finer one. The text names the cell: reading
  it back by the alphabet alone (\<open>geohash_cell\<close>) gives the two intervals
  the loop ends with, and they contain the point, a point on an inner boundary
  going to the cell above it.
\<close>

theorem encode_geohash_cell:
  assumes s: "encode_geohash lat lon p = Inr s"
  shows "\<exists>g. while_option (\<lambda>g. length (gs_out g) < nat p) (geo_step lat lon) geo_start = Some g
      \<and> gs_out g = s \<and> gs_lat_lo g \<le> lat \<and> lat \<le> gs_lat_hi g \<and> gs_lon_lo g \<le> lon \<and> lon \<le> gs_lon_hi g
      \<and> (lat < gs_lat_hi g \<or> gs_lat_hi g = 90) \<and> (lon < gs_lon_hi g \<or> gs_lon_hi g = 180)
      \<and> geohash_cell s = ((gs_lon_lo g, gs_lon_hi g), (gs_lat_lo g, gs_lat_hi g))
      \<and> length s = nat p \<and> set s \<subseteq> set GEOHASH_ALPHABET
      \<and> (\<forall>q. 0 < q \<and> q \<le> p \<longrightarrow> encode_geohash lat lon q = Inr (take (nat q) s))"
proof -
  have r: "between (- 90) 90 lat" "between (- 180) 180 lon" "0 < p"
    "s = gs_out (geo_rounds (5 * nat p) lat lon geo_start)"
    using s by (auto simp: encode_geohash_def split: if_splits)
  have pre: "encode_geohash lat lon q = Inr (take (nat q) s)" if "0 < q" "q \<le> p" for q
    using geo_rounds_prefix [OF r(1,2), of "nat q" "nat p"] that r by (simp add: encode_geohash_def)
  let ?g = "geo_rounds (5 * nat p) lat lon geo_start"
  have cell: "geohash_cell s = ((gs_lon_lo ?g, gs_lon_hi ?g), (gs_lat_lo ?g, gs_lat_hi ?g))"
    using geo_rounds_digits [of "5 * nat p" lat lon] r(4)
    by (auto simp: geo_digits_inv_def geohash_cell_def)
  show ?thesis
    using geo_loop [OF r(1,2), of "nat p"] geo_rounds_inv [OF r(1,2), of "5 * nat p"] r(4) cell pre
      geo_rounds_half_open [of lat "5 * nat p" lon]
    by (auto simp: geo_inv_def)
qed

theorem encode_geohash_cell_witness:
  "encode_geohash (57 / 2) (- 13 / 2) 3 = Inr ''ev5'' \<and> encode_geohash (57 / 2) (- 13 / 2) 2 = Inr ''ev''"
proof -
  have e: "encode_geohash (57 / 2) (- 13 / 2) 3 = Inr ''ev5''" by code_simp
  have "\<forall>q. 0 < q \<and> q \<le> 3 \<longrightarrow> encode_geohash (57 / 2) (- 13 / 2) q = Inr (take (nat q) ''ev5'')"
    using encode_geohash_cell [OF e] by blast
  then show ?thesis using e by (auto dest: spec [of _ 2])
qed

end
