(* ===== verification/Users.thy ===== *)
theory Users
  imports Validation
begin

text \<open>
  The USER functions of \<^verbatim>\<open>db_access.py\<close>. A function that only reads maps the
  database to its answer; one that writes returns the new database, or the
  exception that rolls the surrounding transaction back.
\<close>

section \<open>Reads\<close>

definition get_user :: "string \<Rightarrow> db \<Rightarrow> user_row option" where
  "get_user device_id_hash d =
     find (\<lambda>r. us_device_id_hash r = py_strip device_id_hash) (db_users d)"

definition get_user_by_id :: "int \<Rightarrow> db \<Rightarrow> user_row option" where
  [reads]: "get_user_by_id user_id d = find_row us_id user_id (db_users d)"

definition get_users_by_status :: "int \<Rightarrow> int \<Rightarrow> int \<Rightarrow> db \<Rightarrow> user_row list" where
  "get_users_by_status status limit offset d =
     page limit offset (sort_key us_id (filter (\<lambda>r. us_status r = status) (db_users d)))"

definition get_inactive_users :: "int \<Rightarrow> int \<Rightarrow> int \<Rightarrow> db \<Rightarrow> user_row list" where
  "get_inactive_users last_seen_before limit offset d =
     page limit offset (sort_key us_last_seen_at (sort_key us_id
       (filter (\<lambda>r. us_last_seen_at r < last_seen_before) (db_users d))))"

definition count_users :: "db \<Rightarrow> int" where
  "count_users d = count_where (\<lambda>_. True) (db_users d)"

definition count_users_by_status :: "int \<Rightarrow> db \<Rightarrow> int" where
  "count_users_by_status status d = count_where (\<lambda>r. us_status r = status) (db_users d)"

definition can_user_create_spot :: "int \<Rightarrow> db \<Rightarrow> bool" where
  "can_user_create_spot user_id d =
    (case get_user_by_id user_id d of None \<Rightarrow> False | Some u \<Rightarrow> us_status u = USER_STATUS_ACTIVE)"

definition can_user_claim :: "int \<Rightarrow> db \<Rightarrow> bool" where
  "can_user_claim user_id d =
    (case get_user_by_id user_id d of None \<Rightarrow> False
     | Some u \<Rightarrow> us_status u = USER_STATUS_ACTIVE \<or> us_status u = USER_STATUS_LIMITED)"

section \<open>Writes\<close>

definition create_user :: "string \<Rightarrow> db \<Rightarrow> (int \<times> db) res" where
  "create_user device_id_hash d =
    (let h = py_strip device_id_hash in
     if h = [] then Inl (ValueError ''device_id_hash must be non-empty'')
     else insert_user h (Some (''user'' @ py_upper (take 8 h))) USER_STATUS_ACTIVE d)"

definition get_or_create_user :: "string \<Rightarrow> db \<Rightarrow> ((int \<times> bool) \<times> db) res" where
  "get_or_create_user device_id_hash d =
    (case get_user device_id_hash d of
       Some existing \<Rightarrow> Inr ((us_id existing, False), d)
     | None \<Rightarrow> bindE (create_user device_id_hash d) (\<lambda>(i, d'). Inr ((i, True), d')))"

text \<open>An \<^verbatim>\<open>UPDATE user ... WHERE id = ?\<close> with its \<^verbatim>\<open>CHECK\<close>s and the row count test.\<close>

definition update_user :: "string \<Rightarrow> int \<Rightarrow> (user_row \<Rightarrow> user_row) \<Rightarrow> db \<Rightarrow> db res" where
  "update_user message user_id f d =
    (let P = (\<lambda>r. us_id r = user_id); rows = update_where P f (db_users d) in
     if \<not> list_all user_check rows then Inl (IntegrityError ''CHECK constraint failed: user'')
     else bindE (require_one (count_where P (db_users d)) message)
            (\<lambda>_. Inr (d\<lparr>db_users := rows\<rparr>)))"

definition modify_user_display_name :: "int \<Rightarrow> string \<Rightarrow> db \<Rightarrow> db res" where
  "modify_user_display_name user_id display_name d =
    (let name = py_strip display_name in
     if name = [] then Inl (ValueError ''display_name must be non-empty'')
     else update_user ''Failed to update user display name'' user_id
            (\<lambda>r. r\<lparr>us_display_name := Some name\<rparr>) d)"

definition modify_user_status :: "int \<Rightarrow> int \<Rightarrow> db \<Rightarrow> db res" where
  "modify_user_status user_id status d =
     update_user ''Failed to update user status'' user_id (\<lambda>r. r\<lparr>us_status := status\<rparr>) d"

definition set_user_status_to_active :: "int \<Rightarrow> db \<Rightarrow> db res" where
  "set_user_status_to_active user_id = modify_user_status user_id USER_STATUS_ACTIVE"

definition set_user_status_to_limited :: "int \<Rightarrow> db \<Rightarrow> db res" where
  "set_user_status_to_limited user_id = modify_user_status user_id USER_STATUS_LIMITED"

definition set_user_status_to_banned :: "int \<Rightarrow> db \<Rightarrow> db res" where
  "set_user_status_to_banned user_id = modify_user_status user_id USER_STATUS_BANNED"

definition touch_user_last_seen :: "int \<Rightarrow> db \<Rightarrow> db res" where
  "touch_user_last_seen user_id d =
     update_user ''Failed to update user last_seen'' user_id (\<lambda>r. r\<lparr>us_last_seen_at := db_now d\<rparr>) d"

section \<open>Facts\<close>

lemma py_strip_strip_lookup: "get_user (py_strip h) d = get_user h d"
  by (simp add: get_user_def)

lemma create_user_Inr:
  assumes "create_user h d = Inr (i, d')"
  shows "get_user h d' = Some \<lparr>us_id = i, us_device_id_hash = py_strip h,
           us_display_name = Some (''user'' @ py_upper (take 8 (py_strip h))),
           us_status = USER_STATUS_ACTIVE, us_created_at = db_now d, us_last_seen_at = db_now d\<rparr>"
    and "i \<notin> us_id ` set (db_users d)" and "db_users d' \<noteq> []"
proof -
  have none: "find (\<lambda>r. us_device_id_hash r = py_strip h) (db_users d) = None"
    using assms by (auto simp: create_user_def insert_user_def Let_def find_None_iff image_iff
        split: if_splits)
  have app: "find P xs = None \<Longrightarrow> find P (xs @ ys) = find P ys" for P and xs ys :: "user_row list"
    by (induction xs) auto
  show "get_user h d' = Some \<lparr>us_id = i, us_device_id_hash = py_strip h,
           us_display_name = Some (''user'' @ py_upper (take 8 (py_strip h))),
           us_status = USER_STATUS_ACTIVE, us_created_at = db_now d, us_last_seen_at = db_now d\<rparr>"
    using assms app [OF none]
    by (auto simp: create_user_def insert_user_def get_user_def Let_def split: if_splits)
  show "i \<notin> us_id ` set (db_users d)" "db_users d' \<noteq> []"
    using assms next_id_fresh [of "db_user_seq d" "map us_id (db_users d)"]
    by (auto simp: create_user_def insert_user_def Let_def split: if_splits)
qed

lemma get_or_create_user_stable:
  assumes "get_or_create_user h d = Inr ((i, b), d')"
  shows "get_or_create_user h d' = Inr ((i, False), d')"
proof (cases "get_user h d")
  case None
  with assms have "create_user h d = Inr (i, d')" by (auto simp: get_or_create_user_def)
  then show ?thesis using create_user_Inr(1) [of h d i d'] by (simp add: get_or_create_user_def)
qed (use assms in \<open>auto simp: get_or_create_user_def\<close>)

lemma update_user_keys:
  assumes "update_user m u f d = Inr d'" and "\<And>r. us_id (f r) = us_id r"
  shows "map us_id (db_users d') = map us_id (db_users d)"
  using assms by (auto simp: update_user_def Let_def map_update_where split: if_splits)

end
