(* ===== verification/SpotReads.thy ===== *)
theory SpotReads
  imports Users
begin

text \<open>
  What the code reads of a Spot: its row, the public and owner views of
  \<^verbatim>\<open>database.py\<close>, its deposit and creation-fee totals, its minimum payout, and
  the questions the writers ask (publishable, public, claimable, full).
\<close>

section \<open>Rows and the two views\<close>

definition get_spot :: "int \<Rightarrow> db \<Rightarrow> spot_row option" where
  [reads]: "get_spot spot_id d = find_row sp_id spot_id (db_spots d)"

definition get_spot_by_link :: "string \<Rightarrow> db \<Rightarrow> spot_row option" where
  "get_spot_by_link link d = find (\<lambda>r. sp_link r = link) (db_spots d)"

definition get_prizedraw :: "int \<Rightarrow> db \<Rightarrow> prizedraw_row option" where
  [reads]: "get_prizedraw spot_id d = find_row pd_spot_id spot_id (db_prizedraws d)"

definition is_prizedraw :: "int \<Rightarrow> db \<Rightarrow> bool" where
  [reads]: "is_prizedraw spot_id d \<longleftrightarrow> get_prizedraw spot_id d \<noteq> None"

record spot_view =
  sv_spot :: spot_row
  sv_prize_count :: "int option"
  sv_claim_count :: int
  sv_pending_claim_count :: int
  sv_success_claim_count :: int
  sv_failed_claim_count :: int
  sv_claim_code_count :: int
  sv_unused_code_count :: int
  sv_used_code_count :: int

record public_view = spot_view +
  pv_availability_rank :: int
  pv_soon_sort :: int

record owner_view = spot_view +
  ov_creator_display_name :: "string option"
  ov_report_count :: int
  ov_pending_report_count :: int
  ov_approved_report_count :: int
  ov_dismissed_report_count :: int
  ov_trans_count :: int
  ov_trans_total_amount :: int

definition claim_total :: "(int \<Rightarrow> bool) \<Rightarrow> int \<Rightarrow> db \<Rightarrow> int" where
  "claim_total P s d = count_where (\<lambda>c. cl_spot_id c = s \<and> P (cl_status c)) (db_claims d)"

definition code_total :: "(int option \<Rightarrow> bool) \<Rightarrow> int \<Rightarrow> db \<Rightarrow> int" where
  "code_total P s d = count_where (\<lambda>c. cc_spot_id c = s \<and> P (cc_used_by c)) (db_codes d)"

definition report_total :: "(int \<Rightarrow> bool) \<Rightarrow> int \<Rightarrow> db \<Rightarrow> int" where
  "report_total P s d = count_where (\<lambda>r. rp_spot_id r = s \<and> P (rp_status r)) (db_reports d)"

definition spot_cancellation_legs :: "int \<Rightarrow> db \<Rightarrow> bool" where
  "spot_cancellation_legs s d \<longleftrightarrow> list_ex (\<lambda>t. tr_spot_id t = Some s
     \<and> (tr_type t = TRANS_TYPE_CANCEL_SPOT \<or> tr_type t = TRANS_TYPE_PLAT_FEE)) (db_trans d)"

definition view_public_spot :: "db \<Rightarrow> spot_row \<Rightarrow> public_view" where
  "view_public_spot d s =
    (let started = (case sp_starts_at s of None \<Rightarrow> True | Some t \<Rightarrow> t \<le> db_now d) in
     \<lparr>sv_spot = s,
      sv_prize_count = map_option pd_prize_count (get_prizedraw (sp_id s) d),
      sv_claim_count = claim_total (\<lambda>_. True) (sp_id s) d,
      sv_pending_claim_count = claim_total (\<lambda>st. st = CLAIM_STATUS_PENDING) (sp_id s) d,
      sv_success_claim_count = claim_total (\<lambda>st. st = CLAIM_STATUS_SUCCESS) (sp_id s) d,
      sv_failed_claim_count = claim_total (\<lambda>st. st = CLAIM_STATUS_FAILED) (sp_id s) d,
      sv_claim_code_count = code_total (\<lambda>_. True) (sp_id s) d,
      sv_unused_code_count = code_total (\<lambda>u. u = None) (sp_id s) d,
      sv_used_code_count = code_total (\<lambda>u. u \<noteq> None) (sp_id s) d,
      pv_availability_rank = (if started then 0 else 1),
      pv_soon_sort = (case sp_starts_at s of None \<Rightarrow> 9223372036854775807
                      | Some t \<Rightarrow> if started then t + sp_ends_at s else t)\<rparr>)"

definition publicly_listed :: "db \<Rightarrow> spot_row \<Rightarrow> bool" where
  "publicly_listed d s \<longleftrightarrow>
     sp_status s = SPOT_STATUS_PUBLISHED
   \<and> sp_cancellation_started_at s = None \<and> \<not> spot_cancellation_legs (sp_id s) d
   \<and> sp_lat s \<noteq> None \<and> sp_long s \<noteq> None
   \<and> opt_all (\<lambda>t. db_now d < t + sp_ends_at s) (sp_starts_at s)"

definition view_public_spot_list :: "db \<Rightarrow> public_view list" where
  "view_public_spot_list d = map (view_public_spot d) (filter (publicly_listed d) (db_spots d))"

definition view_owner_spot :: "db \<Rightarrow> user_row \<Rightarrow> spot_row \<Rightarrow> owner_view" where
  "view_owner_spot d creator s =
     \<lparr>sv_spot = s,
      sv_prize_count = map_option pd_prize_count (get_prizedraw (sp_id s) d),
      sv_claim_count = claim_total (\<lambda>_. True) (sp_id s) d,
      sv_pending_claim_count = claim_total (\<lambda>st. st = CLAIM_STATUS_PENDING) (sp_id s) d,
      sv_success_claim_count = claim_total (\<lambda>st. st = CLAIM_STATUS_SUCCESS) (sp_id s) d,
      sv_failed_claim_count = claim_total (\<lambda>st. st = CLAIM_STATUS_FAILED) (sp_id s) d,
      sv_claim_code_count = code_total (\<lambda>_. True) (sp_id s) d,
      sv_unused_code_count = code_total (\<lambda>u. u = None) (sp_id s) d,
      sv_used_code_count = code_total (\<lambda>u. u \<noteq> None) (sp_id s) d,
      ov_creator_display_name = us_display_name creator,
      ov_report_count = report_total (\<lambda>_. True) (sp_id s) d,
      ov_pending_report_count = report_total (\<lambda>st. st = REPORT_STATUS_PENDING) (sp_id s) d,
      ov_approved_report_count = report_total (\<lambda>st. st = REPORT_STATUS_APPROVED) (sp_id s) d,
      ov_dismissed_report_count = report_total (\<lambda>st. st = REPORT_STATUS_DISMISSED) (sp_id s) d,
      ov_trans_count = count_where (\<lambda>t. tr_spot_id t = Some (sp_id s)) (db_trans d),
      ov_trans_total_amount = sum_where tr_amount (\<lambda>t. tr_spot_id t = Some (sp_id s)) (db_trans d)\<rparr>"

definition view_spot_owner_summary :: "db \<Rightarrow> owner_view list" where
  "view_spot_owner_summary d = concat (map (\<lambda>s.
     case get_user_by_id (sp_created_by s) d of None \<Rightarrow> []
     | Some creator \<Rightarrow> [view_owner_spot d creator s]) (db_spots d))"

section \<open>Queries over the views\<close>

definition get_public_spot :: "int \<Rightarrow> db \<Rightarrow> public_view option" where
  "get_public_spot spot_id d = find (\<lambda>v. sp_id (sv_spot v) = spot_id) (view_public_spot_list d)"

definition get_spot_owner_summary :: "int \<Rightarrow> db \<Rightarrow> owner_view option" where
  "get_spot_owner_summary spot_id d =
     find (\<lambda>v. sp_id (sv_spot v) = spot_id) (view_spot_owner_summary d)"

definition get_spots_by_user :: "int \<Rightarrow> int \<Rightarrow> int \<Rightarrow> db \<Rightarrow> owner_view list" where
  "get_spots_by_user user_id limit offset d = page limit offset
     (sort_key (\<lambda>v. - sp_created_at (sv_spot v)) (sort_key (\<lambda>v. - sp_id (sv_spot v))
       (filter (\<lambda>v. sp_created_by (sv_spot v) = user_id) (view_spot_owner_summary d))))"

definition count_draft_spots_by_user :: "int \<Rightarrow> db \<Rightarrow> int" where
  "count_draft_spots_by_user user_id d =
     count_where (\<lambda>s. sp_created_by s = user_id \<and> sp_status s = SPOT_STATUS_DRAFT) (db_spots d)"

definition by_soon :: "public_view list \<Rightarrow> public_view list" where
  "by_soon vs = sort_key pv_soon_sort (sort_key (\<lambda>v. sp_id (sv_spot v)) vs)"

definition get_published_spots_that_have_started :: "int \<Rightarrow> int \<Rightarrow> db \<Rightarrow> public_view list" where
  "get_published_spots_that_have_started limit offset d = page limit offset
     (by_soon (filter (\<lambda>v. pv_availability_rank v = 0) (view_public_spot_list d)))"

definition get_published_spots_that_have_not_started :: "int \<Rightarrow> int \<Rightarrow> db \<Rightarrow> public_view list" where
  "get_published_spots_that_have_not_started limit offset d = page limit offset
     (by_soon (filter (\<lambda>v. pv_availability_rank v = 1) (view_public_spot_list d)))"

definition rank_filter :: "bool \<Rightarrow> bool \<Rightarrow> public_view \<Rightarrow> bool" where
  "rank_filter current_only upcoming_only v \<longleftrightarrow>
     (if current_only then pv_availability_rank v = 0
      else if upcoming_only then pv_availability_rank v = 1 else True)"

definition by_rank :: "public_view list \<Rightarrow> public_view list" where
  "by_rank vs = sort_key pv_availability_rank (by_soon vs)"

text \<open>SQLite's \<^verbatim>\<open>LIKE\<close>: \<^verbatim>\<open>%\<close> any run, \<^verbatim>\<open>_\<close> one character, letters in either case.\<close>

fun sql_like :: "string \<Rightarrow> string \<Rightarrow> bool" where
  "sql_like [] s = (s = [])"
| "sql_like (p # ps) [] = (p = CHR ''%'' \<and> sql_like ps [])"
| "sql_like (p # ps) (c # cs) =
    (if p = CHR ''%'' then sql_like ps (c # cs) \<or> sql_like (p # ps) cs
     else (p = CHR ''_'' \<or> lower_char p = lower_char c) \<and> sql_like ps cs)"

definition get_public_spots_by_geohash ::
  "string \<Rightarrow> bool \<Rightarrow> bool \<Rightarrow> int \<Rightarrow> int \<Rightarrow> db \<Rightarrow> public_view list res" where
  "get_public_spots_by_geohash geohash_prefix current_only upcoming_only limit offset d =
    (if current_only \<and> upcoming_only
     then Inl (ValueError ''current_only and upcoming_only cannot both be True'')
     else Inr (page limit offset (by_rank (filter (\<lambda>v.
            (case sp_geohash (sv_spot v) of None \<Rightarrow> False
             | Some g \<Rightarrow> sql_like (py_strip geohash_prefix @ ''%'') g)
            \<and> rank_filter current_only upcoming_only v) (view_public_spot_list d)))))"

definition get_public_spots_by_geohash_prefixes ::
  "string list \<Rightarrow> int \<Rightarrow> int \<Rightarrow> db \<Rightarrow> public_view list" where
  "get_public_spots_by_geohash_prefixes geohash_prefixes limit offset d =
    (let prefixes = filter (\<lambda>p. p \<noteq> []) (map py_strip geohash_prefixes) in
     if prefixes = [] then []
     else page limit offset (by_rank (filter (\<lambda>v.
            (case sp_geohash (sv_spot v) of None \<Rightarrow> False
             | Some g \<Rightarrow> list_ex (\<lambda>p. sql_like (p @ ''%'') g) prefixes)) (view_public_spot_list d))))"

definition label_filter :: "string option \<Rightarrow> string option \<Rightarrow> public_view \<Rightarrow> bool" where
  "label_filter city country v \<longleftrightarrow>
     (city = None \<or> sp_city (sv_spot v) = city) \<and> (country = None \<or> sp_country (sv_spot v) = country)"

definition get_public_spots_by_city_country ::
  "string option \<Rightarrow> string option \<Rightarrow> bool \<Rightarrow> bool \<Rightarrow> int \<Rightarrow> int \<Rightarrow> db \<Rightarrow> public_view list res" where
  "get_public_spots_by_city_country city country current_only upcoming_only limit offset d =
    (if current_only \<and> upcoming_only
     then Inl (ValueError ''current_only and upcoming_only cannot both be True'')
     else Inr (page limit offset (by_rank (filter (\<lambda>v.
            label_filter city country v \<and> rank_filter current_only upcoming_only v)
              (view_public_spot_list d)))))"

definition get_public_spots_in_bounds ::
  "rat \<Rightarrow> rat \<Rightarrow> rat \<Rightarrow> rat \<Rightarrow> bool \<Rightarrow> bool \<Rightarrow> int \<Rightarrow> int \<Rightarrow> db \<Rightarrow> public_view list res" where
  "get_public_spots_in_bounds min_lat max_lat min_long max_long current_only upcoming_only limit offset d =
    (if current_only \<and> upcoming_only
     then Inl (ValueError ''current_only and upcoming_only cannot both be True'')
     else Inr (page limit offset (by_rank (filter (\<lambda>v.
            (case sp_lat (sv_spot v) of None \<Rightarrow> False | Some la \<Rightarrow> between min_lat max_lat la)
            \<and> (case sp_long (sv_spot v) of None \<Rightarrow> False | Some lo \<Rightarrow> between min_long max_long lo)
            \<and> rank_filter current_only upcoming_only v) (view_public_spot_list d)))))"

definition count_spots :: "db \<Rightarrow> int" where
  "count_spots d = count_where (\<lambda>_. True) (db_spots d)"

definition count_spots_by_status :: "int \<Rightarrow> db \<Rightarrow> int" where
  "count_spots_by_status status d = count_where (\<lambda>s. sp_status s = status) (db_spots d)"

definition count_public_spots_by_city_country :: "string option \<Rightarrow> string option \<Rightarrow> db \<Rightarrow> int" where
  "count_public_spots_by_city_country city country d =
     count_where (label_filter city country) (view_public_spot_list d)"

text \<open>The four counts: all, pending, successful, failed.\<close>

definition get_spot_claim_counts :: "int \<Rightarrow> db \<Rightarrow> int \<times> int \<times> int \<times> int" where
  "get_spot_claim_counts spot_id d =
    (case get_spot_owner_summary spot_id d of None \<Rightarrow> (0, 0, 0, 0)
     | Some v \<Rightarrow> (sv_claim_count v, sv_pending_claim_count v, sv_success_claim_count v,
                  sv_failed_claim_count v))"

definition is_spot_currently_public :: "int \<Rightarrow> db \<Rightarrow> bool" where
  "is_spot_currently_public spot_id d \<longleftrightarrow> get_public_spot spot_id d \<noteq> None"

definition is_spot_owned_by_user :: "int \<Rightarrow> int \<Rightarrow> db \<Rightarrow> bool" where
  "is_spot_owned_by_user spot_id user_id d \<longleftrightarrow>
    (case get_spot spot_id d of None \<Rightarrow> False | Some s \<Rightarrow> sp_created_by s = user_id)"

section \<open>Deposit and creation-fee totals\<close>

definition of_type :: "int \<Rightarrow> int \<Rightarrow> trans_row \<Rightarrow> bool" where
  "of_type s ty t \<longleftrightarrow> tr_spot_id t = Some s \<and> tr_type t = ty"

definition get_confirmed_spot_deposit_total :: "int \<Rightarrow> db \<Rightarrow> int" where
  "get_confirmed_spot_deposit_total spot_id d = sum_where tr_amount
     (\<lambda>t. of_type spot_id TRANS_TYPE_FILL_SPOT t \<and> tr_status t = TRANS_STATUS_CONFIRMED) (db_trans d)"

text \<open>SQLite's \<^verbatim>\<open>TRIM\<close> strips spaces only; Python's \<open>strip\<close> all whitespace.\<close>

definition sql_blank :: "string \<Rightarrow> bool" where
  "sql_blank s \<longleftrightarrow> list_all (\<lambda>c. c = CHR '' '') s"

definition get_confirmed_spot_funding_address :: "int \<Rightarrow> db \<Rightarrow> string option" where
  "get_confirmed_spot_funding_address spot_id d =
    (case sort_key tr_created_at (sort_key tr_id (filter (\<lambda>t. of_type spot_id TRANS_TYPE_FILL_SPOT t
            \<and> tr_status t = TRANS_STATUS_CONFIRMED \<and> \<not> sql_blank (tr_from_address t)) (db_trans d))) of
       [] \<Rightarrow> None | t # _ \<Rightarrow> Some (py_strip (tr_from_address t)))"

definition count_spot_deposit_transactions :: "int \<Rightarrow> db \<Rightarrow> int" where
  "count_spot_deposit_transactions spot_id d =
     count_where (of_type spot_id TRANS_TYPE_FILL_SPOT) (db_trans d)"

definition has_spot_deposit_transactions :: "int \<Rightarrow> db \<Rightarrow> bool" where
  "has_spot_deposit_transactions spot_id d \<longleftrightarrow> 0 < count_spot_deposit_transactions spot_id d"

definition count_spot_nonfailed_deposit_transactions :: "int \<Rightarrow> db \<Rightarrow> int" where
  "count_spot_nonfailed_deposit_transactions spot_id d = count_where
     (\<lambda>t. of_type spot_id TRANS_TYPE_FILL_SPOT t
        \<and> (tr_status t = TRANS_STATUS_PENDING \<or> tr_status t = TRANS_STATUS_CONFIRMED)) (db_trans d)"

definition has_spot_nonfailed_deposit_transactions :: "int \<Rightarrow> db \<Rightarrow> bool" where
  "has_spot_nonfailed_deposit_transactions spot_id d \<longleftrightarrow>
     0 < count_spot_nonfailed_deposit_transactions spot_id d"

record status_totals =
  st_confirmed_amount :: int
  st_pending_amount :: int
  st_failed_amount :: int
  st_submitted_count :: int

definition totals_of :: "(trans_row \<Rightarrow> bool) \<Rightarrow> db \<Rightarrow> status_totals" where
  "totals_of P d =
    (let amount = (\<lambda>st. sum_where tr_amount (\<lambda>t. P t \<and> tr_status t = st) (db_trans d))
     in \<lparr>st_confirmed_amount = amount TRANS_STATUS_CONFIRMED,
         st_pending_amount = amount TRANS_STATUS_PENDING,
         st_failed_amount = amount TRANS_STATUS_FAILED,
         st_submitted_count = count_where P (db_trans d)\<rparr>)"

definition get_spot_deposit_totals :: "int \<Rightarrow> db \<Rightarrow> status_totals" where
  "get_spot_deposit_totals spot_id d = totals_of (of_type spot_id TRANS_TYPE_FILL_SPOT) d"

definition get_spot_creation_fee_totals :: "int \<Rightarrow> db \<Rightarrow> status_totals" where
  "get_spot_creation_fee_totals spot_id d = totals_of (of_type spot_id TRANS_TYPE_CREATION_FEE) d"

definition has_nonfailed_spot_creation_fee_transaction :: "int \<Rightarrow> db \<Rightarrow> bool" where
  "has_nonfailed_spot_creation_fee_transaction spot_id d \<longleftrightarrow>
     list_ex (\<lambda>t. of_type spot_id TRANS_TYPE_CREATION_FEE t \<and> tr_status t \<noteq> TRANS_STATUS_FAILED) (db_trans d)"

text \<open>\<^verbatim>\<open>UPPER(REPLACE(address, ' ', ''))\<close>\<close>

definition sql_address_key :: "string \<Rightarrow> string" where
  "sql_address_key s = py_upper (filter (\<lambda>c. c \<noteq> CHR '' '') s)"

definition has_confirmed_spot_creation_fee_transaction :: "int \<Rightarrow> db \<Rightarrow> bool" where
  "has_confirmed_spot_creation_fee_transaction spot_id d =
    (case get_spot spot_id d of None \<Rightarrow> False
     | Some s \<Rightarrow> let fee_amount = spot_creation_fee_amount s in
         if fee_amount \<le> 0 then True
         else list_ex (\<lambda>t. of_type spot_id TRANS_TYPE_CREATION_FEE t
                \<and> tr_status t = TRANS_STATUS_CONFIRMED
                \<and> tr_user_id t = sp_created_by s \<and> tr_amount t = fee_amount
                \<and> sql_address_key (tr_from_address t) = sql_address_key (sp_deposit_address s)
                \<and> sql_address_key (tr_to_address t) = sql_address_key (sp_creation_fee_address s))
              (db_trans d))"

definition get_spot_ids_ready_for_creation_fee :: "int \<Rightarrow> db \<Rightarrow> int list" where
  "get_spot_ids_ready_for_creation_fee limit d =
     take (nat (clamp_limit limit)) (map sp_id (sort_key sp_updated_at (sort_key sp_id (filter (\<lambda>s.
       (sp_status s = SPOT_STATUS_DRAFT \<or> sp_status s = SPOT_STATUS_PUBLISHED
        \<or> sp_status s = SPOT_STATUS_COMPLETED)
       \<and> sp_cancellation_started_at s = None
       \<and> 0 < sp_creation_fee s
       \<and> sp_total_value s + sp_creation_fee s \<le> get_confirmed_spot_deposit_total (sp_id s) d
       \<and> \<not> has_nonfailed_spot_creation_fee_transaction (sp_id s) d) (db_spots d)))))"

section \<open>Minimum payout\<close>

record payout_summary =
  ps_ok :: bool
  ps_code :: "string option"
  ps_is_prizedraw :: bool
  ps_kind :: string
  ps_divisor :: int
  ps_total_value :: int
  ps_payout :: rat
  ps_minimum :: int
  ps_required_total :: int

definition spot_minimum_payout_summary :: "int \<Rightarrow> db \<Rightarrow> payout_summary res" where
  "spot_minimum_payout_summary spot_id d =
    (case get_spot spot_id d of None \<Rightarrow> Inl (ValueError ''spot does not exist'')
     | Some s \<Rightarrow>
        let pd = is_prizedraw spot_id d; total_value = sp_total_value s;
            divisor = (if pd then (case get_prizedraw spot_id d of None \<Rightarrow> 0 | Some r \<Rightarrow> pd_prize_count r)
                       else sp_max_total_claims s);
            kind = (if pd then ''prize'' else ''claim'');
            code = (if pd then ''minimum_prize_payout_too_low'' else ''minimum_claim_payout_too_low'');
            minimum = minimum_payout_luna pd;
            required_total = minimum * max 1 divisor;
            payout = (if 0 < divisor then fl (of_int total_value / of_int (max 1 divisor)) else 0);
            ok = (0 < divisor \<and> required_total \<le> total_value)
        in Inr \<lparr>ps_ok = ok, ps_code = (if ok then None else Some code), ps_is_prizedraw = pd,
                ps_kind = kind, ps_divisor = divisor, ps_total_value = total_value,
                ps_payout = payout, ps_minimum = minimum, ps_required_total = required_total\<rparr>)"

definition spot_meets_minimum_payout :: "int \<Rightarrow> db \<Rightarrow> bool res" where
  "spot_meets_minimum_payout spot_id d =
     bindE (spot_minimum_payout_summary spot_id d) (\<lambda>s. Inr (ps_ok s))"

definition require_spot_minimum_payout :: "int \<Rightarrow> db \<Rightarrow> unit res" where
  "require_spot_minimum_payout spot_id d =
     bindE (spot_minimum_payout_summary spot_id d) (\<lambda>s.
       guardE (ps_ok s) (ValueError (''Minimum payout not met per '' @ ps_kind s)))"

section \<open>Publishable, full, claimable\<close>

definition can_publish_spot :: "int \<Rightarrow> db \<Rightarrow> bool" where
  "can_publish_spot spot_id d =
    (case get_spot spot_id d of None \<Rightarrow> False
     | Some s \<Rightarrow>
       if sp_status s \<noteq> SPOT_STATUS_DRAFT then False
       else if sp_cancellation_started_at s \<noteq> None then False
       else if \<not> can_user_create_spot (sp_created_by s) d then False
       else if sp_lat s = None \<or> sp_long s = None then False
       else if sp_total_value s \<le> 0 then False
       else let max_total_claims = sp_max_total_claims s; pd = get_prizedraw spot_id d in
       if max_total_claims < MIN_SPOT_MAX_TOTAL_CLAIMS \<and> pd = None then False
       else if (case pd of None \<Rightarrow> False
                | Some r \<Rightarrow> \<not> is_ok (validate_prizedraw_participant_limits (sp_max_claims_per_user s)
                                      max_total_claims (pd_prize_count r))) then False
       else if spot_meets_minimum_payout spot_id d \<noteq> Inr True then False
       else if sp_ends_at s < MIN_SPOT_ENDS_AFTER_SECONDS then False
       else if (case sp_starts_at s of None \<Rightarrow> False | Some t \<Rightarrow> t + sp_ends_at s \<le> db_now d) then False
       else if sp_use_password s = 1 \<and> (max_total_claims \<le> 0 \<or> pd \<noteq> None) then False
       else spot_required_deposit_amount s \<le> get_confirmed_spot_deposit_total spot_id d)"

definition spot_summary_has_public_claim_capacity :: "'a spot_view_scheme \<Rightarrow> bool" where
  "spot_summary_has_public_claim_capacity v =
    (let max_total = sp_max_total_claims (sv_spot v);
         counted_claims = sv_success_claim_count v
           + (if sv_prize_count v \<noteq> None then sv_pending_claim_count v else 0)
     in if 0 < max_total \<and> max_total \<le> counted_claims then False
        else if 0 < sv_claim_code_count v \<and> sv_unused_code_count v \<le> 0 then False
        else True)"

definition is_spot_claim_capacity_available :: "int \<Rightarrow> db \<Rightarrow> bool" where
  "is_spot_claim_capacity_available spot_id d =
    (case get_spot_owner_summary spot_id d of None \<Rightarrow> False
     | Some v \<Rightarrow> spot_summary_has_public_claim_capacity v)"

definition is_spot_currently_claimable :: "int \<Rightarrow> db \<Rightarrow> bool" where
  "is_spot_currently_claimable spot_id d =
    (if \<not> is_spot_currently_public spot_id d then False
     else case get_public_spot spot_id d of None \<Rightarrow> False
       | Some v \<Rightarrow> if pv_availability_rank v \<noteq> 0 then False
                   else is_spot_claim_capacity_available spot_id d)"

section \<open>Facts\<close>

lemma get_spot_SomeD [dest]: "get_spot s d = Some r \<Longrightarrow> r \<in> set (db_spots d) \<and> sp_id r = s"
  by (auto simp: get_spot_def dest: find_row_SomeD)

lemma get_spot_check: "spots_ok d \<Longrightarrow> get_spot s d = Some r \<Longrightarrow> spot_check r"
  by (auto simp: spots_ok_def list_all_iff)

lemma find_map_filter_key:
  assumes "distinct (map key rows)" and "\<And>r. key' (g r) = key r"
  shows "find (\<lambda>v. key' v = k) (map g (filter P rows)) =
    (case find_row key k rows of None \<Rightarrow> None | Some r \<Rightarrow> if P r then Some (g r) else None)"
  using assms(1)
proof (induction rows)
  case (Cons r rows)
  have "find_row key k rows = None" if "key r = k"
    using Cons.prems that by (auto simp: find_row_None_iff)
  then show ?case using Cons assms(2) by auto
qed simp

lemma get_public_spot_eq:
  assumes "spots_ok d"
  shows "get_public_spot s d = (case get_spot s d of None \<Rightarrow> None
    | Some r \<Rightarrow> if publicly_listed d r then Some (view_public_spot d r) else None)"
  unfolding get_public_spot_def view_public_spot_list_def get_spot_def
  by (rule find_map_filter_key) (use assms in \<open>auto simp: spots_ok_def view_public_spot_def Let_def\<close>)

lemma find_owner_summary:
  assumes "list_all (\<lambda>s. has_user d (sp_created_by s)) rows"
  shows "find (\<lambda>v. sp_id (sv_spot v) = k) (concat (map (\<lambda>s.
       case get_user_by_id (sp_created_by s) d of None \<Rightarrow> []
       | Some creator \<Rightarrow> [view_owner_spot d creator s]) rows))
     = map_option (\<lambda>s. view_owner_spot d (the (get_user_by_id (sp_created_by s) d)) s) (find_row sp_id k rows)"
  using assms
proof (induction rows)
  case (Cons r rows)
  then obtain u where u: "get_user_by_id (sp_created_by r) d = Some u"
    by (auto simp: has_user_def get_user_by_id_def)
  have sel: "sv_spot (view_owner_spot d u r) = r" by (simp add: view_owner_spot_def)
  show ?case using Cons by (simp add: u sel)
qed simp

lemma get_spot_owner_summary_eq:
  assumes "spots_ok d"
  shows "get_spot_owner_summary k d =
    map_option (\<lambda>s. view_owner_spot d (the (get_user_by_id (sp_created_by s) d)) s) (get_spot k d)"
  unfolding get_spot_owner_summary_def view_spot_owner_summary_def get_spot_def
  by (rule find_owner_summary) (use assms in \<open>simp add: spots_ok_def\<close>)

lemma of_type_sel: "of_type s ty t \<Longrightarrow> tr_spot_id t = Some s \<and> tr_type t = ty"
  by (simp add: of_type_def)

lemma totals_split:
  assumes "list_all trans_check (db_trans d)"
  shows "st_confirmed_amount (totals_of P d) + st_pending_amount (totals_of P d)
      + st_failed_amount (totals_of P d) = sum_where tr_amount P (db_trans d)"
proof -
  have "sum_where tr_amount (\<lambda>t. P t \<and> tr_status t = 1) ts + sum_where tr_amount (\<lambda>t. P t \<and> tr_status t = 0) ts
      + sum_where tr_amount (\<lambda>t. P t \<and> tr_status t = 2) ts = sum_where tr_amount P ts"
    if "list_all trans_check ts" for ts
    using that by (induction ts) (auto simp: trans_check_def)
  then show ?thesis using assms by (simp add: totals_of_def Let_def)
qed

text \<open>What \<open>can_publish_spot\<close> has established when it answers yes.\<close>

lemma can_publish_spotD:
  assumes "can_publish_spot k d"
  obtains s where "get_spot k d = Some s" "sp_status s = SPOT_STATUS_DRAFT"
    "sp_cancellation_started_at s = None" "can_user_create_spot (sp_created_by s) d"
    "sp_lat s \<noteq> None" "sp_long s \<noteq> None" "spot_meets_minimum_payout k d = Inr True"
    "spot_required_deposit_amount s \<le> get_confirmed_spot_deposit_total k d"
    "is_prizedraw k d \<or> 1 \<le> sp_max_total_claims s"
    "sp_use_password s = 1 \<longrightarrow> 0 < sp_max_total_claims s \<and> \<not> is_prizedraw k d"
  using assms
  by (auto simp: can_publish_spot_def is_prizedraw_def Let_def const_defs split: option.splits if_splits)

end
