(* ===== verification/ClaimReads.thy ===== *)
theory ClaimReads
  imports SpotReads
begin

text \<open>
  What the code reads of claims: the detail view, the counts that decide
  capacity and per-user limits, payout lookups, the winner set of a Prizedraw,
  the distance check and the rule check that every claim passes. The Haversine
  distance \<open>distance_metres\<close> is trigonometry of the standard library; the
  definitions that use it take it as the argument \<open>metres\<close>.
\<close>

section \<open>Detail rows\<close>

record claim_detail =
  cd_claim :: claim_row
  cd_spot_owner_id :: int
  cd_spot_title :: string
  cd_recipient_display_name :: "string option"
  cd_claim_code_id :: "int option"
  cd_claim_code :: "string option"

definition view_claim_detail :: "db \<Rightarrow> claim_row \<Rightarrow> claim_detail option" where
  "view_claim_detail d c =
    (case (get_spot (cl_spot_id c) d, get_user_by_id (cl_recipient c) d) of
       (Some s, Some u) \<Rightarrow>
         let code = find (\<lambda>k. cc_used_by k = Some (cl_id c)) (db_codes d) in
         Some \<lparr>cd_claim = c, cd_spot_owner_id = sp_created_by s, cd_spot_title = sp_title s,
               cd_recipient_display_name = us_display_name u,
               cd_claim_code_id = map_option cc_id code, cd_claim_code = map_option cc_code code\<rparr>
     | _ \<Rightarrow> None)"

definition get_claim :: "int \<Rightarrow> db \<Rightarrow> claim_detail option" where
  "get_claim claim_id d =
    (case find_row cl_id claim_id (db_claims d) of None \<Rightarrow> None | Some c \<Rightarrow> view_claim_detail d c)"

definition claim_details :: "db \<Rightarrow> claim_row list \<Rightarrow> claim_detail list" where
  "claim_details d cs = concat (map (\<lambda>c. case view_claim_detail d c of None \<Rightarrow> [] | Some v \<Rightarrow> [v]) cs)"

definition get_claims :: "int \<Rightarrow> bool \<Rightarrow> int \<Rightarrow> int \<Rightarrow> db \<Rightarrow> claim_detail list" where
  "get_claims spot_id include_failed limit offset d = page limit offset (claim_details d
     (sort_key (\<lambda>c. - cl_claimed_at c) (sort_key (\<lambda>c. - cl_id c) (filter (\<lambda>c. cl_spot_id c = spot_id
        \<and> (cl_status c = CLAIM_STATUS_PENDING \<or> cl_status c = CLAIM_STATUS_SUCCESS
           \<or> include_failed \<and> cl_status c = CLAIM_STATUS_FAILED)) (db_claims d)))))"

definition get_claims_by_user :: "int \<Rightarrow> int \<Rightarrow> int \<Rightarrow> db \<Rightarrow> claim_detail list" where
  "get_claims_by_user user_id limit offset d = page limit offset (claim_details d
     (sort_key (\<lambda>c. - cl_claimed_at c) (sort_key (\<lambda>c. - cl_id c)
        (filter (\<lambda>c. cl_recipient c = user_id) (db_claims d)))))"

definition count_claims_by_status_for_spot :: "int \<Rightarrow> int \<Rightarrow> db \<Rightarrow> int" where
  "count_claims_by_status_for_spot spot_id status d =
     count_where (\<lambda>c. cl_spot_id c = spot_id \<and> cl_status c = status) (db_claims d)"

definition by_claimed_at :: "claim_row list \<Rightarrow> claim_row list" where
  "by_claimed_at cs = sort_key cl_claimed_at (sort_key cl_id cs)"

definition get_claims_by_status_for_spot :: "int \<Rightarrow> int \<Rightarrow> int \<Rightarrow> int \<Rightarrow> db \<Rightarrow> claim_detail list" where
  "get_claims_by_status_for_spot spot_id status limit offset d = page limit offset (claim_details d
     (by_claimed_at (filter (\<lambda>c. cl_spot_id c = spot_id \<and> cl_status c = status) (db_claims d))))"

definition get_successful_claims_for_spot :: "int \<Rightarrow> int \<Rightarrow> db \<Rightarrow> claim_detail list" where
  "get_successful_claims_for_spot spot_id limit d =
     get_claims_by_status_for_spot spot_id CLAIM_STATUS_SUCCESS limit 0 d"

definition get_pending_claims_for_spot :: "int \<Rightarrow> int \<Rightarrow> db \<Rightarrow> claim_detail list" where
  "get_pending_claims_for_spot spot_id limit d =
     get_claims_by_status_for_spot spot_id CLAIM_STATUS_PENDING limit 0 d"

definition get_pending_duration_claim_ids :: "int \<Rightarrow> int \<Rightarrow> db \<Rightarrow> int list" where
  "get_pending_duration_claim_ids limit offset d = page limit offset (map cl_id
     (sort_key cl_updated_at (sort_key cl_id (filter (\<lambda>c. cl_status c = CLAIM_STATUS_PENDING
        \<and> (case get_spot (cl_spot_id c) d of None \<Rightarrow> False
           | Some s \<Rightarrow> sp_status s = SPOT_STATUS_PUBLISHED \<and> 0 < sp_claim_duration s)) (db_claims d)))))"

section \<open>Payout lookups and cancellation\<close>

definition claim_payout :: "int \<Rightarrow> trans_row \<Rightarrow> bool" where
  "claim_payout c t \<longleftrightarrow> tr_claim_id t = Some c \<and> tr_type t = TRANS_TYPE_CLAIM"

definition has_nonfailed_claim_payout_transaction :: "int \<Rightarrow> db \<Rightarrow> bool" where
  "has_nonfailed_claim_payout_transaction claim_id d \<longleftrightarrow>
     list_ex (\<lambda>t. claim_payout claim_id t \<and> tr_status t \<noteq> TRANS_STATUS_FAILED) (db_trans d)"

definition has_confirmed_claim_payout_transaction :: "int \<Rightarrow> db \<Rightarrow> bool" where
  "has_confirmed_claim_payout_transaction claim_id d \<longleftrightarrow>
     list_ex (\<lambda>t. claim_payout claim_id t \<and> tr_status t = TRANS_STATUS_CONFIRMED) (db_trans d)"

definition latest_failed_claim_payout_amount :: "int \<Rightarrow> db \<Rightarrow> int option" where
  "latest_failed_claim_payout_amount claim_id d =
    (case sort_key (\<lambda>t. - tr_created_at t) (sort_key (\<lambda>t. - tr_id t)
       (filter (\<lambda>t. claim_payout claim_id t \<and> tr_status t = TRANS_STATUS_FAILED) (db_trans d))) of
       [] \<Rightarrow> None | t # _ \<Rightarrow> Some (tr_amount t))"

definition has_spot_cancellation_started :: "int \<Rightarrow> db \<Rightarrow> bool" where
  "has_spot_cancellation_started spot_id d \<longleftrightarrow>
     (case get_spot spot_id d of None \<Rightarrow> False | Some s \<Rightarrow> sp_cancellation_started_at s \<noteq> None)
     \<or> spot_cancellation_legs spot_id d"

definition get_prizedraw_winner_claim_ids :: "int \<Rightarrow> db \<Rightarrow> int list" where
  "get_prizedraw_winner_claim_ids spot_id d =
     sort (remdups
       (map cl_id (filter (\<lambda>c. cl_spot_id c = spot_id \<and> cl_status c = CLAIM_STATUS_PENDING) (db_claims d))
        @ map (\<lambda>t. the (tr_claim_id t)) (filter (\<lambda>t. tr_spot_id t = Some spot_id
             \<and> tr_type t = TRANS_TYPE_CLAIM \<and> tr_claim_id t \<noteq> None) (db_trans d))))"

definition get_unpaid_successful_standard_claim_ids :: "int option \<Rightarrow> int \<Rightarrow> int \<Rightarrow> db \<Rightarrow> int list" where
  "get_unpaid_successful_standard_claim_ids spot_id limit offset d = page limit offset (map cl_id
     (by_claimed_at (filter (\<lambda>c. cl_status c = CLAIM_STATUS_SUCCESS
        \<and> \<not> is_prizedraw (cl_spot_id c) d
        \<and> \<not> has_nonfailed_claim_payout_transaction (cl_id c) d
        \<and> (spot_id = None \<or> spot_id = Some (cl_spot_id c))) (db_claims d))))"

definition get_completed_prizedraw_spot_ids_with_pending_winners :: "int \<Rightarrow> int \<Rightarrow> db \<Rightarrow> int list" where
  "get_completed_prizedraw_spot_ids_with_pending_winners limit offset d = page limit offset (map sp_id
     (sort_key sp_updated_at (sort_key sp_id (filter (\<lambda>s. is_prizedraw (sp_id s) d
        \<and> sp_status s = SPOT_STATUS_COMPLETED
        \<and> list_ex (\<lambda>c. cl_spot_id c = sp_id s \<and> cl_status c = CLAIM_STATUS_PENDING) (db_claims d))
        (db_spots d)))))"

section \<open>Per-user limits\<close>

definition count_successful_claims_for_user_spot :: "int \<Rightarrow> int \<Rightarrow> db \<Rightarrow> int" where
  "count_successful_claims_for_user_spot spot_id user_id d = count_where (\<lambda>c. cl_spot_id c = spot_id
     \<and> cl_recipient c = user_id \<and> cl_status c = CLAIM_STATUS_SUCCESS) (db_claims d)"

definition count_active_claims_for_user_spot :: "int \<Rightarrow> int \<Rightarrow> db \<Rightarrow> int" where
  "count_active_claims_for_user_spot spot_id user_id d = count_where (\<lambda>c. cl_spot_id c = spot_id
     \<and> cl_recipient c = user_id
     \<and> (cl_status c = CLAIM_STATUS_SUCCESS
        \<or> is_prizedraw spot_id d \<and> cl_status c = CLAIM_STATUS_PENDING)) (db_claims d)"

definition has_user_reached_claim_limit :: "int \<Rightarrow> int \<Rightarrow> db \<Rightarrow> bool" where
  "has_user_reached_claim_limit spot_id user_id d =
    (case get_spot spot_id d of None \<Rightarrow> True
     | Some s \<Rightarrow> if sp_max_claims_per_user s \<le> 0 then False
                 else sp_max_claims_per_user s \<le> count_active_claims_for_user_spot spot_id user_id d)"

section \<open>Distance and rules\<close>

type_synonym distance_fun = "rat \<Rightarrow> rat \<Rightarrow> rat \<Rightarrow> rat \<Rightarrow> rat"

record distance_check =
  dc_distance_metres :: rat
  dc_radius_metres :: int
  dc_accuracy_margin_metres :: rat
  dc_effective_distance_metres :: rat
  dc_outside_by_metres :: rat
  dc_within_radius :: bool

text \<open>\<^verbatim>\<open>float(None)\<close> raises for a Spot that has no coordinates yet.\<close>

definition get_claim_distance_check ::
  "distance_fun \<Rightarrow> int \<Rightarrow> rat \<Rightarrow> rat \<Rightarrow> rat option \<Rightarrow> db \<Rightarrow> distance_check option res" where
  "get_claim_distance_check metres spot_id lat long location_accuracy_metres d =
    (case get_spot spot_id d of None \<Rightarrow> Inr None
     | Some s \<Rightarrow>
       (case (sp_lat s, sp_long s) of
         (Some spot_lat, Some spot_long) \<Rightarrow>
           let distance = metres lat long spot_lat spot_long;
               radius = sp_radius s;
               accuracy_margin = location_accuracy_margin_metres location_accuracy_metres;
               effective_distance = max 0 (fl (distance - accuracy_margin));
               outside_by = max 0 (fl (effective_distance - of_int radius))
           in Inr (Some \<lparr>dc_distance_metres = distance, dc_radius_metres = radius,
                    dc_accuracy_margin_metres = accuracy_margin,
                    dc_effective_distance_metres = effective_distance,
                    dc_outside_by_metres = outside_by,
                    dc_within_radius = (effective_distance \<le> of_int radius)\<rparr>)
       | _ \<Rightarrow> Inl (TypeError ''float() argument must be a string or a real number'')))"

datatype claim_refusal =
    UserNotAllowed | OwnSpot | CancellationPending | NotActive | CapacityFull
  | UserLimitReached | LocationUnknown | OutsideRadius

record rule_check =
  rc_allowed :: bool
  rc_reason :: "claim_refusal option"
  rc_user_ok :: bool
  rc_own_spot :: bool
  rc_spot_current :: bool
  rc_cancellation_pending :: bool
  rc_location_known :: bool
  rc_within_radius :: bool
  rc_capacity_ok :: bool
  rc_user_limit_ok :: bool
  rc_distance :: "distance_check option"

definition get_claim_rule_check ::
  "distance_fun \<Rightarrow> int \<Rightarrow> int \<Rightarrow> rat option \<Rightarrow> rat option \<Rightarrow> rat option \<Rightarrow> db \<Rightarrow> rule_check res" where
  "get_claim_rule_check metres spot_id user_id lat long location_accuracy_metres d =
    (let user_ok = can_user_claim user_id d;
         own_spot = is_spot_owned_by_user spot_id user_id d;
         location_known = (lat \<noteq> None \<and> long \<noteq> None)
     in bindE (if location_known
               then get_claim_distance_check metres spot_id (the lat) (the long) location_accuracy_metres d
               else Inr None) (\<lambda>distance.
     let capacity_ok = is_spot_claim_capacity_available spot_id d;
         user_limit_ok = (\<not> has_user_reached_claim_limit spot_id user_id d);
         cancellation_pending = has_spot_cancellation_started spot_id d;
         spot_current = (case get_public_spot spot_id d of None \<Rightarrow> False
                         | Some v \<Rightarrow> pv_availability_rank v = 0);
         within_radius = (case distance of None \<Rightarrow> False | Some c \<Rightarrow> dc_within_radius c);
         reason = (if \<not> user_ok then Some UserNotAllowed
           else if own_spot then Some OwnSpot
           else if cancellation_pending then Some CancellationPending
           else if \<not> spot_current then Some NotActive
           else if \<not> capacity_ok then Some CapacityFull
           else if \<not> user_limit_ok then Some UserLimitReached
           else if \<not> location_known then Some LocationUnknown
           else if \<not> within_radius then Some OutsideRadius
           else None)
     in Inr \<lparr>rc_allowed = (user_ok \<and> \<not> own_spot \<and> \<not> cancellation_pending \<and> spot_current \<and> capacity_ok
                           \<and> user_limit_ok \<and> location_known \<and> within_radius),
             rc_reason = reason, rc_user_ok = user_ok, rc_own_spot = own_spot,
             rc_spot_current = spot_current, rc_cancellation_pending = cancellation_pending,
             rc_location_known = location_known, rc_within_radius = within_radius,
             rc_capacity_ok = capacity_ok, rc_user_limit_ok = user_limit_ok, rc_distance = distance\<rparr>))"

text \<open>The messages of the refusals, in the code's words.\<close>

fun refusal_message :: "claim_refusal \<Rightarrow> string" where
  "refusal_message UserNotAllowed = ''This device account cannot claim spots.''"
| "refusal_message OwnSpot = ''You cannot claim your own spot.''"
| "refusal_message CancellationPending = ''This spot is being cancelled and can no longer be claimed.''"
| "refusal_message NotActive = ''This spot is not active right now.''"
| "refusal_message CapacityFull = ''This spot has no remaining claim capacity.''"
| "refusal_message UserLimitReached = ''You have already reached your claim limit for this spot.''"
| "refusal_message LocationUnknown = ''Your location is unknown.''"
| "refusal_message OutsideRadius = ''Move inside the spot radius to claim.''"

section \<open>Facts\<close>

lemma view_claim_detail_claim: "view_claim_detail d c = Some v \<Longrightarrow> cd_claim v = c"
  by (auto simp: view_claim_detail_def Let_def split: option.splits)

lemma get_claim_SomeD:
  assumes "get_claim k d = Some v"
  shows "find_row cl_id k (db_claims d) = Some (cd_claim v)" and "cl_id (cd_claim v) = k"
    and "cd_claim v \<in> set (db_claims d)" and "get_spot (cl_spot_id (cd_claim v)) d \<noteq> None"
proof -
  obtain c where c: "find_row cl_id k (db_claims d) = Some c" "view_claim_detail d c = Some v"
    using assms by (auto simp: get_claim_def split: option.splits)
  then have "cd_claim v = c" by (simp add: view_claim_detail_claim)
  then show "find_row cl_id k (db_claims d) = Some (cd_claim v)" "cl_id (cd_claim v) = k"
      "cd_claim v \<in> set (db_claims d)"
    using c(1) find_row_SomeD by fastforce+
  show "get_spot (cl_spot_id (cd_claim v)) d \<noteq> None"
    using c(2) \<open>cd_claim v = c\<close> by (auto simp: view_claim_detail_def split: option.splits)
qed

text \<open>The allowed outcome is exactly the absence of a refusal.\<close>

lemma rule_check_allowed_iff:
  assumes "get_claim_rule_check metres s u la lo acc d = Inr r"
  shows "rc_allowed r \<longleftrightarrow> rc_reason r = None"
  using assms by (auto simp: get_claim_rule_check_def Let_def split: if_splits)

lemma rule_check_allowedD:
  assumes "get_claim_rule_check metres s u la lo acc d = Inr r" and "rc_allowed r"
  shows "can_user_claim u d" and "\<not> is_spot_owned_by_user s u d"
    and "\<not> has_spot_cancellation_started s d"
    and "\<exists>v. get_public_spot s d = Some v \<and> pv_availability_rank v = 0"
    and "is_spot_claim_capacity_available s d" and "\<not> has_user_reached_claim_limit s u d"
    and "\<exists>x y. la = Some x \<and> lo = Some y"
  using assms by (auto simp: get_claim_rule_check_def Let_def split: option.splits)

lemma count_claims_eq_claim_total:
  "count_claims_by_status_for_spot s st d = claim_total (\<lambda>x. x = st) s d"
  by (simp add: count_claims_by_status_for_spot_def claim_total_def)

lemma claim_payout_slot_active:
  "claim_payout c t \<Longrightarrow> tr_status t \<noteq> TRANS_STATUS_FAILED \<Longrightarrow> claim_payout_slot t = Some c"
  by (auto simp: claim_payout_def claim_payout_slot_def active_def)

end
