(* ===== verification/ClaimCodes.thy ===== *)
theory ClaimCodes
  imports ClaimReads
begin

text \<open>
  The CLAIM\_CODE functions of \<^verbatim>\<open>db_access.py\<close>: creation, use, release, the
  random generator (its draws are an argument) and the exact set of codes a
  password Spot is published with.
\<close>

section \<open>Reads\<close>

definition view_claim_code_detail :: "db \<Rightarrow> code_row list" where
  "view_claim_code_detail d = filter (\<lambda>k. has_spot d (cc_spot_id k)) (db_codes d)"

definition get_claim_code :: "int \<Rightarrow> db \<Rightarrow> code_row option" where
  "get_claim_code claim_code_id d = find_row cc_id claim_code_id (view_claim_code_detail d)"

definition find_code :: "int \<Rightarrow> string \<Rightarrow> db \<Rightarrow> code_row option" where
  "find_code spot_id code d =
     find (\<lambda>k. cc_spot_id k = spot_id \<and> cc_code k = code) (view_claim_code_detail d)"

definition get_claim_code_by_code :: "int \<Rightarrow> string option \<Rightarrow> db \<Rightarrow> code_row option res" where
  "get_claim_code_by_code spot_id claim_code d =
     bindE (normalise_claim_code True claim_code) (\<lambda>c.
       Inr (case c of None \<Rightarrow> None | Some code \<Rightarrow> find_code spot_id code d))"

definition get_claim_codes :: "int \<Rightarrow> db \<Rightarrow> code_row list" where
  "get_claim_codes spot_id d =
     sort_key cc_id (filter (\<lambda>k. cc_spot_id k = spot_id) (view_claim_code_detail d))"

definition get_available_claim_codes :: "int \<Rightarrow> db \<Rightarrow> code_row list" where
  "get_available_claim_codes spot_id d = sort_key cc_id
     (filter (\<lambda>k. cc_spot_id k = spot_id \<and> cc_used_by k = None) (view_claim_code_detail d))"

definition count_available_claim_codes :: "int \<Rightarrow> db \<Rightarrow> int" where
  "count_available_claim_codes spot_id d =
     count_where (\<lambda>k. cc_spot_id k = spot_id \<and> cc_used_by k = None) (db_codes d)"

section \<open>Writes\<close>

definition create_claim_code :: "int \<Rightarrow> string \<Rightarrow> db \<Rightarrow> (int \<times> db) res" where
  "create_claim_code spot_id claim_code d =
     bindE (normalise_claim_code True (Some claim_code)) (\<lambda>c. insert_code spot_id (the c) d)"

fun create_claim_codes :: "int \<Rightarrow> string list \<Rightarrow> db \<Rightarrow> (int list \<times> db) res" where
  "create_claim_codes spot_id [] d = Inr ([], d)"
| "create_claim_codes spot_id (code # codes) d =
     bindE (create_claim_code spot_id code d) (\<lambda>(i, d1).
     bindE (create_claim_codes spot_id codes d1) (\<lambda>(is, d2). Inr (i # is, d2)))"

definition modify_claim_code_used_by :: "int \<Rightarrow> int option \<Rightarrow> db \<Rightarrow> db res" where
  "modify_claim_code_used_by claim_code_id claim_id d =
     bindE (update_used_by (\<lambda>k. cc_id k = claim_code_id) claim_id d) (\<lambda>d'.
     bindE (require_one (count_where (\<lambda>k. cc_id k = claim_code_id) (db_codes d))
              ''Failed to update claim_code used_by'') (\<lambda>_. Inr d'))"

definition claim_code_for_claim :: "int \<Rightarrow> string \<Rightarrow> int \<Rightarrow> db \<Rightarrow> (int \<times> db) res" where
  "claim_code_for_claim spot_id claim_code claim_id d =
     bindE (normalise_claim_code True (Some claim_code)) (\<lambda>c.
     let P = (\<lambda>k. cc_spot_id k = spot_id \<and> Some (cc_code k) = c \<and> cc_used_by k = None) in
     (case find P (db_codes d) of
        Some k \<Rightarrow> bindE (update_used_by P (Some claim_id) d) (\<lambda>d'. Inr (cc_id k, d'))
      | None \<Rightarrow> bindE (get_claim_code_by_code spot_id (Some claim_code) d) (\<lambda>existing.
          (case existing of
             Some e \<Rightarrow> if cc_used_by e \<noteq> None then Inl (ValueError ''This code has already been used.'')
                       else Inl (ValueError ''That claim code is not valid for this spot.'')
           | None \<Rightarrow> Inl (ValueError ''That claim code is not valid for this spot.'')))))"

definition delete_unused_claim_codes_for_spot :: "int \<Rightarrow> db \<Rightarrow> db" where
  "delete_unused_claim_codes_for_spot spot_id d =
     delete_codes (\<lambda>k. cc_spot_id k = spot_id \<and> cc_used_by k = None) d"

section \<open>Generation\<close>

definition CLAIM_CODE_ALPHABET :: string where
  "CLAIM_CODE_ALPHABET = ''ABCDEFGHIJKLMNOPQRSTUVWXYZ0123456789''"

text \<open>\<open>choices\<close> are the ten results of \<^verbatim>\<open>secrets.choice\<close>, as positions in the alphabet.\<close>

definition make_placeholder_claim_code :: "nat list \<Rightarrow> string" where
  "make_placeholder_claim_code choices =
     map (\<lambda>n. CLAIM_CODE_ALPHABET ! (n mod length CLAIM_CODE_ALPHABET)) (take 10 choices)"

text \<open>
  The rejection loop reads the codes drawn so far; \<open>None\<close> is the loop that has
  used every draw it was given and still lacks codes.
\<close>

fun generate_unique_claim_codes ::
  "int \<Rightarrow> int \<Rightarrow> string list \<Rightarrow> string list \<Rightarrow> string list \<Rightarrow> db \<Rightarrow> string list res option" where
  "generate_unique_claim_codes spot_id count seen codes draws d =
    (if count \<le> int (length codes) then Some (Inr codes)
     else case draws of [] \<Rightarrow> None
       | code # rest \<Rightarrow>
         if code \<in> set seen then generate_unique_claim_codes spot_id count seen codes rest d
         else (case get_claim_code_by_code spot_id (Some code) d of
                 Inl e \<Rightarrow> Some (Inl e)
               | Inr existing \<Rightarrow> generate_unique_claim_codes spot_id count (code # seen)
                   (if existing = None then codes @ [code] else codes) rest d))"

declare generate_unique_claim_codes.simps [simp del]

definition ensure_claim_codes_for_publish :: "string list \<Rightarrow> int \<Rightarrow> db \<Rightarrow> db res option" where
  "ensure_claim_codes_for_publish draws spot_id d =
    (case get_spot spot_id d of None \<Rightarrow> Some (Inl (ValueError ''spot does not exist''))
     | Some s \<Rightarrow>
       if sp_use_password s \<noteq> 1 then Some (Inr d)
       else if is_prizedraw spot_id d
       then Some (Inl (ValueError ''Prizedraw spots do not use claim codes''))
       else let target = sp_max_total_claims s in
       if target \<le> 0
       then Some (Inl (ValueError ''use_password requires a finite total participant count''))
       else let rows = get_claim_codes spot_id d;
                unused = filter (\<lambda>k. cc_used_by k = None) rows;
                used_count = int (length rows) - int (length unused) in
       if target < used_count
       then Some (Inl (ValueError ''existing used claim codes exceed total participant count''))
       else let d1 = (if target < int (length rows)
              then let delete_ids = map cc_id (rev (take (nat (int (length rows) - target)) unused))
                   in delete_codes (\<lambda>k. cc_id k \<in> set delete_ids \<and> cc_used_by k = None) d
              else d) in
       if int (length rows) < target
       then (case generate_unique_claim_codes spot_id (target - int (length rows)) [] [] draws d1 of
               None \<Rightarrow> None
             | Some (Inl e) \<Rightarrow> Some (Inl e)
             | Some (Inr codes) \<Rightarrow> Some (bindE (create_claim_codes spot_id codes d1) (\<lambda>(_, d2). Inr d2)))
       else Some (Inr d1))"

definition sync_draft_claim_codes_for_password :: "int \<Rightarrow> db \<Rightarrow> db" where
  "sync_draft_claim_codes_for_password spot_id d =
    (case get_spot spot_id d of None \<Rightarrow> d
     | Some s \<Rightarrow> if sp_status s \<noteq> SPOT_STATUS_DRAFT then d
                 else if sp_use_password s \<noteq> 1 then delete_unused_claim_codes_for_spot spot_id d
                 else d)"

end
