(* ===== verification/SpotWrites.thy ===== *)
theory SpotWrites
  imports ClaimCodes
begin

text \<open>
  The writers of Spots in \<^verbatim>\<open>db_access.py\<close>: admission of drafts and the deposit
  key sequence, creation, editing, publishing, cancellation marks and deletion.
  What lies outside the repository or is random is an argument: the deposit
  address derivation, the reverse geocoder, the random link tokens and the
  claim code draws. The deployment's fee address and development flag are in
  \<open>spot_config\<close>.
\<close>

record deposit_record =
  dr_address :: string
  dr_key_index :: int
  dr_key_path :: string
  dr_key_version :: int

record spot_config =
  cfg_fee_address :: string
  cfg_dev_placeholders :: bool

type_synonym place_resolver = "rat \<Rightarrow> rat \<Rightarrow> string option \<times> string option"

section \<open>Draft admission and deposit keys\<close>

definition next_spot_deposit_key_index :: "db \<Rightarrow> int \<times> db" where
  "next_spot_deposit_key_index d =
    (let start = (case db_next_key_index d of Some n \<Rightarrow> n
                  | None \<Rightarrow> foldr max (somes sp_deposit_key_index (db_spots d)) (- 1) + 1)
     in (start, d\<lparr>db_next_key_index := Some (start + 1)\<rparr>))"

definition stale_admission :: "int \<Rightarrow> admission_row \<Rightarrow> bool" where
  "stale_admission now a \<longleftrightarrow>
     da_status a = AdmissionPending \<and> da_created_at a \<le> now - DRAFT_RESERVATION_STALE_SECONDS
   \<or> da_status a = AdmissionConsumed \<and> da_created_at a \<le> now - DRAFT_CREATION_WINDOW_SECONDS"

definition insert_admission :: "admission_row \<Rightarrow> db \<Rightarrow> (int \<times> db) res" where
  "insert_admission a d =
    (let i = next_id (db_admission_seq d) (map da_id (db_admissions d)); a' = a\<lparr>da_id := i\<rparr> in
     if da_key_index a' \<in> da_key_index ` set (db_admissions d)
     then Inl (IntegrityError ''UNIQUE constraint failed: draft_creation_admission.deposit_key_index'')
     else if \<not> has_user d (da_user_id a') then Inl (IntegrityError ''FOREIGN KEY constraint failed'')
     else Inr (i, d\<lparr>db_admissions := db_admissions d @ [a'], db_admission_seq := i\<rparr>))"

text \<open>The id of the reservation and its key index, or \<open>None\<close> when capacity is used up.\<close>

definition reserve_draft_creation :: "int \<Rightarrow> int option \<Rightarrow> db \<Rightarrow> ((int \<times> int) option \<times> db) res" where
  "reserve_draft_creation user_id now d =
    (let t = (case now of None \<Rightarrow> db_now d | Some n \<Rightarrow> n);
         d1 = d\<lparr>db_admissions := filter (\<lambda>a. \<not> stale_admission t a) (db_admissions d)\<rparr>
     in if DRAFT_CREATION_GLOBAL_LIMIT \<le> count_where (\<lambda>_. True) (db_admissions d1)
           \<or> DRAFT_CREATION_LIMIT_PER_USER \<le> count_where (\<lambda>a. da_user_id a = user_id) (db_admissions d1)
        then Inr (None, d1)
        else let (key_index, d2) = next_spot_deposit_key_index d1 in
          bindE (insert_admission \<lparr>da_id = 0, da_user_id = user_id, da_key_index = key_index,
                   da_status = AdmissionPending, da_created_at = t, da_consumed_at = None\<rparr> d2)
                (\<lambda>(i, d3). Inr (Some (i, key_index), d3)))"

definition consume_draft_creation :: "int \<Rightarrow> int \<Rightarrow> db \<Rightarrow> db res" where
  "consume_draft_creation reservation_id user_id d =
    (let P = (\<lambda>a. da_id a = reservation_id \<and> da_user_id a = user_id \<and> da_status a = AdmissionPending)
     in bindE (require_one (count_where P (db_admissions d)) ''Draft-creation reservation is no longer pending'')
          (\<lambda>_. Inr (d\<lparr>db_admissions := update_where P
             (\<lambda>a. a\<lparr>da_status := AdmissionConsumed, da_consumed_at := Some (db_now d)\<rparr>) (db_admissions d)\<rparr>)))"

fun try_deposit_records ::
  "(int \<Rightarrow> deposit_record res) \<Rightarrow> int list \<Rightarrow> db \<Rightarrow> deposit_record res" where
  "try_deposit_records derive [] d = Inl (RuntimeError ''Failed to generate a unique spot deposit address'')"
| "try_deposit_records derive (i # is) d = bindE (derive i) (\<lambda>r.
     if list_ex (\<lambda>s. sp_deposit_address s = dr_address r
                   \<or> sp_deposit_key_index s = Some (dr_key_index r)) (db_spots d)
     then try_deposit_records derive is d else Inr r)"

definition generate_unique_spot_deposit_record ::
  "(int \<Rightarrow> deposit_record res) \<Rightarrow> db \<Rightarrow> (deposit_record \<times> db) res" where
  "generate_unique_spot_deposit_record derive d =
    (let (key_index, d1) = next_spot_deposit_key_index d
     in bindE (try_deposit_records derive (map (\<lambda>offset. key_index + int offset) [0..<30]) d1)
          (\<lambda>r. Inr (r, d1)))"

text \<open>\<open>tokens\<close> are the results of \<^verbatim>\<open>secrets.token_urlsafe\<close>, of which at most 20 are read.\<close>

definition generate_unique_spot_link :: "(nat \<Rightarrow> string) \<Rightarrow> db \<Rightarrow> string res" where
  "generate_unique_spot_link tokens d =
    (case find (\<lambda>l. get_spot_by_link l d = None)
            (map (\<lambda>k. rev (dropWhile (\<lambda>c. c = CHR ''='') (rev (tokens k)))) [0..<20]) of
       None \<Rightarrow> Inl (RuntimeError ''Failed to generate a unique spot link'')
     | Some l \<Rightarrow> Inr l)"

section \<open>Creation\<close>

definition option_or :: "'a option \<Rightarrow> 'a option \<Rightarrow> 'a option" where
  "option_or x y = (case x of None \<Rightarrow> y | Some v \<Rightarrow> Some v)"

definition default_to :: "'a \<Rightarrow> 'a option \<Rightarrow> 'a" where
  "default_to v x = (case x of None \<Rightarrow> v | Some y \<Rightarrow> y)"

lemma default_to_simps [simp]: "default_to v None = v" "default_to v (Some y) = y"
  by (simp_all add: default_to_def)

definition derive_place_labels ::
  "rat \<Rightarrow> rat \<Rightarrow> string option \<Rightarrow> string option \<Rightarrow> place_resolver option \<Rightarrow> string option \<times> string option" where
  "derive_place_labels lat long city country resolver =
    (let c = clean_optional_text city; k = clean_optional_text country in
     if c \<noteq> None \<and> k \<noteq> None then (c, k)
     else case resolver of None \<Rightarrow> (c, k)
       | Some resolve \<Rightarrow> let (rc, rk) = resolve lat long
           in (option_or c (clean_optional_text rc), option_or k (clean_optional_text rk)))"

record spot_input =
  in_title :: string
  in_desc :: "string option"
  in_lat :: "rat option"
  in_long :: "rat option"
  in_radius :: "int option"
  in_claim_duration :: "int option"
  in_max_claims_per_user :: "int option"
  in_max_total_claims :: "int option"
  in_total_value :: "int option"
  in_starts_at :: "int option"
  in_ends_at :: "int option"
  in_use_password :: "int option"
  in_link :: "string option"
  in_city :: "string option"
  in_country :: "string option"
  in_geohash_precision :: int
  in_deposit_record :: "deposit_record option"

record spot_env =
  env_config :: spot_config
  env_derive :: "int \<Rightarrow> deposit_record res"
  env_tokens :: "nat \<Rightarrow> string"
  env_resolver :: "place_resolver option"

definition optional_geohash :: "rat option \<Rightarrow> rat option \<Rightarrow> int \<Rightarrow> string option res" where
  "optional_geohash lat long precision =
    (case (lat, long) of (Some la, Some lo) \<Rightarrow> bindE (encode_geohash la lo precision) (\<lambda>g. Inr (Some g))
     | _ \<Rightarrow> Inr None)"

definition place_labels ::
  "rat option \<Rightarrow> rat option \<Rightarrow> string option \<Rightarrow> string option \<Rightarrow> place_resolver option
     \<Rightarrow> string option \<times> string option" where
  "place_labels lat long city country resolver =
    (case (lat, long) of (Some la, Some lo) \<Rightarrow> derive_place_labels la lo city country resolver
     | _ \<Rightarrow> (clean_optional_text city, clean_optional_text country))"

definition fee_address :: "spot_config \<Rightarrow> string res" where
  "fee_address c =
    (if py_strip (cfg_fee_address c) = []
     then Inl (ValueError ''platform fee address must be configured before creating spots'')
     else normalise_nimiq_address (cfg_dev_placeholders c) (py_strip (cfg_fee_address c)))"

definition create_spot :: "spot_env \<Rightarrow> int \<Rightarrow> bool \<Rightarrow> spot_input \<Rightarrow> db \<Rightarrow> (int \<times> db) res" where
  "create_spot env created_by is_pd i d =
    bindE (validate_spot_title (in_title i)) (\<lambda>title.
    bindE (validate_spot_radius (default_to DEFAULT_DRAFT_SPOT_RADIUS_METRES (in_radius i))) (\<lambda>radius.
    bindE (validate_spot_claim_duration
             (default_to DEFAULT_DRAFT_SPOT_CLAIM_DURATION_SECONDS (in_claim_duration i))) (\<lambda>duration.
    bindE (validate_spot_max_claims_per_user
             (default_to DEFAULT_DRAFT_SPOT_MAX_CLAIMS_PER_USER (in_max_claims_per_user i))) (\<lambda>per_user.
    bindE (validate_spot_max_total_claims is_pd
             (default_to DEFAULT_DRAFT_SPOT_MAX_TOTAL_CLAIMS (in_max_total_claims i))) (\<lambda>max_total.
    bindE (validate_bool_flag ''use_password''
             (default_to DEFAULT_DRAFT_SPOT_USE_PASSWORD (in_use_password i))) (\<lambda>use_password.
    bindE (guardE (\<not> (is_pd \<and> use_password \<noteq> 0))
             (ValueError ''Prizedraw spots do not use passwords'')) (\<lambda>_.
    bindE (guardE (\<not> (use_password \<noteq> 0 \<and> max_total \<le> 0))
             (ValueError ''use_password requires a finite total participant count'')) (\<lambda>_.
    bindE (validate_int_range ''total_value'' MIN_SPOT_TOTAL_VALUE None
             (default_to DEFAULT_DRAFT_SPOT_TOTAL_VALUE (in_total_value i))) (\<lambda>total_value.
    bindE (validate_spot_time_window (in_starts_at i) (in_ends_at i)) (\<lambda>(starts_at, ends_at).
    bindE (validate_optional_coordinates (in_lat i) (in_long i)) (\<lambda>(lat, long).
    bindE (optional_geohash lat long (in_geohash_precision i)) (\<lambda>geohash.
    let (city, country) = place_labels lat long (in_city i) (in_country i) (env_resolver env) in
    bindE (case clean_optional_text (in_link i) of Some l \<Rightarrow> Inr l
           | None \<Rightarrow> generate_unique_spot_link (env_tokens env) d) (\<lambda>link.
    bindE (case in_deposit_record i of Some r \<Rightarrow> Inr (r, d)
           | None \<Rightarrow> generate_unique_spot_deposit_record (env_derive env) d) (\<lambda>(r, d1).
    bindE (fee_address (env_config env)) (\<lambda>fee_to.
    insert_spot \<lparr>sp_id = 0, sp_created_by = created_by, sp_link = link,
      sp_deposit_address = dr_address r, sp_deposit_key_index = Some (dr_key_index r),
      sp_deposit_key_path = Some (dr_key_path r), sp_deposit_key_version = dr_key_version r,
      sp_title = title, sp_description = clean_optional_text (in_desc i), sp_lat = lat, sp_long = long,
      sp_geohash = geohash, sp_city = city, sp_country = country, sp_radius = radius,
      sp_claim_duration = duration, sp_max_claims_per_user = per_user, sp_max_total_claims = max_total,
      sp_use_password = use_password, sp_total_value = total_value,
      sp_creation_fee = configured_spot_creation_fee is_pd, sp_creation_fee_address = fee_to,
      sp_starts_at = starts_at, sp_ends_at = ends_at, sp_status = SPOT_STATUS_DRAFT,
      sp_created_at = 0, sp_updated_at = 0, sp_cancellation_started_at = None\<rparr> d1)))))))))))))))"

definition create_prizedraw ::
  "spot_env \<Rightarrow> int \<Rightarrow> int option \<Rightarrow> spot_input \<Rightarrow> db \<Rightarrow> (int \<times> db) res" where
  "create_prizedraw env created_by prize_count i d =
    bindE (validate_spot_max_total_claims True
             (default_to DEFAULT_DRAFT_PRIZEDRAW_MAX_TOTAL_CLAIMS (in_max_total_claims i))) (\<lambda>max_total.
    bindE (validate_prizedraw_prize_count
             (default_to DEFAULT_DRAFT_PRIZEDRAW_PRIZE_COUNT prize_count)) (\<lambda>prizes.
    bindE (validate_spot_max_claims_per_user
             (default_to DEFAULT_DRAFT_SPOT_MAX_CLAIMS_PER_USER (in_max_claims_per_user i))) (\<lambda>per_user.
    bindE (validate_prizedraw_participant_limits per_user max_total prizes) (\<lambda>_.
    bindE (guardE (in_use_password i = None \<or> in_use_password i = Some 0)
             (ValueError ''Prizedraw spots do not use passwords'')) (\<lambda>_.
    bindE (create_spot env created_by True (i\<lparr>in_max_claims_per_user := Some per_user,
             in_max_total_claims := Some max_total, in_use_password := Some 0\<rparr>) d) (\<lambda>(spot_id, d1).
    bindE (insert_prizedraw \<lparr>pd_spot_id = spot_id, pd_prize_count = prizes\<rparr> d1) (\<lambda>d2.
    Inr (spot_id, d2))))))))"

section \<open>Editing a draft\<close>

definition require_draft_spot :: "int \<Rightarrow> db \<Rightarrow> spot_row res" where
  "require_draft_spot spot_id d =
    (case get_spot spot_id d of None \<Rightarrow> Inl (ValueError ''spot does not exist'')
     | Some s \<Rightarrow>
        if sp_status s \<noteq> SPOT_STATUS_DRAFT
        then Inl (ValueError ''spot fields can only be edited while the spot is a draft'')
        else if sp_cancellation_started_at s \<noteq> None
        then Inl (ValueError ''spot fields cannot be edited after cancellation has started'')
        else Inr s)"

text \<open>An argument left at \<^verbatim>\<open>_UNSET\<close> is \<open>None\<close>.\<close>

record spot_edit =
  ed_title :: "string option"
  ed_desc :: "string option option"
  ed_lat :: "rat option option"
  ed_long :: "rat option option"
  ed_radius :: "int option"
  ed_claim_duration :: "int option"
  ed_max_claims_per_user :: "int option"
  ed_max_total_claims :: "int option"
  ed_prize_count :: "int option"
  ed_use_password :: "int option"
  ed_total_value :: "int option"
  ed_starts_at :: "int option option"
  ed_ends_at :: "int option option"
  ed_city :: "string option option"
  ed_country :: "string option option"
  ed_geohash_precision :: int

definition no_edit :: spot_edit where
  "no_edit = \<lparr>ed_title = None, ed_desc = None, ed_lat = None, ed_long = None, ed_radius = None,
     ed_claim_duration = None, ed_max_claims_per_user = None, ed_max_total_claims = None,
     ed_prize_count = None, ed_use_password = None, ed_total_value = None, ed_starts_at = None,
     ed_ends_at = None, ed_city = None, ed_country = None,
     ed_geohash_precision = GEOHASH_DEFAULT_PRECISION\<rparr>"

text \<open>The values that passed validation: the code's \<^verbatim>\<open>updates\<close> dictionary.\<close>

record draft_changes =
  ch_title :: "string option"
  ch_desc :: "string option option"
  ch_radius :: "int option"
  ch_claim_duration :: "int option"
  ch_max_claims_per_user :: "int option"
  ch_max_total_claims :: "int option"
  ch_use_password :: "int option"
  ch_total_value :: "int option"
  ch_window :: "(int option \<times> int) option"
  ch_coords :: "(rat option \<times> rat option \<times> string option) option"
  ch_labels :: "(string option \<times> string option) option"
  ch_prize_count :: "int option"

definition validate_given :: "('a \<Rightarrow> 'b res) \<Rightarrow> 'a option \<Rightarrow> 'b option res" where
  "validate_given v x = (case x of None \<Rightarrow> Inr None | Some y \<Rightarrow> bindE (v y) (\<lambda>z. Inr (Some z)))"

definition check_prize_edit ::
  "prizedraw_row option \<Rightarrow> int option \<Rightarrow> int \<Rightarrow> int \<Rightarrow> int \<Rightarrow> int option res" where
  "check_prize_edit pd prize_count next_per_user next_max_total next_use_password =
    (case pd of
       Some p \<Rightarrow>
         bindE (case prize_count of None \<Rightarrow> Inr (pd_prize_count p)
                | Some n \<Rightarrow> validate_prizedraw_prize_count n) (\<lambda>next.
         bindE (validate_prizedraw_participant_limits next_per_user next_max_total next) (\<lambda>_.
         bindE (guardE (next_use_password = 0) (ValueError ''Prizedraw spots do not use passwords'')) (\<lambda>_.
         Inr (Some next))))
     | None \<Rightarrow> bindE (guardE (prize_count = None) (ValueError ''spot is not a Prizedraw'')) (\<lambda>_. Inr None))"

definition check_total_edit :: "spot_row \<Rightarrow> int option \<Rightarrow> db \<Rightarrow> int option res" where
  "check_total_edit existing total_value d =
    (case total_value of None \<Rightarrow> Inr None
     | Some v \<Rightarrow>
         bindE (validate_int_range ''total_value'' MIN_SPOT_TOTAL_VALUE None v) (\<lambda>tv.
         bindE (guardE (\<not> (tv \<noteq> sp_total_value existing
                          \<and> has_spot_nonfailed_deposit_transactions (sp_id existing) d))
                 (ValueError ''total_value cannot be changed after a pending or confirmed deposit has been submitted''))
           (\<lambda>_. Inr (Some tv))))"

definition check_window_edit ::
  "spot_row \<Rightarrow> int option option \<Rightarrow> int option option \<Rightarrow> (int option \<times> int) option res" where
  "check_window_edit existing starts_at ends_at =
    (if starts_at = None \<and> ends_at = None then Inr None
     else bindE (validate_spot_time_window (default_to (sp_starts_at existing) starts_at)
                   (default_to (Some (sp_ends_at existing)) ends_at)) (\<lambda>w. Inr (Some w)))"

definition check_coords_edit ::
  "spot_row \<Rightarrow> spot_edit \<Rightarrow> (rat option \<times> rat option \<times> string option) option res" where
  "check_coords_edit existing e =
    (if ed_lat e = None \<and> ed_long e = None then Inr None
     else bindE (validate_optional_coordinates (default_to (sp_lat existing) (ed_lat e))
                   (default_to (sp_long existing) (ed_long e))) (\<lambda>(lat, long).
          bindE (optional_geohash lat long (ed_geohash_precision e)) (\<lambda>g. Inr (Some (lat, long, g)))))"

definition labels_edit ::
  "place_resolver option \<Rightarrow> spot_row \<Rightarrow> spot_edit \<Rightarrow> (rat option \<times> rat option \<times> string option) option
     \<Rightarrow> (string option \<times> string option) option" where
  "labels_edit resolver existing e coords =
    (if ed_city e = None \<and> ed_country e = None \<and> ed_lat e = None \<and> ed_long e = None then None
     else let (lat, long) = (case coords of None \<Rightarrow> (sp_lat existing, sp_long existing)
                             | Some (la, lo, _) \<Rightarrow> (la, lo))
          in Some (place_labels lat long (default_to (sp_city existing) (ed_city e))
                     (default_to (sp_country existing) (ed_country e)) resolver))"

definition check_draft_edit ::
  "place_resolver option \<Rightarrow> int \<Rightarrow> spot_edit \<Rightarrow> db \<Rightarrow> draft_changes res" where
  "check_draft_edit resolver spot_id e d =
    bindE (require_draft_spot spot_id d) (\<lambda>existing.
    bindE (validate_given validate_spot_title (ed_title e)) (\<lambda>title.
    bindE (validate_given validate_spot_radius (ed_radius e)) (\<lambda>radius.
    bindE (validate_given validate_spot_claim_duration (ed_claim_duration e)) (\<lambda>duration.
    bindE (validate_given validate_spot_max_claims_per_user (ed_max_claims_per_user e)) (\<lambda>per_user.
    let pd = get_prizedraw spot_id d in
    bindE (validate_given (validate_spot_max_total_claims (pd \<noteq> None)) (ed_max_total_claims e)) (\<lambda>max_total.
    bindE (validate_given (validate_bool_flag ''use_password'') (ed_use_password e)) (\<lambda>use_password.
    let next_max_total = default_to (sp_max_total_claims existing) max_total;
        next_use_password = default_to (sp_use_password existing) use_password in
    bindE (check_prize_edit pd (ed_prize_count e)
             (default_to (sp_max_claims_per_user existing) per_user) next_max_total next_use_password) (\<lambda>prizes.
    bindE (guardE (\<not> (next_use_password \<noteq> 0 \<and> next_max_total \<le> 0))
             (ValueError ''use_password requires a finite total participant count'')) (\<lambda>_.
    bindE (check_total_edit existing (ed_total_value e) d) (\<lambda>total_value.
    bindE (check_window_edit existing (ed_starts_at e) (ed_ends_at e)) (\<lambda>window.
    bindE (check_coords_edit existing e) (\<lambda>coords.
    Inr \<lparr>ch_title = title, ch_desc = map_option clean_optional_text (ed_desc e), ch_radius = radius,
         ch_claim_duration = duration, ch_max_claims_per_user = per_user,
         ch_max_total_claims = max_total, ch_use_password = use_password,
         ch_total_value = total_value, ch_window = window, ch_coords = coords,
         ch_labels = labels_edit resolver existing e coords,
         ch_prize_count = (case (pd, ed_prize_count e, prizes) of
            (Some p, Some _, Some n) \<Rightarrow> if n \<noteq> pd_prize_count p then Some n else None
          | _ \<Rightarrow> None)\<rparr>))))))))))))"

definition has_updates :: "draft_changes \<Rightarrow> bool" where
  "has_updates ch \<longleftrightarrow> \<not> (ch_title ch = None \<and> ch_desc ch = None \<and> ch_radius ch = None
     \<and> ch_claim_duration ch = None \<and> ch_max_claims_per_user ch = None \<and> ch_max_total_claims ch = None
     \<and> ch_use_password ch = None \<and> ch_total_value ch = None \<and> ch_window ch = None
     \<and> ch_coords ch = None \<and> ch_labels ch = None)"

definition changed_row :: "draft_changes \<Rightarrow> spot_row \<Rightarrow> spot_row" where
  "changed_row ch r = r\<lparr>
     sp_title := default_to (sp_title r) (ch_title ch),
     sp_description := default_to (sp_description r) (ch_desc ch),
     sp_radius := default_to (sp_radius r) (ch_radius ch),
     sp_claim_duration := default_to (sp_claim_duration r) (ch_claim_duration ch),
     sp_max_claims_per_user := default_to (sp_max_claims_per_user r) (ch_max_claims_per_user ch),
     sp_max_total_claims := default_to (sp_max_total_claims r) (ch_max_total_claims ch),
     sp_use_password := default_to (sp_use_password r) (ch_use_password ch),
     sp_total_value := default_to (sp_total_value r) (ch_total_value ch),
     sp_starts_at := fst (default_to (sp_starts_at r, sp_ends_at r) (ch_window ch)),
     sp_ends_at := snd (default_to (sp_starts_at r, sp_ends_at r) (ch_window ch)),
     sp_lat := fst (default_to (sp_lat r, sp_long r, sp_geohash r) (ch_coords ch)),
     sp_long := fst (snd (default_to (sp_lat r, sp_long r, sp_geohash r) (ch_coords ch))),
     sp_geohash := snd (snd (default_to (sp_lat r, sp_long r, sp_geohash r) (ch_coords ch))),
     sp_city := fst (default_to (sp_city r, sp_country r) (ch_labels ch)),
     sp_country := snd (default_to (sp_city r, sp_country r) (ch_labels ch))\<rparr>"

definition set_prize_count :: "int \<Rightarrow> int \<Rightarrow> db \<Rightarrow> db res" where
  "set_prize_count spot_id n d =
     bindE (update_prize_count spot_id n d) (\<lambda>d'.
     bindE (require_one (count_where (\<lambda>r. pd_spot_id r = spot_id) (db_prizedraws d))
              ''Failed to update Prizedraw'') (\<lambda>_. Inr d'))"

definition apply_draft_changes :: "int \<Rightarrow> draft_changes \<Rightarrow> db \<Rightarrow> db res" where
  "apply_draft_changes spot_id ch d =
    (if \<not> has_updates ch \<and> ch_prize_count ch = None then Inr d
     else let P = (\<lambda>r. sp_id r = spot_id \<and> sp_status r = SPOT_STATUS_DRAFT) in
       bindE (if has_updates ch
              then bindE (update_spots (ch_max_total_claims ch \<noteq> None) True P (changed_row ch) d) (\<lambda>d'.
                   bindE (require_one (count_where P (db_spots d)) ''Failed to update draft spot'') (\<lambda>_. Inr d'))
              else Inr d) (\<lambda>d1.
       bindE (case ch_prize_count ch of None \<Rightarrow> Inr d1 | Some n \<Rightarrow> set_prize_count spot_id n d1) (\<lambda>d2.
       Inr (delete_unused_claim_codes_for_spot spot_id d2))))"

definition modify_draft_spot :: "place_resolver option \<Rightarrow> int \<Rightarrow> spot_edit \<Rightarrow> db \<Rightarrow> db res" where
  "modify_draft_spot resolver spot_id e d =
     bindE (check_draft_edit resolver spot_id e d) (\<lambda>ch. apply_draft_changes spot_id ch d)"

definition modify_spot_desc :: "int \<Rightarrow> string option \<Rightarrow> db \<Rightarrow> db res" where
  "modify_spot_desc spot_id desc = modify_draft_spot None spot_id (no_edit\<lparr>ed_desc := Some desc\<rparr>)"

definition modify_draft_prizedraw :: "int \<Rightarrow> int \<Rightarrow> db \<Rightarrow> db res" where
  "modify_draft_prizedraw spot_id prize_count d =
     bindE (require_draft_spot spot_id d) (\<lambda>s.
     bindE (guardE (is_prizedraw spot_id d) (ValueError ''spot is not a Prizedraw'')) (\<lambda>_.
     bindE (validate_prizedraw_prize_count prize_count) (\<lambda>n.
     bindE (validate_prizedraw_participant_limits (sp_max_claims_per_user s) (sp_max_total_claims s) n) (\<lambda>_.
     set_prize_count spot_id n d))))"

section \<open>Status, publishing, cancellation, deletion\<close>

definition modify_spot_status :: "int \<Rightarrow> int \<Rightarrow> db \<Rightarrow> db res" where
  "modify_spot_status spot_id status d =
    (let P = (\<lambda>r. sp_id r = spot_id) in
     bindE (update_spots False True P (\<lambda>r. r\<lparr>sp_status := status\<rparr>) d) (\<lambda>d'.
     bindE (require_one (count_where P (db_spots d)) ''Failed to update spot status'') (\<lambda>_. Inr d')))"

definition publish_spot :: "string list \<Rightarrow> int \<Rightarrow> db \<Rightarrow> db res option" where
  "publish_spot draws spot_id d =
    (if \<not> can_publish_spot spot_id d
     then Some (Inl (ValueError ''spot is not complete and fully funded enough to publish''))
     else case ensure_claim_codes_for_publish draws spot_id d of
       None \<Rightarrow> None
     | Some (Inl e) \<Rightarrow> Some (Inl e)
     | Some (Inr d1) \<Rightarrow>
         let P = (\<lambda>r. sp_id r = spot_id \<and> sp_status r = SPOT_STATUS_DRAFT \<and> sp_cancellation_started_at r = None);
             f = (\<lambda>r. r\<lparr>sp_starts_at := Some (default_to (db_now d1) (sp_starts_at r)),
                        sp_status := SPOT_STATUS_PUBLISHED\<rparr>)
         in Some (bindE (update_spots False True P f d1) (\<lambda>d2.
                  bindE (require_one (count_where P (db_spots d1)) ''Failed to publish spot'') (\<lambda>_. Inr d2))))"

definition set_spot_status_to_published :: "string list \<Rightarrow> int \<Rightarrow> db \<Rightarrow> db res option" where
  "set_spot_status_to_published = publish_spot"

definition set_spot_status_to_completed :: "int \<Rightarrow> db \<Rightarrow> db res" where
  "set_spot_status_to_completed spot_id = modify_spot_status spot_id SPOT_STATUS_COMPLETED"

definition set_spot_status_to_cancelled :: "int \<Rightarrow> db \<Rightarrow> db res" where
  "set_spot_status_to_cancelled spot_id = modify_spot_status spot_id SPOT_STATUS_CANCELLED"

definition set_spot_status_to_banned :: "int \<Rightarrow> db \<Rightarrow> db res" where
  "set_spot_status_to_banned spot_id = modify_spot_status spot_id SPOT_STATUS_BANNED"

definition mark_spot_cancellation_started :: "int \<Rightarrow> db \<Rightarrow> (bool \<times> db) res" where
  "mark_spot_cancellation_started spot_id d =
    (let P = (\<lambda>r. sp_id r = spot_id
                \<and> (sp_status r = SPOT_STATUS_DRAFT \<or> sp_status r = SPOT_STATUS_PUBLISHED)
                \<and> sp_cancellation_started_at r = None)
     in bindE (update_spots False False P (\<lambda>r. r\<lparr>sp_cancellation_started_at := Some (db_now d)\<rparr>) d)
          (\<lambda>d'. Inr (count_where P (db_spots d) = 1, d')))"

definition get_pending_cancellation_spot_ids :: "int \<Rightarrow> db \<Rightarrow> int list" where
  "get_pending_cancellation_spot_ids limit d = take (nat (clamp_limit limit)) (map sp_id
     (sort_key (\<lambda>s. the (sp_cancellation_started_at s)) (sort_key sp_id (filter (\<lambda>s.
        (sp_status s = SPOT_STATUS_DRAFT \<or> sp_status s = SPOT_STATUS_PUBLISHED)
        \<and> sp_cancellation_started_at s \<noteq> None) (db_spots d)))))"

definition clear_spot_cancellation_started :: "int \<Rightarrow> db \<Rightarrow> db res" where
  "clear_spot_cancellation_started spot_id d =
     update_spots False False (\<lambda>r. sp_id r = spot_id) (\<lambda>r. r\<lparr>sp_cancellation_started_at := None\<rparr>) d"

definition delete_draft_spot :: "int \<Rightarrow> db \<Rightarrow> db res" where
  "delete_draft_spot spot_id d =
    (case get_spot spot_id d of None \<Rightarrow> Inl (ValueError ''spot does not exist'')
     | Some s \<Rightarrow>
        if sp_status s \<noteq> SPOT_STATUS_DRAFT then Inl (ValueError ''only draft spots can be deleted'')
        else if has_spot_deposit_transactions spot_id d
        then Inl (ValueError ''drafts with deposit history cannot be deleted'')
        else let P = (\<lambda>r. sp_id r = spot_id \<and> sp_status r = SPOT_STATUS_DRAFT) in
          bindE (require_one (count_where P (db_spots d)) ''Failed to delete draft spot'')
            (\<lambda>_. Inr (delete_spots P d)))"

section \<open>The operations keep the integrity of the database\<close>

lemma next_key_index_db: "next_spot_deposit_key_index d = (i, d') \<Longrightarrow> db_ok d' = db_ok d"
  by (auto simp: next_spot_deposit_key_index_def Let_def)

lemma generate_deposit_ok:
  "generate_unique_spot_deposit_record derive d = Inr (r, d') \<Longrightarrow> db_ok d \<Longrightarrow> db_ok d'"
  by (auto simp: generate_unique_spot_deposit_record_def Let_def next_key_index_db split: prod.splits)

lemma create_spot_Inr:
  assumes "create_spot env u pd i d = Inr (k, d')"
  shows "\<exists>r d1. insert_spot r d1 = Inr (k, d')
    \<and> (d1 = d \<or> (\<exists>rec. generate_unique_spot_deposit_record (env_derive env) d = Inr (rec, d1)))
    \<and> sp_status r = SPOT_STATUS_DRAFT \<and> sp_created_by r = u \<and> sp_cancellation_started_at r = None
    \<and> sp_title r = py_strip (in_title i)
    \<and> sp_creation_fee r = configured_spot_creation_fee pd
    \<and> (pd \<or> 1 \<le> sp_max_total_claims r)
    \<and> (sp_use_password r = 1 \<longrightarrow> \<not> pd \<and> 1 \<le> sp_max_total_claims r)
    \<and> (sp_lat r = None \<longleftrightarrow> sp_long r = None)"
  using assms unfolding create_spot_def split_beta Let_def
proof (elim bindE_InrE, goal_cases)
  case p: (1 title radius duration per_user max_total use_password x6 x7 total_value w c g link dr fee)
  have m: "pd \<or> 1 \<le> max_total" "use_password = 1 \<longrightarrow> \<not> pd \<and> 1 \<le> max_total"
    using p(5-8) by (auto simp: valid)
  have c: "fst c = None \<longleftrightarrow> snd c = None" using p(11) by (cases c) (simp add: valid)
  have d: "snd dr = d \<or> (\<exists>rec. generate_unique_spot_deposit_record (env_derive env) d = Inr (rec, snd dr))"
    using p(14) by (cases dr) (auto split: option.splits)
  show ?case
    by (rule exI, rule exI, rule conjI, rule p(16)) (use m c d p(1) in \<open>simp add: valid\<close>)
qed

lemma create_spot_ok:
  assumes "create_spot env u pd i d = Inr (k, d')" and "db_ok d"
  shows "db_ok d'"
  using create_spot_Inr [OF assms(1)] assms(2) by (auto intro: insert_spot_ok generate_deposit_ok)

lemma create_prizedraw_ok:
  assumes "create_prizedraw env u n i d = Inr (k, d')" and "db_ok d"
  shows "db_ok d'"
  using assms unfolding create_prizedraw_def split_beta
  by (elim bindE_InrE) (auto intro: insert_prizedraw_ok create_spot_ok)

lemma set_prize_count_ok: "set_prize_count s n d = Inr d' \<Longrightarrow> db_ok d \<Longrightarrow> db_ok d'"
  by (auto simp: set_prize_count_def intro: update_prize_count_ok)

lemma apply_draft_changes_ok:
  assumes "apply_draft_changes s ch d = Inr d'" and "db_ok d"
  shows "db_ok d'"
proof (cases "\<not> has_updates ch \<and> ch_prize_count ch = None")
  case False
  let ?P = "\<lambda>r. sp_id r = s \<and> sp_status r = SPOT_STATUS_DRAFT"
  obtain d1 d2 where d1: "(if has_updates ch then bindE (update_spots (ch_max_total_claims ch \<noteq> None) True ?P
          (changed_row ch) d) (\<lambda>d'. bindE (require_one (count_where ?P (db_spots d)) ''Failed to update draft spot'')
          (\<lambda>_. Inr d')) else Inr d) = Inr d1"
    and d2: "(case ch_prize_count ch of None \<Rightarrow> Inr d1 | Some n \<Rightarrow> set_prize_count s n d1) = Inr d2"
    and d': "d' = delete_unused_claim_codes_for_spot s d2"
    using assms(1) False unfolding apply_draft_changes_def Let_def by (simp only: if_False) (auto elim!: bindE_InrE)
  have "db_ok d1"
  proof (cases "has_updates ch")
    case True
    then have u: "update_spots (ch_max_total_claims ch \<noteq> None) True ?P (changed_row ch) d = Inr d1"
      using d1 by auto
    show ?thesis by (rule update_spots_ok [OF assms(2) u]) (auto simp: changed_row_def)
  qed (use d1 assms(2) in simp)
  then have "db_ok d2" using d2 by (auto split: option.splits intro: set_prize_count_ok)
  then show ?thesis by (simp add: d' delete_unused_claim_codes_for_spot_def delete_codes_ok)
qed (use assms in \<open>simp add: apply_draft_changes_def\<close>)

lemma modify_draft_spot_ok: "modify_draft_spot res s e d = Inr d' \<Longrightarrow> db_ok d \<Longrightarrow> db_ok d'"
  by (auto simp: modify_draft_spot_def intro: apply_draft_changes_ok)

lemma modify_draft_prizedraw_ok: "modify_draft_prizedraw s n d = Inr d' \<Longrightarrow> db_ok d \<Longrightarrow> db_ok d'"
  by (auto simp: modify_draft_prizedraw_def intro: set_prize_count_ok)

lemma modify_spot_status_ok:
  assumes "modify_spot_status s st d = Inr d'" and "db_ok d"
  shows "db_ok d'"
proof -
  have "update_spots False True (\<lambda>r. sp_id r = s) (\<lambda>r. r\<lparr>sp_status := st\<rparr>) d = Inr d'"
    using assms(1) by (auto simp: modify_spot_status_def Let_def)
  then show ?thesis by (rule update_spots_ok [OF assms(2)]) auto
qed

lemma create_claim_code_ok: "create_claim_code s c d = Inr (i, d') \<Longrightarrow> db_ok d \<Longrightarrow> db_ok d'"
  by (auto simp: create_claim_code_def intro: insert_code_ok)

lemma create_claim_codes_ok: "create_claim_codes s cs d = Inr (is, d') \<Longrightarrow> db_ok d \<Longrightarrow> db_ok d'"
  by (induction cs arbitrary: d "is") (fastforce intro: create_claim_code_ok)+

lemma ensure_claim_codes_ok:
  assumes "ensure_claim_codes_for_publish draws s d = Some (Inr d')" and "db_ok d"
  shows "db_ok d'"
  using assms
  by (auto simp: ensure_claim_codes_for_publish_def Let_def split: option.splits if_splits sum.splits
      intro: delete_codes_ok create_claim_codes_ok)

lemma publish_spot_ok:
  assumes "publish_spot draws s d = Some (Inr d')" and "db_ok d"
  shows "db_ok d'"
proof -
  obtain d1 P where d1: "ensure_claim_codes_for_publish draws s d = Some (Inr d1)"
    and u: "update_spots False True P (\<lambda>r. r\<lparr>sp_starts_at := Some (default_to (db_now d1) (sp_starts_at r)),
              sp_status := SPOT_STATUS_PUBLISHED\<rparr>) d1 = Inr d'"
    using assms(1) by (auto simp: publish_spot_def Let_def split: if_splits option.splits sum.splits)
  show ?thesis by (rule update_spots_ok [OF ensure_claim_codes_ok [OF d1 assms(2)] u]) auto
qed

lemma mark_spot_cancellation_started_ok:
  assumes "mark_spot_cancellation_started s d = Inr (b, d')" and "db_ok d"
  shows "db_ok d'"
proof -
  obtain P where u: "update_spots False False P (\<lambda>r. r\<lparr>sp_cancellation_started_at := Some (db_now d)\<rparr>) d = Inr d'"
    using assms(1) by (auto simp: mark_spot_cancellation_started_def Let_def)
  show ?thesis by (rule update_spots_ok [OF assms(2) u]) auto
qed

lemma clear_spot_cancellation_started_ok:
  "clear_spot_cancellation_started s d = Inr d' \<Longrightarrow> db_ok d \<Longrightarrow> db_ok d'"
  unfolding clear_spot_cancellation_started_def by (erule update_spots_ok [rotated]) auto

lemma delete_draft_spot_ok: "delete_draft_spot s d = Inr d' \<Longrightarrow> db_ok d \<Longrightarrow> db_ok d'"
  by (auto simp: delete_draft_spot_def Let_def split: option.splits if_splits intro: delete_spots_ok)

lemma reserve_draft_creation_ok:
  "reserve_draft_creation u n d = Inr (x, d') \<Longrightarrow> db_ok d \<Longrightarrow> db_ok d'"
  by (auto simp: reserve_draft_creation_def insert_admission_def next_spot_deposit_key_index_def Let_def
      split: if_splits)

lemma consume_draft_creation_ok: "consume_draft_creation r u d = Inr d' \<Longrightarrow> db_ok d \<Longrightarrow> db_ok d'"
  by (auto simp: consume_draft_creation_def Let_def)

section \<open>What an edit changes\<close>

lemma get_spot_update:
  assumes "update_spots m st P f d = Inr d'" and "\<And>r. sp_id (f r) = sp_id r"
  shows "get_spot k d' = map_option (\<lambda>r. if P r then stamp_spot (db_now d) st r (f r) else r) (get_spot k d)"
  using update_spots_Inr(2) [OF assms(1)] by (simp add: get_spot_def find_row_update_where assms(2))

lemma get_spot_cong: "db_spots d' = db_spots d \<Longrightarrow> get_spot k d' = get_spot k d"
  by (simp add: get_spot_def)

lemma require_draft_Inr: "require_draft_spot s d = Inr r \<longleftrightarrow>
   get_spot s d = Some r \<and> sp_status r = SPOT_STATUS_DRAFT \<and> sp_cancellation_started_at r = None"
  by (auto simp: require_draft_spot_def split: option.splits)

lemma validate_given_Inr: "validate_given v x = Inr y \<longleftrightarrow>
    (case x of None \<Rightarrow> y = None | Some a \<Rightarrow> \<exists>b. v a = Inr b \<and> y = Some b)"
  by (auto simp: validate_given_def bindE_Inr_iff split: option.splits)

lemma check_draft_edit_Inr:
  assumes "check_draft_edit res s e d = Inr ch"
  shows "\<exists>r. get_spot s d = Some r \<and> sp_status r = SPOT_STATUS_DRAFT \<and> sp_cancellation_started_at r = None
    \<and> (has_spot_nonfailed_deposit_transactions s d \<longrightarrow> sp_total_value (changed_row ch r) = sp_total_value r)
    \<and> (sp_use_password (changed_row ch r) \<noteq> 0 \<longrightarrow> 0 < sp_max_total_claims (changed_row ch r))
    \<and> (case get_prizedraw s d of None \<Rightarrow> ch_prize_count ch = None
       | Some p \<Rightarrow> sp_use_password (changed_row ch r) = 0 \<and> (sp_max_total_claims (changed_row ch r) \<noteq> 0 \<longrightarrow>
           (0 < sp_max_claims_per_user (changed_row ch r) \<longrightarrow>
              sp_max_claims_per_user (changed_row ch r) < sp_max_total_claims (changed_row ch r))
         \<and> default_to (pd_prize_count p) (ch_prize_count ch) < sp_max_total_claims (changed_row ch r)))"
  using assms unfolding check_draft_edit_def Let_def
proof (elim bindE_InrE, goal_cases)
  case p: (1 r title radius duration per_user max_total use_password prizes u total w c)
  have r: "get_spot s d = Some r" "sp_status r = SPOT_STATUS_DRAFT" "sp_cancellation_started_at r = None"
    using p(1) by (auto simp: require_draft_Inr)
  then have id: "sp_id r = s" by auto
  have total: "has_spot_nonfailed_deposit_transactions s d \<longrightarrow> default_to (sp_total_value r) total = sp_total_value r"
    using p(10) id by (auto simp: check_total_edit_def valid split: option.splits)
  have prize: "case get_prizedraw s d of None \<Rightarrow> ch_prize_count ch = None
     | Some q \<Rightarrow> default_to (sp_use_password r) use_password = 0 \<and> (default_to (sp_max_total_claims r) max_total \<noteq> 0 \<longrightarrow>
         (0 < default_to (sp_max_claims_per_user r) per_user \<longrightarrow>
            default_to (sp_max_claims_per_user r) per_user < default_to (sp_max_total_claims r) max_total)
         \<and> default_to (pd_prize_count q) (ch_prize_count ch) < default_to (sp_max_total_claims r) max_total)"
    using p(8,13) by (auto simp: check_prize_edit_def valid split: option.splits if_splits)
  show ?case
    using r total prize p(9,13) by (auto simp: changed_row_def split: option.splits)
qed

lemma set_prize_count_Inr:
  assumes "set_prize_count s n d = Inr d'"
  shows "d' = d\<lparr>db_prizedraws := update_where (\<lambda>r. pd_spot_id r = s) (\<lambda>r. r\<lparr>pd_prize_count := n\<rparr>) (db_prizedraws d)\<rparr>"
    and "get_prizedraw k d' = map_option (\<lambda>r. if pd_spot_id r = s then r\<lparr>pd_prize_count := n\<rparr> else r) (get_prizedraw k d)"
proof -
  show d': "d' = d\<lparr>db_prizedraws := update_where (\<lambda>r. pd_spot_id r = s) (\<lambda>r. r\<lparr>pd_prize_count := n\<rparr>) (db_prizedraws d)\<rparr>"
    using assms by (auto simp: set_prize_count_def update_prize_count_def Let_def split: if_splits)
  show "get_prizedraw k d' = map_option (\<lambda>r. if pd_spot_id r = s then r\<lparr>pd_prize_count := n\<rparr> else r) (get_prizedraw k d)"
    by (simp add: d' get_prizedraw_def find_row_update_where)
qed

lemma apply_draft_changes_Inr:
  assumes "apply_draft_changes s ch d = Inr d'" and r: "get_spot s d = Some r" "sp_status r = SPOT_STATUS_DRAFT"
  shows "\<exists>r'. get_spot s d' = Some r' \<and> (r' = changed_row ch r \<or> r' = stamp_spot (db_now d) True r (changed_row ch r))"
    and "k \<noteq> s \<Longrightarrow> get_spot k d' = get_spot k d"
    and "get_prizedraw k d' = map_option (\<lambda>p. if pd_spot_id p = s
           then p\<lparr>pd_prize_count := default_to (pd_prize_count p) (ch_prize_count ch)\<rparr> else p) (get_prizedraw k d)"
proof -
  let ?P = "\<lambda>r. sp_id r = s \<and> sp_status r = SPOT_STATUS_DRAFT"
  have none: "changed_row ch r = r" if "\<not> has_updates ch" for r
    using that unfolding has_updates_def not_not
    by (elim conjE) (simp only: changed_row_def default_to_simps fst_conv snd_conv, simp)
  have spots: "get_spot k d' = map_option (\<lambda>r. if has_updates ch \<and> ?P r
      then stamp_spot (db_now d) True r (changed_row ch r) else r) (get_spot k d)
    \<and> get_prizedraw k d' = map_option (\<lambda>p. if pd_spot_id p = s
           then p\<lparr>pd_prize_count := default_to (pd_prize_count p) (ch_prize_count ch)\<rparr> else p) (get_prizedraw k d)" for k
  proof (cases "\<not> has_updates ch \<and> ch_prize_count ch = None")
    case True
    then show ?thesis using assms(1) by (auto simp: apply_draft_changes_def option.map_ident intro!: option.map_ident_strong[symmetric])
  next
    case False
    obtain d1 d2 where d1: "(if has_updates ch then bindE (update_spots (ch_max_total_claims ch \<noteq> None) True ?P
            (changed_row ch) d) (\<lambda>d'. bindE (require_one (count_where ?P (db_spots d)) ''Failed to update draft spot'')
            (\<lambda>_. Inr d')) else Inr d) = Inr d1"
      and d2: "(case ch_prize_count ch of None \<Rightarrow> Inr d1 | Some n \<Rightarrow> set_prize_count s n d1) = Inr d2"
      and d': "d' = delete_unused_claim_codes_for_spot s d2"
      using assms(1) False unfolding apply_draft_changes_def Let_def by (simp only: if_False) (auto elim!: bindE_InrE)
    have del: "db_spots d' = db_spots d2" "db_prizedraws d' = db_prizedraws d2"
      by (simp_all add: d' delete_unused_claim_codes_for_spot_def delete_codes_def Let_def)
    have one: "get_spot k d1 = map_option (\<lambda>r. if has_updates ch \<and> ?P r
        then stamp_spot (db_now d) True r (changed_row ch r) else r) (get_spot k d)
      \<and> db_prizedraws d1 = db_prizedraws d"
    proof (cases "has_updates ch")
      case True
      then have u: "update_spots (ch_max_total_claims ch \<noteq> None) True ?P (changed_row ch) d = Inr d1"
        using d1 by auto
      show ?thesis
        using get_spot_update [OF u, of k] update_spots_Inr(2) [OF u] True by (simp add: changed_row_def)
    next
      case False
      then show ?thesis using d1 by (simp add: option.map_ident)
    qed
    have two: "db_spots d2 = db_spots d1 \<and> get_prizedraw k d2 = map_option (\<lambda>p. if pd_spot_id p = s
           then p\<lparr>pd_prize_count := default_to (pd_prize_count p) (ch_prize_count ch)\<rparr> else p) (get_prizedraw k d1)"
    proof (cases "ch_prize_count ch")
      case None
      then show ?thesis using d2 by (cases "get_prizedraw k d1") auto
    next
      case (Some n)
      then have "set_prize_count s n d1 = Inr d2" using d2 by simp
      then show ?thesis using set_prize_count_Inr [of s n d1 d2] Some by (cases "get_prizedraw k d1") auto
    qed
    show ?thesis using one two del by (simp add: get_spot_def get_prizedraw_def)
  qed
  show "\<exists>r'. get_spot s d' = Some r' \<and> (r' = changed_row ch r \<or> r' = stamp_spot (db_now d) True r (changed_row ch r))"
    using spots [of s] r none by auto
  show "k \<noteq> s \<Longrightarrow> get_spot k d' = get_spot k d"
    using spots [of k] by (cases "get_spot k d") auto
  show "get_prizedraw k d' = map_option (\<lambda>p. if pd_spot_id p = s
           then p\<lparr>pd_prize_count := default_to (pd_prize_count p) (ch_prize_count ch)\<rparr> else p) (get_prizedraw k d)"
    using spots [of k] by simp
qed

end
