(* ===== verification/SpotProps.thy ===== *)
theory SpotProps
  imports SpotWrites
begin

text \<open>
  The properties of the Spot writers: what an edit may change, how drafts are
  admitted and deposit keys allocated, what publishing establishes and what
  deleting a draft leaves behind.
\<close>

section \<open>Editing\<close>

text \<open>
  A successful edit of a draft keeps its identity, link, deposit key, fee
  and status and touches no other Spot; the reward pool stays as it is once a
  deposit was submitted; and the edited draft respects the participant limits
  of a Prizedraw and the cap a password Spot needs.
\<close>

theorem modify_draft_spot_safe:
  assumes "modify_draft_spot res s e d = Inr d'"
  shows "\<exists>r r'. get_spot s d = Some r \<and> get_spot s d' = Some r' \<and> sp_status r = SPOT_STATUS_DRAFT
    \<and> sp_status r' = SPOT_STATUS_DRAFT \<and> sp_created_by r' = sp_created_by r \<and> sp_link r' = sp_link r
    \<and> sp_deposit_address r' = sp_deposit_address r \<and> sp_deposit_key_index r' = sp_deposit_key_index r
    \<and> sp_creation_fee r' = sp_creation_fee r
    \<and> (has_spot_nonfailed_deposit_transactions s d \<longrightarrow> sp_total_value r' = sp_total_value r)
    \<and> (sp_use_password r' \<noteq> 0 \<longrightarrow> 0 < sp_max_total_claims r')
    \<and> (case get_prizedraw s d' of None \<Rightarrow> True
       | Some p \<Rightarrow> sp_use_password r' = 0 \<and> (sp_max_total_claims r' \<noteq> 0 \<longrightarrow>
           (0 < sp_max_claims_per_user r' \<longrightarrow> sp_max_claims_per_user r' < sp_max_total_claims r')
         \<and> pd_prize_count p < sp_max_total_claims r'))
    \<and> (\<forall>k. k \<noteq> s \<longrightarrow> get_spot k d' = get_spot k d)"
proof -
  obtain ch where ch: "check_draft_edit res s e d = Inr ch" "apply_draft_changes s ch d = Inr d'"
    using assms by (auto simp: modify_draft_spot_def)
  obtain r where r: "get_spot s d = Some r" "sp_status r = SPOT_STATUS_DRAFT"
    and c: "has_spot_nonfailed_deposit_transactions s d \<longrightarrow> sp_total_value (changed_row ch r) = sp_total_value r"
      "sp_use_password (changed_row ch r) \<noteq> 0 \<longrightarrow> 0 < sp_max_total_claims (changed_row ch r)"
      "case get_prizedraw s d of None \<Rightarrow> ch_prize_count ch = None
       | Some p \<Rightarrow> sp_use_password (changed_row ch r) = 0 \<and> (sp_max_total_claims (changed_row ch r) \<noteq> 0 \<longrightarrow>
           (0 < sp_max_claims_per_user (changed_row ch r) \<longrightarrow>
              sp_max_claims_per_user (changed_row ch r) < sp_max_total_claims (changed_row ch r))
         \<and> default_to (pd_prize_count p) (ch_prize_count ch) < sp_max_total_claims (changed_row ch r))"
    using check_draft_edit_Inr [OF ch(1)] by blast
  note a = apply_draft_changes_Inr [OF ch(2) r]
  obtain r' where r': "get_spot s d' = Some r'"
    "r' = changed_row ch r \<or> r' = stamp_spot (db_now d) True r (changed_row ch r)" using a(1) by blast
  have same: "sp_status r' = sp_status r" "sp_created_by r' = sp_created_by r" "sp_link r' = sp_link r"
    "sp_deposit_address r' = sp_deposit_address r" "sp_deposit_key_index r' = sp_deposit_key_index r"
    "sp_creation_fee r' = sp_creation_fee r" "sp_total_value r' = sp_total_value (changed_row ch r)"
    "sp_use_password r' = sp_use_password (changed_row ch r)"
    "sp_max_total_claims r' = sp_max_total_claims (changed_row ch r)"
    "sp_max_claims_per_user r' = sp_max_claims_per_user (changed_row ch r)"
    using r'(2) by (auto simp: changed_row_def)
  have pd: "pd_spot_id p = s" if "get_prizedraw s d = Some p" for p
    using that by (auto simp: get_prizedraw_def dest: find_row_SomeD)
  have "case get_prizedraw s d' of None \<Rightarrow> True
       | Some p \<Rightarrow> sp_use_password r' = 0 \<and> (sp_max_total_claims r' \<noteq> 0 \<longrightarrow>
           (0 < sp_max_claims_per_user r' \<longrightarrow> sp_max_claims_per_user r' < sp_max_total_claims r')
         \<and> pd_prize_count p < sp_max_total_claims r')"
    using c(3) pd unfolding a(3) same by (cases "get_prizedraw s d") auto
  then show ?thesis
    using r r'(1) c(1,2) a(2) by (intro exI [of _ r] exI [of _ r']) (simp add: same)
qed

theorem modify_draft_spot_safe_witness:
  "\<exists>d' r r'. modify_draft_spot None 1 (no_edit\<lparr>ed_title := Some '' abcd ''\<rparr>) sample_draft_db = Inr d'
     \<and> get_spot 1 sample_draft_db = Some r \<and> get_spot 1 d' = Some r' \<and> sp_link r' = sp_link r"
proof -
  have "is_ok (modify_draft_spot None 1 (no_edit\<lparr>ed_title := Some '' abcd ''\<rparr>) sample_draft_db)"
    by code_simp
  then obtain d' where "modify_draft_spot None 1 (no_edit\<lparr>ed_title := Some '' abcd ''\<rparr>) sample_draft_db = Inr d'"
    by (auto simp: is_ok_iff)
  then show ?thesis using modify_draft_spot_safe by blast
qed

section \<open>Lowering both limits of a Prizedraw\<close>

text \<open>
  The validation of an edit accepts a Prizedraw whose participant cap and
  prize count are lowered together, but the statements run in the wrong order:
  the new cap is written first, below the old prize count, and the trigger
  aborts the edit.
\<close>

theorem lower_cap_and_prizes_rejected:
  assumes "check_draft_edit res s e d = Inr ch" and "db_ok d"
    and "get_prizedraw s d = Some p" and "ch_max_total_claims ch = Some m"
    and "0 < m" and "m < pd_prize_count p"
  shows "\<exists>x. modify_draft_spot res s e d = Inl (IntegrityError x)"
proof -
  obtain r where r: "get_spot s d = Some r" "sp_status r = SPOT_STATUS_DRAFT"
    using check_draft_edit_Inr [OF assms(1)] by blast
  then have mem: "r \<in> set (db_spots d)" "sp_id r = s" by auto
  have p: "p \<in> set (db_prizedraws d)" "pd_spot_id p = s"
    using assms(3) by (auto simp: get_prizedraw_def dest: find_row_SomeD)
  have "\<not> max_total_trigger_ok d (changed_row ch r)"
    using p mem assms(4-6) by (auto simp: max_total_trigger_ok_def changed_row_def)
  then have "\<not> list_all (\<lambda>r. sp_id r = s \<and> sp_status r = SPOT_STATUS_DRAFT \<longrightarrow>
      max_total_trigger_ok d (changed_row ch r)) (db_spots d)"
    using mem r(2) by (auto simp: list_all_iff)
  then obtain x where "update_spots True True (\<lambda>r. sp_id r = s \<and> sp_status r = SPOT_STATUS_DRAFT) (changed_row ch) d
      = Inl (IntegrityError x)"
    by (simp add: update_spots_def)
  moreover have "has_updates ch" using assms(4) by (simp add: has_updates_def)
  ultimately show ?thesis
    using assms(1,4) by (auto simp: modify_draft_spot_def apply_draft_changes_def Let_def)
qed

definition sample_draw_draft :: db where
  "sample_draw_draft = sample_draw_db\<lparr>
     db_spots := [sample_spot\<lparr>sp_max_total_claims := 20, sp_status := SPOT_STATUS_DRAFT\<rparr>],
     db_prizedraws := [\<lparr>pd_spot_id = 1, pd_prize_count = 10\<rparr>]\<rparr>"

theorem lower_cap_and_prizes_rejected_witness:
  "\<exists>x ch. check_draft_edit None 1 (no_edit\<lparr>ed_max_total_claims := Some 5, ed_prize_count := Some 2\<rparr>) sample_draw_draft = Inr ch
    \<and> ch_prize_count ch = Some 2
    \<and> modify_draft_spot None 1 (no_edit\<lparr>ed_max_total_claims := Some 5, ed_prize_count := Some 2\<rparr>) sample_draw_draft
      = Inl (IntegrityError x)"
proof -
  let ?e = "no_edit\<lparr>ed_max_total_claims := Some 5, ed_prize_count := Some 2\<rparr>"
  have "case check_draft_edit None 1 ?e sample_draw_draft of Inl _ \<Rightarrow> False
      | Inr ch \<Rightarrow> ch_max_total_claims ch = Some 5 \<and> ch_prize_count ch = Some 2" by code_simp
  then obtain ch where ch: "check_draft_edit None 1 ?e sample_draw_draft = Inr ch"
      "ch_max_total_claims ch = Some 5" "ch_prize_count ch = Some 2" by (auto split: sum.splits)
  have "db_ok sample_draw_draft"
    by (simp add: sample_draw_draft_def sample_defs db_ok_defs user_check_def spot_check_def trans_check_def
        unique_on_def const_defs has_user_def has_spot_def claim_payout_slot_def cancellation_slot_def
        creation_fee_slot_def remainder_refund_slot_def prizedraw_check_def prize_count_trigger_ok_def)
  then show ?thesis
    using ch lower_cap_and_prizes_rejected [OF ch(1), of "\<lparr>pd_spot_id = 1, pd_prize_count = 10\<rparr>" 5]
    by (auto simp: sample_draw_draft_def get_prizedraw_def)
qed

section \<open>Draft admission\<close>

text \<open>Every key index given out so far lies below the sequence.\<close>

definition keys_below :: "db \<Rightarrow> bool" where
  "keys_below d \<longleftrightarrow> (case db_next_key_index d of
     None \<Rightarrow> db_admissions d = []
   | Some n \<Rightarrow> list_all (\<lambda>k. k < n) (somes sp_deposit_key_index (db_spots d))
            \<and> list_all (\<lambda>a. da_key_index a < n) (db_admissions d))"

lemma next_key_fresh:
  assumes "keys_below d" and "next_spot_deposit_key_index d = (k, d')"
  shows "k \<notin> set (somes sp_deposit_key_index (db_spots d))" and "k \<notin> da_key_index ` set (db_admissions d)"
    and "db_next_key_index d' = Some (k + 1)"
    and "list_all (\<lambda>i. i < k) (somes sp_deposit_key_index (db_spots d))"
    and "list_all (\<lambda>a. da_key_index a < k) (db_admissions d)"
    and "\<And>n. db_next_key_index d = Some n \<Longrightarrow> n = k"
  using assms foldr_max_ge(2) [of _ "somes sp_deposit_key_index (db_spots d)" "- 1"]
  by (fastforce simp: keys_below_def next_spot_deposit_key_index_def Let_def list_all_iff split: option.splits)+

text \<open>
  C15: A draft reservation is granted only while fewer than 200 live reservations
  exist and fewer than 10 of this user; the key index it hands out was never
  handed out before, to a Spot or to a reservation, and the sequence moves past it.
\<close>

theorem reserve_draft_creation_fresh:
  assumes "reserve_draft_creation u now d = Inr (Some (i, k), d')" and "keys_below d"
  shows "k \<notin> set (somes sp_deposit_key_index (db_spots d)) \<and> k \<notin> da_key_index ` set (db_admissions d)
    \<and> db_next_key_index d' = Some (k + 1) \<and> (\<forall>n. db_next_key_index d = Some n \<longrightarrow> n \<le> k) \<and> keys_below d'
    \<and> count_where (\<lambda>_. True) (db_admissions d') \<le> 200
    \<and> count_where (\<lambda>a. da_user_id a = u) (db_admissions d') \<le> 10"
proof -
  let ?t = "case now of None \<Rightarrow> db_now d | Some n \<Rightarrow> n"
  let ?d1 = "d\<lparr>db_admissions := filter (\<lambda>a. \<not> stale_admission ?t a) (db_admissions d)\<rparr>"
  obtain d2 where k: "next_spot_deposit_key_index ?d1 = (k, d2)"
    and ins: "insert_admission \<lparr>da_id = 0, da_user_id = u, da_key_index = k,
                   da_status = AdmissionPending, da_created_at = ?t, da_consumed_at = None\<rparr> d2 = Inr (i, d')"
    and lim: "count_where (\<lambda>_. True) (db_admissions ?d1) < 200"
      "count_where (\<lambda>a. da_user_id a = u) (db_admissions ?d1) < 10"
    using assms(1) by (auto simp: reserve_draft_creation_def Let_def const_defs not_le split: if_splits prod.splits)
  have below: "keys_below ?d1" using assms(2) by (auto simp: keys_below_def list_all_iff split: option.splits)
  note f = next_key_fresh [OF assms(2), of k "snd (next_spot_deposit_key_index d)"]
  have k0: "next_spot_deposit_key_index d = (k, snd (next_spot_deposit_key_index d))"
    using k by (auto simp: next_spot_deposit_key_index_def Let_def cong: option.case_cong)
  have d2: "d2 = ?d1\<lparr>db_next_key_index := Some (k + 1)\<rparr>"
    using k by (auto simp: next_spot_deposit_key_index_def Let_def)
  have d': "db_admissions d' = db_admissions ?d1 @ [\<lparr>da_id = i, da_user_id = u, da_key_index = k,
                   da_status = AdmissionPending, da_created_at = ?t, da_consumed_at = None\<rparr>]"
      "db_spots d' = db_spots d" "db_next_key_index d' = Some (k + 1)"
    using ins by (auto simp: insert_admission_def Let_def d2 split: if_splits)
  have "keys_below d'"
    using f(4,5) [OF k0] by (fastforce simp: keys_below_def d' list_all_iff)
  then show ?thesis using f(1,2,6) [OF k0] lim d' by auto
qed

theorem reserve_draft_creation_fresh_witness:
  "\<exists>d' i. reserve_draft_creation 2 None sample_db = Inr (Some (i, 1), d') \<and> keys_below d'"
proof -
  have "case reserve_draft_creation 2 None sample_db of Inr (Some (i, k), d') \<Rightarrow> k = 1 | _ \<Rightarrow> False"
    by code_simp
  then obtain i d' where r: "reserve_draft_creation 2 None sample_db = Inr (Some (i, 1), d')"
    by (auto split: sum.splits option.splits prod.splits)
  have "keys_below sample_db" by (simp add: keys_below_def sample_defs)
  then show ?thesis using reserve_draft_creation_fresh [OF r] r by blast
qed

section \<open>Claim codes at publication\<close>

definition spot_codes :: "int \<Rightarrow> db \<Rightarrow> code_row list" where
  "spot_codes s d = filter (\<lambda>k. cc_spot_id k = s) (db_codes d)"

lemma length_get_claim_codes: "has_spot d s \<Longrightarrow> length (get_claim_codes s d) = length (spot_codes s d)"
  by (auto simp: get_claim_codes_def view_claim_code_detail_def spot_codes_def intro!: arg_cong [where f = length] filter_cong)

lemma set_get_claim_codes: "has_spot d s \<Longrightarrow> set (get_claim_codes s d) = set (spot_codes s d)"
  by (auto simp: get_claim_codes_def view_claim_code_detail_def spot_codes_def)

lemma create_claim_code_spot_codes:
  "create_claim_code s c d = Inr (i, d') \<Longrightarrow> length (spot_codes s d') = Suc (length (spot_codes s d)) \<and> db_spots d' = db_spots d"
  by (auto simp: create_claim_code_def insert_code_def Let_def spot_codes_def split: if_splits)

lemma create_claim_codes_spot_codes:
  "create_claim_codes s cs d = Inr (is, d') \<Longrightarrow>
   length (spot_codes s d') = length (spot_codes s d) + length cs \<and> db_spots d' = db_spots d"
proof (induction cs arbitrary: d "is")
  case (Cons c cs)
  then obtain i d1 js where "create_claim_code s c d = Inr (i, d1)" "create_claim_codes s cs d1 = Inr (js, d')"
    by (auto split: prod.splits)
  then show ?case using Cons.IH create_claim_code_spot_codes [of s c d i d1] by simp
qed simp

lemma generate_length:
  "generate_unique_claim_codes s n seen codes draws d = Some (Inr out) \<Longrightarrow> int (length codes) \<le> n \<Longrightarrow>
   int (length out) = n"
proof (induction s n seen codes draws d rule: generate_unique_claim_codes.induct)
  case (1 s n seen codes draws d)
  show ?case
    using "1.prems" "1.IH"
    by (subst (asm) generate_unique_claim_codes.simps) (auto split: if_splits list.splits sum.splits)
qed

lemma trim_codes_length:
  assumes ids: "distinct (map cc_id (db_codes d))" and spot: "has_spot d s"
    and rows: "rows = get_claim_codes s d" "unused = filter (\<lambda>k. cc_used_by k = None) rows"
    and n: "n \<le> length unused"
  shows "length (spot_codes s (delete_codes (\<lambda>k. cc_id k \<in> set (map cc_id (rev (take n unused))) \<and> cc_used_by k = None) d))
    = length (spot_codes s d) - n"
proof -
  let ?gone = "set (take n unused)"
  have dr: "distinct (map cc_id rows)"
    using ids by (auto simp: rows(1) get_claim_codes_def view_claim_code_detail_def distinct_map inj_on_def)
  then have du: "distinct (map cc_id unused)" by (simp add: rows(2) distinct_map_filter)
  have sub: "?gone \<subseteq> set (spot_codes s d)"
    using set_take_subset [of n unused] set_get_claim_codes [OF spot] by (auto simp: rows)
  have unusedN: "cc_used_by k = None" if "k \<in> ?gone" for k
    using that set_take_subset [of n unused] by (auto simp: rows(2))
  have eq: "(cc_id k \<in> cc_id ` ?gone \<and> cc_used_by k = None) = (k \<in> ?gone)" if "k \<in> set (spot_codes s d)" for k
    using that sub unusedN ids by (auto simp: spot_codes_def distinct_map inj_on_def)
  have "spot_codes s (delete_codes (\<lambda>k. cc_id k \<in> set (map cc_id (rev (take n unused))) \<and> cc_used_by k = None) d)
      = filter (\<lambda>k. k \<notin> ?gone) (spot_codes s d)"
    unfolding spot_codes_def delete_codes_def Let_def
  proof (simp, rule filter_cong [OF refl])
    fix k assume "k \<in> set (db_codes d)"
    then show "((cc_id k \<in> cc_id ` ?gone \<longrightarrow> (\<exists>y. cc_used_by k = Some y)) \<and> cc_spot_id k = s)
      = (cc_spot_id k = s \<and> k \<notin> ?gone)"
      using eq [of k] by (auto simp: spot_codes_def)
  qed
  moreover have "distinct (spot_codes s d)" using ids by (simp add: spot_codes_def distinct_map)
  then have "length (filter (\<lambda>k. k \<notin> ?gone) (spot_codes s d)) = card (set (spot_codes s d) - ?gone)"
    by (metis distinct_card distinct_filter set_diff_eq set_filter)
  moreover have "card (set (spot_codes s d) - ?gone) = length (spot_codes s d) - n"
  proof -
    have "card ?gone = n" using du n by (simp add: distinct_card distinct_map distinct_take)
    then show ?thesis using sub \<open>distinct (spot_codes s d)\<close>
      by (simp add: card_Diff_subset distinct_card)
  qed
  ultimately show ?thesis by simp
qed

lemma delete_codes_spots [simp]: "db_spots (delete_codes P d) = db_spots d"
  by (simp add: delete_codes_def Let_def)

lemma ensure_claim_codes_exact:
  assumes "ensure_claim_codes_for_publish draws s d = Some (Inr d')" and ok: "db_ok d"
    and r: "get_spot s d = Some r"
  shows "db_spots d' = db_spots d" and "sp_use_password r = 1 \<Longrightarrow> int (length (spot_codes s d')) = sp_max_total_claims r"
proof -
  have hs: "has_spot d s" using r by (simp add: has_spot_def get_spot_def)
  have ids: "distinct (map cc_id (db_codes d))" using ok by (simp add: db_ok_def codes_ok_def)
  let ?rows = "get_claim_codes s d" and ?t = "sp_max_total_claims r"
  let ?unused = "filter (\<lambda>k. cc_used_by k = None) ?rows"
  let ?n = "nat (int (length ?rows) - ?t)"
  let ?d1 = "if ?t < int (length ?rows) then delete_codes (\<lambda>k. cc_id k \<in> set (map cc_id (rev (take ?n ?unused)))
      \<and> cc_used_by k = None) d else d"
  have len: "length ?rows = length (spot_codes s d)" by (rule length_get_claim_codes [OF hs])
  show "db_spots d' = db_spots d"
    using assms(1) r
    by (auto simp: ensure_claim_codes_for_publish_def Let_def dest: create_claim_codes_spot_codes
        split: if_splits option.splits sum.splits)
  assume pw: "sp_use_password r = 1"
  have t: "0 < ?t" and used: "int (length ?rows) - int (length ?unused) \<le> ?t"
    and fin: "(if int (length ?rows) < ?t
      then (case generate_unique_claim_codes s (?t - int (length ?rows)) [] [] draws ?d1 of
               None \<Rightarrow> None | Some (Inl e) \<Rightarrow> Some (Inl e)
             | Some (Inr codes) \<Rightarrow> Some (bindE (create_claim_codes s codes ?d1) (\<lambda>(_, d2). Inr d2)))
      else Some (Inr ?d1)) = Some (Inr d')"
    using assms(1) r pw
    by (auto simp: ensure_claim_codes_for_publish_def Let_def not_less split: if_splits)
  have trim: "?t < int (length ?rows) \<Longrightarrow> length (spot_codes s ?d1) = length (spot_codes s d) - ?n"
    using trim_codes_length [OF ids hs refl refl, of ?n] used t by simp
  show "int (length (spot_codes s d')) = ?t"
  proof (cases "int (length ?rows) < ?t")
    case True
    then obtain codes js where g: "generate_unique_claim_codes s (?t - int (length ?rows)) [] [] draws d = Some (Inr codes)"
        and c: "create_claim_codes s codes d = Inr (js, d')"
      using fin by (auto split: option.splits sum.splits prod.splits)
    show ?thesis
      using generate_length [OF g] create_claim_codes_spot_codes [OF c] True len by simp
  next
    case False
    then have d': "d' = ?d1" using fin by simp
    show ?thesis
    proof (cases "?t < int (length ?rows)")
      case True
      then show ?thesis using trim len t unfolding d' by simp
    next
      case f: False
      then show ?thesis using False len d' by simp
    qed
  qed
qed

section \<open>Publishing\<close>

lemma create_claim_codes_now: "create_claim_codes s cs d = Inr (is, d') \<Longrightarrow> db_now d' = db_now d"
proof (induction cs arbitrary: d "is")
  case (Cons c cs)
  then obtain i d1 js where "create_claim_code s c d = Inr (i, d1)" "create_claim_codes s cs d1 = Inr (js, d')"
    by (auto split: prod.splits)
  then show ?case using Cons.IH
    by (fastforce simp: create_claim_code_def insert_code_def Let_def split: if_splits)
qed simp

text \<open>
  C13: Publishing turns one complete draft of an active creator into a
  published Spot: its confirmed deposits cover the reward pool and the creation
  fee, its start is stamped, no other Spot changes, and a password Spot has
  exactly one claim code per possible claim.
\<close>

theorem publish_spot_funded:
  assumes "publish_spot draws s d = Some (Inr d')" and "db_ok d"
  shows "\<exists>r r'. get_spot s d = Some r \<and> get_spot s d' = Some r'
    \<and> sp_status r = SPOT_STATUS_DRAFT \<and> sp_status r' = SPOT_STATUS_PUBLISHED
    \<and> sp_cancellation_started_at r' = None \<and> can_user_create_spot (sp_created_by r) d
    \<and> sp_starts_at r' = Some (default_to (db_now d) (sp_starts_at r))
    \<and> sp_total_value r' = sp_total_value r \<and> sp_max_total_claims r' = sp_max_total_claims r
    \<and> sp_total_value r + sp_creation_fee r \<le> get_confirmed_spot_deposit_total s d
    \<and> (sp_use_password r = 1 \<longrightarrow> int (length (spot_codes s d')) = sp_max_total_claims r)
    \<and> (\<forall>k. k \<noteq> s \<longrightarrow> get_spot k d' = get_spot k d)"
proof -
  obtain d1 where can: "can_publish_spot s d" and e: "ensure_claim_codes_for_publish draws s d = Some (Inr d1)"
    and u: "update_spots False True (\<lambda>r. sp_id r = s \<and> sp_status r = SPOT_STATUS_DRAFT \<and> sp_cancellation_started_at r = None)
              (\<lambda>r. r\<lparr>sp_starts_at := Some (default_to (db_now d1) (sp_starts_at r)),
                     sp_status := SPOT_STATUS_PUBLISHED\<rparr>) d1 = Inr d'"
    using assms(1) by (auto simp: publish_spot_def Let_def split: if_splits option.splits sum.splits)
  obtain r where r: "get_spot s d = Some r" "sp_status r = SPOT_STATUS_DRAFT" "sp_cancellation_started_at r = None"
      "can_user_create_spot (sp_created_by r) d"
      "spot_required_deposit_amount r \<le> get_confirmed_spot_deposit_total s d"
    using can by (rule can_publish_spotD) auto
  note ens = ensure_claim_codes_exact [OF e assms(2) r(1)]
  have now: "db_now d1 = db_now d"
    using e by (auto simp: ensure_claim_codes_for_publish_def Let_def delete_codes_def
        dest!: create_claim_codes_now split: if_splits option.splits sum.splits)
  have d': "d' = d1\<lparr>db_spots := db_spots d'\<rparr>" using update_spots_Inr(2) [OF u] by simp
  have codes: "spot_codes s d' = spot_codes s d1" by (subst d') (simp add: spot_codes_def)
  have get: "get_spot k d' = map_option (\<lambda>q. if sp_id q = s \<and> sp_status q = SPOT_STATUS_DRAFT \<and> sp_cancellation_started_at q = None
      then stamp_spot (db_now d1) True q (q\<lparr>sp_starts_at := Some (default_to (db_now d1) (sp_starts_at q)),
              sp_status := SPOT_STATUS_PUBLISHED\<rparr>) else q) (get_spot k d)" for k
    using get_spot_update [OF u, of k] by (simp add: get_spot_cong [OF ens(1)])
  have id: "sp_id r = s" using r(1) by auto
  have fee: "sp_total_value r + sp_creation_fee r \<le> get_confirmed_spot_deposit_total s d"
    using r(5) by (simp add: spot_required_deposit_amount_def spot_creation_fee_amount_def)
  have "get_spot k d' = get_spot k d" if "k \<noteq> s" for k
    using get [of k] that by (cases "get_spot k d") auto
  moreover obtain r' where "get_spot s d' = Some r'"
      and r': "r' = stamp_spot (db_now d1) True r (r\<lparr>sp_starts_at := Some (default_to (db_now d1) (sp_starts_at r)),
              sp_status := SPOT_STATUS_PUBLISHED\<rparr>)"
    using get [of s] r id by auto
  ultimately show ?thesis
    using r fee ens(2) now by (intro exI [of _ r] exI [of _ r']) (simp add: codes r')
qed

definition sample_password_draft :: db where
  "sample_password_draft = sample_db\<lparr>db_spots := [sample_spot\<lparr>sp_status := SPOT_STATUS_DRAFT,
     sp_starts_at := None, sp_use_password := 1, sp_max_total_claims := 2\<rparr>]\<rparr>"

theorem publish_spot_funded_witness:
  "\<exists>d' r'. publish_spot [''AAAAAAAAA1'', ''AAAAAAAAA1'', ''AAAAAAAAA2''] 1 sample_password_draft = Some (Inr d')
     \<and> get_spot 1 d' = Some r' \<and> sp_status r' = SPOT_STATUS_PUBLISHED"
proof -
  let ?draws = "[''AAAAAAAAA1'', ''AAAAAAAAA1'', ''AAAAAAAAA2'']"
  have "returns_ok (publish_spot ?draws 1 sample_password_draft)" by code_simp
  then obtain d' where p: "publish_spot ?draws 1 sample_password_draft = Some (Inr d')"
    by (auto simp: returns_ok_iff)
  have "db_ok sample_password_draft"
    by (simp add: sample_password_draft_def sample_defs db_ok_defs user_check_def spot_check_def trans_check_def
        unique_on_def const_defs has_user_def has_spot_def claim_payout_slot_def cancellation_slot_def
        creation_fee_slot_def remainder_refund_slot_def)
  then show ?thesis using publish_spot_funded [OF p] p by blast
qed

section \<open>Deleting a draft\<close>

text \<open>
  Only a draft that never saw a deposit can be deleted; with it go its
  Prizedraw, claims, codes and reports, while every transaction row stays in
  the ledger with the same amount, status and hash.
\<close>

theorem delete_draft_spot_keeps_ledger:
  assumes "delete_draft_spot s d = Inr d'" and "db_ok d"
  shows "get_spot s d' = None \<and> \<not> has_spot_deposit_transactions s d
    \<and> (\<forall>c\<in>set (db_claims d'). cl_spot_id c \<noteq> s) \<and> (\<forall>k\<in>set (db_codes d'). cc_spot_id k \<noteq> s)
    \<and> map tr_id (db_trans d') = map tr_id (db_trans d) \<and> map tr_amount (db_trans d') = map tr_amount (db_trans d)
    \<and> map tr_status (db_trans d') = map tr_status (db_trans d) \<and> map tr_tx_hash (db_trans d') = map tr_tx_hash (db_trans d)
    \<and> (\<forall>k. k \<noteq> s \<longrightarrow> get_spot k d' = get_spot k d) \<and> db_ok d'"
proof -
  let ?P = "\<lambda>r. sp_id r = s \<and> sp_status r = SPOT_STATUS_DRAFT"
  obtain r where r: "get_spot s d = Some r" "sp_status r = SPOT_STATUS_DRAFT" "\<not> has_spot_deposit_transactions s d"
    and d': "d' = delete_spots ?P d"
    using assms(1) by (auto simp: delete_draft_spot_def Let_def split: option.splits if_splits)
  have dist: "distinct (map sp_id (db_spots d))" using assms(2) by (simp add: db_ok_def spots_ok_def)
  have mem: "r \<in> set (db_spots d)" "sp_id r = s" using r(1) by auto
  have only: "q = r" if "q \<in> set (db_spots d)" "sp_id q = s" for q
    using dist mem that by (auto simp: distinct_map inj_on_def)
  have gone: "gone_spots ?P d = {s}" using mem r(2) by (auto simp: gone_spots_def image_iff)
  have "get_spot s d' = None" using only r(2) by (auto simp: get_spot_def d' delete_spots_sel find_row_None_iff)
  moreover have "get_spot k d' = get_spot k d" if k: "k \<noteq> s" for k
  proof (cases "get_spot k d")
    case None
    then have "get_spot k d' = None" by (auto simp: get_spot_def d' delete_spots_sel find_row_None_iff)
    then show ?thesis using None by simp
  next
    case (Some q)
    then have "find_row sp_id k (filter (\<lambda>r. \<not> ?P r) (db_spots d)) = Some q"
      using k by (intro find_row_filter_keep [OF dist]) (auto simp: get_spot_def dest: find_row_SomeD)
    then show ?thesis using Some by (simp add: get_spot_def d' delete_spots_sel)
  qed
  moreover have "\<forall>c\<in>set (db_claims d'). cl_spot_id c \<noteq> s" "\<forall>k\<in>set (db_codes d'). cc_spot_id k \<noteq> s"
    using gone by (auto simp: d' delete_spots_sel(4) delete_spots_tables(1))
  moreover have "map tr_id (db_trans d') = map tr_id (db_trans d)" "map tr_amount (db_trans d') = map tr_amount (db_trans d)"
    "map tr_status (db_trans d') = map tr_status (db_trans d)" "map tr_tx_hash (db_trans d') = map tr_tx_hash (db_trans d)"
    by (simp_all add: d' delete_spots_tables(3) map_update_where)
  ultimately show ?thesis using r(3) delete_draft_spot_ok [OF assms] by blast
qed

theorem delete_draft_spot_keeps_ledger_witness:
  "\<exists>d'. delete_draft_spot 1 (sample_draft_db\<lparr>db_trans := []\<rparr>) = Inr d' \<and> get_spot 1 d' = None"
proof -
  let ?d = "sample_draft_db\<lparr>db_trans := []\<rparr>"
  have "is_ok (delete_draft_spot 1 ?d)" by code_simp
  then obtain d' where p: "delete_draft_spot 1 ?d = Inr d'" by (auto simp: is_ok_iff)
  have "db_ok ?d"
    by (simp add: sample_defs db_ok_defs user_check_def spot_check_def unique_on_def const_defs has_user_def)
  then show ?thesis using delete_draft_spot_keeps_ledger [OF p] p by blast
qed

end
