(* ===== verification/LocationBehaviour.thy ===== *)
theory LocationBehaviour
  imports ClaimReads
begin

text \<open>
  \<^verbatim>\<open>location_behavior_guard.py\<close> and the decision log of \<^verbatim>\<open>security_events.py\<close>:
  bounded evidence of a user who keeps appearing at the exact centre of rewards,
  a restriction of fixed length once three centres and a streak of four
  locations have matured, and its expiry.
\<close>

section \<open>Decision log\<close>

definition EVENT_RETENTION_SECONDS :: int where
  [const_defs]: "EVENT_RETENTION_SECONDS = 90 * 24 * 60 * 60"

definition prune_expired :: "int \<Rightarrow> db \<Rightarrow> db" where
  "prune_expired now d = d\<lparr>db_events := filter (\<lambda>e. \<not> (ev_created_at e < now - EVENT_RETENTION_SECONDS
     \<and> \<not> (ev_decision e = AutomaticBan
          \<and> (case find_row us_id (ev_user_id e) (db_users d) of None \<Rightarrow> False
             | Some u \<Rightarrow> us_status u = USER_STATUS_BANNED)))) (db_events d)\<rparr>"

definition episode_boundary :: "event_row \<Rightarrow> int" where
  "episode_boundary e = (case ev_expires_at e of Some t \<Rightarrow> t | None \<Rightarrow> ev_created_at e)"

definition episode_key :: "event_row \<Rightarrow> int \<times> string \<times> decision_type \<times> int" where
  "episode_key e = (ev_user_id e, ev_code e, ev_decision e, episode_boundary e)"

definition record_decision ::
  "int \<Rightarrow> string \<Rightarrow> decision_type \<Rightarrow> int \<Rightarrow> int option \<Rightarrow> db \<Rightarrow> (int option \<times> db) res" where
  "record_decision user_id code decision created_at expires_at d =
    (let c = take 80 (py_strip code) in
     if c = [] then Inl (ValueError ''security event code is required'')
     else let d1 = prune_expired created_at d;
              i = next_id (db_event_seq d1) (map ev_id (db_events d1));
              e = \<lparr>ev_id = i, ev_user_id = user_id, ev_code = c, ev_decision = decision,
                   ev_created_at = created_at, ev_expires_at = expires_at\<rparr>
          in if episode_key e \<in> episode_key ` set (db_events d1) then Inr (None, d1)
             else if \<not> has_user d1 user_id then Inl (IntegrityError ''FOREIGN KEY constraint failed'')
             else Inr (Some i, d1\<lparr>db_events := db_events d1 @ [e], db_event_seq := i\<rparr>))"

section \<open>Evidence\<close>

definition NEAR_EXACT_CENTRE_METRES :: rat where
  [const_defs]: "NEAR_EXACT_CENTRE_METRES = 3 / 2"

definition CENTRE_DISTINCT_LOCATIONS_REQUIRED :: nat where
  [const_defs]: "CENTRE_DISTINCT_LOCATIONS_REQUIRED = 3"

definition INSIDE_STREAK_LOCATIONS_REQUIRED :: nat where
  [const_defs]: "INSIDE_STREAK_LOCATIONS_REQUIRED = 4"

definition SAME_REWARD_LOCATION_METRES :: rat where
  [const_defs]: "SAME_REWARD_LOCATION_METRES = 25"

definition SIGNED_RETRY_WINDOW_SECONDS :: int where
  [const_defs]: "SIGNED_RETRY_WINDOW_SECONDS = 30 * 60"

definition OUTSIDE_POLL_WINDOW_SECONDS :: int where
  [const_defs]: "OUTSIDE_POLL_WINDOW_SECONDS = 6 * 60 * 60"

definition TEMPORARY_RESTRICTION_SECONDS :: int where
  [const_defs]: "TEMPORARY_RESTRICTION_SECONDS = 24 * 60 * 60"

definition empty_behaviour :: behaviour_doc where
  "empty_behaviour = \<lparr>lb_version = 2, lb_meaningful = 0, lb_signed_inside = 0, lb_browser_outside = 0,
     lb_centre_spots = [], lb_streak_spots = [], lb_outside_since_inside = True,
     lb_last_signed_spot = None, lb_last_signed_at = None, lb_last_outside_at = None,
     lb_restricted_until = None\<rparr>"

definition saturated :: "int \<Rightarrow> int \<Rightarrow> int" where
  "saturated value increment = min 255 (max 0 value + increment)"

definition migrate_behaviour :: "behaviour_doc option \<Rightarrow> behaviour_doc" where
  "migrate_behaviour value =
    (case value of None \<Rightarrow> empty_behaviour
     | Some v \<Rightarrow>
        if lb_version v \<noteq> 2
        then empty_behaviour\<lparr>lb_meaningful := saturated (lb_meaningful v) 0,
               lb_signed_inside := saturated (lb_signed_inside v) 0,
               lb_browser_outside := saturated (lb_browser_outside v) 0,
               lb_restricted_until := Some (max 0 (case lb_restricted_until v of None \<Rightarrow> 0 | Some t \<Rightarrow> t))\<rparr>
        else v\<lparr>lb_version := 2,
               lb_centre_spots := take CENTRE_DISTINCT_LOCATIONS_REQUIRED (lb_centre_spots v),
               lb_streak_spots := take INSIDE_STREAK_LOCATIONS_REQUIRED (lb_streak_spots v),
               lb_meaningful := saturated (lb_meaningful v) 0,
               lb_signed_inside := saturated (lb_signed_inside v) 0,
               lb_browser_outside := saturated (lb_browser_outside v) 0\<rparr>)"

definition get_behaviour :: "int \<Rightarrow> db \<Rightarrow> behaviour_doc" where
  "get_behaviour user_id d = migrate_behaviour (map_of (db_behaviour d) user_id)"

definition save_behaviour :: "int \<Rightarrow> behaviour_doc \<Rightarrow> db \<Rightarrow> db" where
  "save_behaviour user_id state d =
     d\<lparr>db_behaviour := (user_id, migrate_behaviour (Some state)) # filter (\<lambda>p. fst p \<noteq> user_id) (db_behaviour d)\<rparr>"

definition claimable_public_spots :: "int \<Rightarrow> db \<Rightarrow> spot_row list" where
  "claimable_public_spots user_id d = filter (\<lambda>s. is_spot_claim_capacity_available (sp_id s) d)
     (map sv_spot (filter (\<lambda>v. pv_availability_rank v = 0 \<and> sp_use_password (sv_spot v) = 0
        \<and> sp_created_by (sv_spot v) \<noteq> user_id) (view_public_spot_list d)))"

definition spot_metres :: "distance_fun \<Rightarrow> rat \<Rightarrow> rat \<Rightarrow> spot_row \<Rightarrow> rat" where
  "spot_metres metres lat long s = metres lat long (the (sp_lat s)) (the (sp_long s))"

definition inside_any :: "distance_fun \<Rightarrow> spot_row list \<Rightarrow> rat \<Rightarrow> rat \<Rightarrow> bool" where
  "inside_any metres spots lat long \<longleftrightarrow>
     list_ex (\<lambda>s. spot_metres metres lat long s \<le> max 0 (of_int (sp_radius s))) spots"

definition same_reward_location :: "distance_fun \<Rightarrow> spot_row \<Rightarrow> int list \<Rightarrow> db \<Rightarrow> bool" where
  "same_reward_location metres spot prior_spot_ids d \<longleftrightarrow> list_ex (\<lambda>prior_id.
     prior_id = sp_id spot
     \<or> (case get_spot prior_id d of None \<Rightarrow> False
        | Some prior \<Rightarrow> sp_lat prior \<noteq> None \<and> sp_long prior \<noteq> None
            \<and> metres (the (sp_lat spot)) (the (sp_long spot)) (the (sp_lat prior)) (the (sp_long prior))
              \<le> SAME_REWARD_LOCATION_METRES)) prior_spot_ids"

definition currently_restricted :: "behaviour_doc \<Rightarrow> int \<Rightarrow> bool" where
  "currently_restricted state now \<longleftrightarrow> now < (case lb_restricted_until state of None \<Rightarrow> 0 | Some t \<Rightarrow> t)"

definition new_evidence_matured :: "behaviour_doc \<Rightarrow> bool" where
  "new_evidence_matured state \<longleftrightarrow>
     CENTRE_DISTINCT_LOCATIONS_REQUIRED \<le> length (lb_centre_spots state)
   \<and> INSIDE_STREAK_LOCATIONS_REQUIRED \<le> length (lb_streak_spots state)"

definition consume_episode :: "int \<Rightarrow> behaviour_doc \<Rightarrow> behaviour_doc" where
  "consume_episode now state = state\<lparr>lb_restricted_until := Some (now + TEMPORARY_RESTRICTION_SECONDS),
     lb_centre_spots := [], lb_streak_spots := [], lb_outside_since_inside := True,
     lb_last_signed_spot := None, lb_last_signed_at := None\<rparr>"

section \<open>Observations\<close>

definition observe_find_location ::
  "distance_fun \<Rightarrow> int \<Rightarrow> rat \<Rightarrow> rat \<Rightarrow> int \<Rightarrow> db \<Rightarrow> behaviour_doc \<times> db" where
  "observe_find_location metres user_id lat long now d =
    (let state = get_behaviour user_id d in
     if inside_any metres (claimable_public_spots user_id d) lat long then (state, d)
     else let transition = (\<not> lb_outside_since_inside state);
              recently_outside = (now - (case lb_last_outside_at state of None \<Rightarrow> 0 | Some t \<Rightarrow> t)
                                  < OUTSIDE_POLL_WINDOW_SECONDS)
       in if \<not> transition \<and> recently_outside then (state, d)
          else let s1 = state\<lparr>lb_meaningful := saturated (lb_meaningful state) 1,
                   lb_browser_outside := saturated (lb_browser_outside state) 1,
                   lb_outside_since_inside := True, lb_streak_spots := []\<rparr>;
                   s2 = (if transition then s1\<lparr>lb_last_signed_spot := None, lb_last_signed_at := None\<rparr> else s1);
                   s3 = s2\<lparr>lb_last_outside_at := Some now\<rparr>
               in (s3, save_behaviour user_id s3 d))"

definition record_inside ::
  "distance_fun \<Rightarrow> spot_row \<Rightarrow> rat \<Rightarrow> int \<Rightarrow> db \<Rightarrow> behaviour_doc \<Rightarrow> behaviour_doc" where
  "record_inside metres spot distance now d state =
    (let streak = lb_streak_spots state; centres = lb_centre_spots state;
         s1 = (if same_reward_location metres spot streak d then state
               else state\<lparr>lb_streak_spots := take INSIDE_STREAK_LOCATIONS_REQUIRED (streak @ [sp_id spot])\<rparr>);
         s2 = (if distance \<le> NEAR_EXACT_CENTRE_METRES \<and> \<not> same_reward_location metres spot centres d
               then s1\<lparr>lb_centre_spots := take CENTRE_DISTINCT_LOCATIONS_REQUIRED (centres @ [sp_id spot])\<rparr>
               else s1)
     in s2\<lparr>lb_outside_since_inside := False, lb_meaningful := saturated (lb_meaningful state) 1,
           lb_signed_inside := saturated (lb_signed_inside state) 1,
           lb_last_signed_spot := Some (sp_id spot), lb_last_signed_at := Some now\<rparr>)"

text \<open>The answer is the code's \<^verbatim>\<open>restricted\<close>.\<close>

definition observe_signed_claim ::
  "distance_fun \<Rightarrow> int \<Rightarrow> spot_row \<Rightarrow> rat \<Rightarrow> rat \<Rightarrow> int \<Rightarrow> db \<Rightarrow> (bool \<times> db) res" where
  "observe_signed_claim metres user_id spot lat long now d =
    (if sp_created_by spot = user_id then Inr (False, d)
     else if sp_use_password spot = 1 then Inr (False, d)
     else if \<not> is_spot_currently_claimable (sp_id spot) d then Inr (False, d)
     else let state = get_behaviour user_id d in
     if currently_restricted state now then Inr (True, d)
     else let retry = (lb_last_signed_spot state = Some (sp_id spot)
              \<and> now - (case lb_last_signed_at state of None \<Rightarrow> 0 | Some t \<Rightarrow> t) < SIGNED_RETRY_WINDOW_SECONDS);
              distance = spot_metres metres lat long spot;
              s1 = (if \<not> retry \<and> distance \<le> of_int (sp_radius spot)
                    then record_inside metres spot distance now d state else state)
     in bindE (if new_evidence_matured s1
               then bindE (record_decision user_id ''repeated_exact_reward_positioning'' TemporaryRestriction
                             now (Some (now + TEMPORARY_RESTRICTION_SECONDS)) d)
                      (\<lambda>(_, d1). Inr (consume_episode now s1, d1))
               else Inr (s1, d))
          (\<lambda>(s2, d1). Inr (currently_restricted s2 now, save_behaviour user_id s2 d1)))"

definition current_decision :: "int \<Rightarrow> int \<Rightarrow> db \<Rightarrow> bool" where
  "current_decision user_id now d = currently_restricted (get_behaviour user_id d) now"

section \<open>Facts\<close>

lemma get_save_behaviour:
  "get_behaviour u (save_behaviour v s d) = (if u = v then migrate_behaviour (Some (migrate_behaviour (Some s)))
     else get_behaviour u d)"
proof -
  have "map_of (filter (\<lambda>p. fst p \<noteq> v) xs) u = map_of xs u" if "u \<noteq> v" for xs :: "(int \<times> behaviour_doc) list"
    using that by (induction xs) auto
  then show ?thesis by (auto simp: get_behaviour_def save_behaviour_def)
qed

lemma migrate_idem: "migrate_behaviour (Some (migrate_behaviour v)) = migrate_behaviour v"
proof (cases v)
  case (Some w)
  have sat: "saturated (saturated n 0) 0 = saturated n 0" for n by (simp add: saturated_def)
  show ?thesis
    by (cases "lb_version w = 2")
       (simp_all add: migrate_behaviour_def Some empty_behaviour_def sat saturated_def)
qed (simp add: migrate_behaviour_def empty_behaviour_def saturated_def)

lemma behaviour_db [simp]:
  "db_ok (save_behaviour u s d) = db_ok d" "db_claims (save_behaviour u s d) = db_claims d"
  "db_spots (save_behaviour u s d) = db_spots d"
  by (simp_all add: save_behaviour_def)

lemma record_decision_ok: "record_decision u c t n e d = Inr (i, d') \<Longrightarrow> db_ok d \<Longrightarrow> db_ok d'"
  by (auto simp: record_decision_def prune_expired_def Let_def split: if_splits)

lemma observe_signed_claim_ok:
  "observe_signed_claim metres u s la lo now d = Inr (b, d') \<Longrightarrow> db_ok d \<Longrightarrow> db_ok d'"
  by (auto simp: observe_signed_claim_def Let_def split: if_splits prod.splits intro: record_decision_ok)

lemma observe_find_location_ok:
  "observe_find_location metres u la lo now d = (s, d') \<Longrightarrow> db_ok d \<Longrightarrow> db_ok d'"
  by (auto simp: observe_find_location_def Let_def split: if_splits)

end
