(* ===== verification/Claims.thy ===== *)
theory Claims
  imports LocationBehaviour ClaimCodes
begin

text \<open>
  The life of a claim in \<^verbatim>\<open>db_access.py\<close> and \<^verbatim>\<open>claim_code_policy.py\<close>:
  creation, promotion to SUCCESS behind the capacity gate, the code policy that
  wraps it, failure of leftover pending claims, expiry and the location
  heartbeat. At run time the policy replaces the module attributes
  \<^verbatim>\<open>create_claim_attempt\<close> and \<^verbatim>\<open>promote_...\<close>, so every function that calls
  the promoter takes it as an argument here.
\<close>

section \<open>Outcomes\<close>

record promotion =
  pr_ok :: bool
  pr_reason :: string

record cleanup =
  cu_ok :: bool
  cu_failed_count :: int
  cu_reason :: string
  cu_failed_claim_ids :: "int list"
  cu_failed_user_ids :: "int list"

record claim_outcome =
  co_claim :: claim_detail
  co_promotion :: "promotion option"
  co_cleanup :: "cleanup option"
  co_distance :: "distance_check option"
  co_location_penalty :: "rat option"

definition plain :: "claim_detail \<Rightarrow> claim_outcome" where
  "plain c = \<lparr>co_claim = c, co_promotion = None, co_cleanup = None, co_distance = None,
              co_location_penalty = None\<rparr>"

type_synonym promoter = "int \<Rightarrow> db \<Rightarrow> (claim_outcome option \<times> db) res"

definition outcome_status :: "claim_outcome \<Rightarrow> int" where
  "outcome_status o' = cl_status (cd_claim (co_claim o'))"

section \<open>Single-row writes\<close>

definition create_claim ::
  "bool \<Rightarrow> int \<Rightarrow> int \<Rightarrow> rat \<Rightarrow> rat \<Rightarrow> rat \<Rightarrow> string option \<Rightarrow> db \<Rightarrow> (int \<times> db) res" where
  "create_claim dev spot_id user_id lat long accuracy payout_address d =
     bindE (clean_optional_nimiq_address dev False payout_address) (\<lambda>address.
     insert_claim \<lparr>cl_id = 0, cl_spot_id = spot_id, cl_recipient = user_id, cl_payout_address = address,
       cl_lat = lat, cl_long = long, cl_accuracy = accuracy, cl_status = CLAIM_STATUS_PENDING,
       cl_claimed_at = 0, cl_updated_at = 0\<rparr> d)"

definition update_claim :: "string \<Rightarrow> bool \<Rightarrow> int \<Rightarrow> (claim_row \<Rightarrow> claim_row) \<Rightarrow> db \<Rightarrow> db res" where
  "update_claim message lists_status claim_id f d =
    (let P = (\<lambda>c. cl_id c = claim_id) in
     bindE (update_claims lists_status P f d) (\<lambda>d'.
     bindE (require_one (count_where P (db_claims d)) message) (\<lambda>_. Inr d')))"

definition modify_claim_accuracy :: "int \<Rightarrow> rat \<Rightarrow> db \<Rightarrow> db res" where
  "modify_claim_accuracy claim_id accuracy =
     update_claim ''Failed to update claim accuracy'' False claim_id (\<lambda>c. c\<lparr>cl_accuracy := accuracy\<rparr>)"

definition modify_claim_status :: "int \<Rightarrow> int \<Rightarrow> db \<Rightarrow> db res" where
  "modify_claim_status claim_id status =
     update_claim ''Failed to update claim status'' True claim_id (\<lambda>c. c\<lparr>cl_status := status\<rparr>)"

definition set_claim_status_to_success :: "int \<Rightarrow> db \<Rightarrow> db res" where
  "set_claim_status_to_success claim_id = modify_claim_status claim_id CLAIM_STATUS_SUCCESS"

definition set_claim_status_to_failed :: "int \<Rightarrow> db \<Rightarrow> db res" where
  "set_claim_status_to_failed claim_id = modify_claim_status claim_id CLAIM_STATUS_FAILED"

definition set_claim_status_to_pending :: "int \<Rightarrow> db \<Rightarrow> db res" where
  "set_claim_status_to_pending claim_id = modify_claim_status claim_id CLAIM_STATUS_PENDING"

definition modify_claim_location_score ::
  "int \<Rightarrow> rat \<Rightarrow> rat \<Rightarrow> rat \<Rightarrow> int option \<Rightarrow> db \<Rightarrow> db res" where
  "modify_claim_location_score claim_id lat long accuracy_score status =
    (let score = max 0 (min 1 accuracy_score) in
     case status of
       None \<Rightarrow> update_claim ''Failed to update claim location'' False claim_id
                 (\<lambda>c. c\<lparr>cl_lat := lat, cl_long := long, cl_accuracy := score\<rparr>)
     | Some st \<Rightarrow> update_claim ''Failed to update claim location'' True claim_id
                 (\<lambda>c. c\<lparr>cl_lat := lat, cl_long := long, cl_accuracy := score, cl_status := st\<rparr>))"

section \<open>Failing the pending claims of a Spot\<close>

definition pending_of :: "int \<Rightarrow> claim_row \<Rightarrow> bool" where
  "pending_of s c \<longleftrightarrow> cl_spot_id c = s \<and> cl_status c = CLAIM_STATUS_PENDING"

definition fail_pending_claims_for_spot :: "int \<Rightarrow> db \<Rightarrow> (int \<times> db) res" where
  "fail_pending_claims_for_spot spot_id d =
     bindE (update_claims True (pending_of spot_id) (\<lambda>c. c\<lparr>cl_status := CLAIM_STATUS_FAILED\<rparr>) d)
       (\<lambda>d'. Inr (count_where (pending_of spot_id) (db_claims d), d'))"

definition no_cleanup :: "bool \<Rightarrow> string \<Rightarrow> cleanup" where
  "no_cleanup ok reason = \<lparr>cu_ok = ok, cu_failed_count = 0, cu_reason = reason,
     cu_failed_claim_ids = [], cu_failed_user_ids = []\<rparr>"

definition fail_pending_standard_duration_claims_if_capacity_full ::
  "int \<Rightarrow> db \<Rightarrow> (cleanup \<times> db) res" where
  "fail_pending_standard_duration_claims_if_capacity_full spot_id d =
    (case get_spot spot_id d of
       None \<Rightarrow> Inr (no_cleanup False ''spot_missing'', d)
     | Some s \<Rightarrow>
       if is_prizedraw spot_id d then Inr (no_cleanup True ''prizedraw_skipped'', d)
       else let max_total = sp_max_total_claims s in
       if sp_claim_duration s \<le> 0 \<or> max_total \<le> 0
       then Inr (no_cleanup True ''not_limited_duration_spot'', d)
       else if count_claims_by_status_for_spot spot_id CLAIM_STATUS_SUCCESS d < max_total
       then Inr (no_cleanup True ''capacity_available'', d)
       else let rows = by_claimed_at (filter (pending_of spot_id) (db_claims d)) in
       if rows = [] then Inr (no_cleanup True ''capacity_full_no_pending_claims'', d)
       else bindE (update_claims True (pending_of spot_id) (\<lambda>c. c\<lparr>cl_status := CLAIM_STATUS_FAILED\<rparr>) d) (\<lambda>d'.
         Inr (\<lparr>cu_ok = True, cu_failed_count = count_where (pending_of spot_id) (db_claims d),
               cu_reason = ''capacity_full_pending_claims_failed'',
               cu_failed_claim_ids = map cl_id rows,
               cu_failed_user_ids = sort (remdups (map cl_recipient rows))\<rparr>, d')))"

section \<open>Promotion behind the capacity gate\<close>

definition promoted :: "bool \<Rightarrow> string \<Rightarrow> claim_detail option \<Rightarrow> claim_outcome option" where
  "promoted ok reason c = map_option (\<lambda>c. (plain c)\<lparr>co_promotion := Some \<lparr>pr_ok = ok, pr_reason = reason\<rparr>\<rparr>) c"

text \<open>The conditional \<^verbatim>\<open>UPDATE\<close> that is the last word on capacity.\<close>

definition capacity_gate :: "int \<Rightarrow> int \<Rightarrow> db \<Rightarrow> claim_row \<Rightarrow> bool" where
  "capacity_gate claim_id spot_id d c \<longleftrightarrow> cl_id c = claim_id \<and> cl_status c = CLAIM_STATUS_PENDING
     \<and> (case get_spot spot_id d of None \<Rightarrow> False
        | Some s \<Rightarrow> count_claims_by_status_for_spot spot_id CLAIM_STATUS_SUCCESS d < sp_max_total_claims s)"

definition promote_pending_claim_to_success_if_capacity_available :: promoter where
  "promote_pending_claim_to_success_if_capacity_available claim_id d =
    (case get_claim claim_id d of
       None \<Rightarrow> Inr (None, d)
     | Some claim \<Rightarrow>
       if cl_status (cd_claim claim) \<noteq> CLAIM_STATUS_PENDING then Inr (Some (plain claim), d)
       else let spot_id = cl_spot_id (cd_claim claim) in
       (case get_spot spot_id d of
          None \<Rightarrow> Inr (Some (plain claim), d)
        | Some s \<Rightarrow>
          if is_prizedraw spot_id d
          then bindE (set_claim_status_to_success claim_id d) (\<lambda>d1.
               Inr (promoted True ''prizedraw_entry_promoted'' (get_claim claim_id d1), d1))
          else if sp_max_total_claims s \<le> 0
          then bindE (set_claim_status_to_success claim_id d) (\<lambda>d1.
               Inr (promoted True ''unlimited_standard_spot'' (get_claim claim_id d1), d1))
          else let gate = capacity_gate claim_id spot_id d in
          bindE (update_claims True gate (\<lambda>c. c\<lparr>cl_status := CLAIM_STATUS_SUCCESS\<rparr>) d) (\<lambda>d1.
          if 0 < count_where gate (db_claims d)
          then let claim_after = get_claim claim_id d1 in
               bindE (fail_pending_standard_duration_claims_if_capacity_full spot_id d1) (\<lambda>(clean, d2).
               Inr (map_option (\<lambda>o'. o'\<lparr>co_cleanup := Some clean\<rparr>)
                      (promoted True ''promoted_with_capacity'' claim_after), d2))
          else bindE (set_claim_status_to_failed claim_id d1) (\<lambda>d2.
               Inr (map_option (\<lambda>o'. o'\<lparr>co_cleanup := Some \<lparr>cu_ok = True, cu_failed_count = 1,
                        cu_reason = ''capacity_full_current_claim_failed'',
                        cu_failed_claim_ids = [claim_id],
                        cu_failed_user_ids = [cl_recipient (cd_claim (co_claim o'))]\<rparr>\<rparr>)
                      (promoted False ''capacity_full_claim_failed'' (get_claim claim_id d2)), d2)))))"

section \<open>The claim code policy\<close>

definition attempt_for_claim :: "int \<Rightarrow> db \<Rightarrow> attempt_row option" where
  "attempt_for_claim claim_id d =
    (case find_row at_claim_id claim_id (db_attempts d) of None \<Rightarrow> None
     | Some a \<Rightarrow> if find_row cc_id (at_code_id a) (db_codes d) = None then None else Some a)"

definition release_code_from_claim :: "int \<Rightarrow> db \<Rightarrow> db res" where
  "release_code_from_claim claim_id d = update_used_by (\<lambda>k. cc_used_by k = Some claim_id) None d"

definition failed_promotion :: "int \<Rightarrow> string \<Rightarrow> db \<Rightarrow> (claim_outcome option \<times> db) res" where
  "failed_promotion claim_id reason d = bindE (set_claim_status_to_failed claim_id d) (\<lambda>d1.
     Inr (promoted False reason (get_claim claim_id d1), d1))"

text \<open>
  An exception of the inner promoter is raised again, which rolls the
  transaction back, so the release of the code on that path is not visible.
\<close>

definition promote_pending_claim_to_success_if_code_available :: "promoter \<Rightarrow> promoter" where
  "promote_pending_claim_to_success_if_code_available original claim_id d =
    (case get_claim claim_id d of
       None \<Rightarrow> Inr (None, d)
     | Some claim \<Rightarrow>
       if cl_status (cd_claim claim) \<noteq> CLAIM_STATUS_PENDING then Inr (Some (plain claim), d)
       else (case get_spot (cl_spot_id (cd_claim claim)) d of
          None \<Rightarrow> Inr (Some (plain claim), d)
        | Some s \<Rightarrow>
          if sp_use_password s \<noteq> 1 then original claim_id d
          else (case attempt_for_claim claim_id d of
             None \<Rightarrow> failed_promotion claim_id ''claim_code_attempt_missing'' d
           | Some a \<Rightarrow>
             let P = (\<lambda>k. cc_id k = at_code_id a \<and> (cc_used_by k = None \<or> cc_used_by k = Some claim_id)) in
             bindE (update_used_by P (Some claim_id) d) (\<lambda>d1.
             if count_where P (db_codes d) = 0
             then failed_promotion claim_id ''claim_code_already_used'' d1
             else bindE (original claim_id d1) (\<lambda>(result, d2).
               if (case result of None \<Rightarrow> False | Some r \<Rightarrow> outcome_status r = CLAIM_STATUS_SUCCESS)
               then Inr (result, d2)
               else bindE (release_code_from_claim claim_id d2) (\<lambda>d3. Inr (result, d3)))))))"

text \<open>The promoter the running application uses.\<close>

definition policy_promoter :: promoter where
  "policy_promoter =
     promote_pending_claim_to_success_if_code_available promote_pending_claim_to_success_if_capacity_available"

section \<open>Creating a claim\<close>

text \<open>Checks shared by both versions of \<open>create_claim_attempt\<close>: the Spot, whether it uses a password, the code row.\<close>

definition check_claim_attempt ::
  "distance_fun \<Rightarrow> int \<Rightarrow> int \<Rightarrow> rat \<Rightarrow> rat \<Rightarrow> rat option \<Rightarrow> string option \<Rightarrow> db
     \<Rightarrow> (spot_row \<times> (string \<times> code_row) option) res" where
  "check_claim_attempt metres spot_id user_id lat long location_accuracy_metres claim_code d =
    (case get_spot spot_id d of None \<Rightarrow> Inl (ValueError ''This spot could not be found.'')
     | Some s \<Rightarrow>
       bindE (get_claim_rule_check metres spot_id user_id (Some lat) (Some long) location_accuracy_metres d) (\<lambda>rule.
       if \<not> rc_allowed rule
       then Inl (ValueError (case rc_reason rule of Some r \<Rightarrow> refusal_message r
                             | None \<Rightarrow> ''This spot cannot be claimed right now.''))
       else let use_password = (sp_use_password s = 1) in
       bindE (normalise_claim_code use_password claim_code) (\<lambda>clean_code.
       bindE (if use_password
              then bindE (get_claim_code_by_code spot_id clean_code d) (\<lambda>existing.
                (case existing of
                   None \<Rightarrow> Inl (ValueError ''That claim code is not valid for this spot.'')
                 | Some k \<Rightarrow> if cc_used_by k \<noteq> None
                             then Inl (ValueError ''This code has already been used.'')
                             else Inr (Some (the clean_code, k))))
              else Inr None) (\<lambda>code.
       if has_spot_cancellation_started spot_id d
       then Inl (ValueError ''This spot is being cancelled and can no longer be claimed.'')
       else Inr (s, code)))))"

definition create_claim_or_refuse ::
  "bool \<Rightarrow> int \<Rightarrow> int \<Rightarrow> rat \<Rightarrow> rat \<Rightarrow> string option \<Rightarrow> db \<Rightarrow> (int \<times> db) res" where
  "create_claim_or_refuse dev spot_id user_id lat long payout_address d =
    (case create_claim dev spot_id user_id lat long 1 payout_address d of
       Inl (IntegrityError m) \<Rightarrow>
         if m = ''spot cancellation has started''
         then Inl (ValueError ''This spot is being cancelled and can no longer be claimed.'')
         else Inl (IntegrityError m)
     | r \<Rightarrow> r)"

definition reload_claim :: "int \<Rightarrow> db \<Rightarrow> (claim_outcome \<times> db) res" where
  "reload_claim claim_id d = (case get_claim claim_id d of
     None \<Rightarrow> Inl (RuntimeError ''Claim was created but could not be reloaded'')
   | Some c \<Rightarrow> Inr (plain c, d))"

text \<open>\<^verbatim>\<open>db_access.create_claim_attempt\<close>, which consults the location behaviour guard.\<close>

definition create_claim_attempt ::
  "promoter \<Rightarrow> distance_fun \<Rightarrow> bool \<Rightarrow> int \<Rightarrow> int \<Rightarrow> rat \<Rightarrow> rat \<Rightarrow> rat option \<Rightarrow> string option \<Rightarrow> string option
     \<Rightarrow> db \<Rightarrow> (claim_outcome \<times> db) res" where
  "create_claim_attempt promote metres dev spot_id user_id lat long location_accuracy_metres claim_code
     payout_address d =
    bindE (check_claim_attempt metres spot_id user_id lat long location_accuracy_metres claim_code d) (\<lambda>(s, code).
    bindE (if code = None
           then bindE (observe_signed_claim metres user_id s lat long (db_now d) d) (\<lambda>(restricted, d0).
                bindE (guardE (\<not> restricted) (ValueError
                  ''Public Spots are temporarily unavailable for this account. Please try again later.''))
                  (\<lambda>_. Inr d0))
           else Inr d) (\<lambda>d0.
    bindE (create_claim_or_refuse dev spot_id user_id lat long payout_address d0) (\<lambda>(claim_id, d1).
    bindE (case code of None \<Rightarrow> Inr d1
           | Some (clean_code, _) \<Rightarrow> bindE (claim_code_for_claim spot_id clean_code claim_id d1)
               (\<lambda>(_, d2). Inr d2)) (\<lambda>d2.
    if sp_claim_duration s \<le> 0
    then bindE (promote claim_id d2) (\<lambda>(claim_after, d3).
         (case claim_after of
            None \<Rightarrow> reload_claim claim_id d3
          | Some o' \<Rightarrow>
             (case co_promotion o' of
                Some p \<Rightarrow> if \<not> pr_ok p then Inl (ValueError ''This spot has run out of rewards.'')
                          else Inr (o', d3)
              | None \<Rightarrow> Inr (o', d3))))
    else reload_claim claim_id d2))))"

definition create_attempt :: "int \<Rightarrow> int \<Rightarrow> db \<Rightarrow> db res" where
  "create_attempt claim_id claim_code_id d = insert_attempt claim_id claim_code_id d"

text \<open>\<^verbatim>\<open>create_claim_attempt_success_only\<close>, the version installed at run time.\<close>

definition create_claim_attempt_success_only ::
  "distance_fun \<Rightarrow> bool \<Rightarrow> int \<Rightarrow> int \<Rightarrow> rat \<Rightarrow> rat \<Rightarrow> rat option \<Rightarrow> string option \<Rightarrow> string option
     \<Rightarrow> db \<Rightarrow> (claim_outcome \<times> db) res" where
  "create_claim_attempt_success_only metres dev spot_id user_id lat long location_accuracy_metres claim_code
     payout_address d =
    bindE (check_claim_attempt metres spot_id user_id lat long location_accuracy_metres claim_code d) (\<lambda>(s, code).
    bindE (create_claim_or_refuse dev spot_id user_id lat long payout_address d) (\<lambda>(claim_id, d1).
    bindE (case code of None \<Rightarrow> Inr d1 | Some (_, k) \<Rightarrow> create_attempt claim_id (cc_id k) d1) (\<lambda>d2.
    if sp_claim_duration s \<le> 0
    then bindE (policy_promoter claim_id d2) (\<lambda>(claim_after, d3).
         (case claim_after of
            None \<Rightarrow> reload_claim claim_id d3
          | Some o' \<Rightarrow>
             (case co_promotion o' of
                Some p \<Rightarrow>
                  if \<not> pr_ok p
                  then (if pr_reason p = ''claim_code_already_used''
                        then Inl (ValueError ''This code has already been used.'')
                        else if pr_reason p = ''claim_code_attempt_missing''
                        then Inl (ValueError ''This claim no longer has a valid code attempt.'')
                        else Inl (ValueError ''This spot has run out of rewards.''))
                  else Inr (o', d3)
              | None \<Rightarrow> Inr (o', d3))))
    else reload_claim claim_id d2)))"

section \<open>Expiry and heartbeat\<close>

definition refresh_claim_status_from_conditions :: "promoter \<Rightarrow> promoter" where
  "refresh_claim_status_from_conditions promote claim_id d =
    (case get_claim claim_id d of
       None \<Rightarrow> Inr (None, d)
     | Some claim \<Rightarrow>
       let c = cd_claim claim in
       if cl_status c \<noteq> CLAIM_STATUS_PENDING then Inr (Some (plain claim), d)
       else (case get_spot (cl_spot_id c) d of
          None \<Rightarrow> Inr (Some (plain claim), d)
        | Some s \<Rightarrow>
          if sp_status s = SPOT_STATUS_COMPLETED \<and> is_prizedraw (cl_spot_id c) d
          then Inr (Some (plain claim), d)
          else if sp_claim_duration s \<le> 0 then promote claim_id d
          else let stale_after = max 1 CLAIM_LOCATION_STALE_AFTER_SECONDS in
          if stale_after < db_now d - cl_updated_at c
          then bindE (set_claim_status_to_failed claim_id d) (\<lambda>d1.
               Inr (map_option plain (get_claim claim_id d1), d1))
          else if cl_claimed_at c + sp_claim_duration s \<le> db_now d then promote claim_id d
          else Inr (Some (plain claim), d)))"

definition next_score :: "rat \<Rightarrow> rat \<Rightarrow> rat" where
  "next_score score penalty = max 0 (fl (max 0 (min 1 score) - penalty))"

definition process_duration_claim_location_heartbeat ::
  "promoter \<Rightarrow> distance_fun \<Rightarrow> int \<Rightarrow> int \<Rightarrow> rat \<Rightarrow> rat \<Rightarrow> rat option \<Rightarrow> db \<Rightarrow> (claim_outcome \<times> db) res" where
  "process_duration_claim_location_heartbeat promote metres claim_id user_id lat long
     location_accuracy_metres d =
    (case get_claim claim_id d of
       None \<Rightarrow> Inl (ValueError ''Claim not found.'')
     | Some claim \<Rightarrow>
       if cl_recipient (cd_claim claim) \<noteq> user_id
       then Inl (PermissionError ''This claim does not belong to this device account.'')
       else bindE (refresh_claim_status_from_conditions promote claim_id d) (\<lambda>(refreshed, d1).
       (case refreshed of
          None \<Rightarrow> Inl (ValueError ''Claim not found.'')
        | Some r \<Rightarrow>
          if outcome_status r \<noteq> CLAIM_STATUS_PENDING then Inr (r, d1)
          else let c = cd_claim (co_claim r) in
          (case get_spot (cl_spot_id c) d1 of
             None \<Rightarrow> Inr (r, d1)
           | Some s \<Rightarrow>
             if sp_claim_duration s \<le> 0
             then bindE (promote claim_id d1) (\<lambda>(after, d2).
                  (case after of None \<Rightarrow> Inl (RuntimeError ''Claim disappeared during heartbeat'')
                   | Some o' \<Rightarrow> Inr (o', d2)))
             else bindE (validate_optional_coordinates (Some lat) (Some long)) (\<lambda>_.
                  bindE (get_claim_distance_check metres (cl_spot_id c) lat long location_accuracy_metres d1) (\<lambda>check.
                  (case check of None \<Rightarrow> Inr (r, d1)
                   | Some dc \<Rightarrow>
                     let penalty = duration_claim_penalty (dc_effective_distance_metres dc) (dc_radius_metres dc);
                         score = next_score (cl_accuracy c) penalty;
                         next_status = (if score \<le> 0 then CLAIM_STATUS_FAILED else CLAIM_STATUS_PENDING);
                         should_promote = (0 < score \<and> cl_claimed_at c + sp_claim_duration s \<le> db_now d1)
                     in bindE (modify_claim_location_score claim_id lat long score (Some next_status) d1) (\<lambda>d2.
                        bindE (if should_promote then promote claim_id d2
                               else Inr (map_option plain (get_claim claim_id d2), d2)) (\<lambda>(after, d3).
                        (case after of None \<Rightarrow> Inl (RuntimeError ''Claim disappeared during heartbeat'')
                         | Some o' \<Rightarrow> Inr (o'\<lparr>co_distance := Some dc, co_location_penalty := Some penalty\<rparr>, d3)))))))))))"

section \<open>Prizedraw winners\<close>

definition mark_prizedraw_winners_pending :: "int \<Rightarrow> int list \<Rightarrow> db \<Rightarrow> (int list \<times> int \<times> db) res" where
  "mark_prizedraw_winners_pending spot_id winner_claim_ids d =
    (let clean_ids = sort (remdups (filter (\<lambda>i. 0 < i) winner_claim_ids)) in
     if clean_ids = [] then Inr ([], 0, d)
     else let P = (\<lambda>c. cl_spot_id c = spot_id \<and> cl_status c = CLAIM_STATUS_SUCCESS \<and> cl_id c \<in> set clean_ids) in
       bindE (update_claims True P (\<lambda>c. c\<lparr>cl_status := CLAIM_STATUS_PENDING\<rparr>) d) (\<lambda>d'.
         Inr (clean_ids, count_where P (db_claims d), d')))"

end
