(* ===== verification/ClaimFacts.thy ===== *)
theory ClaimFacts
  imports Claims
begin

text \<open>
  What the claim operations keep: the frame of tables they leave alone, the
  integrity of the database, claims that left PENDING, and the capacity of
  standard Spots. The locale \<open>claim_promoter\<close> is the contract between the
  promoters and the operations that call them; both promoters of the code
  satisfy it.
\<close>

section \<open>Frames\<close>

text \<open>
  Claim operations leave everything but claims, codes and attempts alone, and
  they touch no claim that has left PENDING.
\<close>

definition claim_frame :: "db \<Rightarrow> db \<Rightarrow> bool" where
  "claim_frame d d' \<longleftrightarrow> db_spots d' = db_spots d \<and> db_prizedraws d' = db_prizedraws d
     \<and> db_trans d' = db_trans d \<and> db_users d' = db_users d \<and> db_now d' = db_now d"

definition claim_step :: "claim_row \<Rightarrow> claim_row \<Rightarrow> bool" where
  "claim_step c c' \<longleftrightarrow> cl_id c' = cl_id c \<and> cl_spot_id c' = cl_spot_id c \<and> cl_recipient c' = cl_recipient c
     \<and> cl_payout_address c' = cl_payout_address c \<and> cl_claimed_at c' = cl_claimed_at c
     \<and> (cl_status c \<noteq> CLAIM_STATUS_PENDING \<longrightarrow> c' = c)"

definition claim_steps :: "db \<Rightarrow> db \<Rightarrow> bool" where
  "claim_steps d d' \<longleftrightarrow> list_all2 claim_step (db_claims d) (db_claims d')"

lemma claim_frame_refl [simp]: "claim_frame d d"
  by (simp add: claim_frame_def)

lemma claim_frame_trans: "claim_frame d d1 \<Longrightarrow> claim_frame d1 d2 \<Longrightarrow> claim_frame d d2"
  by (simp add: claim_frame_def)

lemma claim_steps_refl [simp]: "claim_steps d d"
  by (simp add: claim_steps_def claim_step_def list.rel_refl)

lemma claim_step_trans: "claim_step a b \<Longrightarrow> claim_step b c \<Longrightarrow> claim_step a c"
  by (auto simp: claim_step_def)

lemma claim_steps_trans: "claim_steps d d1 \<Longrightarrow> claim_steps d1 d2 \<Longrightarrow> claim_steps d d2"
  unfolding claim_steps_def by (rule list_all2_trans [of claim_step claim_step claim_step]) (auto intro: claim_step_trans)

lemma frame_get:
  assumes "claim_frame d d'"
  shows "get_spot k d' = get_spot k d" "is_prizedraw k d' = is_prizedraw k d"
    "get_prizedraw k d' = get_prizedraw k d" "db_now d' = db_now d"
  using assms by (simp_all add: claim_frame_def get_spot_def is_prizedraw_def get_prizedraw_def)

lemma update_claims_frame:
  assumes "update_claims b P f d = Inr d'"
  shows "claim_frame d d'" and "db_codes d' = db_codes d"
    and "db_claims d' = update_where P (\<lambda>r. (f r)\<lparr>cl_updated_at := db_now d\<rparr>) (db_claims d)"
  using assms by (auto simp: update_claims_Inr Let_def claim_frame_def)

lemma list_all2_map_self: "(\<And>x. x \<in> set xs \<Longrightarrow> R x (f x)) \<Longrightarrow> list_all2 R xs (map f xs)"
  by (induction xs) auto

lemma update_claims_steps:
  assumes "update_claims b P f d = Inr d'"
    and "\<And>c. P c \<Longrightarrow> cl_status c = CLAIM_STATUS_PENDING"
    and "\<And>c. cl_id (f c) = cl_id c \<and> cl_spot_id (f c) = cl_spot_id c \<and> cl_recipient (f c) = cl_recipient c
           \<and> cl_payout_address (f c) = cl_payout_address c \<and> cl_claimed_at (f c) = cl_claimed_at c"
  shows "claim_steps d d'"
  unfolding claim_steps_def update_claims_frame(3) [OF assms(1)] update_where_def
  by (rule list_all2_map_self) (use assms(2,3) in \<open>auto simp: claim_step_def\<close>)

lemma claim_steps_find:
  assumes "claim_steps d d'" and "find_row cl_id k (db_claims d) = Some c"
  shows "\<exists>c'. find_row cl_id k (db_claims d') = Some c' \<and> claim_step c c'"
proof -
  have "list_all2 claim_step xs ys \<Longrightarrow> find_row cl_id k xs = Some c \<Longrightarrow>
      \<exists>c'. find_row cl_id k ys = Some c' \<and> claim_step c c'" for xs ys
    by (induction rule: list_all2_induct) (auto simp: claim_step_def split: if_splits)
  then show ?thesis using assms by (simp add: claim_steps_def)
qed

section \<open>Capacity\<close>

text \<open>A standard Spot never has more successful claims than it has rewards.\<close>

definition within_capacity :: "db \<Rightarrow> bool" where
  "within_capacity d \<longleftrightarrow> (\<forall>s\<in>set (db_spots d). \<not> is_prizedraw (sp_id s) d \<and> 0 < sp_max_total_claims s \<longrightarrow>
     count_claims_by_status_for_spot (sp_id s) CLAIM_STATUS_SUCCESS d \<le> sp_max_total_claims s)"

lemma within_capacity_mono:
  assumes "within_capacity d" and "claim_frame d d'"
    and "\<And>s. count_claims_by_status_for_spot s CLAIM_STATUS_SUCCESS d'
           \<le> count_claims_by_status_for_spot s CLAIM_STATUS_SUCCESS d"
  shows "within_capacity d'"
  using assms(1) frame_get(2) [OF assms(2)] assms(2,3)
  by (auto simp: within_capacity_def claim_frame_def intro: order_trans)

lemma count_where_update_le:
  "(\<And>r. P r \<Longrightarrow> Q (f r) \<Longrightarrow> Q r) \<Longrightarrow> count_where Q (update_where P f rows) \<le> count_where Q rows"
  by (induction rows) auto

lemma update_claims_fail_capacity:
  assumes u: "update_claims b P f d = Inr d'" and "within_capacity d"
    and "\<And>c. P c \<Longrightarrow> cl_status (f c) \<noteq> CLAIM_STATUS_SUCCESS"
  shows "within_capacity d'"
proof (rule within_capacity_mono [OF assms(2) update_claims_frame(1) [OF u]])
  fix s
  show "count_claims_by_status_for_spot s CLAIM_STATUS_SUCCESS d' \<le> count_claims_by_status_for_spot s CLAIM_STATUS_SUCCESS d"
    unfolding count_claims_by_status_for_spot_def update_claims_frame(3) [OF u]
    by (rule count_where_update_le) (use assms(3) in auto)
qed

lemma update_claim_Inr:
  "update_claim m b k f d = Inr d' \<longleftrightarrow>
   update_claims b (\<lambda>c. cl_id c = k) f d = Inr d' \<and> count_where (\<lambda>c. cl_id c = k) (db_claims d) = 1"
  by (auto simp: update_claim_def Let_def)

lemma modify_claim_status_Inr:
  assumes "modify_claim_status k st d = Inr d'" and "db_ok d"
  shows "db_ok d'" and "claim_frame d d'" and "db_codes d' = db_codes d"
    and "db_claims d' = update_where (\<lambda>c. cl_id c = k) (\<lambda>c. c\<lparr>cl_status := st, cl_updated_at := db_now d\<rparr>) (db_claims d)"
    and "st \<noteq> CLAIM_STATUS_SUCCESS \<Longrightarrow> within_capacity d \<Longrightarrow> within_capacity d'"
proof -
  have u: "update_claims True (\<lambda>c. cl_id c = k) (\<lambda>c. c\<lparr>cl_status := st\<rparr>) d = Inr d'"
    using assms(1) by (simp add: modify_claim_status_def update_claim_Inr)
  show "db_ok d'" by (rule update_claims_ok [OF u assms(2)]) auto
  show "claim_frame d d'" "db_codes d' = db_codes d"
    "db_claims d' = update_where (\<lambda>c. cl_id c = k) (\<lambda>c. c\<lparr>cl_status := st, cl_updated_at := db_now d\<rparr>) (db_claims d)"
    using update_claims_frame [OF u] by simp_all
  show "st \<noteq> CLAIM_STATUS_SUCCESS \<Longrightarrow> within_capacity d \<Longrightarrow> within_capacity d'"
    by (rule update_claims_fail_capacity [OF u]) auto
qed

lemma find_claim_update:
  "db_claims d' = update_where P f (db_claims d) \<Longrightarrow> (\<And>c. cl_id (f c) = cl_id c) \<Longrightarrow>
   find_row cl_id k (db_claims d') = map_option (\<lambda>c. if P c then f c else c) (find_row cl_id k (db_claims d))"
  by (simp add: find_row_update_where)

text \<open>Setting the status of a claim that is pending is a step of that claim.\<close>

lemma modify_pending_steps:
  assumes "modify_claim_status k st d = Inr d'" and ok: "db_ok d"
    and c: "find_row cl_id k (db_claims d) = Some c" "cl_status c = CLAIM_STATUS_PENDING"
  shows "claim_steps d d'"
proof -
  have "c' = c" if "c' \<in> set (db_claims d)" "cl_id c' = k" for c'
    using that c(1) db_ok_claim_row [OF ok that(1)] by simp
  then show ?thesis
    unfolding claim_steps_def modify_claim_status_Inr(4) [OF assms(1) ok] update_where_def
    by (intro list_all2_map_self) (use c(2) in \<open>auto simp: claim_step_def\<close>)
qed

section \<open>The promoter contract\<close>

text \<open>What every promotion keeps, for the operations that call it.\<close>

definition claim_safe :: "db \<Rightarrow> db \<Rightarrow> bool" where
  "claim_safe d d' \<longleftrightarrow> db_ok d' \<and> claim_frame d d' \<and> claim_steps d d' \<and> (within_capacity d \<longrightarrow> within_capacity d')"

lemma claim_safe_refl: "db_ok d \<Longrightarrow> claim_safe d d"
  by (simp add: claim_safe_def)

lemma claim_safe_trans: "claim_safe d d1 \<Longrightarrow> claim_safe d1 d2 \<Longrightarrow> claim_safe d d2"
  by (auto simp: claim_safe_def intro: claim_frame_trans claim_steps_trans)

lemma update_claims_safe:
  assumes u: "update_claims b P f d = Inr d'" and ok: "db_ok d"
    and pend: "\<And>c. P c \<Longrightarrow> cl_status c = CLAIM_STATUS_PENDING"
    and keep: "\<And>c. cl_id (f c) = cl_id c \<and> cl_spot_id (f c) = cl_spot_id c \<and> cl_recipient (f c) = cl_recipient c
           \<and> cl_payout_address (f c) = cl_payout_address c \<and> cl_claimed_at (f c) = cl_claimed_at c"
    and st: "b \<or> (\<forall>c. cl_status (f c) = cl_status c)"
    and cap: "\<And>c. P c \<Longrightarrow> cl_status (f c) \<noteq> CLAIM_STATUS_SUCCESS"
  shows "claim_safe d d'"
  unfolding claim_safe_def
  using update_claims_ok [OF u ok _ _ _ st] keep update_claims_frame(1) [OF u]
    update_claims_steps [OF u pend keep] update_claims_fail_capacity [OF u _ cap]
  by blast

lemma set_failed_safe:
  assumes "modify_claim_status k st d = Inr d'" and "db_ok d" and "st \<noteq> CLAIM_STATUS_SUCCESS"
    and "find_row cl_id k (db_claims d) = Some c" and "cl_status c = CLAIM_STATUS_PENDING"
  shows "claim_safe d d'"
  unfolding claim_safe_def
  using modify_claim_status_Inr [OF assms(1,2)] modify_pending_steps [OF assms(1,2,4,5)] assms(3) by blast

lemma fail_pending_safe:
  assumes "fail_pending_claims_for_spot s d = Inr (n, d')" and "db_ok d"
  shows "claim_safe d d'"
proof -
  have "update_claims True (pending_of s) (\<lambda>c. c\<lparr>cl_status := CLAIM_STATUS_FAILED\<rparr>) d = Inr d'"
    using assms(1) by (auto simp: fail_pending_claims_for_spot_def)
  then show ?thesis using assms(2) by (rule update_claims_safe) (auto simp: pending_of_def)
qed

lemma fail_if_full_cases:
  assumes "fail_pending_standard_duration_claims_if_capacity_full s d = Inr (r, d')"
  shows "d' = d \<or> update_claims True (pending_of s) (\<lambda>c. c\<lparr>cl_status := CLAIM_STATUS_FAILED\<rparr>) d = Inr d'"
  using assms
  by (auto simp: fail_pending_standard_duration_claims_if_capacity_full_def Let_def split: option.splits if_splits)

lemma fail_if_full_safe:
  assumes "fail_pending_standard_duration_claims_if_capacity_full s d = Inr (r, d')" and "db_ok d"
  shows "claim_safe d d'" and "db_codes d' = db_codes d"
proof -
  show "claim_safe d d'"
    using fail_if_full_cases [OF assms(1)]
  proof
    assume "d' = d" then show ?thesis using assms(2) by (simp add: claim_safe_refl)
  next
    assume "update_claims True (pending_of s) (\<lambda>c. c\<lparr>cl_status := CLAIM_STATUS_FAILED\<rparr>) d = Inr d'"
    then show ?thesis using assms(2) by (rule update_claims_safe) (auto simp: pending_of_def)
  qed
  show "db_codes d' = db_codes d"
    using fail_if_full_cases [OF assms(1)] update_claims_frame(2) by blast
qed

lemma get_claim_pending_row:
  "get_claim k d = Some v \<Longrightarrow> cl_status (cd_claim v) = CLAIM_STATUS_PENDING \<Longrightarrow>
   \<exists>c. find_row cl_id k (db_claims d) = Some c \<and> cl_status c = CLAIM_STATUS_PENDING \<and> c = cd_claim v"
  using get_claim_SomeD(1) by blast

text \<open>The status the outcome of a promotion reports is the status in the database.\<close>

definition reports :: "int \<Rightarrow> claim_outcome option \<Rightarrow> db \<Rightarrow> bool" where
  "reports k r d \<longleftrightarrow> (\<forall>o'. r = Some o' \<longrightarrow> map_option cl_status (find_row cl_id k (db_claims d)) = Some (outcome_status o'))"

lemma reports_plain: "get_claim k d = Some v \<Longrightarrow> reports k (Some (plain v)) d"
  using get_claim_SomeD(1) [of k d v] by (simp add: reports_def outcome_status_def plain_def)

lemma reports_promoted: "reports k (promoted b m (get_claim k d)) d"
  using get_claim_SomeD(1) [of k d]
  by (auto simp: reports_def outcome_status_def promoted_def plain_def)

locale claim_promoter =
  fixes promote :: promoter
  assumes promote_safe: "promote k d = Inr (r, d') \<Longrightarrow> db_ok d \<Longrightarrow> claim_safe d d'"
    and promote_reports: "promote k d = Inr (r, d') \<Longrightarrow> db_ok d \<Longrightarrow> reports k r d'"
begin

lemma refresh_safe:
  assumes "refresh_claim_status_from_conditions promote k d = Inr (r, d')" and ok: "db_ok d"
  shows "claim_safe d d'"
proof (cases "get_claim k d")
  case None
  then show ?thesis using assms by (simp add: refresh_claim_status_from_conditions_def claim_safe_refl)
next
  case (Some v)
  show ?thesis
    using assms Some get_claim_pending_row [OF Some]
    by (auto simp: refresh_claim_status_from_conditions_def Let_def set_claim_status_to_failed_def
        intro: claim_safe_refl promote_safe set_failed_safe split: if_splits option.splits)
qed

lemma refresh_reports:
  assumes "refresh_claim_status_from_conditions promote k d = Inr (r, d')" and ok: "db_ok d"
  shows "reports k r d'"
proof (cases "get_claim k d")
  case None
  then show ?thesis using assms by (simp add: refresh_claim_status_from_conditions_def reports_def)
next
  case (Some v)
  have "reports k (map_option plain (get_claim k d1)) d1" for d1
    using reports_plain [of k d1] by (cases "get_claim k d1") (auto simp: reports_def)
  then show ?thesis
    using assms Some reports_plain [OF Some]
    by (auto simp: refresh_claim_status_from_conditions_def Let_def
        intro: promote_reports split: if_splits option.splits)
qed

end

section \<open>The capacity gate\<close>

lemma count_update_unique:
  assumes "distinct (map key rows)" and "\<And>r. P r \<Longrightarrow> key r = k"
  shows "count_where Q (update_where P f rows) \<le> count_where Q rows + 1"
  using assms(1)
proof (induction rows)
  case (Cons r rows)
  have "update_where P f rows = rows" if "P r"
    using Cons.prems assms(2) that by (fastforce simp: update_where_def image_iff intro!: map_idI)
  then show ?case using Cons by auto
qed simp

lemma count_update_none:
  "(\<And>r. r \<in> set rows \<Longrightarrow> P r \<Longrightarrow> \<not> Q (f r)) \<Longrightarrow> count_where Q (update_where P f rows) \<le> count_where Q rows"
  by (induction rows) auto

lemma gate_capacity:
  assumes ok: "db_ok d" and cap: "within_capacity d"
    and u: "update_claims True (capacity_gate k s d) (\<lambda>c. c\<lparr>cl_status := CLAIM_STATUS_SUCCESS\<rparr>) d = Inr d1"
    and row: "find_row cl_id k (db_claims d) = Some c" "cl_spot_id c = s"
  shows "within_capacity d1"
  unfolding within_capacity_def
proof (intro ballI impI)
  fix q assume q: "q \<in> set (db_spots d1)" "\<not> is_prizedraw (sp_id q) d1 \<and> 0 < sp_max_total_claims q"
  note fr = update_claims_frame [OF u]
  have q0: "q \<in> set (db_spots d)" "\<not> is_prizedraw (sp_id q) d"
    using q fr(1) frame_get(2) [OF fr(1)] by (auto simp: claim_frame_def)
  have old: "count_claims_by_status_for_spot (sp_id q) CLAIM_STATUS_SUCCESS d \<le> sp_max_total_claims q"
    using cap q0 q(2) by (auto simp: within_capacity_def)
  have only: "x = c" if "x \<in> set (db_claims d)" "cl_id x = k" for x
    using db_ok_claim_row [OF ok that(1)] that(2) row(1) by simp
  show "count_claims_by_status_for_spot (sp_id q) CLAIM_STATUS_SUCCESS d1 \<le> sp_max_total_claims q"
  proof (cases "sp_id q = s \<and> (\<exists>x\<in>set (db_claims d). capacity_gate k s d x)")
    case True
    then have "get_spot s d = Some q" using db_ok_spot_row [OF ok q0(1)] by (simp add: get_spot_def)
    then have "count_claims_by_status_for_spot (sp_id q) CLAIM_STATUS_SUCCESS d < sp_max_total_claims q"
      using True by (auto simp: capacity_gate_def)
    moreover have "count_claims_by_status_for_spot (sp_id q) CLAIM_STATUS_SUCCESS d1
        \<le> count_claims_by_status_for_spot (sp_id q) CLAIM_STATUS_SUCCESS d + 1"
      unfolding count_claims_by_status_for_spot_def fr(3)
      by (rule count_update_unique [where key = cl_id and k = k])
         (use ok in \<open>auto simp: db_ok_def claims_ok_def capacity_gate_def\<close>)
    ultimately show ?thesis by simp
  next
    case False
    have "count_claims_by_status_for_spot (sp_id q) CLAIM_STATUS_SUCCESS d1
        \<le> count_claims_by_status_for_spot (sp_id q) CLAIM_STATUS_SUCCESS d"
    proof -
      have *: "x \<in> set (db_claims d) \<Longrightarrow> capacity_gate k s d x \<Longrightarrow> cl_spot_id x = sp_id q \<Longrightarrow> False" for x
        using only [of x] row(2) False by (auto simp: capacity_gate_def)
      then show ?thesis
        unfolding count_claims_by_status_for_spot_def fr(3) by (intro count_update_none) auto
    qed
    then show ?thesis using old by simp
  qed
qed

lemma base_promote_cases:
  assumes p: "promote_pending_claim_to_success_if_capacity_available k d = Inr (r, d')"
  obtains (same) "d' = d" "r = map_option plain (get_claim k d)"
  | (free) c m where "find_row cl_id k (db_claims d) = Some c" "cl_status c = CLAIM_STATUS_PENDING"
      "is_prizedraw (cl_spot_id c) d \<or> (\<exists>s. get_spot (cl_spot_id c) d = Some s \<and> sp_max_total_claims s \<le> 0)"
      "modify_claim_status k CLAIM_STATUS_SUCCESS d = Inr d'" "r = promoted True m (get_claim k d')"
  | (won) c d1 clean where "find_row cl_id k (db_claims d) = Some c" "cl_status c = CLAIM_STATUS_PENDING"
      "update_claims True (capacity_gate k (cl_spot_id c) d) (\<lambda>c. c\<lparr>cl_status := CLAIM_STATUS_SUCCESS\<rparr>) d = Inr d1"
      "0 < count_where (capacity_gate k (cl_spot_id c) d) (db_claims d)"
      "fail_pending_standard_duration_claims_if_capacity_full (cl_spot_id c) d1 = Inr (clean, d')"
      "r = map_option (\<lambda>o'. o'\<lparr>co_cleanup := Some clean\<rparr>) (promoted True ''promoted_with_capacity'' (get_claim k d1))"
  | (full) c d1 where "find_row cl_id k (db_claims d) = Some c" "cl_status c = CLAIM_STATUS_PENDING"
      "update_claims True (capacity_gate k (cl_spot_id c) d) (\<lambda>c. c\<lparr>cl_status := CLAIM_STATUS_SUCCESS\<rparr>) d = Inr d1"
      "\<not> 0 < count_where (capacity_gate k (cl_spot_id c) d) (db_claims d)"
      "modify_claim_status k CLAIM_STATUS_FAILED d1 = Inr d'" "\<exists>f. r = map_option f (promoted False ''capacity_full_claim_failed'' (get_claim k d'))
         \<and> (\<forall>o'. co_claim (f o') = co_claim o' \<and> co_promotion (f o') = co_promotion o')"
proof -
  show thesis
  proof (cases "get_claim k d")
    case None
    then show thesis using p same by (simp add: promote_pending_claim_to_success_if_capacity_available_def)
  next
    case (Some v)
    let ?c = "cd_claim v"
    have row: "find_row cl_id k (db_claims d) = Some ?c" by (rule get_claim_SomeD [OF Some])
    obtain s where s: "get_spot (cl_spot_id ?c) d = Some s" using get_claim_SomeD(4) [OF Some] by auto
    show thesis
    proof (cases "cl_status ?c = CLAIM_STATUS_PENDING")
      case False
      then show thesis
        using p Some same by (simp add: promote_pending_claim_to_success_if_capacity_available_def)
    next
      case pend: True
      show thesis
      proof (cases "is_prizedraw (cl_spot_id ?c) d \<or> sp_max_total_claims s \<le> 0")
        case True
        then show thesis
          using p Some s pend free [OF row pend]
          by (auto simp: promote_pending_claim_to_success_if_capacity_available_def set_claim_status_to_success_def Let_def
              split: if_splits)
      next
        case False
        let ?g = "capacity_gate k (cl_spot_id ?c) d"
        obtain d1 where d1: "update_claims True ?g (\<lambda>c. c\<lparr>cl_status := CLAIM_STATUS_SUCCESS\<rparr>) d = Inr d1"
          and rest: "(if 0 < count_where ?g (db_claims d)
          then let claim_after = get_claim k d1 in
               bindE (fail_pending_standard_duration_claims_if_capacity_full (cl_spot_id ?c) d1) (\<lambda>(clean, d2).
               Inr (map_option (\<lambda>o'. o'\<lparr>co_cleanup := Some clean\<rparr>)
                      (promoted True ''promoted_with_capacity'' claim_after), d2))
          else bindE (set_claim_status_to_failed k d1) (\<lambda>d2.
               Inr (map_option (\<lambda>o'. o'\<lparr>co_cleanup := Some \<lparr>cu_ok = True, cu_failed_count = 1,
                        cu_reason = ''capacity_full_current_claim_failed'',
                        cu_failed_claim_ids = [k],
                        cu_failed_user_ids = [cl_recipient (cd_claim (co_claim o'))]\<rparr>\<rparr>)
                      (promoted False ''capacity_full_claim_failed'' (get_claim k d2)), d2))) = Inr (r, d')"
          using p Some s pend False
          by (auto simp: promote_pending_claim_to_success_if_capacity_available_def Let_def)
        show thesis
        proof (cases "0 < count_where ?g (db_claims d)")
          case True
          then show thesis using rest won [OF row pend d1 True] by (auto simp: Let_def)
        next
          case f: False
          have "bindE (set_claim_status_to_failed k d1) (\<lambda>d2.
               Inr (map_option (\<lambda>o'. o'\<lparr>co_cleanup := Some \<lparr>cu_ok = True, cu_failed_count = 1,
                        cu_reason = ''capacity_full_current_claim_failed'',
                        cu_failed_claim_ids = [k],
                        cu_failed_user_ids = [cl_recipient (cd_claim (co_claim o'))]\<rparr>\<rparr>)
                      (promoted False ''capacity_full_claim_failed'' (get_claim k d2)), d2)) = Inr (r, d')"
            using rest f by simp
          then show thesis
            by (elim bindE_InrE) (rule full [OF row pend d1 f]; force simp: set_claim_status_to_failed_def)
        qed
      qed
    qed
  qed
qed

lemma update_claims_none:
  assumes "update_claims b P f d = Inr d1" and "\<not> 0 < count_where P (db_claims d)"
  shows "d1 = d"
proof -
  have n: "\<And>c. c \<in> set (db_claims d) \<Longrightarrow> \<not> P c" using assms(2) by (auto simp: count_where_pos_iff)
  then have "update_where P g (db_claims d) = db_claims d" for g
    by (auto simp: update_where_def intro!: map_idI)
  moreover have "filter P (db_claims d) = []" using n by (simp add: filter_empty_conv)
  ultimately show ?thesis using assms(1) by (simp add: update_claims_Inr Let_def cleanup_attempts_def)
qed

lemma free_capacity:
  assumes m: "modify_claim_status k CLAIM_STATUS_SUCCESS d = Inr d'" and ok: "db_ok d" and cap: "within_capacity d"
    and row: "find_row cl_id k (db_claims d) = Some c"
    and free: "is_prizedraw (cl_spot_id c) d \<or> (\<exists>s. get_spot (cl_spot_id c) d = Some s \<and> sp_max_total_claims s \<le> 0)"
  shows "within_capacity d'"
  unfolding within_capacity_def
proof (intro ballI impI)
  fix q assume q: "q \<in> set (db_spots d')" "\<not> is_prizedraw (sp_id q) d' \<and> 0 < sp_max_total_claims q"
  note st = modify_claim_status_Inr [OF m ok]
  have q0: "q \<in> set (db_spots d)" "\<not> is_prizedraw (sp_id q) d"
    using q st(2) frame_get(2) [OF st(2)] by (auto simp: claim_frame_def)
  have ne: "cl_spot_id c \<noteq> sp_id q"
    using free q0(2) q(2) db_ok_spot_row [OF ok q0(1)] by (auto simp: get_spot_def)
  have only: "x = c" if "x \<in> set (db_claims d)" "cl_id x = k" for x
    using db_ok_claim_row [OF ok that(1)] that(2) row by simp
  have "count_claims_by_status_for_spot (sp_id q) CLAIM_STATUS_SUCCESS d'
      \<le> count_claims_by_status_for_spot (sp_id q) CLAIM_STATUS_SUCCESS d"
    unfolding count_claims_by_status_for_spot_def st(4)
    by (rule count_update_none) (use only ne in auto)
  then show "count_claims_by_status_for_spot (sp_id q) CLAIM_STATUS_SUCCESS d' \<le> sp_max_total_claims q"
    using cap q0 q(2) by (fastforce simp: within_capacity_def)
qed

lemma reports_after_steps:
  assumes "reports k r d1" and "claim_steps d1 d'"
    and "\<And>o'. r = Some o' \<Longrightarrow> outcome_status o' \<noteq> CLAIM_STATUS_PENDING"
  shows "reports k r d'"
  unfolding reports_def
proof (intro allI impI)
  fix o' assume r: "r = Some o'"
  then obtain c where "find_row cl_id k (db_claims d1) = Some c" "cl_status c = outcome_status o'"
    using assms(1) by (auto simp: reports_def)
  then show "map_option cl_status (find_row cl_id k (db_claims d')) = Some (outcome_status o')"
    using claim_steps_find [OF assms(2)] assms(3) [OF r] by (fastforce simp: claim_step_def)
qed

lemma reports_map:
  "reports k r d \<Longrightarrow> (\<And>o'. co_claim (f o') = co_claim o') \<Longrightarrow> reports k (map_option f r) d"
  by (cases r) (simp_all add: reports_def outcome_status_def)

lemma won_row:
  assumes ok: "db_ok d"
    and u: "update_claims True (capacity_gate k s d) (\<lambda>c. c\<lparr>cl_status := CLAIM_STATUS_SUCCESS\<rparr>) d = Inr d1"
    and n: "0 < count_where (capacity_gate k s d) (db_claims d)"
    and row: "find_row cl_id k (db_claims d) = Some c"
  shows "find_row cl_id k (db_claims d1) = Some (c\<lparr>cl_status := CLAIM_STATUS_SUCCESS, cl_updated_at := db_now d\<rparr>)"
proof -
  obtain x where x: "x \<in> set (db_claims d)" "capacity_gate k s d x" using n by (auto simp: count_where_pos_iff)
  then have "x = c" using db_ok_claim_row [OF ok x(1)] row by (auto simp: capacity_gate_def)
  then show ?thesis
    using x(2) find_claim_update [OF update_claims_frame(3) [OF u], of k] row by simp
qed

lemma base_promote_safe:
  assumes p: "promote_pending_claim_to_success_if_capacity_available k d = Inr (r, d')" and ok: "db_ok d"
  shows "claim_safe d d' \<and> reports k r d' \<and> db_codes d' = db_codes d"
proof (cases rule: base_promote_cases [OF p, case_names same free won full])
  case same
  then show ?thesis using ok reports_plain [of k d]
    by (cases "get_claim k d") (auto simp: claim_safe_refl reports_def)
next
  case (free c m)
  note st = modify_claim_status_Inr [OF free(4) ok]
  show ?thesis
    using st(1-3) modify_pending_steps [OF free(4) ok free(1,2)] free_capacity [OF free(4) ok _ free(1,3)]
    by (simp add: claim_safe_def free(5) reports_promoted)
next
  case (won c d1 clean)
  have ok1: "db_ok d1" by (rule update_claims_ok [OF won(3) ok]) auto
  have steps: "claim_steps d d1" by (rule update_claims_steps [OF won(3)]) (auto simp: capacity_gate_def)
  have s1: "claim_safe d d1"
    using ok1 update_claims_frame(1) [OF won(3)] steps gate_capacity [OF ok _ won(3) won(1) refl]
    by (simp add: claim_safe_def)
  have s2: "claim_safe d1 d'" and codes: "db_codes d' = db_codes d"
    using fail_if_full_safe [OF won(5) ok1] update_claims_frame(2) [OF won(3)] by auto
  have rep: "reports k r d1"
    unfolding won(6) by (rule reports_map [OF reports_promoted]) simp
  have np: "outcome_status o' \<noteq> CLAIM_STATUS_PENDING" if "r = Some o'" for o'
  proof -
    have "map_option cl_status (find_row cl_id k (db_claims d1)) = Some (outcome_status o')"
      using that rep unfolding reports_def by blast
    then have "cl_status (c\<lparr>cl_status := CLAIM_STATUS_SUCCESS, cl_updated_at := db_now d\<rparr>) = outcome_status o'"
      unfolding won_row [OF ok won(3,4,1)] option.map option.inject .
    moreover have "cl_status (c\<lparr>cl_status := CLAIM_STATUS_SUCCESS, cl_updated_at := db_now d\<rparr>) = CLAIM_STATUS_SUCCESS"
      by simp
    ultimately have "outcome_status o' = CLAIM_STATUS_SUCCESS" by metis
    then show ?thesis by simp
  qed
  have "claim_steps d1 d'" using s2 by (simp add: claim_safe_def)
  then have "reports k r d'" by (rule reports_after_steps [OF rep _ np])
  then show ?thesis using claim_safe_trans [OF s1 s2] codes by simp
next
  case (full c d1)
  have d1: "d1 = d" by (rule update_claims_none [OF full(3,4)])
  have "claim_safe d d'"
    using full(5) unfolding d1 by (rule set_failed_safe) (use ok full(1,2) in auto)
  moreover have "reports k r d'"
    using full(6) by (auto intro!: reports_map [OF reports_promoted])
  moreover have "db_codes d' = db_codes d"
    using modify_claim_status_Inr(3) [OF full(5)] ok by (simp add: d1)
  ultimately show ?thesis by simp
qed

interpretation base: claim_promoter promote_pending_claim_to_success_if_capacity_available
  by unfold_locales (use base_promote_safe in blast)+

section \<open>The code policy over any inner promoter\<close>

text \<open>A consumed code belongs to a claim that succeeded.\<close>

definition codes_final :: "db \<Rightarrow> bool" where
  "codes_final d \<longleftrightarrow> (\<forall>k\<in>set (db_codes d). \<forall>c. cc_used_by k = Some c \<longrightarrow>
     map_option cl_status (find_row cl_id c (db_claims d)) = Some CLAIM_STATUS_SUCCESS)"

lemma codes_final_steps:
  assumes "codes_final d" and "claim_steps d d'" and "set (db_codes d') \<subseteq> set (db_codes d)"
  shows "codes_final d'"
  unfolding codes_final_def
proof (intro ballI allI impI)
  fix k c assume "k \<in> set (db_codes d')" "cc_used_by k = Some c"
  then have "map_option cl_status (find_row cl_id c (db_claims d)) = Some CLAIM_STATUS_SUCCESS"
    using assms(1,3) by (auto simp: codes_final_def)
  then obtain r where "find_row cl_id c (db_claims d) = Some r" "cl_status r = CLAIM_STATUS_SUCCESS" by auto
  then show "map_option cl_status (find_row cl_id c (db_claims d')) = Some CLAIM_STATUS_SUCCESS"
    using claim_steps_find [OF assms(2)] by (fastforce simp: claim_step_def)
qed

lemma update_used_by_frame:
  assumes "update_used_by P v d = Inr d'"
  shows "claim_frame d d'" "db_claims d' = db_claims d"
    "db_codes d' = update_where P (\<lambda>r. r\<lparr>cc_used_by := v\<rparr>) (db_codes d)"
  using assms by (auto simp: update_used_by_def Let_def claim_frame_def split: if_splits)

lemma same_claims_safe:
  assumes "db_ok d'" and "claim_frame d d'" and "db_claims d' = db_claims d"
  shows "claim_safe d d'"
  using assms within_capacity_mono [OF _ assms(2)]
  by (auto simp: claim_safe_def claim_steps_def claim_step_def list.rel_refl count_claims_by_status_for_spot_def)

lemma update_used_by_safe: "update_used_by P v d = Inr d' \<Longrightarrow> db_ok d \<Longrightarrow> claim_safe d d'"
  using update_used_by_ok update_used_by_frame same_claims_safe by blast

lemma update_used_by_none:
  assumes "update_used_by P v d = Inr d'" and "count_where P (db_codes d) = 0"
  shows "d' = d"
proof -
  have "update_where P (\<lambda>r. r\<lparr>cc_used_by := v\<rparr>) (db_codes d) = db_codes d"
    using assms(2) by (auto simp: update_where_def count_where_0_iff intro!: map_idI)
  then show ?thesis using assms(1) by (auto simp: update_used_by_def Let_def split: if_splits)
qed

lemma failed_promotion_safe:
  assumes "failed_promotion k m d = Inr (r, d')" and "db_ok d"
    and "find_row cl_id k (db_claims d) = Some c" and "cl_status c = CLAIM_STATUS_PENDING"
  shows "claim_safe d d' \<and> reports k r d' \<and> db_codes d' = db_codes d"
proof -
  have m: "modify_claim_status k CLAIM_STATUS_FAILED d = Inr d'" "r = promoted False m (get_claim k d')"
    using assms(1) by (auto simp: failed_promotion_def set_claim_status_to_failed_def)
  show ?thesis
    using set_failed_safe [OF m(1) assms(2) _ assms(3,4)] reports_promoted modify_claim_status_Inr(3) [OF m(1) assms(2)]
    by (simp add: m(2))
qed

locale inner_promoter = claim_promoter +
  assumes promote_codes: "promote k d = Inr (r, d') \<Longrightarrow> db_ok d \<Longrightarrow> db_codes d' = db_codes d"
begin

lemma policy_cases:
  assumes p: "promote_pending_claim_to_success_if_code_available promote k d = Inr (r, d')"
  obtains (same) "d' = d" "r = map_option plain (get_claim k d)"
  | (inner) "promote k d = Inr (r, d')"
  | (failed) c m where "find_row cl_id k (db_claims d) = Some c" "cl_status c = CLAIM_STATUS_PENDING"
      "failed_promotion k m d = Inr (r, d')"
  | (won) i d1 where "update_used_by (\<lambda>q. cc_id q = i \<and> (cc_used_by q = None \<or> cc_used_by q = Some k)) (Some k) d = Inr d1"
      "promote k d1 = Inr (r, d')" "\<exists>o'. r = Some o' \<and> outcome_status o' = CLAIM_STATUS_SUCCESS"
  | (lost) i d1 d2 where "update_used_by (\<lambda>q. cc_id q = i \<and> (cc_used_by q = None \<or> cc_used_by q = Some k)) (Some k) d = Inr d1"
      "promote k d1 = Inr (r, d2)" "release_code_from_claim k d2 = Inr d'"
proof (cases "get_claim k d")
  case None
  then show thesis using p same by (simp add: promote_pending_claim_to_success_if_code_available_def)
next
  case (Some v)
  obtain s where s: "get_spot (cl_spot_id (cd_claim v)) d = Some s" using get_claim_SomeD(4) [OF Some] by auto
  show thesis
  proof (cases "cl_status (cd_claim v) = CLAIM_STATUS_PENDING")
    case False
    then show thesis using p Some same by (simp add: promote_pending_claim_to_success_if_code_available_def)
  next
    case pend: True
    note row = get_claim_SomeD(1) [OF Some]
    show thesis
    proof (cases "sp_use_password s = 1")
      case False
      then show thesis using p Some s pend inner by (simp add: promote_pending_claim_to_success_if_code_available_def)
    next
      case pw: True
      show thesis
      proof (cases "attempt_for_claim k d")
        case None
        then show thesis using p Some s pend pw failed [OF row pend]
          by (simp add: promote_pending_claim_to_success_if_code_available_def)
      next
        case (Some a)
        let ?P = "\<lambda>q. cc_id q = at_code_id a \<and> (cc_used_by q = None \<or> cc_used_by q = Some k)"
        obtain d1 where d1: "update_used_by ?P (Some k) d = Inr d1"
          and rest: "(if count_where ?P (db_codes d) = 0 then failed_promotion k ''claim_code_already_used'' d1
             else bindE (promote k d1) (\<lambda>(result, d2).
               if (case result of None \<Rightarrow> False | Some r \<Rightarrow> outcome_status r = CLAIM_STATUS_SUCCESS)
               then Inr (result, d2)
               else bindE (release_code_from_claim k d2) (\<lambda>d3. Inr (result, d3)))) = Inr (r, d')"
          using p \<open>get_claim k d = Some v\<close> s pend pw Some
          by (auto simp: promote_pending_claim_to_success_if_code_available_def Let_def)
        show thesis
        proof (cases "count_where ?P (db_codes d) = 0")
          case True
          then show thesis using rest failed [OF row pend] update_used_by_none [OF d1 True] by simp
        next
          case False
          obtain result d2 where res: "promote k d1 = Inr (result, d2)"
            and fin: "(if (case result of None \<Rightarrow> False | Some r \<Rightarrow> outcome_status r = CLAIM_STATUS_SUCCESS)
               then Inr (result, d2)
               else bindE (release_code_from_claim k d2) (\<lambda>d3. Inr (result, d3))) = Inr (r, d')"
            using rest False by (auto split: prod.splits)
          show thesis
            using won [OF d1] lost [OF d1] res fin by (auto split: if_splits option.splits)
        qed
      qed
    qed
  qed
qed

end

end
