(* ===== verification/ClaimPolicy.thy ===== *)
theory ClaimPolicy
  imports ClaimFacts
begin

text \<open>
  The code policy keeps the promoter contract and the agreement of consumed
  codes with successful claims, over any inner promoter that keeps the
  contract; the location heartbeat keeps them over any promoter. The
  interpretations discharge both contracts for the promoters of the code.
\<close>

section \<open>The code policy keeps the contract\<close>

lemma taken_code:
  assumes "q \<in> set (update_where P (\<lambda>r. r\<lparr>cc_used_by := Some k\<rparr>) rows)" and "cc_used_by q = Some c"
  shows "c = k \<or> (\<exists>q0\<in>set rows. cc_used_by q0 = Some c)"
proof -
  obtain x where "x \<in> set rows" "q = (if P x then x\<lparr>cc_used_by := Some k\<rparr> else x)"
    using assms(1) by (auto simp: update_where_def)
  then show ?thesis using assms(2) by (cases "P x") auto
qed

lemma released_code:
  assumes "q \<in> set (update_where (\<lambda>q. cc_used_by q = Some k) (\<lambda>r. r\<lparr>cc_used_by := None\<rparr>) rows)"
    and "cc_used_by q = Some c"
  shows "q \<in> set rows \<and> c \<noteq> k"
proof -
  obtain x where "x \<in> set rows" "q = (if cc_used_by x = Some k then x\<lparr>cc_used_by := None\<rparr> else x)"
    using assms(1) by (auto simp: update_where_def)
  then show ?thesis using assms(2) by (cases "cc_used_by x = Some k") auto
qed

context inner_promoter
begin

lemma policy_inner: "inner_promoter promote"
  by (rule inner_promoter_axioms)

lemma policy_safe:
  assumes p: "promote_pending_claim_to_success_if_code_available promote k d = Inr (r, d')" and ok: "db_ok d"
  shows "claim_safe d d' \<and> reports k r d'"
proof (cases rule: policy_cases [OF p, case_names same inner failed won lost])
  case same
  then show ?thesis using ok reports_plain [of k d]
    by (cases "get_claim k d") (auto simp: claim_safe_refl reports_def)
next
  case inner
  then show ?thesis using promote_safe promote_reports ok by blast
next
  case (failed c m)
  then show ?thesis using failed_promotion_safe ok by blast
next
  case (won i d1)
  have s: "claim_safe d d1" using update_used_by_safe won(1) ok by blast
  then have "db_ok d1" by (simp add: claim_safe_def)
  then show ?thesis using promote_safe [OF won(2)] promote_reports [OF won(2)] claim_safe_trans [OF s] by blast
next
  case (lost i d1 d2)
  have s1: "claim_safe d d1" using update_used_by_safe lost(1) ok by blast
  then have ok1: "db_ok d1" by (simp add: claim_safe_def)
  have s2: "claim_safe d1 d2" by (rule promote_safe [OF lost(2) ok1])
  then have ok2: "db_ok d2" by (simp add: claim_safe_def)
  have s3: "claim_safe d2 d'"
    using update_used_by_safe lost(3) ok2 unfolding release_code_from_claim_def by blast
  have "reports k r d'"
    using promote_reports [OF lost(2) ok1] update_used_by_frame(2) lost(3)
    by (auto simp: reports_def release_code_from_claim_def)
  then show ?thesis using claim_safe_trans [OF claim_safe_trans [OF s1 s2] s3] by blast
qed

lemma policy_final:
  assumes p: "promote_pending_claim_to_success_if_code_available promote k d = Inr (r, d')"
    and ok: "db_ok d" and fin: "codes_final d"
  shows "codes_final d'"
proof -
  have steps: "claim_steps d d'" using policy_safe [OF p ok] by (simp add: claim_safe_def)
  have same_codes: ?thesis if "db_codes d' = db_codes d"
    by (rule codes_final_steps [OF fin steps]) (simp add: that)
  show ?thesis
  proof (cases rule: policy_cases [OF p, case_names same inner failed won lost])
    case same then show ?thesis using fin by simp
  next
    case inner then show ?thesis using same_codes promote_codes ok by blast
  next
    case (failed c m)
    then show ?thesis using same_codes failed_promotion_safe ok by blast
  next
    case (won i d1)
    have ok1: "db_ok d1" using update_used_by_ok won(1) ok by blast
    have codes: "db_codes d' = db_codes d1" using promote_codes [OF won(2) ok1] .
    have k: "map_option cl_status (find_row cl_id k (db_claims d')) = Some CLAIM_STATUS_SUCCESS"
      using policy_safe [OF p ok] won(3) by (auto simp: reports_def)
    have old: "map_option cl_status (find_row cl_id c (db_claims d')) = Some CLAIM_STATUS_SUCCESS"
      if q: "q \<in> set (db_codes d)" "cc_used_by q = Some c" for q c
    proof -
      obtain row where row: "find_row cl_id c (db_claims d) = Some row" "cl_status row = CLAIM_STATUS_SUCCESS"
        using fin q by (auto simp: codes_final_def)
      then show ?thesis using claim_steps_find [OF steps row(1)] by (auto simp: claim_step_def)
    qed
    show ?thesis
      unfolding codes_final_def
    proof (intro ballI allI impI)
      fix q c assume q: "q \<in> set (db_codes d')" "cc_used_by q = Some c"
      then have "c = k \<or> (\<exists>q0\<in>set (db_codes d). cc_used_by q0 = Some c)"
        using taken_code q unfolding codes update_used_by_frame(3) [OF won(1)] by blast
      then show "map_option cl_status (find_row cl_id c (db_claims d')) = Some CLAIM_STATUS_SUCCESS"
        using k old by blast
    qed
  next
    case (lost i d1 d2)
    have ok1: "db_ok d1" using update_used_by_ok lost(1) ok by blast
    have codes2: "db_codes d2 = db_codes d1" using promote_codes [OF lost(2) ok1] .
    have codes': "db_codes d' = update_where (\<lambda>q. cc_used_by q = Some k) (\<lambda>r. r\<lparr>cc_used_by := None\<rparr>) (db_codes d2)"
      using update_used_by_frame(3) lost(3) unfolding release_code_from_claim_def by blast
    show ?thesis
      unfolding codes_final_def
    proof (intro ballI allI impI)
      fix q c assume q: "q \<in> set (db_codes d')" "cc_used_by q = Some c"
      have two: "q \<in> set (db_codes d2)" "c \<noteq> k"
        using released_code [OF q(1) [unfolded codes'] q(2)] by auto
      then have "\<exists>q0\<in>set (db_codes d). cc_used_by q0 = Some c"
        using taken_code [OF two(1) [unfolded codes2 update_used_by_frame(3) [OF lost(1)]] q(2)] by blast
      then obtain row where row: "find_row cl_id c (db_claims d) = Some row" "cl_status row = CLAIM_STATUS_SUCCESS"
        using fin by (auto simp: codes_final_def)
      then show "map_option cl_status (find_row cl_id c (db_claims d')) = Some CLAIM_STATUS_SUCCESS"
        using claim_steps_find [OF steps row(1)] by (auto simp: claim_step_def)
    qed
  qed
qed

end

interpretation base_inner: inner_promoter promote_pending_claim_to_success_if_capacity_available
  by unfold_locales (use base_promote_safe in blast)

text \<open>A promoter that also keeps consumed codes with successful claims: the one in use.\<close>

locale code_promoter = claim_promoter +
  assumes promote_final: "promote k d = Inr (r, d') \<Longrightarrow> db_ok d \<Longrightarrow> codes_final d \<Longrightarrow> codes_final d'"
begin

lemma modify_codes_final:
  assumes "modify_claim_status k st d = Inr d'" and "db_ok d" and "codes_final d"
    and "find_row cl_id k (db_claims d) = Some c" and "cl_status c = CLAIM_STATUS_PENDING"
  shows "codes_final d'"
  by (rule codes_final_steps [OF assms(3) modify_pending_steps [OF assms(1,2,4,5)]])
    (simp add: modify_claim_status_Inr(3) [OF assms(1,2)])

lemma refresh_final:
  assumes "refresh_claim_status_from_conditions promote k d = Inr (r, d')" and ok: "db_ok d" and fin: "codes_final d"
  shows "codes_final d'"
proof (cases "get_claim k d")
  case None
  then show ?thesis using assms by (simp add: refresh_claim_status_from_conditions_def)
next
  case (Some v)
  show ?thesis
    using assms Some get_claim_pending_row [OF Some]
    by (auto simp: refresh_claim_status_from_conditions_def Let_def set_claim_status_to_failed_def
        intro: promote_final modify_codes_final split: if_splits option.splits)
qed

end

interpretation policy: code_promoter policy_promoter
proof unfold_locales
  fix k d r d' assume p: "policy_promoter k d = Inr (r, d')" and ok: "db_ok d"
  note q = p [unfolded policy_promoter_def]
  show "claim_safe d d'" "reports k r d'" using base_inner.policy_safe [OF q ok] by simp_all
  show "codes_final d'" if "codes_final d" by (rule base_inner.policy_final [OF q ok that])
qed

section \<open>The heartbeat\<close>

lemma score_update_safe:
  assumes u: "modify_claim_location_score k lat long sc (Some st) d = Inr d'" and ok: "db_ok d"
    and st: "st \<noteq> CLAIM_STATUS_SUCCESS"
    and row: "find_row cl_id k (db_claims d) = Some c" "cl_status c = CLAIM_STATUS_PENDING"
  shows "claim_safe d d'" and "db_codes d' = db_codes d"
    and "find_row cl_id k (db_claims d') = Some (c\<lparr>cl_lat := lat, cl_long := long,
           cl_accuracy := max 0 (min 1 sc), cl_status := st, cl_updated_at := db_now d\<rparr>)"
proof -
  let ?f = "\<lambda>c. c\<lparr>cl_lat := lat, cl_long := long, cl_accuracy := max 0 (min 1 sc), cl_status := st\<rparr>"
  have m: "update_claims True (\<lambda>c. cl_id c = k) ?f d = Inr d'"
    using u by (simp add: modify_claim_location_score_def update_claim_Inr Let_def)
  have only: "x = c" if "x \<in> set (db_claims d)" "cl_id x = k" for x
    using db_ok_claim_row [OF ok that(1)] that(2) row(1) by simp
  have "claim_steps d d'"
    unfolding claim_steps_def update_claims_frame(3) [OF m] update_where_def
    by (intro list_all2_map_self) (use only row(2) in \<open>auto simp: claim_step_def\<close>)
  moreover have "db_ok d'" by (rule update_claims_ok [OF m ok]) auto
  moreover have "within_capacity d \<Longrightarrow> within_capacity d'"
    by (rule update_claims_fail_capacity [OF m]) (use st in auto)
  ultimately show "claim_safe d d'" "db_codes d' = db_codes d"
    using update_claims_frame [OF m] by (simp_all add: claim_safe_def)
  show "find_row cl_id k (db_claims d') = Some (c\<lparr>cl_lat := lat, cl_long := long,
           cl_accuracy := max 0 (min 1 sc), cl_status := st, cl_updated_at := db_now d\<rparr>)"
    using find_claim_update [OF update_claims_frame(3) [OF m], of k] row(1) find_row_SomeD [OF row(1)] by simp
qed

lemma heartbeat_cases:
  assumes h: "process_duration_claim_location_heartbeat promote metres k u lat long acc d = Inr (o', d')"
  obtains (settled) v where "get_claim k d = Some v" "cl_recipient (cd_claim v) = u"
      "refresh_claim_status_from_conditions promote k d = Inr (Some o', d')"
  | (instant) v r d1 where "get_claim k d = Some v" "cl_recipient (cd_claim v) = u"
      "refresh_claim_status_from_conditions promote k d = Inr (Some r, d1)" "promote k d1 = Inr (Some o', d')"
  | (scored) v r d1 and dc :: distance_check and sc st d2 and o2 :: claim_outcome where "get_claim k d = Some v" "cl_recipient (cd_claim v) = u"
      "refresh_claim_status_from_conditions promote k d = Inr (Some r, d1)"
      "outcome_status r = CLAIM_STATUS_PENDING"
      "sc = next_score (cl_accuracy (cd_claim (co_claim r)))
              (duration_claim_penalty (dc_effective_distance_metres dc) (dc_radius_metres dc))"
      "st = (if sc \<le> 0 then CLAIM_STATUS_FAILED else CLAIM_STATUS_PENDING)"
      "modify_claim_location_score k lat long sc (Some st) d1 = Inr d2"
      "promote k d2 = Inr (Some o2, d') \<and> 0 < sc \<or> d' = d2 \<and> get_claim k d2 \<noteq> None \<and> o2 = plain (the (get_claim k d2))"
      "co_claim o' = co_claim o2"
proof -
  obtain v where v: "get_claim k d = Some v" "cl_recipient (cd_claim v) = u"
    using h by (auto simp: process_duration_claim_location_heartbeat_def split: option.splits if_splits)
  obtain r d1 where r: "refresh_claim_status_from_conditions promote k d = Inr (Some r, d1)"
    and rest: "(if outcome_status r \<noteq> CLAIM_STATUS_PENDING then Inr (r, d1)
          else let c = cd_claim (co_claim r) in
          (case get_spot (cl_spot_id c) d1 of
             None \<Rightarrow> Inr (r, d1)
           | Some s \<Rightarrow>
             if sp_claim_duration s \<le> 0
             then bindE (promote k d1) (\<lambda>(after, d2).
                  (case after of None \<Rightarrow> Inl (RuntimeError ''Claim disappeared during heartbeat'')
                   | Some o' \<Rightarrow> Inr (o', d2)))
             else bindE (validate_optional_coordinates (Some lat) (Some long)) (\<lambda>_.
                  bindE (get_claim_distance_check metres (cl_spot_id c) lat long acc d1) (\<lambda>check.
                  (case check of None \<Rightarrow> Inr (r, d1)
                   | Some dc \<Rightarrow>
                     let penalty = duration_claim_penalty (dc_effective_distance_metres dc) (dc_radius_metres dc);
                         score = next_score (cl_accuracy c) penalty;
                         next_status = (if score \<le> 0 then CLAIM_STATUS_FAILED else CLAIM_STATUS_PENDING);
                         should_promote = (0 < score \<and> cl_claimed_at c + sp_claim_duration s \<le> db_now d1)
                     in bindE (modify_claim_location_score k lat long score (Some next_status) d1) (\<lambda>d2.
                        bindE (if should_promote then promote k d2
                               else Inr (map_option plain (get_claim k d2), d2)) (\<lambda>(after, d3).
                        (case after of None \<Rightarrow> Inl (RuntimeError ''Claim disappeared during heartbeat'')
                         | Some o' \<Rightarrow> Inr (o'\<lparr>co_distance := Some dc, co_location_penalty := Some penalty\<rparr>, d3)))))))))
       = Inr (o', d')"
    using h v unfolding process_duration_claim_location_heartbeat_def
    by (auto elim!: bindE_InrE split: option.splits)
  show thesis
  proof (cases "outcome_status r = CLAIM_STATUS_PENDING")
    case False
    then have "o' = r" "d' = d1" using rest by simp_all
    then show thesis using settled v r by simp
  next
    case True
    let ?c = "cd_claim (co_claim r)"
    show thesis
    proof (cases "get_spot (cl_spot_id ?c) d1")
      case None
      then have "o' = r" "d' = d1" using rest True by simp_all
      then show thesis using settled v r by simp
    next
      case (Some s)
      show thesis
      proof (cases "sp_claim_duration s \<le> 0")
        case inst: True
        then have "promote k d1 = Inr (Some o', d')"
          using rest True Some by (auto elim!: bindE_InrE split: option.splits)
        then show thesis using instant v r by blast
      next
        case dur: False
        obtain check where chk: "get_claim_distance_check metres (cl_spot_id ?c) lat long acc d1 = Inr check"
          using rest True Some dur by (auto simp: Let_def elim!: bindE_InrE)
        show thesis
        proof (cases check)
          case None
          then have "o' = r" "d' = d1" using rest True Some dur chk by (auto simp: Let_def elim!: bindE_InrE)
          then show thesis using settled v r by simp
        next
          case dc: (Some dc)
          define sc where "sc = next_score (cl_accuracy ?c)
              (duration_claim_penalty (dc_effective_distance_metres dc) (dc_radius_metres dc))"
          define st where "st = (if sc \<le> 0 then CLAIM_STATUS_FAILED else CLAIM_STATUS_PENDING)"
          define sp where "sp \<longleftrightarrow> 0 < sc \<and> cl_claimed_at ?c + sp_claim_duration s \<le> db_now d1"
          have "bindE (modify_claim_location_score k lat long sc (Some st) d1) (\<lambda>d2.
                  bindE (if sp then promote k d2 else Inr (map_option plain (get_claim k d2), d2)) (\<lambda>(after, d3).
                  (case after of None \<Rightarrow> Inl (RuntimeError ''Claim disappeared during heartbeat'')
                   | Some o' \<Rightarrow> Inr (o'\<lparr>co_distance := Some dc, co_location_penalty := Some
                      (duration_claim_penalty (dc_effective_distance_metres dc) (dc_radius_metres dc))\<rparr>, d3))))
                = Inr (o', d')"
            using rest True Some dur chk dc unfolding sc_def [symmetric] st_def sp_def
            by (auto elim!: bindE_InrE simp: sc_def Let_def)
          then obtain d2 o2 where m: "modify_claim_location_score k lat long sc (Some st) d1 = Inr d2"
            and p: "(if sp then promote k d2 else Inr (map_option plain (get_claim k d2), d2)) = Inr (Some o2, d')"
            and o2: "co_claim o' = co_claim o2"
            by (auto elim!: bindE_InrE split: option.splits)
          have "promote k d2 = Inr (Some o2, d') \<and> 0 < sc
             \<or> d' = d2 \<and> get_claim k d2 \<noteq> None \<and> o2 = plain (the (get_claim k d2))"
            using p by (cases sp) (auto simp: sp_def)
          then show thesis using scored [OF v r True sc_def st_def m _ o2] by blast
        qed
      qed
    qed
  qed
qed

context claim_promoter
begin

lemma scored_row:
  assumes ref: "refresh_claim_status_from_conditions promote k d = Inr (Some r, d1)" and ok: "db_ok d"
    and pend: "outcome_status r = CLAIM_STATUS_PENDING"
  obtains c where "find_row cl_id k (db_claims d1) = Some c" "cl_status c = CLAIM_STATUS_PENDING"
    "claim_safe d d1" "db_ok d1"
proof -
  have s: "claim_safe d d1" by (rule refresh_safe [OF ref ok])
  have "map_option cl_status (find_row cl_id k (db_claims d1)) = Some CLAIM_STATUS_PENDING"
    using refresh_reports [OF ref ok] pend by (simp add: reports_def)
  then show thesis using s that by (auto simp: claim_safe_def)
qed

lemma heartbeat_safe:
  assumes h: "process_duration_claim_location_heartbeat promote metres k u lat long acc d = Inr (o', d')"
    and ok: "db_ok d"
  shows "claim_safe d d'"
proof (cases rule: heartbeat_cases [OF h, case_names settled instant scored])
  case (settled v)
  then show ?thesis using refresh_safe ok by blast
next
  case (instant v r d1)
  have s: "claim_safe d d1" by (rule refresh_safe [OF instant(3) ok])
  then have "claim_safe d1 d'" using promote_safe [OF instant(4)] by (simp add: claim_safe_def)
  then show ?thesis using claim_safe_trans s by blast
next
  case (scored v r d1 dc sc st d2 o2)
  obtain c where c: "find_row cl_id k (db_claims d1) = Some c" "cl_status c = CLAIM_STATUS_PENDING"
    "claim_safe d d1" "db_ok d1"
    by (rule scored_row [OF scored(3) ok scored(4)])
  have st: "st \<noteq> CLAIM_STATUS_SUCCESS" by (simp add: scored(6))
  have s2: "claim_safe d1 d2" by (rule score_update_safe(1) [OF scored(7) c(4) st c(1,2)])
  have "claim_safe d2 d'"
    using scored(8) promote_safe s2 by (auto simp: claim_safe_def claim_safe_refl)
  then show ?thesis using claim_safe_trans [OF claim_safe_trans [OF c(3) s2]] by blast
qed

lemma heartbeat_reports:
  assumes h: "process_duration_claim_location_heartbeat promote metres k u lat long acc d = Inr (o', d')"
    and ok: "db_ok d"
  shows "reports k (Some o') d'"
proof (cases rule: heartbeat_cases [OF h, case_names settled instant scored])
  case (settled v)
  then show ?thesis using refresh_reports ok by blast
next
  case (instant v r d1)
  have "db_ok d1" using refresh_safe [OF instant(3) ok] by (simp add: claim_safe_def)
  then show ?thesis by (rule promote_reports [OF instant(4)])
next
  case (scored v r d1 dc sc st d2 o2)
  obtain c where c: "find_row cl_id k (db_claims d1) = Some c" "cl_status c = CLAIM_STATUS_PENDING"
    "claim_safe d d1" "db_ok d1"
    by (rule scored_row [OF scored(3) ok scored(4)])
  have st: "st \<noteq> CLAIM_STATUS_SUCCESS" by (simp add: scored(6))
  have "db_ok d2" using score_update_safe(1) [OF scored(7) c(4) st c(1,2)] by (simp add: claim_safe_def)
  then have "reports k (Some o2) d'"
    using scored(8) promote_reports reports_plain by fastforce
  then show ?thesis by (simp add: reports_def outcome_status_def scored(9))
qed

end

context code_promoter
begin

lemma heartbeat_final:
  assumes h: "process_duration_claim_location_heartbeat promote metres k u lat long acc d = Inr (o', d')"
    and ok: "db_ok d" and fin: "codes_final d"
  shows "codes_final d'"
proof (cases rule: heartbeat_cases [OF h, case_names settled instant scored])
  case (settled v)
  then show ?thesis using refresh_final ok fin by blast
next
  case (instant v r d1)
  have "db_ok d1" using refresh_safe [OF instant(3) ok] by (simp add: claim_safe_def)
  then show ?thesis using promote_final [OF instant(4)] refresh_final [OF instant(3) ok fin] by blast
next
  case (scored v r d1 dc sc st d2 o2)
  obtain c where c: "find_row cl_id k (db_claims d1) = Some c" "cl_status c = CLAIM_STATUS_PENDING"
    "claim_safe d d1" "db_ok d1"
    by (rule scored_row [OF scored(3) ok scored(4)])
  have st: "st \<noteq> CLAIM_STATUS_SUCCESS" by (simp add: scored(6))
  note s2 = score_update_safe(1,2) [OF scored(7) c(4) st c(1,2)]
  then have ok2: "db_ok d2" and steps: "claim_steps d1 d2" by (simp_all add: claim_safe_def)
  have "codes_final d2"
    by (rule codes_final_steps [OF refresh_final [OF scored(3) ok fin] steps]) (simp add: s2(2))
  then show ?thesis using scored(8) promote_final ok2 by blast
qed

end

section \<open>Adding a claim\<close>

text \<open>The claims grow by at most one, and those that were there only take steps.\<close>

definition claim_grows :: "db \<Rightarrow> db \<Rightarrow> bool" where
  "claim_grows d d' \<longleftrightarrow> (\<forall>k c. find_row cl_id k (db_claims d) = Some c \<longrightarrow>
     (\<exists>c'. find_row cl_id k (db_claims d') = Some c' \<and> claim_step c c'))"

lemma claim_grows_refl: "claim_grows d d"
  by (simp add: claim_grows_def claim_step_def)

lemma claim_grows_trans: "claim_grows d d1 \<Longrightarrow> claim_grows d1 d2 \<Longrightarrow> claim_grows d d2"
  unfolding claim_grows_def by (meson claim_step_trans)

lemma claim_grows_steps: "claim_steps d d' \<Longrightarrow> claim_grows d d'"
  using claim_steps_find unfolding claim_grows_def by blast

definition claim_world :: "db \<Rightarrow> bool" where
  "claim_world d \<longleftrightarrow> db_ok d \<and> within_capacity d \<and> codes_final d"

lemma insert_claim_world:
  assumes ins: "insert_claim r d = Inr (i, d')" and st: "cl_status r = CLAIM_STATUS_PENDING"
    and w: "claim_world d"
  shows "claim_world d'" and "claim_grows d d'" and "claim_frame d d'" and "db_codes d' = db_codes d"
    and "find_row cl_id i (db_claims d) = None"
    and "find_row cl_id i (db_claims d') = Some (r\<lparr>cl_id := i, cl_claimed_at := db_now d, cl_updated_at := db_now d\<rparr>)"
proof -
  note I = insert_claim_Inr [OF ins]
  have sel: "db_claims d' = db_claims d @ [r\<lparr>cl_id := i, cl_claimed_at := db_now d, cl_updated_at := db_now d\<rparr>]"
    by (simp add: I(1))
  show fr: "claim_frame d d'" and codes: "db_codes d' = db_codes d" by (simp_all add: claim_frame_def I(1))
  show none: "find_row cl_id i (db_claims d) = None" using I(2) by (auto simp: find_row_None_iff)
  have keep: "find_row cl_id k (db_claims d') = Some c" if "find_row cl_id k (db_claims d) = Some c" for k c
    using that by (simp add: sel find_row_append)
  show "claim_grows d d'" using keep by (simp add: claim_grows_def claim_step_def)
  show "find_row cl_id i (db_claims d') = Some (r\<lparr>cl_id := i, cl_claimed_at := db_now d, cl_updated_at := db_now d\<rparr>)"
    using none by (simp add: sel find_row_append)
  have "db_ok d'" using insert_claim_ok [OF ins] w by (simp add: claim_world_def)
  moreover have "within_capacity d'"
    by (rule within_capacity_mono [OF _ fr])
      (use w st in \<open>auto simp: claim_world_def count_claims_by_status_for_spot_def sel\<close>)
  moreover have "codes_final d'"
    using w keep by (fastforce simp: claim_world_def codes_final_def codes)
  ultimately show "claim_world d'" by (simp add: claim_world_def)
qed

lemma claim_safe_world:
  "claim_safe d d' \<Longrightarrow> codes_final d' \<Longrightarrow> claim_world d \<Longrightarrow> claim_world d' \<and> claim_grows d d' \<and> claim_frame d d'"
  by (auto simp: claim_world_def claim_safe_def intro: claim_grows_steps)

lemma insert_attempt_world:
  assumes ins: "insert_attempt c k d = Inr d'" and w: "claim_world d"
  shows "claim_world d'" and "db_claims d' = db_claims d" and "claim_frame d d'"
proof -
  have sel: "db_claims d' = db_claims d" "db_codes d' = db_codes d" "claim_frame d d'"
    using ins by (auto simp: insert_attempt_def Let_def claim_frame_def split: if_splits)
  have "codes_final d'" using w by (simp add: claim_world_def codes_final_def sel)
  then show "claim_world d'"
    using same_claims_safe [OF insert_attempt_ok [OF ins] sel(3,1)] claim_safe_world w
    by (simp add: claim_world_def claim_safe_def)
  show "db_claims d' = db_claims d" "claim_frame d d'" by (fact sel)+
qed

lemma create_claim_or_refuse_Inr:
  assumes "create_claim_or_refuse dev s u la lo p d = Inr (i, d')"
  obtains a where "insert_claim \<lparr>cl_id = 0, cl_spot_id = s, cl_recipient = u, cl_payout_address = a,
       cl_lat = la, cl_long = lo, cl_accuracy = 1, cl_status = CLAIM_STATUS_PENDING,
       cl_claimed_at = 0, cl_updated_at = 0\<rparr> d = Inr (i, d')"
proof -
  have "create_claim dev s u la lo 1 p d = Inr (i, d')"
    using assms by (auto simp: create_claim_or_refuse_def split: sum.splits py_error.splits if_splits)
  then show thesis using that by (auto simp: create_claim_def elim!: bindE_InrE)
qed

lemma policy_world:
  assumes "policy_promoter k d = Inr (r, d')" and "claim_world d"
  shows "claim_world d' \<and> claim_grows d d' \<and> claim_frame d d' \<and> reports k r d'"
proof -
  have ok: "db_ok d" "codes_final d" using assms(2) by (simp_all add: claim_world_def)
  show ?thesis
    using claim_safe_world [OF policy.promote_safe [OF assms(1) ok(1)] policy.promote_final [OF assms(1) ok] assms(2)]
      policy.promote_reports [OF assms(1) ok(1)] by blast
qed

lemma attempt_cases:
  assumes a: "create_claim_attempt_success_only metres dev s u la lo acc code p d = Inr (o', d')"
  obtains row k i d1 d2 where
    "check_claim_attempt metres s u la lo acc code d = Inr (row, k)"
    "create_claim_or_refuse dev s u la lo p d = Inr (i, d1)"
    "(k = None \<and> d2 = d1) \<or> (\<exists>x q. k = Some (x, q) \<and> insert_attempt i (cc_id q) d1 = Inr d2)"
    "(0 < sp_claim_duration row \<and> reload_claim i d2 = Inr (o', d'))
     \<or> (sp_claim_duration row \<le> 0 \<and> (policy_promoter i d2 = Inr (Some o', d')
          \<or> (\<exists>d3. policy_promoter i d2 = Inr (None, d3) \<and> reload_claim i d3 = Inr (o', d'))))"
  using a
  unfolding create_claim_attempt_success_only_def
  by (auto simp: create_attempt_def elim!: bindE_InrE split: option.splits if_splits)

lemma reload_claim_Inr:
  "reload_claim k d = Inr (o', d') \<longleftrightarrow> d' = d \<and> (\<exists>v. get_claim k d = Some v \<and> o' = plain v)"
  by (auto simp: reload_claim_def split: option.splits)

lemma attempt_world:
  assumes a: "create_claim_attempt_success_only metres dev s u la lo acc code p d = Inr (o', d')"
    and w: "claim_world d"
  shows "claim_world d'" and "claim_grows d d'" and "claim_frame d d'"
    and "\<exists>i c. find_row cl_id i (db_claims d) = None \<and> find_row cl_id i (db_claims d') = Some c
       \<and> cl_spot_id c = s \<and> cl_recipient c = u \<and> cl_claimed_at c = db_now d \<and> cl_status c = outcome_status o'"
proof -
  obtain row k i d1 d2 where c:
    "check_claim_attempt metres s u la lo acc code d = Inr (row, k)"
    "create_claim_or_refuse dev s u la lo p d = Inr (i, d1)"
    "(k = None \<and> d2 = d1) \<or> (\<exists>x q. k = Some (x, q) \<and> insert_attempt i (cc_id q) d1 = Inr d2)"
    "(0 < sp_claim_duration row \<and> reload_claim i d2 = Inr (o', d'))
     \<or> (sp_claim_duration row \<le> 0 \<and> (policy_promoter i d2 = Inr (Some o', d')
          \<or> (\<exists>d3. policy_promoter i d2 = Inr (None, d3) \<and> reload_claim i d3 = Inr (o', d'))))"
    by (rule attempt_cases [OF a])
  obtain ad where ins: "insert_claim \<lparr>cl_id = 0, cl_spot_id = s, cl_recipient = u, cl_payout_address = ad,
       cl_lat = la, cl_long = lo, cl_accuracy = 1, cl_status = CLAIM_STATUS_PENDING,
       cl_claimed_at = 0, cl_updated_at = 0\<rparr> d = Inr (i, d1)"
    by (rule create_claim_or_refuse_Inr [OF c(2)])
  note I = insert_claim_world [OF ins _ w, simplified]
  have w2: "claim_world d2" "db_claims d2 = db_claims d1" "claim_frame d1 d2"
    using c(3) I(1) insert_attempt_world [OF _ I(1)] by auto
  have fin: "claim_world d' \<and> claim_grows d2 d' \<and> claim_frame d2 d' \<and> reports i (Some o') d'"
    using c(4) policy_world [OF _ w2(1)] w2(1) reports_plain claim_grows_refl
    by (auto simp: reload_claim_Inr)
  then show "claim_world d'" by simp
  have g2: "claim_grows d1 d2" by (simp add: claim_grows_def w2(2) claim_step_def)
  show "claim_grows d d'" using claim_grows_trans [OF claim_grows_trans [OF I(2) g2]] fin by blast
  show "claim_frame d d'" using claim_frame_trans [OF claim_frame_trans [OF I(3) w2(3)]] fin by blast
  obtain c' where c': "find_row cl_id i (db_claims d') = Some c'"
      "claim_step \<lparr>cl_id = i, cl_spot_id = s, cl_recipient = u, cl_payout_address = ad,
       cl_lat = la, cl_long = lo, cl_accuracy = 1, cl_status = CLAIM_STATUS_PENDING,
       cl_claimed_at = db_now d, cl_updated_at = db_now d\<rparr> c'"
    using fin I(6) w2(2) unfolding claim_grows_def by fastforce
  then show "\<exists>i c. find_row cl_id i (db_claims d) = None \<and> find_row cl_id i (db_claims d') = Some c
       \<and> cl_spot_id c = s \<and> cl_recipient c = u \<and> cl_claimed_at c = db_now d \<and> cl_status c = outcome_status o'"
    using I(5) fin by (intro exI [of _ i] exI [of _ c']) (auto simp: claim_step_def reports_def)
qed

lemma fail_pending_world:
  assumes "fail_pending_claims_for_spot s d = Inr (n, d')" and w: "claim_world d"
  shows "claim_world d' \<and> claim_grows d d' \<and> claim_frame d d'"
proof -
  have ok: "db_ok d" "codes_final d" using w by (simp_all add: claim_world_def)
  have s: "claim_safe d d'" by (rule fail_pending_safe [OF assms(1) ok(1)])
  have "db_codes d' = db_codes d"
    using assms(1) update_claims_frame(2) by (auto simp: fail_pending_claims_for_spot_def)
  then have "codes_final d'" using codes_final_steps [OF ok(2)] s by (simp add: claim_safe_def)
  then show ?thesis using claim_safe_world s w by blast
qed

lemma heartbeat_world:
  assumes "process_duration_claim_location_heartbeat policy_promoter metres k u la lo acc d = Inr (o', d')"
    and w: "claim_world d"
  shows "claim_world d' \<and> claim_grows d d' \<and> claim_frame d d'"
proof -
  have ok: "db_ok d" "codes_final d" using w by (simp_all add: claim_world_def)
  show ?thesis
    by (rule claim_safe_world [OF policy.heartbeat_safe [OF assms(1) ok(1)] policy.heartbeat_final [OF assms(1) ok] w])
qed

lemma refresh_world:
  assumes "refresh_claim_status_from_conditions policy_promoter k d = Inr (r, d')" and w: "claim_world d"
  shows "claim_world d' \<and> claim_grows d d' \<and> claim_frame d d'"
proof -
  have ok: "db_ok d" "codes_final d" using w by (simp_all add: claim_world_def)
  show ?thesis
    by (rule claim_safe_world [OF policy.refresh_safe [OF assms(1) ok(1)] policy.refresh_final [OF assms(1) ok] w])
qed

section \<open>Runs of the claim operations\<close>

text \<open>
  One committed transaction of the running application on claims, or the
  passing of time. SQLite serialises the writers, so a run is a sequence of these.
\<close>

inductive claim_op :: "distance_fun \<Rightarrow> bool \<Rightarrow> db \<Rightarrow> db \<Rightarrow> bool"
  for metres :: distance_fun and dev :: bool where
  attempt: "create_claim_attempt_success_only metres dev s u la lo acc code p d = Inr (o', d') \<Longrightarrow>
     claim_op metres dev d d'"
| promotion: "policy_promoter k d = Inr (r, d') \<Longrightarrow> claim_op metres dev d d'"
| expiry: "refresh_claim_status_from_conditions policy_promoter k d = Inr (r, d') \<Longrightarrow> claim_op metres dev d d'"
| heartbeat: "process_duration_claim_location_heartbeat policy_promoter metres k u la lo acc d = Inr (h, d') \<Longrightarrow>
     claim_op metres dev d d'"
| leftovers: "fail_pending_claims_for_spot s d = Inr (n, d') \<Longrightarrow> claim_op metres dev d d'"
| clock: "db_now d \<le> t \<Longrightarrow> claim_op metres dev d (d\<lparr>db_now := t\<rparr>)"

inductive claim_run :: "distance_fun \<Rightarrow> bool \<Rightarrow> db \<Rightarrow> db \<Rightarrow> bool"
  for metres :: distance_fun and dev :: bool where
  start: "claim_run metres dev d d"
| step: "claim_run metres dev d d1 \<Longrightarrow> claim_op metres dev d1 d2 \<Longrightarrow> claim_run metres dev d d2"

lemma clock_world:
  "claim_world d \<Longrightarrow> claim_world (d\<lparr>db_now := t\<rparr>)"
  by (simp add: claim_world_def within_capacity_def codes_final_def is_prizedraw_def
      get_prizedraw_def count_claims_by_status_for_spot_def)

lemma claim_op_world:
  "claim_op metres dev d d' \<Longrightarrow> claim_world d \<Longrightarrow> claim_world d' \<and> claim_grows d d'"
proof (induction rule: claim_op.induct)
  case (attempt s u la lo acc code p d o' d')
  then show ?case using attempt_world(1,2) [OF attempt(1)] by simp
next
  case (promotion k d r d')
  then show ?case using policy_world by blast
next
  case (expiry k d r d')
  then show ?case using refresh_world by blast
next
  case (heartbeat k u la lo acc d h d')
  then show ?case using heartbeat_world by blast
next
  case (leftovers s d n d')
  then show ?case using fail_pending_world by blast
next
  case (clock d t)
  then show ?case by (simp add: clock_world claim_grows_def claim_step_def)
qed

lemma claim_run_world:
  "claim_run metres dev d d' \<Longrightarrow> claim_world d \<Longrightarrow> claim_world d' \<and> claim_grows d d'"
proof (induction rule: claim_run.induct)
  case (start d)
  then show ?case by (simp add: claim_grows_refl)
next
  case (step d d1 d2)
  then show ?case using claim_op_world claim_grows_trans by blast
qed

end
