(* ===== verification/ClaimProps.thy ===== *)
theory ClaimProps
  imports ClaimPolicy
begin

text \<open>
  What the claim subsystem guarantees: no run of the claim operations overfills
  a Spot, revives a settled claim or spends a code without a success; a claim is
  only made by an eligible user; the heartbeat's arithmetic; the interaction of
  the heartbeat with the winners of a completed Prizedraw; and the episodes of
  the location behaviour guard.
\<close>

section \<open>Runs\<close>

text \<open>
  C3: Any sequence of claim attempts, promotions, expiries, heartbeats and
  clean-ups, in any interleaving, keeps the database consistent, never gives a
  standard Spot more successful claims than it has rewards, keeps every consumed
  code with a successful claim, and never changes a claim that left PENDING.
\<close>

theorem claim_runs_never_overfill:
  assumes "claim_run metres dev d d'" and "db_ok d" and "within_capacity d" and "codes_final d"
  shows "db_ok d'
    \<and> (\<forall>s\<in>set (db_spots d'). \<not> is_prizedraw (sp_id s) d' \<and> 0 < sp_max_total_claims s \<longrightarrow>
         count_claims_by_status_for_spot (sp_id s) CLAIM_STATUS_SUCCESS d' \<le> sp_max_total_claims s)
    \<and> (\<forall>k\<in>set (db_codes d'). \<forall>c. cc_used_by k = Some c \<longrightarrow>
         map_option cl_status (find_row cl_id c (db_claims d')) = Some CLAIM_STATUS_SUCCESS)
    \<and> (\<forall>k c. find_row cl_id k (db_claims d) = Some c \<and> cl_status c \<noteq> CLAIM_STATUS_PENDING \<longrightarrow>
         find_row cl_id k (db_claims d') = Some c)"
proof -
  have "claim_world d" using assms(2-4) by (simp add: claim_world_def)
  note w = claim_run_world [OF assms(1) this]
  have "find_row cl_id k (db_claims d') = Some c"
    if "find_row cl_id k (db_claims d) = Some c" "cl_status c \<noteq> CLAIM_STATUS_PENDING" for k c
    using w that unfolding claim_grows_def claim_step_def by metis
  then show ?thesis using w unfolding claim_world_def within_capacity_def codes_final_def by blast
qed

definition sample_full_db :: db where
  "sample_full_db = sample_claims_db\<lparr>db_spots := [sample_spot\<lparr>sp_max_total_claims := 1\<rparr>]\<rparr>"

theorem claim_runs_never_overfill_witness:
  "\<exists>d'. claim_run (\<lambda>_ _ _ _. 0) False sample_full_db d'
     \<and> map cl_status (db_claims d') = [CLAIM_STATUS_SUCCESS, CLAIM_STATUS_FAILED] \<and> db_ok d'"
proof -
  have "case policy_promoter 1 sample_full_db of Inl _ \<Rightarrow> False
      | Inr (_, d1) \<Rightarrow> (case policy_promoter 2 d1 of Inl _ \<Rightarrow> False
          | Inr (_, d2) \<Rightarrow> map cl_status (db_claims d2) = [CLAIM_STATUS_SUCCESS, CLAIM_STATUS_FAILED])"
    by code_simp
  then obtain r1 d1 where p1: "policy_promoter 1 sample_full_db = Inr (r1, d1)"
    and "case policy_promoter 2 d1 of Inl _ \<Rightarrow> False
      | Inr (_, d2) \<Rightarrow> map cl_status (db_claims d2) = [CLAIM_STATUS_SUCCESS, CLAIM_STATUS_FAILED]"
    by (auto split: sum.splits prod.splits)
  then obtain r2 d2 where p: "policy_promoter 2 d1 = Inr (r2, d2)"
    "map cl_status (db_claims d2) = [CLAIM_STATUS_SUCCESS, CLAIM_STATUS_FAILED]"
    by (cases "policy_promoter 2 d1") auto
  have run: "claim_run (\<lambda>_ _ _ _. 0) False sample_full_db d2"
    using p1 p(1) by (blast intro: claim_run.intros claim_op.intros)
  have "db_ok sample_full_db"
    by (simp add: sample_full_db_def sample_defs db_ok_defs user_check_def spot_check_def trans_check_def unique_on_def
      const_defs has_user_def has_spot_def claim_payout_slot_def cancellation_slot_def claim_check_def
      creation_fee_slot_def remainder_refund_slot_def)
  moreover have "within_capacity sample_full_db" "codes_final sample_full_db"
    by (simp_all add: sample_full_db_def sample_defs within_capacity_def codes_final_def
        count_claims_by_status_for_spot_def const_defs)
  ultimately show ?thesis
    using claim_runs_never_overfill [OF run] by (intro exI [of _ d2] conjI run p(2)) simp
qed

section \<open>Who may claim\<close>

lemma distance_check_Inr:
  assumes "get_claim_distance_check metres s la lo acc d = Inr (Some c)" and "get_spot s d = Some r"
  shows "\<exists>x y. sp_lat r = Some x \<and> sp_long r = Some y \<and> (dc_within_radius c \<longleftrightarrow>
    max 0 (fl (metres la lo x y - location_accuracy_margin_metres acc)) \<le> of_int (sp_radius r))"
  using assms by (auto simp: get_claim_distance_check_def Let_def split: option.splits)

lemma find_code_SomeD:
  "find_code s c d = Some k \<Longrightarrow> k \<in> set (db_codes d) \<and> cc_spot_id k = s \<and> cc_code k = c"
proof -
  assume "find_code s c d = Some k"
  then obtain i where i: "i < length (view_claim_code_detail d)" "k = view_claim_code_detail d ! i"
      "cc_spot_id k = s" "cc_code k = c"
    by (auto simp: find_code_def find_Some_iff)
  then have "k \<in> set (view_claim_code_detail d)" by simp
  then show ?thesis using i by (simp add: view_claim_code_detail_def)
qed

lemma py_strip_noop: "list_all (\<lambda>c. \<not> py_isspace c) s \<Longrightarrow> py_strip s = s"
proof -
  have "dropWhile py_isspace xs = xs" if "list_all (\<lambda>c. \<not> py_isspace c) xs" for xs
    using that by (cases xs) auto
  then show "list_all (\<lambda>c. \<not> py_isspace c) s \<Longrightarrow> py_strip s = s"
    by (simp add: py_strip_def list_all_rev)
qed

lemma alnum_not_space: "py_isalnum c \<Longrightarrow> \<not> py_isspace c"
  by (auto simp: py_isalnum_def py_isspace_def py_isdigit_def py_isupper_def py_islower_def Let_def)

lemma normalise_claim_code_idem:
  assumes "normalise_claim_code True v = Inr (Some c)"
  shows "normalise_claim_code True (Some c) = Inr (Some c)"
proof -
  have c: "c \<noteq> []" "list_all py_isalnum c" "list_all py_isascii c" "py_upper c = c"
    using assms normalise_claim_code_Inr [OF assms]
    by (auto simp: normalise_claim_code_def Let_def split: option.splits if_splits)
  have "py_strip c = c" by (rule py_strip_noop) (use c(2) alnum_not_space in \<open>auto simp: list_all_iff\<close>)
  then show ?thesis using c by (simp add: normalise_claim_code_def clean_optional_text_def Let_def)
qed

lemma normalise_required: "normalise_claim_code True v = Inr c \<Longrightarrow> \<exists>x. c = Some x"
  by (auto simp: normalise_claim_code_def Let_def split: option.splits if_splits)

lemma presented_code:
  assumes "normalise_claim_code True v = Inr c" and "get_claim_code_by_code s c d = Inr (Some k)"
  shows "k \<in> set (db_codes d) \<and> cc_spot_id k = s \<and> c = Some (cc_code k)"
proof -
  obtain x where x: "c = Some x" using normalise_required [OF assms(1)] by blast
  have "normalise_claim_code True (Some x) = Inr (Some x)"
    by (rule normalise_claim_code_idem) (use assms(1) x in simp)
  then have "find_code s x d = Some k" using assms(2) by (simp add: get_claim_code_by_code_def x)
  then show ?thesis using find_code_SomeD x by blast
qed

lemma check_claim_attempt_Inr:
  assumes "check_claim_attempt metres s u la lo acc code d = Inr (row, k)"
  obtains rule where "get_spot s d = Some row"
    "get_claim_rule_check metres s u (Some la) (Some lo) acc d = Inr rule" "rc_allowed rule"
    "\<not> has_spot_cancellation_started s d"
    "sp_use_password row = 1 \<longrightarrow> (\<exists>q. k = Some (cc_code q, q) \<and> q \<in> set (db_codes d)
       \<and> cc_spot_id q = s \<and> cc_used_by q = None \<and> normalise_claim_code True code = Inr (Some (cc_code q)))"
    "sp_use_password row \<noteq> 1 \<longrightarrow> k = None"
proof -
  obtain row' where row: "get_spot s d = Some row'" using assms by (auto simp: check_claim_attempt_def split: option.splits)
  obtain rule where rule: "get_claim_rule_check metres s u (Some la) (Some lo) acc d = Inr rule" "rc_allowed rule"
    using assms row by (auto simp: check_claim_attempt_def elim!: bindE_InrE split: option.splits if_splits)
  obtain c where c: "normalise_claim_code (sp_use_password row' = 1) code = Inr c"
    using assms row rule by (auto simp: check_claim_attempt_def Let_def elim!: bindE_InrE)
  have rest: "bindE (if sp_use_password row' = 1
              then bindE (get_claim_code_by_code s c d) (\<lambda>existing.
                (case existing of
                   None \<Rightarrow> Inl (ValueError ''That claim code is not valid for this spot.'')
                 | Some k \<Rightarrow> if cc_used_by k \<noteq> None
                             then Inl (ValueError ''This code has already been used.'')
                             else Inr (Some (the c, k))))
              else Inr None) (\<lambda>code.
       if has_spot_cancellation_started s d
       then Inl (ValueError ''This spot is being cancelled and can no longer be claimed.'')
       else Inr (row', code)) = Inr (row, k)"
    using assms row rule c by (simp add: check_claim_attempt_def Let_def)
  then have "row' = row" "\<not> has_spot_cancellation_started s d" "sp_use_password row' \<noteq> 1 \<Longrightarrow> k = None"
    by (auto elim!: bindE_InrE split: if_splits)
  moreover have "\<exists>q. k = Some (cc_code q, q) \<and> q \<in> set (db_codes d)
       \<and> cc_spot_id q = s \<and> cc_used_by q = None \<and> normalise_claim_code True code = Inr (Some (cc_code q))"
    if pw: "sp_use_password row' = 1"
  proof -
    have c1: "normalise_claim_code True code = Inr c" using c pw by simp
    obtain q where q: "get_claim_code_by_code s c d = Inr (Some q)" "cc_used_by q = None" "k = Some (the c, q)"
      using rest pw by (auto elim!: bindE_InrE split: option.splits if_splits)
    show ?thesis using presented_code [OF c1 q(1)] q c1 by simp
  qed
  ultimately show thesis using that row rule by blast
qed

text \<open>
  C4: A claim that the running application accepts was made on a published,
  started, unexpired Spot of somebody else, by a user who is neither banned nor
  blocked, with capacity left, under the per-user limit, from inside the radius
  (up to the accuracy margin), before any cancellation, and on a password Spot
  with an unused code of that Spot; it adds exactly one fresh claim of that user.
\<close>

theorem claim_attempt_eligible:
  assumes a: "create_claim_attempt_success_only metres dev s u la lo acc code p d = Inr (o', d')"
    and w: "db_ok d" "within_capacity d" "codes_final d"
  shows "(\<exists>r x y start. get_spot s d = Some r \<and> sp_status r = SPOT_STATUS_PUBLISHED \<and> sp_created_by r \<noteq> u
      \<and> can_user_claim u d \<and> \<not> has_spot_cancellation_started s d
      \<and> (sp_starts_at r = None \<or> sp_starts_at r = Some start \<and> start \<le> db_now d \<and> db_now d < start + sp_ends_at r)
      \<and> is_spot_claim_capacity_available s d
      \<and> (0 < sp_max_claims_per_user r \<longrightarrow> count_active_claims_for_user_spot s u d < sp_max_claims_per_user r)
      \<and> sp_lat r = Some x \<and> sp_long r = Some y
      \<and> max 0 (fl (metres la lo x y - location_accuracy_margin_metres acc)) \<le> of_int (sp_radius r)
      \<and> (sp_use_password r = 1 \<longrightarrow> (\<exists>q\<in>set (db_codes d). cc_spot_id q = s \<and> cc_used_by q = None
            \<and> normalise_claim_code True code = Inr (Some (cc_code q)))))
    \<and> (\<exists>i c. find_row cl_id i (db_claims d) = None \<and> find_row cl_id i (db_claims d') = Some c
      \<and> cl_spot_id c = s \<and> cl_recipient c = u \<and> cl_claimed_at c = db_now d \<and> cl_status c = outcome_status o')"
proof -
  obtain r k where chk: "check_claim_attempt metres s u la lo acc code d = Inr (r, k)"
    by (rule attempt_cases [OF a]) blast
  obtain rule where C: "get_spot s d = Some r"
    "get_claim_rule_check metres s u (Some la) (Some lo) acc d = Inr rule" "rc_allowed rule"
    "\<not> has_spot_cancellation_started s d"
    "sp_use_password r = 1 \<longrightarrow> (\<exists>q. k = Some (cc_code q, q) \<and> q \<in> set (db_codes d)
       \<and> cc_spot_id q = s \<and> cc_used_by q = None \<and> normalise_claim_code True code = Inr (Some (cc_code q)))"
    "sp_use_password r \<noteq> 1 \<longrightarrow> k = None"
    by (rule check_claim_attempt_Inr [OF chk])
  note R = rule_check_allowedD [OF C(2,3)]
  have ok: "spots_ok d" using w(1) by (simp add: db_ok_def)
  obtain v where v: "get_public_spot s d = Some v" "pv_availability_rank v = 0" using R(4) by blast
  have pub: "publicly_listed d r" "case sp_starts_at r of None \<Rightarrow> True | Some t \<Rightarrow> t \<le> db_now d"
    using v C(1) by (auto simp: get_public_spot_eq [OF ok] view_public_spot_def Let_def split: if_splits option.splits)
  obtain c where "get_claim_distance_check metres s la lo acc d = Inr (Some c)" "dc_within_radius c"
    using C(2,3) by (auto simp: get_claim_rule_check_def Let_def elim!: bindE_InrE split: option.splits)
  then obtain x y where xy: "sp_lat r = Some x" "sp_long r = Some y"
    "max 0 (fl (metres la lo x y - location_accuracy_margin_metres acc)) \<le> of_int (sp_radius r)"
    using distance_check_Inr C(1) by blast
  have lim: "0 < sp_max_claims_per_user r \<longrightarrow> count_active_claims_for_user_spot s u d < sp_max_claims_per_user r"
    using R(6) C(1) by (auto simp: has_user_reached_claim_limit_def)
  have own: "sp_created_by r \<noteq> u" using R(2) C(1) by (simp add: is_spot_owned_by_user_def)
  have time: "\<exists>start. sp_starts_at r = None \<or> sp_starts_at r = Some start \<and> start \<le> db_now d \<and> db_now d < start + sp_ends_at r"
    using pub by (cases "sp_starts_at r") (auto simp: publicly_listed_def)
  have pw: "sp_use_password r = 1 \<longrightarrow> (\<exists>q\<in>set (db_codes d). cc_spot_id q = s \<and> cc_used_by q = None
            \<and> normalise_claim_code True code = Inr (Some (cc_code q)))" using C(5) by blast
  have st: "sp_status r = SPOT_STATUS_PUBLISHED" using pub(1) by (simp add: publicly_listed_def)
  have new: "\<exists>i c. find_row cl_id i (db_claims d) = None \<and> find_row cl_id i (db_claims d') = Some c
      \<and> cl_spot_id c = s \<and> cl_recipient c = u \<and> cl_claimed_at c = db_now d \<and> cl_status c = outcome_status o'"
    using attempt_world(4) [OF a] w by (simp add: claim_world_def)
  show ?thesis
    using C(1,4) R(1,5) time st own lim xy pw by (intro conjI new) blast
qed

theorem claim_attempt_eligible_witness:
  "\<exists>o' d'. create_claim_attempt_success_only (\<lambda>_ _ _ _. 150) False 1 2 0 0 (Some 20) None None sample_db = Inr (o', d')
     \<and> (\<exists>i c. find_row cl_id i (db_claims d') = Some c \<and> cl_recipient c = 2)"
proof -
  have "is_ok (create_claim_attempt_success_only (\<lambda>_ _ _ _. 150) False 1 2 0 0 (Some 20) None None sample_db)"
    by code_simp
  then obtain o' d' where r:
    "create_claim_attempt_success_only (\<lambda>_ _ _ _. 150) False 1 2 0 0 (Some 20) None None sample_db = Inr (o', d')"
    by (auto simp: is_ok_iff)
  have "within_capacity sample_db" "codes_final sample_db"
    by (simp_all add: sample_defs within_capacity_def codes_final_def count_claims_by_status_for_spot_def const_defs)
  then show ?thesis using claim_attempt_eligible [OF r sample_db_ok] r by blast
qed

section \<open>The heartbeat score\<close>

lemma fl_nonneg: "0 \<le> x \<Longrightarrow> 0 \<le> fl x"
  using fl_mono [of 0 x] by simp

lemma next_score_le:
  assumes "0 \<le> s" "s \<le> 1" "fl s = s" "0 \<le> p"
  shows "0 \<le> next_score s p" and "next_score s p \<le> s" and "fl (next_score s p) = next_score s p"
proof -
  have "fl (s - p) \<le> fl s" by (rule fl_mono) (use assms(4) in simp)
  then show "0 \<le> next_score s p" "next_score s p \<le> s" "fl (next_score s p) = next_score s p"
    using assms by (auto simp: next_score_def max_def)
qed

lemma duration_claim_penalty_nonneg: "0 \<le> duration_claim_penalty e r"
  by (simp add: duration_claim_penalty_def Let_def)

text \<open>The doubles that readings one metre outside the radius leave, from 1 down to 0.\<close>

lemma soft_steps:
  "next_score 1 (duration_claim_penalty 101 100) = (8106479329266893 / 9007199254740992)"
  "next_score (8106479329266893 / 9007199254740992) (duration_claim_penalty 101 100) = (3602879701896397 / 4503599627370496)"
  "next_score (3602879701896397 / 4503599627370496) (duration_claim_penalty 101 100) = (6305039478318695 / 9007199254740992)"
  "next_score (6305039478318695 / 9007199254740992) (duration_claim_penalty 101 100) = (1351079888211149 / 2251799813685248)"
  "next_score (1351079888211149 / 2251799813685248) (duration_claim_penalty 101 100) = (4503599627370497 / 9007199254740992)"
  "next_score (4503599627370497 / 9007199254740992) (duration_claim_penalty 101 100) = (1801439850948199 / 4503599627370496)"
  "next_score (1801439850948199 / 4503599627370496) (duration_claim_penalty 101 100) = (2702159776422299 / 9007199254740992)"
  "next_score (2702159776422299 / 9007199254740992) (duration_claim_penalty 101 100) = (7205759403792799 / 36028797018963968)"
  "next_score (7205759403792799 / 36028797018963968) (duration_claim_penalty 101 100) = (1801439850948201 / 18014398509481984)"
  "next_score (1801439850948201 / 18014398509481984) (duration_claim_penalty 101 100) = (5 / 36028797018963968)"
  "next_score (5 / 36028797018963968) (duration_claim_penalty 101 100) = 0"
  by code_simp+

text \<open>
  C18: One heartbeat never raises a claim's location score and keeps it a
  double-precision number between 0 and 1; a reading inside the radius leaves it
  as it is, and readings one metre outside the radius are survived ten times,
  the eleventh ends the claim: in binary64 ten subtractions of 0.10 from 1 leave
  about 1.4e-16, not 0.
\<close>

theorem heartbeat_score:
  assumes "0 \<le> s" "s \<le> 1" "fl s = s"
  shows "0 \<le> next_score s (duration_claim_penalty e r) \<and> next_score s (duration_claim_penalty e r) \<le> s
    \<and> fl (next_score s (duration_claim_penalty e r)) = next_score s (duration_claim_penalty e r)
    \<and> (e \<le> of_int r \<longrightarrow> next_score s (duration_claim_penalty e r) = s)
    \<and> 0 < ((\<lambda>x. next_score x (duration_claim_penalty 101 100)) ^^ 10) 1
    \<and> ((\<lambda>x. next_score x (duration_claim_penalty 101 100)) ^^ 11) 1 = 0"
proof -
  have inside: "next_score s (duration_claim_penalty e r) = s" if "e \<le> of_int r"
  proof -
    have "fl (e - of_int r) \<le> fl 0" by (rule fl_mono) (use that in simp)
    then have "duration_claim_penalty e r = 0" by (simp add: duration_claim_penalty_def Let_def)
    then show ?thesis using assms by (simp add: next_score_def)
  qed
  have ten: "0 < ((\<lambda>x. next_score x (duration_claim_penalty 101 100)) ^^ 10) 1"
    by (simp add: eval_nat_numeral soft_steps)
  have eleven: "((\<lambda>x. next_score x (duration_claim_penalty 101 100)) ^^ 11) 1 = 0"
    by (simp add: eval_nat_numeral soft_steps)
  show ?thesis
    using next_score_le [OF assms duration_claim_penalty_nonneg] inside ten eleven by blast
qed

theorem heartbeat_score_witness:
  "next_score 1 (duration_claim_penalty 101 100) \<le> 1"
proof -
  have "fl 1 = (1::rat)" using fl_of_nat [of 1] by simp
  then show ?thesis using heartbeat_score [of 1 101 100] by simp
qed

section \<open>The heartbeat of a Prizedraw winner\<close>

lemma promote_prizedraw_entry:
  assumes ok: "db_ok d" and now: "0 < db_now d"
    and c: "get_claim k d = Some v" "cl_status (cd_claim v) = CLAIM_STATUS_PENDING"
    and s: "get_spot (cl_spot_id (cd_claim v)) d = Some r" "sp_use_password r \<noteq> 1"
      "is_prizedraw (cl_spot_id (cd_claim v)) d"
  shows "\<exists>o' d'. policy_promoter k d = Inr (Some o', d') \<and> db_trans d' = db_trans d
    \<and> db_claims d' = update_where (\<lambda>c. cl_id c = k)
         (\<lambda>c. c\<lparr>cl_status := CLAIM_STATUS_SUCCESS, cl_updated_at := db_now d\<rparr>) (db_claims d)"
proof -
  have rows: "list_all claim_check (db_claims d)" using ok by (auto simp: db_ok_def claims_ok_def list_all_iff)
  let ?f = "\<lambda>c. c\<lparr>cl_status := CLAIM_STATUS_SUCCESS, cl_updated_at := db_now d\<rparr>"
  have "list_all claim_check (update_where (\<lambda>c. cl_id c = k) ?f (db_claims d))"
    using rows now by (auto simp: list_all_iff update_where_def claim_check_def)
  then obtain d' where u: "update_claims True (\<lambda>c. cl_id c = k) (\<lambda>c. c\<lparr>cl_status := CLAIM_STATUS_SUCCESS\<rparr>) d = Inr d'"
    by (auto simp: update_claims_def Let_def)
  have one: "count_where (\<lambda>c. cl_id c = k) (db_claims d) = 1"
    using ok get_claim_SomeD(1) [OF c(1)] by (intro count_where_key) (auto simp: db_ok_def claims_ok_def)
  have m: "modify_claim_status k CLAIM_STATUS_SUCCESS d = Inr d'"
    using u one by (simp add: modify_claim_status_def update_claim_Inr)
  note st = modify_claim_status_Inr [OF m ok]
  have view: "get_claim k d' \<noteq> None"
  proof -
    have "find_row cl_id k (db_claims d') = Some (?f (cd_claim v))"
      using find_claim_update [OF st(4), of k] get_claim_SomeD(1,2) [OF c(1)] by simp
    moreover have "view_claim_detail d (cd_claim v) \<noteq> None"
      using c(1) get_claim_SomeD(1) [OF c(1)] by (simp add: get_claim_def)
    ultimately show ?thesis
      using st(2) by (auto simp: get_claim_def view_claim_detail_def get_spot_def get_user_by_id_def claim_frame_def
          Let_def split: option.splits)
  qed
  then obtain w where w: "get_claim k d' = Some w" by blast
  have "policy_promoter k d = Inr (Some ((plain w)\<lparr>co_promotion := Some \<lparr>pr_ok = True, pr_reason = ''prizedraw_entry_promoted''\<rparr>\<rparr>), d')"
    using c s m w
    by (simp add: policy_promoter_def promote_pending_claim_to_success_if_code_available_def
        promote_pending_claim_to_success_if_capacity_available_def set_claim_status_to_success_def promoted_def)
  then show ?thesis using st(2,4) by (auto simp: claim_frame_def)
qed

lemma winner_refresh:
  assumes "get_claim k d = Some v" and "get_spot (cl_spot_id (cd_claim v)) d = Some r"
    and "sp_status r = SPOT_STATUS_COMPLETED" and "is_prizedraw (cl_spot_id (cd_claim v)) d"
  shows "refresh_claim_status_from_conditions promote k d = Inr (Some (plain v), d)"
  using assms by (simp add: refresh_claim_status_from_conditions_def Let_def)

text \<open>
  C19: The expiry pass leaves the pending winners of a completed Prizedraw alone,
  but the heartbeat does not: when a winner of an instant Prizedraw sends one
  before the payout is recorded, the claim is promoted back to SUCCESS and drops
  out of the winner set that settlement pays.
\<close>

theorem winner_heartbeat_drops_winner:
  assumes ok: "db_ok d" and now: "0 < db_now d"
    and c: "get_claim k d = Some v" "cl_status (cd_claim v) = CLAIM_STATUS_PENDING"
    and s: "get_spot (cl_spot_id (cd_claim v)) d = Some r" "sp_status r = SPOT_STATUS_COMPLETED"
      "sp_use_password r \<noteq> 1" "sp_claim_duration r \<le> 0" "is_prizedraw (cl_spot_id (cd_claim v)) d"
    and unpaid: "\<forall>t\<in>set (db_trans d). tr_claim_id t \<noteq> Some k"
  shows "k \<in> set (get_prizedraw_winner_claim_ids (cl_spot_id (cd_claim v)) d)
    \<and> refresh_claim_status_from_conditions policy_promoter k d = Inr (Some (plain v), d)
    \<and> (\<exists>o' d'. process_duration_claim_location_heartbeat policy_promoter metres k (cl_recipient (cd_claim v)) la lo acc d
           = Inr (o', d')
         \<and> k \<notin> set (get_prizedraw_winner_claim_ids (cl_spot_id (cd_claim v)) d'))"
proof -
  note row = get_claim_SomeD(1-3) [OF c(1)]
  have inn: "k \<in> set (get_prizedraw_winner_claim_ids (cl_spot_id (cd_claim v)) d)"
    using row c(2) by (force simp: get_prizedraw_winner_claim_ids_def)
  have ref: "refresh_claim_status_from_conditions policy_promoter k d = Inr (Some (plain v), d)"
    by (rule winner_refresh [OF c(1) s(1,2,5)])
  obtain o' d' where p: "policy_promoter k d = Inr (Some o', d')" "db_trans d' = db_trans d"
    "db_claims d' = update_where (\<lambda>c. cl_id c = k)
         (\<lambda>c. c\<lparr>cl_status := CLAIM_STATUS_SUCCESS, cl_updated_at := db_now d\<rparr>) (db_claims d)"
    using promote_prizedraw_entry [OF ok now c s(1,3,5)] by blast
  have h: "process_duration_claim_location_heartbeat policy_promoter metres k (cl_recipient (cd_claim v)) la lo acc d
      = Inr (o', d')"
    using c s(1,4) ref p(1)
    by (simp add: process_duration_claim_location_heartbeat_def outcome_status_def plain_def Let_def)
  have "cl_status c \<noteq> CLAIM_STATUS_PENDING" if mem: "c \<in> set (db_claims d')" "cl_id c = k" for c
  proof -
    obtain x :: claim_row where "c = (if cl_id x = k then x\<lparr>cl_status := CLAIM_STATUS_SUCCESS, cl_updated_at := db_now d\<rparr> else x)"
      using mem(1) unfolding p(3) update_where_def set_map by blast
    then show ?thesis using mem(2) by (cases "cl_id x = k") simp_all
  qed
  moreover have "tr_claim_id t \<noteq> Some k" if "t \<in> set (db_trans d')" for t
    using unpaid that by (simp add: p(2))
  ultimately have "k \<notin> set (get_prizedraw_winner_claim_ids (cl_spot_id (cd_claim v)) d')"
    by (fastforce simp: get_prizedraw_winner_claim_ids_def)
  then show ?thesis using inn ref h by blast
qed

definition sample_winner_db :: db where
  "sample_winner_db = sample_claims_db\<lparr>
     db_spots := [sample_spot\<lparr>sp_max_total_claims := 5, sp_status := SPOT_STATUS_COMPLETED\<rparr>],
     db_prizedraws := [\<lparr>pd_spot_id = 1, pd_prize_count = 2\<rparr>]\<rparr>"

lemma sample_winner_db_ok: "db_ok sample_winner_db"
  by (simp add: sample_winner_db_def sample_defs db_ok_defs user_check_def spot_check_def trans_check_def unique_on_def
      const_defs has_user_def has_spot_def claim_payout_slot_def cancellation_slot_def claim_check_def
      creation_fee_slot_def remainder_refund_slot_def prizedraw_check_def prize_count_trigger_ok_def)

theorem winner_heartbeat_drops_winner_witness:
  "get_prizedraw_winner_claim_ids 1 sample_winner_db = [1, 2]
    \<and> (\<exists>o' d'. process_duration_claim_location_heartbeat policy_promoter (\<lambda>_ _ _ _. 0) 1 2 0 0 None sample_winner_db
         = Inr (o', d') \<and> 1 \<notin> set (get_prizedraw_winner_claim_ids 1 d'))"
proof -
  have ids: "get_prizedraw_winner_claim_ids 1 sample_winner_db = [1, 2]" by code_simp
  have "case get_claim 1 sample_winner_db of None \<Rightarrow> False
    | Some v \<Rightarrow> cl_spot_id (cd_claim v) = 1 \<and> cl_recipient (cd_claim v) = 2 \<and> cl_status (cd_claim v) = CLAIM_STATUS_PENDING"
    by code_simp
  then obtain v where v: "get_claim 1 sample_winner_db = Some v" "cl_spot_id (cd_claim v) = 1"
    "cl_recipient (cd_claim v) = 2" "cl_status (cd_claim v) = CLAIM_STATUS_PENDING"
    by (auto split: option.splits)
  have "case get_spot 1 sample_winner_db of None \<Rightarrow> False
    | Some r \<Rightarrow> sp_status r = SPOT_STATUS_COMPLETED \<and> sp_use_password r \<noteq> 1 \<and> sp_claim_duration r \<le> 0" by code_simp
  then obtain r where r: "get_spot 1 sample_winner_db = Some r" "sp_status r = SPOT_STATUS_COMPLETED"
    "sp_use_password r \<noteq> 1" "sp_claim_duration r \<le> 0" by (auto split: option.splits)
  have "is_prizedraw 1 sample_winner_db" by code_simp
  moreover have "\<forall>t\<in>set (db_trans sample_winner_db). tr_claim_id t \<noteq> Some 1" "0 < db_now sample_winner_db"
    by (simp_all add: sample_winner_db_def sample_defs)
  ultimately show ?thesis
    using winner_heartbeat_drops_winner [OF sample_winner_db_ok _ v(1,4), of r "\<lambda>_ _ _ _. 0" 0 0 None] v r ids by simp
qed

section \<open>Episodes of the location behaviour guard\<close>

lemma record_inside_growth:
  "length (lb_streak_spots (record_inside metres s x now d st)) \<le> Suc (length (lb_streak_spots st))"
  "length (lb_centre_spots (record_inside metres s x now d st)) \<le> Suc (length (lb_centre_spots st))"
  "lb_restricted_until (record_inside metres s x now d st) = lb_restricted_until st"
  "lb_version (record_inside metres s x now d st) = lb_version st"
  by (auto simp: record_inside_def Let_def)

lemma migrate_version: "lb_version (migrate_behaviour v) = 2"
  by (simp add: migrate_behaviour_def empty_behaviour_def split: option.splits)

lemma migrate_restricted:
  "lb_version v = 2 \<Longrightarrow> lb_restricted_until (migrate_behaviour (Some v)) = lb_restricted_until v"
  by (simp add: migrate_behaviour_def)

lemma record_decision_frame:
  "record_decision u c t n e d = Inr (i, d') \<Longrightarrow> db_behaviour d' = db_behaviour d \<and> db_claims d' = db_claims d
     \<and> db_spots d' = db_spots d \<and> db_now d' = db_now d"
  by (auto simp: record_decision_def prune_expired_def Let_def split: if_splits)

text \<open>
  C20: The guard restricts a user only on matured evidence (at least three streak
  locations and two exact centres were already on record), for exactly a day
  from the observation; a restricted user's observations change nothing; and at
  the restriction's last second the user is free again.
\<close>

theorem restriction_needs_evidence:
  assumes o: "observe_signed_claim metres u s la lo now d = Inr (True, d')"
  shows "(currently_restricted (get_behaviour u d) now \<and> d' = d)
    \<or> (\<not> currently_restricted (get_behaviour u d) now
       \<and> 3 \<le> length (lb_streak_spots (get_behaviour u d)) \<and> 2 \<le> length (lb_centre_spots (get_behaviour u d))
       \<and> sp_created_by s \<noteq> u \<and> sp_use_password s \<noteq> 1 \<and> is_spot_currently_claimable (sp_id s) d
       \<and> (\<forall>t. current_decision u t d' \<longleftrightarrow> t < now + 86400)
       \<and> lb_streak_spots (get_behaviour u d') = [] \<and> lb_centre_spots (get_behaviour u d') = [])"
proof (cases "currently_restricted (get_behaviour u d) now")
  case True
  then show ?thesis using o by (auto simp: observe_signed_claim_def split: if_splits)
next
  case False
  let ?st = "get_behaviour u d"
  have pre: "sp_created_by s \<noteq> u" "sp_use_password s \<noteq> 1" "is_spot_currently_claimable (sp_id s) d"
    using o by (auto simp: observe_signed_claim_def split: if_splits)
  define s1 where "s1 = (if \<not> (lb_last_signed_spot ?st = Some (sp_id s)
              \<and> now - (case lb_last_signed_at ?st of None \<Rightarrow> 0 | Some t \<Rightarrow> t) < SIGNED_RETRY_WINDOW_SECONDS)
              \<and> spot_metres metres la lo s \<le> of_int (sp_radius s)
            then record_inside metres s (spot_metres metres la lo s) now d ?st else ?st)"
  have run: "bindE (if new_evidence_matured s1
               then bindE (record_decision u ''repeated_exact_reward_positioning'' TemporaryRestriction
                             now (Some (now + TEMPORARY_RESTRICTION_SECONDS)) d)
                      (\<lambda>(_, d1). Inr (consume_episode now s1, d1))
               else Inr (s1, d))
          (\<lambda>(s2, d1). Inr (currently_restricted s2 now, save_behaviour u s2 d1)) = Inr (True, d')"
    using o pre False unfolding observe_signed_claim_def Let_def s1_def by simp
  have s1: "lb_restricted_until s1 = lb_restricted_until ?st" "lb_version s1 = 2"
    "length (lb_streak_spots s1) \<le> Suc (length (lb_streak_spots ?st))"
    "length (lb_centre_spots s1) \<le> Suc (length (lb_centre_spots ?st))"
    using record_inside_growth by (auto simp: s1_def get_behaviour_def migrate_version)
  have mat: "new_evidence_matured s1"
  proof (rule ccontr)
    assume "\<not> new_evidence_matured s1"
    then have "currently_restricted s1 now" using run by simp
    then show False using False by (simp add: currently_restricted_def s1(1))
  qed
  obtain i d1 where d1: "d' = save_behaviour u (consume_episode now s1) d1"
    using run mat by (auto elim!: bindE_InrE)
  have v: "lb_version (consume_episode now s1) = 2" by (simp add: consume_episode_def s1(2))
  have st': "get_behaviour u d' = migrate_behaviour (Some (consume_episode now s1))"
    by (simp add: d1 get_save_behaviour migrate_idem)
  have "current_decision u t d' \<longleftrightarrow> t < now + 86400" for t
    unfolding current_decision_def currently_restricted_def st' migrate_restricted [OF v]
    by (simp add: consume_episode_def const_defs)
  moreover have "lb_streak_spots (get_behaviour u d') = []" "lb_centre_spots (get_behaviour u d') = []"
    using v by (simp_all add: st' migrate_behaviour_def consume_episode_def)
  moreover have "3 \<le> length (lb_streak_spots ?st)" "2 \<le> length (lb_centre_spots ?st)"
    using mat s1(3,4) by (simp_all add: new_evidence_matured_def const_defs)
  ultimately show ?thesis using pre False by blast
qed

definition sample_suspect_db :: db where
  "sample_suspect_db = sample_db\<lparr>db_behaviour :=
     [(2, empty_behaviour\<lparr>lb_streak_spots := [11, 12, 13], lb_centre_spots := [11, 12]\<rparr>)]\<rparr>"

theorem restriction_needs_evidence_witness:
  "\<exists>d'. observe_signed_claim (\<lambda>_ _ _ _. 1) 2 sample_spot 0 0 1000000 sample_suspect_db = Inr (True, d')
    \<and> current_decision 2 1086399 d' \<and> \<not> current_decision 2 1086400 d'"
proof -
  have "case observe_signed_claim (\<lambda>_ _ _ _. 1) 2 sample_spot 0 0 1000000 sample_suspect_db of
      Inl _ \<Rightarrow> False | Inr (b, _) \<Rightarrow> b" by code_simp
  then obtain d' where o: "observe_signed_claim (\<lambda>_ _ _ _. 1) 2 sample_spot 0 0 1000000 sample_suspect_db = Inr (True, d')"
    by (auto split: sum.splits)
  have "\<not> currently_restricted (get_behaviour 2 sample_suspect_db) 1000000" by code_simp
  then have "\<forall>t. current_decision 2 t d' \<longleftrightarrow> t < 1000000 + 86400"
    using restriction_needs_evidence [OF o] by blast
  then show ?thesis using o by simp
qed

text \<open>
  \<open>create_claim_attempt\<close> of \<^verbatim>\<open>db_access.py\<close> refuses a restricted user on a
  public Spot with a temporary refusal and without creating a claim, whatever
  else holds; the version installed at run time never asks the guard (the
  witness shows it accepting the claim that the former refuses).
\<close>

theorem restricted_user_refused:
  assumes chk: "check_claim_attempt metres s u la lo acc code d = Inr (r, None)" and ok: "db_ok d"
    and res: "current_decision u (db_now d) d"
  shows "create_claim_attempt promote metres dev s u la lo acc code p d
    = Inl (ValueError ''Public Spots are temporarily unavailable for this account. Please try again later.'')"
proof -
  obtain rule where C: "get_spot s d = Some r"
    "get_claim_rule_check metres s u (Some la) (Some lo) acc d = Inr rule" "rc_allowed rule"
    "\<not> has_spot_cancellation_started s d"
    "sp_use_password r = 1 \<longrightarrow> (\<exists>q. None = Some (cc_code q, q) \<and> q \<in> set (db_codes d)
       \<and> cc_spot_id q = s \<and> cc_used_by q = None \<and> normalise_claim_code True code = Inr (Some (cc_code q)))"
    "sp_use_password r \<noteq> 1 \<longrightarrow> (None :: (string \<times> code_row) option) = None"
    by (rule check_claim_attempt_Inr [OF chk])
  note R = rule_check_allowedD [OF C(2,3)]
  have id: "sp_id r = s" using C(1) by auto
  have "is_spot_currently_claimable s d"
    using R(4,5) by (auto simp: is_spot_currently_claimable_def is_spot_currently_public_def)
  moreover have "sp_created_by r \<noteq> u" "sp_use_password r \<noteq> 1"
    using R(2) C(1,5) by (auto simp: is_spot_owned_by_user_def)
  ultimately have "observe_signed_claim metres u r la lo (db_now d) d = Inr (True, d)"
    using res id by (simp add: observe_signed_claim_def current_decision_def)
  then show ?thesis by (simp add: create_claim_attempt_def chk)
qed

definition sample_restricted_db :: db where
  "sample_restricted_db = sample_db\<lparr>db_behaviour := [(2, empty_behaviour\<lparr>lb_restricted_until := Some 2000000\<rparr>)]\<rparr>"

theorem restricted_user_refused_witness:
  "create_claim_attempt policy_promoter (\<lambda>_ _ _ _. 0) False 1 2 0 0 None None None sample_restricted_db
     = Inl (ValueError ''Public Spots are temporarily unavailable for this account. Please try again later.'')
   \<and> is_ok (create_claim_attempt_success_only (\<lambda>_ _ _ _. 0) False 1 2 0 0 None None None sample_restricted_db)"
proof -
  have "case check_claim_attempt (\<lambda>_ _ _ _. 0) 1 2 0 0 None None sample_restricted_db of
      Inl _ \<Rightarrow> False | Inr (_, k) \<Rightarrow> k = None" by code_simp
  then obtain r where c: "check_claim_attempt (\<lambda>_ _ _ _. 0) 1 2 0 0 None None sample_restricted_db = Inr (r, None)"
    by (auto split: sum.splits)
  have ok: "db_ok sample_restricted_db" unfolding sample_restricted_db_def using sample_db_ok by simp
  have "current_decision 2 (db_now sample_restricted_db) sample_restricted_db" by code_simp
  then have "create_claim_attempt policy_promoter (\<lambda>_ _ _ _. 0) False 1 2 0 0 None None None sample_restricted_db
     = Inl (ValueError ''Public Spots are temporarily unavailable for this account. Please try again later.'')"
    by (rule restricted_user_refused [OF c ok])
  moreover have "is_ok (create_claim_attempt_success_only (\<lambda>_ _ _ _. 0) False 1 2 0 0 None None None sample_restricted_db)"
    by code_simp
  ultimately show ?thesis by blast
qed

end
