(* ===== verification/Transactions.thy ===== *)
theory Transactions
  imports ClaimReads
begin

text \<open>
  The TRANSACTION functions of \<^verbatim>\<open>db_access.py\<close>: the durable intents every
  on-chain payment starts from, their chain details, and the one-way status
  changes. The unique partial indexes of \<^verbatim>\<open>trans\<close> are the last word against a
  second payment of the same obligation.
\<close>

section \<open>Creation\<close>

definition create_transaction ::
  "int \<Rightarrow> int \<Rightarrow> int \<Rightarrow> string \<Rightarrow> string \<Rightarrow> string \<Rightarrow> int option \<Rightarrow> int option \<Rightarrow> db \<Rightarrow> (int \<times> db) res" where
  "create_transaction user_id trans_type amount from_address to_address tx_hash spot_id claim_id d =
     insert_trans \<lparr>tr_id = 0, tr_user_id = user_id, tr_spot_id = spot_id, tr_claim_id = claim_id,
       tr_type = trans_type, tr_amount = amount, tr_from_address = from_address, tr_to_address = to_address,
       tr_tx_hash = tx_hash, tr_block_number = None, tr_status = TRANS_STATUS_PENDING,
       tr_created_at = 0, tr_completed_at = None\<rparr> d"

definition create_spot_deposit_transaction ::
  "int \<Rightarrow> int \<Rightarrow> int \<Rightarrow> string \<Rightarrow> string \<Rightarrow> string option \<Rightarrow> db \<Rightarrow> (int \<times> db) res" where
  "create_spot_deposit_transaction user_id spot_id amount from_address tx_hash to_address d =
     bindE (case to_address of Some a \<Rightarrow> Inr a
            | None \<Rightarrow> (case get_spot spot_id d of
                None \<Rightarrow> Inl (ValueError ''spot does not exist'')
              | Some s \<Rightarrow> Inr (sp_deposit_address s))) (\<lambda>a.
     create_transaction user_id TRANS_TYPE_FILL_SPOT amount from_address a tx_hash (Some spot_id) None d)"

definition create_spot_refund_transaction ::
  "int \<Rightarrow> int \<Rightarrow> int \<Rightarrow> string \<Rightarrow> string \<Rightarrow> string \<Rightarrow> db \<Rightarrow> (int \<times> db) res" where
  "create_spot_refund_transaction user_id spot_id amount from_address to_address tx_hash =
     create_transaction user_id TRANS_TYPE_CANCEL_SPOT amount from_address to_address tx_hash (Some spot_id) None"

definition has_nonfailed_spot_remainder_refund_transaction :: "int \<Rightarrow> db \<Rightarrow> bool" where
  "has_nonfailed_spot_remainder_refund_transaction spot_id d \<longleftrightarrow>
     list_ex (\<lambda>t. of_type spot_id TRANS_TYPE_REMAINDER_REFUND t \<and> tr_status t \<noteq> TRANS_STATUS_FAILED) (db_trans d)"

text \<open>
  The three intents that may exist once: a check first, and a second look when
  the insert itself hits the unique index. A failed statement changes nothing, so
  the second look reads the database of the first.
\<close>

definition create_once ::
  "(db \<Rightarrow> bool) \<Rightarrow> string \<Rightarrow> (db \<Rightarrow> (int \<times> db) res) \<Rightarrow> db \<Rightarrow> (int \<times> db) res" where
  "create_once exists message create d =
    (if exists d then Inl (RuntimeError message)
     else (case create d of
             Inl (IntegrityError m) \<Rightarrow>
               if exists d then Inl (RuntimeError message) else Inl (IntegrityError m)
           | r \<Rightarrow> r))"

definition create_spot_remainder_refund_transaction ::
  "int \<Rightarrow> int \<Rightarrow> int \<Rightarrow> string \<Rightarrow> string \<Rightarrow> string \<Rightarrow> db \<Rightarrow> (int \<times> db) res" where
  "create_spot_remainder_refund_transaction user_id spot_id amount from_address to_address tx_hash =
     create_once (has_nonfailed_spot_remainder_refund_transaction spot_id)
       ''Spot already has a non-failed remainder refund transaction''
       (create_transaction user_id TRANS_TYPE_REMAINDER_REFUND amount from_address to_address tx_hash
          (Some spot_id) None)"

definition create_claim_transaction ::
  "int \<Rightarrow> int \<Rightarrow> int \<Rightarrow> string \<Rightarrow> string \<Rightarrow> string \<Rightarrow> db \<Rightarrow> (int \<times> db) res" where
  "create_claim_transaction user_id claim_id amount from_address to_address tx_hash d =
    (case get_claim claim_id d of
       None \<Rightarrow> Inl (RuntimeError ''Claim not found'')
     | Some claim \<Rightarrow>
       create_once (has_nonfailed_claim_payout_transaction claim_id)
         ''Claim already has a non-failed payout transaction''
         (create_transaction user_id TRANS_TYPE_CLAIM amount from_address to_address tx_hash
            (Some (cl_spot_id (cd_claim claim))) (Some claim_id)) d)"

definition create_platform_fee_transaction ::
  "int \<Rightarrow> int \<Rightarrow> string \<Rightarrow> string \<Rightarrow> string \<Rightarrow> int option \<Rightarrow> int option \<Rightarrow> db \<Rightarrow> (int \<times> db) res" where
  "create_platform_fee_transaction user_id amount from_address to_address tx_hash spot_id claim_id =
     create_transaction user_id TRANS_TYPE_PLAT_FEE amount from_address to_address tx_hash spot_id claim_id"

definition create_spot_creation_fee_transaction ::
  "bool \<Rightarrow> int \<Rightarrow> int \<Rightarrow> int \<Rightarrow> string \<Rightarrow> string \<Rightarrow> string \<Rightarrow> db \<Rightarrow> (int \<times> db) res" where
  "create_spot_creation_fee_transaction dev user_id spot_id amount from_address to_address tx_hash d =
    (case get_spot spot_id d of
       None \<Rightarrow> Inl (ValueError ''spot does not exist'')
     | Some s \<Rightarrow>
       if sp_status s \<noteq> SPOT_STATUS_DRAFT
       then Inl (ValueError ''creation fees can only be created for draft spots'')
       else if sp_cancellation_started_at s \<noteq> None
       then Inl (ValueError ''creation fee cannot be created after cancellation has started'')
       else if user_id \<noteq> sp_created_by s
       then Inl (ValueError ''creation fee user does not match the Spot owner'')
       else let expected_amount = spot_creation_fee_amount s in
       if expected_amount \<le> 0 then Inl (ValueError ''this Spot has no creation fee'')
       else if amount \<noteq> expected_amount
       then Inl (ValueError ''creation fee amount does not match the Spot snapshot'')
       else
       bindE (normalise_nimiq_address dev (sp_deposit_address s)) (\<lambda>expected_from.
       bindE (normalise_nimiq_address dev from_address) (\<lambda>submitted_from.
       bindE (guardE (submitted_from = expected_from)
         (ValueError ''creation fee sender does not match the Spot deposit address'')) (\<lambda>_.
       bindE (normalise_nimiq_address dev (sp_creation_fee_address s)) (\<lambda>expected_to.
       bindE (normalise_nimiq_address dev to_address) (\<lambda>submitted_to.
       bindE (guardE (submitted_to = expected_to)
         (ValueError ''creation fee recipient does not match the Spot snapshot'')) (\<lambda>_.
       bindE (guardE (spot_required_deposit_amount s \<le> get_confirmed_spot_deposit_total spot_id d)
         (ValueError ''creation fee cannot be created before full funding confirms'')) (\<lambda>_.
       create_once (has_nonfailed_spot_creation_fee_transaction spot_id)
         ''Spot already has a non-failed creation fee transaction''
         (create_transaction (sp_created_by s) TRANS_TYPE_CREATION_FEE expected_amount expected_from expected_to
            tx_hash (Some spot_id) None) d))))))))"

section \<open>Deposit keys\<close>

definition get_spot_deposit_key_record ::
  "int \<Rightarrow> db \<Rightarrow> (int \<times> string \<times> int option \<times> string option \<times> int) res" where
  "get_spot_deposit_key_record spot_id d = (case get_spot spot_id d of
     None \<Rightarrow> Inl (ValueError ''spot does not exist'')
   | Some s \<Rightarrow> Inr (sp_id s, sp_deposit_address s, sp_deposit_key_index s, sp_deposit_key_path s,
                    sp_deposit_key_version s))"

text \<open>The derivation of the address is the wallet's; here it is the argument \<open>derive\<close>.\<close>

definition derive_spot_deposit_address_from_record ::
  "(int \<Rightarrow> int \<Rightarrow> 'a res) \<Rightarrow> int \<Rightarrow> db \<Rightarrow> 'a res" where
  "derive_spot_deposit_address_from_record derive spot_id d =
     bindE (get_spot_deposit_key_record spot_id d) (\<lambda>(_, _, key_index, _, key_version).
       (case key_index of None \<Rightarrow> Inl (ValueError ''spot has no deposit_key_index'')
        | Some i \<Rightarrow> derive i (if key_version = 0 then SPOT_DEPOSIT_KEY_VERSION else key_version)))"

section \<open>Chain details and status\<close>

record chain_details =
  ch_tx_hash :: "string option"
  ch_from_address :: "string option"
  ch_to_address :: "string option"
  ch_amount :: "int option"
  ch_block_number :: "int option"

definition no_details :: chain_details where
  "no_details = \<lparr>ch_tx_hash = None, ch_from_address = None, ch_to_address = None,
                 ch_amount = None, ch_block_number = None\<rparr>"

definition set_details :: "chain_details \<Rightarrow> trans_row \<Rightarrow> trans_row" where
  "set_details c t = t\<lparr>
     tr_tx_hash := (case ch_tx_hash c of None \<Rightarrow> tr_tx_hash t | Some h \<Rightarrow> py_strip h),
     tr_from_address := (case ch_from_address c of None \<Rightarrow> tr_from_address t | Some a \<Rightarrow> a),
     tr_to_address := (case ch_to_address c of None \<Rightarrow> tr_to_address t | Some a \<Rightarrow> a),
     tr_amount := (case ch_amount c of None \<Rightarrow> tr_amount t | Some a \<Rightarrow> a),
     tr_block_number := (case ch_block_number c of None \<Rightarrow> tr_block_number t | Some b \<Rightarrow> Some b)\<rparr>"

definition update_transaction_chain_details :: "int \<Rightarrow> chain_details \<Rightarrow> db \<Rightarrow> db res" where
  "update_transaction_chain_details trans_id c d =
    (if (case ch_tx_hash c of None \<Rightarrow> False | Some h \<Rightarrow> py_strip h = [])
     then Inl (ValueError ''tx_hash must be non-empty'')
     else if (case ch_amount c of None \<Rightarrow> False | Some a \<Rightarrow> a < 0)
     then Inl (ValueError ''amount must be non-negative'')
     else if (case ch_block_number c of None \<Rightarrow> False | Some b \<Rightarrow> b < 0)
     then Inl (ValueError ''block_number must be non-negative'')
     else if c = no_details then Inr d
     else bindE (update_trans (\<lambda>t. tr_id t = trans_id) (set_details c) d) (\<lambda>d'.
       bindE (require_one (count_where (\<lambda>t. tr_id t = trans_id) (db_trans d))
         ''Failed to update transaction chain details'') (\<lambda>_. Inr d')))"

definition view_trans_detail :: "db \<Rightarrow> trans_row list" where
  "view_trans_detail d = filter (\<lambda>t. has_user d (tr_user_id t)) (db_trans d)"

definition get_transaction :: "int \<Rightarrow> db \<Rightarrow> trans_row option" where
  "get_transaction trans_id d =
     find (\<lambda>t. tr_id t = trans_id) (view_trans_detail d)"

text \<open>
  Every status change is a compare-and-set from PENDING that answers quietly when
  the row already has the wanted status. \<open>stamped\<close> is the row with its new
  status; the trigger then fills \<^verbatim>\<open>completed_at\<close>.
\<close>

definition settle_status :: "int \<Rightarrow> int \<Rightarrow> string \<Rightarrow> (trans_row \<Rightarrow> trans_row) \<Rightarrow> db \<Rightarrow> db res" where
  "settle_status trans_id status message stamped d =
    (let P = (\<lambda>t. tr_id t = trans_id \<and> tr_status t = TRANS_STATUS_PENDING) in
     bindE (update_trans P (\<lambda>t. complete_trans (db_now d) t (stamped t)) d) (\<lambda>d'.
     if count_where P (db_trans d) = 1 then Inr d'
     else if map_option tr_status (get_transaction trans_id d') = Some status then Inr d'
     else bindE (require_one (count_where P (db_trans d)) message) (\<lambda>_. Inr d')))"

definition modify_transaction_status :: "int \<Rightarrow> int \<Rightarrow> db \<Rightarrow> db res" where
  "modify_transaction_status trans_id status =
     settle_status trans_id status ''Failed to update pending transaction status''
       (\<lambda>t. t\<lparr>tr_status := status\<rparr>)"

definition coalesce_completed :: "int \<Rightarrow> trans_row \<Rightarrow> trans_row" where
  "coalesce_completed now t =
     t\<lparr>tr_completed_at := Some (case tr_completed_at t of None \<Rightarrow> now | Some c \<Rightarrow> c)\<rparr>"

definition set_transaction_status_to_confirmed :: "int \<Rightarrow> int \<Rightarrow> db \<Rightarrow> db res" where
  "set_transaction_status_to_confirmed trans_id block_number d =
     settle_status trans_id TRANS_STATUS_CONFIRMED ''Failed to confirm pending transaction''
       (\<lambda>t. coalesce_completed (db_now d)
              (t\<lparr>tr_status := TRANS_STATUS_CONFIRMED, tr_block_number := Some block_number\<rparr>)) d"

definition set_transaction_status_to_failed :: "int \<Rightarrow> db \<Rightarrow> db res" where
  "set_transaction_status_to_failed trans_id d =
     settle_status trans_id TRANS_STATUS_FAILED ''Failed to fail pending transaction''
       (\<lambda>t. coalesce_completed (db_now d) (t\<lparr>tr_status := TRANS_STATUS_FAILED\<rparr>)) d"

section \<open>Reads\<close>

definition get_transaction_by_hash :: "string \<Rightarrow> db \<Rightarrow> trans_row option" where
  "get_transaction_by_hash tx_hash d = find (\<lambda>t. tr_tx_hash t = tx_hash) (view_trans_detail d)"

definition newest_first :: "trans_row list \<Rightarrow> trans_row list" where
  "newest_first ts = sort_key (\<lambda>t. - tr_created_at t) (sort_key (\<lambda>t. - tr_id t) ts)"

definition get_transactions_by_user :: "int \<Rightarrow> int \<Rightarrow> int \<Rightarrow> db \<Rightarrow> trans_row list" where
  "get_transactions_by_user user_id limit offset d = page limit offset
     (newest_first (filter (\<lambda>t. tr_user_id t = user_id) (view_trans_detail d)))"

definition get_transactions_by_spot :: "int \<Rightarrow> int \<Rightarrow> int \<Rightarrow> db \<Rightarrow> trans_row list" where
  "get_transactions_by_spot spot_id limit offset d = page limit offset
     (newest_first (filter (\<lambda>t. tr_spot_id t = Some spot_id) (view_trans_detail d)))"

definition get_transactions_by_claim :: "int \<Rightarrow> db \<Rightarrow> trans_row list" where
  "get_transactions_by_claim claim_id d =
     newest_first (filter (\<lambda>t. tr_claim_id t = Some claim_id) (view_trans_detail d))"

definition get_transactions_by_status :: "int \<Rightarrow> int \<Rightarrow> int \<Rightarrow> db \<Rightarrow> trans_row list" where
  "get_transactions_by_status status limit offset d = page limit offset
     (sort_key tr_created_at (sort_key tr_id (filter (\<lambda>t. tr_status t = status) (view_trans_detail d))))"

definition count_transactions_by_status :: "int \<Rightarrow> db \<Rightarrow> int" where
  "count_transactions_by_status status d = count_where (\<lambda>t. tr_status t = status) (db_trans d)"

definition sum_transactions_by_type_status :: "int \<Rightarrow> int \<Rightarrow> db \<Rightarrow> int" where
  "sum_transactions_by_type_status trans_type status d =
     sum_where tr_amount (\<lambda>t. tr_type t = trans_type \<and> tr_status t = status) (db_trans d)"

section \<open>Metadata and due Spots\<close>

definition is_spot_remainder_settled :: "int \<Rightarrow> db \<Rightarrow> bool" where
  "is_spot_remainder_settled spot_id d \<longleftrightarrow> spot_id \<in> set (db_remainder_settled d)"

definition mark_spot_remainder_settled :: "int \<Rightarrow> db \<Rightarrow> db" where
  "mark_spot_remainder_settled spot_id d =
     d\<lparr>db_remainder_settled := (if spot_id \<in> set (db_remainder_settled d) then db_remainder_settled d
                               else db_remainder_settled d @ [spot_id])\<rparr>"

text \<open>One entry per type and status that occurs, in that order: type, status, count, total.\<close>

definition get_spot_financial_summary :: "int \<Rightarrow> db \<Rightarrow> (int \<times> int \<times> int \<times> int) list" where
  "get_spot_financial_summary spot_id d =
    (let rows = filter (\<lambda>t. tr_spot_id t = Some spot_id) (db_trans d);
         types = sort (remdups (map tr_type rows)); statuses = sort (remdups (map tr_status rows))
     in concat (map (\<lambda>ty. concat (map (\<lambda>st.
          let P = (\<lambda>t. tr_type t = ty \<and> tr_status t = st) in
          if list_ex P rows then [(ty, st, count_where P rows, sum_where tr_amount P rows)] else [])
          statuses)) types))"

definition count_successful_standard_claims_without_confirmed_payout :: "int \<Rightarrow> db \<Rightarrow> int" where
  "count_successful_standard_claims_without_confirmed_payout spot_id d = count_where (\<lambda>c.
     cl_spot_id c = spot_id \<and> cl_status c = CLAIM_STATUS_SUCCESS \<and> \<not> is_prizedraw spot_id d
     \<and> \<not> has_confirmed_claim_payout_transaction (cl_id c) d) (db_claims d)"

text \<open>\<^verbatim>\<open>limit\<close> without an offset.\<close>

definition get_spot_ids_ready_for_remainder_refund :: "int \<Rightarrow> int \<Rightarrow> db \<Rightarrow> int list" where
  "get_spot_ids_ready_for_remainder_refund now limit d = take (nat (clamp_limit limit)) (map sp_id
     (sort_key sp_id (filter (\<lambda>s. sp_cancellation_started_at s = None
        \<and> count_claims_by_status_for_spot (sp_id s) CLAIM_STATUS_PENDING d = 0
        \<and> \<not> is_spot_remainder_settled (sp_id s) d
        \<and> (sp_status s = SPOT_STATUS_COMPLETED
           \<or> sp_status s = SPOT_STATUS_PUBLISHED \<and> \<not> is_prizedraw (sp_id s) d
             \<and> ((case sp_starts_at s of None \<Rightarrow> False | Some t \<Rightarrow> t + sp_ends_at s \<le> now)
                \<or> 0 < sp_max_total_claims s
                  \<and> sp_max_total_claims s \<le> count_claims_by_status_for_spot (sp_id s) CLAIM_STATUS_SUCCESS d)))
        (db_spots d))))"

definition end_time :: "spot_row \<Rightarrow> int" where
  "end_time s = the (sp_starts_at s) + sp_ends_at s"

definition get_due_spots_to_complete :: "int \<Rightarrow> int \<Rightarrow> int \<Rightarrow> db \<Rightarrow> int list" where
  "get_due_spots_to_complete now limit offset d = page limit offset (map sp_id
     (sort_key end_time (sort_key sp_id (filter (\<lambda>s. sp_status s = SPOT_STATUS_PUBLISHED
        \<and> sp_starts_at s \<noteq> None \<and> end_time s \<le> now) (db_spots d)))))"

definition complete_due_spots :: "int \<Rightarrow> int \<Rightarrow> db \<Rightarrow> (int \<times> db) res" where
  "complete_due_spots now limit d =
    (let due_ids = get_due_spots_to_complete now limit 0 d in
     if due_ids = [] then Inr (0, d)
     else let P = (\<lambda>s. sp_id s \<in> set due_ids) in
       bindE (update_spots False True P (\<lambda>s. s\<lparr>sp_status := SPOT_STATUS_COMPLETED\<rparr>) d) (\<lambda>d'.
         Inr (count_where P (db_spots d), d')))"

end
