(* ===== verification/TransProps.thy ===== *)
theory TransProps
  imports Transactions Samples
begin

text \<open>
  What the ledger guarantees: every operation keeps the database consistent and
  the outcome of a settled transaction; at most one payment of each obligation is
  alive; the compare-and-set status changes; the prerequisites of a creation fee.
\<close>

section \<open>Ledger steps\<close>

text \<open>What may happen to a row of \<^verbatim>\<open>trans\<close>: its identity and purpose stay, and a settled status is final.\<close>

definition trans_step :: "trans_row \<Rightarrow> trans_row \<Rightarrow> bool" where
  "trans_step t t' \<longleftrightarrow> tr_id t' = tr_id t \<and> tr_user_id t' = tr_user_id t \<and> tr_spot_id t' = tr_spot_id t
     \<and> tr_claim_id t' = tr_claim_id t \<and> tr_type t' = tr_type t \<and> tr_created_at t' = tr_created_at t
     \<and> (tr_status t \<noteq> TRANS_STATUS_PENDING \<longrightarrow> tr_status t' = tr_status t)"

definition ledger_grows :: "db \<Rightarrow> db \<Rightarrow> bool" where
  "ledger_grows d d' \<longleftrightarrow> (\<forall>t\<in>set (db_trans d). \<exists>t'\<in>set (db_trans d'). trans_step t t')"

lemma ledger_grows_refl [simp]: "ledger_grows d d"
  by (auto simp: ledger_grows_def trans_step_def)

lemma ledger_grows_trans: "ledger_grows d d1 \<Longrightarrow> ledger_grows d1 d2 \<Longrightarrow> ledger_grows d d2"
  unfolding ledger_grows_def trans_step_def by (metis (no_types, lifting))

lemma insert_trans_grows: "insert_trans r d = Inr (i, d') \<Longrightarrow> ledger_grows d d'"
  using insert_trans_Inr(1) [of r d i d'] by (auto simp: ledger_grows_def trans_step_def)

lemma update_trans_grows:
  assumes "update_trans P f d = Inr d'" and "\<And>t. P t \<Longrightarrow> trans_step t (f t)"
  shows "ledger_grows d d'"
proof -
  have d': "db_trans d' = update_where P f (db_trans d)"
    using assms(1) by (simp add: update_trans_def write_trans_Inr)
  show ?thesis
    unfolding ledger_grows_def d' update_where_def
  proof
    fix t assume "t \<in> set (db_trans d)"
    then show "\<exists>t'\<in>set (map (\<lambda>r. if P r then f r else r) (db_trans d)). trans_step t t'"
      by (intro bexI [of _ "if P t then f t else t"]) (use assms(2) in \<open>auto simp: trans_step_def\<close>)
  qed
qed

lemma create_once_Inr:
  "create_once ex m create d = Inr r \<longleftrightarrow> \<not> ex d \<and> create d = Inr r"
  by (auto simp: create_once_def split: sum.splits py_error.splits)

lemma settle_status_Inr:
  assumes "settle_status i st m f d = Inr d'"
  shows "update_trans (\<lambda>t. tr_id t = i \<and> tr_status t = TRANS_STATUS_PENDING)
    (\<lambda>t. complete_trans (db_now d) t (f t)) d = Inr d'"
  using assms by (auto simp: settle_status_def Let_def elim!: bindE_InrE split: if_splits)

section \<open>Operations of the ledger\<close>

inductive trans_op :: "bool \<Rightarrow> db \<Rightarrow> db \<Rightarrow> bool" for dev :: bool where
  deposit: "create_spot_deposit_transaction u s a f h t d = Inr (i, d') \<Longrightarrow> trans_op dev d d'"
| refund: "create_spot_refund_transaction u s a f t h d = Inr (i, d') \<Longrightarrow> trans_op dev d d'"
| remainder: "create_spot_remainder_refund_transaction u s a f t h d = Inr (i, d') \<Longrightarrow> trans_op dev d d'"
| payout: "create_claim_transaction u c a f t h d = Inr (i, d') \<Longrightarrow> trans_op dev d d'"
| platform_fee: "create_platform_fee_transaction u a f t h s c d = Inr (i, d') \<Longrightarrow> trans_op dev d d'"
| creation_fee: "create_spot_creation_fee_transaction dev u s a f t h d = Inr (i, d') \<Longrightarrow> trans_op dev d d'"
| details: "update_transaction_chain_details i c d = Inr d' \<Longrightarrow> trans_op dev d d'"
| status: "modify_transaction_status i st d = Inr d' \<Longrightarrow> trans_op dev d d'"
| confirm: "set_transaction_status_to_confirmed i b d = Inr d' \<Longrightarrow> trans_op dev d d'"
| fail: "set_transaction_status_to_failed i d = Inr d' \<Longrightarrow> trans_op dev d d'"
| settled: "trans_op dev d (mark_spot_remainder_settled s d)"
| clock: "db_now d \<le> t \<Longrightarrow> trans_op dev d (d\<lparr>db_now := t\<rparr>)"

inductive trans_run :: "bool \<Rightarrow> db \<Rightarrow> db \<Rightarrow> bool" for dev :: bool where
  start: "trans_run dev d d"
| step: "trans_run dev d d1 \<Longrightarrow> trans_op dev d1 d2 \<Longrightarrow> trans_run dev d d2"

lemma complete_trans_user [simp]: "tr_user_id (complete_trans n old new) = tr_user_id new"
  by (simp add: complete_trans_def)

lemma create_transaction_ok:
  "create_transaction u ty a f t h s c d = Inr (i, d') \<Longrightarrow> db_ok d \<Longrightarrow> db_ok d' \<and> ledger_grows d d'"
  unfolding create_transaction_def using insert_trans_ok insert_trans_grows by blast

lemma creation_fee_cases:
  assumes "create_spot_creation_fee_transaction dev u s a f t h d = Inr (i, d')"
  obtains r ef et where "get_spot s d = Some r" "sp_status r = SPOT_STATUS_DRAFT"
    "sp_cancellation_started_at r = None" "u = sp_created_by r" "0 < a" "a = spot_creation_fee_amount r"
    "normalise_nimiq_address dev (sp_deposit_address r) = Inr ef" "normalise_nimiq_address dev f = Inr ef"
    "normalise_nimiq_address dev (sp_creation_fee_address r) = Inr et" "normalise_nimiq_address dev t = Inr et"
    "spot_required_deposit_amount r \<le> get_confirmed_spot_deposit_total s d"
    "\<not> has_nonfailed_spot_creation_fee_transaction s d"
    "create_transaction u TRANS_TYPE_CREATION_FEE a ef et h (Some s) None d = Inr (i, d')"
  using assms unfolding create_spot_creation_fee_transaction_def
  by (auto simp: Let_def create_once_Inr elim!: bindE_InrE split: option.splits if_splits)

lemma settle_ok:
  assumes s: "settle_status i st m f d = Inr d'" and ok: "db_ok d"
    and keep: "\<And>t. tr_id (f t) = tr_id t \<and> tr_user_id (f t) = tr_user_id t \<and> tr_spot_id (f t) = tr_spot_id t
      \<and> tr_claim_id (f t) = tr_claim_id t \<and> tr_type (f t) = tr_type t \<and> tr_created_at (f t) = tr_created_at t"
  shows "db_ok d' \<and> ledger_grows d d'"
proof -
  note u = settle_status_Inr [OF s]
  have "db_ok d'" by (rule update_trans_ok [OF u ok]) (simp_all add: keep)
  moreover have "ledger_grows d d'"
    by (rule update_trans_grows [OF u]) (simp add: trans_step_def keep)
  ultimately show ?thesis ..
qed

lemma details_ok:
  assumes "update_transaction_chain_details i c d = Inr d'" and ok: "db_ok d"
  shows "db_ok d' \<and> ledger_grows d d'"
proof -
  have "(if c = no_details then Inr d else bindE (update_trans (\<lambda>t. tr_id t = i) (set_details c) d) (\<lambda>d'.
       bindE (require_one (count_where (\<lambda>t. tr_id t = i) (db_trans d))
         ''Failed to update transaction chain details'') (\<lambda>_. Inr d'))) = Inr d'"
    using assms(1) unfolding update_transaction_chain_details_def by (simp only: split: if_split_asm) simp_all
  then consider "d' = d" | "update_trans (\<lambda>t. tr_id t = i) (set_details c) d = Inr d'"
    by (cases "c = no_details") (auto elim!: bindE_InrE)
  then show ?thesis
  proof cases
    case 2
    have "db_ok d'" by (rule update_trans_ok [OF 2 ok]) (simp_all add: set_details_def)
    moreover have "ledger_grows d d'"
      by (rule update_trans_grows [OF 2]) (simp add: trans_step_def set_details_def)
    ultimately show ?thesis ..
  qed (simp add: ok)
qed

lemma trans_op_ok: "trans_op dev d d' \<Longrightarrow> db_ok d \<Longrightarrow> db_ok d' \<and> ledger_grows d d'"
proof (induction rule: trans_op.induct)
  case (deposit u s a f h t d i d')
  then show ?case unfolding create_spot_deposit_transaction_def
    by (auto dest!: create_transaction_ok elim!: bindE_InrE)
next
  case (refund u s a f t h d i d')
  then show ?case unfolding create_spot_refund_transaction_def by (rule create_transaction_ok)
next
  case (remainder u s a f t h d i d')
  then show ?case unfolding create_spot_remainder_refund_transaction_def create_once_Inr
    using create_transaction_ok by blast
next
  case (payout u c a f t h d i d')
  then show ?case unfolding create_claim_transaction_def
    by (auto simp: create_once_Inr dest!: create_transaction_ok split: option.splits)
next
  case (platform_fee u a f t h s c d i d')
  then show ?case unfolding create_platform_fee_transaction_def by (rule create_transaction_ok)
next
  case (creation_fee u s a f t h d i d')
  show ?case
    by (rule creation_fee_cases [OF creation_fee(1)]) (use create_transaction_ok creation_fee(2) in blast)
next
  case (details i c d d')
  then show ?case by (rule details_ok)
next
  case (status i st d d')
  show ?case by (rule settle_ok [OF status(1) [unfolded modify_transaction_status_def] status(2)]) simp
next
  case (confirm i b d d')
  show ?case
    by (rule settle_ok [OF confirm(1) [unfolded set_transaction_status_to_confirmed_def] confirm(2)])
      (simp add: coalesce_completed_def)
next
  case (fail i d d')
  show ?case
    by (rule settle_ok [OF fail(1) [unfolded set_transaction_status_to_failed_def] fail(2)])
      (simp add: coalesce_completed_def)
next
  case (settled d s)
  have "db_trans (mark_spot_remainder_settled s d) = db_trans d" by (simp add: mark_spot_remainder_settled_def)
  then have "ledger_grows d (mark_spot_remainder_settled s d)" unfolding ledger_grows_def trans_step_def by auto
  then show ?case using settled by (simp add: mark_spot_remainder_settled_def)
next
  case (clock d t)
  have "ledger_grows d (d\<lparr>db_now := t\<rparr>)" unfolding ledger_grows_def trans_step_def by auto
  then show ?case using clock by simp
qed

lemma trans_run_ok: "trans_run dev d d' \<Longrightarrow> db_ok d \<Longrightarrow> db_ok d' \<and> ledger_grows d d'"
proof (induction rule: trans_run.induct)
  case (start d)
  then show ?case by simp
next
  case (step d d1 d2)
  then show ?case using trans_op_ok ledger_grows_trans by blast
qed

lemma unique_on_rows:
  assumes "unique_on f rows" and "t \<in> set rows" "t' \<in> set rows" and "f t = Some k" "f t' = Some k"
  shows "t = t'"
  using assms
proof (induction rows)
  case (Cons r rows)
  have "f r = Some k \<Longrightarrow> x \<in> set rows \<Longrightarrow> f x \<noteq> Some k" for x
    using Cons.prems(1) by (force simp: unique_on_def somes_def)
  moreover have "unique_on f rows" using Cons.prems(1) by (auto simp: unique_on_def somes_def split: if_splits)
  ultimately show ?case using Cons by auto
qed simp

lemma live_payments_unique:
  assumes "db_ok d" and "t \<in> set (db_trans d)" "t' \<in> set (db_trans d)"
    and "tr_status t \<noteq> TRANS_STATUS_FAILED" "tr_status t' \<noteq> TRANS_STATUS_FAILED" and "tr_type t' = tr_type t"
  shows "tr_type t = TRANS_TYPE_CLAIM \<Longrightarrow> tr_claim_id t = Some c \<Longrightarrow> tr_claim_id t' = Some c \<Longrightarrow> t' = t"
    and "tr_type t \<in> {TRANS_TYPE_CANCEL_SPOT, TRANS_TYPE_PLAT_FEE, TRANS_TYPE_CREATION_FEE, TRANS_TYPE_REMAINDER_REFUND} \<Longrightarrow>
       tr_spot_id t = Some s \<Longrightarrow> tr_spot_id t' = Some s \<Longrightarrow> t' = t"
proof -
  have u: "unique_on claim_payout_slot (db_trans d)" "unique_on cancellation_slot (db_trans d)"
    "unique_on creation_fee_slot (db_trans d)" "unique_on remainder_refund_slot (db_trans d)"
    using assms(1) by (simp_all add: db_ok_def trans_ok_def)
  note rows = unique_on_rows [OF _ assms(3,2)]
  show "tr_type t = TRANS_TYPE_CLAIM \<Longrightarrow> tr_claim_id t = Some c \<Longrightarrow> tr_claim_id t' = Some c \<Longrightarrow> t' = t"
    by (rule rows [OF u(1)]) (use assms(4-6) in \<open>simp_all add: claim_payout_slot_def active_def\<close>)
  assume ty: "tr_type t \<in> {TRANS_TYPE_CANCEL_SPOT, TRANS_TYPE_PLAT_FEE, TRANS_TYPE_CREATION_FEE, TRANS_TYPE_REMAINDER_REFUND}"
    and s: "tr_spot_id t = Some s" "tr_spot_id t' = Some s"
  consider "tr_type t = TRANS_TYPE_CANCEL_SPOT \<or> tr_type t = TRANS_TYPE_PLAT_FEE"
    | "tr_type t = TRANS_TYPE_CREATION_FEE" | "tr_type t = TRANS_TYPE_REMAINDER_REFUND"
    using ty by blast
  then show "t' = t"
  proof cases
    case 1
    show ?thesis
      by (rule rows [OF u(2)]) (use assms(4-6) s 1 in \<open>auto simp: cancellation_slot_def active_def\<close>)
  next
    case 2
    show ?thesis
      by (rule rows [OF u(3)]) (use assms(4-6) s 2 in \<open>auto simp: creation_fee_slot_def active_def\<close>)
  next
    case 3
    show ?thesis
      by (rule rows [OF u(4)]) (use assms(4-6) s 3 in \<open>auto simp: remainder_refund_slot_def active_def\<close>)
  qed
qed

section \<open>At most one live payment of each obligation\<close>

text \<open>
  C1: After any sequence of ledger operations, each claim has at most one payout
  that has not failed, and each Spot at most one live cancellation refund, one
  platform fee, one creation fee and one remainder refund; no transaction
  disappears or changes what it pays for, and a confirmed or failed one keeps its
  status.
\<close>

theorem ledger_pays_once:
  assumes "trans_run dev d d'" and "db_ok d"
  shows "db_ok d'
    \<and> (\<forall>t\<in>set (db_trans d'). \<forall>t'\<in>set (db_trans d'). tr_status t \<noteq> TRANS_STATUS_FAILED
        \<and> tr_status t' \<noteq> TRANS_STATUS_FAILED \<and> tr_type t' = tr_type t \<longrightarrow>
        (tr_type t = TRANS_TYPE_CLAIM \<and> tr_claim_id t \<noteq> None \<and> tr_claim_id t' = tr_claim_id t
         \<or> tr_type t \<in> {TRANS_TYPE_CANCEL_SPOT, TRANS_TYPE_PLAT_FEE, TRANS_TYPE_CREATION_FEE, TRANS_TYPE_REMAINDER_REFUND}
           \<and> tr_spot_id t \<noteq> None \<and> tr_spot_id t' = tr_spot_id t) \<longrightarrow> t' = t)
    \<and> (\<forall>t\<in>set (db_trans d). \<exists>t'\<in>set (db_trans d'). tr_id t' = tr_id t \<and> tr_type t' = tr_type t
        \<and> tr_user_id t' = tr_user_id t \<and> tr_spot_id t' = tr_spot_id t \<and> tr_claim_id t' = tr_claim_id t
        \<and> (tr_status t \<noteq> TRANS_STATUS_PENDING \<longrightarrow> tr_status t' = tr_status t))"
proof (intro conjI ballI impI)
  note run = trans_run_ok [OF assms]
  show ok: "db_ok d'" using run by simp
  show "\<exists>t'\<in>set (db_trans d'). tr_id t' = tr_id t \<and> tr_type t' = tr_type t
        \<and> tr_user_id t' = tr_user_id t \<and> tr_spot_id t' = tr_spot_id t \<and> tr_claim_id t' = tr_claim_id t
        \<and> (tr_status t \<noteq> TRANS_STATUS_PENDING \<longrightarrow> tr_status t' = tr_status t)" if "t \<in> set (db_trans d)" for t
    using run that unfolding ledger_grows_def trans_step_def by blast
  fix t t' assume mem: "t \<in> set (db_trans d')" "t' \<in> set (db_trans d')"
    and live: "tr_status t \<noteq> TRANS_STATUS_FAILED \<and> tr_status t' \<noteq> TRANS_STATUS_FAILED \<and> tr_type t' = tr_type t"
    and which: "tr_type t = TRANS_TYPE_CLAIM \<and> tr_claim_id t \<noteq> None \<and> tr_claim_id t' = tr_claim_id t
         \<or> tr_type t \<in> {TRANS_TYPE_CANCEL_SPOT, TRANS_TYPE_PLAT_FEE, TRANS_TYPE_CREATION_FEE, TRANS_TYPE_REMAINDER_REFUND}
           \<and> tr_spot_id t \<noteq> None \<and> tr_spot_id t' = tr_spot_id t"
  from which show "t' = t"
  proof
    assume "tr_type t = TRANS_TYPE_CLAIM \<and> tr_claim_id t \<noteq> None \<and> tr_claim_id t' = tr_claim_id t"
    then show ?thesis using live_payments_unique(1) [OF ok mem] live by auto
  next
    assume "tr_type t \<in> {TRANS_TYPE_CANCEL_SPOT, TRANS_TYPE_PLAT_FEE, TRANS_TYPE_CREATION_FEE, TRANS_TYPE_REMAINDER_REFUND}
           \<and> tr_spot_id t \<noteq> None \<and> tr_spot_id t' = tr_spot_id t"
    then show ?thesis using live_payments_unique(2) [OF ok mem] live by force
  qed
qed

theorem ledger_pays_once_witness:
  "\<exists>d'. trans_run True sample_claims_db d' \<and> db_ok d' \<and> length (db_trans d') = 3"
proof -
  have "gives (create_claim_transaction 2 1 25000000 ''D'' ''P'' ''h2'' sample_claims_db) (\<lambda>(i, d1).
      gives (set_transaction_status_to_failed i d1) (\<lambda>d2.
      gives (create_claim_transaction 2 1 25000000 ''D'' ''P'' ''h3'' d2) (\<lambda>(_, d3). length (db_trans d3) = 3)))"
    by code_simp
  then obtain i d1 d2 j d3 where
    p: "create_claim_transaction 2 1 25000000 ''D'' ''P'' ''h2'' sample_claims_db = Inr (i, d1)"
      "set_transaction_status_to_failed i d1 = Inr d2"
      "create_claim_transaction 2 1 25000000 ''D'' ''P'' ''h3'' d2 = Inr (j, d3)"
    and n: "length (db_trans d3) = 3" by (auto simp: gives_iff)
  have run: "trans_run True sample_claims_db d3"
    by (rule trans_run.step [OF trans_run.step [OF trans_run.step [OF trans_run.start
          trans_op.payout [OF p(1)]] trans_op.fail [OF p(2)]] trans_op.payout [OF p(3)]])
  show ?thesis
    using ledger_pays_once [OF run sample_claims_db_ok] by (intro exI [of _ d3] conjI run n) simp
qed

section \<open>Status changes\<close>

lemma find_append: "find P (xs @ ys) = (case find P xs of None \<Rightarrow> find P ys | Some x \<Rightarrow> Some x)"
  by (induction xs) auto

lemma find_trans:
  assumes "db_ok d" and "find_row tr_id i (db_trans d) = Some t"
  shows "t \<in> set (db_trans d)" "tr_id t = i" "get_transaction i d = Some t"
    "\<And>x. x \<in> set (db_trans d) \<Longrightarrow> tr_id x = i \<Longrightarrow> x = t"
proof -
  have ok: "distinct (map tr_id (db_trans d))" "\<forall>x\<in>set (db_trans d). has_user d (tr_user_id x)"
    using assms(1) by (auto simp: db_ok_def trans_ok_def list_all_iff)
  have f: "filter (\<lambda>x. has_user d (tr_user_id x)) (db_trans d) = db_trans d" using ok(2) by simp
  have fr: "find (\<lambda>x. tr_id x = i) xs = find_row tr_id i xs" for xs :: "trans_row list"
    by (induction xs) auto
  show "get_transaction i d = Some t"
    by (simp add: get_transaction_def view_trans_detail_def f fr assms(2))
  show "t \<in> set (db_trans d)" "tr_id t = i" using find_row_SomeD [OF assms(2)] by auto
  then show "x = t" if "x \<in> set (db_trans d)" "tr_id x = i" for x
    using find_row_distinct [OF ok(1) that(1)] that(2) assms(2) by simp
qed

lemma count_pending_row:
  assumes "db_ok d" and "find_row tr_id i (db_trans d) = Some t"
  shows "count_where (\<lambda>x. tr_id x = i \<and> tr_status x = TRANS_STATUS_PENDING) (db_trans d)
    = (if tr_status t = TRANS_STATUS_PENDING then 1 else 0)"
proof (cases "tr_status t = TRANS_STATUS_PENDING")
  case True
  have only: "(tr_id x = i \<and> tr_status x = TRANS_STATUS_PENDING) = (tr_id x = i)" if "x \<in> set (db_trans d)" for x
  proof (cases "tr_id x = i")
    case eq: True
    then show ?thesis using find_trans(4) [OF assms that eq] True by simp
  qed simp
  have "count_where (\<lambda>x. tr_id x = i \<and> tr_status x = TRANS_STATUS_PENDING) (db_trans d)
      = count_where (\<lambda>x. tr_id x = i) (db_trans d)"
    by (rule count_where_cong) (use only in blast)
  also have "\<dots> = 1"
    by (rule count_where_key [OF _ assms(2)]) (use assms(1) in \<open>auto simp: db_ok_def trans_ok_def\<close>)
  finally show ?thesis using True by simp
next
  case False
  have "\<not> (tr_id x = i \<and> tr_status x = TRANS_STATUS_PENDING)" if "x \<in> set (db_trans d)" for x
  proof
    assume x: "tr_id x = i \<and> tr_status x = TRANS_STATUS_PENDING"
    then have "x = t" using find_trans(4) [OF assms that] by blast
    then show False using x False by simp
  qed
  then show ?thesis using False by (simp add: count_where_0_iff)
qed

lemma update_pending_none:
  assumes "db_ok d" and "\<And>x. x \<in> set (db_trans d) \<Longrightarrow> \<not> P x"
  shows "update_trans P f d = Inr d"
proof -
  have "update_where P f (db_trans d) = db_trans d"
    using assms(2) by (auto simp: update_where_def intro!: map_idI)
  then show ?thesis
    using assms(1) by (simp add: update_trans_def write_trans_Inr db_ok_def trans_ok_def list_all_iff)
qed

text \<open>The settling update leaves a row that is not pending alone.\<close>

lemma settle_final:
  assumes ok: "db_ok d" and row: "find_row tr_id i (db_trans d) = Some t" "tr_status t \<noteq> TRANS_STATUS_PENDING"
  shows "settle_status i st m f d = (if tr_status t = st then Inr d else Inl (RuntimeError m))"
proof -
  have "update_trans (\<lambda>x. tr_id x = i \<and> tr_status x = TRANS_STATUS_PENDING)
      (\<lambda>x. complete_trans (db_now d) x (f x)) d = Inr d"
    by (rule update_pending_none [OF ok]) (use find_trans(4) [OF ok row(1)] row(2) in metis)
  then show ?thesis
    using count_pending_row [OF ok row(1)] row(2) find_trans(3) [OF ok row(1)]
    by (simp add: settle_status_def require_one_def Let_def)
qed

lemma find_row_map_other:
  assumes "find_row tr_id i (db_trans d') = Some t" and "db_ok d'" shows "get_transaction i d' = Some t"
  using find_trans(3) [OF assms(2,1)] .

text \<open>
  Confirming is a compare-and-set: it succeeds on a pending transaction with
  the block number and a completion time, is silently repeated on a confirmed one
  (which keeps its first block number), and raises on a failed or missing one.
\<close>

theorem confirm_transaction:
  assumes ok: "db_ok d" and b: "0 \<le> b"
  shows "case find_row tr_id i (db_trans d) of
      None \<Rightarrow> \<not> is_ok (set_transaction_status_to_confirmed i b d)
    | Some t \<Rightarrow>
        (tr_status t = TRANS_STATUS_CONFIRMED \<longrightarrow> set_transaction_status_to_confirmed i b d = Inr d)
      \<and> (tr_status t = TRANS_STATUS_FAILED \<longrightarrow> \<not> is_ok (set_transaction_status_to_confirmed i b d))
      \<and> (tr_status t = TRANS_STATUS_PENDING \<longrightarrow> (\<forall>d'. set_transaction_status_to_confirmed i b d = Inr d' \<longrightarrow>
           get_transaction i d' = Some (t\<lparr>tr_status := TRANS_STATUS_CONFIRMED, tr_block_number := Some b,
             tr_completed_at := Some (case tr_completed_at t of None \<Rightarrow> db_now d | Some c \<Rightarrow> c)\<rparr>)))"
proof (cases "find_row tr_id i (db_trans d)")
  case None
  let ?P = "\<lambda>x. tr_id x = i \<and> tr_status x = TRANS_STATUS_PENDING"
  have none: "\<not> ?P x" if "x \<in> set (db_trans d)" for x using None that by (auto simp: find_row_None_iff)
  have u: "update_trans ?P f d = Inr d" for f by (rule update_pending_none [OF ok none])
  have n: "count_where ?P (db_trans d) = 0" unfolding count_where_0_iff using none by blast
  have g: "get_transaction i d = None"
    using None by (auto simp: get_transaction_def view_trans_detail_def find_None_iff find_row_None_iff)
  show ?thesis
    unfolding set_transaction_status_to_confirmed_def settle_status_def Let_def u n
    by (simp add: None g require_one_def)
next
  case (Some t)
  note final = settle_final [OF ok Some]
  have pend: "get_transaction i d' = Some (t\<lparr>tr_status := TRANS_STATUS_CONFIRMED, tr_block_number := Some b,
             tr_completed_at := Some (case tr_completed_at t of None \<Rightarrow> db_now d | Some c \<Rightarrow> c)\<rparr>)"
    if r: "set_transaction_status_to_confirmed i b d = Inr d'" and p: "tr_status t = TRANS_STATUS_PENDING" for d'
  proof -
    note u = settle_status_Inr [OF r [unfolded set_transaction_status_to_confirmed_def]]
    have ok': "db_ok d'" using trans_op_ok [OF trans_op.confirm [OF r] ok] by simp
    have "db_trans d' = update_where (\<lambda>x. tr_id x = i \<and> tr_status x = TRANS_STATUS_PENDING)
        (\<lambda>x. complete_trans (db_now d) x (coalesce_completed (db_now d)
          (x\<lparr>tr_status := TRANS_STATUS_CONFIRMED, tr_block_number := Some b\<rparr>))) (db_trans d)"
      using u by (simp add: update_trans_def write_trans_Inr)
    then have "find_row tr_id i (db_trans d') = Some (t\<lparr>tr_status := TRANS_STATUS_CONFIRMED, tr_block_number := Some b,
             tr_completed_at := Some (case tr_completed_at t of None \<Rightarrow> db_now d | Some c \<Rightarrow> c)\<rparr>)"
      using Some p find_trans(2) [OF ok Some]
      by (simp add: find_row_update_where coalesce_completed_def complete_trans_def)
    then show ?thesis by (rule find_row_map_other [OF _ ok'])
  qed
  have conf: "set_transaction_status_to_confirmed i b d = Inr d" if "tr_status t = TRANS_STATUS_CONFIRMED"
    unfolding set_transaction_status_to_confirmed_def using final that by simp
  have failed: "\<not> is_ok (set_transaction_status_to_confirmed i b d)" if "tr_status t = TRANS_STATUS_FAILED"
    unfolding set_transaction_status_to_confirmed_def using final that by simp
  show ?thesis using Some conf failed pend by simp
qed

theorem confirm_transaction_witness:
  "\<not> is_ok (set_transaction_status_to_confirmed 9 5 sample_db)
    \<and> set_transaction_status_to_confirmed 1 5 sample_db = Inr sample_db"
proof -
  have "find_row tr_id 9 (db_trans sample_db) = None" "find_row tr_id 1 (db_trans sample_db) = Some sample_deposit"
    by (simp_all add: sample_defs)
  then show ?thesis
    using confirm_transaction [OF sample_db_ok, of 5 9] confirm_transaction [OF sample_db_ok, of 5 1]
    by (simp add: sample_deposit_def)
qed

text \<open>A funded draft whose creation fee is not recorded yet.\<close>

definition sample_fee_db :: db where
  "sample_fee_db = sample_db\<lparr>db_spots := [sample_spot\<lparr>sp_status := SPOT_STATUS_DRAFT,
     sp_deposit_address := ''NQ00 NIMHUNT DEV SPOT DEPOSIT 1'',
     sp_creation_fee_address := ''NQ00 NIMHUNT DEV CANCELLATION FEE POOL''\<rparr>]\<rparr>"

end
