(* ===== verification/LedgerSpec.thy ===== *)
theory LedgerSpec
  imports TransProps
begin

text \<open>
  The ledger as a register of obligations. Seen from outside, the rows of
  \<^verbatim>\<open>trans\<close> that pay for something come to one stage per obligation: unpaid, a
  payment underway, paid. Every operation of \<^verbatim>\<open>db_access.py\<close> on the ledger does
  one definite thing to this register.
\<close>

section \<open>The abstract register\<close>

datatype obligation = ClaimReward int | CancelRefund int | PlatformFee int | CreationFee int | LeftoverRefund int

datatype stage = Unpaid | Underway | Paid

type_synonym register = "obligation \<Rightarrow> stage"

section \<open>The register of a database\<close>

definition owed :: "trans_row \<Rightarrow> obligation option" where
  "owed t =
    (if tr_type t = TRANS_TYPE_CLAIM then map_option ClaimReward (tr_claim_id t)
     else if tr_type t = TRANS_TYPE_CANCEL_SPOT then map_option CancelRefund (tr_spot_id t)
     else if tr_type t = TRANS_TYPE_PLAT_FEE then map_option PlatformFee (tr_spot_id t)
     else if tr_type t = TRANS_TYPE_CREATION_FEE then map_option CreationFee (tr_spot_id t)
     else if tr_type t = TRANS_TYPE_REMAINDER_REFUND then map_option LeftoverRefund (tr_spot_id t)
     else None)"

definition stage_of :: "trans_row \<Rightarrow> stage" where
  "stage_of t = (if tr_status t = TRANS_STATUS_CONFIRMED then Paid
                 else if tr_status t = TRANS_STATUS_FAILED then Unpaid else Underway)"

definition register :: "db \<Rightarrow> register" where
  "register d ob = (case find (\<lambda>t. owed t = Some ob \<and> active t) (db_trans d) of
     None \<Rightarrow> Unpaid | Some t \<Rightarrow> stage_of t)"

lemma active_unique:
  assumes ok: "db_ok d" and mem: "t \<in> set (db_trans d)" "t' \<in> set (db_trans d)"
    and o: "owed t = Some ob" "owed t' = Some ob" and live: "active t" "active t'"
  shows "t' = t"
proof -
  have ty: "tr_type t' = tr_type t" using o by (auto simp: owed_def split: if_split_asm)
  note L = live_payments_unique [OF ok mem live(1) [unfolded active_def] live(2) [unfolded active_def] ty]
  show ?thesis
  proof (cases "tr_type t = TRANS_TYPE_CLAIM")
    case True
    then show ?thesis using L(1) o ty by (auto simp: owed_def)
  next
    case False
    then obtain s where "tr_spot_id t = Some s" "tr_spot_id t' = Some s"
        "tr_type t \<in> {TRANS_TYPE_CANCEL_SPOT, TRANS_TYPE_PLAT_FEE, TRANS_TYPE_CREATION_FEE, TRANS_TYPE_REMAINDER_REFUND}"
      using o ty by (auto simp: owed_def split: if_split_asm)
    then show ?thesis using L(2) by blast
  qed
qed

lemma register_row:
  assumes "db_ok d" and "t \<in> set (db_trans d)" and "owed t = Some ob" and "active t"
  shows "register d ob = stage_of t"
proof -
  obtain t' where t': "find (\<lambda>t. owed t = Some ob \<and> active t) (db_trans d) = Some t'"
    using assms(2-4) by (cases "find (\<lambda>t. owed t = Some ob \<and> active t) (db_trans d)") (auto simp: find_None_iff)
  then have "t' \<in> set (db_trans d)" "owed t' = Some ob" "active t'" by (auto simp: find_Some_iff)
  then show ?thesis using active_unique [OF assms(1,2) _ assms(3)] assms(4) t' by (simp add: register_def)
qed

lemma register_none:
  "(\<And>t. t \<in> set (db_trans d) \<Longrightarrow> owed t = Some ob \<Longrightarrow> \<not> active t) \<Longrightarrow> register d ob = Unpaid"
  by (auto simp: register_def find_Some_iff split: option.split)

lemma register_cong: "map (\<lambda>t. (owed t, tr_status t)) (db_trans d') = map (\<lambda>t. (owed t, tr_status t)) (db_trans d) \<Longrightarrow> register d' = register d"
proof (rule ext)
  fix ob assume m: "map (\<lambda>t. (owed t, tr_status t)) (db_trans d') = map (\<lambda>t. (owed t, tr_status t)) (db_trans d)"
  have "map_option stage_of (find (\<lambda>t. owed t = Some ob \<and> active t) xs)
      = map_option stage_of (find (\<lambda>t. owed t = Some ob \<and> active t) ys)"
    if "map (\<lambda>t. (owed t, tr_status t)) xs = map (\<lambda>t. (owed t, tr_status t)) ys" for xs ys
    using that by (induction xs ys rule: list_induct2' ) (auto simp: active_def stage_of_def)
  from this [OF m] show "register d' ob = register d ob" by (auto simp: register_def split: option.splits)
qed

section \<open>The two ways the ledger changes\<close>

lemma pending_live: "tr_status t = TRANS_STATUS_PENDING \<Longrightarrow> active t \<and> stage_of t = Underway"
  by (simp add: active_def stage_of_def TRANS_STATUS_PENDING_def TRANS_STATUS_FAILED_def TRANS_STATUS_CONFIRMED_def)

lemma register_insert:
  assumes ok': "db_ok d'" and rows: "db_trans d' = db_trans d @ [r]" and pending: "tr_status r = TRANS_STATUS_PENDING"
  shows "case owed r of None \<Rightarrow> register d' = register d
    | Some ob \<Rightarrow> register d ob = Unpaid \<and> register d' = (register d)(ob := Underway)"
proof -
  have live: "active r" "stage_of r = Underway" using pending_live [OF pending] by simp_all
  have other: "register d' ob = register d ob" if "owed r \<noteq> Some ob" for ob
    using that by (simp add: register_def rows find_append split: option.split)
  show ?thesis
  proof (cases "owed r")
    case None
    then show ?thesis using other by auto
  next
    case (Some ob)
    have "\<not> active t" if "t \<in> set (db_trans d)" "owed t = Some ob" for t
    proof
      assume "active t"
      then have "t = r" using active_unique [OF ok' _ _ Some that(2) live(1)] that(1) rows by simp
      moreover have "distinct (db_trans d')" using ok' by (auto simp: db_ok_def trans_ok_def dest: distinct_map [THEN iffD1])
      ultimately show False using that(1) rows by simp
    qed
    then have "register d ob = Unpaid" by (rule register_none)
    moreover have "register d' ob = Underway" using register_row [OF ok' _ Some live(1)] live(2) rows by simp
    then have "register d' = (register d)(ob := Underway)" using other Some by (auto simp: fun_eq_iff)
    ultimately show ?thesis using Some by simp
  qed
qed

text \<open>One pending row changes its status, all others stay as they are.\<close>

lemma register_update:
  assumes ok: "db_ok d" and ok': "db_ok d'" and rows: "db_trans d' = map g (db_trans d)"
    and t: "t \<in> set (db_trans d)" and pending: "tr_status t = TRANS_STATUS_PENDING" and o: "owed (g t) = owed t"
    and rest: "\<And>x. x \<in> set (db_trans d) \<Longrightarrow> x \<noteq> t \<Longrightarrow> g x = x"
  shows "case owed t of None \<Rightarrow> register d' = register d
    | Some ob \<Rightarrow> register d ob = Underway \<and> register d' = (register d)(ob := stage_of (g t))"
proof -
  have live: "active t" "stage_of t = Underway" using pending_live [OF pending] by simp_all
  have in': "x \<in> set (db_trans d')" if "x \<in> set (db_trans d)" "x \<noteq> t" for x
    using image_eqI [of x g x "set (db_trans d)"] rest [OF that] that(1) unfolding rows set_map by simp
  have origin: "x \<in> set (db_trans d) \<and> x \<noteq> t \<or> x = g t" if x: "x \<in> set (db_trans d')" for x
  proof -
    obtain z where z: "z \<in> set (db_trans d)" "x = g z" using x unfolding rows by auto
    then show ?thesis using rest [of z] by (cases "z = t") simp_all
  qed
  have other: "register d' ob = register d ob" if no: "owed t \<noteq> Some ob" for ob
  proof (cases "\<exists>x\<in>set (db_trans d). owed x = Some ob \<and> active x")
    case True
    then obtain x where x: "x \<in> set (db_trans d)" "owed x = Some ob" "active x" by blast
    then have "x \<noteq> t" using no by blast
    then show ?thesis using register_row [OF ok x] register_row [OF ok' in' x(2,3)] x(1) by simp
  next
    case False
    have "register d' ob = Unpaid"
    proof (rule register_none)
      fix y assume "y \<in> set (db_trans d')" "owed y = Some ob"
      then show "\<not> active y" using origin [of y] no o False by auto
    qed
    moreover have "register d ob = Unpaid" by (rule register_none) (use False in blast)
    ultimately show ?thesis by simp
  qed
  show ?thesis
  proof (cases "owed t")
    case None
    then show ?thesis using other by auto
  next
    case (Some ob)
    have u: "register d ob = Underway" using register_row [OF ok t Some live(1)] live(2) by simp
    have "register d' ob = stage_of (g t)"
    proof (cases "active (g t)")
      case True
      have "g t \<in> set (db_trans d')" using t rows by simp
      then show ?thesis using register_row [OF ok' _ _ True] o Some by simp
    next
      case False
      then have "stage_of (g t) = Unpaid"
        by (simp add: active_def stage_of_def TRANS_STATUS_FAILED_def TRANS_STATUS_CONFIRMED_def)
      moreover have "register d' ob = Unpaid"
      proof (rule register_none)
        fix y assume y: "y \<in> set (db_trans d')" "owed y = Some ob"
        show "\<not> active y"
          using origin [OF y(1)] False active_unique [OF ok t _ Some y(2) live(1)] by blast
      qed
      ultimately show ?thesis by simp
    qed
    then have "register d' = (register d)(ob := stage_of (g t))" using other Some by (auto simp: fun_eq_iff)
    then show ?thesis using u Some by simp
  qed
qed

section \<open>Operations of the ledger\<close>

lemma register_create:
  assumes c: "create_transaction u ty a f t h s c d = Inr (i, d')" and ok: "db_ok d"
    and o: "owed \<lparr>tr_id = i, tr_user_id = u, tr_spot_id = s, tr_claim_id = c, tr_type = ty,
      tr_amount = a, tr_from_address = f, tr_to_address = t, tr_tx_hash = h, tr_block_number = None,
      tr_status = TRANS_STATUS_PENDING, tr_created_at = db_now d, tr_completed_at = None\<rparr> = o'"
  shows "case o' of None \<Rightarrow> register d' = register d
    | Some ob \<Rightarrow> register d ob = Unpaid \<and> register d' = (register d)(ob := Underway)"
  unfolding o [symmetric]
proof (rule register_insert)
  show "db_ok d'" using create_transaction_ok [OF c ok] by simp
  show "db_trans d' = db_trans d @ [\<lparr>tr_id = i, tr_user_id = u, tr_spot_id = s, tr_claim_id = c, tr_type = ty,
      tr_amount = a, tr_from_address = f, tr_to_address = t, tr_tx_hash = h, tr_block_number = None,
      tr_status = TRANS_STATUS_PENDING, tr_created_at = db_now d, tr_completed_at = None\<rparr>]"
    using insert_trans_Inr(1) [OF c [unfolded create_transaction_def]] by simp
qed simp

lemma settle_missing:
  assumes ok: "db_ok d" and none: "find_row tr_id i (db_trans d) = None"
  shows "settle_status i st m f d \<noteq> Inr d'"
proof -
  let ?P = "\<lambda>x. tr_id x = i \<and> tr_status x = TRANS_STATUS_PENDING"
  have no: "\<not> ?P x" if "x \<in> set (db_trans d)" for x using none that by (auto simp: find_row_None_iff)
  have u: "update_trans ?P g d = Inr d" for g by (rule update_pending_none [OF ok no])
  have n: "count_where ?P (db_trans d) = 0" unfolding count_where_0_iff using no by blast
  have g: "get_transaction i d = None"
    using none by (auto simp: get_transaction_def view_trans_detail_def find_None_iff find_row_None_iff)
  show ?thesis unfolding settle_status_def Let_def u n by (simp add: g require_one_def)
qed

text \<open>Settling a row: the pending one comes to its new stage, a repeated call changes nothing.\<close>

definition settled_register :: "trans_row \<Rightarrow> int \<Rightarrow> register \<Rightarrow> register" where
  "settled_register t st r = (case owed t of None \<Rightarrow> r | Some ob \<Rightarrow>
     if tr_status t = TRANS_STATUS_PENDING
     then r(ob := if st = TRANS_STATUS_CONFIRMED then Paid else if st = TRANS_STATUS_FAILED then Unpaid else Underway)
     else r)"

lemma register_settle:
  assumes s: "settle_status i st m f d = Inr d'" and ok: "db_ok d" "db_ok d'"
    and keep: "\<And>t. tr_spot_id (f t) = tr_spot_id t \<and> tr_claim_id (f t) = tr_claim_id t \<and> tr_type (f t) = tr_type t
      \<and> tr_status (f t) = st"
  shows "\<exists>t\<in>set (db_trans d). tr_id t = i \<and> (tr_status t = TRANS_STATUS_PENDING \<or> tr_status t = st)
    \<and> (\<forall>ob. owed t = Some ob \<and> tr_status t = TRANS_STATUS_PENDING \<longrightarrow> register d ob = Underway)
    \<and> register d' = settled_register t st (register d)"
proof (cases "find_row tr_id i (db_trans d)")
  case None
  then show ?thesis using settle_missing [OF ok(1)] s by blast
next
  case (Some t)
  note row = find_trans [OF ok(1) Some]
  show ?thesis
  proof (cases "tr_status t = TRANS_STATUS_PENDING")
    case False
    then have "tr_status t = st \<and> d' = d" using settle_final [OF ok(1) Some False, of st m f] s by (simp split: if_split_asm)
    then show ?thesis using row(1,2) False by (intro bexI [of _ t]) (auto simp: settled_register_def split: option.split)
  next
    case True
    let ?g = "\<lambda>x. if tr_id x = i \<and> tr_status x = TRANS_STATUS_PENDING then complete_trans (db_now d) x (f x) else x"
    have rows: "db_trans d' = map ?g (db_trans d)"
      using settle_status_Inr [OF s] by (simp add: update_trans_def write_trans_Inr update_where_def)
    have st: "stage_of (?g t) = (if st = TRANS_STATUS_CONFIRMED then Paid else if st = TRANS_STATUS_FAILED then Unpaid else Underway)"
      using True row(2) keep by (simp add: stage_of_def)
    have "case owed t of None \<Rightarrow> register d' = register d
      | Some ob \<Rightarrow> register d ob = Underway \<and> register d' = (register d)(ob := stage_of (?g t))"
    proof (rule register_update [OF ok rows row(1) True])
      show "owed (?g t) = owed t" using keep by (simp add: owed_def)
      show "?g x = x" if "x \<in> set (db_trans d)" "x \<noteq> t" for x
      proof -
        have "tr_id x \<noteq> i" using row(4) that by blast
        then show ?thesis by simp
      qed
    qed
    then have "(\<forall>ob. owed t = Some ob \<longrightarrow> register d ob = Underway) \<and> register d' = settled_register t st (register d)"
      unfolding st settled_register_def using True by (cases "owed t") simp_all
    then show ?thesis using row(1,2) True by blast
  qed
qed

lemma register_details:
  assumes u: "update_transaction_chain_details i c d = Inr d'"
  shows "register d' = register d"
proof (rule register_cong)
  have "(if c = no_details then Inr d else bindE (update_trans (\<lambda>t. tr_id t = i) (set_details c) d) (\<lambda>d'.
       bindE (require_one (count_where (\<lambda>t. tr_id t = i) (db_trans d))
         ''Failed to update transaction chain details'') (\<lambda>_. Inr d'))) = Inr d'"
    using u unfolding update_transaction_chain_details_def by (simp only: split: if_split_asm) simp_all
  then consider "d' = d" | "update_trans (\<lambda>t. tr_id t = i) (set_details c) d = Inr d'"
    by (cases "c = no_details") (auto elim!: bindE_InrE)
  then show "map (\<lambda>t. (owed t, tr_status t)) (db_trans d') = map (\<lambda>t. (owed t, tr_status t)) (db_trans d)"
    by cases (auto simp: update_trans_def write_trans_Inr update_where_def set_details_def owed_def)
qed

lemma coalesce_keeps:
  "tr_spot_id (coalesce_completed n (t\<lparr>tr_status := st, tr_block_number := b\<rparr>)) = tr_spot_id t
   \<and> tr_claim_id (coalesce_completed n (t\<lparr>tr_status := st, tr_block_number := b\<rparr>)) = tr_claim_id t
   \<and> tr_type (coalesce_completed n (t\<lparr>tr_status := st, tr_block_number := b\<rparr>)) = tr_type t
   \<and> tr_status (coalesce_completed n (t\<lparr>tr_status := st, tr_block_number := b\<rparr>)) = st"
  "tr_spot_id (coalesce_completed n (t\<lparr>tr_status := st\<rparr>)) = tr_spot_id t
   \<and> tr_claim_id (coalesce_completed n (t\<lparr>tr_status := st\<rparr>)) = tr_claim_id t
   \<and> tr_type (coalesce_completed n (t\<lparr>tr_status := st\<rparr>)) = tr_type t
   \<and> tr_status (coalesce_completed n (t\<lparr>tr_status := st\<rparr>)) = st"
  by (simp_all add: coalesce_completed_def)

text \<open>The operation that starts the payment of an obligation, and what it does to the register.\<close>

definition starts :: "obligation option \<Rightarrow> db \<Rightarrow> (int \<times> db) res \<Rightarrow> bool" where
  "starts o' d r \<longleftrightarrow> (\<forall>i d'. r = Inr (i, d') \<longrightarrow> (case o' of None \<Rightarrow> register d' = register d
     | Some ob \<Rightarrow> register d ob = Unpaid \<and> register d' = (register d)(ob := Underway)))"

lemma starts_create:
  assumes "db_ok d" and "\<And>r. tr_type r = ty \<Longrightarrow> tr_spot_id r = s \<Longrightarrow> tr_claim_id r = c \<Longrightarrow> owed r = o'"
  shows "starts o' d (create_transaction u ty a f t h s c d)"
  unfolding starts_def by (intro allI impI, rule register_create [OF _ assms(1)], assumption) (rule assms(2); simp)

lemma starts_once:
  "starts o' d (create d) \<Longrightarrow> starts o' d (create_once ex m create d)"
  unfolding starts_def create_once_Inr by blast

lemma starts_payout: "db_ok d \<Longrightarrow> starts (Some (ClaimReward k)) d (create_claim_transaction u k a f t h d)"
  unfolding create_claim_transaction_def
  by (cases "get_claim k d") (auto simp: starts_def owed_def create_once_Inr dest!: register_create)

lemma starts_creation_fee:
  assumes "db_ok d"
  shows "starts (Some (CreationFee s)) d (create_spot_creation_fee_transaction dev u s a f t h d)"
  unfolding starts_def
proof (intro allI impI)
  fix i d' assume r: "create_spot_creation_fee_transaction dev u s a f t h d = Inr (i, d')"
  obtain ef et where "create_transaction u TRANS_TYPE_CREATION_FEE a ef et h (Some s) None d = Inr (i, d')"
    by (rule creation_fee_cases [OF r])
  from register_create [OF this assms, of "Some (CreationFee s)"]
  show "case Some (CreationFee s) of None \<Rightarrow> register d' = register d
     | Some ob \<Rightarrow> register d ob = Unpaid \<and> register d' = (register d)(ob := Underway)"
    by (simp add: owed_def)
qed

text \<open>
  C36: The ledger refines the register of obligations, operation by operation. In
  every state the ledger operations reach, a payment of a claim, a refund, a
  platform fee, a creation fee or a remainder is only recorded for an obligation
  that is unpaid, and puts exactly that one underway; settling a row, which must
  exist, takes its obligation from underway to paid or back to unpaid, and
  repeating it changes nothing; deposits, chain details, the remainder mark and the
  clock leave the register as it is.
\<close>

theorem ledger_refines_register:
  assumes "trans_run dev d0 d" and "db_ok d0"
  shows "(\<forall>u k a f t h i d'. create_claim_transaction u k a f t h d = Inr (i, d') \<longrightarrow>
          register d (ClaimReward k) = Unpaid \<and> register d' = (register d)(ClaimReward k := Underway))
    \<and> (\<forall>u s a f t h i d'. create_spot_refund_transaction u s a f t h d = Inr (i, d') \<longrightarrow>
          register d (CancelRefund s) = Unpaid \<and> register d' = (register d)(CancelRefund s := Underway))
    \<and> (\<forall>u s a f t h i d'. create_spot_remainder_refund_transaction u s a f t h d = Inr (i, d') \<longrightarrow>
          register d (LeftoverRefund s) = Unpaid \<and> register d' = (register d)(LeftoverRefund s := Underway))
    \<and> (\<forall>u a f t h s c i d'. create_platform_fee_transaction u a f t h (Some s) c d = Inr (i, d') \<longrightarrow>
          register d (PlatformFee s) = Unpaid \<and> register d' = (register d)(PlatformFee s := Underway))
    \<and> (\<forall>u s a f t h i d'. create_spot_creation_fee_transaction dev u s a f t h d = Inr (i, d') \<longrightarrow>
          register d (CreationFee s) = Unpaid \<and> register d' = (register d)(CreationFee s := Underway))
    \<and> (\<forall>i b d'. set_transaction_status_to_confirmed i b d = Inr d' \<longrightarrow>
          (\<exists>t\<in>set (db_trans d). tr_id t = i \<and> (case owed t of None \<Rightarrow> register d' = register d
             | Some ob \<Rightarrow> register d ob \<in> {Underway, Paid} \<and> register d' = (register d)(ob := Paid))))
    \<and> (\<forall>i d'. set_transaction_status_to_failed i d = Inr d' \<longrightarrow>
          (\<exists>t\<in>set (db_trans d). tr_id t = i \<and> (case owed t of None \<Rightarrow> register d' = register d
             | Some ob \<Rightarrow> if tr_status t = TRANS_STATUS_FAILED then register d' = register d
                 else register d ob = Underway \<and> register d' = (register d)(ob := Unpaid))))
    \<and> (\<forall>i st d'. modify_transaction_status i st d = Inr d' \<longrightarrow>
          (\<exists>t\<in>set (db_trans d). tr_id t = i \<and> (case owed t of None \<Rightarrow> register d' = register d
             | Some ob \<Rightarrow> if tr_status t \<noteq> TRANS_STATUS_PENDING then register d' = register d
                 else register d ob = Underway
                   \<and> register d' = (register d)(ob := if st = TRANS_STATUS_CONFIRMED then Paid
                        else if st = TRANS_STATUS_FAILED then Unpaid else Underway))))
    \<and> (\<forall>u s a f h t i d'. create_spot_deposit_transaction u s a f h t d = Inr (i, d') \<longrightarrow> register d' = register d)
    \<and> (\<forall>i c d'. update_transaction_chain_details i c d = Inr d' \<longrightarrow> register d' = register d)
    \<and> (\<forall>s. register (mark_spot_remainder_settled s d) = register d)
    \<and> (\<forall>n. register (d\<lparr>db_now := n\<rparr>) = register d)"
proof -
  have ok: "db_ok d" using trans_run_ok [OF assms] by simp
  have st: "register d ob = Unpaid \<and> register d' = (register d)(ob := Underway)"
    if "starts (Some ob) d r" "r = Inr (i, d')" for ob r i d'
    using that by (simp add: starts_def)
  have conf: "\<exists>t\<in>set (db_trans d). tr_id t = i \<and> (case owed t of None \<Rightarrow> register d' = register d
      | Some ob \<Rightarrow> register d ob \<in> {Underway, Paid} \<and> register d' = (register d)(ob := Paid))"
    if r: "set_transaction_status_to_confirmed i b d = Inr d'" for i b d'
  proof -
    have ok': "db_ok d'" using trans_op_ok [OF trans_op.confirm [OF r] ok] by simp
    obtain t where t: "t \<in> set (db_trans d)" "tr_id t = i"
        "tr_status t = TRANS_STATUS_PENDING \<or> tr_status t = TRANS_STATUS_CONFIRMED"
        "\<forall>ob. owed t = Some ob \<and> tr_status t = TRANS_STATUS_PENDING \<longrightarrow> register d ob = Underway"
        "register d' = settled_register t TRANS_STATUS_CONFIRMED (register d)"
      using register_settle [OF r [unfolded set_transaction_status_to_confirmed_def] ok ok' coalesce_keeps(1)] by auto
    have "register d ob = Paid" if "owed t = Some ob" "tr_status t = TRANS_STATUS_CONFIRMED" for ob
      using register_row [OF ok t(1) that(1)] that(2)
      by (simp add: active_def stage_of_def TRANS_STATUS_FAILED_def TRANS_STATUS_CONFIRMED_def)
    then show ?thesis
      using t by (intro bexI [OF _ t(1)]) (auto simp: settled_register_def fun_upd_idem split: option.split)
  qed
  have fail: "\<exists>t\<in>set (db_trans d). tr_id t = i \<and> (case owed t of None \<Rightarrow> register d' = register d
      | Some ob \<Rightarrow> if tr_status t = TRANS_STATUS_FAILED then register d' = register d
          else register d ob = Underway \<and> register d' = (register d)(ob := Unpaid))"
    if r: "set_transaction_status_to_failed i d = Inr d'" for i d'
  proof -
    have ok': "db_ok d'" using trans_op_ok [OF trans_op.fail [OF r] ok] by simp
    obtain t where t: "t \<in> set (db_trans d)" "tr_id t = i"
        "tr_status t = TRANS_STATUS_PENDING \<or> tr_status t = TRANS_STATUS_FAILED"
        "\<forall>ob. owed t = Some ob \<and> tr_status t = TRANS_STATUS_PENDING \<longrightarrow> register d ob = Underway"
        "register d' = settled_register t TRANS_STATUS_FAILED (register d)"
      using register_settle [OF r [unfolded set_transaction_status_to_failed_def] ok ok' coalesce_keeps(2)] by auto
    show ?thesis
      using t by (intro bexI [OF _ t(1)]) (auto simp: settled_register_def const_defs split: option.split)
  qed
  have modify: "\<exists>t\<in>set (db_trans d). tr_id t = i \<and> (case owed t of None \<Rightarrow> register d' = register d
      | Some ob \<Rightarrow> if tr_status t \<noteq> TRANS_STATUS_PENDING then register d' = register d
          else register d ob = Underway
            \<and> register d' = (register d)(ob := if st = TRANS_STATUS_CONFIRMED then Paid
                 else if st = TRANS_STATUS_FAILED then Unpaid else Underway))"
    if r: "modify_transaction_status i st d = Inr d'" for i st d'
  proof -
    have ok': "db_ok d'" using trans_op_ok [OF trans_op.status [OF r] ok] by simp
    obtain t where t: "t \<in> set (db_trans d)" "tr_id t = i"
        "\<forall>ob. owed t = Some ob \<and> tr_status t = TRANS_STATUS_PENDING \<longrightarrow> register d ob = Underway"
        "register d' = settled_register t st (register d)"
      using register_settle [OF r [unfolded modify_transaction_status_def] ok ok'] by auto
    show ?thesis
      using t by (intro bexI [OF _ t(1)]) (auto simp: settled_register_def split: option.split)
  qed
  have deposit: "register d' = register d" if "create_spot_deposit_transaction u s a f h t d = Inr (i, d')" for u s a f h t i d'
    using that register_create [OF _ ok, where o' = None] unfolding create_spot_deposit_transaction_def
    by (auto simp: owed_def const_defs elim!: bindE_InrE)
  have refund: "starts (Some (CancelRefund s)) d (create_spot_refund_transaction u s a f t h d)" for u s a f t h
    unfolding create_spot_refund_transaction_def by (rule starts_create [OF ok]) (simp add: owed_def const_defs)
  have rest: "starts (Some (LeftoverRefund s)) d (create_spot_remainder_refund_transaction u s a f t h d)" for u s a f t h
    unfolding create_spot_remainder_refund_transaction_def
    by (rule starts_once, rule starts_create [OF ok]) (simp add: owed_def const_defs)
  have fee: "starts (Some (PlatformFee s)) d (create_platform_fee_transaction u a f t h (Some s) c d)" for u a f t h s c
    unfolding create_platform_fee_transaction_def by (rule starts_create [OF ok]) (simp add: owed_def const_defs)
  have marked: "register (mark_spot_remainder_settled s d) = register d" "register (d\<lparr>db_now := n\<rparr>) = register d" for s n
    by (rule register_cong, simp add: mark_spot_remainder_settled_def)+
  note paid = st [OF starts_payout [OF ok]] st [OF refund] st [OF rest] st [OF fee] st [OF starts_creation_fee [OF ok]]
  show ?thesis
  proof (intro conjI)
    show "\<forall>u k a f t h i d'. create_claim_transaction u k a f t h d = Inr (i, d') \<longrightarrow>
          register d (ClaimReward k) = Unpaid \<and> register d' = (register d)(ClaimReward k := Underway)"
      by (intro allI impI paid(1))
    show "\<forall>u s a f t h i d'. create_spot_refund_transaction u s a f t h d = Inr (i, d') \<longrightarrow>
          register d (CancelRefund s) = Unpaid \<and> register d' = (register d)(CancelRefund s := Underway)"
      by (intro allI impI paid(2))
    show "\<forall>u s a f t h i d'. create_spot_remainder_refund_transaction u s a f t h d = Inr (i, d') \<longrightarrow>
          register d (LeftoverRefund s) = Unpaid \<and> register d' = (register d)(LeftoverRefund s := Underway)"
      by (intro allI impI paid(3))
    show "\<forall>u a f t h s c i d'. create_platform_fee_transaction u a f t h (Some s) c d = Inr (i, d') \<longrightarrow>
          register d (PlatformFee s) = Unpaid \<and> register d' = (register d)(PlatformFee s := Underway)"
      by (intro allI impI paid(4))
    show "\<forall>u s a f t h i d'. create_spot_creation_fee_transaction dev u s a f t h d = Inr (i, d') \<longrightarrow>
          register d (CreationFee s) = Unpaid \<and> register d' = (register d)(CreationFee s := Underway)"
      by (intro allI impI paid(5))
  qed (intro allI impI conf fail modify deposit register_details marked; assumption)+
qed

theorem ledger_refines_register_witness:
  "\<exists>i d1 d2. create_claim_transaction 2 1 25000000 ''D'' ''P'' ''h2'' sample_claims_db = Inr (i, d1)
    \<and> register d1 = (register sample_claims_db)(ClaimReward 1 := Underway)
    \<and> set_transaction_status_to_confirmed i 7 d1 = Inr d2 \<and> register d2 (ClaimReward 1) = Paid"
proof -
  have "gives (create_claim_transaction 2 1 25000000 ''D'' ''P'' ''h2'' sample_claims_db) (\<lambda>(i, d1).
      gives (set_transaction_status_to_confirmed i 7 d1) (\<lambda>d2. register d2 (ClaimReward 1) = Paid))"
    by code_simp
  then obtain i d1 d2 where
    p: "create_claim_transaction 2 1 25000000 ''D'' ''P'' ''h2'' sample_claims_db = Inr (i, d1)"
      "set_transaction_status_to_confirmed i 7 d1 = Inr d2"
    and paid: "register d2 (ClaimReward 1) = Paid" by (auto simp: gives_iff)
  have "register d1 = (register sample_claims_db)(ClaimReward 1 := Underway)"
    using conjunct1 [OF ledger_refines_register [OF trans_run.start sample_claims_db_ok]] p(1) by blast
  then show ?thesis using p paid by blast
qed

end
