(* ===== verification/Reports.thy ===== *)
theory Reports
  imports Transactions
begin

text \<open>
  The REPORT functions and the dashboard counters of \<^verbatim>\<open>db_access.py\<close>. A report
  is filed once about an existing Spot by an existing user and then moderated.
\<close>

definition validate_report_reason :: "int \<Rightarrow> int res" where
  "validate_report_reason reason =
    (if reason \<notin> set REPORT_REASON_VALUES then Inl (ValueError ''report reason is not valid'') else Inr reason)"

definition validate_report_details :: "string option \<Rightarrow> string option res" where
  "validate_report_details details =
    (case clean_optional_text details of None \<Rightarrow> Inr None
     | Some t \<Rightarrow> if REPORT_DETAILS_MAX_CHARS < int (length t)
                 then Inl (ValueError ''report details must be no more than 300 characters'') else Inr (Some t))"

definition create_report :: "int \<Rightarrow> int \<Rightarrow> int \<Rightarrow> string option \<Rightarrow> db \<Rightarrow> (int \<times> db) res" where
  "create_report spot_id user_id reason details d =
    (if get_spot spot_id d = None then Inl (ValueError ''spot does not exist'')
     else if get_user_by_id user_id d = None then Inl (ValueError ''user does not exist'')
     else bindE (validate_report_reason reason) (\<lambda>reason.
       bindE (validate_report_details details) (\<lambda>details.
       let i = next_id (db_report_seq d) (map rp_id (db_reports d));
           r = \<lparr>rp_id = i, rp_spot_id = spot_id, rp_reported_by = user_id, rp_reason = reason,
                rp_details = details, rp_status = REPORT_STATUS_PENDING, rp_moderator_note = None,
                rp_created_at = db_now d, rp_reviewed_at = None\<rparr>
       in if \<not> report_check r then Inl (IntegrityError ''CHECK constraint failed: report'')
          else Inr (i, d\<lparr>db_reports := db_reports d @ [r], db_report_seq := i\<rparr>))))"

text \<open>Trigger \<^verbatim>\<open>trg_report_set_reviewed_at\<close>.\<close>

definition review_stamp :: "int \<Rightarrow> report_row \<Rightarrow> report_row \<Rightarrow> report_row" where
  "review_stamp now old new =
    (if rp_status new \<noteq> REPORT_STATUS_PENDING \<and> rp_status old = REPORT_STATUS_PENDING \<and> rp_reviewed_at new = None
     then new\<lparr>rp_reviewed_at := Some now\<rparr> else new)"

definition modify_report_status :: "int \<Rightarrow> int \<Rightarrow> string option \<Rightarrow> db \<Rightarrow> db res" where
  "modify_report_status report_id status moderator_note d =
    (let P = (\<lambda>r. rp_id r = report_id);
         f = (\<lambda>r. review_stamp (db_now d) r
                (r\<lparr>rp_status := status, rp_moderator_note := clean_optional_text moderator_note\<rparr>));
         rows = update_where P f (db_reports d)
     in if \<not> list_all report_check rows then Inl (IntegrityError ''CHECK constraint failed: report'')
        else bindE (require_one (count_where P (db_reports d)) ''Failed to update report status'')
               (\<lambda>_. Inr (d\<lparr>db_reports := rows\<rparr>)))"

definition approve_report :: "int \<Rightarrow> string option \<Rightarrow> db \<Rightarrow> db res" where
  "approve_report report_id moderator_note = modify_report_status report_id REPORT_STATUS_APPROVED moderator_note"

definition dismiss_report :: "int \<Rightarrow> string option \<Rightarrow> db \<Rightarrow> db res" where
  "dismiss_report report_id moderator_note = modify_report_status report_id REPORT_STATUS_DISMISSED moderator_note"

text \<open>The detail view joins the reporter, the Spot and its owner.\<close>

definition view_report_detail :: "db \<Rightarrow> report_row list" where
  "view_report_detail d = filter (\<lambda>r. has_user d (rp_reported_by r)
     \<and> (case get_spot (rp_spot_id r) d of None \<Rightarrow> False | Some s \<Rightarrow> has_user d (sp_created_by s))) (db_reports d)"

definition get_report :: "int \<Rightarrow> db \<Rightarrow> report_row option" where
  "get_report report_id d = find (\<lambda>r. rp_id r = report_id) (view_report_detail d)"

definition get_reports_by_status :: "int \<Rightarrow> int \<Rightarrow> int \<Rightarrow> db \<Rightarrow> report_row list" where
  "get_reports_by_status status limit offset d = page limit offset
     (sort_key rp_created_at (sort_key rp_id (filter (\<lambda>r. rp_status r = status) (view_report_detail d))))"

definition newest_reports :: "report_row list \<Rightarrow> report_row list" where
  "newest_reports rs = sort_key (\<lambda>r. - rp_created_at r) (sort_key (\<lambda>r. - rp_id r) rs)"

definition get_reports_for_spot :: "int \<Rightarrow> int \<Rightarrow> int \<Rightarrow> db \<Rightarrow> report_row list" where
  "get_reports_for_spot spot_id limit offset d = page limit offset
     (newest_reports (filter (\<lambda>r. rp_spot_id r = spot_id) (view_report_detail d)))"

definition get_reports_by_user :: "int \<Rightarrow> int \<Rightarrow> int \<Rightarrow> db \<Rightarrow> report_row list" where
  "get_reports_by_user user_id limit offset d = page limit offset
     (newest_reports (filter (\<lambda>r. rp_reported_by r = user_id) (view_report_detail d)))"

definition has_user_reported_spot :: "int \<Rightarrow> int \<Rightarrow> db \<Rightarrow> bool" where
  "has_user_reported_spot spot_id user_id d \<longleftrightarrow>
     list_ex (\<lambda>r. rp_spot_id r = spot_id \<and> rp_reported_by r = user_id) (db_reports d)"

definition count_reports_by_status :: "int \<Rightarrow> db \<Rightarrow> int" where
  "count_reports_by_status status d = count_where (\<lambda>r. rp_status r = status) (db_reports d)"

section \<open>Dashboards\<close>

text \<open>Spots, published Spots, claims and successful claims of a user.\<close>

definition get_user_dashboard_counts :: "int \<Rightarrow> db \<Rightarrow> int \<times> int \<times> int \<times> int" where
  "get_user_dashboard_counts user_id d =
    (count_where (\<lambda>s. sp_created_by s = user_id) (db_spots d),
     count_where (\<lambda>s. sp_created_by s = user_id \<and> sp_status s = SPOT_STATUS_PUBLISHED) (db_spots d),
     count_where (\<lambda>c. cl_recipient c = user_id) (db_claims d),
     count_where (\<lambda>c. cl_recipient c = user_id \<and> cl_status c = CLAIM_STATUS_SUCCESS) (db_claims d))"

record platform_counts =
  pc_users :: int
  pc_spots :: int
  pc_published_spots :: int
  pc_claims :: int
  pc_successful_claims :: int
  pc_pending_transactions :: int
  pc_pending_reports :: int

definition get_platform_dashboard_counts :: "db \<Rightarrow> platform_counts" where
  "get_platform_dashboard_counts d =
     \<lparr>pc_users = count_where (\<lambda>_. True) (db_users d),
      pc_spots = count_where (\<lambda>_. True) (db_spots d),
      pc_published_spots = count_where (\<lambda>s. sp_status s = SPOT_STATUS_PUBLISHED) (db_spots d),
      pc_claims = count_where (\<lambda>_. True) (db_claims d),
      pc_successful_claims = count_where (\<lambda>c. cl_status c = CLAIM_STATUS_SUCCESS) (db_claims d),
      pc_pending_transactions = count_where (\<lambda>t. tr_status t = TRANS_STATUS_PENDING) (db_trans d),
      pc_pending_reports = count_where (\<lambda>r. rp_status r = REPORT_STATUS_PENDING) (db_reports d)\<rparr>"

end
