(* ===== verification/Json.thy ===== *)
theory Json
  imports Prelude "HOL-Library.Multiset"
begin

text \<open>
  The JSON values that RPC and helper responses are parsed into, the Python
  conversions the code applies to them, and the breadth-first walk
  \<^verbatim>\<open>_walk_json\<close> of \<^verbatim>\<open>trans_updater.py\<close>, with its termination, its order
  and its agreement with a recursive enumeration.
\<close>

section \<open>Values\<close>

text \<open>
  A parsed document: an object keeps its keys in order, each once. A finite float
  carries its value and the text \<^verbatim>\<open>repr\<close> gives it; infinities and NaN, which
  \<^verbatim>\<open>json.loads\<close> also accepts, are outside the model.
\<close>

datatype json =
    JNull
  | JBool bool
  | JInt int
  | JFloat rat string
  | JStr string
  | JArr "json list"
  | JObj "(string \<times> json) list"

definition get_key :: "string \<Rightarrow> json \<Rightarrow> json option" where
  "get_key k v = (case v of JObj kvs \<Rightarrow> map_of kvs k | _ \<Rightarrow> None)"

text \<open>\<^verbatim>\<open>d.get(key)\<close> of an object: an absent key reads as \<^verbatim>\<open>None\<close>.\<close>

definition obj_get :: "string \<Rightarrow> json \<Rightarrow> json" where
  "obj_get k v = (case get_key k v of None \<Rightarrow> JNull | Some w \<Rightarrow> w)"

definition is_container :: "json \<Rightarrow> bool" where
  "is_container v \<longleftrightarrow> (case v of JArr _ \<Rightarrow> True | JObj _ \<Rightarrow> True | _ \<Rightarrow> False)"

definition is_object :: "json \<Rightarrow> bool" where
  "is_object v \<longleftrightarrow> (case v of JObj _ \<Rightarrow> True | _ \<Rightarrow> False)"

definition truthy :: "json \<Rightarrow> bool" where
  "truthy v \<longleftrightarrow> (case v of JNull \<Rightarrow> False | JBool b \<Rightarrow> b | JInt i \<Rightarrow> i \<noteq> 0 | JFloat x _ \<Rightarrow> x \<noteq> 0
     | JStr s \<Rightarrow> s \<noteq> [] | JArr vs \<Rightarrow> vs \<noteq> [] | JObj kvs \<Rightarrow> kvs \<noteq> [])"

section \<open>Numbers as text\<close>

fun nat_text :: "nat \<Rightarrow> string" where
  "nat_text n = (if n < 10 then [char_of (48 + n)] else nat_text (n div 10) @ [char_of (48 + n mod 10)])"

declare nat_text.simps [simp del]

definition int_text :: "int \<Rightarrow> string" where
  "int_text i = (if i < 0 then CHR ''-'' # nat_text (nat (- i)) else nat_text (nat i))"

definition digit_in :: "int \<Rightarrow> char \<Rightarrow> int option" where
  "digit_in base c =
    (let n = int (code_of c);
         v = (if py_isdigit c then n - 48 else if py_isupper c then n - 55
              else if py_islower c then n - 87 else base)
     in if v < base then Some v else None)"

text \<open>The digits after the first; one underscore may stand between two of them.\<close>

fun more_digits :: "int \<Rightarrow> int \<Rightarrow> string \<Rightarrow> int option" where
  "more_digits base acc [] = Some acc"
| "more_digits base acc (c # cs) =
    (case digit_in base c of
       Some v \<Rightarrow> more_digits base (acc * base + v) cs
     | None \<Rightarrow> (case cs of
         c' # cs' \<Rightarrow> (if c = CHR ''_'' then
             (case digit_in base c' of Some v \<Rightarrow> more_digits base (acc * base + v) cs' | None \<Rightarrow> None)
             else None)
       | [] \<Rightarrow> None))"

definition read_digits :: "int \<Rightarrow> string \<Rightarrow> int option" where
  "read_digits base s = (case s of [] \<Rightarrow> None
     | c # cs \<Rightarrow> (case digit_in base c of None \<Rightarrow> None | Some v \<Rightarrow> more_digits base v cs))"

definition split_sign :: "string \<Rightarrow> int \<times> string" where
  "split_sign s = (case s of [] \<Rightarrow> (1, s)
     | c # cs \<Rightarrow> if c = CHR ''-'' then (- 1, cs) else if c = CHR ''+'' then (1, cs) else (1, s))"

text \<open>\<^verbatim>\<open>int(s)\<close>.\<close>

definition py_int :: "string \<Rightarrow> int option" where
  "py_int s = (let (sign, t) = split_sign (py_strip s) in map_option (\<lambda>v. sign * v) (read_digits 10 t))"

definition base_prefix :: "string \<Rightarrow> (int \<times> string) option" where
  "base_prefix s = (case s of
     z # c # t \<Rightarrow>
       (let body = (case t of u # t' \<Rightarrow> if u = CHR ''_'' then t' else t | [] \<Rightarrow> t) in
        if z \<noteq> CHR ''0'' then None
        else if lower_char c = CHR ''x'' then Some (16, body)
        else if lower_char c = CHR ''o'' then Some (8, body)
        else if lower_char c = CHR ''b'' then Some (2, body)
        else None)
   | _ \<Rightarrow> None)"

text \<open>\<^verbatim>\<open>int(s, 0)\<close>: a prefix selects the base; a decimal numeral has no leading zero unless it is zero.\<close>

definition py_int_base0 :: "string \<Rightarrow> int option" where
  "py_int_base0 s =
    (let (sign, t) = split_sign (py_strip s) in
     map_option (\<lambda>v. sign * v)
       (case base_prefix t of
          Some (base, body) \<Rightarrow> read_digits base body
        | None \<Rightarrow> (case read_digits 10 t of None \<Rightarrow> None
            | Some v \<Rightarrow> if starts_with ''0'' t \<and> v \<noteq> 0 then None else Some v)))"

definition truncate_rat :: "rat \<Rightarrow> int" where
  "truncate_rat x = (if 0 \<le> x then \<lfloor>x\<rfloor> else \<lceil>x\<rceil>)"

text \<open>\<^verbatim>\<open>int(value)\<close> of any parsed value; \<open>None\<close> is the \<^verbatim>\<open>TypeError\<close> or \<^verbatim>\<open>ValueError\<close>.\<close>

definition int_of_json :: "json \<Rightarrow> int option" where
  "int_of_json v = (case v of JBool b \<Rightarrow> Some (if b then 1 else 0) | JInt i \<Rightarrow> Some i
     | JFloat x _ \<Rightarrow> Some (truncate_rat x) | JStr s \<Rightarrow> py_int s | _ \<Rightarrow> None)"

section \<open>Values as text\<close>

definition hex_char :: "nat \<Rightarrow> char" where
  "hex_char n = (if n < 10 then char_of (48 + n) else char_of (87 + n))"

definition repr_char :: "char \<Rightarrow> char \<Rightarrow> string" where
  "repr_char quote c =
    (let n = code_of c in
     if c = quote \<or> n = 92 then [char_of (92::nat), c]
     else if n = 10 then [char_of (92::nat), CHR ''n'']
     else if n = 13 then [char_of (92::nat), CHR ''r'']
     else if n = 9 then [char_of (92::nat), CHR ''t'']
     else if n < 32 \<or> 127 \<le> n then [char_of (92::nat), CHR ''x'', hex_char (n div 16), hex_char (n mod 16)]
     else [c])"

definition repr_string :: "string \<Rightarrow> string" where
  "repr_string s =
    (let single = char_of (39::nat); double = char_of (34::nat);
         quote = (if single \<in> set s \<and> double \<notin> set s then double else single)
     in quote # concat (map (repr_char quote) s) @ [quote])"

definition comma_join :: "string list \<Rightarrow> string" where
  "comma_join ts = (case ts of [] \<Rightarrow> [] | t # rest \<Rightarrow> t @ concat (map (\<lambda>u. '', '' @ u) rest))"

fun json_repr :: "json \<Rightarrow> string" where
  "json_repr JNull = ''None''"
| "json_repr (JBool b) = (if b then ''True'' else ''False'')"
| "json_repr (JInt i) = int_text i"
| "json_repr (JFloat _ t) = t"
| "json_repr (JStr s) = repr_string s"
| "json_repr (JArr vs) = ''['' @ comma_join (map json_repr vs) @ '']''"
| "json_repr (JObj kvs) = ''{'' @ comma_join (map (\<lambda>(k, v). repr_string k @ '': '' @ json_repr v) kvs) @ ''}''"

text \<open>\<^verbatim>\<open>str(value)\<close> and \<^verbatim>\<open>str(value or "")\<close>.\<close>

definition json_str :: "json \<Rightarrow> string" where
  "json_str v = (case v of JStr s \<Rightarrow> s | _ \<Rightarrow> json_repr v)"

definition str_or_empty :: "json \<Rightarrow> string" where
  "str_or_empty v = (if truthy v then json_str v else [])"

section \<open>The breadth-first walk\<close>

definition children :: "string list \<Rightarrow> json \<Rightarrow> (string list \<times> json) list" where
  "children path v = (case v of
     JObj kvs \<Rightarrow> map (\<lambda>(k, c). (path @ [k], c)) kvs
   | JArr vs \<Rightarrow> map (\<lambda>(i, c). (path @ [nat_text i], c)) (zip [0..<length vs] vs)
   | _ \<Rightarrow> [])"

text \<open>The number of values in a document, the measure of the walk.\<close>

fun json_nodes :: "json \<Rightarrow> nat" where
  "json_nodes (JArr vs) = Suc (sum_list (map json_nodes vs))"
| "json_nodes (JObj kvs) = Suc (sum_list (map (\<lambda>(_, v). json_nodes v) kvs))"
| "json_nodes _ = 1"

definition queue_nodes :: "(string list \<times> json) list \<Rightarrow> nat" where
  "queue_nodes q = sum_list (map (\<lambda>(_, v). json_nodes v) q)"

lemma queue_nodes_simps [simp]:
  "queue_nodes [] = 0" "queue_nodes (x # q) = json_nodes (snd x) + queue_nodes q"
  "queue_nodes (q @ q') = queue_nodes q + queue_nodes q'"
  by (auto simp: queue_nodes_def split: prod.split)

lemma map_snd_zip_same: "length xs = length ys \<Longrightarrow> map (\<lambda>x. f (snd x)) (zip xs ys) = map f ys"
  by (induction xs ys rule: list_induct2) auto

lemma children_nodes: "json_nodes v = Suc (queue_nodes (children p v))"
  by (cases v)
    (simp_all add: children_def queue_nodes_def case_prod_unfold comp_def map_snd_zip_same)

function walk_queue :: "(string list \<times> json) list \<Rightarrow> (string list \<times> json) list" where
  "walk_queue [] = []"
| "walk_queue ((path, item) # queue) = (path, item) # walk_queue (queue @ children path item)"
  by pat_completeness auto
termination
proof (relation "measure queue_nodes")
  show "(queue @ children path item, (path, item) # queue) \<in> measure queue_nodes" for queue path item
    using children_nodes [of item path] by simp
qed simp

definition walk_json :: "json \<Rightarrow> (string list \<times> json) list" where
  "walk_json v = walk_queue [([], v)]"

section \<open>The walk visits every value once, shallow values first\<close>

lemma child_nodes_less: "(q, c) \<in> set (children p v) \<Longrightarrow> json_nodes c < json_nodes v"
proof -
  assume "(q, c) \<in> set (children p v)"
  then have "json_nodes c \<le> queue_nodes (children p v)"
    unfolding queue_nodes_def by (intro member_le_sum_list) (auto simp: image_iff intro!: bexI [of _ "(q, c)"])
  then show ?thesis using children_nodes [of v p] by simp
qed

text \<open>The reference: a recursive enumeration, each value before its parts.\<close>

function all_nodes :: "string list \<Rightarrow> json \<Rightarrow> (string list \<times> json) list" where
  "all_nodes p v = (p, v) # concat (map (\<lambda>(q, c). all_nodes q c) (children p v))"
  by pat_completeness auto
termination
  by (relation "measure (\<lambda>(_, v). json_nodes v)") (auto dest: child_nodes_less)

declare all_nodes.simps [simp del]

lemma walk_queue_mset: "mset (walk_queue q) = mset (concat (map (\<lambda>(p, v). all_nodes p v) q))"
proof (induction q rule: walk_queue.induct)
  case (2 path item queue)
  have "mset (all_nodes path item)
      = add_mset (path, item) (mset (concat (map (\<lambda>(p, v). all_nodes p v) (children path item))))"
    by (simp add: all_nodes.simps [of path item])
  then show ?case using 2 by simp
qed simp

lemma children_depth: "x \<in> set (children p v) \<Longrightarrow> length (fst x) = Suc (length p)"
  by (cases v) (auto simp: children_def)

lemma sorted_append_const:
  "sorted ks \<Longrightarrow> \<forall>k\<in>set ks. k \<le> m \<Longrightarrow> \<forall>k\<in>set ls. k = m \<Longrightarrow> sorted (ks @ ls)" for m :: nat
  by (simp add: sorted_append, induction ls) auto

lemma walk_queue_sorted:
  assumes "sorted (map (length \<circ> fst) q)" and "\<forall>x\<in>set q. d \<le> length (fst x) \<and> length (fst x) \<le> Suc d"
  shows "sorted (map (length \<circ> fst) (walk_queue q)) \<and> (\<forall>x\<in>set (walk_queue q). d \<le> length (fst x))"
  using assms
proof (induction q arbitrary: d rule: walk_queue.induct)
  case (2 path item queue)
  let ?e = "length path"
  have ls: "\<forall>x\<in>set queue. ?e \<le> length (fst x)" using 2(2) by simp
  have le: "\<forall>x\<in>set queue. length (fst x) \<le> Suc ?e"
    using 2(3) by fastforce
  have "sorted (map (length \<circ> fst) (queue @ children path item))"
    unfolding map_append
    by (rule sorted_append_const [of _ "Suc ?e"]) (use 2(2) le children_depth [of _ path item] in \<open>auto simp: comp_def\<close>)
  moreover have "\<forall>x\<in>set (queue @ children path item). ?e \<le> length (fst x) \<and> length (fst x) \<le> Suc ?e"
    using ls le children_depth [of _ path item] by fastforce
  ultimately have "sorted (map (length \<circ> fst) (walk_queue (queue @ children path item)))
      \<and> (\<forall>x\<in>set (walk_queue (queue @ children path item)). ?e \<le> length (fst x))"
    by (rule "2.IH")
  moreover have "d \<le> ?e" using 2(3) by simp
  ultimately show ?case by (auto simp: comp_def intro: order_trans)
qed simp

text \<open>
  C39: The breadth-first walk of an RPC document ends on every document; it yields
  each nested value with its key path exactly as often as the recursive
  enumeration does, and never a deeper value before a shallower one.
\<close>

theorem walk_json_complete:
  "mset (walk_json v) = mset (all_nodes [] v) \<and> length (walk_json v) = json_nodes v
   \<and> sorted (map (\<lambda>x. length (fst x)) (walk_json v))"
proof -
  have len: "length (walk_queue q) = queue_nodes q" for q
  proof (induction q rule: walk_queue.induct)
    case (2 path item queue)
    then show ?case using children_nodes [of item path] by simp
  qed simp
  have "sorted (map (length \<circ> fst) (walk_json v))"
    using walk_queue_sorted [of "[([], v)]" 0] by (simp add: walk_json_def)
  then have "sorted (map (\<lambda>x. length (fst x)) (walk_json v))" by (simp add: comp_def)
  moreover have "mset (walk_json v) = mset (all_nodes [] v)"
    using walk_queue_mset [of "[([], v)]"] by (simp add: walk_json_def del: walk_queue.simps)
  moreover have "length (walk_json v) = json_nodes v"
    using len [of "[([], v)]"] by (simp add: walk_json_def del: walk_queue.simps)
  ultimately show ?thesis by blast
qed

end
