(* ===== verification/ChainVerify.thy ===== *)
theory ChainVerify
  imports Json Transactions
begin

text \<open>
  The chain-facing reads of \<^verbatim>\<open>trans_updater.py\<close>: JSON-RPC calls, what the code
  extracts from their results, the comparison of a confirmed chain transaction
  with the ledger row, the outcome of a pending row, and the resolution of a
  Nimiq Pay account to a payable address. The transport is the argument
  \<open>http\<close>: a method and its parameters to what comes back over the wire.
\<close>

section \<open>Settings and transport\<close>

record settings =
  allow_placeholders :: bool
  allow_dev_sends :: bool
  public_deployment :: bool

text \<open>
  A timeout, a refused connection or an HTTP error (\<^verbatim>\<open>OSError\<close> and its
  subclasses), a body that is not JSON (\<^verbatim>\<open>JSONDecodeError\<close>, a \<^verbatim>\<open>ValueError\<close>), or
  a parsed body.
\<close>

datatype reply = Unreachable | NotJson | Body json

type_synonym transport = "string \<Rightarrow> json list \<Rightarrow> reply"

definition decode_error :: py_error where
  "decode_error = ValueError ''JSONDecodeError''"

definition contains :: "string \<Rightarrow> string \<Rightarrow> bool" where
  "contains p s \<longleftrightarrow> list_ex (\<lambda>i. starts_with p (drop i s)) [0..<Suc (length s)]"

definition is_not_found_error :: "json \<Rightarrow> bool" where
  "is_not_found_error error \<longleftrightarrow> is_object error
     \<and> (let message = py_lower (str_or_empty (obj_get ''message'' error)) in
        list_ex (\<lambda>phrase. contains phrase message)
          [''not found'', ''unknown transaction'', ''transaction not found'', ''could not find''])"

definition json_rpc_post :: "transport \<Rightarrow> string \<Rightarrow> json list \<Rightarrow> json res" where
  "json_rpc_post http method params = (case http method params of
     Unreachable \<Rightarrow> Inl (OSError ''RPC unreachable'')
   | NotJson \<Rightarrow> Inl decode_error
   | Body data \<Rightarrow>
       if \<not> is_object data then Inl (RuntimeError ''Nimiq RPC returned a non-object JSON response'')
       else if obj_get ''error'' data \<noteq> JNull
       then (if is_not_found_error (obj_get ''error'' data) then Inr JNull
             else Inl (RuntimeError ''Nimiq RPC error''))
       else Inr (obj_get ''result'' data))"

text \<open>\<^verbatim>\<open>except (TimeoutError, URLError, OSError, RuntimeError)\<close>.\<close>

definition is_rpc_failure :: "py_error \<Rightarrow> bool" where
  "is_rpc_failure e \<longleftrightarrow> (case e of OSError _ \<Rightarrow> True | RuntimeError _ \<Rightarrow> True | _ \<Rightarrow> False)"

section \<open>What the code extracts from a result\<close>

fun first_some :: "('a \<Rightarrow> 'b option) \<Rightarrow> 'a list \<Rightarrow> 'b option" where
  "first_some f [] = None"
| "first_some f (x # xs) = (case f x of None \<Rightarrow> first_some f xs | Some y \<Rightarrow> Some y)"

text \<open>
  The first scalar, in walk order, that stands under one of the keys (compared
  in lower case) and that \<open>f\<close> accepts.
\<close>

definition first_scalar :: "string list \<Rightarrow> (json \<Rightarrow> 'b option) \<Rightarrow> json \<Rightarrow> 'b option" where
  "first_scalar keys f value = first_some (\<lambda>(path, item).
     if path = [] \<or> is_container item then None
     else if py_lower (last path) \<notin> set (map py_lower keys) then None
     else f item) (walk_json value)"

definition normalise_address_for_compare :: "settings \<Rightarrow> string \<Rightarrow> string option" where
  "normalise_address_for_compare c value =
    (let raw = py_strip value in
     if raw = [] then None
     else (case normalise_nimiq_address (allow_placeholders c \<or> allow_dev_sends c) raw of
             Inl _ \<Rightarrow> None | Inr a \<Rightarrow> Some a))"

definition first_address_for_keys :: "settings \<Rightarrow> json \<Rightarrow> string list \<Rightarrow> string option" where
  "first_address_for_keys c value keys =
     first_scalar keys (\<lambda>item. normalise_address_for_compare c (str_or_empty item)) value"

definition first_chain_scalar_for_keys :: "json \<Rightarrow> string list \<Rightarrow> json" where
  "first_chain_scalar_for_keys value keys =
     (case first_scalar keys Some value of None \<Rightarrow> JNull | Some v \<Rightarrow> v)"

text \<open>
  Candidates with their sort key: \<^verbatim>\<open>value\<close> before \<^verbatim>\<open>amount\<close>, then the shallower one;
  Python's sort is stable.
\<close>

definition int_candidates :: "json \<Rightarrow> string list \<Rightarrow> ((nat \<times> nat) \<times> int) list" where
  "int_candidates value keys = concat (map (\<lambda>(path, item).
     if path = [] \<or> is_container item then []
     else let key = py_lower (last path) in
       if key \<notin> set (map py_lower keys) then []
       else (case (case item of JStr s \<Rightarrow> py_int_base0 s | _ \<Rightarrow> int_of_json item) of
           None \<Rightarrow> []
         | Some amount \<Rightarrow> if 0 \<le> amount
             then [((if key = ''value'' then 0 else 1, length path), amount)] else []))
     (walk_json value))"

definition first_positive_int_for_keys :: "json \<Rightarrow> string list \<Rightarrow> int option" where
  "first_positive_int_for_keys value keys =
    (case sort_key (\<lambda>x. fst (fst x)) (sort_key (\<lambda>x. snd (fst x)) (int_candidates value keys)) of
       [] \<Rightarrow> None | x # _ \<Rightarrow> Some (snd x))"

definition extract_chain_from_address :: "settings \<Rightarrow> json \<Rightarrow> string option" where
  "extract_chain_from_address c raw = first_address_for_keys c raw
     [''sender'', ''senderAddress'', ''sender_address'', ''from'', ''fromAddress'', ''from_address'']"

definition extract_chain_to_address :: "settings \<Rightarrow> json \<Rightarrow> string option" where
  "extract_chain_to_address c raw = first_address_for_keys c raw
     [''recipient'', ''recipientAddress'', ''recipient_address'', ''to'', ''toAddress'', ''to_address'']"

definition extract_chain_amount :: "json \<Rightarrow> int option" where
  "extract_chain_amount raw = first_positive_int_for_keys raw [''value'', ''amount'']"

definition extract_block_number :: "json \<Rightarrow> int option" where
  "extract_block_number value =
    (if \<not> is_object value then None
     else first_some (\<lambda>k. let candidate = obj_get k value in
            if candidate = JNull then None else int_of_json candidate)
       [''blockNumber'', ''block_number'', ''blockHeight'', ''block_height'', ''block''])"

definition unwrap_rpc_result :: "json \<Rightarrow> json \<times> json" where
  "unwrap_rpc_result result = (case (get_key ''data'' result, get_key ''metadata'' result) of
     (Some data, Some metadata) \<Rightarrow> (data, metadata) | _ \<Rightarrow> (result, JNull))"

definition execution_result_is_failure :: "json \<Rightarrow> bool" where
  "execution_result_is_failure value = list_ex (\<lambda>(path, item). path \<noteq> []
     \<and> py_lower (filter (\<lambda>ch. ch \<noteq> CHR ''_'') (last path)) = ''executionresult''
     \<and> item = JBool False) (walk_json value)"

definition extract_rpc_network_id :: "json \<Rightarrow> int res" where
  "extract_rpc_network_id result =
    (let data = fst (unwrap_rpc_result result);
         number = (\<lambda>v. case int_of_json v of Some i \<Rightarrow> Inr i
           | None \<Rightarrow> Inl (RuntimeError ''Nimiq RPC getNetworkId returned an invalid value''));
         absent = Inl (RuntimeError ''Nimiq RPC getNetworkId did not expose a network ID'')
     in (case data of
           JBool _ \<Rightarrow> Inl (RuntimeError ''Nimiq RPC getNetworkId returned a boolean'')
         | JInt _ \<Rightarrow> number data
         | JStr _ \<Rightarrow> number data
         | JObj _ \<Rightarrow> (case first_some (\<lambda>k. get_key k data) [''networkId'', ''network_id'', ''id''] of
                         Some v \<Rightarrow> number v | None \<Rightarrow> absent)
         | _ \<Rightarrow> absent))"

definition get_configured_rpc_network_id :: "transport \<Rightarrow> int res" where
  "get_configured_rpc_network_id http =
     bindE (json_rpc_post http ''getNetworkId'' []) extract_rpc_network_id"

definition verify_configured_rpc_network :: "transport \<Rightarrow> int \<Rightarrow> int res" where
  "verify_configured_rpc_network http expected =
     bindE (get_configured_rpc_network_id http) (\<lambda>actual.
     if actual \<noteq> expected then Inl (RuntimeError ''Configured Nimiq RPC serves network ID, expected'')
     else Inr actual)"

definition get_chain_head_height :: "transport \<Rightarrow> int res" where
  "get_chain_head_height http =
     bindE (json_rpc_post http ''getBlockNumber'' []) (\<lambda>result.
     let data = fst (unwrap_rpc_result result);
         exposed = (\<lambda>h. case h of
             Some n \<Rightarrow> if n < 0 then Inl (RuntimeError ''Nimiq RPC getBlockNumber did not expose a block height'')
                       else Inr n
           | None \<Rightarrow> Inl (RuntimeError ''Nimiq RPC getBlockNumber did not expose a block height''));
         number = (\<lambda>v. case int_of_json v of
             None \<Rightarrow> Inl (RuntimeError ''Nimiq RPC returned an invalid block height'')
           | Some n \<Rightarrow> exposed (Some n))
     in (case data of
           JBool _ \<Rightarrow> Inl (RuntimeError ''Nimiq RPC getBlockNumber returned a boolean'')
         | JInt _ \<Rightarrow> number data
         | JStr _ \<Rightarrow> number data
         | _ \<Rightarrow> exposed (extract_block_number data)))"

section \<open>Hashes and address histories\<close>

definition normalise_chain_hash :: "string \<Rightarrow> string" where
  "normalise_chain_hash value = py_lower (py_strip value)"

definition extract_chain_hash :: "json \<Rightarrow> string option" where
  "extract_chain_hash raw =
     first_scalar [''hash'', ''tx_hash'', ''txhash'', ''transactionhash'', ''transaction_hash'']
       (\<lambda>item. let candidate = py_strip (str_or_empty item) in
          if candidate = [] then None else Some candidate) raw"

definition transaction_matches_hash :: "json \<Rightarrow> string \<Rightarrow> bool" where
  "transaction_matches_hash raw tx_hash = (case extract_chain_hash raw of
     None \<Rightarrow> False | Some h \<Rightarrow> normalise_chain_hash h = normalise_chain_hash tx_hash)"

definition candidate_children :: "json \<Rightarrow> json list" where
  "candidate_children item = filter is_container
     (map (\<lambda>k. obj_get k item) [''transactions'', ''items'', ''data'', ''results'', ''result''])"

lemma picked_nodes:
  "distinct ks \<Longrightarrow> sum_list (map (\<lambda>k. case map_of kvs k of None \<Rightarrow> 0 | Some v \<Rightarrow> json_nodes v) ks)
     \<le> sum_list (map (\<lambda>(_, v). json_nodes v) kvs)"
proof (induction kvs arbitrary: ks)
  case (Cons kv kvs)
  obtain k v where kv: "kv = (k, v)" by (cases kv)
  let ?g = "\<lambda>kvs k. case map_of kvs k of None \<Rightarrow> 0 | Some v \<Rightarrow> json_nodes v"
  have split: "distinct ls \<Longrightarrow> sum_list (map (?g ((k, v) # kvs)) ls)
      \<le> json_nodes v + sum_list (map (?g kvs) (filter (\<lambda>l. l \<noteq> k) ls))" for ls
  proof (induction ls)
    case (Cons l ls)
    have "k \<notin> set ls \<Longrightarrow> map (?g ((k, v) # kvs)) ls = map (?g kvs) (filter (\<lambda>l. l \<noteq> k) ls)"
      by (induction ls) auto
    then show ?case using Cons by (cases "l = k") auto
  qed simp
  show ?case
    using split [OF Cons.prems] Cons.IH [of "filter (\<lambda>l. l \<noteq> k) ks"] Cons.prems
    by (simp only: kv) (simp add: distinct_filter)
qed simp

lemma candidate_children_nodes: "sum_list (map json_nodes (candidate_children item)) < json_nodes item"
proof (cases item)
  case (JObj kvs)
  let ?ks = "[''transactions'', ''items'', ''data'', ''results'', ''result'']"
  have "sum_list (map json_nodes (filter is_container (map (\<lambda>k. obj_get k item) ks)))
      \<le> sum_list (map (\<lambda>k. case map_of kvs k of None \<Rightarrow> 0 | Some v \<Rightarrow> json_nodes v) ks)" for ks
    by (induction ks) (auto simp: obj_get_def get_key_def JObj is_container_def split: option.splits)
  also have "sum_list (map (\<lambda>k. case map_of kvs k of None \<Rightarrow> 0 | Some v \<Rightarrow> json_nodes v) ?ks)
      \<le> sum_list (map (\<lambda>(_, v). json_nodes v) kvs)"
    by (rule picked_nodes) simp
  finally show ?thesis by (simp only: candidate_children_def) (simp add: JObj)
qed (simp_all add: candidate_children_def obj_get_def get_key_def is_container_def)

function candidate_queue :: "json list \<Rightarrow> json list" where
  "candidate_queue [] = []"
| "candidate_queue (item # queue) = (case item of
     JArr vs \<Rightarrow> candidate_queue (queue @ vs)
   | JObj kvs \<Rightarrow>
       if extract_chain_hash item \<noteq> None then item # candidate_queue queue
       else candidate_queue (queue @ candidate_children item)
   | _ \<Rightarrow> candidate_queue queue)"
  by pat_completeness auto
termination
proof (relation "measure (\<lambda>q. sum_list (map json_nodes q))")
  show "(queue @ candidate_children item, item # queue) \<in> measure (\<lambda>q. sum_list (map json_nodes q))"
    for item and queue :: "json list" and x7 :: "(string \<times> json) list"
    using candidate_children_nodes [of item] by simp
qed auto

definition iter_candidate_transactions :: "json \<Rightarrow> json list" where
  "iter_candidate_transactions result = candidate_queue [fst (unwrap_rpc_result result)]"

definition find_transaction_by_hash :: "json \<Rightarrow> string \<Rightarrow> json option" where
  "find_transaction_by_hash result tx_hash =
     find (\<lambda>tx. transaction_matches_hash tx tx_hash) (iter_candidate_transactions result)"

definition is_hex :: "char \<Rightarrow> bool" where
  "is_hex ch \<longleftrightarrow> digit_in 16 ch \<noteq> None"

definition is_transaction_hash :: "string \<Rightarrow> bool" where
  "is_transaction_hash s \<longleftrightarrow> length s = 64 \<and> list_all is_hex s"

definition NIMIQ_ADDRESS_TX_LOOKUP_LIMIT :: int where
  [const_defs]: "NIMIQ_ADDRESS_TX_LOOKUP_LIMIT = 500"

definition get_chain_transactions_by_address ::
  "transport \<Rightarrow> string \<Rightarrow> int \<Rightarrow> string option \<Rightarrow> json res" where
  "get_chain_transactions_by_address http address max_transactions start_at =
    (let clean_start_at = py_strip (case start_at of None \<Rightarrow> [] | Some s \<Rightarrow> s) in
     if clean_start_at \<noteq> [] \<and> \<not> is_transaction_hash clean_start_at
     then Inl (ValueError ''start_at must be a 64-character hexadecimal Nimiq transaction hash'')
     else json_rpc_post http ''getTransactionsByAddress''
       [JStr address, JInt max_transactions, if clean_start_at = [] then JNull else JStr clean_start_at])"

section \<open>The status of one hash\<close>

datatype trans_outcome = Pending | Confirmed | Failed | Unknown

text \<open>\<^verbatim>\<open>ChainTransactionStatus\<close>: a missing \<^verbatim>\<open>raw\<close> is \<^verbatim>\<open>null\<close>, a missing reason the empty text.\<close>

record chain_status =
  st_status :: trans_outcome
  st_tx_hash :: string
  st_block :: "int option"
  st_raw :: json
  st_reason :: string

definition or_int :: "int option \<Rightarrow> int option \<Rightarrow> int option" where
  "or_int a b = (case a of None \<Rightarrow> b | Some n \<Rightarrow> if n = 0 then b else a)"

definition or_text :: "string \<Rightarrow> string \<Rightarrow> string" where
  "or_text a b = (if a = [] then b else a)"

definition get_chain_transaction_status :: "transport \<Rightarrow> string \<Rightarrow> chain_status res" where
  "get_chain_transaction_status http hash_arg =
    (let tx_hash = py_strip hash_arg in
     if tx_hash = []
     then Inr \<lparr>st_status = Failed, st_tx_hash = tx_hash, st_block = None, st_raw = JNull,
               st_reason = ''empty tx_hash''\<rparr>
     else (case json_rpc_post http ''getTransactionByHash'' [JStr tx_hash] of
       Inl e \<Rightarrow> if is_rpc_failure e
         then Inr \<lparr>st_status = Unknown, st_tx_hash = tx_hash, st_block = None, st_raw = JNull,
                   st_reason = ''RPC request failed''\<rparr>
         else Inl e
     | Inr result \<Rightarrow>
         if result = JNull
         then Inr \<lparr>st_status = Pending, st_tx_hash = tx_hash, st_block = None, st_raw = JNull,
                   st_reason = ''hash not found yet''\<rparr>
         else let (data, metadata) = unwrap_rpc_result result;
                  block_number = or_int (extract_block_number data) (extract_block_number metadata)
           in if execution_result_is_failure data
              then Inr \<lparr>st_status = Failed, st_tx_hash = tx_hash, st_block = block_number, st_raw = result,
                        st_reason = ''executionResult was false''\<rparr>
              else Inr \<lparr>st_status = Confirmed, st_tx_hash = tx_hash, st_block = block_number,
                        st_raw = result, st_reason = []\<rparr>))"

section \<open>Matching a transaction with its ledger row\<close>

record verified_details =
  vd_ok :: bool
  vd_reason :: string
  vd_from :: "string option"
  vd_to :: "string option"
  vd_amount :: "int option"

definition refuted :: "string \<Rightarrow> verified_details" where
  "refuted reason = \<lparr>vd_ok = False, vd_reason = reason, vd_from = None, vd_to = None, vd_amount = None\<rparr>"

definition SERVER_INITIATED_TRANSACTION_TYPES :: "int list" where
  "SERVER_INITIATED_TRANSACTION_TYPES = [TRANS_TYPE_CANCEL_SPOT, TRANS_TYPE_CLAIM, TRANS_TYPE_PLAT_FEE,
     TRANS_TYPE_CREATION_FEE, TRANS_TYPE_REMAINDER_REFUND]"

definition is_server_initiated_transaction :: "trans_row \<Rightarrow> bool" where
  "is_server_initiated_transaction t \<longleftrightarrow> tr_type t \<in> set SERVER_INITIATED_TRANSACTION_TYPES"

definition verify_direct :: "settings \<Rightarrow> trans_row \<Rightarrow> json \<Rightarrow> verified_details" where
  "verify_direct c t raw =
    (if execution_result_is_failure raw
     then refuted ''confirmed transaction explicitly reported a failed execution result''
     else let expected_from = normalise_address_for_compare c (tr_from_address t);
              expected_to = normalise_address_for_compare c (tr_to_address t)
     in (case (extract_chain_from_address c raw, extract_chain_to_address c raw, extract_chain_amount raw) of
       (None, _, _) \<Rightarrow> refuted ''confirmed transaction did not expose a sender/from address''
     | (Some _, None, _) \<Rightarrow> refuted ''confirmed transaction did not expose a recipient/to address''
     | (Some _, Some _, None) \<Rightarrow> refuted ''confirmed transaction did not expose an amount/value''
     | (Some chain_from, Some chain_to, Some chain_amount) \<Rightarrow>
       if tr_type t \<noteq> TRANS_TYPE_FILL_SPOT \<and> expected_from = None
       then refuted ''stored transaction sender/from address is invalid''
       else if tr_type t \<noteq> TRANS_TYPE_FILL_SPOT \<and> Some chain_from \<noteq> expected_from
       then refuted ''confirmed transaction sender does not match stored sender''
       else if expected_to = None
       then refuted ''stored transaction recipient/to address is invalid''
       else if Some chain_to \<noteq> expected_to
       then refuted ''confirmed transaction recipient does not match expected recipient''
       else if tr_type t = TRANS_TYPE_FILL_SPOT \<and> chain_amount < tr_amount t
       then refuted ''confirmed transaction amount is lower than recorded amount''
       else if tr_type t \<noteq> TRANS_TYPE_FILL_SPOT \<and> chain_amount \<noteq> tr_amount t
       then refuted ''confirmed outgoing transaction amount does not match recorded amount''
       else \<lparr>vd_ok = True, vd_reason = [], vd_from = Some chain_from, vd_to = Some chain_to,
             vd_amount = Some chain_amount\<rparr>))"

definition verification_failed_because_unstructured :: "string \<Rightarrow> bool" where
  "verification_failed_because_unstructured reason \<longleftrightarrow>
    list_ex (\<lambda>phrase. contains phrase (py_lower reason))
      [''did not expose'', ''stored transaction sender/from address is invalid'',
       ''stored transaction recipient/to address is invalid'']"

definition verification_address_for_record :: "settings \<Rightarrow> trans_row \<Rightarrow> string option" where
  "verification_address_for_record c t =
    (if tr_type t = TRANS_TYPE_FILL_SPOT then normalise_address_for_compare c (tr_to_address t)
     else (case normalise_address_for_compare c (tr_from_address t) of
             None \<Rightarrow> normalise_address_for_compare c (tr_to_address t) | Some a \<Rightarrow> Some a))"

definition verify_chain_details_for_record ::
  "transport \<Rightarrow> settings \<Rightarrow> trans_row \<Rightarrow> chain_status \<Rightarrow> verified_details res" where
  "verify_chain_details_for_record http c t st =
    (let direct = verify_direct c t (st_raw st);
         tx_hash = py_strip (or_text (st_tx_hash st) (tr_tx_hash t))
     in if vd_ok direct then Inr direct
        else (case verification_address_for_record c t of
          None \<Rightarrow> Inr direct
        | Some address \<Rightarrow>
          if tx_hash = [] then Inr direct
          else (case get_chain_transactions_by_address http address NIMIQ_ADDRESS_TX_LOOKUP_LIMIT None of
            Inl e \<Rightarrow> if is_rpc_failure e
              then Inr (refuted ''transaction hash was found, but address-list proof failed'') else Inl e
          | Inr history \<Rightarrow> (case find_transaction_by_hash history tx_hash of
              None \<Rightarrow> Inr (refuted ''transaction hash was not found in expected address transaction history'')
            | Some matched \<Rightarrow>
                let fallback = verify_direct c t matched in
                if vd_ok fallback then Inr fallback
                else Inr (refuted (or_text (vd_reason fallback) (or_text (vd_reason direct)
                       ''confirmed transaction did not match stored transaction'')))))))"

section \<open>The outcome of a pending row\<close>

definition LOCAL_TRANSACTION_INTENT_PREFIX :: string where
  "LOCAL_TRANSACTION_INTENT_PREFIX = ''NIMHUNT_INTENT:''"

definition is_local_intent_hash :: "string \<Rightarrow> bool" where
  "is_local_intent_hash tx_hash \<longleftrightarrow> starts_with LOCAL_TRANSACTION_INTENT_PREFIX tx_hash"

definition transaction_age_seconds :: "trans_row \<Rightarrow> int \<Rightarrow> int" where
  "transaction_age_seconds t now = max 0 (now - tr_created_at t)"

definition FAIL_AFTER_SECONDS :: int where
  [const_defs]: "FAIL_AFTER_SECONDS = 90 * 60"

definition USER_DEPOSIT_STALE_AFTER_SECONDS :: int where
  [const_defs]: "USER_DEPOSIT_STALE_AFTER_SECONDS = 30 * 60"

text \<open>The status an entry of an address history gives: its execution result decides.\<close>

definition status_from_history :: "string \<Rightarrow> json \<Rightarrow> chain_status" where
  "status_from_history tx_hash matched =
    (if execution_result_is_failure matched
     then \<lparr>st_status = Failed, st_tx_hash = tx_hash, st_block = extract_block_number matched,
           st_raw = matched, st_reason = ''found in address history with a failed execution result''\<rparr>
     else \<lparr>st_status = Confirmed, st_tx_hash = tx_hash, st_block = extract_block_number matched,
           st_raw = matched, st_reason = ''found through address history''\<rparr>)"

definition recover_server_transaction_from_address_history ::
  "transport \<Rightarrow> settings \<Rightarrow> trans_row \<Rightarrow> chain_status \<Rightarrow> chain_status option res" where
  "recover_server_transaction_from_address_history http c t st =
    (let tx_hash = py_strip (or_text (tr_tx_hash t) (st_tx_hash st)) in
     if \<not> is_server_initiated_transaction t \<or> \<not> is_transaction_hash tx_hash then Inr None
     else (case verification_address_for_record c t of
       None \<Rightarrow> Inr None
     | Some address \<Rightarrow>
       (case get_chain_transactions_by_address http address NIMIQ_ADDRESS_TX_LOOKUP_LIMIT None of
          Inl e \<Rightarrow> if is_rpc_failure e \<or> e = decode_error then Inr None else Inl e
        | Inr history \<Rightarrow>
            Inr (map_option (status_from_history tx_hash) (find_transaction_by_hash history tx_hash)))))"

definition unresolved :: "trans_outcome \<Rightarrow> string \<Rightarrow> json \<Rightarrow> string \<Rightarrow> chain_status" where
  "unresolved status tx_hash raw reason =
     \<lparr>st_status = status, st_tx_hash = tx_hash, st_block = None, st_raw = raw, st_reason = reason\<rparr>"

definition check_stale_deposit ::
  "transport \<Rightarrow> settings \<Rightarrow> trans_row \<Rightarrow> string \<Rightarrow> chain_status res" where
  "check_stale_deposit http c t tx_hash =
    (case verification_address_for_record c t of
       None \<Rightarrow> Inr (unresolved Unknown tx_hash JNull
         ''stale deposit cannot be checked because its recipient address is invalid'')
     | Some address \<Rightarrow>
       (case get_chain_transactions_by_address http address NIMIQ_ADDRESS_TX_LOOKUP_LIMIT None of
          Inl e \<Rightarrow> if is_rpc_failure e
            then Inr (unresolved Unknown tx_hash JNull ''stale deposit address-history check failed'')
            else Inl e
        | Inr history \<Rightarrow>
          (case find_transaction_by_hash history tx_hash of
             Some matched \<Rightarrow> Inr (status_from_history tx_hash matched)
           | None \<Rightarrow> Inr (unresolved Failed tx_hash JNull
               ''deposit hash was not found by hash or recipient history''))))"

definition check_pending_transaction ::
  "transport \<Rightarrow> settings \<Rightarrow> int \<Rightarrow> trans_row \<Rightarrow> chain_status res" where
  "check_pending_transaction http c now t =
    (let tx_hash = py_strip (tr_tx_hash t); age_seconds = transaction_age_seconds t now in
     if is_local_intent_hash tx_hash
     then Inr (unresolved Pending tx_hash JNull
       ''local outbox intent has no chain hash yet; leaving pending to avoid duplicate broadcast'')
     else bindE (get_chain_transaction_status http tx_hash) (\<lambda>st.
     bindE (if st_status st = Pending \<or> st_status st = Unknown
            then recover_server_transaction_from_address_history http c t st else Inr None) (\<lambda>recovered.
     case recovered of
       Some st' \<Rightarrow> Inr st'
     | None \<Rightarrow>
       if st_status st \<noteq> Pending then Inr st
       else if tr_type t = TRANS_TYPE_FILL_SPOT \<and> USER_DEPOSIT_STALE_AFTER_SECONDS \<le> age_seconds
       then check_stale_deposit http c t tx_hash
       else if FAIL_AFTER_SECONDS \<le> age_seconds
       then Inr (unresolved Unknown tx_hash (st_raw st) ''hash is still not visible'')
       else Inr st)))"

section \<open>Payable addresses\<close>

definition validate_nimiq_address :: "settings \<Rightarrow> string \<Rightarrow> string res" where
  "validate_nimiq_address c value = normalise_nimiq_address (allow_dev_sends c) value"

datatype account_type = Basic | Vesting | Htlc | Staking

definition normalise_chain_account_type :: "json \<Rightarrow> account_type option" where
  "normalise_chain_account_type value = (case value of
     JBool _ \<Rightarrow> None
   | JNull \<Rightarrow> None
   | JInt i \<Rightarrow> map_of [(0, Basic), (1, Vesting), (2, Htlc), (3, Staking)] i
   | _ \<Rightarrow> map_of [(''0'', Basic), (''basic'', Basic), (''basicaccount'', Basic),
       (''1'', Vesting), (''vesting'', Vesting), (''vestingcontract'', Vesting),
       (''2'', Htlc), (''htlc'', Htlc), (''hashedtimelockedcontract'', Htlc),
       (''3'', Staking), (''staking'', Staking), (''stakingcontract'', Staking)]
       (filter (\<lambda>ch. py_islower ch \<or> py_isdigit ch) (py_lower (py_strip (json_str value)))))"

definition normalise_chain_timestamp_milliseconds :: "json \<Rightarrow> int option" where
  "normalise_chain_timestamp_milliseconds value = (case int_of_json value of
     None \<Rightarrow> None
   | Some timestamp \<Rightarrow> if timestamp \<le> 0 then None
       else Some (if timestamp < 10000000000 then timestamp * 1000 else timestamp))"

definition get_chain_account_by_address :: "transport \<Rightarrow> settings \<Rightarrow> string \<Rightarrow> json res" where
  "get_chain_account_by_address http c address =
     bindE (validate_nimiq_address c address) (\<lambda>clean_address.
     bindE (json_rpc_post http ''getAccountByAddress'' [JStr clean_address]) (\<lambda>result.
     let data = fst (unwrap_rpc_result result) in
     if is_object data then Inr data
     else Inl (RuntimeError ''Nimiq RPC getAccountByAddress returned no account object'')))"

text \<open>
  The party of an HTLC: its recipient, or its sender when the source payment came
  after the contract's timeout.
\<close>

definition htlc_target_field :: "json \<Rightarrow> chain_status option \<Rightarrow> string res" where
  "htlc_target_field account source = (case source of
     None \<Rightarrow> Inr ''recipient''
   | Some st \<Rightarrow>
     (case (normalise_chain_timestamp_milliseconds
              (first_chain_scalar_for_keys (st_raw st) [''timestamp'', ''time'']),
            normalise_chain_timestamp_milliseconds (obj_get ''timeout'' account)) of
        (Some transaction_time, Some timeout) \<Rightarrow>
          Inr (if transaction_time \<le> timeout then ''recipient'' else ''sender'')
      | _ \<Rightarrow> Inl (RuntimeError ''HTLC payout party could not be resolved from transaction time and timeout'')))"

text \<open>The account behind the address decides, the source payment and its type are known.\<close>

definition resolve_payout_account ::
  "transport \<Rightarrow> settings \<Rightarrow> string \<Rightarrow> (chain_status \<times> account_type option) option \<Rightarrow> string res" where
  "resolve_payout_account http c clean_address source =
     bindE (get_chain_account_by_address http c clean_address) (\<lambda>account.
     case normalise_chain_account_type (obj_get ''type'' account) of
       Some Basic \<Rightarrow>
         if Option.bind source snd = Some Htlc
         then Inl (RuntimeError ''the source HTLC was pruned before its beneficiary could be resolved'')
         else Inr clean_address
     | Some Htlc \<Rightarrow>
         bindE (htlc_target_field account (map_option fst source)) (\<lambda>target_field.
         bindE (validate_nimiq_address c (str_or_empty (obj_get target_field account))) (\<lambda>target.
         bindE (get_chain_account_by_address http c target) (\<lambda>target_account.
         if normalise_chain_account_type (obj_get ''type'' target_account) \<noteq> Some Basic
         then Inl (RuntimeError ''resolved HTLC party is not a basic account'')
         else Inr target)))
     | _ \<Rightarrow> Inl (RuntimeError ''payout address account type is not supported''))"

definition resolve_nimiq_pay_payout_address ::
  "transport \<Rightarrow> settings \<Rightarrow> string \<Rightarrow> string option \<Rightarrow> bool option \<Rightarrow> string res" where
  "resolve_nimiq_pay_payout_address http c address source_tx_hash force_chain_resolution =
    (let raw_address = py_strip address;
         should_resolve = (case force_chain_resolution of None \<Rightarrow> public_deployment c | Some b \<Rightarrow> b)
     in if raw_address = [] then Inl (ValueError ''payout address must be non-empty'')
     else if \<not> should_resolve then Inr raw_address
     else bindE (validate_nimiq_address c raw_address) (\<lambda>clean_address.
       case source_tx_hash of
         None \<Rightarrow> resolve_payout_account http c clean_address None
       | Some h \<Rightarrow>
         if h = [] then resolve_payout_account http c clean_address None
         else if \<not> is_transaction_hash (py_strip h)
         then Inl (RuntimeError ''payout source transaction hash is invalid'')
         else bindE (get_chain_transaction_status http (py_strip h)) (\<lambda>st.
           if st_status st \<noteq> Confirmed
           then Inl (RuntimeError ''payout source transaction could not be re-verified as confirmed'')
           else let source_type = normalise_chain_account_type (first_chain_scalar_for_keys (st_raw st)
                      [''fromType'', ''senderType'', ''from_type'', ''sender_type''])
             in (case source_type of
                   Some Basic \<Rightarrow> Inr clean_address
                 | None \<Rightarrow> resolve_payout_account http c clean_address (Some (st, source_type))
                 | Some Htlc \<Rightarrow> resolve_payout_account http c clean_address (Some (st, source_type))
                 | _ \<Rightarrow> Inl (RuntimeError ''payout source account type is not supported'')))))"

end
