(* ===== verification/ChainProps.thy ===== *)
theory ChainProps
  imports ChainVerify Samples
begin

text \<open>
  What the chain reads guarantee: an accepted transaction pays what the ledger
  row says, silence of the chain never fails an outgoing payment, and a resolved
  payout address is a basic account.
\<close>

section \<open>Matching\<close>

lemma verify_direct_ok:
  assumes "vd_ok (verify_direct c t raw)"
  obtains from_addr to_addr a where
    "verify_direct c t raw = \<lparr>vd_ok = True, vd_reason = [], vd_from = Some from_addr, vd_to = Some to_addr, vd_amount = Some a\<rparr>"
    "\<not> execution_result_is_failure raw"
    "extract_chain_from_address c raw = Some from_addr" "extract_chain_to_address c raw = Some to_addr"
    "extract_chain_amount raw = Some a"
    "normalise_address_for_compare c (tr_to_address t) = Some to_addr"
    "tr_type t = TRANS_TYPE_FILL_SPOT \<Longrightarrow> tr_amount t \<le> a"
    "tr_type t \<noteq> TRANS_TYPE_FILL_SPOT \<Longrightarrow>
       a = tr_amount t \<and> normalise_address_for_compare c (tr_from_address t) = Some from_addr"
proof -
  have no: "\<not> vd_ok (refuted r)" for r by (simp add: refuted_def)
  have x: "\<not> execution_result_is_failure raw"
  proof
    assume "execution_result_is_failure raw"
    then have "verify_direct c t raw = refuted ''confirmed transaction explicitly reported a failed execution result''"
      by (simp add: verify_direct_def)
    then show False using assms no by simp
  qed
  obtain f g a where e: "extract_chain_from_address c raw = Some f" "extract_chain_to_address c raw = Some g"
      "extract_chain_amount raw = Some a"
    using assms no x unfolding verify_direct_def Let_def
    by (cases "extract_chain_from_address c raw"; cases "extract_chain_to_address c raw";
        cases "extract_chain_amount raw") simp_all
  let ?fill = "tr_type t = TRANS_TYPE_FILL_SPOT"
  note d = verify_direct_def Let_def e
  have 1: "?fill \<or> normalise_address_for_compare c (tr_from_address t) = Some f"
    using assms x by (cases "normalise_address_for_compare c (tr_from_address t)") (auto simp: d no split: if_split_asm)
  have 2: "normalise_address_for_compare c (tr_to_address t) = Some g"
    using assms x 1 by (cases "normalise_address_for_compare c (tr_to_address t)") (auto simp: d no split: if_split_asm)
  have 3: "if ?fill then tr_amount t \<le> a else a = tr_amount t"
    using assms x 1 2 by (auto simp: d no split: if_split_asm)
  have "verify_direct c t raw = \<lparr>vd_ok = True, vd_reason = [], vd_from = Some f, vd_to = Some g, vd_amount = Some a\<rparr>"
    using x 1 2 3 by (cases ?fill) (simp_all add: d)
  then show thesis by (rule that [OF _ x e 2]) (use 1 3 in auto)
qed

lemma find_transaction_matches:
  "find_transaction_by_hash history h = Some tx \<Longrightarrow>
   tx \<in> set (iter_candidate_transactions history) \<and> transaction_matches_hash tx h"
  by (auto simp: find_transaction_by_hash_def find_Some_iff)

text \<open>
  The documents of the node a row can be settled by: its answer to the lookup of
  the row's hash, and the entries with that hash in the history it reports for
  the address the row is verified by.
\<close>

definition node_document :: "transport \<Rightarrow> settings \<Rightarrow> trans_row \<Rightarrow> json \<Rightarrow> bool" where
  "node_document http c t raw \<longleftrightarrow>
     raw \<noteq> JNull \<and> json_rpc_post http ''getTransactionByHash'' [JStr (py_strip (tr_tx_hash t))] = Inr raw
   \<or> (\<exists>address history. verification_address_for_record c t = Some address
        \<and> json_rpc_post http ''getTransactionsByAddress''
            [JStr address, JInt NIMIQ_ADDRESS_TX_LOOKUP_LIMIT, JNull] = Inr history
        \<and> raw \<in> set (iter_candidate_transactions history)
        \<and> transaction_matches_hash raw (py_strip (tr_tx_hash t)))"

lemma history_reply:
  "get_chain_transactions_by_address http a n None = json_rpc_post http ''getTransactionsByAddress'' [JStr a, JInt n, JNull]"
  by (simp add: get_chain_transactions_by_address_def)

lemma history_document:
  assumes "verification_address_for_record c t = Some address"
    and "get_chain_transactions_by_address http address NIMIQ_ADDRESS_TX_LOOKUP_LIMIT None = Inr history"
    and "find_transaction_by_hash history (py_strip (tr_tx_hash t)) = Some raw"
  shows "node_document http c t raw"
  using assms(1,2) find_transaction_matches [OF assms(3)] unfolding node_document_def history_reply by blast

lemma verify_record_cases:
  assumes "verify_chain_details_for_record http c t st = Inr v" and "vd_ok v"
    and "st_tx_hash st = py_strip (tr_tx_hash t)" and "py_strip (tr_tx_hash t) \<noteq> []"
    and "node_document http c t (st_raw st)"
  obtains raw where "v = verify_direct c t raw" "node_document http c t raw"
proof -
  have h: "py_strip (or_text (st_tx_hash st) (tr_tx_hash t)) = py_strip (tr_tx_hash t)"
    using assms(3,4) by (simp add: or_text_def)
  have "v = verify_direct c t (st_raw st) \<or> (\<exists>raw. v = verify_direct c t raw \<and> node_document http c t raw)"
    using assms(1,2) unfolding verify_chain_details_for_record_def h
    by (auto simp: Let_def refuted_def intro: history_document split: if_split_asm option.split_asm sum.split_asm)
  then show thesis using that assms(5) by blast
qed

lemma status_confirmed:
  assumes "get_chain_transaction_status http h = Inr st" and "st_status st = Confirmed"
  shows "st_raw st \<noteq> JNull \<and> json_rpc_post http ''getTransactionByHash'' [JStr (py_strip h)] = Inr (st_raw st)
    \<and> st_tx_hash st = py_strip h"
  using assms unfolding get_chain_transaction_status_def
  by (auto simp: Let_def split: if_split_asm sum.split_asm prod.split_asm)

lemma status_from_history_fields [simp]:
  "st_tx_hash (status_from_history h tx) = h" "st_raw (status_from_history h tx) = tx"
  by (simp_all add: status_from_history_def)

lemma recovered_document:
  assumes "recover_server_transaction_from_address_history http c t st = Inr (Some st')" and "tr_tx_hash t \<noteq> []"
  shows "node_document http c t (st_raw st') \<and> st_tx_hash st' = py_strip (tr_tx_hash t)"
  using assms unfolding recover_server_transaction_from_address_history_def
  by (auto simp: Let_def or_text_def intro: history_document split: if_split_asm option.split_asm sum.split_asm)

lemma stale_document:
  assumes "check_stale_deposit http c t (py_strip (tr_tx_hash t)) = Inr st" and "st_status st = Confirmed"
  shows "node_document http c t (st_raw st) \<and> st_tx_hash st = py_strip (tr_tx_hash t)"
  using assms unfolding check_stale_deposit_def
  by (auto simp: unresolved_def intro: history_document split: option.split_asm sum.split_asm if_split_asm)

text \<open>A row is reported confirmed only with a document of the node under its own hash.\<close>

lemma confirmed_document:
  assumes "check_pending_transaction http c now t = Inr st" and "st_status st = Confirmed"
    and "py_strip (tr_tx_hash t) \<noteq> []"
  shows "node_document http c t (st_raw st) \<and> st_tx_hash st = py_strip (tr_tx_hash t)"
proof -
  let ?h = "py_strip (tr_tx_hash t)"
  have no: "tr_tx_hash t \<noteq> []" using assms(3) by auto
  have "\<not> is_local_intent_hash ?h" using assms(1,2) by (auto simp: check_pending_transaction_def unresolved_def)
  then obtain st0 recovered where s0: "get_chain_transaction_status http ?h = Inr st0"
    and rec: "(if st_status st0 = Pending \<or> st_status st0 = Unknown
            then recover_server_transaction_from_address_history http c t st0 else Inr None) = Inr recovered"
    and res: "(case recovered of Some st' \<Rightarrow> Inr st'
     | None \<Rightarrow> if st_status st0 \<noteq> Pending then Inr st0
       else if tr_type t = TRANS_TYPE_FILL_SPOT \<and> USER_DEPOSIT_STALE_AFTER_SECONDS \<le> transaction_age_seconds t now
       then check_stale_deposit http c t ?h
       else if FAIL_AFTER_SECONDS \<le> transaction_age_seconds t now
       then Inr (unresolved Unknown ?h (st_raw st0) ''hash is still not visible'')
       else Inr st0) = Inr st"
    using assms(1) unfolding check_pending_transaction_def Let_def
    by (simp only: if_False) (elim bindE_InrE, blast)
  show ?thesis
  proof (cases recovered)
    case (Some st')
    with rec res show ?thesis using recovered_document [OF _ no, of http c st0 st'] by (auto split: if_split_asm)
  next
    case None
    with res consider "st0 = st" | "check_stale_deposit http c t ?h = Inr st"
      using assms(2) by (auto simp: unresolved_def split: if_split_asm)
    then show ?thesis
    proof cases
      case 1
      then show ?thesis using status_confirmed [OF s0] assms(2) by (simp add: node_document_def)
    next
      case 2
      then show ?thesis using stale_document assms(2) by blast
    qed
  qed
qed

text \<open>
  C32: A pending row is accepted as paid only on the evidence of the node: a
  document that is the node's own answer to the lookup of the row's hash, or an
  entry with exactly that hash in the history the node reports for the row's
  address. That document shows no failed execution, names the row's recipient,
  and carries at least the recorded amount for a deposit and exactly the recorded
  amount, from the recorded sender, for every outgoing payment. What is recorded
  of the payment is what the document says.
\<close>

theorem verified_payment_matches:
  assumes "check_pending_transaction http c now t = Inr st" and "st_status st = Confirmed"
    and "py_strip (tr_tx_hash t) \<noteq> []"
    and "verify_chain_details_for_record http c t st = Inr v" and "vd_ok v"
  shows "\<exists>raw from_addr to_addr a. vd_from v = Some from_addr \<and> vd_to v = Some to_addr \<and> vd_amount v = Some a
    \<and> (raw \<noteq> JNull \<and> json_rpc_post http ''getTransactionByHash'' [JStr (py_strip (tr_tx_hash t))] = Inr raw
       \<or> (\<exists>address history. verification_address_for_record c t = Some address
            \<and> json_rpc_post http ''getTransactionsByAddress''
                [JStr address, JInt NIMIQ_ADDRESS_TX_LOOKUP_LIMIT, JNull] = Inr history
            \<and> raw \<in> set (iter_candidate_transactions history)
            \<and> transaction_matches_hash raw (py_strip (tr_tx_hash t))))
    \<and> \<not> execution_result_is_failure raw
    \<and> extract_chain_from_address c raw = Some from_addr \<and> extract_chain_to_address c raw = Some to_addr
    \<and> extract_chain_amount raw = Some a
    \<and> normalise_address_for_compare c (tr_to_address t) = Some to_addr
    \<and> (if tr_type t = TRANS_TYPE_FILL_SPOT then tr_amount t \<le> a
       else a = tr_amount t \<and> normalise_address_for_compare c (tr_from_address t) = Some from_addr)"
proof -
  note doc = confirmed_document [OF assms(1-3)]
  obtain raw where raw: "v = verify_direct c t raw" "node_document http c t raw"
    by (rule verify_record_cases [OF assms(4,5) conjunct2 [OF doc] assms(3) conjunct1 [OF doc]])
  have ok: "vd_ok (verify_direct c t raw)" using assms(5) raw(1) by simp
  show ?thesis
    by (rule verify_direct_ok [OF ok], rule exI [of _ raw]) (use raw in \<open>auto simp: node_document_def\<close>)
qed

definition sample_payout :: trans_row where
  "sample_payout = sample_deposit\<lparr>tr_id := 2, tr_user_id := 2, tr_claim_id := Some 1, tr_type := TRANS_TYPE_CLAIM,
     tr_amount := 25000000, tr_from_address := ''NQ00 NIMHUNT DEV SPOT DEPOSIT 1'',
     tr_to_address := ''NQ07 0000 0000 0000 0000 0000 0000 0000 0000'', tr_tx_hash := replicate 64 CHR ''a'',
     tr_status := TRANS_STATUS_PENDING, tr_completed_at := None\<rparr>"

definition sample_chain_entry :: json where
  "sample_chain_entry = JObj [(''hash'', JStr (replicate 64 CHR ''A'')), (''blockNumber'', JInt 7),
     (''from'', JStr ''NQ00 NIMHUNT DEV SPOT DEPOSIT 1''),
     (''to'', JStr ''nq07 0000 0000 0000 0000 0000 0000 0000 0000''), (''value'', JInt 25000000)]"

definition sample_settings :: settings where
  "sample_settings = \<lparr>allow_placeholders = True, allow_dev_sends = False, public_deployment = True\<rparr>"

text \<open>An RPC server that misses the hash but lists the entry under the sender's address.\<close>

definition sample_http :: transport where
  "sample_http method params = (if method = ''getTransactionsByAddress''
     then Body (JObj [(''result'', JArr [sample_chain_entry])]) else Body (JObj [(''result'', JNull)]))"

lemma verified_payment_matches_witness:
  "\<exists>st v a. check_pending_transaction sample_http sample_settings 1000000 sample_payout = Inr st
    \<and> verify_chain_details_for_record sample_http sample_settings sample_payout st = Inr v
    \<and> vd_amount v = Some a \<and> a = 25000000
    \<and> (\<exists>raw history. json_rpc_post sample_http ''getTransactionsByAddress''
          [JStr ''NQ00 NIMHUNT DEV SPOT DEPOSIT 1'', JInt NIMIQ_ADDRESS_TX_LOOKUP_LIMIT, JNull] = Inr history
        \<and> raw \<in> set (iter_candidate_transactions history) \<and> extract_chain_amount raw = Some a)"
proof -
  have "gives (check_pending_transaction sample_http sample_settings 1000000 sample_payout) (\<lambda>st. st_status st = Confirmed
      \<and> gives (verify_chain_details_for_record sample_http sample_settings sample_payout st) vd_ok)" by code_simp
  then obtain st v where st: "check_pending_transaction sample_http sample_settings 1000000 sample_payout = Inr st"
      "st_status st = Confirmed"
    and v: "verify_chain_details_for_record sample_http sample_settings sample_payout st = Inr v" "vd_ok v"
    by (auto simp: gives_iff)
  have h: "py_strip (tr_tx_hash sample_payout) \<noteq> []" by code_simp
  have facts: "verification_address_for_record sample_settings sample_payout = Some ''NQ00 NIMHUNT DEV SPOT DEPOSIT 1''"
    "json_rpc_post sample_http ''getTransactionByHash'' [JStr (py_strip (tr_tx_hash sample_payout))] = Inr JNull"
    by code_simp+
  have "tr_type sample_payout \<noteq> TRANS_TYPE_FILL_SPOT \<and> tr_amount sample_payout = 25000000"
    by (simp add: sample_payout_def)
  with verified_payment_matches [OF st h v] st(1) v(1) facts show ?thesis by auto
qed

section \<open>The outcome of a pending row\<close>

lemma history_failed:
  "st_status (status_from_history h tx) = Failed \<Longrightarrow> execution_result_is_failure (st_raw (status_from_history h tx))"
  by (auto simp: status_from_history_def split: if_splits)

lemma chain_status_failed:
  assumes "get_chain_transaction_status http h = Inr st" and "st_status st = Failed" and "py_strip h \<noteq> []"
  shows "execution_result_is_failure (fst (unwrap_rpc_result (st_raw st)))"
  using assms unfolding get_chain_transaction_status_def
  by (auto simp: Let_def split: if_split_asm sum.split_asm prod.split_asm)

lemma chain_status_pending:
  assumes "get_chain_transaction_status http h = Inr st" and "st_status st = Pending"
  shows "json_rpc_post http ''getTransactionByHash'' [JStr (py_strip h)] = Inr JNull"
  using assms unfolding get_chain_transaction_status_def
  by (auto simp: Let_def split: if_split_asm sum.split_asm prod.split_asm)

lemma recovered_failed:
  assumes "recover_server_transaction_from_address_history http c t st = Inr (Some st')" and "st_status st' = Failed"
  shows "execution_result_is_failure (st_raw st')"
  using assms unfolding recover_server_transaction_from_address_history_def
  by (auto simp: Let_def dest: history_failed split: if_split_asm option.split_asm sum.split_asm)

lemma stale_deposit_failed:
  assumes "check_stale_deposit http c t h = Inr st" and "st_status st = Failed"
  shows "execution_result_is_failure (st_raw st)
    \<or> (\<exists>address history. verification_address_for_record c t = Some address
        \<and> get_chain_transactions_by_address http address NIMIQ_ADDRESS_TX_LOOKUP_LIMIT None = Inr history
        \<and> find_transaction_by_hash history h = None)"
  using assms unfolding check_stale_deposit_def
  by (auto simp: unresolved_def dest: history_failed split: option.split_asm sum.split_asm if_split_asm)

text \<open>
  C33: A pending row is reported failed only on proof: the chain reports a failed
  execution for it, or it is a creator's deposit, older than the stale limit,
  that neither the hash lookup nor the recipient's address history shows. A row
  that still carries its local intent stays pending; so no outgoing payment is
  failed, and then paid again, because the RPC server did not find it.
\<close>

theorem pending_row_fails_only_on_proof:
  assumes "check_pending_transaction http c now t = Inr st" and "py_strip (tr_tx_hash t) \<noteq> []"
  shows "(is_local_intent_hash (py_strip (tr_tx_hash t)) \<longrightarrow> st_status st = Pending)
    \<and> (st_status st = Failed \<longrightarrow>
        execution_result_is_failure (st_raw st)
        \<or> execution_result_is_failure (fst (unwrap_rpc_result (st_raw st)))
        \<or> tr_type t = TRANS_TYPE_FILL_SPOT \<and> USER_DEPOSIT_STALE_AFTER_SECONDS \<le> transaction_age_seconds t now
          \<and> json_rpc_post http ''getTransactionByHash'' [JStr (py_strip (tr_tx_hash t))] = Inr JNull
          \<and> (\<exists>address history. verification_address_for_record c t = Some address
              \<and> get_chain_transactions_by_address http address NIMIQ_ADDRESS_TX_LOOKUP_LIMIT None = Inr history
              \<and> find_transaction_by_hash history (py_strip (tr_tx_hash t)) = None))"
proof (cases "is_local_intent_hash (py_strip (tr_tx_hash t))")
  case True
  then show ?thesis using assms(1) by (auto simp: check_pending_transaction_def unresolved_def)
next
  case False
  let ?h = "py_strip (tr_tx_hash t)"
  obtain st0 recovered where s0: "get_chain_transaction_status http ?h = Inr st0"
    and rec: "(if st_status st0 = Pending \<or> st_status st0 = Unknown
            then recover_server_transaction_from_address_history http c t st0 else Inr None) = Inr recovered"
    and res: "(case recovered of Some st' \<Rightarrow> Inr st'
     | None \<Rightarrow> if st_status st0 \<noteq> Pending then Inr st0
       else if tr_type t = TRANS_TYPE_FILL_SPOT \<and> USER_DEPOSIT_STALE_AFTER_SECONDS \<le> transaction_age_seconds t now
       then check_stale_deposit http c t ?h
       else if FAIL_AFTER_SECONDS \<le> transaction_age_seconds t now
       then Inr (unresolved Unknown ?h (st_raw st0) ''hash is still not visible'')
       else Inr st0) = Inr st"
    using assms(1) False unfolding check_pending_transaction_def Let_def
    by (simp only: if_False) (elim bindE_InrE, blast)
  have pend: "st_status st0 = Pending \<Longrightarrow> json_rpc_post http ''getTransactionByHash'' [JStr ?h] = Inr JNull"
    using chain_status_pending [OF s0] by simp
  show ?thesis
  proof (cases recovered)
    case (Some st')
    with rec res show ?thesis using False recovered_failed [of http c t st0 st'] by (auto split: if_split_asm)
  next
    case None
    with res show ?thesis
      using False pend chain_status_failed [OF s0] assms(2) stale_deposit_failed [of http c t ?h st]
      by (auto simp: unresolved_def split: if_split_asm)
  qed
qed

lemma pending_row_fails_only_on_proof_witness:
  "\<exists>st. check_pending_transaction sample_http sample_settings 1000000
      (sample_payout\<lparr>tr_type := TRANS_TYPE_FILL_SPOT, tr_tx_hash := replicate 64 CHR ''b''\<rparr>) = Inr st
    \<and> st_status st = Failed \<and> \<not> execution_result_is_failure (st_raw st)
    \<and> USER_DEPOSIT_STALE_AFTER_SECONDS \<le> transaction_age_seconds sample_payout 1000000"
proof -
  let ?t = "sample_payout\<lparr>tr_type := TRANS_TYPE_FILL_SPOT, tr_tx_hash := replicate 64 CHR ''b''\<rparr>"
  have "gives (check_pending_transaction sample_http sample_settings 1000000 ?t)
      (\<lambda>st. st_status st = Failed \<and> \<not> execution_result_is_failure (st_raw st)
        \<and> \<not> execution_result_is_failure (fst (unwrap_rpc_result (st_raw st))))" by code_simp
  then obtain st where st: "check_pending_transaction sample_http sample_settings 1000000 ?t = Inr st"
    "st_status st = Failed" "\<not> execution_result_is_failure (st_raw st)"
    "\<not> execution_result_is_failure (fst (unwrap_rpc_result (st_raw st)))" by (auto simp: gives_iff)
  have "py_strip (tr_tx_hash ?t) \<noteq> []" by code_simp
  from pending_row_fails_only_on_proof [OF st(1) this] st show ?thesis
    by (auto simp: transaction_age_seconds_def)
qed

section \<open>Payout addresses\<close>

definition basic_account :: "transport \<Rightarrow> settings \<Rightarrow> string \<Rightarrow> bool" where
  "basic_account http c a \<longleftrightarrow> (case get_chain_account_by_address http c a of Inl _ \<Rightarrow> False
     | Inr account \<Rightarrow> normalise_chain_account_type (obj_get ''type'' account) = Some Basic)"

lemma payout_account_basic:
  assumes "resolve_payout_account http c a0 source = Inr a"
  shows "basic_account http c a"
  using assms unfolding resolve_payout_account_def basic_account_def
  by (auto elim!: bindE_InrE split: option.split_asm account_type.split_asm if_split_asm)

text \<open>
  On a public deployment the payout address of a Nimiq Pay account is only
  ever one whose account the chain reports as basic, or the canonical form of the
  given address when the confirmed source payment came from a basic account; an
  HTLC, vesting or staking contract is never paid.
\<close>

theorem payout_address_is_basic:
  assumes "resolve_nimiq_pay_payout_address http c address source None = Inr a" and "public_deployment c"
  shows "basic_account http c a
    \<or> (\<exists>h st. source = Some h \<and> get_chain_transaction_status http (py_strip h) = Inr st \<and> st_status st = Confirmed
        \<and> validate_nimiq_address c (py_strip address) = Inr a
        \<and> normalise_chain_account_type (first_chain_scalar_for_keys (st_raw st)
            [''fromType'', ''senderType'', ''from_type'', ''sender_type'']) = Some Basic)"
proof (rule ccontr)
  assume no: "\<not> ?thesis"
  then have nb: "resolve_payout_account http c x src \<noteq> Inr a" for x src
    using payout_account_basic [of http c x src a] by blast
  show False
    using assms no nb unfolding resolve_nimiq_pay_payout_address_def Let_def
    by (auto elim!: bindE_InrE split: option.split_asm account_type.split_asm if_split_asm)
qed

text \<open>An HTLC whose recipient is a basic account.\<close>

definition sample_htlc_http :: transport where
  "sample_htlc_http method params =
    (if params = [JStr ''NQ07 0000 0000 0000 0000 0000 0000 0000 0000'']
     then Body (JObj [(''result'', JObj [(''type'', JStr ''basic'')])])
     else Body (JObj [(''result'', JObj [(''type'', JStr ''htlc''),
        (''recipient'', JStr ''NQ07 0000 0000 0000 0000 0000 0000 0000 0000'')])]))"

lemma payout_address_is_basic_witness:
  "resolve_nimiq_pay_payout_address sample_htlc_http (sample_settings\<lparr>allow_dev_sends := True\<rparr>)
      ''NQ00 NIMHUNT DEV CLAIM PAYOUT 1'' None None = Inr ''NQ07 0000 0000 0000 0000 0000 0000 0000 0000''
   \<and> basic_account sample_htlc_http (sample_settings\<lparr>allow_dev_sends := True\<rparr>)
      ''NQ07 0000 0000 0000 0000 0000 0000 0000 0000''"
proof -
  have r: "resolve_nimiq_pay_payout_address sample_htlc_http (sample_settings\<lparr>allow_dev_sends := True\<rparr>)
      ''NQ00 NIMHUNT DEV CLAIM PAYOUT 1'' None None = Inr ''NQ07 0000 0000 0000 0000 0000 0000 0000 0000''"
    by code_simp
  then show ?thesis using payout_address_is_basic [OF r] by (simp add: sample_settings_def)
qed

end
