(* ===== verification/SecurityState.thy ===== *)
theory SecurityState
  imports Transactions "HOL-Library.AList"
begin

text \<open>
  What the guard modules keep beside the main tables: the JSON documents of
  \<^verbatim>\<open>claim_security.py\<close> and \<^verbatim>\<open>claim_payout_throttle.py\<close> in \<^verbatim>\<open>app_metadata\<close> and
  the table of \<^verbatim>\<open>refund_address_safety.py\<close>. A document is a record, a key space an
  association list; documents are the ones the server itself wrote, so the
  branches for malformed JSON do not arise.
\<close>

section \<open>Wallet challenges, sessions and bindings\<close>

record challenge =
  chal_device :: string
  chal_message :: string
  chal_created_at :: int
  chal_expires_at :: int
  chal_ip :: string

record session_doc =
  ses_user_id :: int
  ses_device :: string
  ses_wallet :: string
  ses_key_hash :: string
  ses_created_at :: int
  ses_expires_at :: int
  ses_ip :: string

record binding =
  bd_user_id :: int
  bd_device :: string
  bd_wallet :: string
  bd_verified_at :: int

section \<open>Claim authorizations and security records\<close>

datatype authorization_status = Issued | Verifying | Processing_claim

record authorization =
  au_status :: authorization_status
  au_message :: string
  au_spot_id :: int
  au_device :: string
  au_wallet :: string
  au_location :: "int \<times> int \<times> int"
  au_environment :: string
  au_network :: string
  au_issued_at :: int
  au_expires_at :: int

record claim_event =
  ev_claim_id :: int
  ev_spot_id :: int
  ev_user_id :: int
  ev_device :: string
  ev_wallet :: string
  ev_payout :: "string option"
  ev_ip :: string
  ev_claimed_at :: int
  ev_recorded_at :: int
  ev_session_created_at :: int
  ev_user_created_at :: int
  ev_spot_lat :: rat
  ev_spot_long :: rat
  ev_spot_radius :: int
  ev_reported_lat :: rat
  ev_reported_long :: rat
  ev_centre_offset :: rat
  ev_authorization :: "authorization option"
  ev_manual_review :: bool
  ev_review_reason :: "string option"
  ev_review_marked_at :: "int option"
  ev_released_at :: "int option"

section \<open>Payout reservations and return addresses\<close>

record reservation =
  rv_claim_id :: int
  rv_amount :: int
  rv_reserved_at :: int
  rv_short_at :: int
  rv_daily_at :: int
  rv_spot_at :: int
  rv_spot_id :: int

record return_row =
  rt_tx_hash :: string
  rt_spot_id :: int
  rt_address :: string
  rt_created_at :: int

section \<open>Claim location and fresh accounts\<close>

text \<open>
  The marker of \<^verbatim>\<open>claim_location_guard.py\<close> and the documents of
  \<^verbatim>\<open>fresh_claim_guard.py\<close> and \<^verbatim>\<open>wallet_cluster_guard.py\<close>. Their keys are
  digests of a user id or an address in the code; here they are the id or the
  address itself.
\<close>

record suspicion =
  sn_trusted_claim :: int
  sn_suspicious_spot :: int
  sn_attempted_at :: int
  sn_retry_at :: int
  sn_last_spot :: int
  sn_last_at :: int

record rollout =
  ro_activated_at :: int
  ro_legacy_max :: int

record signer_doc =
  sg_address :: string
  sg_trusted :: bool
  sg_failed :: bool
  sg_oldest :: "int option"
  sg_checked_at :: int
  sg_refresh_at :: "int option"

record activity_doc =
  ac_days :: "int list"
  ac_updated_at :: "int option"
  ac_first_attempt :: "int option"

record gps_point =
  gx_at :: int
  gx_lat :: rat
  gx_long :: rat
  gx_ip :: "string option"

record gps_doc =
  gp_first_at :: int
  gp_first_inside :: bool
  gp_ordinary :: bool
  gp_last :: "gps_point option"
  gp_pending :: "gps_point option"
  gp_contradictions :: int
  gp_contradiction_at :: "int option"
  gp_restricted_until :: "int option"

record location_doc =
  lo_verified_at :: "int option"
  lo_decision_at :: int
  lo_result :: string
  lo_retry_at :: "int option"
  lo_reason :: "string option"
  lo_mismatches :: int
  lo_mismatch_ip :: "string option"
  lo_mismatch_at :: "int option"
  lo_provider :: "(string \<times> rat \<times> rat) option"
  lo_unreliable :: "string list"
  lo_countries :: "(string \<times> string) option"
  lo_distance_km :: "int option"

record origin_doc =
  og_failed :: bool
  og_source :: "string option"
  og_funded_at :: "int option"
  og_amount :: "int option"
  og_checked_at :: int
  og_refresh_at :: int

record source_doc =
  so_members :: "(string \<times> int \<times> int) list"
  so_count :: "int option"
  so_saturated :: bool
  so_uncertain :: bool
  so_evidence :: bool
  so_similar :: bool
  so_breadth :: "string option"
  so_service :: bool
  so_refresh_at :: int
  so_checked_at :: int

record fresh_state =
  fr_rollout :: "rollout option"
  fr_activity_rollout :: "rollout option"
  fr_signers :: "(string \<times> signer_doc) list"
  fr_activity :: "(int \<times> activity_doc) list"
  fr_gps :: "(int \<times> gps_doc) list"
  fr_locations :: "(int \<times> location_doc) list"
  fr_origins :: "(string \<times> origin_doc) list"
  fr_sources :: "(string \<times> source_doc) list"

record security_state =
  ss_challenges :: "(string \<times> challenge) list"
  ss_sessions :: "(string \<times> session_doc) list"
  ss_bindings :: "(int \<times> binding) list"
  ss_authorizations :: "(string \<times> authorization) list"
  ss_records :: "(int \<times> claim_event) list"
  ss_events :: "claim_event list"
  ss_rates :: "(string \<times> int list) list"
  ss_incident :: "(string \<times> int list \<times> int) option"
  ss_reservations :: "reservation list"
  ss_returns :: "return_row list"
  ss_suspicions :: "(int \<times> suspicion) list"
  ss_cursor :: "string option"
  ss_fresh :: fresh_state

definition empty_fresh :: fresh_state where
  "empty_fresh = \<lparr>fr_rollout = None, fr_activity_rollout = None, fr_signers = [], fr_activity = [],
     fr_gps = [], fr_locations = [], fr_origins = [], fr_sources = []\<rparr>"

definition empty_security :: security_state where
  "empty_security = \<lparr>ss_challenges = [], ss_sessions = [], ss_bindings = [], ss_authorizations = [],
     ss_records = [], ss_events = [], ss_rates = [], ss_incident = None, ss_reservations = [], ss_returns = [],
     ss_suspicions = [], ss_cursor = None, ss_fresh = empty_fresh\<rparr>"

section \<open>Keyed documents (\<^verbatim>\<open>security_metadata.py\<close>)\<close>

definition get_json :: "('k \<times> 'v) list \<Rightarrow> 'k \<Rightarrow> 'v option" where
  "get_json docs k = map_of docs k"

definition set_json :: "'k \<Rightarrow> 'v \<Rightarrow> ('k \<times> 'v) list \<Rightarrow> ('k \<times> 'v) list" where
  "set_json k v docs = AList.update k v docs"

definition delete_json :: "'k \<Rightarrow> ('k \<times> 'v) list \<Rightarrow> ('k \<times> 'v) list" where
  "delete_json k docs = AList.delete k docs"

lemma get_set_json [simp]: "get_json (set_json k v docs) l = (if l = k then Some v else get_json docs l)"
  by (simp add: get_json_def set_json_def update_conv')

lemma get_delete_json [simp]: "get_json (delete_json k docs) l = (if l = k then None else get_json docs l)"
  by (simp add: get_json_def delete_json_def delete_conv')

text \<open>A rolling window of at most \<open>limit\<close> timestamps.\<close>

definition last_n :: "int \<Rightarrow> 'a list \<Rightarrow> 'a list" where
  "last_n n xs = drop (length xs - nat n) xs"

definition admit_timestamp ::
  "string \<Rightarrow> int \<Rightarrow> int \<Rightarrow> int \<Rightarrow> (string \<times> int list) list \<Rightarrow> (bool \<times> int) \<times> (string \<times> int list) list" where
  "admit_timestamp key now window_seconds limit docs =
    (let timestamps = filter (\<lambda>stamp. now - window_seconds < stamp)
           (case get_json docs key of None \<Rightarrow> [] | Some raw \<Rightarrow> raw)
     in if limit \<le> int (length timestamps)
        then ((False, Min (set timestamps) + window_seconds + 1), set_json key (last_n limit timestamps) docs)
        else ((True, now), set_json key (last_n limit (timestamps @ [now])) docs))"

end
