(* ===== verification/Outbox.thy ===== *)
theory Outbox
  imports ChainVerify SecurityState
begin

text \<open>
  The outbox of \<^verbatim>\<open>trans_updater.py\<close>: an outgoing payment is a committed pending
  row first, then a request to the signing helper, then the helper's hash on the
  row. The derivation of deposit addresses, the helper and random tokens are
  outside the repository's Python code: they are fields of \<open>services\<close>, indexed by
  how often they were used before. So is the resolver of refund addresses, which
  \<^verbatim>\<open>refund_address_safety.py\<close> replaces at start-up. Notifications of the cache, which is only a
  convenience copy of the database, are left out.
\<close>

section \<open>Descriptions (\<^verbatim>\<open>transaction_descriptions.py\<close>)\<close>

fun split_words :: "string \<Rightarrow> string \<Rightarrow> string list" where
  "split_words acc [] = (if acc = [] then [] else [rev acc])"
| "split_words acc (c # cs) =
    (if py_isspace c then (if acc = [] then split_words [] cs else rev acc # split_words [] cs)
     else split_words (c # acc) cs)"

definition join_words :: "string list \<Rightarrow> string" where
  "join_words ws = (case ws of [] \<Rightarrow> [] | w # rest \<Rightarrow> w @ concat (map (\<lambda>u. CHR '' '' # u) rest))"

definition normalise_title :: "string option \<Rightarrow> string" where
  "normalise_title value =
    (let title = join_words (split_words [] (case value of None \<Rightarrow> ''Spot'' | Some s \<Rightarrow> or_text s ''Spot''))
     in or_text title ''Spot'')"

definition py_rstrip :: "string \<Rightarrow> string" where
  "py_rstrip s = rev (dropWhile py_isspace (rev s))"

text \<open>Text is ASCII, so a character is one byte and every prefix decodes.\<close>

definition truncate_utf8 :: "string \<Rightarrow> int \<Rightarrow> string" where
  "truncate_utf8 value limit =
    (let max_bytes = nat (max 0 limit) in
     if length value \<le> max_bytes then value
     else if max_bytes = 0 then []
     else if max_bytes \<le> 3 then replicate max_bytes CHR ''.''
     else py_rstrip (take (max_bytes - 3) value) @ ''...'')"

definition NIMIQ_TRANSACTION_DESCRIPTION_MAX_BYTES :: int where
  [const_defs]: "NIMIQ_TRANSACTION_DESCRIPTION_MAX_BYTES = 30"

definition build_transaction_description :: "string \<Rightarrow> string option \<Rightarrow> string" where
  "build_transaction_description kind spot_title =
    (let clean_kind = or_text (join_words (split_words [] (or_text kind ''NimHunt''))) ''NimHunt'' in
     truncate_utf8 (clean_kind @ '': '' @ normalise_title spot_title)
       NIMIQ_TRANSACTION_DESCRIPTION_MAX_BYTES)"

section \<open>Services and the world\<close>

record send_request =
  rq_from :: string
  rq_to :: string
  rq_amount :: int
  rq_memo :: string
  rq_key_index :: int
  rq_key_path :: string
  rq_key_version :: int

text \<open>The helper process is missing, times out or exits with an error; prints no JSON; or prints a value.\<close>

datatype helper_reply = HelperFailed | HelperNotJson | HelperReply json

record services =
  sv_settings :: settings
  sv_http :: transport
  sv_derive :: "int \<Rightarrow> int \<Rightarrow> string res"
  sv_command :: bool
  sv_helper :: "nat \<Rightarrow> send_request \<Rightarrow> helper_reply"
  sv_digest :: "nat \<Rightarrow> string"
  sv_token :: "nat \<Rightarrow> string"
  sv_fee_address :: string
  sv_resolve :: "string \<Rightarrow> string option \<Rightarrow> db \<Rightarrow> security_state \<Rightarrow> string res"

text \<open>
  The database, the requests handed to the helper so far, each with the ledger
  row it was made for, and the number of random tokens drawn; then the two tables
  of \<^verbatim>\<open>cancellation_safety.py\<close>, keyed by Spot: the send lease with its reason and
  the snapshot of fee and fee address; last the state of the security guards.
\<close>

datatype guard_state = Processing | Blocked

record world =
  wd_db :: db
  wd_sent :: "(int \<times> send_request) list"
  wd_draws :: nat
  wd_guards :: "(int \<times> guard_state \<times> string) list"
  wd_policies :: "(int \<times> int \<times> string) list"
  wd_security :: security_state

text \<open>
  A step may raise, and what it did before stays done. \<open>in_transaction\<close> is
  \<^verbatim>\<open>async with transaction(db)\<close>: an exception rolls the database back.
\<close>

type_synonym 'a act = "world \<Rightarrow> 'a res \<times> world"

definition returnA :: "'a \<Rightarrow> 'a act" where
  "returnA x w = (Inr x, w)"

definition raiseA :: "py_error \<Rightarrow> 'a act" where
  "raiseA e w = (Inl e, w)"

definition bindA :: "'a act \<Rightarrow> ('a \<Rightarrow> 'b act) \<Rightarrow> 'b act" where
  "bindA m k w = (case m w of (Inl e, w') \<Rightarrow> (Inl e, w') | (Inr x, w') \<Rightarrow> k x w')"

definition liftA :: "'a res \<Rightarrow> 'a act" where
  "liftA r w = (r, w)"

definition readA :: "(db \<Rightarrow> 'a) \<Rightarrow> 'a act" where
  "readA f w = (Inr (f (wd_db w)), w)"

definition in_transaction :: "(db \<Rightarrow> ('a \<times> db) res) \<Rightarrow> 'a act" where
  "in_transaction f w = (case f (wd_db w) of
     Inl e \<Rightarrow> (Inl e, w) | Inr (x, d) \<Rightarrow> (Inr x, w\<lparr>wd_db := d\<rparr>))"

definition commit_db :: "(db \<Rightarrow> db res) \<Rightarrow> unit act" where
  "commit_db f = in_transaction (\<lambda>d. bindE (f d) (\<lambda>d'. Inr ((), d')))"

text \<open>\<^verbatim>\<open>try: m except ...: h\<close>, the handler sees the exception.\<close>

definition catchA :: "'a act \<Rightarrow> (py_error \<Rightarrow> 'a act) \<Rightarrow> 'a act" where
  "catchA m h w = (case m w of (Inl e, w') \<Rightarrow> h e w' | (Inr x, w') \<Rightarrow> (Inr x, w'))"

section \<open>Sending from a deposit address\<close>

record submitted =
  su_tx_hash :: string
  su_from :: string
  su_to :: string
  su_amount :: int

definition run_json_command :: "helper_reply \<Rightarrow> json res" where
  "run_json_command reply = (case reply of
     HelperFailed \<Rightarrow> Inl (RuntimeError ''Nimiq helper command failed'')
   | HelperNotJson \<Rightarrow> Inl (RuntimeError ''Nimiq helper command returned invalid JSON'')
   | HelperReply data \<Rightarrow>
       if \<not> is_object data then Inl (RuntimeError ''Nimiq helper command returned non-object JSON'')
       else if obj_get ''ok'' data = JBool False then Inl (RuntimeError ''Nimiq helper failed'')
       else Inr data)"

definition spot_deposit_key_path :: "int \<Rightarrow> string res" where
  "spot_deposit_key_path index =
    (if index < 0 then Inl (ValueError ''deposit key index must be non-negative'')
     else Inr (''m/44'' @ [char_of (39::nat)] @ ''/242'' @ [char_of (39::nat)] @ ''/'' @ int_text index
               @ [char_of (39::nat)] @ ''/0'' @ [char_of (39::nat)]))"

definition or_json :: "json \<Rightarrow> json \<Rightarrow> json" where
  "or_json a b = (if truthy a then a else b)"

definition submitted_from_reply :: "send_request \<Rightarrow> json \<Rightarrow> submitted res" where
  "submitted_from_reply rq data =
    (let tx_hash = py_strip (str_or_empty (or_json (obj_get ''tx_hash'' data) (obj_get ''hash'' data))) in
     if tx_hash = [] then Inl (RuntimeError ''Nimiq helper did not return tx_hash/hash'')
     else (case int_of_json (or_json (obj_get ''amount'' data) (JInt (rq_amount rq))) of
       None \<Rightarrow> Inl (ValueError ''invalid literal for int()'')
     | Some amount \<Rightarrow> Inr \<lparr>su_tx_hash = tx_hash,
         su_from = json_str (or_json (obj_get ''from_address'' data) (JStr (rq_from rq))),
         su_to = json_str (or_json (obj_get ''to_address'' data) (JStr (rq_to rq))),
         su_amount = amount\<rparr>))"

definition build_send_request ::
  "services \<Rightarrow> spot_row \<Rightarrow> string \<Rightarrow> int \<Rightarrow> string \<Rightarrow> send_request res" where
  "build_send_request sv s to_address amount memo =
    (if amount \<le> 0 then Inl (ValueError ''amount must be positive'')
     else bindE (validate_nimiq_address (sv_settings sv) (sp_deposit_address s)) (\<lambda>from_addr.
     bindE (validate_nimiq_address (sv_settings sv) to_address) (\<lambda>to_addr.
     case sp_deposit_key_index s of
       None \<Rightarrow> Inl (RuntimeError ''spot has no deposit_key_index; cannot derive signing key'')
     | Some key_index \<Rightarrow>
       let key_version = (if sp_deposit_key_version s = 0 then SPOT_DEPOSIT_KEY_VERSION
                          else sp_deposit_key_version s) in
       bindE (case sp_deposit_key_path s of
                None \<Rightarrow> spot_deposit_key_path key_index
              | Some p \<Rightarrow> if p = [] then spot_deposit_key_path key_index else Inr p) (\<lambda>key_path.
       bindE (sv_derive sv key_index key_version) (\<lambda>derived.
       if derived \<noteq> from_addr
       then Inl (RuntimeError ''stored deposit address does not match derived deposit address'')
       else Inr \<lparr>rq_from = from_addr, rq_to = to_addr, rq_amount = amount, rq_memo = memo,
         rq_key_index = key_index, rq_key_path = key_path, rq_key_version = key_version\<rparr>)))))"

text \<open>
  \<open>trans_id\<close> only labels the entry of the request log. Without a helper command
  the development fallback returns a made-up hash and sends nothing.
\<close>

definition submit_chain_send_from_spot_deposit ::
  "services \<Rightarrow> int \<Rightarrow> spot_row \<Rightarrow> string \<Rightarrow> int \<Rightarrow> string \<Rightarrow> submitted act" where
  "submit_chain_send_from_spot_deposit sv trans_id s to_address amount memo w =
    (case build_send_request sv s to_address amount memo of
       Inl e \<Rightarrow> (Inl e, w)
     | Inr rq \<Rightarrow>
       if sv_command sv
       then (bindE (run_json_command (sv_helper sv (length (wd_sent w)) rq)) (submitted_from_reply rq),
             w\<lparr>wd_sent := wd_sent w @ [(trans_id, rq)]\<rparr>)
       else if \<not> allow_dev_sends (sv_settings sv)
       then (Inl (RuntimeError ''Real Nimiq transaction signing is not connected''), w)
       else (Inr \<lparr>su_tx_hash = ''devsend'' @ take 58 (sv_digest sv (wd_draws w)), su_from = rq_from rq,
                  su_to = rq_to rq, su_amount = amount\<rparr>, w\<lparr>wd_draws := Suc (wd_draws w)\<rparr>))"

definition validate_submitted_chain_send ::
  "settings \<Rightarrow> string \<Rightarrow> string \<Rightarrow> int \<Rightarrow> submitted \<Rightarrow> submitted res" where
  "validate_submitted_chain_send c expected_from_address expected_to_address expected_amount result =
    (let tx_hash = py_lower (py_strip (su_tx_hash result)) in
     bindE (validate_nimiq_address c expected_from_address) (\<lambda>expected_from.
     bindE (validate_nimiq_address c expected_to_address) (\<lambda>expected_to.
     bindE (validate_nimiq_address c (su_from result)) (\<lambda>actual_from.
     bindE (validate_nimiq_address c (su_to result)) (\<lambda>actual_to.
     if actual_from \<noteq> expected_from
     then Inl (RuntimeError ''Nimiq helper returned a sender that does not match the intended payment'')
     else if actual_to \<noteq> expected_to
     then Inl (RuntimeError ''Nimiq helper returned a recipient that does not match the intended payment'')
     else if su_amount result \<noteq> expected_amount
     then Inl (RuntimeError ''Nimiq helper returned an amount that does not match the intended payment'')
     else if \<not> is_transaction_hash tx_hash
     then Inl (RuntimeError ''Nimiq helper returned an invalid transaction hash'')
     else Inr \<lparr>su_tx_hash = tx_hash, su_from = actual_from, su_to = actual_to,
               su_amount = su_amount result\<rparr>)))))"

section \<open>The recorded send\<close>

definition make_local_intent_hash :: "string \<Rightarrow> int \<Rightarrow> string \<Rightarrow> string" where
  "make_local_intent_hash kind primary_id token =
    (let safe_kind = filter (\<lambda>ch. py_isalnum ch \<or> ch = CHR ''_'' \<or> ch = CHR ''-'') (py_lower kind)
     in LOCAL_TRANSACTION_INTENT_PREFIX @ or_text safe_kind ''tx'' @ '':'' @ int_text primary_id @ '':'' @ token)"

record send_result =
  sr_trans_id :: int
  sr_amount :: int
  sr_to :: string
  sr_from :: string
  sr_tx_hash :: string
  sr_intent_hash :: string

text \<open>\<open>create\<close> inserts the pending row, given amount, sender, recipient and hash.\<close>

definition submit_recorded_chain_send ::
  "services \<Rightarrow> spot_row \<Rightarrow> string \<Rightarrow> int \<Rightarrow> string \<Rightarrow> string \<Rightarrow> int \<Rightarrow>
   (int \<Rightarrow> string \<Rightarrow> string \<Rightarrow> string \<Rightarrow> db \<Rightarrow> (int \<times> db) res) \<Rightarrow> send_result act" where
  "submit_recorded_chain_send sv s to_address amount memo intent_kind intent_primary_id create w =
    (if amount \<le> 0 then (Inl (ValueError ''amount must be positive''), w)
     else case validate_nimiq_address (sv_settings sv) (sp_deposit_address s) of
       Inl e \<Rightarrow> (Inl e, w)
     | Inr from_addr \<Rightarrow>
       (case validate_nimiq_address (sv_settings sv) to_address of
          Inl e \<Rightarrow> (Inl e, w)
        | Inr clean_to \<Rightarrow>
          let intent_hash = make_local_intent_hash intent_kind intent_primary_id (sv_token sv (wd_draws w)) in
          bindA (in_transaction (create amount from_addr clean_to intent_hash)) (\<lambda>trans_id.
          bindA (catchA
              (bindA (submit_chain_send_from_spot_deposit sv trans_id s clean_to amount memo) (\<lambda>result.
               liftA (validate_submitted_chain_send (sv_settings sv) from_addr clean_to amount result)))
              (\<lambda>e. raiseA (RuntimeError ''Chain send did not return a usable transaction hash''))) (\<lambda>result.
          bindA (commit_db (update_transaction_chain_details trans_id
              \<lparr>ch_tx_hash = Some (su_tx_hash result), ch_from_address = Some (su_from result),
               ch_to_address = Some (su_to result), ch_amount = Some (su_amount result),
               ch_block_number = None\<rparr>)) (\<lambda>_.
          returnA \<lparr>sr_trans_id = trans_id, sr_amount = su_amount result, sr_to = su_to result,
            sr_from = su_from result, sr_tx_hash = su_tx_hash result, sr_intent_hash = intent_hash\<rparr>)))
          (w\<lparr>wd_draws := Suc (wd_draws w)\<rparr>)))"

end
