(* ===== verification/Payments.thy ===== *)
theory Payments
  imports Outbox Claims SpotWrites
begin

text \<open>
  The payment operations of \<^verbatim>\<open>trans_updater.py\<close> on the world of \<open>Outbox\<close>: the five
  outgoing payments, the recording of a creator's deposit, the confirmation and
  failure of a row with what they settle, and one pass over the pending rows.
\<close>

section \<open>Outgoing payments\<close>

datatype send_outcome = Skipped string | AlreadyExists | Sent send_result

definition bind_spot :: "int \<Rightarrow> (spot_row \<Rightarrow> 'a act) \<Rightarrow> 'a act" where
  "bind_spot spot_id k = bindA (readA (get_spot spot_id)) (\<lambda>s. case s of
     None \<Rightarrow> raiseA (ValueError ''spot does not exist'') | Some r \<Rightarrow> k r)"

definition mapA :: "('a \<Rightarrow> 'b) \<Rightarrow> 'a act \<Rightarrow> 'b act" where
  "mapA f m = bindA m (\<lambda>x. returnA (f x))"

definition submit_platform_fee_transaction ::
  "services \<Rightarrow> int \<Rightarrow> int \<Rightarrow> string option \<Rightarrow> send_outcome act" where
  "submit_platform_fee_transaction sv spot_id amount fee_to =
    (if amount \<le> 0 then returnA (Skipped ''zero_amount'')
     else bind_spot spot_id (\<lambda>s.
       let clean_fee_address = py_strip (or_text (case fee_to of None \<Rightarrow> [] | Some a \<Rightarrow> a) (sv_fee_address sv))
       in if clean_fee_address = [] then raiseA (ValueError ''NIMHUNT_SPOT_FEE_ADDRESS is not configured'')
       else mapA Sent (submit_recorded_chain_send sv s clean_fee_address amount
              (build_transaction_description ''Refund Fee'' (Some (sp_title s))) ''platform_fee'' spot_id
              (\<lambda>a f t h. create_platform_fee_transaction (sp_created_by s) a f t h (Some spot_id) None))))"

definition submit_spot_refund_transaction ::
  "services \<Rightarrow> int \<Rightarrow> string \<Rightarrow> int \<Rightarrow> send_outcome act" where
  "submit_spot_refund_transaction sv spot_id to_address amount =
    (if amount \<le> 0 then returnA (Skipped ''zero_amount'')
     else bind_spot spot_id (\<lambda>s. mapA Sent (submit_recorded_chain_send sv s to_address amount
            (build_transaction_description ''Cancelled Spot'' (Some (sp_title s))) ''spot_refund'' spot_id
            (\<lambda>a f t h. create_spot_refund_transaction (sp_created_by s) spot_id a f t h))))"

definition submit_spot_remainder_refund_transaction ::
  "services \<Rightarrow> int \<Rightarrow> string \<Rightarrow> int \<Rightarrow> send_outcome act" where
  "submit_spot_remainder_refund_transaction sv spot_id to_address amount =
    (if amount \<le> 0 then returnA (Skipped ''zero_amount'')
     else bind_spot spot_id (\<lambda>s.
       if sp_status s \<noteq> SPOT_STATUS_COMPLETED
       then raiseA (ValueError ''remainder refunds require a completed Spot'')
       else mapA Sent (submit_recorded_chain_send sv s to_address amount
            (build_transaction_description ''Unused Spot Funds'' (Some (sp_title s)))
            ''spot_remainder_refund'' spot_id
            (\<lambda>a f t h. create_spot_remainder_refund_transaction (sp_created_by s) spot_id a f t h))))"

text \<open>
  A concurrent cancellation or a concurrent fee intent turns the failed insert
  into a quiet answer.
\<close>

definition creation_fee_failed :: "int \<Rightarrow> py_error \<Rightarrow> send_outcome act" where
  "creation_fee_failed spot_id e =
    bindA (readA (\<lambda>d. (get_spot spot_id d, has_nonfailed_spot_creation_fee_transaction spot_id d))) (\<lambda>(s, live).
     case e of
       ValueError _ \<Rightarrow> if s \<noteq> None \<and> sp_cancellation_started_at (the s) \<noteq> None
         then returnA (Skipped ''cancellation_started'') else raiseA e
     | IntegrityError _ \<Rightarrow> if live then returnA AlreadyExists else raiseA e
     | RuntimeError _ \<Rightarrow> if live then returnA AlreadyExists else raiseA e
     | _ \<Rightarrow> raiseA e)"

definition submit_spot_creation_fee_transaction :: "services \<Rightarrow> int \<Rightarrow> send_outcome act" where
  "submit_spot_creation_fee_transaction sv spot_id =
    bind_spot spot_id (\<lambda>s.
    let amount = spot_creation_fee_amount s; fee_to = py_strip (sp_creation_fee_address s) in
    if sp_status s \<notin> {SPOT_STATUS_DRAFT, SPOT_STATUS_PUBLISHED, SPOT_STATUS_COMPLETED}
    then raiseA (ValueError ''creation fees can only be submitted for funded, non-cancelled spots'')
    else if sp_cancellation_started_at s \<noteq> None then returnA (Skipped ''cancellation_started'')
    else if amount \<le> 0 then returnA (Skipped ''zero_amount'')
    else bindA (readA (\<lambda>d. (get_confirmed_spot_deposit_total spot_id d,
                            has_nonfailed_spot_creation_fee_transaction spot_id d))) (\<lambda>(total, live).
    if total < spot_required_deposit_amount s then returnA (Skipped ''not_fully_funded'')
    else if live then returnA AlreadyExists
    else if fee_to = [] then raiseA (ValueError ''spot creation fee address is missing'')
    else catchA (mapA Sent (submit_recorded_chain_send sv s fee_to amount
           (build_transaction_description ''Creation Fee'' (Some (sp_title s))) ''creation_fee'' spot_id
           (\<lambda>a f t h. create_spot_creation_fee_transaction (allow_placeholders (sv_settings sv))
              (sp_created_by s) spot_id a f t h)))
         (creation_fee_failed spot_id)))"

definition claim_reward_address :: "settings \<Rightarrow> claim_row \<Rightarrow> string res" where
  "claim_reward_address c cl =
    (let own = py_strip (case cl_payout_address cl of None \<Rightarrow> [] | Some a \<Rightarrow> a);
         address = (if own = [] \<and> allow_dev_sends c
                    then ''NQ00 NIMHUNT DEV CLAIM PAYOUT USER '' @ int_text (cl_recipient cl) else own)
     in if address = []
        then Inl (ValueError ''claim has no payout_address; ask the user to enter through Nimiq Pay again'')
        else normalise_nimiq_address (allow_placeholders c \<or> allow_dev_sends c) address)"

definition submit_claim_reward_transaction ::
  "services \<Rightarrow> int \<Rightarrow> int \<Rightarrow> string option \<Rightarrow> send_outcome act" where
  "submit_claim_reward_transaction sv claim_id amount to_address =
    (let c = sv_settings sv in
     if amount \<le> 0 then returnA (Skipped ''zero_amount'')
     else bindA (readA (\<lambda>d. (get_claim claim_id d, has_nonfailed_claim_payout_transaction claim_id d)))
       (\<lambda>(claim, live). case claim of
         None \<Rightarrow> raiseA (ValueError ''claim does not exist'')
       | Some detail \<Rightarrow>
         let cl = cd_claim detail in
         if live then returnA AlreadyExists
         else bindA (readA (\<lambda>d. (get_spot (cl_spot_id cl) d, is_prizedraw (cl_spot_id cl) d))) (\<lambda>(sp, draw).
         case sp of
           None \<Rightarrow> raiseA (ValueError ''spot for claim does not exist'')
         | Some s \<Rightarrow>
           bindA (liftA (claim_reward_address c cl)) (\<lambda>clean_to.
           bindA (liftA (case to_address of
                      None \<Rightarrow> Inr clean_to
                    | Some a \<Rightarrow> normalise_nimiq_address (allow_placeholders c \<or> allow_dev_sends c) a)) (\<lambda>requested.
           if requested \<noteq> clean_to
           then raiseA (ValueError ''claim payout override must equal the immutable claim payout_address'')
           else mapA Sent (submit_recorded_chain_send sv s clean_to amount
                  (build_transaction_description (if draw then ''Prizedraw'' else ''Claim'') (Some (sp_title s)))
                  ''claim_reward'' claim_id
                  (\<lambda>a f t h. create_claim_transaction (cl_recipient cl) claim_id a f t h)))))))"

definition submit_fee_step ::
  "(int \<Rightarrow> send_outcome act) \<Rightarrow> int \<Rightarrow> (int \<times> send_outcome res) list \<Rightarrow> (int \<times> send_outcome res) list act" where
  "submit_fee_step submit spot_id done w =
     (case submit spot_id w of (r, w') \<Rightarrow> (Inr (done @ [(spot_id, r)]), w'))"

fun foldA :: "('x \<Rightarrow> 'a \<Rightarrow> 'a act) \<Rightarrow> 'x list \<Rightarrow> 'a \<Rightarrow> 'a act" where
  "foldA f [] acc = returnA acc"
| "foldA f (x # xs) acc = bindA (f x acc) (\<lambda>acc'. foldA f xs acc')"

text \<open>Every ready Spot is tried; the error of one does not stop the others.\<close>

definition submit_ready_spot_creation_fees :: "services \<Rightarrow> int \<Rightarrow> (int \<times> send_outcome res) list act" where
  "submit_ready_spot_creation_fees sv limit =
     bindA (readA (get_spot_ids_ready_for_creation_fee limit)) (\<lambda>spot_ids.
       foldA (submit_fee_step (submit_spot_creation_fee_transaction sv)) spot_ids [])"

section \<open>Recording a deposit\<close>

definition transaction_by_hash :: "string \<Rightarrow> db \<Rightarrow> trans_row option" where
  "transaction_by_hash tx_hash d = find (\<lambda>t. py_lower (tr_tx_hash t) = py_lower (py_strip tx_hash)) (db_trans d)"

definition same_recorded_deposit :: "trans_row \<Rightarrow> int \<Rightarrow> int \<Rightarrow> bool" where
  "same_recorded_deposit t user_id spot_id \<longleftrightarrow>
     tr_type t = TRANS_TYPE_FILL_SPOT \<and> tr_user_id t = user_id \<and> tr_spot_id t = Some spot_id"

record deposit_result =
  dr_already_recorded :: bool
  dr_trans_id :: int
  dr_amount :: int

definition recorded_before :: "trans_row \<Rightarrow> deposit_result" where
  "recorded_before t = \<lparr>dr_already_recorded = True, dr_trans_id = tr_id t, dr_amount = tr_amount t\<rparr>"

definition record_spot_deposit_transaction ::
  "settings \<Rightarrow> int \<Rightarrow> int \<Rightarrow> int \<Rightarrow> string \<Rightarrow> string \<Rightarrow> string option \<Rightarrow> db \<Rightarrow> (deposit_result \<times> db) res" where
  "record_spot_deposit_transaction c user_id spot_id requested from_address tx_hash to_address d =
    (let clean_hash = py_lower (py_strip tx_hash); hash_is_valid = is_transaction_hash clean_hash;
         existing = (if hash_is_valid then transaction_by_hash clean_hash d else None)
     in case existing of
       Some t \<Rightarrow> if same_recorded_deposit t user_id spot_id then Inr (recorded_before t, d)
         else Inl (ValueError ''this transaction hash is already attached to a different record'')
     | None \<Rightarrow>
       if requested \<le> 0 then Inl (ValueError ''amount must be positive'')
       else (case get_spot spot_id d of
         None \<Rightarrow> Inl (ValueError ''spot does not exist'')
       | Some s \<Rightarrow>
         if sp_status s \<noteq> SPOT_STATUS_DRAFT then Inl (ValueError ''only draft spots can receive creator deposits'')
         else if sp_cancellation_started_at s \<noteq> None
         then Inl (ValueError ''this draft is being cancelled and cannot receive another deposit'')
         else
         bindE (normalise_nimiq_address (allow_placeholders c)
                  (or_text (case to_address of None \<Rightarrow> [] | Some a \<Rightarrow> a) (sp_deposit_address s))) (\<lambda>clean_to.
         bindE (normalise_nimiq_address (allow_placeholders c) from_address) (\<lambda>clean_from.
         bindE (case get_confirmed_spot_funding_address spot_id d of
                  None \<Rightarrow> Inr ()
                | Some funding \<Rightarrow>
                    let established = normalise_address_for_compare c funding in
                    guardE (established \<noteq> None \<and> normalise_address_for_compare c clean_from = established)
                      (ValueError ''Additional deposits for this Spot must come from its original funding wallet.''))
           (\<lambda>_.
         let totals = get_spot_deposit_totals spot_id d;
             amount_due = max 0 (spot_required_deposit_amount s - st_confirmed_amount totals);
             amount = min requested amount_due in
         if 0 < st_pending_amount totals then Inl (ValueError ''this draft already has a pending deposit'')
         else if amount_due \<le> 0 then Inl (ValueError ''this draft is already fully funded'')
         else if \<not> hash_is_valid
         then Inl (ValueError ''tx_hash must be a 64-character hexadecimal Nimiq transaction hash'')
         else (case create_spot_deposit_transaction user_id spot_id amount clean_from clean_hash (Some clean_to) d of
             Inr (i, d') \<Rightarrow>
               Inr (\<lparr>dr_already_recorded = False, dr_trans_id = i, dr_amount = amount\<rparr>, d')
           | Inl (IntegrityError m) \<Rightarrow>
               (case transaction_by_hash clean_hash d of
                  Some t \<Rightarrow> if same_recorded_deposit t user_id spot_id then Inr (recorded_before t, d)
                            else Inl (IntegrityError m)
                | None \<Rightarrow> Inl (IntegrityError m))
           | Inl e \<Rightarrow> Inl e))))))"

section \<open>Settling a pending row\<close>

definition claim_transaction_is_completed_prizedraw_payout :: "trans_row \<Rightarrow> db \<Rightarrow> bool" where
  "claim_transaction_is_completed_prizedraw_payout t d \<longleftrightarrow>
     tr_type t = TRANS_TYPE_CLAIM
     \<and> (case tr_claim_id t of None \<Rightarrow> False
        | Some claim_id \<Rightarrow> (case get_claim claim_id d of None \<Rightarrow> False
            | Some detail \<Rightarrow> (case get_spot (cl_spot_id (cd_claim detail)) d of None \<Rightarrow> False
                | Some s \<Rightarrow> sp_status s = SPOT_STATUS_COMPLETED \<and> is_prizedraw (sp_id s) d)))"

definition rows_total :: "int \<Rightarrow> int \<Rightarrow> trans_row list \<Rightarrow> int" where
  "rows_total trans_type status rows = sum_where tr_amount (\<lambda>t. tr_type t = trans_type \<and> tr_status t = status) rows"

definition is_cancellation_type :: "int \<Rightarrow> bool" where
  "is_cancellation_type ty \<longleftrightarrow> ty = TRANS_TYPE_CANCEL_SPOT \<or> ty = TRANS_TYPE_PLAT_FEE"

definition remaining_cancellable :: "trans_row list \<Rightarrow> int" where
  "remaining_cancellable rows = max 0 (rows_total TRANS_TYPE_FILL_SPOT TRANS_STATUS_CONFIRMED rows
     - rows_total TRANS_TYPE_CLAIM TRANS_STATUS_CONFIRMED rows
     - rows_total TRANS_TYPE_CREATION_FEE TRANS_STATUS_CONFIRMED rows)"

definition finalize_cancelled_spot_if_ready :: "int option \<Rightarrow> db \<Rightarrow> (bool \<times> db) res" where
  "finalize_cancelled_spot_if_ready spot d =
    (case spot of None \<Rightarrow> Inr (False, d) | Some spot_id \<Rightarrow>
    (case get_spot spot_id d of None \<Rightarrow> Inr (False, d) | Some s \<Rightarrow>
     let rows = get_transactions_by_spot spot_id MAX_LIMIT 0 d in
     if sp_status s \<noteq> SPOT_STATUS_DRAFT \<and> sp_status s \<noteq> SPOT_STATUS_PUBLISHED then Inr (False, d)
     else if sp_status s = SPOT_STATUS_PUBLISHED \<and> is_prizedraw spot_id d then Inr (False, d)
     else if \<not> list_ex (\<lambda>t. is_cancellation_type (tr_type t)) rows then Inr (False, d)
     else if list_ex (\<lambda>t. is_cancellation_type (tr_type t) \<and> tr_status t = TRANS_STATUS_PENDING) rows
     then Inr (False, d)
     else if rows_total TRANS_TYPE_CANCEL_SPOT TRANS_STATUS_CONFIRMED rows
             + rows_total TRANS_TYPE_PLAT_FEE TRANS_STATUS_CONFIRMED rows < remaining_cancellable rows
     then Inr (False, d)
     else bindE (set_spot_status_to_cancelled spot_id d) (\<lambda>d'. Inr (True, d'))))"

text \<open>The confirmed sender of a deposit differs from the wallet that funded the Spot first.\<close>

definition funding_mismatch :: "settings \<Rightarrow> trans_row \<Rightarrow> verified_details \<Rightarrow> db \<Rightarrow> bool" where
  "funding_mismatch c t v d \<longleftrightarrow> tr_type t = TRANS_TYPE_FILL_SPOT
     \<and> (case tr_spot_id t of None \<Rightarrow> False
        | Some spot_id \<Rightarrow> (case get_confirmed_spot_funding_address spot_id d of None \<Rightarrow> False
            | Some funding \<Rightarrow>
                let established = normalise_address_for_compare c funding in
                established = None
                \<or> normalise_address_for_compare c (case vd_from v of None \<Rightarrow> [] | Some a \<Rightarrow> a) \<noteq> established))"

record mark_result =
  mr_confirmed :: bool
  mr_reason :: string
  mr_cancelled_finalized :: bool

definition confirm_status :: "int \<Rightarrow> int option \<Rightarrow> db \<Rightarrow> db res" where
  "confirm_status trans_id block_number = (case block_number of
     None \<Rightarrow> modify_transaction_status trans_id TRANS_STATUS_CONFIRMED
   | Some b \<Rightarrow> set_transaction_status_to_confirmed trans_id b)"

text \<open>A Prizedraw winner stays PENDING until the payout transaction confirms.\<close>

definition settle_winner :: "bool \<Rightarrow> int option \<Rightarrow> db \<Rightarrow> db res" where
  "settle_winner completed_prizedraw_payout claim d = (case claim of
     Some claim_id \<Rightarrow> if completed_prizedraw_payout then set_claim_status_to_success claim_id d else Inr d
   | None \<Rightarrow> Inr d)"

definition mark_trans_as_confirmed ::
  "settings \<Rightarrow> trans_row \<Rightarrow> int option \<Rightarrow> verified_details option \<Rightarrow> db \<Rightarrow> (mark_result \<times> db) res" where
  "mark_trans_as_confirmed c t block_number verified d =
    (let completed_prizedraw_payout = claim_transaction_is_completed_prizedraw_payout t d;
         proof_ok = (case verified of None \<Rightarrow> False | Some v \<Rightarrow> vd_ok v);
         mismatch = (case verified of None \<Rightarrow> False | Some v \<Rightarrow> vd_ok v \<and> funding_mismatch c t v d)
     in bindE (case verified of None \<Rightarrow> Inr d
          | Some v \<Rightarrow> if proof_ok then update_transaction_chain_details (tr_id t)
              \<lparr>ch_tx_hash = None, ch_from_address = vd_from v, ch_to_address = vd_to v,
               ch_amount = vd_amount v, ch_block_number = block_number\<rparr> d else Inr d) (\<lambda>d1.
        if mismatch
        then bindE (set_transaction_status_to_failed (tr_id t) d1) (\<lambda>d2.
          Inr (\<lparr>mr_confirmed = False, mr_reason = ''confirmed deposit used a different wallet'',
            mr_cancelled_finalized = False\<rparr>, d2))
        else bindE (confirm_status (tr_id t) block_number d1) (\<lambda>d2.
          bindE (settle_winner completed_prizedraw_payout (tr_claim_id t) d2) (\<lambda>d3.
          bindE (finalize_cancelled_spot_if_ready (tr_spot_id t) d3) (\<lambda>(finalized, d4).
          Inr (\<lparr>mr_confirmed = True, mr_reason = [], mr_cancelled_finalized = finalized\<rparr>, d4))))))"

definition mark_trans_as_failed :: "trans_row \<Rightarrow> string \<Rightarrow> db \<Rightarrow> (mark_result \<times> db) res" where
  "mark_trans_as_failed t reason d =
     bindE (set_transaction_status_to_failed (tr_id t) d) (\<lambda>d1.
     bindE (finalize_cancelled_spot_if_ready (tr_spot_id t) d1) (\<lambda>(finalized, d2).
     Inr (\<lparr>mr_confirmed = False, mr_reason = reason, mr_cancelled_finalized = finalized\<rparr>, d2)))"

section \<open>One pass over the pending rows\<close>

datatype check_outcome = Finalised mark_result | StillPending | Unresolved string

definition uncertain_proof :: "string \<Rightarrow> bool" where
  "uncertain_proof reason \<longleftrightarrow> verification_failed_because_unstructured reason
     \<or> contains ''proof failed'' (py_lower reason)
     \<or> contains ''not found in expected address transaction history'' (py_lower reason)"

definition settle_checked :: "services \<Rightarrow> trans_row \<Rightarrow> chain_status \<Rightarrow> check_outcome act" where
  "settle_checked sv t st = (case st_status st of
     Confirmed \<Rightarrow>
       bindA (liftA (verify_chain_details_for_record (sv_http sv) (sv_settings sv) t st)) (\<lambda>v.
       let reason = or_text (vd_reason v) ''confirmed transaction details could not be verified'' in
       if vd_ok v
       then mapA Finalised (in_transaction (mark_trans_as_confirmed (sv_settings sv) t (st_block st) (Some v)))
       else if is_server_initiated_transaction t \<or> uncertain_proof reason then returnA (Unresolved reason)
       else mapA Finalised (in_transaction (mark_trans_as_failed t reason)))
   | Failed \<Rightarrow> mapA Finalised (in_transaction (mark_trans_as_failed t (st_reason st)))
   | Unknown \<Rightarrow> returnA (Unresolved (st_reason st))
   | Pending \<Rightarrow> returnA StillPending)"

definition check_and_settle :: "services \<Rightarrow> trans_row \<Rightarrow> check_outcome act" where
  "check_and_settle sv t = bindA (\<lambda>w. (check_pending_transaction (sv_http sv) (sv_settings sv) (db_now (wd_db w)) t, w))
     (settle_checked sv t)"

text \<open>
  \<open>pending\<close> are the rows the cache hands out: a copy that may be behind the
  database. The fee pass runs after them.
\<close>

definition check_pending_transactions ::
  "services \<Rightarrow> trans_row list \<Rightarrow> ((int \<times> check_outcome) list \<times> (int \<times> send_outcome res) list) act" where
  "check_pending_transactions sv pending =
     bindA (foldA (\<lambda>t done. bindA (check_and_settle sv t) (\<lambda>r. returnA (done @ [(tr_id t, r)]))) pending [])
       (\<lambda>checked. bindA (submit_ready_spot_creation_fees sv 50) (\<lambda>fees. returnA (checked, fees)))"

end
