(* ===== verification/OutboxProps.thy ===== *)
theory OutboxProps
  imports Payments TransProps ClaimFacts
begin

text \<open>
  What the outbox guarantees: a row is committed before its request goes out and
  survives every failure after it; each row is requested at most once; two
  requests for one obligation need the earlier row to have failed.
\<close>

section \<open>Safe steps\<close>

named_theorems safe \<open>steps that keep the outbox consistent\<close>

definition outbox_ok :: "world \<Rightarrow> bool" where
  "outbox_ok w \<longleftrightarrow> db_ok (wd_db w) \<and> distinct (map fst (wd_sent w))
     \<and> set (map fst (wd_sent w)) \<subseteq> tr_id ` set (db_trans (wd_db w))"

definition world_step :: "world \<Rightarrow> world \<Rightarrow> bool" where
  "world_step w w' \<longleftrightarrow> (outbox_ok w \<longrightarrow> outbox_ok w' \<and> ledger_grows (wd_db w) (wd_db w')
     \<and> (\<exists>more. wd_sent w' = wd_sent w @ more))"

definition safe_act :: "'a act \<Rightarrow> bool" where
  "safe_act m \<longleftrightarrow> (\<forall>w. world_step w (snd (m w)))"

definition safe_write :: "(db \<Rightarrow> ('a \<times> db) res) \<Rightarrow> bool" where
  "safe_write f \<longleftrightarrow> (\<forall>d x d'. f d = Inr (x, d') \<longrightarrow> db_ok d \<longrightarrow> db_ok d' \<and> ledger_grows d d')"

lemma world_step_refl [simp]: "world_step w w"
  by (simp add: world_step_def)

lemma world_step_trans:
  assumes "world_step w w1" and "world_step w1 w2"
  shows "world_step w w2"
  unfolding world_step_def
proof
  assume "outbox_ok w"
  with assms(1) obtain m1 where 1: "outbox_ok w1" "ledger_grows (wd_db w) (wd_db w1)" "wd_sent w1 = wd_sent w @ m1"
    by (auto simp: world_step_def)
  with assms(2) obtain m2 where 2: "outbox_ok w2" "ledger_grows (wd_db w1) (wd_db w2)" "wd_sent w2 = wd_sent w1 @ m2"
    by (auto simp: world_step_def)
  show "outbox_ok w2 \<and> ledger_grows (wd_db w) (wd_db w2) \<and> (\<exists>more. wd_sent w2 = wd_sent w @ more)"
    using 1 2 ledger_grows_trans by auto
qed

lemma ledger_ids:
  assumes "ledger_grows d d'" and "i \<in> tr_id ` set (db_trans d)"
  shows "i \<in> tr_id ` set (db_trans d')"
proof -
  obtain t where t: "t \<in> set (db_trans d)" "i = tr_id t" using assms(2) by auto
  then obtain t' where t': "t' \<in> set (db_trans d')" "trans_step t t'"
    using assms(1) unfolding ledger_grows_def by blast
  have "i = tr_id t'" using t(2) t'(2) by (simp add: trans_step_def)
  then show ?thesis using t'(1) by simp
qed

lemma safe_return [safe]: "safe_act (returnA x)"
  and safe_raise [safe]: "safe_act (raiseA e)"
  and safe_lift [safe]: "safe_act (liftA r)"
  and safe_read [safe]: "safe_act (readA g)"
  by (simp_all add: safe_act_def returnA_def raiseA_def liftA_def readA_def)

lemma safe_bind [safe]: "safe_act m \<Longrightarrow> (\<And>x. safe_act (k x)) \<Longrightarrow> safe_act (bindA m k)"
  unfolding safe_act_def bindA_def
  by (auto split: prod.split sum.split) (metis snd_conv world_step_trans)+

lemma safe_catch [safe]: "safe_act m \<Longrightarrow> (\<And>e. safe_act (h e)) \<Longrightarrow> safe_act (catchA m h)"
  unfolding safe_act_def catchA_def
  by (auto split: prod.split sum.split) (metis snd_conv world_step_trans)+

lemma safe_map [safe]: "safe_act m \<Longrightarrow> safe_act (mapA f m)"
  unfolding mapA_def by (intro safe)

lemma safe_bind_spot [safe]: "(\<And>s. safe_act (k s)) \<Longrightarrow> safe_act (bind_spot i k)"
  unfolding bind_spot_def by (rule safe_bind [OF safe_read]) (auto intro: safe split: option.split)

lemma safe_if [safe]: "(b \<Longrightarrow> safe_act m) \<Longrightarrow> (\<not> b \<Longrightarrow> safe_act n) \<Longrightarrow> safe_act (if b then m else n)"
  by simp

lemma safe_option [safe]:
  "(v = None \<Longrightarrow> safe_act m) \<Longrightarrow> (\<And>x. v = Some x \<Longrightarrow> safe_act (k x)) \<Longrightarrow>
   safe_act (case v of None \<Rightarrow> m | Some x \<Rightarrow> k x)"
  by (simp split: option.split)

lemma safe_pair [safe]: "(\<And>x y. p = (x, y) \<Longrightarrow> safe_act (k x y)) \<Longrightarrow> safe_act (case p of (x, y) \<Rightarrow> k x y)"
  by (simp split: prod.split)

lemma safe_let [safe]: "(\<And>x. x = v \<Longrightarrow> safe_act (k x)) \<Longrightarrow> safe_act (let x = v in k x)"
  by simp

lemma safe_fold [safe]: "(\<And>x acc. safe_act (f x acc)) \<Longrightarrow> safe_act (foldA f xs acc)"
  by (induction xs arbitrary: acc) (auto intro: safe)

lemma safe_transaction [safe]:
  assumes "safe_write f" shows "safe_act (in_transaction f)"
proof -
  have "world_step w (w\<lparr>wd_db := d'\<rparr>)" if "f (wd_db w) = Inr (x, d')" for w x d'
    using assms that ledger_ids [of "wd_db w" d'] unfolding safe_write_def world_step_def outbox_ok_def
    by (auto simp: subset_iff)
  then show ?thesis by (auto simp: safe_act_def in_transaction_def split: sum.split)
qed

lemma world_step_draw [simp]: "world_step w (w\<lparr>wd_draws := n\<rparr>)"
  by (simp add: world_step_def outbox_ok_def)

section \<open>Intent creators\<close>

text \<open>The row an insert left behind: fresh and pending.\<close>

definition new_intent :: "int \<Rightarrow> string \<Rightarrow> db \<Rightarrow> int \<Rightarrow> db \<Rightarrow> trans_row \<Rightarrow> bool" where
  "new_intent a h d i d' r \<longleftrightarrow> db_ok d' \<and> ledger_grows d d' \<and> i \<notin> tr_id ` set (db_trans d)
     \<and> r \<in> set (db_trans d') \<and> tr_id r = i \<and> tr_status r = TRANS_STATUS_PENDING \<and> tr_amount r = a
     \<and> tr_tx_hash r = h"

text \<open>
  What \<open>submit_recorded_chain_send\<close> relies on: a successful \<open>create\<close> leaves one
  fresh pending row with the given amount and hash; the exact creators also store
  the given parties.
\<close>

locale intent_creator =
  fixes create :: "int \<Rightarrow> string \<Rightarrow> string \<Rightarrow> string \<Rightarrow> db \<Rightarrow> (int \<times> db) res"
  assumes creates: "create a f t h d = Inr (i, d') \<Longrightarrow> db_ok d \<Longrightarrow> \<exists>r. new_intent a h d i d' r"
begin

lemma created_step: "create a f t h d = Inr (i, d') \<Longrightarrow> db_ok d \<Longrightarrow> db_ok d' \<and> ledger_grows d d'"
  using creates unfolding new_intent_def by blast

lemma created_ids:
  "create a f t h d = Inr (i, d') \<Longrightarrow> db_ok d \<Longrightarrow> i \<in> tr_id ` set (db_trans d') \<and> i \<notin> tr_id ` set (db_trans d)"
  using creates unfolding new_intent_def by blast

end

locale exact_intent = intent_creator +
  assumes parties: "create a f t h d = Inr (i, d') \<Longrightarrow> r \<in> set (db_trans d') \<Longrightarrow> tr_id r = i \<Longrightarrow> db_ok d \<Longrightarrow>
    tr_from_address r = f \<and> tr_to_address r = t"

section \<open>The recorded send\<close>

definition dev_hash :: "string \<Rightarrow> bool" where
  "dev_hash h \<longleftrightarrow> take 7 h = ''devsend''"

lemma chain_send_cases:
  assumes "submit_chain_send_from_spot_deposit sv i s t a memo w = (r, w')"
  obtains "w' = w" "\<exists>e. r = Inl e"
  | n where "w' = w\<lparr>wd_draws := n\<rparr>" "\<not> sv_command sv"
      "\<exists>y. r = Inr y \<and> dev_hash (su_tx_hash y)"
  | rq where "build_send_request sv s t a memo = Inr rq" "w' = w\<lparr>wd_sent := wd_sent w @ [(i, rq)]\<rparr>" "sv_command sv"
proof (cases "build_send_request sv s t a memo")
  case (Inl e)
  then show thesis using assms by (intro that(1)) (auto simp: submit_chain_send_from_spot_deposit_def)
next
  case (Inr rq)
  consider "sv_command sv" | "\<not> sv_command sv" "allow_dev_sends (sv_settings sv)"
    | "\<not> sv_command sv" "\<not> allow_dev_sends (sv_settings sv)" by blast
  then show thesis
  proof cases
    case 1
    then show thesis using assms Inr by (intro that(3)) (auto simp: submit_chain_send_from_spot_deposit_def)
  next
    case 2
    then show thesis using assms Inr by (intro that(2)) (auto simp: submit_chain_send_from_spot_deposit_def dev_hash_def)
  next
    case 3
    then show thesis using assms Inr by (intro that(1)) (auto simp: submit_chain_send_from_spot_deposit_def)
  qed
qed

definition details_of :: "submitted \<Rightarrow> chain_details" where
  "details_of x = \<lparr>ch_tx_hash = Some (su_tx_hash x), ch_from_address = Some (su_from x),
     ch_to_address = Some (su_to x), ch_amount = Some (su_amount x), ch_block_number = None\<rparr>"

lemma recorded_send_cases:
  fixes x :: submitted
  assumes "submit_recorded_chain_send sv s to_addr a memo k p create w = (r, w')"
  obtains (refused) "wd_db w' = wd_db w" "wd_sent w' = wd_sent w" "\<exists>e. r = Inl e"
  | (intent) i d1 f t h sent where "0 < a"
      "validate_nimiq_address (sv_settings sv) (sp_deposit_address s) = Inr f"
      "validate_nimiq_address (sv_settings sv) to_addr = Inr t"
      "h = make_local_intent_hash k p (sv_token sv (wd_draws w))"
      "create a f t h (wd_db w) = Inr (i, d1)"
      "wd_sent w' = wd_sent w @ sent"
      "sent = [] \<or> (\<exists>rq. build_send_request sv s t a memo = Inr rq \<and> sent = [(i, rq)] \<and> sv_command sv)"
      "wd_db w' = d1 \<and> (\<exists>e. r = Inl e)
       \<or> (\<exists>y x. validate_submitted_chain_send (sv_settings sv) f t a y = Inr x
           \<and> (sent = [] \<longrightarrow> dev_hash (su_tx_hash y))
           \<and> update_transaction_chain_details i (details_of x) d1 = Inr (wd_db w')
           \<and> r = Inr \<lparr>sr_trans_id = i, sr_amount = su_amount x, sr_to = su_to x, sr_from = su_from x,
                sr_tx_hash = su_tx_hash x, sr_intent_hash = h\<rparr>)"
proof -
  let ?c = "sv_settings sv"
  let ?h = "make_local_intent_hash k p (sv_token sv (wd_draws w))"
  let ?w = "w\<lparr>wd_draws := Suc (wd_draws w)\<rparr>"
  show thesis
  proof (cases "0 < a \<and> (\<exists>f t i d1. validate_nimiq_address ?c (sp_deposit_address s) = Inr f
      \<and> validate_nimiq_address ?c to_addr = Inr t \<and> create a f t ?h (wd_db w) = Inr (i, d1))")
    case False
    then show thesis using assms unfolding submit_recorded_chain_send_def Let_def
      by (intro refused) (auto simp: bindA_def in_transaction_def split: if_split_asm sum.split_asm prod.split_asm)
  next
    case True
    then obtain f t i d1 where pre: "0 < a" "validate_nimiq_address ?c (sp_deposit_address s) = Inr f"
      "validate_nimiq_address ?c to_addr = Inr t" "create a f t ?h (wd_db w) = Inr (i, d1)" by blast
    let ?w1 = "?w\<lparr>wd_db := d1\<rparr>"
    obtain r1 w2 where send: "submit_chain_send_from_spot_deposit sv i s t a memo ?w1 = (r1, w2)" by fastforce
    have db2: "wd_db w2 = d1" by (rule chain_send_cases [OF send]) simp_all
    obtain sent where sent: "wd_sent w2 = wd_sent w @ sent"
      "sent = [] \<or> (\<exists>rq. build_send_request sv s t a memo = Inr rq \<and> sent = [(i, rq)] \<and> sv_command sv)"
      "sent = [] \<longrightarrow> (\<forall>y. r1 = Inr y \<longrightarrow> dev_hash (su_tx_hash y))"
      by (rule chain_send_cases [OF send]) fastforce+
    have run: "(r, w') = (case r1 of Inl e \<Rightarrow> (Inl (RuntimeError ''Chain send did not return a usable transaction hash''), w2)
      | Inr y \<Rightarrow> (case validate_submitted_chain_send ?c f t a y of
          Inl e \<Rightarrow> (Inl (RuntimeError ''Chain send did not return a usable transaction hash''), w2)
        | Inr x \<Rightarrow> (case update_transaction_chain_details i (details_of x) d1 of
            Inl e \<Rightarrow> (Inl e, w2)
          | Inr d2 \<Rightarrow> (Inr \<lparr>sr_trans_id = i, sr_amount = su_amount x, sr_to = su_to x, sr_from = su_from x,
                sr_tx_hash = su_tx_hash x, sr_intent_hash = ?h\<rparr>, w2\<lparr>wd_db := d2\<rparr>))))" (is "_ = ?rhs")
    proof -
      note d = submit_recorded_chain_send_def Let_def bindA_def in_transaction_def catchA_def liftA_def raiseA_def
        returnA_def commit_db_def details_of_def
      have eq: "(r, w') = submit_recorded_chain_send sv s to_addr a memo k p create w" using assms by simp
      show ?thesis unfolding eq
      proof (cases r1)
        case (Inl e)
        then show "submit_recorded_chain_send sv s to_addr a memo k p create w = ?rhs"
          using pre send by (simp add: d)
      next
        case (Inr y)
        then show "submit_recorded_chain_send sv s to_addr a memo k p create w = ?rhs"
          using pre send db2
          by (cases "validate_submitted_chain_send ?c f t a y"; cases "update_transaction_chain_details i (details_of (projr (validate_submitted_chain_send ?c f t a y))) d1") (simp_all add: d)
      qed
    qed
    show thesis
    proof (rule intent [OF pre(1-3) refl pre(4) _ sent(2)])
      show "wd_sent w' = wd_sent w @ sent" using run sent(1) by (auto split: sum.splits)
      show "wd_db w' = d1 \<and> (\<exists>e. r = Inl e)
       \<or> (\<exists>y x. validate_submitted_chain_send (sv_settings sv) f t a y = Inr x
           \<and> (sent = [] \<longrightarrow> dev_hash (su_tx_hash y))
           \<and> update_transaction_chain_details i (details_of x) d1 = Inr (wd_db w')
           \<and> r = Inr \<lparr>sr_trans_id = i, sr_amount = su_amount x, sr_to = su_to x, sr_from = su_from x,
                sr_tx_hash = su_tx_hash x, sr_intent_hash = ?h\<rparr>)"
      proof (cases r1)
        case (Inr y)
        then show ?thesis using run sent(3) db2
          by (cases "validate_submitted_chain_send ?c f t a y"; cases "update_transaction_chain_details i (details_of (projr (validate_submitted_chain_send ?c f t a y))) d1") auto
      qed (use run db2 in simp)
    qed
  qed
qed

lemma outbox_ok_extend:
  assumes "outbox_ok w" and "db_ok (wd_db w')" and m: "wd_sent w' = wd_sent w @ sent"
    and ids: "set (map fst (wd_sent w)) \<subseteq> tr_id ` set (db_trans (wd_db w'))"
    and s: "map fst sent = [] \<or> map fst sent = [i]"
    and i: "i \<in> tr_id ` set (db_trans (wd_db w'))" "i \<notin> fst ` set (wd_sent w)"
  shows "outbox_ok w'"
proof -
  have e: "map fst (wd_sent w') = map fst (wd_sent w) @ map fst sent" by (simp add: m)
  have d: "distinct (map fst (wd_sent w))" using assms(1) by (simp add: outbox_ok_def)
  from s show ?thesis
  proof
    assume n: "map fst sent = []"
    show ?thesis unfolding outbox_ok_def e n using assms(2) d ids by simp
  next
    assume n: "map fst sent = [i]"
    have "i \<notin> set (map fst (wd_sent w))" using i(2) by simp
    then show ?thesis unfolding outbox_ok_def e n using assms(2) d ids i(1) by simp
  qed
qed

context intent_creator begin

lemma update_details_step:
  "db_ok d1 \<Longrightarrow> update_transaction_chain_details i c d1 = Inr d2 \<Longrightarrow> db_ok d2 \<and> ledger_grows d1 d2"
  using details_ok by blast

lemma safe_recorded_send: "safe_act (submit_recorded_chain_send sv s to_addr a memo k p create)"
  unfolding safe_act_def
proof
  fix w
  obtain r w' where run: "submit_recorded_chain_send sv s to_addr a memo k p create w = (r, w')" by fastforce
  have "world_step w w'"
  proof (rule recorded_send_cases [OF run])
    assume "wd_db w' = wd_db w" "wd_sent w' = wd_sent w"
    then show ?thesis by (simp add: world_step_def outbox_ok_def)
  next
    fix i d1 f t h sent
    assume c: "create a f t h (wd_db w) = Inr (i, d1)" and more: "wd_sent w' = wd_sent w @ sent"
      and sent: "sent = [] \<or> (\<exists>rq. build_send_request sv s t a memo = Inr rq \<and> sent = [(i, rq)] \<and> sv_command sv)"
      and fin: "wd_db w' = d1 \<and> (\<exists>e. r = Inl e)
       \<or> (\<exists>y x. validate_submitted_chain_send (sv_settings sv) f t a y = Inr x
           \<and> (sent = [] \<longrightarrow> dev_hash (su_tx_hash y))
           \<and> update_transaction_chain_details i (details_of x) d1 = Inr (wd_db w')
           \<and> r = Inr \<lparr>sr_trans_id = i, sr_amount = su_amount x, sr_to = su_to x, sr_from = su_from x,
                sr_tx_hash = su_tx_hash x, sr_intent_hash = h\<rparr>)"
    show ?thesis
      unfolding world_step_def
    proof
      assume ok: "outbox_ok w"
      then have d: "db_ok (wd_db w)" by (simp add: outbox_ok_def)
      note c1 = created_step [OF c d] created_ids [OF c d]
      have d': "db_ok (wd_db w') \<and> ledger_grows d1 (wd_db w')"
        using fin c1 update_details_step [of d1 i _ "wd_db w'"] by auto
      have grow: "ledger_grows (wd_db w) (wd_db w')" using c1 d' ledger_grows_trans by blast
      have new: "i \<in> tr_id ` set (db_trans (wd_db w'))"
        using c1 d' ledger_ids by blast
      have fresh: "i \<notin> fst ` set (wd_sent w)" using ok c1 by (auto simp: outbox_ok_def)
      have "set (map fst (wd_sent w)) \<subseteq> tr_id ` set (db_trans (wd_db w'))"
        using ok ledger_ids [OF grow] unfolding outbox_ok_def by blast
      moreover have "map fst sent = [] \<or> map fst sent = [i]" using sent by auto
      ultimately have "outbox_ok w'"
        using d' new fresh ok by (intro outbox_ok_extend [of w w' sent i]) (simp_all add: more outbox_ok_def)
      then show "outbox_ok w' \<and> ledger_grows (wd_db w) (wd_db w') \<and> (\<exists>more. wd_sent w' = wd_sent w @ more)"
        using grow more by blast
    qed
  qed
  then show "world_step w (snd (submit_recorded_chain_send sv s to_addr a memo k p create w))" by (simp add: run)
qed

end

lemma create_transaction_row:
  assumes "create_transaction u ty a f t h s c d = Inr (i, d')"
  shows "i \<notin> tr_id ` set (db_trans d)"
    and "\<exists>r. db_trans d' = db_trans d @ [r] \<and> tr_id r = i \<and> tr_status r = TRANS_STATUS_PENDING
      \<and> tr_amount r = a \<and> tr_tx_hash r = h \<and> tr_from_address r = f \<and> tr_to_address r = t
      \<and> tr_type r = ty \<and> tr_spot_id r = s \<and> tr_claim_id r = c \<and> tr_user_id r = u"
proof -
  note c = insert_trans_Inr(1,2) [OF assms [unfolded create_transaction_def]]
  show "i \<notin> tr_id ` set (db_trans d)" by (rule c(2))
  show "\<exists>r. db_trans d' = db_trans d @ [r] \<and> tr_id r = i \<and> tr_status r = TRANS_STATUS_PENDING
      \<and> tr_amount r = a \<and> tr_tx_hash r = h \<and> tr_from_address r = f \<and> tr_to_address r = t
      \<and> tr_type r = ty \<and> tr_spot_id r = s \<and> tr_claim_id r = c \<and> tr_user_id r = u"
    by (simp add: c(1))
qed

lemma create_transaction_creates:
  assumes "create_transaction u ty a f t h s c d = Inr (i, d')" and "db_ok d"
  shows "\<exists>r. new_intent a h d i d' r"
proof -
  obtain r where "db_trans d' = db_trans d @ [r]" "tr_id r = i" "tr_status r = TRANS_STATUS_PENDING"
      "tr_amount r = a" "tr_tx_hash r = h"
    using create_transaction_row(2) [OF assms(1)] by blast
  then show ?thesis
    using create_transaction_ok [OF assms] create_transaction_row(1) [OF assms(1)]
    unfolding new_intent_def by (intro exI [of _ r]) simp
qed

lemma create_transaction_parties:
  assumes "create_transaction u ty a f t h s c d = Inr (i, d')" and "r \<in> set (db_trans d')" and "tr_id r = i"
  shows "tr_from_address r = f \<and> tr_to_address r = t \<and> tr_type r = ty \<and> tr_spot_id r = s \<and> tr_claim_id r = c"
proof -
  obtain r' where r': "db_trans d' = db_trans d @ [r']" "tr_from_address r' = f \<and> tr_to_address r' = t
      \<and> tr_type r' = ty \<and> tr_spot_id r' = s \<and> tr_claim_id r' = c"
    using create_transaction_row(2) [OF assms(1)] by blast
  have "r = r'" using assms(2,3) r'(1) create_transaction_row(1) [OF assms(1)] by auto
  then show ?thesis using r'(2) by simp
qed

lemma create_claim_Inr:
  assumes "create_claim_transaction u cl a f t h d = Inr (i, d')"
  shows "\<exists>s. create_transaction u TRANS_TYPE_CLAIM a f t h s (Some cl) d = Inr (i, d')"
  using assms unfolding create_claim_transaction_def by (auto simp: create_once_Inr split: option.split_asm)

interpretation fee_intent: exact_intent "\<lambda>a f t h. create_platform_fee_transaction u a f t h sp cl" for u sp cl
  unfolding create_platform_fee_transaction_def
  by unfold_locales (rule create_transaction_creates, assumption+, use create_transaction_parties in blast)

interpretation refund_intent: exact_intent "\<lambda>a f t h. create_spot_refund_transaction u sp a f t h" for u sp
  unfolding create_spot_refund_transaction_def
  by unfold_locales (rule create_transaction_creates, assumption+, use create_transaction_parties in blast)

interpretation remainder_intent: exact_intent "\<lambda>a f t h. create_spot_remainder_refund_transaction u sp a f t h" for u sp
  unfolding create_spot_remainder_refund_transaction_def
proof unfold_locales
  fix a f t h d i d' r
  assume "create_once (has_nonfailed_spot_remainder_refund_transaction sp)
      ''Spot already has a non-failed remainder refund transaction''
      (create_transaction u TRANS_TYPE_REMAINDER_REFUND a f t h (Some sp) None) d = Inr (i, d')"
  then have c: "create_transaction u TRANS_TYPE_REMAINDER_REFUND a f t h (Some sp) None d = Inr (i, d')"
    unfolding create_once_Inr by simp
  show "db_ok d \<Longrightarrow> \<exists>r. new_intent a h d i d' r" by (rule create_transaction_creates [OF c])
  show "r \<in> set (db_trans d') \<Longrightarrow> tr_id r = i \<Longrightarrow> tr_from_address r = f \<and> tr_to_address r = t"
    using create_transaction_parties [OF c] by blast
qed

interpretation payout_intent: exact_intent "\<lambda>a f t h. create_claim_transaction u cl a f t h" for u cl
proof unfold_locales
  fix a f t h d i d' r
  assume "create_claim_transaction u cl a f t h d = Inr (i, d')"
  then obtain s where c: "create_transaction u TRANS_TYPE_CLAIM a f t h s (Some cl) d = Inr (i, d')"
    using create_claim_Inr by blast
  show "db_ok d \<Longrightarrow> \<exists>r. new_intent a h d i d' r" by (rule create_transaction_creates [OF c])
  show "r \<in> set (db_trans d') \<Longrightarrow> tr_id r = i \<Longrightarrow> tr_from_address r = f \<and> tr_to_address r = t"
    using create_transaction_parties [OF c] by blast
qed

interpretation creation_fee_intent: intent_creator
  "\<lambda>a f t h. create_spot_creation_fee_transaction dev u sp a f t h" for dev u sp
proof unfold_locales
  fix a f t h d i d'
  assume "create_spot_creation_fee_transaction dev u sp a f t h d = Inr (i, d')" and ok: "db_ok d"
  then obtain ef et where "create_transaction u TRANS_TYPE_CREATION_FEE a ef et h (Some sp) None d = Inr (i, d')"
    by (auto elim: creation_fee_cases)
  then show "\<exists>r. new_intent a h d i d' r" by (rule create_transaction_creates [OF _ ok])
qed

section \<open>Every payment operation is safe\<close>

lemma ledger_same: "db_trans d' = db_trans d \<Longrightarrow> ledger_grows d d'"
  by (auto simp: ledger_grows_def trans_step_def)

definition step_ok :: "db \<Rightarrow> db \<Rightarrow> bool" where
  "step_ok d d' \<longleftrightarrow> (db_ok d \<longrightarrow> db_ok d' \<and> ledger_grows d d')"

lemma step_ok_refl [simp]: "step_ok d d"
  by (simp add: step_ok_def)

lemma step_ok_trans: "step_ok d d1 \<Longrightarrow> step_ok d1 d2 \<Longrightarrow> step_ok d d2"
  unfolding step_ok_def using ledger_grows_trans by blast

lemma safe_writeI: "(\<And>d x d'. f d = Inr (x, d') \<Longrightarrow> step_ok d d') \<Longrightarrow> safe_write f"
  unfolding safe_write_def step_ok_def by blast

lemma details_step: "update_transaction_chain_details i c d = Inr d' \<Longrightarrow> step_ok d d'"
  unfolding step_ok_def using details_ok by blast

lemma failed_step: "set_transaction_status_to_failed i d = Inr d' \<Longrightarrow> step_ok d d'"
  unfolding step_ok_def using trans_op_ok trans_op.fail by blast

lemma confirm_step: "confirm_status i b d = Inr d' \<Longrightarrow> step_ok d d'"
  unfolding step_ok_def confirm_status_def
  using trans_op_ok [OF trans_op.status] trans_op_ok [OF trans_op.confirm] by (auto split: option.split_asm)

lemma spot_status_step: "modify_spot_status s st d = Inr d' \<Longrightarrow> step_ok d d'"
proof -
  assume m: "modify_spot_status s st d = Inr d'"
  then have "update_spots False True (\<lambda>r. sp_id r = s) (\<lambda>r. r\<lparr>sp_status := st\<rparr>) d = Inr d'"
    by (auto simp: modify_spot_status_def Let_def)
  from update_spots_Inr(2) [OF this] have "db_trans d' = db_trans d" by simp
  then show ?thesis unfolding step_ok_def using modify_spot_status_ok [OF m] ledger_same by blast
qed

lemma claim_status_step: "modify_claim_status k st d = Inr d' \<Longrightarrow> step_ok d d'"
  unfolding step_ok_def using modify_claim_status_Inr(1,2) [of k st d d'] ledger_same
  by (auto simp: claim_frame_def)

lemma winner_step: "settle_winner b k d = Inr d' \<Longrightarrow> step_ok d d'"
  unfolding settle_winner_def set_claim_status_to_success_def
  by (auto intro: claim_status_step split: option.split_asm if_split_asm)

lemma finalize_step: "finalize_cancelled_spot_if_ready sp d = Inr (b, d') \<Longrightarrow> step_ok d d'"
  unfolding finalize_cancelled_spot_if_ready_def set_spot_status_to_cancelled_def
  by (auto simp: Let_def intro: spot_status_step split: option.split_asm if_split_asm elim!: bindE_InrE)

lemma mark_failed_step: "mark_trans_as_failed t reason d = Inr (x, d') \<Longrightarrow> step_ok d d'"
  unfolding mark_trans_as_failed_def
  by (auto elim!: bindE_InrE intro: step_ok_trans failed_step finalize_step)

lemma mark_confirmed_cases:
  assumes "mark_trans_as_confirmed c t b v d = Inr (x, d')"
  obtains d1 where "v = None \<or> \<not> vd_ok (the v) \<and> d1 = d
      \<or> vd_ok (the v) \<and> update_transaction_chain_details (tr_id t) \<lparr>ch_tx_hash = None, ch_from_address = vd_from (the v),
          ch_to_address = vd_to (the v), ch_amount = vd_amount (the v), ch_block_number = b\<rparr> d = Inr d1"
    "v = None \<longrightarrow> d1 = d"
    "(v \<noteq> None \<and> vd_ok (the v) \<and> funding_mismatch c t (the v) d \<and> \<not> mr_confirmed x
       \<and> set_transaction_status_to_failed (tr_id t) d1 = Inr d')
     \<or> (\<not> (v \<noteq> None \<and> vd_ok (the v) \<and> funding_mismatch c t (the v) d) \<and> mr_confirmed x
        \<and> (\<exists>d2 d3. confirm_status (tr_id t) b d1 = Inr d2
          \<and> settle_winner (claim_transaction_is_completed_prizedraw_payout t d) (tr_claim_id t) d2 = Inr d3
          \<and> finalize_cancelled_spot_if_ready (tr_spot_id t) d3 = Inr (mr_cancelled_finalized x, d')))"
  using assms unfolding mark_trans_as_confirmed_def Let_def
  by (cases v) (auto elim!: bindE_InrE split: if_split_asm)

lemma mark_confirmed_step:
  assumes "mark_trans_as_confirmed c t b v d = Inr (x, d')"
  shows "step_ok d d'"
proof -
  from assms obtain d1 where v: "v = None \<or> \<not> vd_ok (the v) \<and> d1 = d
      \<or> vd_ok (the v) \<and> update_transaction_chain_details (tr_id t) \<lparr>ch_tx_hash = None, ch_from_address = vd_from (the v),
          ch_to_address = vd_to (the v), ch_amount = vd_amount (the v), ch_block_number = b\<rparr> d = Inr d1"
    "v = None \<longrightarrow> d1 = d"
    and r: "(v \<noteq> None \<and> vd_ok (the v) \<and> funding_mismatch c t (the v) d \<and> \<not> mr_confirmed x
       \<and> set_transaction_status_to_failed (tr_id t) d1 = Inr d')
     \<or> (\<not> (v \<noteq> None \<and> vd_ok (the v) \<and> funding_mismatch c t (the v) d) \<and> mr_confirmed x
        \<and> (\<exists>d2 d3. confirm_status (tr_id t) b d1 = Inr d2
          \<and> settle_winner (claim_transaction_is_completed_prizedraw_payout t d) (tr_claim_id t) d2 = Inr d3
          \<and> finalize_cancelled_spot_if_ready (tr_spot_id t) d3 = Inr (mr_cancelled_finalized x, d')))"
    by (rule mark_confirmed_cases)
  have 1: "step_ok d d1" using v details_step by auto
  have 2: "set_transaction_status_to_failed (tr_id t) d1 = Inr d' \<or> (\<exists>d2 d3. confirm_status (tr_id t) b d1 = Inr d2
          \<and> settle_winner (claim_transaction_is_completed_prizedraw_payout t d) (tr_claim_id t) d2 = Inr d3
          \<and> finalize_cancelled_spot_if_ready (tr_spot_id t) d3 = Inr (mr_cancelled_finalized x, d'))"
    using r by blast
  have "step_ok d1 d'"
    using 2 failed_step confirm_step winner_step finalize_step step_ok_trans by metis
  with 1 show ?thesis by (rule step_ok_trans)
qed

lemma record_deposit_step:
  assumes "record_spot_deposit_transaction c u sp a f h t d = Inr (x, d')"
  shows "step_ok d d'"
proof -
  have "d' = d \<or> (\<exists>u s a f h t i. create_spot_deposit_transaction u s a f h t d = Inr (i, d'))"
    using assms unfolding record_spot_deposit_transaction_def Let_def
    by (auto elim!: bindE_InrE split: if_split_asm option.split_asm sum.split_asm py_error.split_asm)
  then show ?thesis unfolding step_ok_def using trans_op_ok trans_op.deposit ledger_grows_refl by blast
qed

section \<open>The row behind a request\<close>

lemma strip_hash: "is_transaction_hash h \<Longrightarrow> py_strip h = h"
proof -
  assume h: "is_transaction_hash h"
  have hex: "\<not> py_isspace c" if "is_hex c" for c
    using that by (auto simp: is_hex_def digit_in_def py_isspace_def py_isdigit_def py_isupper_def py_islower_def
        Let_def split: if_split_asm)
  then have "list_all (\<lambda>c. \<not> py_isspace c) h" using h by (auto simp: is_transaction_hash_def list_all_iff)
  then have d: "\<And>xs. set xs \<subseteq> set h \<Longrightarrow> dropWhile py_isspace xs = xs"
    by (metis dropWhile_eq_self_iff list.set_sel(1) list_all_iff subsetD)
  show ?thesis by (simp add: py_strip_def d)
qed

lemma intent_hash_local: "is_local_intent_hash (make_local_intent_hash k p tok)"
  by (simp add: is_local_intent_hash_def make_local_intent_hash_def starts_with_def Let_def)

lemma update_details_row:
  assumes "update_transaction_chain_details i c d = Inr d'" and "r \<in> set (db_trans d)" and "tr_id r = i"
  shows "r \<in> set (db_trans d') \<or> set_details c r \<in> set (db_trans d')"
  using assms unfolding update_transaction_chain_details_def
  by (auto simp: update_trans_def write_trans_Inr set_update_where elim!: bindE_InrE split: if_split_asm)

lemma update_details_written:
  assumes "update_transaction_chain_details i c d = Inr d'" and "r \<in> set (db_trans d)" and "tr_id r = i"
    and "ch_tx_hash c = Some h"
  shows "set_details c r \<in> set (db_trans d')"
proof -
  have "c \<noteq> no_details" using assms(4) by (auto simp: no_details_def)
  then have "update_trans (\<lambda>t. tr_id t = i) (set_details c) d = Inr d'"
    using assms(1) unfolding update_transaction_chain_details_def
    by (auto elim!: bindE_InrE split: if_split_asm)
  then show ?thesis using assms(2,3) by (auto simp: update_trans_def write_trans_Inr set_update_where)
qed

lemma validated_send:
  assumes "validate_submitted_chain_send c f t a y = Inr x" and "\<not> allow_dev_sends c"
    and "validate_nimiq_address c f' = Inr f" and "validate_nimiq_address c t' = Inr t"
  shows "su_from x = f \<and> su_to x = t \<and> su_amount x = a \<and> is_transaction_hash (su_tx_hash x)
    \<and> su_tx_hash x = py_lower (py_strip (su_tx_hash y))"
proof -
  have "validate_nimiq_address c f = Inr f" "validate_nimiq_address c t = Inr t"
    using assms(2-4) normalise_idem by (simp_all add: validate_nimiq_address_def)
  then show ?thesis using assms(1) unfolding validate_submitted_chain_send_def
    by (auto simp: Let_def elim!: bindE_InrE split: if_split_asm)
qed

lemma send_request_of:
  assumes "build_send_request sv s t a memo = Inr rq" and "\<not> allow_dev_sends (sv_settings sv)"
    and "validate_nimiq_address (sv_settings sv) t' = Inr t"
    and "validate_nimiq_address (sv_settings sv) (sp_deposit_address s) = Inr f"
  shows "rq_to rq = t \<and> rq_from rq = f \<and> rq_amount rq = a \<and> rq_memo rq = memo \<and> 0 < a"
proof -
  have "validate_nimiq_address (sv_settings sv) t = Inr t"
    using assms(2,3) normalise_idem by (simp add: validate_nimiq_address_def)
  then show ?thesis using assms(1,4) unfolding build_send_request_def
    by (auto simp: Let_def elim!: bindE_InrE split: if_split_asm option.split_asm)
qed

context exact_intent begin

lemma recorded_send_row:
  assumes run: "submit_recorded_chain_send sv s to_addr a memo k p create w = (r, w')"
    and ok: "db_ok (wd_db w)" and prod: "\<not> allow_dev_sends (sv_settings sv)" and new: "wd_sent w' \<noteq> wd_sent w"
  shows "\<exists>i rq h d1 row. wd_sent w' = wd_sent w @ [(i, rq)]
    \<and> validate_nimiq_address (sv_settings sv) to_addr = Inr (rq_to rq) \<and> rq_amount rq = a \<and> rq_memo rq = memo
    \<and> create a (rq_from rq) (rq_to rq) h (wd_db w) = Inr (i, d1) \<and> ledger_grows d1 (wd_db w')
    \<and> (\<exists>row1\<in>set (db_trans d1). tr_id row1 = i \<and> trans_step row1 row)
    \<and> row \<in> set (db_trans (wd_db w')) \<and> tr_id row = i \<and> tr_status row = TRANS_STATUS_PENDING \<and> tr_amount row = a
    \<and> tr_to_address row = rq_to rq \<and> tr_from_address row = rq_from rq
    \<and> (case r of Inl _ \<Rightarrow> is_local_intent_hash (tr_tx_hash row)
       | Inr x \<Rightarrow> tr_tx_hash row = sr_tx_hash x \<and> is_transaction_hash (tr_tx_hash row) \<and> sr_trans_id x = i)"
  using run
proof (cases rule: recorded_send_cases)
  case refused
  then show ?thesis using new by simp
next
  case (intent i d1 f t h sent)
  note I = intent
  from I(7) new I(6) obtain rq where rq: "build_send_request sv s t a memo = Inr rq" "sent = [(i, rq)]" by auto
  note R = send_request_of [OF rq(1) prod I(3) I(2)]
  note step = created_step [OF I(5) ok]
  obtain row where row: "new_intent a h (wd_db w) i d1 row" using creates [OF I(5) ok] by blast
  then have mem: "row \<in> set (db_trans d1)" "tr_id row = i" "tr_status row = TRANS_STATUS_PENDING" "tr_amount row = a"
    "tr_tx_hash row = h" by (simp_all add: new_intent_def)
  note par = parties [OF I(5) mem(1,2) ok]
  from I(8) show ?thesis
  proof
    assume fin: "wd_db w' = d1 \<and> (\<exists>e. r = Inl e)"
    show ?thesis
      by (intro exI [of _ i] exI [of _ rq] exI [of _ h] exI [of _ d1] exI [of _ row])
        (use I R rq mem par fin step intent_hash_local in \<open>auto simp: trans_step_def intro: bexI [OF _ mem(1)]\<close>)
  next
    assume "\<exists>y x. validate_submitted_chain_send (sv_settings sv) f t a y = Inr x
           \<and> (sent = [] \<longrightarrow> dev_hash (su_tx_hash y))
           \<and> update_transaction_chain_details i (details_of x) d1 = Inr (wd_db w')
           \<and> r = Inr \<lparr>sr_trans_id = i, sr_amount = su_amount x, sr_to = su_to x, sr_from = su_from x,
                sr_tx_hash = su_tx_hash x, sr_intent_hash = h\<rparr>"
    then obtain y x where x: "validate_submitted_chain_send (sv_settings sv) f t a y = Inr x"
      "update_transaction_chain_details i (details_of x) d1 = Inr (wd_db w')"
      "r = Inr \<lparr>sr_trans_id = i, sr_amount = su_amount x, sr_to = su_to x, sr_from = su_from x,
                sr_tx_hash = su_tx_hash x, sr_intent_hash = h\<rparr>" by blast
    have V: "su_from x = f" "su_to x = t" "su_amount x = a" "is_transaction_hash (su_tx_hash x)"
      "py_strip (su_tx_hash x) = su_tx_hash x"
      using validated_send [OF x(1) prod I(2,3)] strip_hash [of "su_tx_hash x"] by blast+
    have w: "set_details (details_of x) row \<in> set (db_trans (wd_db w'))"
      by (rule update_details_written [OF x(2) mem(1,2)]) (simp add: details_of_def)
    have g: "ledger_grows d1 (wd_db w')" using details_ok [OF x(2)] step by blast
    have keep: "tr_id (set_details (details_of x) row) = i \<and> tr_status (set_details (details_of x) row) = TRANS_STATUS_PENDING
      \<and> tr_amount (set_details (details_of x) row) = a \<and> tr_to_address (set_details (details_of x) row) = t
      \<and> tr_from_address (set_details (details_of x) row) = f \<and> tr_tx_hash (set_details (details_of x) row) = su_tx_hash x"
      using V mem by (simp add: set_details_def details_of_def)
    have ts: "\<exists>row1\<in>set (db_trans d1). tr_id row1 = i \<and> trans_step row1 (set_details (details_of x) row)"
      using mem by (intro bexI [OF _ mem(1)]) (simp add: trans_step_def set_details_def)
    show ?thesis
      by (intro exI [of _ i] exI [of _ rq] exI [of _ h] exI [of _ d1] exI [of _ "set_details (details_of x) row"])
        (use I R rq V g w keep ts x(3) in auto)
  qed
qed

end

section \<open>Claim rewards\<close>

lemma reward_cases:
  assumes "submit_claim_reward_transaction sv k a to_addr w = (r, w')"
  obtains (quiet) "w' = w"
  | (send) detail s ct memo r0 where "get_claim k (wd_db w) = Some detail"
      "get_spot (cl_spot_id (cd_claim detail)) (wd_db w) = Some s"
      "\<not> has_nonfailed_claim_payout_transaction k (wd_db w)"
      "claim_reward_address (sv_settings sv) (cd_claim detail) = Inr ct"
      "submit_recorded_chain_send sv s ct a memo ''claim_reward'' k
         (\<lambda>a f t h. create_claim_transaction (cl_recipient (cd_claim detail)) k a f t h) w = (r0, w')"
      "r = (case r0 of Inl e \<Rightarrow> Inl e | Inr x \<Rightarrow> Inr (Sent x))"
  using assms unfolding submit_claim_reward_transaction_def Let_def
  by (auto simp: bindA_def readA_def returnA_def raiseA_def liftA_def mapA_def
      split: if_split_asm option.split_asm sum.split_asm prod.split_asm)

text \<open>
  C29: When a claim reward is handed to the signer (outside local fake sends), the
  claim had no live payout, the request pays the claim's own stored address the
  given amount, and the ledger afterwards holds a pending payout row of that
  claim with the same amount, sender and recipient: under its local intent if the
  call failed, whatever the helper did, and under the helper's transaction hash
  if it succeeded.
\<close>

theorem reward_request_recorded:
  assumes run: "submit_claim_reward_transaction sv k a to_addr w = (r, w')" and ok: "outbox_ok w"
    and prod: "\<not> allow_dev_sends (sv_settings sv)" and new: "wd_sent w' \<noteq> wd_sent w"
  shows "\<exists>i rq row detail ct. wd_sent w' = wd_sent w @ [(i, rq)] \<and> rq_amount rq = a
    \<and> get_claim k (wd_db w) = Some detail \<and> \<not> has_nonfailed_claim_payout_transaction k (wd_db w)
    \<and> claim_reward_address (sv_settings sv) (cd_claim detail) = Inr ct
    \<and> validate_nimiq_address (sv_settings sv) ct = Inr (rq_to rq)
    \<and> row \<in> set (db_trans (wd_db w')) \<and> tr_id row = i \<and> tr_type row = TRANS_TYPE_CLAIM
    \<and> tr_claim_id row = Some k \<and> tr_status row = TRANS_STATUS_PENDING \<and> tr_amount row = a
    \<and> tr_from_address row = rq_from rq \<and> tr_to_address row = rq_to rq
    \<and> (case r of Inl e \<Rightarrow> is_local_intent_hash (tr_tx_hash row)
       | Inr (Sent x) \<Rightarrow> tr_tx_hash row = sr_tx_hash x \<and> is_transaction_hash (tr_tx_hash row)
       | Inr _ \<Rightarrow> False)"
  using run
proof (cases rule: reward_cases)
  case quiet
  then show ?thesis using new by simp
next
  case (send detail s ct memo r0)
  have d: "db_ok (wd_db w)" using ok by (simp add: outbox_ok_def)
  obtain i rq h d1 row where S: "wd_sent w' = wd_sent w @ [(i, rq)]"
      "validate_nimiq_address (sv_settings sv) ct = Inr (rq_to rq)" "rq_amount rq = a"
      "create_claim_transaction (cl_recipient (cd_claim detail)) k a (rq_from rq) (rq_to rq) h (wd_db w) = Inr (i, d1)"
      "\<exists>row1\<in>set (db_trans d1). tr_id row1 = i \<and> trans_step row1 row"
      "row \<in> set (db_trans (wd_db w'))" "tr_id row = i" "tr_status row = TRANS_STATUS_PENDING" "tr_amount row = a"
      "tr_to_address row = rq_to rq" "tr_from_address row = rq_from rq"
      "case r0 of Inl _ \<Rightarrow> is_local_intent_hash (tr_tx_hash row)
       | Inr x \<Rightarrow> tr_tx_hash row = sr_tx_hash x \<and> is_transaction_hash (tr_tx_hash row) \<and> sr_trans_id x = i"
    using payout_intent.recorded_send_row [OF send(5) d prod new] by blast
  obtain row1 sp where "row1 \<in> set (db_trans d1)" "tr_id row1 = i" "trans_step row1 row"
    and c: "create_transaction (cl_recipient (cd_claim detail)) TRANS_TYPE_CLAIM a (rq_from rq) (rq_to rq) h sp (Some k)
      (wd_db w) = Inr (i, d1)"
    using S(5) create_claim_Inr [OF S(4)] by blast
  then have "tr_type row = TRANS_TYPE_CLAIM \<and> tr_claim_id row = Some k"
    using create_transaction_parties [OF c] by (auto simp: trans_step_def)
  then show ?thesis using send S by (auto split: sum.split_asm)
qed

definition zero_address :: string where
  "zero_address = ''NQ07 0000 0000 0000 0000 0000 0000 0000 0000''"

definition payout_address :: string where
  "payout_address = ''NQ21 1111 1111 1111 1111 1111 1111 1111 1111''"

text \<open>A signer that derives one address and, on its first request, answers with a hash.\<close>

definition sample_services :: services where
  "sample_services = \<lparr>sv_settings = \<lparr>allow_placeholders = False, allow_dev_sends = False, public_deployment = False\<rparr>,
     sv_http = (\<lambda>_ _. Unreachable), sv_derive = (\<lambda>_ _. Inr zero_address), sv_command = True,
     sv_helper = (\<lambda>n _. if n = 0 then HelperReply (JObj [(''hash'', JStr (replicate 64 CHR ''a''))]) else HelperFailed),
     sv_digest = (\<lambda>_. replicate 64 CHR ''0''), sv_token = nat_text, sv_fee_address = payout_address,
     sv_resolve = (\<lambda>a h d ss. resolve_nimiq_pay_payout_address (\<lambda>_ _. Unreachable)
       \<lparr>allow_placeholders = False, allow_dev_sends = False, public_deployment = False\<rparr> a h None)\<rparr>"

definition sample_payout_db :: db where
  "sample_payout_db = sample_db\<lparr>
     db_spots := [sample_spot\<lparr>sp_deposit_address := zero_address\<rparr>],
     db_claims := [(sample_claim 1 2 CLAIM_STATUS_SUCCESS)\<lparr>cl_payout_address := Some payout_address\<rparr>],
     db_claim_seq := 1\<rparr>"

definition sample_world :: world where
  "sample_world = \<lparr>wd_db = sample_payout_db, wd_sent = [], wd_draws = 0, wd_guards = [], wd_policies = [],
     wd_security = empty_security\<rparr>"

lemma sample_payout_db_ok: "db_ok sample_payout_db"
  by (simp add: sample_payout_db_def sample_defs db_ok_defs user_check_def spot_check_def trans_check_def unique_on_def
      const_defs has_user_def has_spot_def claim_payout_slot_def cancellation_slot_def claim_check_def
      creation_fee_slot_def remainder_refund_slot_def zero_address_def)

lemma reward_request_recorded_witness:
  "\<exists>r w' row. submit_claim_reward_transaction sample_services 1 25000000 None sample_world = (r, w')
    \<and> row \<in> set (db_trans (wd_db w')) \<and> tr_claim_id row = Some 1 \<and> tr_status row = TRANS_STATUS_PENDING
    \<and> tr_amount row = 25000000"
proof -
  obtain r w' where run: "submit_claim_reward_transaction sample_services 1 25000000 None sample_world = (r, w')"
    by fastforce
  have "wd_sent (snd (submit_claim_reward_transaction sample_services 1 25000000 None sample_world)) \<noteq> []" by code_simp
  moreover have "wd_sent sample_world = []" by (simp add: sample_world_def)
  ultimately have new: "wd_sent w' \<noteq> wd_sent sample_world" using run by simp
  have ok: "outbox_ok sample_world" by (simp add: outbox_ok_def sample_world_def sample_payout_db_ok)
  have "\<not> allow_dev_sends (sv_settings sample_services)" by (simp add: sample_services_def)
  from reward_request_recorded [OF run ok this new] run show ?thesis by blast
qed

section \<open>Fake sends\<close>

lemma dev_hash_rejected: "dev_hash h \<Longrightarrow> \<not> is_transaction_hash (py_lower (py_strip h))"
proof
  assume d: "dev_hash h" and h: "is_transaction_hash (py_lower (py_strip h))"
  have "CHR ''s'' \<in> set (take 7 h)" using d by (simp add: dev_hash_def)
  then have "CHR ''s'' \<in> set (join_split h)"
    using in_set_takeD by (fastforce simp: join_split_def py_isspace_def code_of_def)
  then have "CHR ''s'' \<in> set (py_strip h)"
    unfolding join_split_strip [of h, symmetric] by (simp add: join_split_def)
  then have "lower_char (CHR ''s'') \<in> set (py_lower (py_strip h))" by (simp add: py_lower_def)
  then have "is_hex (lower_char (CHR ''s''))" using h by (auto simp: is_transaction_hash_def list_all_iff)
  moreover have "\<not> is_hex (lower_char (CHR ''s''))" by code_simp
  ultimately show False by simp
qed

text \<open>
  C30: Without a configured signing helper no recorded send ever succeeds, in any
  configuration: the development fallback's made-up hash is refused by the same
  check the helper's answer passes, and the intent stays pending.
\<close>

theorem fake_send_never_accepted:
  assumes "\<not> sv_command sv" and "submit_recorded_chain_send sv s to_addr a memo kind k create w = (r, w')"
  shows "\<not> is_ok r \<and> wd_sent w' = wd_sent w"
  using assms(2)
proof (cases rule: recorded_send_cases)
  case (intent i d1 f t h sent)
  then have s: "sent = []" using assms(1) by blast
  have "\<not> (\<exists>y x. validate_submitted_chain_send (sv_settings sv) f t a y = Inr x \<and> dev_hash (su_tx_hash y))"
    using dev_hash_rejected unfolding validate_submitted_chain_send_def
    by (auto simp: Let_def elim!: bindE_InrE split: if_split_asm)
  then show ?thesis using intent(6,8) s by auto
qed auto

definition fake_services :: services where
  "fake_services = sample_services\<lparr>sv_command := False,
     sv_settings := \<lparr>allow_placeholders = True, allow_dev_sends = True, public_deployment = False\<rparr>\<rparr>"

lemma fake_send_never_accepted_witness:
  "\<not> is_ok (fst (submit_recorded_chain_send fake_services (sample_spot\<lparr>sp_deposit_address := zero_address\<rparr>) payout_address 5 []
      ''claim_reward'' 1 (create_claim_transaction 2 1) sample_world))"
proof -
  obtain r w' where "submit_recorded_chain_send fake_services (sample_spot\<lparr>sp_deposit_address := zero_address\<rparr>) payout_address 5 []
      ''claim_reward'' 1 (create_claim_transaction 2 1) sample_world = (r, w')" by fastforce
  from fake_send_never_accepted [OF _ this] this show ?thesis by (simp add: fake_services_def)
qed

end
