(* ===== verification/DepositProps.thy ===== *)
theory DepositProps
  imports OutboxProps
begin

text \<open>
  Creator deposits: recording is idempotent and capped by what is due, and
  confirmation keeps every Spot on one funding wallet.
\<close>

section \<open>Recording\<close>

lemma lower_char_lower [simp]: "lower_char (lower_char c) = lower_char c"
proof (cases "py_isupper c")
  case True
  have "code_of c + 32 < 256" using True by (auto simp: py_isupper_def)
  then have "code_of (lower_char c) = code_of c + 32" using True by (simp only: lower_char_def code_of_char_of if_True)
  then have "\<not> py_isupper (lower_char c)" using True by (auto simp: py_isupper_def)
  then show ?thesis by (simp add: lower_char_def [of "lower_char c"])
qed (simp add: lower_char_def)

lemma py_lower_idem [simp]: "py_lower (py_lower s) = py_lower s"
  by (simp add: py_lower_def)

lemma recorded_deposit_cases:
  fixes x :: deposit_result
  assumes "record_spot_deposit_transaction c u sp n f h to_addr d = Inr (x, d')"
  obtains (before) t where "transaction_by_hash (py_lower (py_strip h)) d = Some t" "same_recorded_deposit t u sp"
      "is_transaction_hash (py_lower (py_strip h))" "x = recorded_before t" "d' = d"
  | (fresh) s ct cf where "transaction_by_hash (py_lower (py_strip h)) d = None"
      "is_transaction_hash (py_lower (py_strip h))" "0 < n" "get_spot sp d = Some s" "sp_status s = SPOT_STATUS_DRAFT"
      "sp_cancellation_started_at s = None" "normalise_nimiq_address (allow_placeholders c) f = Inr cf"
      "case get_confirmed_spot_funding_address sp d of None \<Rightarrow> True
       | Some a \<Rightarrow> normalise_address_for_compare c a \<noteq> None
           \<and> normalise_address_for_compare c cf = normalise_address_for_compare c a"
      "st_pending_amount (get_spot_deposit_totals sp d) \<le> 0"
      "st_confirmed_amount (get_spot_deposit_totals sp d) < spot_required_deposit_amount s"
      "dr_amount x = min n (spot_required_deposit_amount s - st_confirmed_amount (get_spot_deposit_totals sp d))"
      "dr_already_recorded x = False"
      "create_transaction u TRANS_TYPE_FILL_SPOT (dr_amount x) cf ct (py_lower (py_strip h)) (Some sp) None d
         = Inr (dr_trans_id x, d')"
proof (cases "is_transaction_hash (py_lower (py_strip h)) \<and> transaction_by_hash (py_lower (py_strip h)) d \<noteq> None")
  case True
  then obtain t where t: "transaction_by_hash (py_lower (py_strip h)) d = Some t" by blast
  show thesis using assms True t unfolding record_spot_deposit_transaction_def Let_def
    by (intro before [of t]) (auto split: if_split_asm)
next
  case False
  let ?h = "py_lower (py_strip h)"
  note d = assms [unfolded record_spot_deposit_transaction_def Let_def]
  obtain s where s: "get_spot sp d = Some s" "0 < n" "sp_status s = SPOT_STATUS_DRAFT" "sp_cancellation_started_at s = None"
    using d False by (auto split: if_split_asm option.split_asm)
  obtain ct cf where a: "normalise_nimiq_address (allow_placeholders c) f = Inr cf"
      "normalise_nimiq_address (allow_placeholders c)
                  (or_text (case to_addr of None \<Rightarrow> [] | Some a \<Rightarrow> a) (sp_deposit_address s)) = Inr ct"
    using d False s by (auto elim!: bindE_InrE split: if_split_asm)
  have hash: "is_transaction_hash ?h" and no: "transaction_by_hash ?h d = None"
    using d False s a by (auto elim!: bindE_InrE split: if_split_asm)
  show thesis
    using d no hash s a
    by (intro fresh [of s cf ct])
      (auto elim!: bindE_InrE simp: create_spot_deposit_transaction_def guardE_def
        split: if_split_asm option.split_asm sum.split_asm py_error.split_asm)
qed

text \<open>
  Recording a deposit adds one pending row whose amount is what was offered,
  cut to what is still due, or nothing when the hash is known; after either, a
  repeated submission of the same hash (in any case and spacing, with any other
  details) by the same user for the same Spot answers with the recorded row and
  changes nothing, and for another user or Spot it is refused.
\<close>

theorem deposit_recorded_once:
  assumes rec: "record_spot_deposit_transaction c u sp n f h to_addr d = Inr (x, d')"
  shows "(dr_already_recorded x \<longrightarrow> d' = d)
    \<and> (\<not> dr_already_recorded x \<longrightarrow> (\<exists>row s. db_trans d' = db_trans d @ [row] \<and> get_spot sp d = Some s
        \<and> sp_status s = SPOT_STATUS_DRAFT \<and> tr_status row = TRANS_STATUS_PENDING
        \<and> tr_type row = TRANS_TYPE_FILL_SPOT \<and> tr_amount row = dr_amount x \<and> 0 < dr_amount x \<and> dr_amount x \<le> n
        \<and> st_confirmed_amount (get_spot_deposit_totals sp d) + dr_amount x \<le> spot_required_deposit_amount s))
    \<and> (\<forall>u' sp' n' f' h' to_addr'. py_lower (py_strip h') = py_lower (py_strip h) \<longrightarrow>
        (if (u', sp') = (u, sp)
         then record_spot_deposit_transaction c u' sp' n' f' h' to_addr' d'
           = Inr (\<lparr>dr_already_recorded = True, dr_trans_id = dr_trans_id x, dr_amount = dr_amount x\<rparr>, d')
         else \<not> is_ok (record_spot_deposit_transaction c u' sp' n' f' h' to_addr' d')))"
proof -
  let ?h = "py_lower (py_strip h)"
  have again: "if (u', sp') = (u, sp)
         then record_spot_deposit_transaction c u' sp' n' f' h' to_addr' d' = Inr (recorded_before t, d')
         else \<not> is_ok (record_spot_deposit_transaction c u' sp' n' f' h' to_addr' d')"
    if "transaction_by_hash ?h d' = Some t" "same_recorded_deposit t u sp" "is_transaction_hash ?h"
      "py_lower (py_strip h') = ?h" for u' sp' n' f' h' to_addr' t
    using that by (auto simp: record_spot_deposit_transaction_def same_recorded_deposit_def)
  from rec show ?thesis
  proof (cases rule: recorded_deposit_cases)
    case (before t)
    have r: "recorded_before t = \<lparr>dr_already_recorded = True, dr_trans_id = dr_trans_id x, dr_amount = dr_amount x\<rparr>"
      using before(4) by (simp add: recorded_before_def)
    have "dr_already_recorded x" using before(4) by (simp add: recorded_before_def)
    then show ?thesis using again [of t] before(1-3,5) unfolding r by blast
  next
    case (fresh s ct cf)
    obtain row where row: "db_trans d' = db_trans d @ [row]" "tr_id row = dr_trans_id x"
      "tr_status row = TRANS_STATUS_PENDING" "tr_amount row = dr_amount x" "tr_tx_hash row = ?h"
      "tr_type row = TRANS_TYPE_FILL_SPOT" "tr_spot_id row = Some sp" "tr_user_id row = u"
      using create_transaction_row(2) [OF fresh(13)] by blast
    have "transaction_by_hash ?h d' = Some row"
      using fresh(1) strip_hash [OF fresh(2)] row(1,5)
      unfolding transaction_by_hash_def by (simp add: find_append)
    moreover have "same_recorded_deposit row u sp" using row by (simp add: same_recorded_deposit_def)
    ultimately have a: "py_lower (py_strip h') = ?h \<longrightarrow> (if (u', sp') = (u, sp)
         then record_spot_deposit_transaction c u' sp' n' f' h' to_addr' d' = Inr (recorded_before row, d')
         else \<not> is_ok (record_spot_deposit_transaction c u' sp' n' f' h' to_addr' d'))" for u' sp' n' f' h' to_addr'
      using again [of row] fresh(2) by blast
    have r: "recorded_before row = \<lparr>dr_already_recorded = True, dr_trans_id = dr_trans_id x, dr_amount = dr_amount x\<rparr>"
      using row by (simp add: recorded_before_def)
    have am: "0 < dr_amount x \<and> dr_amount x \<le> n
        \<and> st_confirmed_amount (get_spot_deposit_totals sp d) + dr_amount x \<le> spot_required_deposit_amount s"
      unfolding fresh(11) using fresh(3,10) by (simp add: min_def)
    show ?thesis
      using a row am fresh(4,5,12) unfolding r by blast
  qed
qed

definition sample_deposit_db :: db where
  "sample_deposit_db = sample_draft_db\<lparr>db_trans := [],
     db_spots := [sample_spot\<lparr>sp_status := SPOT_STATUS_DRAFT, sp_starts_at := None, sp_deposit_address := zero_address\<rparr>]\<rparr>"

lemma deposit_recorded_once_witness:
  "\<exists>x d'. record_spot_deposit_transaction (sv_settings sample_services) 1 1 70000001 payout_address (replicate 64 CHR ''A'') None
      sample_deposit_db = Inr (x, d') \<and> dr_amount x = 70000000
    \<and> record_spot_deposit_transaction (sv_settings sample_services) 1 1 5 zero_address ('' '' @ replicate 64 CHR ''a'') None d'
      = Inr (\<lparr>dr_already_recorded = True, dr_trans_id = dr_trans_id x, dr_amount = 70000000\<rparr>, d')"
proof -
  have "gives (record_spot_deposit_transaction (sv_settings sample_services) 1 1 70000001 payout_address (replicate 64 CHR ''A'') None
      sample_deposit_db) (\<lambda>(x, d'). dr_amount x = 70000000)" by code_simp
  then obtain x d' where r: "record_spot_deposit_transaction (sv_settings sample_services) 1 1 70000001 payout_address
      (replicate 64 CHR ''A'') None sample_deposit_db = Inr (x, d')" and a: "dr_amount x = 70000000"
    by (auto simp: gives_iff)
  have "py_lower (py_strip ('' '' @ replicate 64 CHR ''a'')) = py_lower (py_strip (replicate 64 CHR ''A''))" by code_simp
  with deposit_recorded_once [OF r] have "if (1::int, 1::int) = (1, 1) then
      record_spot_deposit_transaction (sv_settings sample_services) 1 1 5 zero_address ('' '' @ replicate 64 CHR ''a'') None d'
      = Inr (\<lparr>dr_already_recorded = True, dr_trans_id = dr_trans_id x, dr_amount = dr_amount x\<rparr>, d')
      else \<not> is_ok (record_spot_deposit_transaction (sv_settings sample_services) 1 1 5 zero_address ('' '' @ replicate 64 CHR ''a'') None d')"
    by blast
  then show ?thesis using r a by auto
qed

section \<open>Confirmation\<close>

definition confirmed_deposit :: "int \<Rightarrow> trans_row \<Rightarrow> bool" where
  "confirmed_deposit sp t \<longleftrightarrow> of_type sp TRANS_TYPE_FILL_SPOT t \<and> tr_status t = TRANS_STATUS_CONFIRMED"

text \<open>All confirmed deposits of a Spot came from one account, and every sender is usable for a refund.\<close>

definition single_wallet :: "settings \<Rightarrow> int \<Rightarrow> db \<Rightarrow> bool" where
  "single_wallet c sp d \<longleftrightarrow> (\<exists>a. \<forall>t\<in>set (db_trans d). confirmed_deposit sp t \<longrightarrow>
     normalise_address_for_compare c (tr_from_address t) = Some a)"

lemma funding_address_cases:
  assumes "single_wallet c sp d"
  obtains (unfunded) "get_confirmed_spot_funding_address sp d = None" "\<And>t. t \<in> set (db_trans d) \<Longrightarrow> \<not> confirmed_deposit sp t"
  | (funded) t where "t \<in> set (db_trans d)" "confirmed_deposit sp t"
      "get_confirmed_spot_funding_address sp d = Some (py_strip (tr_from_address t))"
proof -
  let ?P = "\<lambda>t. of_type sp TRANS_TYPE_FILL_SPOT t \<and> tr_status t = TRANS_STATUS_CONFIRMED \<and> \<not> sql_blank (tr_from_address t)"
  let ?l = "sort_key tr_created_at (sort_key tr_id (filter ?P (db_trans d)))"
  have nb: "\<not> sql_blank (tr_from_address t)" if "t \<in> set (db_trans d)" "confirmed_deposit sp t" for t
  proof
    assume b: "sql_blank (tr_from_address t)"
    have "py_isspace ch" if "ch \<in> set (tr_from_address t)" for ch
    proof -
      have "ch = CHR '' ''" using b that by (simp add: sql_blank_def list_all_iff)
      then show ?thesis using py_isspace_space by simp
    qed
    then have e: "dropWhile py_isspace (tr_from_address t) = []" unfolding dropWhile_eq_Nil_conv by blast
    have "py_strip (tr_from_address t) = []" by (simp only: py_strip_def e rev.simps dropWhile.simps)
    then have "normalise_address_for_compare c (tr_from_address t) = None"
      by (simp add: normalise_address_for_compare_def)
    then show False using assms that unfolding single_wallet_def by fastforce
  qed
  show thesis
  proof (cases ?l)
    case Nil
    then have "set ?l = {}" by simp
    then have none: "\<not> ?P t" if "t \<in> set (db_trans d)" for t using that by auto
    have nc: "\<not> confirmed_deposit sp t" if "t \<in> set (db_trans d)" for t
      using none [OF that] nb [OF that] unfolding confirmed_deposit_def by blast
    show thesis
      by (rule unfunded) (use nc in \<open>simp_all only: get_confirmed_spot_funding_address_def Nil list.case, blast\<close>)
  next
    case (Cons t ts)
    then have "t \<in> set ?l" by simp
    then have "t \<in> set (db_trans d)" "?P t" by auto
    then show thesis
      by (intro funded [of t]) (simp_all only: get_confirmed_spot_funding_address_def Cons confirmed_deposit_def list.case simp_thms)
  qed
qed

lemma update_keeps_others:
  assumes "update_trans P f d = Inr d'" and "t' \<in> set (db_trans d')"
  obtains t where "t \<in> set (db_trans d)" "t' = (if P t then f t else t)"
  using assms by (auto simp: update_trans_def write_trans_Inr set_update_where)

lemma complete_trans_fields [simp]:
  "tr_id (complete_trans n old new) = tr_id new" "tr_status (complete_trans n old new) = tr_status new"
  "tr_type (complete_trans n old new) = tr_type new" "tr_spot_id (complete_trans n old new) = tr_spot_id new"
  "tr_from_address (complete_trans n old new) = tr_from_address new"
  by (simp_all add: complete_trans_def)

text \<open>A status change touches one row, and only its status, block and completion time.\<close>

lemma settle_rows:
  assumes "settle_status i st m f d = Inr d'" and "t' \<in> set (db_trans d')"
    and "\<And>t. tr_id (f t) = tr_id t \<and> tr_status (f t) = st \<and> tr_type (f t) = tr_type t \<and> tr_spot_id (f t) = tr_spot_id t
      \<and> tr_from_address (f t) = tr_from_address t"
  obtains t where "t \<in> set (db_trans d)" "tr_id t' = tr_id t" "tr_type t' = tr_type t" "tr_spot_id t' = tr_spot_id t"
    "tr_from_address t' = tr_from_address t" "tr_status t' = tr_status t \<or> tr_id t = i \<and> tr_status t' = st"
proof -
  obtain t where t: "t \<in> set (db_trans d)"
    "t' = (if tr_id t = i \<and> tr_status t = TRANS_STATUS_PENDING then complete_trans (db_now d) t (f t) else t)"
    by (rule update_keeps_others [OF settle_status_Inr [OF assms(1)] assms(2)])
  show thesis by (rule that [of t]) (use t assms(3) [of t] in auto)
qed

lemma confirm_rows:
  assumes "confirm_status i b d = Inr d'" and "t' \<in> set (db_trans d')"
  obtains t where "t \<in> set (db_trans d)" "tr_id t' = tr_id t" "tr_type t' = tr_type t" "tr_spot_id t' = tr_spot_id t"
    "tr_from_address t' = tr_from_address t"
    "tr_status t' = tr_status t \<or> tr_id t = i \<and> tr_status t' = TRANS_STATUS_CONFIRMED"
proof (cases b)
  case None
  then have s: "settle_status i TRANS_STATUS_CONFIRMED ''Failed to update pending transaction status''
       (\<lambda>t. t\<lparr>tr_status := TRANS_STATUS_CONFIRMED\<rparr>) d = Inr d'"
    using assms(1) by (simp add: confirm_status_def modify_transaction_status_def)
  show thesis by (rule settle_rows [OF s assms(2)]) (use that in auto)
next
  case (Some n)
  then have s: "settle_status i TRANS_STATUS_CONFIRMED ''Failed to confirm pending transaction''
       (\<lambda>t. coalesce_completed (db_now d) (t\<lparr>tr_status := TRANS_STATUS_CONFIRMED, tr_block_number := Some n\<rparr>)) d = Inr d'"
    using assms(1) by (simp add: confirm_status_def set_transaction_status_to_confirmed_def)
  show thesis by (rule settle_rows [OF s assms(2)]) (use that in \<open>auto simp: coalesce_completed_def\<close>)
qed

lemma finalize_trans: "finalize_cancelled_spot_if_ready sp d = Inr (b, d') \<Longrightarrow> db_trans d' = db_trans d"
  unfolding finalize_cancelled_spot_if_ready_def set_spot_status_to_cancelled_def modify_spot_status_def Let_def
  by (auto split: option.split_asm if_split_asm elim!: bindE_InrE dest: update_spots_Inr(2))

lemma winner_trans:
  assumes "settle_winner b k d = Inr d'" and "db_ok d"
  shows "db_trans d' = db_trans d"
  using assms modify_claim_status_Inr(2) [of _ CLAIM_STATUS_SUCCESS d d']
  by (auto simp: settle_winner_def set_claim_status_to_success_def claim_frame_def split: option.split_asm if_split_asm)

lemma details_rows:
  assumes "update_transaction_chain_details i c d = Inr d'" and "t' \<in> set (db_trans d')"
  obtains t where "t \<in> set (db_trans d)" "tr_id t' = tr_id t" "tr_type t' = tr_type t" "tr_spot_id t' = tr_spot_id t"
    "tr_status t' = tr_status t" "tr_id t \<noteq> i \<Longrightarrow> t' = t"
    "tr_id t = i \<Longrightarrow> tr_from_address t' = (case ch_from_address c of None \<Rightarrow> tr_from_address t | Some a \<Rightarrow> a)"
proof (cases "c = no_details")
  case True
  then have "d' = d" using assms(1) by (auto simp: update_transaction_chain_details_def no_details_def)
  then show thesis using assms(2) True by (intro that [of t']) (auto simp: no_details_def)
next
  case False
  then have u: "update_trans (\<lambda>t. tr_id t = i) (set_details c) d = Inr d'"
    using assms(1) unfolding update_transaction_chain_details_def by (auto elim!: bindE_InrE split: if_split_asm)
  obtain t where t: "t \<in> set (db_trans d)" "t' = (if tr_id t = i then set_details c t else t)"
    by (rule update_keeps_others [OF u assms(2)])
  show thesis by (rule that [of t]) (use t in \<open>auto simp: set_details_def\<close>)
qed

text \<open>
  C31: Confirming a verified deposit keeps the Spot on one funding wallet: if all
  its confirmed deposits came from one account before, they do afterwards; a
  deposit from any other account is marked failed (it is kept, with its chain
  facts) and never funds the Spot.
\<close>

theorem confirmed_deposits_single_wallet:
  assumes m: "mark_trans_as_confirmed c t b (Some v) d = Inr (x, d')" and ok: "db_ok d"
    and v: "vd_ok v" and sender: "vd_from v = Some a" "normalise_address_for_compare c a = Some na"
    and row: "t0 \<in> set (db_trans d)" "tr_id t0 = tr_id t" "tr_type t0 = tr_type t" "tr_spot_id t0 = tr_spot_id t"
      "tr_status t0 = TRANS_STATUS_PENDING"
    and one: "single_wallet c sp d"
  shows "single_wallet c sp d'
    \<and> (\<forall>f. confirmed_deposit sp (t\<lparr>tr_status := TRANS_STATUS_CONFIRMED\<rparr>) \<and> get_confirmed_spot_funding_address sp d = Some f
        \<longrightarrow> mr_confirmed x = (normalise_address_for_compare c f = Some na))"
proof -
  have np: "normalise_address_for_compare c (py_strip s) = normalise_address_for_compare c s" for s
    by (simp add: normalise_address_for_compare_def)
  let ?det = "\<lparr>ch_tx_hash = None, ch_from_address = vd_from v, ch_to_address = vd_to v,
      ch_amount = vd_amount v, ch_block_number = b\<rparr>"
  obtain d1 where d1: "update_transaction_chain_details (tr_id t) ?det d = Inr d1"
    and fin: "funding_mismatch c t v d \<and> \<not> mr_confirmed x \<and> set_transaction_status_to_failed (tr_id t) d1 = Inr d'
      \<or> \<not> funding_mismatch c t v d \<and> mr_confirmed x \<and> (\<exists>d2 d3. confirm_status (tr_id t) b d1 = Inr d2
          \<and> settle_winner (claim_transaction_is_completed_prizedraw_payout t d) (tr_claim_id t) d2 = Inr d3
          \<and> finalize_cancelled_spot_if_ready (tr_spot_id t) d3 = Inr (mr_cancelled_finalized x, d'))"
    by (rule mark_confirmed_cases [OF m]) (use v in auto)
  have uniq: "t1 = t0" if "t1 \<in> set (db_trans d)" "tr_id t1 = tr_id t" for t1
    using ok that row(1,2) by (auto simp: db_ok_def trans_ok_def distinct_map inj_on_def)
  have rows: "\<exists>t1\<in>set (db_trans d). tr_id t' = tr_id t1 \<and> tr_type t' = tr_type t1 \<and> tr_spot_id t' = tr_spot_id t1
      \<and> (tr_id t1 \<noteq> tr_id t \<longrightarrow> tr_from_address t' = tr_from_address t1 \<and> tr_status t' = tr_status t1)
      \<and> (tr_id t1 = tr_id t \<longrightarrow> tr_from_address t' = a
          \<and> (tr_status t' = TRANS_STATUS_CONFIRMED \<longrightarrow> \<not> funding_mismatch c t v d))"
    if "t' \<in> set (db_trans d')" for t'
  proof -
    have d1ok: "db_ok d1" using d1 details_ok ok by blast
    have "\<exists>u\<in>set (db_trans d1). tr_id t' = tr_id u \<and> tr_type t' = tr_type u \<and> tr_spot_id t' = tr_spot_id u
        \<and> tr_from_address t' = tr_from_address u \<and> (tr_status t' = tr_status u
          \<or> tr_id u = tr_id t \<and> (tr_status t' = TRANS_STATUS_CONFIRMED \<longrightarrow> \<not> funding_mismatch c t v d))"
      using fin
    proof (elim disjE conjE exE)
      assume "set_transaction_status_to_failed (tr_id t) d1 = Inr d'"
      then have s: "settle_status (tr_id t) TRANS_STATUS_FAILED ''Failed to fail pending transaction''
          (\<lambda>t. coalesce_completed (db_now d1) (t\<lparr>tr_status := TRANS_STATUS_FAILED\<rparr>)) d1 = Inr d'"
        by (simp add: set_transaction_status_to_failed_def)
      show ?thesis by (rule settle_rows [OF s that]) (auto simp: coalesce_completed_def)
    next
      fix d2 d3
      assume n: "\<not> funding_mismatch c t v d" and c: "confirm_status (tr_id t) b d1 = Inr d2"
        and w: "settle_winner (claim_transaction_is_completed_prizedraw_payout t d) (tr_claim_id t) d2 = Inr d3"
        and f: "finalize_cancelled_spot_if_ready (tr_spot_id t) d3 = Inr (mr_cancelled_finalized x, d')"
      have "db_ok d2" using confirm_step [OF c] d1ok by (simp add: step_ok_def)
      then have "t' \<in> set (db_trans d2)" using that finalize_trans [OF f] winner_trans [OF w] by simp
      then show ?thesis by (rule confirm_rows [OF c]) (use n in auto)
    qed
    then obtain u where u: "u \<in> set (db_trans d1)" "tr_id t' = tr_id u" "tr_type t' = tr_type u"
        "tr_spot_id t' = tr_spot_id u" "tr_from_address t' = tr_from_address u"
      and st: "tr_status t' = tr_status u
          \<or> tr_id u = tr_id t \<and> (tr_status t' = TRANS_STATUS_CONFIRMED \<longrightarrow> \<not> funding_mismatch c t v d)" by blast
    show ?thesis
    proof (rule details_rows [OF d1 u(1)])
      fix t1 assume t1: "t1 \<in> set (db_trans d)" "tr_id u = tr_id t1" "tr_type u = tr_type t1" "tr_spot_id u = tr_spot_id t1"
        "tr_status u = tr_status t1" "tr_id t1 \<noteq> tr_id t \<Longrightarrow> u = t1"
        "tr_id t1 = tr_id t \<Longrightarrow> tr_from_address u = (case ch_from_address ?det of None \<Rightarrow> tr_from_address t1 | Some a \<Rightarrow> a)"
      have "tr_status t1 = TRANS_STATUS_PENDING" if "tr_id t1 = tr_id t" using uniq [OF t1(1) that] row(5) by simp
      then show ?thesis
        by (intro bexI [OF _ t1(1)]) (use u st t1 sender(1) in auto)
    qed
  qed
  have others: "normalise_address_for_compare c (tr_from_address t') = Some A"
    if all: "\<forall>t\<in>set (db_trans d). confirmed_deposit sp t \<longrightarrow> normalise_address_for_compare c (tr_from_address t) = Some A"
      and mem: "t' \<in> set (db_trans d')" and dep: "confirmed_deposit sp t'"
      and same: "\<not> funding_mismatch c t v d \<Longrightarrow> tr_spot_id t = Some sp \<Longrightarrow> tr_type t = TRANS_TYPE_FILL_SPOT \<Longrightarrow> na = A" for A t'
  proof -
    obtain t1 where t1: "t1 \<in> set (db_trans d)" "tr_type t' = tr_type t1" "tr_spot_id t' = tr_spot_id t1"
      "tr_id t1 \<noteq> tr_id t \<longrightarrow> tr_from_address t' = tr_from_address t1 \<and> tr_status t' = tr_status t1"
      "tr_id t1 = tr_id t \<longrightarrow> tr_from_address t' = a \<and> (tr_status t' = TRANS_STATUS_CONFIRMED \<longrightarrow> \<not> funding_mismatch c t v d)"
      using rows [OF mem] by blast
    show ?thesis
    proof (cases "tr_id t1 = tr_id t")
      case True
      have "tr_status t' = TRANS_STATUS_CONFIRMED" using dep by (simp add: confirmed_deposit_def)
      then have "\<not> funding_mismatch c t v d" "tr_from_address t' = a" using t1(5) True by blast+
      moreover have "tr_spot_id t = Some sp" "tr_type t = TRANS_TYPE_FILL_SPOT"
        using dep t1(2,3) uniq [OF t1(1) True] row(3,4) by (auto simp: confirmed_deposit_def of_type_def)
      ultimately show ?thesis using same sender(2) by simp
    next
      case False
      then have "confirmed_deposit sp t1" using dep t1 by (simp add: confirmed_deposit_def of_type_def)
      then show ?thesis using all t1(1,4) False by auto
    qed
  qed
  from one show ?thesis
  proof (cases rule: funding_address_cases)
    case unfunded
    then have "single_wallet c sp d'" unfolding single_wallet_def by (intro exI [of _ na]) (use others [of na] in blast)
    then show ?thesis using unfunded(1) by simp
  next
    case (funded tf)
    obtain A where A: "\<forall>t\<in>set (db_trans d). confirmed_deposit sp t \<longrightarrow> normalise_address_for_compare c (tr_from_address t) = Some A"
      using one unfolding single_wallet_def by blast
    have fa: "normalise_address_for_compare c (py_strip (tr_from_address tf)) = Some A"
      unfolding np using A funded(1,2) by blast
    have mm: "funding_mismatch c t v d \<longleftrightarrow> na \<noteq> A" if "tr_spot_id t = Some sp" "tr_type t = TRANS_TYPE_FILL_SPOT"
      using that funded(3) fa sender by (auto simp: funding_mismatch_def)
    have "single_wallet c sp d'"
      unfolding single_wallet_def by (intro exI [of _ A]) (use others [OF A] mm in blast)
    moreover have "mr_confirmed x \<longleftrightarrow> \<not> funding_mismatch c t v d" using fin by blast
    ultimately show ?thesis
      using mm funded(3) fa by (auto simp: confirmed_deposit_def of_type_def)
  qed
qed

definition second_deposit :: trans_row where
  "second_deposit = sample_deposit\<lparr>tr_id := 2, tr_tx_hash := ''h2'', tr_status := TRANS_STATUS_PENDING,
     tr_completed_at := None, tr_block_number := None\<rparr>"

definition two_deposits_db :: db where
  "two_deposits_db = sample_deposit_db\<lparr>
     db_trans := [sample_deposit\<lparr>tr_from_address := zero_address\<rparr>, second_deposit], db_trans_seq := 2\<rparr>"

lemma two_deposits_db_ok: "db_ok two_deposits_db"
  by (simp add: two_deposits_db_def second_deposit_def sample_deposit_db_def sample_defs db_ok_defs user_check_def
      spot_check_def trans_check_def unique_on_def const_defs has_user_def has_spot_def claim_payout_slot_def
      cancellation_slot_def creation_fee_slot_def remainder_refund_slot_def zero_address_def)

lemma confirmed_deposits_single_wallet_witness:
  "\<exists>x d'. mark_trans_as_confirmed (sv_settings sample_services) second_deposit (Some 9)
      (Some \<lparr>vd_ok = True, vd_reason = [], vd_from = Some payout_address, vd_to = Some zero_address, vd_amount = Some 5\<rparr>)
      two_deposits_db = Inr (x, d')
    \<and> single_wallet (sv_settings sample_services) 1 d' \<and> \<not> mr_confirmed x"
proof -
  let ?c = "sv_settings sample_services"
  let ?v = "\<lparr>vd_ok = True, vd_reason = [], vd_from = Some payout_address, vd_to = Some zero_address, vd_amount = Some 5\<rparr>"
  have "gives (mark_trans_as_confirmed ?c second_deposit (Some 9) (Some ?v) two_deposits_db) (\<lambda>_. True)" by code_simp
  then obtain x d' where m: "mark_trans_as_confirmed ?c second_deposit (Some 9) (Some ?v) two_deposits_db = Inr (x, d')"
    by (auto simp: gives_iff)
  have norm: "normalise_address_for_compare ?c payout_address = Some payout_address"
    "normalise_address_for_compare ?c zero_address = Some zero_address" by code_simp+
  have rows: "db_trans two_deposits_db = [sample_deposit\<lparr>tr_from_address := zero_address\<rparr>, second_deposit]"
    by (simp add: two_deposits_db_def)
  have one: "single_wallet ?c 1 two_deposits_db"
    unfolding single_wallet_def rows
    by (intro exI [of _ zero_address])
      (simp add: norm confirmed_deposit_def second_deposit_def sample_deposit_def)
  have funding: "get_confirmed_spot_funding_address 1 two_deposits_db = Some zero_address" by code_simp
  have dep: "confirmed_deposit 1 (second_deposit\<lparr>tr_status := TRANS_STATUS_CONFIRMED\<rparr>)" by code_simp
  have ne: "payout_address \<noteq> zero_address" by (simp add: payout_address_def zero_address_def)
  have "vd_ok ?v" "vd_from ?v = Some payout_address" "second_deposit \<in> set (db_trans two_deposits_db)"
    "tr_status second_deposit = TRANS_STATUS_PENDING" by (simp_all add: rows second_deposit_def)
  from confirmed_deposits_single_wallet [OF m two_deposits_db_ok this(1,2) norm(1) this(3) refl refl refl this(4) one]
  have "single_wallet ?c 1 d'" "mr_confirmed x = (normalise_address_for_compare ?c zero_address = Some payout_address)"
    using dep funding by blast+
  then show ?thesis using m norm(2) ne by auto
qed

end
