(* ===== verification/SpotCancellation.thy ===== *)
theory SpotCancellation
  imports Payments "HOL-Library.AList"
begin

text \<open>
  Cancelling a Spot: the decision and the two sends of
  \<^verbatim>\<open>submit_spot_cancellation_transactions\<close> (\<^verbatim>\<open>trans_updater.py\<close>), and the durable
  lease of \<^verbatim>\<open>cancellation_safety.py\<close> that wraps it.
\<close>

section \<open>The decision\<close>

definition published_standard_spot_is_complete :: "spot_row \<Rightarrow> db \<Rightarrow> bool" where
  "published_standard_spot_is_complete s d \<longleftrightarrow> sp_status s = SPOT_STATUS_PUBLISHED \<and> 0 < sp_max_total_claims s
     \<and> (case get_spot_owner_summary (sp_id s) d of None \<Rightarrow> False
        | Some v \<Rightarrow> sv_prize_count v = None \<and> sp_max_total_claims s \<le> sv_success_claim_count v)"

definition cancellable_spot :: "int \<Rightarrow> db \<Rightarrow> spot_row res" where
  "cancellable_spot spot_id d = (case get_spot spot_id d of
     None \<Rightarrow> Inl (ValueError ''spot does not exist'')
   | Some s \<Rightarrow>
       if sp_status s \<noteq> SPOT_STATUS_DRAFT \<and> sp_status s \<noteq> SPOT_STATUS_PUBLISHED
       then Inl (ValueError ''only funded drafts or published spots can be cancelled'')
       else if sp_status s = SPOT_STATUS_PUBLISHED \<and> is_prizedraw spot_id d
       then Inl (ValueError ''Prizedraw spots cannot be cancelled through this standard cancellation flow'')
       else if sp_status s = SPOT_STATUS_PUBLISHED \<and> published_standard_spot_is_complete s d
       then Inl (ValueError ''completed spots cannot be cancelled'')
       else Inr s)"

record cancel_plan =
  cp_remaining :: int
  cp_desired_fee :: int
  cp_desired_refund :: int
  cp_fee :: int
  cp_refund :: int
  cp_refund_address :: "string option"
  cp_source_hash :: "string option"

text \<open>The oldest confirmed deposit with a sender is where the refund goes back to.\<close>

definition refund_source :: "trans_row list \<Rightarrow> trans_row option" where
  "refund_source rows = find (\<lambda>t. py_strip (tr_from_address t) \<noteq> [])
     (sort_key tr_created_at (filter (\<lambda>t. tr_type t = TRANS_TYPE_FILL_SPOT \<and> tr_status t = TRANS_STATUS_CONFIRMED) rows))"

definition cancellation_plan :: "int \<Rightarrow> trans_row list \<Rightarrow> cancel_plan" where
  "cancellation_plan cancellation_fee rows =
    (let remaining = remaining_cancellable rows;
         desired_fee = min (max 0 cancellation_fee) remaining;
         desired_refund = max 0 (remaining - desired_fee)
     in \<lparr>cp_remaining = remaining, cp_desired_fee = desired_fee, cp_desired_refund = desired_refund,
         cp_fee = max 0 (desired_fee - rows_total TRANS_TYPE_PLAT_FEE TRANS_STATUS_CONFIRMED rows),
         cp_refund = max 0 (desired_refund - rows_total TRANS_TYPE_CANCEL_SPOT TRANS_STATUS_CONFIRMED rows),
         cp_refund_address = map_option (\<lambda>t. py_strip (tr_from_address t)) (refund_source rows),
         cp_source_hash = map_option (\<lambda>t. py_strip (tr_tx_hash t)) (refund_source rows)\<rparr>)"

datatype cancel_decision = Defer string | CancelNow | SendLegs cancel_plan

definition is_outgoing_type :: "int \<Rightarrow> bool" where
  "is_outgoing_type ty \<longleftrightarrow> ty = TRANS_TYPE_CLAIM \<or> ty = TRANS_TYPE_CANCEL_SPOT \<or> ty = TRANS_TYPE_PLAT_FEE
     \<or> ty = TRANS_TYPE_CREATION_FEE"

text \<open>The transaction that marks the cancellation and decides; a raise rolls the marker back.\<close>

definition decide_cancellation :: "int \<Rightarrow> int option \<Rightarrow> db \<Rightarrow> (cancel_decision \<times> db) res" where
  "decide_cancellation spot_id cancellation_fee d =
    bindE (cancellable_spot spot_id d) (\<lambda>s.
    bindE (mark_spot_cancellation_started spot_id d) (\<lambda>(_, d1).
    if sp_status s = SPOT_STATUS_PUBLISHED
       \<and> get_unpaid_successful_standard_claim_ids (Some spot_id) MAX_LIMIT 0 d1 \<noteq> []
    then Inr (Defer ''claim_payouts_pending'', d1)
    else
    let rows = get_transactions_by_spot spot_id MAX_LIMIT 0 d1;
        deposits = filter (\<lambda>t. tr_type t = TRANS_TYPE_FILL_SPOT) rows;
        fee = (case cancellation_fee of None \<Rightarrow> SPOT_CANCELLATION_FEE | Some f \<Rightarrow> f);
        plan = cancellation_plan fee rows
    in if sp_status s = SPOT_STATUS_DRAFT \<and> deposits = []
    then Inl (ValueError ''unfunded drafts should be deleted rather than cancelled'')
    else if sp_status s = SPOT_STATUS_DRAFT \<and> list_ex (\<lambda>t. tr_status t = TRANS_STATUS_PENDING) deposits
    then Inr (Defer ''deposit_pending'', d1)
    else if list_ex (\<lambda>t. is_outgoing_type (tr_type t) \<and> tr_status t = TRANS_STATUS_PENDING) rows
    then Inr (Defer ''outgoing_transaction_pending'', d1)
    else if sp_status s = SPOT_STATUS_DRAFT
            \<and> rows_total TRANS_TYPE_FILL_SPOT TRANS_STATUS_CONFIRMED rows \<le> 0
    then bindE (set_spot_status_to_cancelled spot_id d1) (\<lambda>d2. Inr (CancelNow, d2))
    else if 0 < cp_refund plan \<and> cp_refund_address plan = None
    then Inl (ValueError ''cannot refund this spot because no original deposit sender address is recorded'')
    else if cp_fee plan + cp_refund plan \<le> 0
    then bindE (set_spot_status_to_cancelled spot_id d1) (\<lambda>d2. Inr (CancelNow, d2))
    else Inr (SendLegs plan, d1)))"

section \<open>The sends\<close>

datatype cancel_outcome =
    Deferred string
  | CancelledNow
  | Submitted cancel_plan send_outcome send_outcome
  | Paused string

definition is_concurrent_cancellation :: "string \<Rightarrow> bool" where
  "is_concurrent_cancellation message \<longleftrightarrow>
     contains ''trans.spot_id'' (py_lower message) \<and> contains ''trans.type'' (py_lower message)"

definition cancellation_send_failed :: "py_error \<Rightarrow> cancel_outcome act" where
  "cancellation_send_failed e = (case e of
     IntegrityError m \<Rightarrow> if is_concurrent_cancellation m
       then returnA (Deferred ''concurrent_cancellation_transaction'') else raiseA e
   | _ \<Rightarrow> returnA (Deferred ''send_retry_pending''))"

definition send_cancellation_legs ::
  "services \<Rightarrow> int \<Rightarrow> string option \<Rightarrow> cancel_plan \<Rightarrow> cancel_outcome act" where
  "send_cancellation_legs sv spot_id fee_to plan w =
    (let resolved = (if 0 < cp_refund plan
           then map_sum id Some (sv_resolve sv (case cp_refund_address plan of None \<Rightarrow> [] | Some a \<Rightarrow> a)
                  (cp_source_hash plan) (wd_db w) (wd_security w))
           else Inr (cp_refund_address plan))
     in case resolved of
       Inl _ \<Rightarrow> (Inr (Deferred ''refund_address_resolution_pending''), w)
     | Inr refund_to \<Rightarrow>
       catchA
         (bindA (if 0 < cp_fee plan then submit_platform_fee_transaction sv spot_id (cp_fee plan) fee_to
                 else returnA (Skipped ''no_fee'')) (\<lambda>fee_result.
          bindA (if 0 < cp_refund plan
                 then submit_spot_refund_transaction sv spot_id
                        (case refund_to of None \<Rightarrow> [] | Some a \<Rightarrow> a) (cp_refund plan)
                 else returnA (Skipped ''no_refund'')) (\<lambda>refund_result.
          returnA (Submitted plan fee_result refund_result))))
         cancellation_send_failed w)"

definition submit_spot_cancellation_transactions ::
  "services \<Rightarrow> int \<Rightarrow> int option \<Rightarrow> string option \<Rightarrow> cancel_outcome act" where
  "submit_spot_cancellation_transactions sv spot_id cancellation_fee fee_to =
    bindA (\<lambda>w. (cancellable_spot spot_id (wd_db w), w)) (\<lambda>_.
    bindA (in_transaction (decide_cancellation spot_id cancellation_fee)) (\<lambda>decision.
    case decision of
      Defer reason \<Rightarrow> returnA (Deferred reason)
    | CancelNow \<Rightarrow> returnA CancelledNow
    | SendLegs plan \<Rightarrow> send_cancellation_legs sv spot_id fee_to plan))"

section \<open>The lease (\<^verbatim>\<open>cancellation_safety.py\<close>)\<close>

definition RETRYABLE_FAILED_REFUND_GUARD_REASON :: string where
  "RETRYABLE_FAILED_REFUND_GUARD_REASON = ''existing failed or ambiguous cancellation transaction''"

definition guard_row :: "int \<Rightarrow> world \<Rightarrow> (guard_state \<times> string) option" where
  "guard_row spot_id w = map_of (wd_guards w) spot_id"

definition policy_row :: "int \<Rightarrow> world \<Rightarrow> (int \<times> string) option" where
  "policy_row spot_id w = map_of (wd_policies w) spot_id"

definition set_guard :: "int \<Rightarrow> guard_state \<Rightarrow> string \<Rightarrow> world \<Rightarrow> world" where
  "set_guard spot_id state reason w = w\<lparr>wd_guards := AList.update spot_id (state, reason) (wd_guards w)\<rparr>"

definition release_guard :: "int \<Rightarrow> world \<Rightarrow> world" where
  "release_guard spot_id w = w\<lparr>wd_guards := AList.delete spot_id (wd_guards w)\<rparr>"

definition block_guard :: "int \<Rightarrow> string \<Rightarrow> world \<Rightarrow> world" where
  "block_guard spot_id reason = set_guard spot_id Blocked (take 500 (py_strip reason))"

definition delete_cancellation_policy :: "int \<Rightarrow> world \<Rightarrow> world" where
  "delete_cancellation_policy spot_id w = w\<lparr>wd_policies := AList.delete spot_id (wd_policies w)\<rparr>"

definition snapshot_cancellation_policy ::
  "services \<Rightarrow> int \<Rightarrow> int option \<Rightarrow> string option \<Rightarrow> (int \<times> string \<times> bool) act" where
  "snapshot_cancellation_policy sv spot_id cancellation_fee fee_to w = (case policy_row spot_id w of
     Some (fee, address) \<Rightarrow> (Inr (fee, address, False), w)
   | None \<Rightarrow>
     let fee = max 0 (case cancellation_fee of None \<Rightarrow> SPOT_CANCELLATION_FEE | Some f \<Rightarrow> f);
         configured = py_strip (or_text (case fee_to of None \<Rightarrow> [] | Some a \<Rightarrow> a) (sv_fee_address sv))
     in (case normalise_nimiq_address (allow_placeholders (sv_settings sv)) configured of
           Inl e \<Rightarrow> (Inl e, w)
         | Inr address \<Rightarrow>
             if \<not> has_spot (wd_db w) spot_id then (Inl (IntegrityError ''FOREIGN KEY constraint failed''), w)
             else (Inr (fee, address, True), w\<lparr>wd_policies := AList.update spot_id (fee, address) (wd_policies w)\<rparr>)))"

definition failed_cancellation_legs :: "trans_row list \<Rightarrow> trans_row list" where
  "failed_cancellation_legs rows =
     filter (\<lambda>t. is_cancellation_type (tr_type t) \<and> tr_status t = TRANS_STATUS_FAILED) rows"

definition single_retryable_failed_refund :: "trans_row list \<Rightarrow> trans_row option" where
  "single_retryable_failed_refund rows =
    (case filter (\<lambda>t. tr_type t = TRANS_TYPE_CANCEL_SPOT \<and> tr_status t = TRANS_STATUS_FAILED) rows of
       [t] \<Rightarrow> if list_ex (\<lambda>t. tr_type t = TRANS_TYPE_CANCEL_SPOT \<and> tr_status t \<noteq> TRANS_STATUS_FAILED) rows
                 \<or> list_ex (\<lambda>t. tr_type t = TRANS_TYPE_PLAT_FEE \<and> tr_status t = TRANS_STATUS_FAILED) rows
              then None else Some t
     | _ \<Rightarrow> None)"

definition failed_refund_is_definitively_failed :: "transport \<Rightarrow> trans_row \<Rightarrow> bool" where
  "failed_refund_is_definitively_failed http t =
    (let tx_hash = py_strip (tr_tx_hash t) in
     is_transaction_hash tx_hash
     \<and> (case get_chain_transaction_status http tx_hash of Inl _ \<Rightarrow> False
        | Inr st \<Rightarrow> st_status st = Failed \<and> execution_result_is_failure (st_raw st)))"

definition refund_failure_proven :: "transport \<Rightarrow> trans_row list \<Rightarrow> bool" where
  "refund_failure_proven http rows = (case single_retryable_failed_refund rows of
     None \<Rightarrow> False | Some t \<Rightarrow> failed_refund_is_definitively_failed http t)"

definition run_under_lease ::
  "services \<Rightarrow> int \<Rightarrow> (int \<times> string \<times> bool) \<Rightarrow> cancel_outcome act" where
  "run_under_lease sv spot_id policy w = (case guard_row spot_id w of
     Some (state, reason) \<Rightarrow> (Inr (Paused reason), w)
   | None \<Rightarrow>
     let (fee, address, policy_created) = policy;
         w0 = set_guard spot_id Processing ''cancellation send started'' w
     in (case submit_spot_cancellation_transactions sv spot_id (Some fee) (Some address) w0 of
           (Inl (ValueError m), w1) \<Rightarrow>
             (Inl (ValueError m),
              (if policy_created then delete_cancellation_policy spot_id else id) (release_guard spot_id w1))
         | (Inl e, w1) \<Rightarrow> (Inl e, block_guard spot_id ''cancellation raised after lease acquisition'' w1)
         | (Inr result, w1) \<Rightarrow>
             if result = Deferred ''send_retry_pending''
             then (Inr (Paused ''cancellation helper returned an ambiguous send result''),
                   block_guard spot_id ''cancellation helper returned an ambiguous send result'' w1)
             else (Inr result, release_guard spot_id w1)))"

definition guarded_submit_spot_cancellation_transactions ::
  "services \<Rightarrow> int \<Rightarrow> int option \<Rightarrow> string option \<Rightarrow> cancel_outcome act" where
  "guarded_submit_spot_cancellation_transactions sv spot_id cancellation_fee fee_to w =
    (let rows = get_transactions_by_spot spot_id MAX_LIMIT 0 (wd_db w);
         proven = refund_failure_proven (sv_http sv) rows;
         recoverable = (guard_row spot_id w = Some (Blocked, RETRYABLE_FAILED_REFUND_GUARD_REASON) \<and> proven)
     in case (if recoverable then None else guard_row spot_id w) of
       Some (state, reason) \<Rightarrow> (Inr (Paused reason), w)
     | None \<Rightarrow>
       let w0 = (if recoverable then release_guard spot_id w else w) in
       if failed_cancellation_legs rows \<noteq> [] \<and> \<not> proven
       then (Inr (Paused RETRYABLE_FAILED_REFUND_GUARD_REASON),
             block_guard spot_id RETRYABLE_FAILED_REFUND_GUARD_REASON w0)
       else bindA (snapshot_cancellation_policy sv spot_id cancellation_fee fee_to) (run_under_lease sv spot_id) w0)"

end
