(* ===== verification/Settlement.thy ===== *)
theory Settlement
  imports SpotCancellation
begin

text \<open>
  \<^verbatim>\<open>settlement_updater.py\<close>: paying successful claims, drawing and paying
  Prizedraw winners, expiring duration claims, returning what is left of a Spot,
  and the pass that runs them all. The payout and the cancellation of
  \<^verbatim>\<open>trans_updater.py\<close> are replaced at start-up by guarded versions and looked up
  when called: they are the fields of \<open>hooks\<close>. The wall clock is \<open>db_now\<close>; notifications of the cache are left out.
\<close>

record hooks =
  hk_pay :: "int \<Rightarrow> int \<Rightarrow> send_outcome act"
  hk_cancel :: "int \<Rightarrow> cancel_outcome act"

definition MAX_SETTLEMENTS_PER_RUN :: int where
  [const_defs]: "MAX_SETTLEMENTS_PER_RUN = 50"

definition MAX_DURATION_CLAIMS_PER_RUN :: int where
  [const_defs]: "MAX_DURATION_CLAIMS_PER_RUN = 200"

definition MAX_STANDARD_PAYOUTS_PER_RUN :: int where
  [const_defs]: "MAX_STANDARD_PAYOUTS_PER_RUN = 200"

definition MAX_REMAINDER_REFUNDS_PER_RUN :: int where
  [const_defs]: "MAX_REMAINDER_REFUNDS_PER_RUN = 50"

section \<open>Amounts\<close>

definition spot_absolute_ends_at :: "spot_row \<Rightarrow> int option" where
  "spot_absolute_ends_at s = map_option (\<lambda>t. t + sp_ends_at s) (sp_starts_at s)"

definition prize_amounts :: "int \<Rightarrow> nat \<Rightarrow> int list" where
  "prize_amounts total_value winner_count =
    (if winner_count = 0 then []
     else let base = total_value div int winner_count; remainder = total_value mod int winner_count
          in (replicate winner_count base)[0 := base + remainder])"

definition prize_amounts_by_claim_id :: "int \<Rightarrow> int list \<Rightarrow> (int \<times> int) list" where
  "prize_amounts_by_claim_id total_value winner_claim_ids =
    (let clean_ids = sort (remdups (filter (\<lambda>i. 0 < i) winner_claim_ids))
     in zip clean_ids (prize_amounts total_value (length clean_ids)))"

definition standard_claim_payout_amount :: "spot_row \<Rightarrow> int" where
  "standard_claim_payout_amount s =
     (if sp_max_total_claims s \<le> 0 then 0 else sp_total_value s div sp_max_total_claims s)"

text \<open>\<^verbatim>\<open>int(retry_amount or amount)\<close>: what failed before is sent again.\<close>

definition retry_or :: "int option \<Rightarrow> int \<Rightarrow> int" where
  "retry_or retry_amount amount = (case retry_amount of None \<Rightarrow> amount | Some a \<Rightarrow> if a = 0 then amount else a)"

section \<open>Work lists\<close>

fun for_each :: "('x \<Rightarrow> 'a act) \<Rightarrow> 'x list \<Rightarrow> 'a list act" where
  "for_each f [] = returnA []"
| "for_each f (x # xs) = bindA (f x) (\<lambda>y. bindA (for_each f xs) (\<lambda>ys. returnA (y # ys)))"

text \<open>\<^verbatim>\<open>except Exception as exc\<close>: the error becomes a value.\<close>

definition attempt :: "'a act \<Rightarrow> (py_error + 'a) act" where
  "attempt m w = (case m w of (r, w') \<Rightarrow> (Inr r, w'))"

section \<open>Standard claims\<close>

datatype payout_outcome = NotPaid bool string | PaidBefore | PaidConcurrently | PayoutSubmitted send_outcome

definition standard_payout_decision :: "int \<Rightarrow> db \<Rightarrow> payout_outcome + int" where
  "standard_payout_decision claim_id d = (case get_claim claim_id d of
     None \<Rightarrow> Inl (NotPaid False ''claim_missing'')
   | Some detail \<Rightarrow>
     let c = cd_claim detail in
     if cl_status c \<noteq> CLAIM_STATUS_SUCCESS then Inl (NotPaid True ''claim_not_successful'')
     else (case get_spot (cl_spot_id c) d of
       None \<Rightarrow> Inl (NotPaid False ''spot_missing'')
     | Some s \<Rightarrow>
       if is_prizedraw (sp_id s) d then Inl (NotPaid True ''prizedraw_managed_separately'')
       else if has_nonfailed_claim_payout_transaction claim_id d then Inl PaidBefore
       else let amount = retry_or (latest_failed_claim_payout_amount claim_id d) (standard_claim_payout_amount s)
         in if amount \<le> 0 then Inl (NotPaid False ''invalid_payout_amount'') else Inr amount))"

definition payout_send_failed :: "int \<Rightarrow> py_error \<Rightarrow> payout_outcome act" where
  "payout_send_failed claim_id e =
     bindA (readA (has_nonfailed_claim_payout_transaction claim_id)) (\<lambda>live.
     case e of
       RuntimeError m \<Rightarrow> if contains ''already has a non-failed payout transaction'' m \<and> live
         then returnA PaidConcurrently else raiseA e
     | _ \<Rightarrow> raiseA e)"

definition payout_standard_claim_if_ready :: "hooks \<Rightarrow> int \<Rightarrow> (py_error + payout_outcome) act" where
  "payout_standard_claim_if_ready hk claim_id =
     attempt (bindA (readA (standard_payout_decision claim_id)) (\<lambda>decision. case decision of
       Inl outcome \<Rightarrow> returnA outcome
     | Inr amount \<Rightarrow> catchA (mapA PayoutSubmitted (hk_pay hk claim_id amount)) (payout_send_failed claim_id)))"

definition retry_unpaid_standard_claim_payouts :: "hooks \<Rightarrow> int \<Rightarrow> (py_error + payout_outcome) list act" where
  "retry_unpaid_standard_claim_payouts hk max_claims =
     bindA (readA (get_unpaid_successful_standard_claim_ids None max_claims 0))
       (for_each (payout_standard_claim_if_ready hk))"

section \<open>Drawing a Prizedraw\<close>

definition ready_prizedraw_spot_ids :: "int \<Rightarrow> db \<Rightarrow> int list" where
  "ready_prizedraw_spot_ids limit d = take (nat (max 1 limit)) (map sp_id
     (sort_key (\<lambda>s. if sp_starts_at s = None then 0 else 1 :: int)
     (sort_key (\<lambda>s. case sp_starts_at s of None \<Rightarrow> 0 | Some t \<Rightarrow> t)
     (sort_key sp_id (filter (\<lambda>s. is_prizedraw (sp_id s) d \<and> sp_status s = SPOT_STATUS_PUBLISHED
        \<and> (0 < sp_max_total_claims s
             \<and> sp_max_total_claims s \<le> count_claims_by_status_for_spot (sp_id s) CLAIM_STATUS_PENDING d
                 + count_claims_by_status_for_spot (sp_id s) CLAIM_STATUS_SUCCESS d
           \<or> (case spot_absolute_ends_at s of None \<Rightarrow> False | Some e \<Rightarrow> e \<le> db_now d)))
        (db_spots d))))))"

definition settlement_ready_reason :: "spot_row \<Rightarrow> int \<Rightarrow> db \<Rightarrow> string option" where
  "settlement_ready_reason s now d =
    (if 0 < sp_max_total_claims s
        \<and> sp_max_total_claims s \<le> count_claims_by_status_for_spot (sp_id s) CLAIM_STATUS_PENDING d
            + count_claims_by_status_for_spot (sp_id s) CLAIM_STATUS_SUCCESS d
     then Some ''capacity_reached''
     else if (case spot_absolute_ends_at s of None \<Rightarrow> False | Some e \<Rightarrow> e \<le> now) then Some ''spot_ended''
     else None)"

text \<open>
  \<^verbatim>\<open>SystemRandom.sample\<close>: \<open>k\<close> draws without replacement; \<open>draws k\<close> is the random
  number behind the draw with \<open>k\<close> more to come.
\<close>

primrec draw_sample :: "(nat \<Rightarrow> nat) \<Rightarrow> 'a list \<Rightarrow> nat \<Rightarrow> 'a list" where
  "draw_sample draws pool 0 = []"
| "draw_sample draws pool (Suc k) =
    (if pool = [] then []
     else let j = draws k mod length pool
          in pool ! j # draw_sample draws (take j pool @ drop (Suc j) pool) k)"

datatype draw_decision = NotDrawn bool string | Drawn string int "int list"

definition draw_winners :: "(nat \<Rightarrow> nat) \<Rightarrow> int \<Rightarrow> db \<Rightarrow> int list" where
  "draw_winners draws spot_id d =
    (let successful_claims = get_successful_claims_for_spot spot_id MAX_LIMIT d;
         configured = (case get_prizedraw spot_id d of None \<Rightarrow> 1 | Some p \<Rightarrow> pd_prize_count p);
         winner_count = min (nat (max 1 configured)) (length successful_claims)
     in sort (map (\<lambda>w. cl_id (cd_claim w)) (draw_sample draws successful_claims winner_count)))"

definition persist_winners :: "int \<Rightarrow> string \<Rightarrow> int \<Rightarrow> int list \<Rightarrow> db \<Rightarrow> (draw_decision \<times> db) res" where
  "persist_winners spot_id ready_reason failed_pending_count winner_claim_ids d =
     bindE (mark_prizedraw_winners_pending spot_id winner_claim_ids d) (\<lambda>(_, updated_count, d1).
       if updated_count \<noteq> int (length winner_claim_ids)
       then Inl (RuntimeError ''not all selected Prizedraw winners were persisted'')
       else bindE (set_spot_status_to_completed spot_id d1) (\<lambda>d2.
         Inr (Drawn ready_reason failed_pending_count winner_claim_ids, d2)))"

definition close_draw :: "(nat \<Rightarrow> nat) \<Rightarrow> int \<Rightarrow> string \<Rightarrow> int \<times> db \<Rightarrow> (draw_decision \<times> db) res" where
  "close_draw draws spot_id ready_reason r =
     persist_winners spot_id ready_reason (fst r) (draw_winners draws spot_id (snd r)) (snd r)"

definition draw_prizedraw :: "(nat \<Rightarrow> nat) \<Rightarrow> int \<Rightarrow> db \<Rightarrow> (draw_decision \<times> db) res" where
  "draw_prizedraw draws spot_id d = (case get_spot spot_id d of
     None \<Rightarrow> Inr (NotDrawn False ''spot_missing'', d)
   | Some s \<Rightarrow>
     if sp_status s \<noteq> SPOT_STATUS_PUBLISHED then Inr (NotDrawn True ''not_published'', d)
     else if \<not> is_prizedraw spot_id d then Inr (NotDrawn True ''not_prizedraw'', d)
     else (case settlement_ready_reason s (db_now d) d of
       None \<Rightarrow> Inr (NotDrawn True ''not_ready'', d)
     | Some ready_reason \<Rightarrow>
       bindE (fail_pending_claims_for_spot spot_id d) (close_draw draws spot_id ready_reason)))"

section \<open>Paying the winners\<close>

datatype payout_job = JobRecorded int | JobNoAmount int | JobSend int int

fun payout_jobs :: "(int \<times> int) list \<Rightarrow> int list \<Rightarrow> db \<Rightarrow> (payout_job list \<times> db) res" where
  "payout_jobs amounts [] d = Inr ([], d)"
| "payout_jobs amounts (claim_id # claim_ids) d =
    (if has_confirmed_claim_payout_transaction claim_id d
     then bindE (set_claim_status_to_success claim_id d) (payout_jobs amounts claim_ids)
     else let amount = retry_or (latest_failed_claim_payout_amount claim_id d)
                (case map_of amounts claim_id of None \<Rightarrow> 0 | Some a \<Rightarrow> a);
              job = (if has_nonfailed_claim_payout_transaction claim_id d then JobRecorded claim_id
                     else if amount \<le> 0 then JobNoAmount claim_id else JobSend claim_id amount)
       in bindE (payout_jobs amounts claim_ids d) (\<lambda>(jobs, d'). Inr (job # jobs, d')))"

datatype jobs_decision = NoJobs bool string | Jobs "payout_job list"

definition collect_payout_jobs :: "int \<Rightarrow> db \<Rightarrow> (jobs_decision \<times> db) res" where
  "collect_payout_jobs spot_id d = (case get_spot spot_id d of
     None \<Rightarrow> Inr (NoJobs False ''spot_missing'', d)
   | Some s \<Rightarrow>
     if sp_status s \<noteq> SPOT_STATUS_COMPLETED then Inr (NoJobs True ''not_completed'', d)
     else if \<not> is_prizedraw spot_id d then Inr (NoJobs True ''not_prizedraw'', d)
     else let pending_winners = map (\<lambda>c. cl_id (cd_claim c)) (get_pending_claims_for_spot spot_id MAX_LIMIT d)
       in if pending_winners = [] then Inr (NoJobs True ''no_pending_winners'', d)
       else let amount_by_claim_id = prize_amounts_by_claim_id (sp_total_value s)
                  (get_prizedraw_winner_claim_ids spot_id d)
         in bindE (payout_jobs amount_by_claim_id (sort pending_winners) d) (\<lambda>(jobs, d').
            Inr (Jobs jobs, d')))"

datatype job_result = JobDone bool string | JobSubmitted send_outcome

definition run_payout_job :: "hooks \<Rightarrow> payout_job \<Rightarrow> job_result act" where
  "run_payout_job hk job = (case job of
     JobRecorded _ \<Rightarrow> returnA (JobDone True ''pending_payout_already_recorded'')
   | JobNoAmount _ \<Rightarrow> returnA (JobDone False ''missing_payout_amount'')
   | JobSend claim_id amount \<Rightarrow> mapA JobSubmitted (hk_pay hk claim_id amount))"

datatype retry_outcome = NotRetried bool string | Retried "job_result list"

definition retry_pending_prizedraw_payouts_for_spot :: "hooks \<Rightarrow> int \<Rightarrow> (py_error + retry_outcome) act" where
  "retry_pending_prizedraw_payouts_for_spot hk spot_id =
     attempt (bindA (in_transaction (collect_payout_jobs spot_id)) (\<lambda>decision. case decision of
       NoJobs ok reason \<Rightarrow> returnA (NotRetried ok reason)
     | Jobs jobs \<Rightarrow> mapA Retried (for_each (run_payout_job hk) jobs)))"

definition retry_pending_prizedraw_payouts :: "hooks \<Rightarrow> int \<Rightarrow> (py_error + retry_outcome) list act" where
  "retry_pending_prizedraw_payouts hk max_spots =
     bindA (readA (get_completed_prizedraw_spot_ids_with_pending_winners max_spots 0))
       (for_each (retry_pending_prizedraw_payouts_for_spot hk))"

datatype settle_outcome = NotSettled bool string | Settled string int "int list" "py_error + retry_outcome"

definition settle_prizedraw_spot_if_ready ::
  "hooks \<Rightarrow> (nat \<Rightarrow> nat) \<Rightarrow> int \<Rightarrow> (py_error + settle_outcome) act" where
  "settle_prizedraw_spot_if_ready hk draws spot_id =
     attempt (bindA (in_transaction (draw_prizedraw draws spot_id)) (\<lambda>decision. case decision of
       NotDrawn ok reason \<Rightarrow> returnA (NotSettled ok reason)
     | Drawn reason failed winners \<Rightarrow>
         mapA (Settled reason failed winners) (retry_pending_prizedraw_payouts_for_spot hk spot_id)))"

definition settle_ready_prizedraws ::
  "hooks \<Rightarrow> (int \<Rightarrow> nat \<Rightarrow> nat) \<Rightarrow> int \<Rightarrow> (py_error + settle_outcome) list act" where
  "settle_ready_prizedraws hk draws max_settlements =
     bindA (readA (ready_prizedraw_spot_ids max_settlements))
       (for_each (\<lambda>spot_id. settle_prizedraw_spot_if_ready hk (draws spot_id) spot_id))"

section \<open>Duration claims\<close>

text \<open>The status before and after, or \<open>None\<close> when the claim is gone.\<close>

definition settle_duration_claim :: "int \<Rightarrow> db \<Rightarrow> ((int \<times> int) option \<times> db) res" where
  "settle_duration_claim claim_id d =
     bindE (refresh_claim_status_from_conditions policy_promoter claim_id d) (\<lambda>(after_refresh, d').
       Inr (case (get_claim claim_id d, after_refresh) of
              (Some before, Some o') \<Rightarrow> Some (cl_status (cd_claim before), outcome_status o')
            | _ \<Rightarrow> None, d'))"

definition settle_pending_duration_claims :: "int \<Rightarrow> (int \<times> int) option list act" where
  "settle_pending_duration_claims max_claims =
     bindA (readA (get_pending_duration_claim_ids max_claims 0))
       (for_each (\<lambda>claim_id. in_transaction (settle_duration_claim claim_id)))"

section \<open>The remainder of a Spot\<close>

datatype remainder_decision = KeepFunds bool string | NothingLeft | ReturnFunds int string string

definition remainder_blocking_type :: "int \<Rightarrow> bool" where
  "remainder_blocking_type ty \<longleftrightarrow> ty = TRANS_TYPE_FILL_SPOT \<or> ty = TRANS_TYPE_CLAIM
     \<or> ty = TRANS_TYPE_CREATION_FEE \<or> ty = TRANS_TYPE_REMAINDER_REFUND"

definition remainder_amount :: "trans_row list \<Rightarrow> int" where
  "remainder_amount rows = max 0 (rows_total TRANS_TYPE_FILL_SPOT TRANS_STATUS_CONFIRMED rows
     - rows_total TRANS_TYPE_CLAIM TRANS_STATUS_CONFIRMED rows
     - rows_total TRANS_TYPE_CREATION_FEE TRANS_STATUS_CONFIRMED rows
     - rows_total TRANS_TYPE_REMAINDER_REFUND TRANS_STATUS_CONFIRMED rows)"

text \<open>The listing order is newest first, unlike in a cancellation.\<close>

definition remainder_source :: "trans_row list \<Rightarrow> trans_row option" where
  "remainder_source rows = find (\<lambda>t. tr_type t = TRANS_TYPE_FILL_SPOT \<and> tr_status t = TRANS_STATUS_CONFIRMED
     \<and> py_strip (tr_from_address t) \<noteq> []) rows"

definition remainder_terminal :: "spot_row \<Rightarrow> db \<Rightarrow> bool" where
  "remainder_terminal s d \<longleftrightarrow>
     (case spot_absolute_ends_at s of None \<Rightarrow> False | Some e \<Rightarrow> e \<le> db_now d)
     \<or> 0 < sp_max_total_claims s
       \<and> sp_max_total_claims s \<le> count_claims_by_status_for_spot (sp_id s) CLAIM_STATUS_SUCCESS d"

definition plan_remainder :: "spot_row \<Rightarrow> bool \<Rightarrow> db \<Rightarrow> (remainder_decision \<times> db) res" where
  "plan_remainder s should_complete d =
    (let spot_id = sp_id s; rows = get_transactions_by_spot spot_id MAX_LIMIT 0 d in
     if \<not> is_prizedraw spot_id d \<and> 0 < count_successful_standard_claims_without_confirmed_payout spot_id d
     then Inr (KeepFunds True ''claim_payouts_unconfirmed'', d)
     else if list_ex (\<lambda>t. remainder_blocking_type (tr_type t) \<and> tr_status t = TRANS_STATUS_PENDING) rows
     then Inr (KeepFunds True ''financial_transaction_pending'', d)
     else if rows_total TRANS_TYPE_CREATION_FEE TRANS_STATUS_CONFIRMED rows < spot_creation_fee_amount s
     then Inr (KeepFunds True ''creation_fee_unconfirmed'', d)
     else bindE (if should_complete then set_spot_status_to_completed spot_id d else Inr d) (\<lambda>d1.
       if remainder_amount rows \<le> 0 then Inr (NothingLeft, mark_spot_remainder_settled spot_id d1)
       else (case remainder_source rows of
         None \<Rightarrow> Inr (KeepFunds False ''confirmed_deposit_sender_missing'', d1)
       | Some t \<Rightarrow> Inr (ReturnFunds (remainder_amount rows) (py_strip (tr_from_address t))
                        (py_strip (tr_tx_hash t)), d1))))"

definition prepare_remainder :: "int \<Rightarrow> db \<Rightarrow> (remainder_decision \<times> db) res" where
  "prepare_remainder spot_id d = (case get_spot spot_id d of
     None \<Rightarrow> Inr (KeepFunds False ''spot_missing'', d)
   | Some s \<Rightarrow>
     if sp_status s = SPOT_STATUS_CANCELLED \<or> sp_status s = SPOT_STATUS_BANNED
     then Inr (KeepFunds True ''terminal_without_refund'', d)
     else if sp_cancellation_started_at s \<noteq> None then Inr (KeepFunds True ''cancellation_managed_separately'', d)
     else if 0 < count_claims_by_status_for_spot spot_id CLAIM_STATUS_PENDING d
     then Inr (KeepFunds True ''pending_claims'', d)
     else if sp_status s = SPOT_STATUS_PUBLISHED
     then (if is_prizedraw spot_id d then Inr (KeepFunds True ''prizedraw_not_settled'', d)
           else if \<not> remainder_terminal s d then Inr (KeepFunds True ''not_terminal'', d)
           else plan_remainder s True d)
     else if sp_status s \<noteq> SPOT_STATUS_COMPLETED then Inr (KeepFunds True ''not_terminal'', d)
     else plan_remainder s False d)"

datatype remainder_outcome = Kept bool string | NoRemainder | RefundAddressPending
  | RefundedConcurrently | RemainderSubmitted send_outcome

definition remainder_send_failed :: "int \<Rightarrow> py_error \<Rightarrow> remainder_outcome act" where
  "remainder_send_failed spot_id e =
     bindA (readA (has_nonfailed_spot_remainder_refund_transaction spot_id)) (\<lambda>live.
     case e of
       RuntimeError m \<Rightarrow> if contains ''already has a non-failed remainder refund transaction'' m \<and> live
         then returnA RefundedConcurrently else raiseA e
     | _ \<Rightarrow> raiseA e)"

definition return_remainder ::
  "services \<Rightarrow> int \<Rightarrow> int \<Rightarrow> string \<Rightarrow> string \<Rightarrow> remainder_outcome act" where
  "return_remainder sv spot_id amount refund_address source_tx_hash w =
    (case sv_resolve sv refund_address (if source_tx_hash = [] then None else Some source_tx_hash)
        (wd_db w) (wd_security w) of
       Inl _ \<Rightarrow> (Inr RefundAddressPending, w)
     | Inr resolved \<Rightarrow>
         catchA (mapA RemainderSubmitted (submit_spot_remainder_refund_transaction sv spot_id resolved amount))
           (remainder_send_failed spot_id) w)"

definition settle_spot_remainder_if_ready ::
  "services \<Rightarrow> int \<Rightarrow> (py_error + remainder_outcome) act" where
  "settle_spot_remainder_if_ready sv spot_id =
     attempt (bindA (in_transaction (prepare_remainder spot_id)) (\<lambda>decision. case decision of
       KeepFunds ok reason \<Rightarrow> returnA (Kept ok reason)
     | NothingLeft \<Rightarrow> returnA NoRemainder
     | ReturnFunds amount refund_address source_tx_hash \<Rightarrow>
         return_remainder sv spot_id amount refund_address source_tx_hash))"

definition settle_spot_remainders :: "services \<Rightarrow> int \<Rightarrow> (py_error + remainder_outcome) list act" where
  "settle_spot_remainders sv max_spots =
     bindA (readA (\<lambda>d. get_spot_ids_ready_for_remainder_refund (db_now d) max_spots d))
       (for_each (settle_spot_remainder_if_ready sv))"

section \<open>The pass\<close>

definition retry_pending_spot_cancellations :: "hooks \<Rightarrow> int \<Rightarrow> (py_error + cancel_outcome) list act" where
  "retry_pending_spot_cancellations hk limit =
     bindA (readA (get_pending_cancellation_spot_ids limit)) (for_each (\<lambda>spot_id. attempt (hk_cancel hk spot_id)))"

definition run_settlement_pass :: "services \<Rightarrow> hooks \<Rightarrow> (int \<Rightarrow> nat \<Rightarrow> nat) \<Rightarrow> unit act" where
  "run_settlement_pass sv hk draws =
     bindA (settle_pending_duration_claims MAX_DURATION_CLAIMS_PER_RUN) (\<lambda>_.
     bindA (retry_unpaid_standard_claim_payouts hk MAX_STANDARD_PAYOUTS_PER_RUN) (\<lambda>_.
     bindA (settle_ready_prizedraws hk draws MAX_SETTLEMENTS_PER_RUN) (\<lambda>_.
     bindA (retry_pending_prizedraw_payouts hk MAX_SETTLEMENTS_PER_RUN) (\<lambda>_.
     bindA (settle_spot_remainders sv MAX_REMAINDER_REFUNDS_PER_RUN) (\<lambda>_.
     bindA (retry_pending_spot_cancellations hk 50) (\<lambda>_. returnA ()))))))"

end
