(* ===== verification/CancelProps.thy ===== *)
theory CancelProps
  imports DepositProps SpotCancellation "HOL-Library.Sublist"
begin

text \<open>
  What a cancellation guarantees: it spends exactly what is left of the
  confirmed deposits, it waits for everything that could still move money, and
  under its lease an ambiguous attempt is never repeated.
\<close>

section \<open>The ledger of one Spot\<close>

definition spot_total :: "int \<Rightarrow> int \<Rightarrow> int \<Rightarrow> db \<Rightarrow> int" where
  "spot_total spot_id ty st d =
     sum_where tr_amount (\<lambda>t. tr_spot_id t = Some spot_id \<and> tr_type t = ty \<and> tr_status t = st) (db_trans d)"

definition spot_rows_listed :: "int \<Rightarrow> db \<Rightarrow> bool" where
  "spot_rows_listed spot_id d \<longleftrightarrow> count_where (\<lambda>t. tr_spot_id t = Some spot_id) (db_trans d) \<le> MAX_LIMIT"

lemma db_ok_view_trans: "db_ok d \<Longrightarrow> view_trans_detail d = db_trans d"
  unfolding view_trans_detail_def by (rule filter_True) (auto simp: db_ok_def trans_ok_def list_all_iff)

lemma mset_newest_first: "mset (newest_first ts) = mset ts"
  by (simp add: newest_first_def)

lemma transactions_by_spot_mset:
  assumes "db_ok d" and "spot_rows_listed sp d"
  shows "mset (get_transactions_by_spot sp MAX_LIMIT 0 d) = mset (filter (\<lambda>t. tr_spot_id t = Some sp) (db_trans d))"
proof -
  let ?l = "newest_first (filter (\<lambda>t. tr_spot_id t = Some sp) (db_trans d))"
  have "length ?l = length (filter (\<lambda>t. tr_spot_id t = Some sp) (db_trans d))"
    by (simp add: newest_first_def)
  then have "int (length ?l) \<le> MAX_LIMIT" using assms(2) by (simp add: spot_rows_listed_def count_where_def)
  then have "page MAX_LIMIT 0 ?l = ?l"
    by (simp add: page_def clamp_limit_def normalise_offset_def const_defs)
  then show ?thesis
    by (simp add: get_transactions_by_spot_def db_ok_view_trans [OF assms(1)] mset_newest_first)
qed

lemma sum_where_mset: "mset xs = mset ys \<Longrightarrow> sum_where f P xs = sum_where f P ys"
  unfolding sum_where_def by (metis mset_filter mset_map sum_mset_sum_list)

lemma rows_total_listed:
  assumes "db_ok d" and "spot_rows_listed sp d"
  shows "rows_total ty st (get_transactions_by_spot sp MAX_LIMIT 0 d) = spot_total sp ty st d"
proof -
  have "rows_total ty st (get_transactions_by_spot sp MAX_LIMIT 0 d)
      = rows_total ty st (filter (\<lambda>t. tr_spot_id t = Some sp) (db_trans d))"
    unfolding rows_total_def by (rule sum_where_mset [OF transactions_by_spot_mset [OF assms]])
  also have "\<dots> = spot_total sp ty st d"
    by (simp add: rows_total_def spot_total_def sum_where_def conj_commute conj_left_commute)
  finally show ?thesis .
qed

lemma listed_set:
  assumes "db_ok d" and "spot_rows_listed sp d"
  shows "set (get_transactions_by_spot sp MAX_LIMIT 0 d) = {t \<in> set (db_trans d). tr_spot_id t = Some sp}"
  using mset_eq_setD [OF transactions_by_spot_mset [OF assms]] by auto

section \<open>Requests of one act\<close>

text \<open>
  Whatever state an act starts from, the amounts it hands to the signer are, in
  this order, some of the listed ones.
\<close>

definition requests_from :: "int list \<Rightarrow> 'a act \<Rightarrow> bool" where
  "requests_from amounts m \<longleftrightarrow> (\<forall>w. \<exists>sent. wd_sent (snd (m w)) = wd_sent w @ sent
     \<and> subseq (map (rq_amount \<circ> snd) sent) amounts)"

lemma no_requests: "(\<And>w. wd_sent (snd (m w)) = wd_sent w) \<Longrightarrow> requests_from as m"
  by (simp add: requests_from_def)

lemma requests_bind:
  assumes "requests_from as m" and "\<And>x. requests_from bs (k x)"
  shows "requests_from (as @ bs) (bindA m k)"
  unfolding requests_from_def
proof
  fix w
  obtain r w1 where m: "m w = (r, w1)" by fastforce
  obtain s1 where s1: "wd_sent w1 = wd_sent w @ s1" "subseq (map (rq_amount \<circ> snd) s1) as"
    using assms(1) m unfolding requests_from_def by (metis snd_conv)
  show "\<exists>sent. wd_sent (snd (bindA m k w)) = wd_sent w @ sent \<and> subseq (map (rq_amount \<circ> snd) sent) (as @ bs)"
  proof (cases r)
    case (Inl e)
    then show ?thesis using m s1 by (intro exI [of _ s1]) (simp add: bindA_def list_emb_prefix)
  next
    case (Inr x)
    obtain s2 where s2: "wd_sent (snd (k x w1)) = wd_sent w1 @ s2" "subseq (map (rq_amount \<circ> snd) s2) bs"
      using assms(2) [of x] unfolding requests_from_def by blast
    then show ?thesis using m s1 Inr list_emb_append_mono [OF s1(2) s2(2)]
      by (intro exI [of _ "s1 @ s2"]) (simp add: bindA_def)
  qed
qed

lemma requests_catch:
  assumes "requests_from as m" and "\<And>e w. wd_sent (snd (h e w)) = wd_sent w"
  shows "requests_from as (catchA m h)"
proof -
  have "wd_sent (snd (catchA m h w)) = wd_sent (snd (m w))" for w
  proof -
    obtain r w1 where m: "m w = (r, w1)" by fastforce
    then show ?thesis using assms(2) by (cases r) (simp_all add: catchA_def)
  qed
  then show ?thesis using assms(1) by (simp add: requests_from_def)
qed

lemma recorded_send_requests:
  "requests_from [a] (submit_recorded_chain_send sv s to_addr a memo k p create)"
  unfolding requests_from_def
proof
  fix w
  obtain r w' where run: "submit_recorded_chain_send sv s to_addr a memo k p create w = (r, w')" by fastforce
  have am: "rq_amount rq = a" if "build_send_request sv s t a memo = Inr rq" for t rq
    using that unfolding build_send_request_def
    by (auto simp: Let_def elim!: bindE_InrE split: if_split_asm option.split_asm)
  have "\<exists>sent. wd_sent w' = wd_sent w @ sent \<and> subseq (map (rq_amount \<circ> snd) sent) [a]"
    using run
  proof (cases rule: recorded_send_cases)
    case refused
    then show ?thesis by (intro exI [of _ "[]"]) simp
  next
    case (intent i d1 f t h sent)
    then show ?thesis using am by (intro exI [of _ sent]) auto
  qed
  then show "\<exists>sent. wd_sent (snd (submit_recorded_chain_send sv s to_addr a memo k p create w)) = wd_sent w @ sent
     \<and> subseq (map (rq_amount \<circ> snd) sent) [a]"
    by (simp add: run)
qed

lemma requests_return: "requests_from as (returnA x)"
  and requests_raise: "requests_from as (raiseA e)"
  and requests_read: "requests_from as (readA g)"
  by (rule no_requests, simp add: returnA_def raiseA_def readA_def)+

lemma requests_map:
  assumes "requests_from as m" shows "requests_from as (mapA f m)"
  unfolding mapA_def using requests_bind [OF assms requests_return [of "[]"]] by simp

lemma requests_if:
  "requests_from as m \<Longrightarrow> requests_from as m' \<Longrightarrow> requests_from as (if b then m else m')"
  by simp

lemma requests_bind_spot:
  assumes "\<And>s. requests_from as (k s)"
  shows "requests_from as (bind_spot i k)"
proof -
  have "requests_from ([] @ as) (bind_spot i k)"
    unfolding bind_spot_def
  proof (rule requests_bind [OF requests_read])
    show "requests_from as (case s of None \<Rightarrow> raiseA (ValueError ''spot does not exist'') | Some r \<Rightarrow> k r)" for s
      using assms requests_raise by (cases s) auto
  qed
  then show ?thesis by simp
qed

lemma requests_sum:
  "(\<And>e. requests_from as (f e)) \<Longrightarrow> (\<And>x. requests_from as (g x)) \<Longrightarrow>
   requests_from as (case r of Inl e \<Rightarrow> f e | Inr x \<Rightarrow> g x)"
  by (cases r) simp_all

lemmas requests_intros = requests_if requests_return requests_raise requests_bind_spot requests_map recorded_send_requests

lemma platform_fee_requests: "requests_from [a] (submit_platform_fee_transaction sv sp a f)"
  unfolding submit_platform_fee_transaction_def Let_def by (intro requests_intros)

lemma spot_refund_requests: "requests_from [a] (submit_spot_refund_transaction sv sp t a)"
  unfolding submit_spot_refund_transaction_def by (intro requests_intros)

lemma requests_due:
  "requests_from [a] m \<Longrightarrow> requests_from (filter (\<lambda>x. 0 < x) [a]) (if 0 < a then m else returnA x)"
  using requests_return by auto

lemma cancellation_legs_requests:
  "requests_from (filter (\<lambda>x. 0 < x) [cp_fee plan, cp_refund plan]) (send_cancellation_legs sv sp f plan)"
proof -
  let ?due = "\<lambda>x. filter (\<lambda>x. 0 < x) [x :: int]"
  let ?refund = "\<lambda>t. if 0 < cp_refund plan then submit_spot_refund_transaction sv sp t (cp_refund plan)
      else returnA (Skipped ''no_refund'')"
  have quiet: "wd_sent (snd (cancellation_send_failed e w)) = wd_sent w" for e w
    by (auto simp: cancellation_send_failed_def returnA_def raiseA_def split: py_error.split)
  have tail: "requests_from (?due (cp_refund plan) @ []) (bindA (?refund t)
      (\<lambda>refund_result. returnA (Submitted plan fee_result refund_result)))" for t fee_result
    by (rule requests_bind [OF requests_due [OF spot_refund_requests] requests_return])
  have split: "filter (\<lambda>x. 0 < x) [cp_fee plan, cp_refund plan] = ?due (cp_fee plan) @ (?due (cp_refund plan) @ [])"
    by simp
  have body: "requests_from (filter (\<lambda>x. 0 < x) [cp_fee plan, cp_refund plan]) (catchA
         (bindA (if 0 < cp_fee plan then submit_platform_fee_transaction sv sp (cp_fee plan) f
                 else returnA (Skipped ''no_fee'')) (\<lambda>fee_result.
          bindA (?refund t) (\<lambda>refund_result. returnA (Submitted plan fee_result refund_result))))
         cancellation_send_failed)" for t
    unfolding split by (rule requests_catch [OF requests_bind [OF requests_due [OF platform_fee_requests] tail] quiet])
  show ?thesis
    unfolding requests_from_def
  proof
    fix w :: world
    let ?r = "if 0 < cp_refund plan
      then map_sum id Some (sv_resolve sv (case cp_refund_address plan of None \<Rightarrow> [] | Some a \<Rightarrow> a)
             (cp_source_hash plan) (wd_db w) (wd_security w))
      else Inr (cp_refund_address plan)"
    show "\<exists>sent. wd_sent (snd (send_cancellation_legs sv sp f plan w)) = wd_sent w @ sent
        \<and> subseq (map (rq_amount \<circ> snd) sent) (filter (\<lambda>x. 0 < x) [cp_fee plan, cp_refund plan])"
    proof (cases ?r)
      case (Inl e)
      then have "send_cancellation_legs sv sp f plan w = (Inr (Deferred ''refund_address_resolution_pending''), w)"
        by (simp add: send_cancellation_legs_def Let_def)
      then show ?thesis by simp
    next
      case (Inr t)
      then show ?thesis
        using body [unfolded requests_from_def, rule_format, of "case t of None \<Rightarrow> [] | Some a \<Rightarrow> a" w]
        by (simp add: send_cancellation_legs_def Let_def)
    qed
  qed
qed

section \<open>What a cancellation spends\<close>

lemma decide_cases:
  assumes "decide_cancellation sp fee d = Inr (SendLegs plan, d1)"
  obtains s where "cancellable_spot sp d = Inr s" "\<exists>b. mark_spot_cancellation_started sp d = Inr (b, d1)"
    "plan = cancellation_plan (case fee of None \<Rightarrow> SPOT_CANCELLATION_FEE | Some f \<Rightarrow> f)
       (get_transactions_by_spot sp MAX_LIMIT 0 d1)"
    "sp_status s = SPOT_STATUS_PUBLISHED \<Longrightarrow> get_unpaid_successful_standard_claim_ids (Some sp) MAX_LIMIT 0 d1 = []"
    "\<not> list_ex (\<lambda>t. is_outgoing_type (tr_type t) \<and> tr_status t = TRANS_STATUS_PENDING)
       (get_transactions_by_spot sp MAX_LIMIT 0 d1)"
    "0 < cp_fee plan + cp_refund plan"
  using assms unfolding decide_cancellation_def Let_def
  by (auto elim!: bindE_InrE split: if_split_asm)

lemma mark_cancellation_trans:
  assumes "mark_spot_cancellation_started sp d = Inr (b, d1)"
  shows "db_trans d1 = db_trans d" and "db_claims d1 = db_claims d" and "db_prizedraws d1 = db_prizedraws d"
proof -
  have u: "update_spots False False (\<lambda>r. sp_id r = sp
      \<and> (sp_status r = SPOT_STATUS_DRAFT \<or> sp_status r = SPOT_STATUS_PUBLISHED) \<and> sp_cancellation_started_at r = None)
      (\<lambda>r. r\<lparr>sp_cancellation_started_at := Some (db_now d)\<rparr>) d = Inr d1"
    using assms by (auto simp: mark_spot_cancellation_started_def Let_def)
  show "db_trans d1 = db_trans d" "db_claims d1 = db_claims d" "db_prizedraws d1 = db_prizedraws d"
    using update_spots_Inr(2) [OF u] by simp_all
qed

lemma submit_cancellation_requests:
  assumes "submit_spot_cancellation_transactions sv sp fee f w = (r, w')"
  obtains (quiet) "wd_sent w' = wd_sent w"
  | (legs) plan d1 sent where "decide_cancellation sp fee (wd_db w) = Inr (SendLegs plan, d1)"
      "wd_sent w' = wd_sent w @ sent"
      "subseq (map (rq_amount \<circ> snd) sent) (filter (\<lambda>x. 0 < x) [cp_fee plan, cp_refund plan])"
proof (cases "\<exists>plan d1. decide_cancellation sp fee (wd_db w) = Inr (SendLegs plan, d1)")
  case False
  have "wd_sent w' = wd_sent w"
    using assms False unfolding submit_spot_cancellation_transactions_def
    by (auto simp: bindA_def in_transaction_def returnA_def split: sum.split_asm prod.split_asm cancel_decision.split_asm)
  then show thesis by (rule quiet)
next
  case True
  then obtain plan d1 where d: "decide_cancellation sp fee (wd_db w) = Inr (SendLegs plan, d1)" by blast
  then obtain s where c: "cancellable_spot sp (wd_db w) = Inr s" by (rule decide_cases)
  have "w' = snd (send_cancellation_legs sv sp f plan (w\<lparr>wd_db := d1\<rparr>))"
    using assms c d unfolding submit_spot_cancellation_transactions_def
    by (simp add: bindA_def in_transaction_def)
  then obtain sent where "wd_sent w' = wd_sent (w\<lparr>wd_db := d1\<rparr>) @ sent"
      "subseq (map (rq_amount \<circ> snd) sent) (filter (\<lambda>x. 0 < x) [cp_fee plan, cp_refund plan])"
    using cancellation_legs_requests [of plan sv sp f] unfolding requests_from_def by blast
  then show thesis by (intro legs [OF d]) simp_all
qed

lemma all_claims_paid:
  assumes "get_unpaid_successful_standard_claim_ids (Some sp) MAX_LIMIT 0 d = []" and "\<not> is_prizedraw sp d"
    and "k \<in> set (db_claims d)" and "cl_spot_id k = sp" and "cl_status k = CLAIM_STATUS_SUCCESS"
  shows "\<exists>t\<in>set (db_trans d). tr_claim_id t = Some (cl_id k) \<and> tr_type t = TRANS_TYPE_CLAIM
    \<and> tr_status t \<noteq> TRANS_STATUS_FAILED"
proof -
  have "page MAX_LIMIT 0 xs = [] \<longleftrightarrow> xs = []" for xs :: "int list"
    by (simp add: page_def clamp_limit_def normalise_offset_def const_defs)
  then have none: "by_claimed_at (filter (\<lambda>c. cl_status c = CLAIM_STATUS_SUCCESS \<and> \<not> is_prizedraw (cl_spot_id c) d
      \<and> \<not> has_nonfailed_claim_payout_transaction (cl_id c) d
      \<and> (Some sp = None \<or> Some sp = Some (cl_spot_id c))) (db_claims d)) = []"
    using assms(1) unfolding get_unpaid_successful_standard_claim_ids_def by (simp only: map_is_Nil_conv)
  have "set (by_claimed_at xs) = set xs" for xs by (simp add: by_claimed_at_def)
  from this [of "filter (\<lambda>c. cl_status c = CLAIM_STATUS_SUCCESS \<and> \<not> is_prizedraw (cl_spot_id c) d
      \<and> \<not> has_nonfailed_claim_payout_transaction (cl_id c) d
      \<and> (Some sp = None \<or> Some sp = Some (cl_spot_id c))) (db_claims d)"]
  have "has_nonfailed_claim_payout_transaction (cl_id k) d"
    unfolding none using assms(2-5) by auto
  then show ?thesis
    by (auto simp: has_nonfailed_claim_payout_transaction_def claim_payout_def list_ex_iff)
qed

text \<open>
  C21: What a cancellation hands to the signer is fixed by the ledger. Nothing is
  sent while a payout, fee or refund of the Spot is pending or, for a published
  Spot, while one of its successful claims has no payment. The balance is the
  confirmed deposits less the confirmed rewards and creation fee; the requests
  are, in this order, what is still unpaid of the fee's share of it and what is
  still unpaid of the rest, each at most once, so confirmed legs are never
  repeated and the balance is never exceeded; fee and refund use it up exactly
  when earlier legs stayed within their shares.
\<close>

theorem cancellation_spends_what_is_left:
  assumes run: "submit_spot_cancellation_transactions sv sp fee f w = (r, w')" and ok: "outbox_ok w"
    and few: "spot_rows_listed sp (wd_db w)" and sent: "wd_sent w' = wd_sent w @ sent" "sent \<noteq> []"
  shows "\<exists>balance fee_share fee_due refund_due paid_fee paid_refund spot.
      balance = spot_total sp TRANS_TYPE_FILL_SPOT TRANS_STATUS_CONFIRMED (wd_db w)
            - spot_total sp TRANS_TYPE_CLAIM TRANS_STATUS_CONFIRMED (wd_db w)
            - spot_total sp TRANS_TYPE_CREATION_FEE TRANS_STATUS_CONFIRMED (wd_db w)
    \<and> fee_share = min (max 0 (case fee of None \<Rightarrow> SPOT_CANCELLATION_FEE | Some v \<Rightarrow> v)) balance
    \<and> paid_fee = spot_total sp TRANS_TYPE_PLAT_FEE TRANS_STATUS_CONFIRMED (wd_db w)
    \<and> paid_refund = spot_total sp TRANS_TYPE_CANCEL_SPOT TRANS_STATUS_CONFIRMED (wd_db w)
    \<and> fee_due = max 0 (fee_share - paid_fee) \<and> refund_due = max 0 (balance - fee_share - paid_refund)
    \<and> subseq (map (rq_amount \<circ> snd) sent) (filter (\<lambda>x. 0 < x) [fee_due, refund_due])
    \<and> fee_due + refund_due \<le> balance
    \<and> (paid_fee \<le> fee_share \<and> paid_refund \<le> balance - fee_share \<longrightarrow>
         fee_due + refund_due + paid_fee + paid_refund = balance)
    \<and> (\<forall>t\<in>set (db_trans (wd_db w)). tr_spot_id t = Some sp \<and> is_outgoing_type (tr_type t) \<longrightarrow>
        tr_status t \<noteq> TRANS_STATUS_PENDING)
    \<and> get_spot sp (wd_db w) = Some spot \<and> sp_status spot \<in> {SPOT_STATUS_DRAFT, SPOT_STATUS_PUBLISHED}
    \<and> (sp_status spot = SPOT_STATUS_PUBLISHED \<longrightarrow> (\<forall>k\<in>set (db_claims (wd_db w)).
        cl_spot_id k = sp \<and> cl_status k = CLAIM_STATUS_SUCCESS \<longrightarrow>
        (\<exists>t\<in>set (db_trans (wd_db w)). tr_claim_id t = Some (cl_id k) \<and> tr_type t = TRANS_TYPE_CLAIM
          \<and> tr_status t \<noteq> TRANS_STATUS_FAILED)))"
proof -
  let ?d = "wd_db w"
  have d: "db_ok ?d" using ok by (simp add: outbox_ok_def)
  from run obtain plan d1 sent0 where dec: "decide_cancellation sp fee ?d = Inr (SendLegs plan, d1)"
      and s0: "wd_sent w' = wd_sent w @ sent0"
      "subseq (map (rq_amount \<circ> snd) sent0) (filter (\<lambda>x. 0 < x) [cp_fee plan, cp_refund plan])"
    by (rule submit_cancellation_requests) (use sent in auto)
  have e: "sent0 = sent" using s0(1) sent(1) by simp
  from dec obtain b spot where c: "cancellable_spot sp ?d = Inr spot"
    and m: "mark_spot_cancellation_started sp ?d = Inr (b, d1)"
    and plan: "plan = cancellation_plan (case fee of None \<Rightarrow> SPOT_CANCELLATION_FEE | Some f \<Rightarrow> f)
       (get_transactions_by_spot sp MAX_LIMIT 0 d1)"
    and unpaid: "sp_status spot = SPOT_STATUS_PUBLISHED \<Longrightarrow>
        get_unpaid_successful_standard_claim_ids (Some sp) MAX_LIMIT 0 d1 = []"
    and quiet: "\<not> list_ex (\<lambda>t. is_outgoing_type (tr_type t) \<and> tr_status t = TRANS_STATUS_PENDING)
       (get_transactions_by_spot sp MAX_LIMIT 0 d1)"
    and pos: "0 < cp_fee plan + cp_refund plan" by (rule decide_cases) blast
  note same = mark_cancellation_trans [OF m]
  have d1: "db_ok d1" by (rule mark_spot_cancellation_started_ok [OF m d])
  have few1: "spot_rows_listed sp d1" using few by (simp add: spot_rows_listed_def same)
  have tot: "rows_total ty st (get_transactions_by_spot sp MAX_LIMIT 0 d1) = spot_total sp ty st ?d" for ty st
    using rows_total_listed [OF d1 few1] by (simp add: spot_total_def same)
  have nn: "0 \<le> spot_total sp ty st ?d" for ty st
    unfolding spot_total_def
    by (rule sum_where_nonneg) (use d in \<open>auto simp: db_ok_def trans_ok_def list_all_iff trans_check_def\<close>)
  let ?f = "spot_total sp TRANS_TYPE_PLAT_FEE TRANS_STATUS_CONFIRMED ?d"
  let ?r = "spot_total sp TRANS_TYPE_CANCEL_SPOT TRANS_STATUS_CONFIRMED ?d"
  let ?b = "spot_total sp TRANS_TYPE_FILL_SPOT TRANS_STATUS_CONFIRMED ?d
          - spot_total sp TRANS_TYPE_CLAIM TRANS_STATUS_CONFIRMED ?d
          - spot_total sp TRANS_TYPE_CREATION_FEE TRANS_STATUS_CONFIRMED ?d"
  let ?s = "min (max 0 (case fee of None \<Rightarrow> SPOT_CANCELLATION_FEE | Some v \<Rightarrow> v)) ?b"
  have n: "0 \<le> ?f" "0 \<le> ?r" by (rule nn)+
  have amounts0: "cp_fee plan = max 0 (min (max 0 (case fee of None \<Rightarrow> SPOT_CANCELLATION_FEE | Some v \<Rightarrow> v)) (max 0 ?b) - ?f)"
      "cp_refund plan = max 0 (max 0 (max 0 ?b
         - min (max 0 (case fee of None \<Rightarrow> SPOT_CANCELLATION_FEE | Some v \<Rightarrow> v)) (max 0 ?b)) - ?r)"
    by (simp_all add: plan cancellation_plan_def Let_def remaining_cancellable_def tot)
  have pb: "0 < ?b" using pos amounts0 n by linarith
  then have amounts: "cp_fee plan = max 0 (?s - ?f)" "cp_refund plan = max 0 (?b - ?s - ?r)"
    using amounts0 by simp_all
  have le: "cp_fee plan + cp_refund plan \<le> ?b" using amounts n pb by linarith
  have exact: "?f \<le> ?s \<and> ?r \<le> ?b - ?s \<longrightarrow> cp_fee plan + cp_refund plan + ?f + ?r = ?b"
    using amounts by linarith
  have pend: "\<forall>t\<in>set (db_trans ?d). tr_spot_id t = Some sp \<and> is_outgoing_type (tr_type t) \<longrightarrow>
        tr_status t \<noteq> TRANS_STATUS_PENDING"
    using quiet listed_set [OF d1 few1] same by (auto simp: list_ex_iff)
  have spot: "get_spot sp ?d = Some spot" "sp_status spot \<in> {SPOT_STATUS_DRAFT, SPOT_STATUS_PUBLISHED}"
    "sp_status spot = SPOT_STATUS_PUBLISHED \<Longrightarrow> \<not> is_prizedraw sp ?d"
    using c unfolding cancellable_spot_def by (auto split: option.split_asm if_split_asm)
  have pd: "is_prizedraw sp d1 = is_prizedraw sp ?d" by (simp add: is_prizedraw_def get_prizedraw_def same)
  have paid: "\<exists>t\<in>set (db_trans ?d). tr_claim_id t = Some (cl_id k) \<and> tr_type t = TRANS_TYPE_CLAIM
          \<and> tr_status t \<noteq> TRANS_STATUS_FAILED"
    if "sp_status spot = SPOT_STATUS_PUBLISHED" "k \<in> set (db_claims ?d)"
      "cl_spot_id k = sp" "cl_status k = CLAIM_STATUS_SUCCESS" for k
    using all_claims_paid [OF unpaid [OF that(1)], of k] spot(3) [OF that(1)] that(2-4) pd same by auto
  show ?thesis
    by (rule exI [of _ ?b], rule exI [of _ ?s], rule exI [of _ "cp_fee plan"], rule exI [of _ "cp_refund plan"],
        rule exI [of _ ?f], rule exI [of _ ?r], rule exI [of _ spot])
      (intro conjI refl amounts s0(2) [unfolded e] le exact pend spot(1,2) impI ballI; elim conjE, rule paid; assumption)
qed

section \<open>The lease\<close>

lemma guard_row_block [simp]: "guard_row sp (block_guard sp reason w) = Some (Blocked, take 500 (py_strip reason))"
  by (simp add: guard_row_def block_guard_def set_guard_def update_conv')

lemma guard_row_set [simp]: "guard_row sp (set_guard sp st reason w) = Some (st, reason)"
  by (simp add: guard_row_def set_guard_def update_conv')

lemma sent_guards [simp]:
  "wd_sent (set_guard sp st reason w) = wd_sent w" "wd_sent (release_guard sp w) = wd_sent w"
  "wd_sent (block_guard sp reason w) = wd_sent w" "wd_sent (delete_cancellation_policy sp w) = wd_sent w"
  by (simp_all add: set_guard_def release_guard_def block_guard_def delete_cancellation_policy_def)

lemma snapshot_sent:
  "snapshot_cancellation_policy sv sp fee f w = (r, w') \<Longrightarrow> wd_sent w' = wd_sent w \<and> guard_row sp w' = guard_row sp w"
  unfolding snapshot_cancellation_policy_def Let_def guard_row_def
  by (auto split: option.split_asm prod.split_asm sum.split_asm if_split_asm)

lemma live_guard_pauses:
  assumes "guard_row sp w = Some (st, reason)"
    and "\<not> (st = Blocked \<and> reason = RETRYABLE_FAILED_REFUND_GUARD_REASON
      \<and> refund_failure_proven (sv_http sv) (get_transactions_by_spot sp MAX_LIMIT 0 (wd_db w)))"
  shows "guarded_submit_spot_cancellation_transactions sv sp fee f w = (Inr (Paused reason), w)"
  using assms by (auto simp: guarded_submit_spot_cancellation_transactions_def Let_def)

text \<open>How the sends of a cancellation end: a raise from them is never a validation error.\<close>

definition conclusive :: "cancel_outcome \<Rightarrow> bool" where
  "conclusive x \<longleftrightarrow> (case x of Submitted p a b \<Rightarrow> True | Deferred m \<Rightarrow> m = ''concurrent_cancellation_transaction'' | _ \<Rightarrow> False)"

lemma legs_outcome:
  assumes "send_cancellation_legs sv sp f plan w = (r, w')" and "wd_sent w' \<noteq> wd_sent w"
  shows "(\<exists>e. r = Inl e \<and> (\<forall>m. e \<noteq> ValueError m)) \<or> r = Inr (Deferred ''send_retry_pending'') \<or> (\<exists>x. r = Inr x \<and> conclusive x)"
  using assms unfolding send_cancellation_legs_def Let_def conclusive_def
  by (auto simp: returnA_def raiseA_def catchA_def bindA_def cancellation_send_failed_def
      split: sum.split_asm prod.split_asm py_error.split_asm if_split_asm)

lemma submit_outcome:
  assumes run: "submit_spot_cancellation_transactions sv sp fee f w = (r, w')" and new: "wd_sent w' \<noteq> wd_sent w"
  shows "(\<exists>e. r = Inl e \<and> (\<forall>m. e \<noteq> ValueError m)) \<or> r = Inr (Deferred ''send_retry_pending'') \<or> (\<exists>x. r = Inr x \<and> conclusive x)"
proof -
  obtain plan w1 where "send_cancellation_legs sv sp f plan w1 = (r, w')" "wd_sent w1 = wd_sent w"
    using run new unfolding submit_spot_cancellation_transactions_def
    by (auto simp: bindA_def in_transaction_def returnA_def split: sum.split_asm prod.split_asm cancel_decision.split_asm)
  then show ?thesis using new legs_outcome by metis
qed

lemma lease_outcome:
  assumes run: "run_under_lease sv sp policy w = (r, w')" and new: "wd_sent w' \<noteq> wd_sent w"
  shows "(\<exists>x. r = Inr x \<and> conclusive x)
    \<or> (\<exists>reason. guard_row sp w' = Some (Blocked, reason) \<and> reason \<noteq> RETRYABLE_FAILED_REFUND_GUARD_REASON)"
proof -
  obtain fee address created where p: "policy = (fee, address, created)" by (cases policy)
  show ?thesis
  proof (cases "guard_row sp w")
    case (Some g)
    then show ?thesis using run new by (auto simp: run_under_lease_def split: prod.split_asm)
  next
    case None
    let ?w0 = "set_guard sp Processing ''cancellation send started'' w"
    obtain r0 w1 where s: "submit_spot_cancellation_transactions sv sp (Some fee) (Some address) ?w0 = (r0, w1)" by fastforce
    have n: "wd_sent w1 = wd_sent ?w0 \<Longrightarrow> wd_sent w' = wd_sent w"
      using run None s by (auto simp: run_under_lease_def p Let_def split: sum.split_asm py_error.split_asm if_split_asm)
    then have "wd_sent w1 \<noteq> wd_sent ?w0" using new by auto
    note o = submit_outcome [OF s this]
    have reasons: "take 500 (py_strip ''cancellation raised after lease acquisition'') \<noteq> RETRYABLE_FAILED_REFUND_GUARD_REASON"
      "take 500 (py_strip ''cancellation helper returned an ambiguous send result'') \<noteq> RETRYABLE_FAILED_REFUND_GUARD_REASON"
      by code_simp+
    from o show ?thesis
    proof (elim disjE exE conjE)
      fix e assume "r0 = Inl e" "\<forall>m. e \<noteq> ValueError m"
      then have "w' = block_guard sp ''cancellation raised after lease acquisition'' w1"
        using run None s by (auto simp: run_under_lease_def p Let_def split: py_error.split_asm)
      then show ?thesis using reasons(1) by simp
    next
      assume "r0 = Inr (Deferred ''send_retry_pending'')"
      then have "w' = block_guard sp ''cancellation helper returned an ambiguous send result'' w1"
        using run None s by (auto simp: run_under_lease_def p Let_def)
      then show ?thesis using reasons(2) by simp
    next
      fix x assume x: "r0 = Inr x" "conclusive x"
      then have "x \<noteq> Deferred ''send_retry_pending''" by (auto simp: conclusive_def)
      then have "r = Inr x" using run None s x(1) by (auto simp: run_under_lease_def p Let_def)
      then show ?thesis using x(2) by blast
    qed
  qed
qed

text \<open>
  C22: Under the lease a Spot whose guard is set sends nothing, except when that
  guard only records a failed refund whose failure the chain proves; and a run
  that handed anything to the signer either ended with both legs recorded (or lost
  to a concurrent recording), or leaves the Spot blocked, after which no call,
  with any arguments and any chain answers, changes anything while the block stands.
\<close>

theorem guarded_cancellation_no_resend:
  assumes run: "guarded_submit_spot_cancellation_transactions sv sp fee f w = (r, w')"
  shows "(\<forall>st reason. guard_row sp w = Some (st, reason) \<longrightarrow> w' = w \<and> r = Inr (Paused reason)
      \<or> st = Blocked \<and> reason = RETRYABLE_FAILED_REFUND_GUARD_REASON
        \<and> refund_failure_proven (sv_http sv) (get_transactions_by_spot sp MAX_LIMIT 0 (wd_db w)))
    \<and> (wd_sent w' \<noteq> wd_sent w \<longrightarrow> (\<exists>x. r = Inr x \<and> conclusive x)
      \<or> (\<exists>reason. guard_row sp w' = Some (Blocked, reason)
          \<and> (\<forall>w2 sv2 fee2 f2. guard_row sp w2 = guard_row sp w' \<longrightarrow>
              guarded_submit_spot_cancellation_transactions sv2 sp fee2 f2 w2 = (Inr (Paused reason), w2))))"
proof (intro conjI allI impI)
  fix st reason assume "guard_row sp w = Some (st, reason)"
  then show "w' = w \<and> r = Inr (Paused reason)
      \<or> st = Blocked \<and> reason = RETRYABLE_FAILED_REFUND_GUARD_REASON
        \<and> refund_failure_proven (sv_http sv) (get_transactions_by_spot sp MAX_LIMIT 0 (wd_db w))"
    using run live_guard_pauses [of sp w st reason sv fee f] by auto
next
  assume new: "wd_sent w' \<noteq> wd_sent w"
  obtain w0 where "bindA (snapshot_cancellation_policy sv sp fee f) (run_under_lease sv sp) w0 = (r, w')" "wd_sent w0 = wd_sent w"
    using run new unfolding guarded_submit_spot_cancellation_transactions_def Let_def
    by (auto split: option.split_asm if_split_asm prod.split_asm)
  then obtain policy w1 where "run_under_lease sv sp policy w1 = (r, w')" "wd_sent w1 = wd_sent w"
    using new snapshot_sent by (fastforce simp: bindA_def split: sum.split_asm prod.split_asm)
  then have "(\<exists>x. r = Inr x \<and> conclusive x)
    \<or> (\<exists>reason. guard_row sp w' = Some (Blocked, reason) \<and> reason \<noteq> RETRYABLE_FAILED_REFUND_GUARD_REASON)"
    using lease_outcome new by metis
  then show "(\<exists>x. r = Inr x \<and> conclusive x)
      \<or> (\<exists>reason. guard_row sp w' = Some (Blocked, reason)
          \<and> (\<forall>w2 sv2 fee2 f2. guard_row sp w2 = guard_row sp w' \<longrightarrow>
              guarded_submit_spot_cancellation_transactions sv2 sp fee2 f2 w2 = (Inr (Paused reason), w2)))"
    using live_guard_pauses by metis
qed

section \<open>Instances\<close>

definition cancel_db :: db where
  "cancel_db = sample_payout_db\<lparr>db_claims := []\<rparr>"

definition cancel_world :: world where
  "cancel_world = sample_world\<lparr>wd_db := cancel_db\<rparr>"

lemma cancel_world_ok: "outbox_ok cancel_world"
  by (simp add: cancel_world_def cancel_db_def outbox_ok_def sample_world_def sample_payout_db_def sample_defs db_ok_defs
      user_check_def spot_check_def trans_check_def unique_on_def const_defs has_user_def has_spot_def
      claim_payout_slot_def cancellation_slot_def claim_check_def creation_fee_slot_def remainder_refund_slot_def
      zero_address_def)

text \<open>The fee takes everything, so that only the fee leg is sent.\<close>

lemma cancellation_spends_what_is_left_witness:
  "\<exists>r w'. submit_spot_cancellation_transactions sample_services 1 (Some 90000000) None cancel_world = (r, w')
    \<and> map (rq_amount \<circ> snd) (wd_sent w') = [70000000]"
proof -
  obtain r w' where run: "submit_spot_cancellation_transactions sample_services 1 (Some 90000000) None cancel_world = (r, w')"
    by fastforce
  have "wd_sent (snd (submit_spot_cancellation_transactions sample_services 1 (Some 90000000) None cancel_world)) \<noteq> []"
    by code_simp
  then have new: "wd_sent w' \<noteq> []" using run by simp
  have s: "wd_sent w' = wd_sent cancel_world @ wd_sent w'" by (simp add: cancel_world_def sample_world_def)
  have few: "spot_rows_listed 1 (wd_db cancel_world)"
    unfolding spot_rows_listed_def by code_simp
  have tot: "spot_total 1 TRANS_TYPE_FILL_SPOT TRANS_STATUS_CONFIRMED (wd_db cancel_world) = 70000000"
    "spot_total 1 TRANS_TYPE_CLAIM TRANS_STATUS_CONFIRMED (wd_db cancel_world) = 0"
    "spot_total 1 TRANS_TYPE_CREATION_FEE TRANS_STATUS_CONFIRMED (wd_db cancel_world) = 0"
    "spot_total 1 TRANS_TYPE_PLAT_FEE TRANS_STATUS_CONFIRMED (wd_db cancel_world) = 0"
    "spot_total 1 TRANS_TYPE_CANCEL_SPOT TRANS_STATUS_CONFIRMED (wd_db cancel_world) = 0"
    unfolding spot_total_def by code_simp+
  have "subseq (map (rq_amount \<circ> snd) (wd_sent w')) [70000000]"
    using cancellation_spends_what_is_left [OF run cancel_world_ok few s new] unfolding tot by auto
  then have "map (rq_amount \<circ> snd) (wd_sent w') = [70000000]" using new
    by (cases "wd_sent w'") (auto split: if_split_asm dest: list_emb_length)
  then show ?thesis using run by (intro exI conjI)
qed

definition failing_services :: services where
  "failing_services = sample_services\<lparr>sv_helper := (\<lambda>_ _. HelperFailed)\<rparr>"

lemma guarded_cancellation_no_resend_witness:
  "\<exists>w' reason. snd (guarded_submit_spot_cancellation_transactions failing_services 1 (Some 90000000) None cancel_world) = w'
    \<and> wd_sent w' \<noteq> []
    \<and> guarded_submit_spot_cancellation_transactions sample_services 1 None None w' = (Inr (Paused reason), w')"
proof -
  let ?run = "guarded_submit_spot_cancellation_transactions failing_services 1 (Some 90000000) None cancel_world"
  obtain r w' where run: "?run = (r, w')" by fastforce
  have "wd_sent (snd ?run) \<noteq> [] \<and> (case fst ?run of Inr (Paused _) \<Rightarrow> True | _ \<Rightarrow> False)" by code_simp
  then have new: "wd_sent w' \<noteq> []" and p: "case r of Inr (Paused _) \<Rightarrow> True | _ \<Rightarrow> False" using run by simp_all
  have "wd_sent w' \<noteq> wd_sent cancel_world" using new by (simp add: cancel_world_def sample_world_def)
  moreover have "\<not> (\<exists>x. r = Inr x \<and> conclusive x)" using p by (auto simp: conclusive_def split: cancel_outcome.splits)
  ultimately have "\<exists>reason. guarded_submit_spot_cancellation_transactions sample_services 1 None None w' = (Inr (Paused reason), w')"
    using guarded_cancellation_no_resend [OF run] by blast
  then show ?thesis using run new by auto
qed

end
