(* ===== verification/SettleProps.thy ===== *)
theory SettleProps
  imports Settlement CancelProps ClaimProps
begin

text \<open>
  What settlement guarantees: a draw takes distinct successful claims and is
  final, its winners share the whole pool, and what is left of a Spot after
  everything else has confirmed goes back.
\<close>

section \<open>Prize amounts\<close>

lemma length_prize_amounts [simp]: "length (prize_amounts t n) = n"
  by (simp add: prize_amounts_def Let_def)

lemma sum_prize_amounts:
  assumes "0 < n"
  shows "sum_list (prize_amounts t n) = t"
proof -
  obtain m where n: "n = Suc m" using assms by (cases n) auto
  have "sum_list (prize_amounts t n) = int n * (t div int n) + t mod int n"
    unfolding prize_amounts_def Let_def n by (simp add: sum_list_replicate algebra_simps)
  then show ?thesis by simp
qed

lemma prize_amounts_nth:
  "i < n \<Longrightarrow> prize_amounts t n ! i = t div int n + (if i = 0 then t mod int n else 0)"
  by (simp add: prize_amounts_def Let_def nth_list_update)

lemma prize_amounts_pos: "int n \<le> t \<Longrightarrow> a \<in> set (prize_amounts t n) \<Longrightarrow> 0 < a"
proof -
  assume t: "int n \<le> t" and a: "a \<in> set (prize_amounts t n)"
  obtain i where i: "i < n" "a = prize_amounts t n ! i" using a by (auto simp: in_set_conv_nth)
  then have "0 < int n" by simp
  then have "0 < t div int n" "0 \<le> t mod int n" using t by (simp_all add: pos_imp_zdiv_pos_iff)
  then show "0 < a" using i prize_amounts_nth [of i n t] by (cases "i = 0") (simp_all add: add_pos_nonneg)
qed

section \<open>The draw\<close>

lemma mset_remove_nth: "j < length pool \<Longrightarrow> mset (take j pool @ drop (Suc j) pool) + {#pool ! j#} = mset pool"
  by (metis Cons_nth_drop_Suc append_take_drop_id mset.simps(2) mset_append union_mset_add_mset_right add.commute add_mset_add_single)

lemma draw_sample_mset: "mset (draw_sample draws pool k) \<subseteq># mset pool"
proof (induction k arbitrary: pool)
  case (Suc k)
  show ?case
  proof (cases "pool = []")
    case False
    let ?j = "draws k mod length pool" and ?rest = "take (draws k mod length pool) pool @ drop (Suc (draws k mod length pool)) pool"
    have j: "?j < length pool" using False by simp
    have "mset (draw_sample draws pool (Suc k)) = mset (draw_sample draws ?rest k) + {#pool ! ?j#}"
      using False by (simp add: Let_def)
    also have "\<dots> \<subseteq># mset ?rest + {#pool ! ?j#}" using Suc.IH [of ?rest] by (rule subset_mset.add_right_mono)
    finally show ?thesis using mset_remove_nth [OF j] by simp
  qed simp
qed simp

lemma length_draw_sample: "length (draw_sample draws pool k) = min k (length pool)"
proof (induction k arbitrary: pool)
  case (Suc k)
  show ?case
  proof (cases pool)
    case (Cons x xs)
    have "length (take (draws k mod length pool) pool @ drop (Suc (draws k mod length pool)) pool) = length xs"
      using mod_less_divisor [of "length pool" "draws k"] by (simp add: Cons)
    then show ?thesis using Suc.IH [of "take (draws k mod length pool) pool @ drop (Suc (draws k mod length pool)) pool"]
      by (simp add: Let_def Cons)
  qed simp
qed simp

lemma mset_subset_distinct:
  assumes "mset xs \<subseteq># mset ys" and "distinct ys"
  shows "distinct xs"
proof -
  have "count (mset xs) x \<le> 1" for x
  proof -
    have "count (mset ys) x \<le> 1" using assms(2) distinct_count_atmost_1 [of ys] by (cases "x \<in> set ys") auto
    then show ?thesis using mset_subset_eq_count [OF assms(1), of x] by simp
  qed
  moreover have "x \<in> set xs \<Longrightarrow> 0 < count (mset xs) x" for x by simp
  ultimately show ?thesis by (auto simp: distinct_count_atmost_1 le_Suc_eq)
qed

section \<open>Detail rows of existing claims\<close>

lemma view_claim_detail_ok:
  assumes "db_ok d" and "c \<in> set (db_claims d)"
  shows "\<exists>v. view_claim_detail d c = Some v \<and> cd_claim v = c"
proof -
  have "has_spot d (cl_spot_id c)" "has_user d (cl_recipient c)"
    using assms by (auto simp: db_ok_def claims_ok_def list_all_iff)
  then show ?thesis
    by (auto simp: view_claim_detail_def get_spot_def get_user_by_id_def has_spot_def has_user_def Let_def)
qed

lemma claim_details_rows:
  assumes "db_ok d" and "set cs \<subseteq> set (db_claims d)"
  shows "map cd_claim (claim_details d cs) = cs"
  using assms(2)
proof (induction cs)
  case (Cons c cs)
  obtain v where "view_claim_detail d c = Some v" "cd_claim v = c"
    using view_claim_detail_ok [OF assms(1)] Cons.prems by auto
  then show ?case using Cons by (simp add: claim_details_def)
qed (simp add: claim_details_def)

lemma claims_by_status_rows:
  assumes "db_ok d"
  shows "map cd_claim (get_claims_by_status_for_spot sp st MAX_LIMIT 0 d)
    = take (nat MAX_LIMIT) (by_claimed_at (filter (\<lambda>c. cl_spot_id c = sp \<and> cl_status c = st) (db_claims d)))"
proof -
  have s: "set (by_claimed_at (filter P (db_claims d))) \<subseteq> set (db_claims d)" for P
    by (auto simp: by_claimed_at_def)
  show ?thesis
    unfolding get_claims_by_status_for_spot_def page_def
    by (simp add: take_map [symmetric] drop_map [symmetric] claim_details_rows [OF assms s] clamp_limit_def
        normalise_offset_def const_defs)
qed

section \<open>What a draw leaves\<close>

lemma draw_cases:
  assumes "draw_prizedraw draws sp d = Inr (Drawn reason n ws, d')"
  obtains s d1 d2 ids L where "get_spot sp d = Some s" "sp_status s = SPOT_STATUS_PUBLISHED" "is_prizedraw sp d"
    "settlement_ready_reason s (db_now d) d = Some reason" "fail_pending_claims_for_spot sp d = Inr (n, d1)"
    "L = get_successful_claims_for_spot sp MAX_LIMIT d1"
    "ws = sort (map (\<lambda>w. cl_id (cd_claim w)) (draw_sample draws L
       (min (nat (max 1 (case get_prizedraw sp d1 of None \<Rightarrow> 1 | Some p \<Rightarrow> pd_prize_count p))) (length L))))"
    "mark_prizedraw_winners_pending sp ws d1 = Inr (ids, int (length ws), d2)"
    "set_spot_status_to_completed sp d2 = Inr d'"
  using assms unfolding draw_prizedraw_def close_draw_def persist_winners_def draw_winners_def Let_def
  by (auto elim!: bindE_InrE split: option.split_asm if_split_asm)

definition drawn_status :: "int \<Rightarrow> int list \<Rightarrow> claim_row \<Rightarrow> int" where
  "drawn_status sp ws c =
    (if cl_spot_id c \<noteq> sp then cl_status c
     else if cl_id c \<in> set ws then CLAIM_STATUS_PENDING
     else if cl_status c = CLAIM_STATUS_PENDING then CLAIM_STATUS_FAILED else cl_status c)"

lemma fail_pending_rows:
  assumes "fail_pending_claims_for_spot sp d = Inr (n, d1)"
  shows "db_claims d1 = update_where (pending_of sp)
      (\<lambda>c. c\<lparr>cl_status := CLAIM_STATUS_FAILED, cl_updated_at := db_now d\<rparr>) (db_claims d)" and "claim_frame d d1"
proof -
  have u: "update_claims True (pending_of sp) (\<lambda>c. c\<lparr>cl_status := CLAIM_STATUS_FAILED\<rparr>) d = Inr d1"
    using assms by (auto simp: fail_pending_claims_for_spot_def)
  show "db_claims d1 = update_where (pending_of sp)
      (\<lambda>c. c\<lparr>cl_status := CLAIM_STATUS_FAILED, cl_updated_at := db_now d\<rparr>) (db_claims d)" "claim_frame d d1"
    using update_claims_frame [OF u] by simp_all
qed

lemma distinct_sub_length: "distinct xs \<Longrightarrow> set xs \<subseteq> set ys \<Longrightarrow> length xs \<le> length ys"
  using card_mono [of "set ys" "set xs"] card_length [of ys] distinct_card [of xs] by simp

lemma mark_winners_rows:
  assumes m: "mark_prizedraw_winners_pending sp ws d1 = Inr (ids, int (length ws), d2)" and ok: "db_ok d1"
    and ws: "distinct ws"
  shows "db_ok d2" and "claim_frame d1 d2"
    and "db_claims d2 = update_where (\<lambda>c. cl_spot_id c = sp \<and> cl_status c = CLAIM_STATUS_SUCCESS \<and> cl_id c \<in> set ws)
      (\<lambda>c. c\<lparr>cl_status := CLAIM_STATUS_PENDING, cl_updated_at := db_now d1\<rparr>) (db_claims d1)"
    and "\<forall>w\<in>set ws. 0 < w"
proof -
  let ?pos = "filter (\<lambda>i. 0 < i) ws"
  let ?P = "\<lambda>c. cl_spot_id c = sp \<and> cl_status c = CLAIM_STATUS_SUCCESS \<and> cl_id c \<in> set ?pos"
  have set_clean: "set (sort (remdups ?pos)) = set ?pos" by simp
  have "(ids = [] \<and> length ws = 0 \<and> d2 = d1 \<and> ?pos = [])
      \<or> (update_claims True ?P (\<lambda>c. c\<lparr>cl_status := CLAIM_STATUS_PENDING\<rparr>) d1 = Inr d2
        \<and> count_where ?P (db_claims d1) = int (length ws))"
    using m unfolding mark_prizedraw_winners_pending_def Let_def set_clean
    by (auto elim!: bindE_InrE split: if_split_asm simp: filter_empty_conv)
  then have F: "db_ok d2 \<and> claim_frame d1 d2
    \<and> db_claims d2 = update_where ?P (\<lambda>c. c\<lparr>cl_status := CLAIM_STATUS_PENDING, cl_updated_at := db_now d1\<rparr>) (db_claims d1)
    \<and> length ws \<le> length ?pos"
  proof (elim disjE conjE)
    assume "d2 = d1" "length ws = 0"
    then show ?thesis using ok by (simp add: update_where_def)
  next
    assume u: "update_claims True ?P (\<lambda>c. c\<lparr>cl_status := CLAIM_STATUS_PENDING\<rparr>) d1 = Inr d2"
      and n: "count_where ?P (db_claims d1) = int (length ws)"
    have "distinct (map cl_id (filter ?P (db_claims d1)))"
      using ok by (auto simp: db_ok_def claims_ok_def distinct_map intro: inj_on_subset)
    moreover have "set (map cl_id (filter ?P (db_claims d1))) \<subseteq> set ?pos" by auto
    ultimately have "length (map cl_id (filter ?P (db_claims d1))) \<le> length ?pos"
      by (rule distinct_sub_length)
    then have "length ws \<le> length ?pos" using n by (simp add: count_where_def)
    moreover have "db_ok d2" by (rule update_claims_ok [OF u ok]) auto
    ultimately show ?thesis using update_claims_frame [OF u] by simp
  qed
  then have e: "?pos = ws" by (metis filter_id_conv length_filter_less linorder_not_less)
  show "db_ok d2" "claim_frame d1 d2"
    "db_claims d2 = update_where (\<lambda>c. cl_spot_id c = sp \<and> cl_status c = CLAIM_STATUS_SUCCESS \<and> cl_id c \<in> set ws)
      (\<lambda>c. c\<lparr>cl_status := CLAIM_STATUS_PENDING, cl_updated_at := db_now d1\<rparr>) (db_claims d1)"
    using F unfolding e by blast+
  show "\<forall>w\<in>set ws. 0 < w" using e by (simp add: filter_id_conv)
qed

lemma completed_rows:
  assumes "set_spot_status_to_completed sp d2 = Inr d'" and ok: "db_ok d2"
  shows "db_ok d'" and "db_claims d' = db_claims d2" and "db_trans d' = db_trans d2"
    and "db_prizedraws d' = db_prizedraws d2" and "db_users d' = db_users d2" and "db_now d' = db_now d2"
    and "get_spot sp d' = map_option (\<lambda>s. s\<lparr>sp_status := SPOT_STATUS_COMPLETED, sp_updated_at := db_now d2\<rparr>) (get_spot sp d2)"
proof -
  have u: "update_spots False True (\<lambda>r. sp_id r = sp) (\<lambda>r. r\<lparr>sp_status := SPOT_STATUS_COMPLETED\<rparr>) d2 = Inr d'"
    using assms(1) by (auto simp: set_spot_status_to_completed_def modify_spot_status_def Let_def)
  note d' = update_spots_Inr(2) [OF u]
  show "db_ok d'" using modify_spot_status_ok assms unfolding set_spot_status_to_completed_def by blast
  show "db_claims d' = db_claims d2" "db_trans d' = db_trans d2" "db_prizedraws d' = db_prizedraws d2"
    "db_users d' = db_users d2" "db_now d' = db_now d2" using d' by simp_all
  show "get_spot sp d' = map_option (\<lambda>s. s\<lparr>sp_status := SPOT_STATUS_COMPLETED, sp_updated_at := db_now d2\<rparr>) (get_spot sp d2)"
    by (cases "find_row sp_id sp (db_spots d2)")
      (auto simp: d' get_spot_def find_row_update_where stamp_spot_def dest: find_row_SomeD)
qed

lemma draw_facts:
  assumes draw: "draw_prizedraw draws sp d = Inr (Drawn reason n ws, d')" and ok: "db_ok d"
  shows "db_ok d'" and "distinct ws" and "sorted ws" and "\<forall>w\<in>set ws. 0 < w"
    and "\<exists>s p. get_spot sp d = Some s \<and> sp_status s = SPOT_STATUS_PUBLISHED \<and> get_prizedraw sp d = Some p
        \<and> settlement_ready_reason s (db_now d) d = Some reason
        \<and> int (length ws) = min (max 1 (pd_prize_count p))
            (min MAX_LIMIT (count_claims_by_status_for_spot sp CLAIM_STATUS_SUCCESS d))"
    and "\<And>w. w \<in> set ws \<Longrightarrow> \<exists>c\<in>set (db_claims d). cl_id c = w \<and> cl_spot_id c = sp \<and> cl_status c = CLAIM_STATUS_SUCCESS"
    and "map cl_id (db_claims d') = map cl_id (db_claims d)"
    and "map cl_status (db_claims d') = map (drawn_status sp ws) (db_claims d)"
    and "get_spot sp d' = map_option (\<lambda>s. s\<lparr>sp_status := SPOT_STATUS_COMPLETED, sp_updated_at := db_now d\<rparr>) (get_spot sp d)"
    and "db_trans d' = db_trans d" and "get_prizedraw sp d' = get_prizedraw sp d"
    and "map cl_spot_id (db_claims d') = map cl_spot_id (db_claims d)"
proof -
  from draw obtain s d1 d2 ids L where D: "get_spot sp d = Some s" "sp_status s = SPOT_STATUS_PUBLISHED" "is_prizedraw sp d"
    "settlement_ready_reason s (db_now d) d = Some reason" "fail_pending_claims_for_spot sp d = Inr (n, d1)"
    "L = get_successful_claims_for_spot sp MAX_LIMIT d1"
    "ws = sort (map (\<lambda>w. cl_id (cd_claim w)) (draw_sample draws L
       (min (nat (max 1 (case get_prizedraw sp d1 of None \<Rightarrow> 1 | Some p \<Rightarrow> pd_prize_count p))) (length L))))"
    "mark_prizedraw_winners_pending sp ws d1 = Inr (ids, int (length ws), d2)"
    "set_spot_status_to_completed sp d2 = Inr d'" by (rule draw_cases)
  obtain p where p: "get_prizedraw sp d = Some p" using D(3) by (auto simp: is_prizedraw_def)
  note F = fail_pending_rows [OF D(5)]
  have ok1: "db_ok d1" using fail_pending_safe [OF D(5) ok] by (simp add: claim_safe_def)
  let ?S = "filter (\<lambda>c. cl_spot_id c = sp \<and> cl_status c = CLAIM_STATUS_SUCCESS) (db_claims d1)"
  have L: "map cd_claim L = take (nat MAX_LIMIT) (by_claimed_at ?S)"
    unfolding D(6) get_successful_claims_for_spot_def by (rule claims_by_status_rows [OF ok1])
  have idS: "distinct (map cl_id (by_claimed_at ?S))"
    using ok1 by (auto simp: by_claimed_at_def distinct_map db_ok_def claims_ok_def intro: inj_on_subset)
  have idL: "map (\<lambda>w. cl_id (cd_claim w)) L = take (nat MAX_LIMIT) (map cl_id (by_claimed_at ?S))"
    using arg_cong [OF L, of "map cl_id"] by (simp add: take_map o_def)
  let ?W = "draw_sample draws L (min (nat (max 1 (case get_prizedraw sp d1 of None \<Rightarrow> 1 | Some p \<Rightarrow> pd_prize_count p))) (length L))"
  have msetW: "mset (map (\<lambda>w. cl_id (cd_claim w)) ?W) \<subseteq># mset (map (\<lambda>w. cl_id (cd_claim w)) L)"
    using draw_sample_mset [of draws L] by (simp add: image_mset_subseteq_mono)
  have dist: "distinct ws"
    unfolding D(7) using mset_subset_distinct [OF msetW] idS unfolding idL by (simp add: distinct_take)
  have winS: "\<exists>c\<in>set ?S. cl_id c = w" if "w \<in> set ws" for w
  proof -
    have "w \<in> set (map (\<lambda>w. cl_id (cd_claim w)) L)" using that set_mset_mono [OF msetW] unfolding D(7) by auto
    then have "w \<in> set (map cl_id (by_claimed_at ?S))" unfolding idL by (rule in_set_takeD)
    then show ?thesis by (auto simp: by_claimed_at_def)
  qed
  note M = mark_winners_rows [OF D(8) ok1 dist]
  note C = completed_rows [OF D(9) M(1)]
  have pd: "get_prizedraw sp d1 = Some p" using p frame_get(3) [OF F(2)] by simp
  have succ: "c1 \<in> set (db_claims d1) \<and> cl_status c1 = CLAIM_STATUS_SUCCESS \<longrightarrow> c1 \<in> set (db_claims d)" for c1
    by (auto simp: F(1) set_update_where)
  have succ_count: "count_where (\<lambda>c. cl_spot_id c = sp \<and> cl_status c = CLAIM_STATUS_SUCCESS) (db_claims d1)
      = count_claims_by_status_for_spot sp CLAIM_STATUS_SUCCESS d"
  proof -
    have "count_where (\<lambda>c. cl_spot_id c = sp \<and> cl_status c = CLAIM_STATUS_SUCCESS) (update_where (pending_of sp)
        (\<lambda>c. c\<lparr>cl_status := CLAIM_STATUS_FAILED, cl_updated_at := db_now d\<rparr>) cs)
      = count_where (\<lambda>c. cl_spot_id c = sp \<and> cl_status c = CLAIM_STATUS_SUCCESS) cs" for cs
      by (induction cs) (auto simp: pending_of_def)
    then show ?thesis unfolding count_claims_by_status_for_spot_def F(1) by simp
  qed
  have "int (length L) = min MAX_LIMIT (count_claims_by_status_for_spot sp CLAIM_STATUS_SUCCESS d)"
  proof -
    have "length L = length (map cd_claim L)" by simp
    also have "\<dots> = min (nat MAX_LIMIT) (length ?S)" unfolding L by (simp add: by_claimed_at_def min.commute)
    finally show ?thesis using succ_count by (simp add: count_where_def const_defs)
  qed
  moreover have "length ws = min (nat (max 1 (pd_prize_count p))) (length L)"
    unfolding D(7) by (simp add: length_draw_sample pd)
  ultimately have count: "int (length ws) = min (max 1 (pd_prize_count p))
      (min MAX_LIMIT (count_claims_by_status_for_spot sp CLAIM_STATUS_SUCCESS d))" by linarith
  have fin: "get_spot sp d' = map_option (\<lambda>s. s\<lparr>sp_status := SPOT_STATUS_COMPLETED, sp_updated_at := db_now d\<rparr>) (get_spot sp d)"
    using C(7) frame_get(1,4) [OF F(2)] frame_get(1,4) [OF M(2)] by simp
  have ids: "map cl_id (db_claims d') = map cl_id (db_claims d)"
    unfolding C(2) M(3) F(1) by (simp add: map_update_where)
  have stat: "map cl_status (db_claims d') = map (drawn_status sp ws) (db_claims d)"
  proof -
    have key: "c \<in> set (db_claims d) \<Longrightarrow> cl_id c \<in> set ws \<Longrightarrow> cl_status c = CLAIM_STATUS_SUCCESS" for c
    proof -
      assume c: "c \<in> set (db_claims d)" "cl_id c \<in> set ws"
      obtain c1 where c1: "c1 \<in> set ?S" "cl_id c1 = cl_id c" using winS c(2) by blast
      then have "c1 \<in> set (db_claims d)" using succ by auto
      from db_ok_claim_row [OF ok this] db_ok_claim_row [OF ok c(1)] c1(2) have "c1 = c" by (metis option.inject)
      then show ?thesis using c1(1) by simp
    qed
    show ?thesis
      unfolding C(2) M(3) F(1) update_where_def
      by (auto simp: drawn_status_def pending_of_def dest: key)
  qed
  have from_claims: "\<exists>c\<in>set (db_claims d). cl_id c = w \<and> cl_spot_id c = sp \<and> cl_status c = CLAIM_STATUS_SUCCESS"
    if w: "w \<in> set ws" for w
  proof -
    obtain c where c: "c \<in> set ?S" "cl_id c = w" using winS [OF w] by blast
    then have "c \<in> set (db_claims d)" using succ by auto
    then show ?thesis using c by auto
  qed
  have spot: "\<exists>s p. get_spot sp d = Some s \<and> sp_status s = SPOT_STATUS_PUBLISHED \<and> get_prizedraw sp d = Some p
        \<and> settlement_ready_reason s (db_now d) d = Some reason
        \<and> int (length ws) = min (max 1 (pd_prize_count p))
            (min MAX_LIMIT (count_claims_by_status_for_spot sp CLAIM_STATUS_SUCCESS d))"
    using D(1,2,4) p count by blast
  show "db_ok d'" "distinct ws" "sorted ws" "\<forall>w\<in>set ws. 0 < w" "\<exists>s p. get_spot sp d = Some s \<and> sp_status s = SPOT_STATUS_PUBLISHED \<and> get_prizedraw sp d = Some p
        \<and> settlement_ready_reason s (db_now d) d = Some reason
        \<and> int (length ws) = min (max 1 (pd_prize_count p))
            (min MAX_LIMIT (count_claims_by_status_for_spot sp CLAIM_STATUS_SUCCESS d))"
    "w \<in> set ws \<Longrightarrow> \<exists>c\<in>set (db_claims d). cl_id c = w \<and> cl_spot_id c = sp \<and> cl_status c = CLAIM_STATUS_SUCCESS" for w
    by (fact C(1) dist M(4) spot from_claims | simp add: D(7))+
  show "map cl_id (db_claims d') = map cl_id (db_claims d)" "map cl_status (db_claims d') = map (drawn_status sp ws) (db_claims d)"
    "get_spot sp d' = map_option (\<lambda>s. s\<lparr>sp_status := SPOT_STATUS_COMPLETED, sp_updated_at := db_now d\<rparr>) (get_spot sp d)"
    by (fact ids stat fin)+
  show "db_trans d' = db_trans d" "get_prizedraw sp d' = get_prizedraw sp d"
    using F(2) M(2) C(3,4) by (simp_all add: claim_frame_def get_prizedraw_def)
  show "map cl_spot_id (db_claims d') = map cl_spot_id (db_claims d)"
    unfolding C(2) M(3) F(1) by (simp add: map_update_where)
qed

text \<open>
  C23: A draw happens only for a published Prizedraw that is full or over. It takes
  as many winners as there are prizes, or all entries if fewer (at most 500
  entries are looked at), all distinct successful claims, whatever the random
  numbers. Afterwards exactly the winners are pending, undecided entries have
  failed, losers keep their status, the Spot is completed, and no later draw of
  it, with any random numbers, changes anything.
\<close>

theorem draw_is_final:
  assumes draw: "draw_prizedraw draws sp d = Inr (Drawn reason n ws, d')" and ok: "db_ok d"
  shows "db_ok d' \<and> distinct ws
    \<and> (\<exists>s p. get_spot sp d = Some s \<and> sp_status s = SPOT_STATUS_PUBLISHED \<and> get_prizedraw sp d = Some p
        \<and> settlement_ready_reason s (db_now d) d = Some reason
        \<and> int (length ws) = min (max 1 (pd_prize_count p))
            (min MAX_LIMIT (count_claims_by_status_for_spot sp CLAIM_STATUS_SUCCESS d)))
    \<and> (\<forall>w\<in>set ws. \<exists>c\<in>set (db_claims d). cl_id c = w \<and> cl_spot_id c = sp \<and> cl_status c = CLAIM_STATUS_SUCCESS)
    \<and> map cl_id (db_claims d') = map cl_id (db_claims d)
    \<and> map cl_status (db_claims d') = map (drawn_status sp ws) (db_claims d)
    \<and> (\<exists>s'. get_spot sp d' = Some s' \<and> sp_status s' = SPOT_STATUS_COMPLETED)
    \<and> (\<forall>draws'. draw_prizedraw draws' sp d' = Inr (NotDrawn True ''not_published'', d'))"
proof -
  note F = draw_facts [OF draw ok]
  have fin: "\<exists>s'. get_spot sp d' = Some s' \<and> sp_status s' = SPOT_STATUS_COMPLETED" using F(5,9) by auto
  then have again: "draw_prizedraw draws' sp d' = Inr (NotDrawn True ''not_published'', d')" for draws'
    by (auto simp: draw_prizedraw_def)
  show ?thesis by (intro conjI ballI allI F(1,2,5,6,7,8) fin again)
qed

section \<open>Sharing the pool\<close>

definition unpaid_winner :: "db \<Rightarrow> int \<Rightarrow> bool" where
  "unpaid_winner d k \<longleftrightarrow> \<not> list_ex (claim_payout k) (db_trans d)"

lemma unpaid_winner_facts:
  assumes "unpaid_winner d k"
  shows "\<not> has_confirmed_claim_payout_transaction k d" "\<not> has_nonfailed_claim_payout_transaction k d"
    "latest_failed_claim_payout_amount k d = None"
proof -
  have "filter (\<lambda>t. claim_payout k t \<and> tr_status t = TRANS_STATUS_FAILED) (db_trans d) = []"
    using assms by (auto simp: unpaid_winner_def list_ex_iff filter_empty_conv)
  then show "latest_failed_claim_payout_amount k d = None" by (simp add: latest_failed_claim_payout_amount_def)
  show "\<not> has_confirmed_claim_payout_transaction k d" "\<not> has_nonfailed_claim_payout_transaction k d"
    using assms by (auto simp: unpaid_winner_def has_confirmed_claim_payout_transaction_def
        has_nonfailed_claim_payout_transaction_def list_ex_iff)
qed

lemma payout_jobs_unpaid:
  assumes "\<And>k. k \<in> set ks \<Longrightarrow> unpaid_winner d k \<and> map_of amounts k = Some (f k) \<and> 0 < f k"
  shows "payout_jobs amounts ks d = Inr (map (\<lambda>k. JobSend k (f k)) ks, d)"
  using assms
proof (induction ks)
  case (Cons k ks)
  then have k: "unpaid_winner d k" "map_of amounts k = Some (f k)" "0 < f k" by simp_all
  then have "\<not> f k \<le> 0" by simp
  then show ?case using Cons unpaid_winner_facts [OF k(1)] k(2) by (simp add: Let_def retry_or_def)
qed simp

lemma map_zip_lookup:
  assumes "distinct ks" and "length as = length ks"
  shows "map (\<lambda>k. g k (the (map_of (zip ks as) k))) ks = map2 g ks as"
  by (rule nth_equalityI) (use assms in \<open>simp_all add: map_of_zip_nth\<close>)

lemma sorted_same_set: "sorted xs \<Longrightarrow> distinct xs \<Longrightarrow> set ys = set xs \<Longrightarrow> distinct ys \<Longrightarrow> sort ys = xs"
  by (metis distinct_sort set_sort sorted_distinct_set_unique sorted_sort)

lemma drawn_pending_ids:
  assumes draw: "draw_prizedraw draws sp d = Inr (Drawn reason n ws, d')" and ok: "db_ok d"
  shows "set (map cl_id (filter (\<lambda>c. cl_spot_id c = sp \<and> cl_status c = CLAIM_STATUS_PENDING) (db_claims d'))) = set ws"
    and "distinct (map cl_id (filter (\<lambda>c. cl_spot_id c = sp \<and> cl_status c = CLAIM_STATUS_PENDING) (db_claims d')))"
proof -
  note F = draw_facts [OF draw ok]
  let ?k = "\<lambda>c. (cl_id c, cl_spot_id c, cl_status c)"
  have z: "map ?k (db_claims d') = map (\<lambda>c. (cl_id c, cl_spot_id c, drawn_status sp ws c)) (db_claims d)"
  proof (rule nth_equalityI)
    show l: "length (map ?k (db_claims d')) = length (map (\<lambda>c. (cl_id c, cl_spot_id c, drawn_status sp ws c)) (db_claims d))"
      using F(7) by (metis length_map)
    fix i assume i: "i < length (map ?k (db_claims d'))"
    have "map cl_id (db_claims d') ! i = map cl_id (db_claims d) ! i"
      "map cl_spot_id (db_claims d') ! i = map cl_spot_id (db_claims d) ! i"
      "map cl_status (db_claims d') ! i = map (drawn_status sp ws) (db_claims d) ! i" using F(7,8,12) by simp_all
    then show "map ?k (db_claims d') ! i = map (\<lambda>c. (cl_id c, cl_spot_id c, drawn_status sp ws c)) (db_claims d) ! i"
      using i l by simp
  qed
  have "set (map cl_id (filter (\<lambda>c. cl_spot_id c = sp \<and> cl_status c = CLAIM_STATUS_PENDING) (db_claims d')))
      = {i. (i, sp, CLAIM_STATUS_PENDING) \<in> set (map ?k (db_claims d'))}" by force
  also have "\<dots> = {i. \<exists>c\<in>set (db_claims d). cl_id c = i \<and> cl_spot_id c = sp \<and> drawn_status sp ws c = CLAIM_STATUS_PENDING}"
    unfolding z by force
  also have "\<dots> = set ws"
    using F(6) by (fastforce simp: drawn_status_def split: if_split_asm)
  finally show "set (map cl_id (filter (\<lambda>c. cl_spot_id c = sp \<and> cl_status c = CLAIM_STATUS_PENDING) (db_claims d'))) = set ws" .
  show "distinct (map cl_id (filter (\<lambda>c. cl_spot_id c = sp \<and> cl_status c = CLAIM_STATUS_PENDING) (db_claims d')))"
    using F(1) by (auto simp: db_ok_def claims_ok_def distinct_map intro: inj_on_subset)
qed

text \<open>
  C24: The first payout pass after a draw asks to pay exactly the winners, each
  once, and together exactly the whole prize pool: equal shares, the indivisible
  rest on the winner with the lowest claim id. So an undersubscribed Prizedraw
  pays out everything, and no Luna is lost or created by the division.
\<close>

theorem prizedraw_pays_whole_pool:
  assumes draw: "draw_prizedraw draws sp d = Inr (Drawn reason n ws, d')" and ok: "db_ok d"
    and spot: "get_spot sp d = Some s" and ws: "ws \<noteq> []" and pool: "int (length ws) \<le> sp_total_value s"
    and fresh: "\<forall>t\<in>set (db_trans d). tr_type t = TRANS_TYPE_CLAIM \<longrightarrow> tr_spot_id t \<noteq> Some sp
      \<and> (\<forall>k. tr_claim_id t = Some k \<longrightarrow> k \<notin> set ws)"
  shows "\<exists>amounts. collect_payout_jobs sp d' = Inr (Jobs (map2 JobSend ws amounts), d')
    \<and> length amounts = length ws \<and> sum_list amounts = sp_total_value s
    \<and> (\<forall>i<length ws. amounts ! i = sp_total_value s div int (length ws)
         + (if i = 0 then sp_total_value s mod int (length ws) else 0))"
proof -
  note F = draw_facts [OF draw ok]
  note P = drawn_pending_ids [OF draw ok]
  let ?Q = "filter (\<lambda>c. cl_spot_id c = sp \<and> cl_status c = CLAIM_STATUS_PENDING) (db_claims d')"
  let ?am = "prize_amounts (sp_total_value s) (length ws)"
  have spot': "get_spot sp d' = Some (s\<lparr>sp_status := SPOT_STATUS_COMPLETED, sp_updated_at := db_now d\<rparr>)"
    using F(9) spot by simp
  have prize: "is_prizedraw sp d'" using F(5,11) by (auto simp: is_prizedraw_def)
  have len: "length ?Q = length ws"
    using P F(2) by (metis distinct_card length_map)
  have few: "length ws \<le> nat MAX_LIMIT"
    using F(5) by (auto simp: const_defs)
  have "map cd_claim (get_pending_claims_for_spot sp MAX_LIMIT d') = by_claimed_at ?Q"
    unfolding get_pending_claims_for_spot_def claims_by_status_rows [OF F(1)]
    using few len by (simp add: by_claimed_at_def)
  then have pend: "map (\<lambda>c. cl_id (cd_claim c)) (get_pending_claims_for_spot sp MAX_LIMIT d') = map cl_id (by_claimed_at ?Q)"
    by (metis (no_types, lifting) list.map_comp comp_apply map_eq_conv)
  have sorted_pend: "sort (map cl_id (by_claimed_at ?Q)) = ws"
    by (rule sorted_same_set [OF F(3,2)]) (use P in \<open>auto simp: by_claimed_at_def distinct_map\<close>)
  have "filter (\<lambda>t. tr_spot_id t = Some sp \<and> tr_type t = TRANS_TYPE_CLAIM \<and> tr_claim_id t \<noteq> None) (db_trans d') = []"
    using fresh F(10) by (auto simp: filter_empty_conv)
  then have winners: "get_prizedraw_winner_claim_ids sp d' = ws"
    unfolding get_prizedraw_winner_claim_ids_def
    by (intro sorted_same_set [OF F(3,2)]) (use P in auto)
  have clean: "sort (remdups (filter (\<lambda>i. 0 < i) ws)) = ws"
    by (rule sorted_same_set [OF F(3,2)]) (use F(4) in auto)
  have amounts: "prize_amounts_by_claim_id (sp_total_value s) ws = zip ws ?am"
    by (simp add: prize_amounts_by_claim_id_def Let_def clean)
  have jobs: "payout_jobs (zip ws ?am) ws d' = Inr (map (\<lambda>k. JobSend k (the (map_of (zip ws ?am) k))) ws, d')"
  proof (rule payout_jobs_unpaid, intro conjI)
    fix k assume k: "k \<in> set ws"
    show "unpaid_winner d' k" using fresh F(10) k by (auto simp: unpaid_winner_def list_ex_iff claim_payout_def)
    obtain a where a: "map_of (zip ws ?am) k = Some a" using k map_of_zip_is_Some [of ws ?am k] by auto
    then have "a \<in> set ?am" by (metis map_of_SomeD set_zip_rightD)
    then show "map_of (zip ws ?am) k = Some (the (map_of (zip ws ?am) k))" "0 < the (map_of (zip ws ?am) k)"
      using a prize_amounts_pos [OF pool] by simp_all
  qed
  have "collect_payout_jobs sp d' = Inr (Jobs (map2 JobSend ws ?am), d')"
    unfolding collect_payout_jobs_def
    using ws sorted_pend by (auto simp: spot' prize pend winners amounts jobs Let_def map_zip_lookup [OF F(2)])
  moreover have "sum_list ?am = sp_total_value s" using ws by (simp add: sum_prize_amounts)
  ultimately show ?thesis
    by (intro exI [of _ ?am]) (simp add: prize_amounts_nth)
qed

definition full_draw_db :: db where
  "full_draw_db = sample_draw_db\<lparr>
     db_spots := [sample_spot\<lparr>sp_max_total_claims := 3, sp_deposit_address := zero_address\<rparr>],
     db_claims := map (\<lambda>i. (sample_claim i (i + 1) CLAIM_STATUS_SUCCESS)\<lparr>cl_payout_address := Some payout_address\<rparr>) [1, 2, 3],
     db_claim_seq := 3\<rparr>"

lemma full_draw_db_ok: "db_ok full_draw_db"
  by (simp add: full_draw_db_def sample_defs db_ok_defs user_check_def spot_check_def trans_check_def unique_on_def
      const_defs has_user_def has_spot_def claim_payout_slot_def cancellation_slot_def claim_check_def
      creation_fee_slot_def remainder_refund_slot_def zero_address_def prizedraw_check_def prize_count_trigger_ok_def)

lemma full_draw: "\<exists>d'. draw_prizedraw (\<lambda>k. k) 1 full_draw_db = Inr (Drawn ''capacity_reached'' 0 [1, 2], d')"
proof -
  have "gives (draw_prizedraw (\<lambda>k. k) 1 full_draw_db) (\<lambda>x. fst x = Drawn ''capacity_reached'' 0 [1, 2])" by code_simp
  then show ?thesis by (auto simp: gives_iff)
qed

lemma draw_is_final_witness:
  "\<exists>d'. draw_prizedraw (\<lambda>k. k) 1 full_draw_db = Inr (Drawn ''capacity_reached'' 0 [1, 2], d')
    \<and> map cl_status (db_claims d') = [CLAIM_STATUS_PENDING, CLAIM_STATUS_PENDING, CLAIM_STATUS_SUCCESS]
    \<and> draw_prizedraw (\<lambda>k. 7) 1 d' = Inr (NotDrawn True ''not_published'', d')"
proof -
  obtain d' where d: "draw_prizedraw (\<lambda>k. k) 1 full_draw_db = Inr (Drawn ''capacity_reached'' 0 [1, 2], d')"
    using full_draw by blast
  have "map (drawn_status 1 [1, 2]) (db_claims full_draw_db) = [CLAIM_STATUS_PENDING, CLAIM_STATUS_PENDING, CLAIM_STATUS_SUCCESS]"
    by (simp add: full_draw_db_def sample_defs drawn_status_def)
  with draw_is_final [OF d full_draw_db_ok] d show ?thesis by auto
qed

lemma prizedraw_pays_whole_pool_witness:
  "\<exists>d'. draw_prizedraw (\<lambda>k. k) 1 full_draw_db = Inr (Drawn ''capacity_reached'' 0 [1, 2], d')
    \<and> (\<exists>a b. collect_payout_jobs 1 d' = Inr (Jobs [JobSend 1 a, JobSend 2 b], d') \<and> a + b = 50000000)"
proof -
  obtain d' where d: "draw_prizedraw (\<lambda>k. k) 1 full_draw_db = Inr (Drawn ''capacity_reached'' 0 [1, 2], d')"
    using full_draw by blast
  let ?s = "sample_spot\<lparr>sp_max_total_claims := 3, sp_deposit_address := zero_address\<rparr>"
  have s: "get_spot 1 full_draw_db = Some ?s" by (simp add: full_draw_db_def sample_defs get_spot_def)
  have v: "sp_total_value ?s = 50000000" by (simp add: sample_spot_def)
  have fresh: "\<forall>t\<in>set (db_trans full_draw_db). tr_type t = TRANS_TYPE_CLAIM \<longrightarrow> tr_spot_id t \<noteq> Some 1
      \<and> (\<forall>k. tr_claim_id t = Some k \<longrightarrow> k \<notin> set [1, 2 :: int])"
    by (simp add: full_draw_db_def sample_defs)
  obtain amounts where a: "collect_payout_jobs 1 d' = Inr (Jobs (map2 JobSend [1, 2] amounts), d')"
      "length amounts = length [1, 2 :: int]" "sum_list amounts = sp_total_value ?s"
    using prizedraw_pays_whole_pool [OF d full_draw_db_ok s _ _ fresh] v by auto
  then obtain x y where "amounts = [x, y]" by (auto simp: length_Suc_conv numeral_2_eq_2)
  then show ?thesis using a v d by auto
qed

section \<open>What is left of a Spot\<close>

definition quiet_spot :: "int \<Rightarrow> db \<Rightarrow> bool" where
  "quiet_spot sp d \<longleftrightarrow>
     (\<forall>c\<in>set (db_claims d). cl_spot_id c = sp \<longrightarrow> cl_status c \<noteq> CLAIM_STATUS_PENDING)
     \<and> (\<forall>t\<in>set (db_trans d). tr_spot_id t = Some sp \<and> remainder_blocking_type (tr_type t)
          \<longrightarrow> tr_status t \<noteq> TRANS_STATUS_PENDING)
     \<and> (\<not> is_prizedraw sp d \<longrightarrow> (\<forall>c\<in>set (db_claims d). cl_spot_id c = sp \<and> cl_status c = CLAIM_STATUS_SUCCESS
          \<longrightarrow> has_confirmed_claim_payout_transaction (cl_id c) d))"

definition spot_balance :: "int \<Rightarrow> db \<Rightarrow> int" where
  "spot_balance sp d = spot_total sp TRANS_TYPE_FILL_SPOT TRANS_STATUS_CONFIRMED d
     - spot_total sp TRANS_TYPE_CLAIM TRANS_STATUS_CONFIRMED d
     - spot_total sp TRANS_TYPE_CREATION_FEE TRANS_STATUS_CONFIRMED d
     - spot_total sp TRANS_TYPE_REMAINDER_REFUND TRANS_STATUS_CONFIRMED d"

lemma plan_remainder_returns:
  assumes "plan_remainder s done d = Inr (ReturnFunds a addr h, d')"
  shows "\<not> (\<not> is_prizedraw (sp_id s) d \<and> 0 < count_successful_standard_claims_without_confirmed_payout (sp_id s) d)"
    and "\<not> list_ex (\<lambda>t. remainder_blocking_type (tr_type t) \<and> tr_status t = TRANS_STATUS_PENDING)
           (get_transactions_by_spot (sp_id s) MAX_LIMIT 0 d)"
    and "spot_creation_fee_amount s
           \<le> rows_total TRANS_TYPE_CREATION_FEE TRANS_STATUS_CONFIRMED (get_transactions_by_spot (sp_id s) MAX_LIMIT 0 d)"
    and "(if done then set_spot_status_to_completed (sp_id s) d else Inr d) = Inr d'"
    and "a = remainder_amount (get_transactions_by_spot (sp_id s) MAX_LIMIT 0 d)" and "0 < a"
    and "\<exists>t. remainder_source (get_transactions_by_spot (sp_id s) MAX_LIMIT 0 d) = Some t
           \<and> addr = py_strip (tr_from_address t) \<and> h = py_strip (tr_tx_hash t)"
  using assms
  by (auto simp: plan_remainder_def Let_def bindE_Inr_iff split: if_split_asm option.split_asm)

lemma prepare_remainder_returns:
  assumes "prepare_remainder sp d = Inr (ReturnFunds a addr h, d')"
  shows "\<exists>s. get_spot sp d = Some s \<and> sp_cancellation_started_at s = None
    \<and> count_claims_by_status_for_spot sp CLAIM_STATUS_PENDING d \<le> 0
    \<and> (sp_status s = SPOT_STATUS_PUBLISHED \<and> \<not> is_prizedraw sp d \<and> remainder_terminal s d
         \<and> plan_remainder s True d = Inr (ReturnFunds a addr h, d')
       \<or> sp_status s = SPOT_STATUS_COMPLETED \<and> plan_remainder s False d = Inr (ReturnFunds a addr h, d'))"
  using assms by (auto simp: prepare_remainder_def split: if_split_asm option.split_asm)

text \<open>
  C25: Leftover funds of a Spot are returned only when nothing about it is open: it
  is not being cancelled, has no pending claim or payment, its creation fee and,
  for a standard Spot, the reward of every successful claim are confirmed on
  chain, and it is completed or over and is completed by the same step. What is
  returned is exactly the confirmed deposits less confirmed rewards, creation
  fee and earlier refunds, to the sender of a confirmed deposit; the ledger is
  untouched (for a Spot of at most 500 ledger rows).
\<close>

theorem remainder_is_what_is_left:
  assumes prep: "prepare_remainder sp d = Inr (ReturnFunds a addr h, d')"
    and ok: "db_ok d" and few: "spot_rows_listed sp d"
  shows "quiet_spot sp d \<and> 0 < a \<and> a = spot_balance sp d \<and> db_trans d' = db_trans d
    \<and> (\<exists>s s'. get_spot sp d = Some s \<and> sp_cancellation_started_at s = None
        \<and> spot_creation_fee_amount s \<le> spot_total sp TRANS_TYPE_CREATION_FEE TRANS_STATUS_CONFIRMED d
        \<and> (sp_status s = SPOT_STATUS_COMPLETED
             \<or> sp_status s = SPOT_STATUS_PUBLISHED \<and> \<not> is_prizedraw sp d \<and> remainder_terminal s d)
        \<and> get_spot sp d' = Some s' \<and> sp_status s' = SPOT_STATUS_COMPLETED)
    \<and> (\<exists>t\<in>set (db_trans d). tr_spot_id t = Some sp \<and> tr_type t = TRANS_TYPE_FILL_SPOT
        \<and> tr_status t = TRANS_STATUS_CONFIRMED \<and> py_strip (tr_from_address t) = addr \<and> addr \<noteq> [])"
proof -
  obtain s where s: "get_spot sp d = Some s" "sp_cancellation_started_at s = None"
      "count_claims_by_status_for_spot sp CLAIM_STATUS_PENDING d \<le> 0"
    and branch: "sp_status s = SPOT_STATUS_PUBLISHED \<and> \<not> is_prizedraw sp d \<and> remainder_terminal s d
         \<and> plan_remainder s True d = Inr (ReturnFunds a addr h, d')
       \<or> sp_status s = SPOT_STATUS_COMPLETED \<and> plan_remainder s False d = Inr (ReturnFunds a addr h, d')"
    using prepare_remainder_returns [OF prep] by blast
  obtain fin where plan: "plan_remainder s fin d = Inr (ReturnFunds a addr h, d')"
    and fin: "\<not> fin \<longrightarrow> sp_status s = SPOT_STATUS_COMPLETED"
    using branch by blast
  have id: "sp_id s = sp" using s(1) by (auto simp: get_spot_def dest: find_row_SomeD)
  note P = plan_remainder_returns [OF plan, unfolded id]
  have st: "sp_status s = SPOT_STATUS_COMPLETED
      \<or> sp_status s = SPOT_STATUS_PUBLISHED \<and> \<not> is_prizedraw sp d \<and> remainder_terminal s d" using branch by blast
  have after: "\<exists>s'. get_spot sp d' = Some s' \<and> sp_status s' = SPOT_STATUS_COMPLETED" "db_trans d' = db_trans d"
  proof (atomize (full), cases fin)
    case True
    then have c: "set_spot_status_to_completed sp d = Inr d'" using P(4) by simp
    from completed_rows(3,7) [OF c ok] s(1)
    show "(\<exists>s'. get_spot sp d' = Some s' \<and> sp_status s' = SPOT_STATUS_COMPLETED) \<and> db_trans d' = db_trans d" by simp
  next
    case False
    with P(4) have "d' = d" by simp
    with s(1) fin False
    show "(\<exists>s'. get_spot sp d' = Some s' \<and> sp_status s' = SPOT_STATUS_COMPLETED) \<and> db_trans d' = db_trans d" by blast
  qed
  note tot = rows_total_listed [OF ok few]
  have pend: "\<forall>c\<in>set (db_claims d). cl_spot_id c = sp \<longrightarrow> cl_status c \<noteq> CLAIM_STATUS_PENDING"
    using s(3) by (auto simp: count_claims_by_status_for_spot_def count_where_def filter_empty_conv)
  have open_rows: "\<forall>t\<in>set (db_trans d). tr_spot_id t = Some sp \<and> remainder_blocking_type (tr_type t)
      \<longrightarrow> tr_status t \<noteq> TRANS_STATUS_PENDING"
    using P(2) listed_set [OF ok few] by (auto simp: list_ex_iff)
  have paid: "\<not> is_prizedraw sp d \<longrightarrow> (\<forall>c\<in>set (db_claims d). cl_spot_id c = sp \<and> cl_status c = CLAIM_STATUS_SUCCESS
      \<longrightarrow> has_confirmed_claim_payout_transaction (cl_id c) d)"
    using P(1) by (auto simp: count_successful_standard_claims_without_confirmed_payout_def count_where_def filter_empty_conv)
  have amount: "a = spot_balance sp d"
    using P(5,6) by (simp add: remainder_amount_def spot_balance_def tot)
  have fee: "spot_creation_fee_amount s \<le> spot_total sp TRANS_TYPE_CREATION_FEE TRANS_STATUS_CONFIRMED d"
    using P(3) by (simp add: tot)
  obtain t where t: "remainder_source (get_transactions_by_spot sp MAX_LIMIT 0 d) = Some t" "addr = py_strip (tr_from_address t)"
    using P(7) by blast
  have source: "t \<in> set (db_trans d) \<and> tr_spot_id t = Some sp \<and> tr_type t = TRANS_TYPE_FILL_SPOT
        \<and> tr_status t = TRANS_STATUS_CONFIRMED \<and> addr \<noteq> []"
    using t listed_set [OF ok few] by (auto simp: remainder_source_def find_Some_iff dest: nth_mem)
  show ?thesis
    unfolding quiet_spot_def
    by (intro conjI pend open_rows paid P(6) amount after(2)) (use s st fee after(1) source t(2) in auto)
qed

definition sample_fee_row :: trans_row where
  "sample_fee_row = sample_deposit\<lparr>tr_id := 2, tr_type := TRANS_TYPE_CREATION_FEE, tr_amount := 20000000,
     tr_from_address := ''D'', tr_to_address := ''F'', tr_tx_hash := ''h2''\<rparr>"

definition leftover_db :: db where
  "leftover_db = sample_db\<lparr>db_trans := [sample_deposit, sample_fee_row], db_trans_seq := 2, db_now := 9000000\<rparr>"

lemma leftover_db_ok: "db_ok leftover_db"
  by (simp add: leftover_db_def sample_fee_row_def sample_defs db_ok_defs user_check_def spot_check_def trans_check_def
      unique_on_def const_defs has_user_def has_spot_def claim_payout_slot_def cancellation_slot_def
      creation_fee_slot_def remainder_refund_slot_def)

lemma remainder_is_what_is_left_witness:
  "\<exists>d'. prepare_remainder 1 leftover_db = Inr (ReturnFunds 50000000 ''W'' ''h1'', d')
    \<and> spot_balance 1 leftover_db = 50000000 \<and> (\<exists>s'. get_spot 1 d' = Some s' \<and> sp_status s' = SPOT_STATUS_COMPLETED)"
proof -
  have "gives (prepare_remainder 1 leftover_db) (\<lambda>x. fst x = ReturnFunds 50000000 ''W'' ''h1'')" by code_simp
  then obtain d' where d: "prepare_remainder 1 leftover_db = Inr (ReturnFunds 50000000 ''W'' ''h1'', d')"
    by (auto simp: gives_iff)
  have few: "spot_rows_listed 1 leftover_db" unfolding spot_rows_listed_def by code_simp
  from remainder_is_what_is_left [OF d leftover_db_ok few] d show ?thesis by auto
qed

text \<open>
  The refund of a completed Prizedraw does not ask whether its winners were
  paid: once no claim is pending the retry pass has no job, and the whole
  balance of the Spot, prizes included, goes back to the funding wallet. With a
  heartbeat that takes an unpaid winner out of the pending claims this returns
  the winner's prize to the creator.
\<close>

theorem unpaid_prize_returned:
  assumes s: "get_spot sp d = Some s" "sp_status s = SPOT_STATUS_COMPLETED" "sp_cancellation_started_at s = None"
    and prize: "is_prizedraw sp d" and ok: "db_ok d" and few: "spot_rows_listed sp d" and q: "quiet_spot sp d"
    and fee: "spot_creation_fee_amount s \<le> spot_total sp TRANS_TYPE_CREATION_FEE TRANS_STATUS_CONFIRMED d"
    and bal: "0 < spot_balance sp d"
    and dep: "\<exists>t\<in>set (db_trans d). tr_spot_id t = Some sp \<and> tr_type t = TRANS_TYPE_FILL_SPOT
        \<and> tr_status t = TRANS_STATUS_CONFIRMED \<and> py_strip (tr_from_address t) \<noteq> []"
  shows "collect_payout_jobs sp d = Inr (NoJobs True ''no_pending_winners'', d)
    \<and> (\<exists>addr h. prepare_remainder sp d = Inr (ReturnFunds (spot_balance sp d) addr h, d))"
proof -
  let ?rows = "get_transactions_by_spot sp MAX_LIMIT 0 d"
  note tot = rows_total_listed [OF ok few]
  have none: "filter (\<lambda>c. cl_spot_id c = sp \<and> cl_status c = CLAIM_STATUS_PENDING) (db_claims d) = []"
    using q by (auto simp: quiet_spot_def filter_empty_conv)
  have cnt: "\<not> 0 < count_claims_by_status_for_spot sp CLAIM_STATUS_PENDING d"
    using none by (simp add: count_claims_by_status_for_spot_def count_where_def)
  have "map cd_claim (get_pending_claims_for_spot sp MAX_LIMIT d) = []"
    unfolding get_pending_claims_for_spot_def claims_by_status_rows [OF ok] none by (simp add: by_claimed_at_def)
  then have pend: "get_pending_claims_for_spot sp MAX_LIMIT d = []" by simp
  have id: "sp_id s = sp" using s(1) by (auto simp: get_spot_def dest: find_row_SomeD)
  have open_rows: "\<not> list_ex (\<lambda>t. remainder_blocking_type (tr_type t) \<and> tr_status t = TRANS_STATUS_PENDING) ?rows"
    using q listed_set [OF ok few] by (auto simp: list_ex_iff quiet_spot_def)
  have amount: "remainder_amount ?rows = spot_balance sp d" using bal by (simp add: remainder_amount_def spot_balance_def tot)
  obtain t where src: "remainder_source ?rows = Some t"
    using dep listed_set [OF ok few]
    by (cases "remainder_source ?rows") (auto simp: remainder_source_def find_None_iff)
  have plan: "plan_remainder s False d = Inr (ReturnFunds (spot_balance sp d) (py_strip (tr_from_address t)) (py_strip (tr_tx_hash t)), d)"
    unfolding plan_remainder_def Let_def id using prize open_rows fee bal by (simp add: tot amount src)
  have "collect_payout_jobs sp d = Inr (NoJobs True ''no_pending_winners'', d)"
    by (simp add: collect_payout_jobs_def s(1,2) prize pend)
  moreover have "prepare_remainder sp d = plan_remainder s False d"
    unfolding prepare_remainder_def using cnt by (simp add: s)
  ultimately show ?thesis using plan by auto
qed

definition dropped_db :: db where
  "dropped_db = sample_winner_db\<lparr>db_trans := [sample_deposit, sample_fee_row], db_trans_seq := 2\<rparr>"

lemma dropped_db_ok: "db_ok dropped_db"
  by (simp add: dropped_db_def sample_winner_db_def sample_fee_row_def sample_defs db_ok_defs user_check_def
      spot_check_def trans_check_def unique_on_def const_defs has_user_def has_spot_def claim_payout_slot_def
      cancellation_slot_def claim_check_def creation_fee_slot_def remainder_refund_slot_def prizedraw_check_def
      prize_count_trigger_ok_def)

definition after_heartbeats :: "db res" where
  "after_heartbeats =
     bindE (process_duration_claim_location_heartbeat policy_promoter (\<lambda>_ _ _ _. 0) 1 2 0 0 None dropped_db) (\<lambda>r1.
     bindE (process_duration_claim_location_heartbeat policy_promoter (\<lambda>_ _ _ _. 0) 2 3 0 0 None (snd r1)) (\<lambda>r2.
     Inr (snd r2)))"

definition prize_unprotected :: "int \<Rightarrow> db \<Rightarrow> bool" where
  "prize_unprotected sp d \<longleftrightarrow> spot_rows_listed sp d \<and> quiet_spot sp d \<and> is_prizedraw sp d
     \<and> spot_balance sp d = 50000000 \<and> spot_total sp TRANS_TYPE_CREATION_FEE TRANS_STATUS_CONFIRMED d = 20000000
     \<and> (case get_spot sp d of None \<Rightarrow> False | Some s \<Rightarrow> sp_status s = SPOT_STATUS_COMPLETED
          \<and> sp_cancellation_started_at s = None \<and> spot_creation_fee_amount s = 20000000)
     \<and> (\<exists>t\<in>set (db_trans d). tr_spot_id t = Some sp \<and> tr_type t = TRANS_TYPE_FILL_SPOT
        \<and> tr_status t = TRANS_STATUS_CONFIRMED \<and> py_strip (tr_from_address t) \<noteq> [])"

lemma after_heartbeats_value: "\<exists>d. after_heartbeats = Inr d \<and> db_ok d \<and> prize_unprotected 1 d"
proof -
  have "gives after_heartbeats (prize_unprotected 1)" by code_simp
  then obtain d where d: "after_heartbeats = Inr d" "prize_unprotected 1 d" by (auto simp: gives_iff)
  then have "db_ok d"
    using policy.heartbeat_safe dropped_db_ok unfolding after_heartbeats_def claim_safe_def by fastforce
  then show ?thesis using d by blast
qed

lemma unpaid_prize_returned_witness:
  "get_prizedraw_winner_claim_ids 1 dropped_db = [1, 2]
    \<and> (\<exists>d addr h. after_heartbeats = Inr d \<and> prepare_remainder 1 d = Inr (ReturnFunds 50000000 addr h, d))"
proof -
  have ids: "get_prizedraw_winner_claim_ids 1 dropped_db = [1, 2]" by code_simp
  obtain d where d: "after_heartbeats = Inr d" "db_ok d" and p: "prize_unprotected 1 d"
    using after_heartbeats_value by blast
  then obtain s where s: "get_spot 1 d = Some s" "sp_status s = SPOT_STATUS_COMPLETED" "sp_cancellation_started_at s = None"
      "spot_creation_fee_amount s = 20000000"
    by (auto simp: prize_unprotected_def split: option.split_asm)
  have "\<exists>addr h. prepare_remainder 1 d = Inr (ReturnFunds (spot_balance 1 d) addr h, d)"
    using unpaid_prize_returned [OF s(1-3) _ d(2)] p s(4) by (simp add: prize_unprotected_def)
  then show ?thesis using ids d(1) p by (auto simp: prize_unprotected_def)
qed

end
