(* ===== verification/PayoutSecurity.thy ===== *)
theory PayoutSecurity
  imports Payments
begin

text \<open>
  The payout boundary of \<^verbatim>\<open>claim_security.py\<close>: before a claim is paid its
  security record is consulted, and a claim without a clean record is held.
  Settings read from the environment are the fields of \<open>security_limits\<close>;
  \<open>default_security_limits\<close> are their defaults.
\<close>

record security_limits =
  sl_challenge_ttl :: int
  sl_authorization_ttl :: int
  sl_verify_grace :: int
  sl_cleanup_batch :: int
  sl_authorization_window :: int
  sl_authorization_per_device :: int
  sl_authorization_per_wallet :: int
  sl_session_ttl :: int
  sl_payout_hold :: int
  sl_event_retention :: int
  sl_max_events :: int
  sl_travel_min :: int
  sl_travel_mps :: int
  sl_ip_travel_min :: int
  sl_ip_travel_mps :: int
  sl_wallet_hourly :: int
  sl_auth_window :: int
  sl_auth_per_ip :: int
  sl_auth_per_device :: int
  sl_burst_window :: int
  sl_burst_identities :: int
  sl_burst_spread :: int
  sl_burst_tolerance :: int
  sl_new_identity_age :: int

definition default_security_limits :: security_limits where
  "default_security_limits = \<lparr>sl_challenge_ttl = 300, sl_authorization_ttl = 90, sl_verify_grace = 300,
     sl_cleanup_batch = 64, sl_authorization_window = 600, sl_authorization_per_device = 8,
     sl_authorization_per_wallet = 16, sl_session_ttl = 2592000, sl_payout_hold = 300,
     sl_event_retention = 86400, sl_max_events = 200, sl_travel_min = 1000, sl_travel_mps = 75,
     sl_ip_travel_min = 20000, sl_ip_travel_mps = 200, sl_wallet_hourly = 20, sl_auth_window = 600,
     sl_auth_per_ip = 64, sl_auth_per_device = 5, sl_burst_window = 600, sl_burst_identities = 4,
     sl_burst_spread = 50000, sl_burst_tolerance = 5, sl_new_identity_age = 3600\<rparr>"

text \<open>One setting: blank means the default, anything else is an integer that is large enough.\<close>

definition env_int :: "(string \<Rightarrow> int option) \<Rightarrow> string \<Rightarrow> int \<Rightarrow> int \<Rightarrow> int res" where
  "env_int parse raw default_value minimum =
    (let text = py_strip raw in
     if text = [] then Inr default_value
     else case parse text of
       None \<Rightarrow> Inl (ValueError ''must be an integer'')
     | Some value \<Rightarrow> if value < minimum then Inl (ValueError ''must be at least the minimum'') else Inr value)"

section \<open>Identities (\<^verbatim>\<open>claim_identity.py\<close>)\<close>

definition clean_device_identifier :: "string \<Rightarrow> string res" where
  "clean_device_identifier value =
    (let clean = py_lower (py_strip value) in
     if length clean = 64 \<and> list_all is_hex clean then Inr clean
     else Inl (ValueError ''A valid Nimiq Pay device identifier is required.''))"

definition canonical_payout_address :: "string \<Rightarrow> string option" where
  "canonical_payout_address value =
    (let raw = py_strip value in
     if raw = [] then None
     else case normalise_nimiq_address False raw of Inl _ \<Rightarrow> None | Inr a \<Rightarrow> Some a)"

definition canonical_optional :: "string option \<Rightarrow> string option" where
  "canonical_optional value = (case value of None \<Rightarrow> None | Some v \<Rightarrow> canonical_payout_address v)"

section \<open>Security records\<close>

definition get_claim_security_record :: "int \<Rightarrow> security_state \<Rightarrow> claim_event option" where
  "get_claim_security_record claim_id ss = get_json (ss_records ss) claim_id"

definition set_security_record :: "int \<Rightarrow> claim_event \<Rightarrow> security_state \<Rightarrow> security_state" where
  "set_security_record claim_id r ss = ss\<lparr>ss_records := set_json claim_id r (ss_records ss)\<rparr>"

definition hold_record :: "string \<Rightarrow> int \<Rightarrow> claim_event \<Rightarrow> claim_event" where
  "hold_record reason now r =
     r\<lparr>ev_manual_review := True, ev_review_reason := Some reason, ev_review_marked_at := Some now\<rparr>"

definition release_claim_manual_review :: "int \<Rightarrow> int \<Rightarrow> security_state \<Rightarrow> bool \<times> security_state" where
  "release_claim_manual_review claim_id now ss = (case get_claim_security_record claim_id ss of
     None \<Rightarrow> (False, ss)
   | Some r \<Rightarrow> (True, set_security_record claim_id (r\<lparr>ev_manual_review := False, ev_review_reason := None,
       ev_review_marked_at := None, ev_released_at := Some now\<rparr>) ss))"

section \<open>The payout decision\<close>

record security_decision =
  sd_allow :: bool
  sd_reason :: string
  sd_review :: bool
  sd_retry_at :: "int option"

definition refuse :: "string \<Rightarrow> bool \<Rightarrow> security_decision" where
  "refuse reason review = \<lparr>sd_allow = False, sd_reason = reason, sd_review = review, sd_retry_at = None\<rparr>"

definition permit :: "string \<Rightarrow> security_decision" where
  "permit reason = \<lparr>sd_allow = True, sd_reason = reason, sd_review = False, sd_retry_at = None\<rparr>"

definition check_record :: "security_limits \<Rightarrow> claim_row \<Rightarrow> claim_event \<Rightarrow> int \<Rightarrow> security_decision \<times> claim_event" where
  "check_record sl c r now =
    (let claim_payout = canonical_optional (cl_payout_address c);
         verified_wallet = canonical_payout_address (ev_wallet r);
         recorded_payout = canonical_optional (ev_payout r);
         claimed_at = (if cl_claimed_at c = 0 then now else cl_claimed_at c);
         release_at = claimed_at + sl_payout_hold sl
     in if ev_manual_review r
        then (refuse (case ev_review_reason r of None \<Rightarrow> ''manual_review'' | Some s \<Rightarrow> or_text s ''manual_review'') True, r)
        else if verified_wallet = None
        then (refuse ''claim_verified_wallet_missing_or_invalid'' True,
              hold_record ''claim_verified_wallet_missing_or_invalid'' now r)
        else if claim_payout \<noteq> verified_wallet \<or> recorded_payout \<noteq> None \<and> recorded_payout \<noteq> claim_payout
        then (refuse ''legacy_claim_payout_identity_mismatch'' True,
              hold_record ''legacy_claim_payout_identity_mismatch'' now r)
        else if now < release_at then ((refuse ''security_hold'' False)\<lparr>sd_retry_at := Some release_at\<rparr>, r)
        else (permit ''security_checks_passed'', r))"

definition payout_security_decision ::
  "settings \<Rightarrow> security_limits \<Rightarrow> int \<Rightarrow> db \<Rightarrow> security_state \<Rightarrow> security_decision \<times> security_state" where
  "payout_security_decision c sl claim_id d ss = (case get_claim claim_id d of
     None \<Rightarrow> (refuse ''claim_missing'' False, ss)
   | Some detail \<Rightarrow> (case get_claim_security_record claim_id ss of
       None \<Rightarrow> if public_deployment c then (refuse ''security_record_missing'' True, ss)
               else (permit ''development_without_security_record'', ss)
     | Some r \<Rightarrow> (case check_record sl (cd_claim detail) r (db_now d) of
         (decision, r') \<Rightarrow> (decision, if r' = r then ss else set_security_record claim_id r' ss))))"

text \<open>The decision as a step of the world, and the gate in front of the payout.\<close>

definition decide_payout :: "settings \<Rightarrow> security_limits \<Rightarrow> int \<Rightarrow> security_decision act" where
  "decide_payout c sl claim_id w = (case payout_security_decision c sl claim_id (wd_db w) (wd_security w) of
     (decision, ss) \<Rightarrow> (Inr decision, w\<lparr>wd_security := ss\<rparr>))"

definition submit_claim_reward_transaction_with_security ::
  "services \<Rightarrow> security_limits \<Rightarrow> int \<Rightarrow> int \<Rightarrow> string option \<Rightarrow> send_outcome act" where
  "submit_claim_reward_transaction_with_security sv sl claim_id amount to_address =
     bindA (decide_payout (sv_settings sv) sl claim_id) (\<lambda>decision.
     if sd_allow decision then submit_claim_reward_transaction sv claim_id amount to_address
     else returnA (Skipped (sd_reason decision)))"

end
