(* ===== verification/Throttle.thy ===== *)
theory Throttle
  imports PayoutSecurity
begin

text \<open>
  \<^verbatim>\<open>claim_payout_throttle.py\<close>: how much may be paid out automatically within
  rolling windows, over all Spots, per day, and per open Spot. A slot is reserved
  in one writer transaction before anything is sent. Settings read from the
  environment are the fields of \<open>throttle_limits\<close>.
\<close>

record throttle_limits =
  tl_window :: int
  tl_max_count :: int
  tl_max_luna :: int
  tl_daily_window :: int
  tl_daily_count :: int
  tl_daily_luna :: int
  tl_single_luna :: int
  tl_spot_window :: int
  tl_spot_count :: int
  tl_spot_luna :: int
  tl_percent :: int

definition default_throttle_limits :: throttle_limits where
  "default_throttle_limits = \<lparr>tl_window = 600, tl_max_count = 8, tl_max_luna = 10000 * 100000,
     tl_daily_window = 86400, tl_daily_count = 100, tl_daily_luna = 50000 * 100000,
     tl_single_luna = 10000 * 100000, tl_spot_window = 86400, tl_spot_count = 10,
     tl_spot_luna = 5000 * 100000, tl_percent = 50\<rparr>"

section \<open>Window states\<close>

record window_state =
  ws_now :: int
  ws_count :: int
  ws_amount :: int
  ws_oldest :: "int option"

definition min_of :: "int list \<Rightarrow> int option" where
  "min_of xs = (case xs of [] \<Rightarrow> None | x # rest \<Rightarrow> Some (fold min rest x))"

definition live_payout :: "trans_row \<Rightarrow> bool" where
  "live_payout t \<longleftrightarrow> tr_type t = TRANS_TYPE_CLAIM \<and> tr_status t \<noteq> TRANS_STATUS_FAILED"

definition payout_window_state :: "throttle_limits \<Rightarrow> int \<Rightarrow> db \<Rightarrow> window_state" where
  "payout_window_state tlim now d =
    (let rows = filter (\<lambda>t. live_payout t \<and> now - tl_window tlim < tr_created_at t) (db_trans d)
     in \<lparr>ws_now = now, ws_count = int (length rows), ws_amount = sum_list (map tr_amount rows),
         ws_oldest = min_of (map tr_created_at rows)\<rparr>)"

definition recent_payout_rows :: "throttle_limits \<Rightarrow> int \<Rightarrow> db \<Rightarrow> trans_row list" where
  "recent_payout_rows tlim now d = filter (\<lambda>t. live_payout t
     \<and> now - max (tl_window tlim) (max (tl_daily_window tlim) (tl_spot_window tlim)) < tr_created_at t) (db_trans d)"

definition lifetime_spot_payout_rows :: "int \<Rightarrow> db \<Rightarrow> trans_row list" where
  "lifetime_spot_payout_rows spot_id d = filter (\<lambda>t. live_payout t \<and> tr_spot_id t = Some spot_id) (db_trans d)"

definition paid_claim_ids :: "trans_row list \<Rightarrow> int list" where
  "paid_claim_ids rows = filter (\<lambda>i. 0 < i) (List.map_filter tr_claim_id rows)"

text \<open>A reservation counts from the time of the window that is being added up.\<close>

definition combined_window_state ::
  "int \<Rightarrow> trans_row list \<Rightarrow> (reservation \<Rightarrow> int) \<Rightarrow> reservation list \<Rightarrow> window_state" where
  "combined_window_state now payout_rows stamp reservations =
    (let unpaid = filter (\<lambda>v. rv_claim_id v \<notin> set (paid_claim_ids payout_rows)) reservations
     in \<lparr>ws_now = now, ws_count = int (length payout_rows) + int (length unpaid),
         ws_amount = sum_list (map (\<lambda>t. max 0 (tr_amount t)) payout_rows)
           + sum_list (map (\<lambda>v. max 0 (rv_amount v)) unpaid),
         ws_oldest = min_of (map (\<lambda>t. if tr_created_at t = 0 then now else tr_created_at t) payout_rows
           @ map stamp unpaid)\<rparr>)"

section \<open>Decisions\<close>

definition retry_time :: "window_state \<Rightarrow> int \<Rightarrow> int" where
  "retry_time st window_seconds = (case ws_oldest st of None \<Rightarrow> ws_now st + window_seconds
     | Some oldest \<Rightarrow> oldest + window_seconds + 1)"

definition defer_until :: "string \<Rightarrow> int \<Rightarrow> security_decision" where
  "defer_until reason t = (refuse reason False)\<lparr>sd_retry_at := Some t\<rparr>"

definition throttle_decision ::
  "throttle_limits \<Rightarrow> window_state \<Rightarrow> int \<Rightarrow> window_state option \<Rightarrow> security_decision" where
  "throttle_decision tlim st requested daily_state =
    (let amount = max 0 requested; payout_count = max 0 (ws_count st); payout_amount = max 0 (ws_amount st);
         retry_at = retry_time st (tl_window tlim);
         global = (if tl_max_count tlim \<le> payout_count then defer_until ''global_payout_count_limit'' retry_at
                   else if tl_max_luna tlim < payout_amount + amount
                   then defer_until ''global_payout_amount_limit'' retry_at
                   else permit ''within_global_payout_limits'')
     in if tl_single_luna tlim < amount then refuse ''individual_automatic_payout_limit'' True
        else (case daily_state of None \<Rightarrow> global
          | Some day \<Rightarrow>
            if tl_daily_count tlim \<le> max 0 (ws_count day)
            then defer_until ''daily_payout_count_limit'' (retry_time day (tl_daily_window tlim))
            else if tl_daily_luna tlim < max 0 (ws_amount day) + amount
            then defer_until ''daily_payout_amount_limit'' (retry_time day (tl_daily_window tlim))
            else global))"

text \<open>Both Spot decisions carry \<^verbatim>\<open>"manual_review": True\<close>, the ones that allow too.\<close>

definition spot_window_decision :: "throttle_limits \<Rightarrow> window_state \<Rightarrow> int \<Rightarrow> security_decision" where
  "spot_window_decision tlim st amount =
    (if tl_spot_count tlim \<le> max 0 (ws_count st) then refuse ''open_spot_payout_count_limit'' True
     else if tl_spot_luna tlim < max 0 (ws_amount st) + amount then refuse ''open_spot_payout_amount_limit'' True
     else (permit ''within_open_spot_payout_limits'')\<lparr>sd_review := True\<rparr>)"

definition spot_lifetime_decision :: "throttle_limits \<Rightarrow> window_state \<Rightarrow> int \<Rightarrow> spot_row \<Rightarrow> security_decision" where
  "spot_lifetime_decision tlim st amount s =
    (if max 1 (sp_max_total_claims s) * tl_percent tlim div 100 \<le> max 0 (ws_count st)
     then refuse ''open_spot_lifetime_count_limit'' True
     else if max 0 (sp_total_value s) * tl_percent tlim div 100 < max 0 (ws_amount st) + amount
     then refuse ''open_spot_lifetime_amount_limit'' True
     else (permit ''within_open_spot_lifetime_limits'')\<lparr>sd_review := True\<rparr>)"

section \<open>The reservation ledger\<close>

definition or_time :: "int \<Rightarrow> int \<Rightarrow> int" where
  "or_time value default_time = (if value = 0 then default_time else value)"

definition clean_reservations :: "reservation list \<Rightarrow> reservation list" where
  "clean_reservations raw =
     filter (\<lambda>v. 0 < rv_claim_id v \<and> 0 < rv_amount v \<and> 0 < rv_reserved_at v)
       (map (\<lambda>v. v\<lparr>rv_short_at := or_time (rv_short_at v) (rv_reserved_at v),
          rv_daily_at := or_time (rv_daily_at v) (rv_reserved_at v),
          rv_spot_at := or_time (rv_spot_at v) (rv_reserved_at v)\<rparr>) raw)"

text \<open>Reservations of an older release carry no Spot.\<close>

definition resolve_spot :: "db \<Rightarrow> reservation \<Rightarrow> reservation" where
  "resolve_spot d v =
    (if 0 < rv_spot_id v then v
     else case get_claim (rv_claim_id v) d of None \<Rightarrow> v
        | Some detail \<Rightarrow> v\<lparr>rv_spot_id := cl_spot_id (cd_claim detail)\<rparr>)"

text \<open>Of the reserved claims that exist: the claim has a live payout; it is on an open standard Spot.\<close>

definition reservation_info :: "int \<Rightarrow> db \<Rightarrow> (bool \<times> bool) option" where
  "reservation_info claim_id d = (case find_row cl_id claim_id (db_claims d) of
     None \<Rightarrow> None
   | Some c \<Rightarrow> (case get_spot (cl_spot_id c) d of
       None \<Rightarrow> None
     | Some s \<Rightarrow> Some (has_nonfailed_claim_payout_transaction claim_id d,
                       sp_use_password s = 0 \<and> \<not> is_prizedraw (sp_id s) d)))"

definition keep_reservation :: "throttle_limits \<Rightarrow> int \<Rightarrow> db \<Rightarrow> reservation \<Rightarrow> bool" where
  "keep_reservation tlim now d v =
    (let live = now - tl_window tlim < rv_short_at v \<or> now - tl_daily_window tlim < rv_daily_at v
     in case reservation_info (rv_claim_id v) d of None \<Rightarrow> live
        | Some (materialised, open_standard) \<Rightarrow> \<not> materialised \<and> (open_standard \<or> live))"

definition prune_reservations :: "throttle_limits \<Rightarrow> int \<Rightarrow> db \<Rightarrow> reservation list \<Rightarrow> reservation list" where
  "prune_reservations tlim now d reservations = filter (keep_reservation tlim now d) reservations"

text \<open>What is counted in the window of a length, over payouts and over reservations.\<close>

definition window_of ::
  "int \<Rightarrow> int \<Rightarrow> (reservation \<Rightarrow> int) \<Rightarrow> trans_row list \<Rightarrow> reservation list \<Rightarrow> window_state" where
  "window_of now window_seconds stamp rows reservations =
     combined_window_state now (filter (\<lambda>t. now - window_seconds < tr_created_at t) rows) stamp
       (filter (\<lambda>v. now - window_seconds < stamp v) reservations)"

definition spot_window_of ::
  "throttle_limits \<Rightarrow> int \<Rightarrow> int \<Rightarrow> trans_row list \<Rightarrow> reservation list \<Rightarrow> window_state" where
  "spot_window_of tlim now spot_id rows reservations = window_of now (tl_spot_window tlim) rv_spot_at
     (filter (\<lambda>t. tr_spot_id t = Some spot_id) rows) (filter (\<lambda>v. rv_spot_id v = spot_id) reservations)"

definition released :: "int \<Rightarrow> security_state \<Rightarrow> bool" where
  "released claim_id ss = (case get_claim_security_record claim_id ss of None \<Rightarrow> False
     | Some r \<Rightarrow> (case ev_released_at r of None \<Rightarrow> False | Some t \<Rightarrow> t \<noteq> 0))"

definition hold_claim :: "int \<Rightarrow> string \<Rightarrow> int \<Rightarrow> security_state \<Rightarrow> security_state" where
  "hold_claim claim_id reason now ss = (case get_claim_security_record claim_id ss of None \<Rightarrow> ss
     | Some r \<Rightarrow> set_security_record claim_id (hold_record reason now r) ss)"

section \<open>Reserving a slot\<close>

text \<open>The Spot of a claim if it is an open standard Spot.\<close>

definition open_standard_spot :: "int \<Rightarrow> db \<Rightarrow> spot_row option" where
  "open_standard_spot claim_id d = (case get_claim claim_id d of
     None \<Rightarrow> None
   | Some detail \<Rightarrow>
     if cl_spot_id (cd_claim detail) \<le> 0 then None
     else (case get_spot (cl_spot_id (cd_claim detail)) d of
       None \<Rightarrow> None
     | Some s \<Rightarrow> if sp_use_password s = 0 \<and> \<not> is_prizedraw (cl_spot_id (cd_claim detail)) d then Some s else None))"

definition recheck_reservation ::
  "throttle_limits \<Rightarrow> int \<Rightarrow> int \<Rightarrow> trans_row list \<Rightarrow> reservation list \<Rightarrow> db \<Rightarrow> security_state \<Rightarrow> security_decision" where
  "recheck_reservation tlim claim_id amount rows others d ss =
    (let now = db_now d;
         first = throttle_decision tlim (window_of now (tl_window tlim) rv_short_at rows others) amount
                   (Some (window_of now (tl_daily_window tlim) rv_daily_at rows others))
     in case open_standard_spot claim_id d of
          None \<Rightarrow> first
        | Some s \<Rightarrow> if sd_allow first \<and> \<not> released claim_id ss
                    then spot_window_decision tlim (spot_window_of tlim now (sp_id s) rows others) amount
                    else first)"

text \<open>An expired time is renewed; the first entry of the claim is the one in use.\<close>

definition renew :: "throttle_limits \<Rightarrow> int \<Rightarrow> reservation \<Rightarrow> reservation" where
  "renew tlim now v =
     v\<lparr>rv_short_at := (if now - tl_window tlim < rv_short_at v then rv_short_at v else now),
       rv_daily_at := (if now - tl_daily_window tlim < rv_daily_at v then rv_daily_at v else now),
       rv_spot_at := (if rv_spot_at v \<le> now - tl_spot_window tlim then now else rv_spot_at v)\<rparr>"

primrec update_first :: "('a \<Rightarrow> bool) \<Rightarrow> ('a \<Rightarrow> 'a) \<Rightarrow> 'a list \<Rightarrow> 'a list" where
  "update_first P f [] = []"
| "update_first P f (x # xs) = (if P x then f x # xs else x # update_first P f xs)"

definition fresh_decision ::
  "throttle_limits \<Rightarrow> int \<Rightarrow> int \<Rightarrow> trans_row list \<Rightarrow> reservation list \<Rightarrow> db \<Rightarrow> security_state \<Rightarrow> security_decision" where
  "fresh_decision tlim claim_id amount rows reservations d ss =
    (let now = db_now d;
         first = throttle_decision tlim (window_of now (tl_window tlim) rv_short_at rows reservations) amount
                   (Some (window_of now (tl_daily_window tlim) rv_daily_at rows reservations))
     in case open_standard_spot claim_id d of
          None \<Rightarrow> first
        | Some s \<Rightarrow>
          if sd_allow first \<and> \<not> released claim_id ss
          then let lifetime = spot_lifetime_decision tlim (combined_window_state now
                     (lifetime_spot_payout_rows (sp_id s) d) rv_reserved_at
                     (filter (\<lambda>v. rv_spot_id v = sp_id s) reservations)) amount s
               in if sd_allow lifetime
                  then spot_window_decision tlim (spot_window_of tlim now (sp_id s) rows reservations) amount
                  else lifetime
          else first)"

definition new_reservation :: "int \<Rightarrow> int \<Rightarrow> db \<Rightarrow> reservation" where
  "new_reservation claim_id amount d = \<lparr>rv_claim_id = claim_id, rv_amount = amount, rv_reserved_at = db_now d,
     rv_short_at = db_now d, rv_daily_at = db_now d, rv_spot_at = db_now d,
     rv_spot_id = (case get_claim claim_id d of None \<Rightarrow> 0 | Some detail \<Rightarrow> cl_spot_id (cd_claim detail))\<rparr>"

definition decide_slot ::
  "throttle_limits \<Rightarrow> int \<Rightarrow> int \<Rightarrow> trans_row list \<Rightarrow> reservation list \<Rightarrow> db \<Rightarrow> security_state
     \<Rightarrow> security_decision \<times> reservation list \<times> security_state" where
  "decide_slot tlim claim_id amount rows reservations d ss =
    (let now = db_now d;
         in_windows = filter (\<lambda>t. now - max (tl_window tlim) (tl_daily_window tlim) < tr_created_at t) rows
     in if claim_id \<in> set (paid_claim_ids in_windows)
        then (permit ''claim_payout_already_materialised'', reservations, ss)
        else if list_ex (\<lambda>v. rv_claim_id v = claim_id) reservations
        then let decision = recheck_reservation tlim claim_id amount rows
                   (filter (\<lambda>v. rv_claim_id v \<noteq> claim_id) reservations) d ss
             in if sd_allow decision
                then (decision\<lparr>sd_reason := ''existing_payout_reservation''\<rparr>,
                      update_first (\<lambda>v. rv_claim_id v = claim_id) (renew tlim now) reservations, ss)
                else (decision, reservations,
                      if sd_review decision then hold_claim claim_id (sd_reason decision) now ss else ss)
        else let decision = fresh_decision tlim claim_id amount rows reservations d ss;
                 ss' = (if sd_review decision then hold_claim claim_id (sd_reason decision) now ss else ss)
             in (decision, if sd_allow decision then reservations @ [new_reservation claim_id amount d]
                           else reservations, ss'))"

definition reserve_payout_slot ::
  "throttle_limits \<Rightarrow> int \<Rightarrow> int \<Rightarrow> db \<Rightarrow> security_state \<Rightarrow> (security_decision \<times> security_state) res" where
  "reserve_payout_slot tlim claim_id amount d ss =
    (if claim_id \<le> 0 then Inl (ValueError ''claim_id must be positive'')
     else if amount \<le> 0 then Inl (ValueError ''amount must be positive'')
     else let reservations = prune_reservations tlim (db_now d) d
                (map (resolve_spot d) (clean_reservations (ss_reservations ss)))
          in case decide_slot tlim claim_id amount (recent_payout_rows tlim (db_now d) d) reservations d ss of
               (decision, reservations', ss') \<Rightarrow> Inr (decision, ss'\<lparr>ss_reservations := reservations'\<rparr>))"

section \<open>The guarded payout\<close>

definition reserve_slot :: "throttle_limits \<Rightarrow> int \<Rightarrow> int \<Rightarrow> security_decision act" where
  "reserve_slot tlim claim_id amount w = (case reserve_payout_slot tlim claim_id amount (wd_db w) (wd_security w) of
     Inl e \<Rightarrow> (Inl e, w) | Inr (decision, ss) \<Rightarrow> (Inr decision, w\<lparr>wd_security := ss\<rparr>))"

definition submit_claim_reward_transaction_with_throttle ::
  "services \<Rightarrow> security_limits \<Rightarrow> throttle_limits \<Rightarrow> int \<Rightarrow> int \<Rightarrow> string option \<Rightarrow> send_outcome act" where
  "submit_claim_reward_transaction_with_throttle sv sl tlim claim_id amount to_address =
     bindA (decide_payout (sv_settings sv) sl claim_id) (\<lambda>security.
     if \<not> sd_allow security then submit_claim_reward_transaction_with_security sv sl claim_id amount to_address
     else bindA (reserve_slot tlim claim_id amount) (\<lambda>decision.
     if sd_allow decision then submit_claim_reward_transaction_with_security sv sl claim_id amount to_address
     else returnA (Skipped (sd_reason decision))))"

end
