(* ===== verification/ThrottleProps.thy ===== *)
theory ThrottleProps
  imports Throttle OutboxProps
begin

text \<open>
  What the payout boundary guarantees: a granted slot keeps every limit, a payout
  reaches the signer only for a cleared claim and goes to its verified wallet, and
  a claim of an open Spot is never paid without an operator.
\<close>

section \<open>Adding a reservation to a window\<close>

lemma combined_perm:
  assumes "mset us = mset vs"
  shows "ws_count (combined_window_state now rows stamp us) = ws_count (combined_window_state now rows stamp vs)"
    and "ws_amount (combined_window_state now rows stamp us) = ws_amount (combined_window_state now rows stamp vs)"
proof -
  let ?P = "\<lambda>v. rv_claim_id v \<notin> set (paid_claim_ids rows)"
  have m: "mset (filter ?P us) = mset (filter ?P vs)" using assms by simp
  show "ws_count (combined_window_state now rows stamp us) = ws_count (combined_window_state now rows stamp vs)"
    using mset_eq_length [OF m] by (simp add: combined_window_state_def Let_def)
  have "sum_list (map (\<lambda>v. max 0 (rv_amount v)) (filter ?P us)) = sum_list (map (\<lambda>v. max 0 (rv_amount v)) (filter ?P vs))"
    by (simp only: sum_mset_sum_list [symmetric] mset_map m)
  then show "ws_amount (combined_window_state now rows stamp us) = ws_amount (combined_window_state now rows stamp vs)"
    by (simp add: combined_window_state_def Let_def)
qed

lemma window_of_perm:
  assumes "mset us = mset vs"
  shows "ws_count (window_of now win stamp rows us) = ws_count (window_of now win stamp rows vs)"
    and "ws_amount (window_of now win stamp rows us) = ws_amount (window_of now win stamp rows vs)"
proof -
  have m: "mset (filter (\<lambda>v. now - win < stamp v) us) = mset (filter (\<lambda>v. now - win < stamp v) vs)"
    by (simp only: mset_filter assms)
  show "ws_count (window_of now win stamp rows us) = ws_count (window_of now win stamp rows vs)"
    "ws_amount (window_of now win stamp rows us) = ws_amount (window_of now win stamp rows vs)"
    unfolding window_of_def by (rule combined_perm [OF m])+
qed

lemma update_first_mset:
  assumes "distinct (map rv_claim_id vs)" and "list_ex (\<lambda>v. rv_claim_id v = k) vs"
  obtains v where "v \<in> set vs" "rv_claim_id v = k"
    "mset (update_first (\<lambda>v. rv_claim_id v = k) f vs) = mset (filter (\<lambda>v. rv_claim_id v \<noteq> k) vs @ [f v])"
  using assms
proof (induction vs arbitrary: thesis)
  case (Cons x xs)
  show ?case
  proof (cases "rv_claim_id x = k")
    case True
    then have "filter (\<lambda>v. rv_claim_id v \<noteq> k) xs = xs" using Cons.prems(2) by (auto simp: filter_id_conv image_iff)
    then show ?thesis using Cons.prems(1) [of x] True by simp
  next
    case False
    then obtain v where "v \<in> set xs" "rv_claim_id v = k"
      "mset (update_first (\<lambda>v. rv_claim_id v = k) f xs) = mset (filter (\<lambda>v. rv_claim_id v \<noteq> k) xs @ [f v])"
      using Cons.IH Cons.prems by auto
    then show ?thesis using Cons.prems(1) [of v] False by simp
  qed
qed simp

lemma window_counts_nonneg [simp]:
  "0 \<le> ws_count (combined_window_state now rows stamp vs)" "0 \<le> ws_amount (combined_window_state now rows stamp vs)"
  by (auto simp: combined_window_state_def Let_def intro!: add_nonneg_nonneg sum_list_nonneg)

lemma sum_le_max: "\<not> c < max 0 a + max 0 b \<Longrightarrow> a + b \<le> (c::int)"
  using max.cobounded2 [of a 0] max.cobounded2 [of b 0] by linarith

lemma sum_le_max1: "\<not> c < max 0 a + b \<Longrightarrow> a + b \<le> (c::int)"
  using max.cobounded2 [of a 0] by linarith

lemma throttle_allows:
  assumes a: "sd_allow (throttle_decision tlim st amount (Some day))"
  shows "amount \<le> tl_single_luna tlim" "ws_count st < tl_max_count tlim" "ws_amount st + amount \<le> tl_max_luna tlim"
    "ws_count day < tl_daily_count tlim" "ws_amount day + amount \<le> tl_daily_luna tlim"
    "throttle_decision tlim st amount (Some day) = permit ''within_global_payout_limits''"
proof -
  have n: "\<not> tl_single_luna tlim < max 0 amount" "\<not> tl_daily_count tlim \<le> max 0 (ws_count day)"
    "\<not> tl_daily_luna tlim < max 0 (ws_amount day) + max 0 amount" "\<not> tl_max_count tlim \<le> max 0 (ws_count st)"
    "\<not> tl_max_luna tlim < max 0 (ws_amount st) + max 0 amount"
    using a by (simp_all add: throttle_decision_def Let_def refuse_def defer_until_def split: if_split_asm)
  show "amount \<le> tl_single_luna tlim" "ws_count st < tl_max_count tlim" "ws_count day < tl_daily_count tlim" using n(1,2,4) by simp_all
  show "ws_amount st + amount \<le> tl_max_luna tlim" "ws_amount day + amount \<le> tl_daily_luna tlim"
    using sum_le_max n(3,5) by blast+
  show "throttle_decision tlim st amount (Some day) = permit ''within_global_payout_limits''"
    unfolding throttle_decision_def Let_def using n by simp
qed

lemma spot_window_allows:
  assumes a: "sd_allow (spot_window_decision tlim st amount)"
  shows "ws_count st < tl_spot_count tlim" "ws_amount st + amount \<le> tl_spot_luna tlim"
    "spot_window_decision tlim st amount = (permit ''within_open_spot_payout_limits'')\<lparr>sd_review := True\<rparr>"
proof -
  have n: "\<not> tl_spot_count tlim \<le> max 0 (ws_count st)" "\<not> tl_spot_luna tlim < max 0 (ws_amount st) + amount"
    using a by (simp_all add: spot_window_decision_def refuse_def split: if_split_asm)
  show "ws_count st < tl_spot_count tlim" using n(1) by simp
  show "ws_amount st + amount \<le> tl_spot_luna tlim" using sum_le_max1 n(2) by blast
  show "spot_window_decision tlim st amount = (permit ''within_open_spot_payout_limits'')\<lparr>sd_review := True\<rparr>"
    unfolding spot_window_decision_def using n by simp
qed

lemma lifetime_allows:
  assumes a: "sd_allow (spot_lifetime_decision tlim st amount s)"
  shows "ws_count st < max 1 (sp_max_total_claims s) * tl_percent tlim div 100"
    "ws_amount st + amount \<le> max 0 (sp_total_value s) * tl_percent tlim div 100"
proof -
  have n: "\<not> max 1 (sp_max_total_claims s) * tl_percent tlim div 100 \<le> max 0 (ws_count st)"
    "\<not> max 0 (sp_total_value s) * tl_percent tlim div 100 < max 0 (ws_amount st) + amount"
    using a by (simp_all add: spot_lifetime_decision_def refuse_def split: if_split_asm)
  show "ws_count st < max 1 (sp_max_total_claims s) * tl_percent tlim div 100" using n(1) by linarith
  show "ws_amount st + amount \<le> max 0 (sp_total_value s) * tl_percent tlim div 100" using sum_le_max1 n(2) by blast
qed


section \<open>What is reserved stays within the limits\<close>

definition tidy_reservations :: "throttle_limits \<Rightarrow> db \<Rightarrow> security_state \<Rightarrow> reservation list" where
  "tidy_reservations tlim d ss = prune_reservations tlim (db_now d) d (map (resolve_spot d) (clean_reservations (ss_reservations ss)))"

definition short_window :: "throttle_limits \<Rightarrow> db \<Rightarrow> reservation list \<Rightarrow> window_state" where
  "short_window tlim d vs = window_of (db_now d) (tl_window tlim) rv_short_at (recent_payout_rows tlim (db_now d) d) vs"

definition daily_window :: "throttle_limits \<Rightarrow> db \<Rightarrow> reservation list \<Rightarrow> window_state" where
  "daily_window tlim d vs = window_of (db_now d) (tl_daily_window tlim) rv_daily_at (recent_payout_rows tlim (db_now d) d) vs"

definition spot_window :: "throttle_limits \<Rightarrow> db \<Rightarrow> int \<Rightarrow> reservation list \<Rightarrow> window_state" where
  "spot_window tlim d sp vs = spot_window_of tlim (db_now d) sp (recent_payout_rows tlim (db_now d) d) vs"

definition paid_recently :: "throttle_limits \<Rightarrow> db \<Rightarrow> int \<Rightarrow> bool" where
  "paid_recently tlim d k \<longleftrightarrow> k \<in> set (paid_claim_ids (filter (\<lambda>t. db_now d - max (tl_window tlim) (tl_daily_window tlim)
     < tr_created_at t) (recent_payout_rows tlim (db_now d) d)))"

lemma reserve_cases:
  assumes "reserve_payout_slot tlim k amount d ss = Inr (decision, ss')"
  obtains vs' ss1 where "0 < k" "0 < amount" "ss' = ss1\<lparr>ss_reservations := vs'\<rparr>"
    "decide_slot tlim k amount (recent_payout_rows tlim (db_now d) d) (tidy_reservations tlim d ss) d ss = (decision, vs', ss1)"
  using assms
  by (auto simp: reserve_payout_slot_def Let_def tidy_reservations_def split: if_split_asm prod.split_asm)

lemma tidy_distinct:
  assumes "distinct (map rv_claim_id (ss_reservations ss))"
  shows "distinct (map rv_claim_id (tidy_reservations tlim d ss))"
proof -
  have r: "map rv_claim_id (map (resolve_spot d) vs) = map rv_claim_id vs" for vs
    by (simp add: resolve_spot_def split: option.splits)
  have c: "distinct (map rv_claim_id (clean_reservations vs))" if "distinct (map rv_claim_id vs)" for vs
    using that unfolding clean_reservations_def by (intro distinct_map_filter) (simp add: comp_def)
  show ?thesis
    unfolding tidy_reservations_def prune_reservations_def
    using c [OF assms] r by (intro distinct_map_filter) (simp only: )
qed

lemma window_one_more:
  assumes "mset vs' = mset (others @ [v])"
  shows "ws_count (window_of now win stamp rows vs') \<le> ws_count (window_of now win stamp rows others) + 1"
    and "rv_amount v \<le> a \<Longrightarrow> 0 < a \<Longrightarrow>
      ws_amount (window_of now win stamp rows vs') \<le> ws_amount (window_of now win stamp rows others) + a"
proof -
  have one: "ws_count (window_of now win stamp rows (others @ [v])) \<le> ws_count (window_of now win stamp rows others) + 1
    \<and> ws_amount (window_of now win stamp rows (others @ [v])) \<le> ws_amount (window_of now win stamp rows others) + max 0 (rv_amount v)"
    by (simp add: window_of_def combined_window_state_def Let_def)
  then show "ws_count (window_of now win stamp rows vs') \<le> ws_count (window_of now win stamp rows others) + 1"
    unfolding window_of_perm(1) [OF assms] by simp
  assume "rv_amount v \<le> a" "0 < a"
  then have "max 0 (rv_amount v) \<le> a" by simp
  then show "ws_amount (window_of now win stamp rows vs') \<le> ws_amount (window_of now win stamp rows others) + a"
    unfolding window_of_perm(2) [OF assms] using one by linarith
qed

text \<open>The cases of an allowed slot.\<close>

lemma slot_cases:
  assumes res: "reserve_payout_slot tlim k amount d ss = Inr (decision, ss')" and allow: "sd_allow decision"
    and fresh: "\<not> paid_recently tlim d k" and dist: "distinct (map rv_claim_id (ss_reservations ss))"
  obtains others v where "others = filter (\<lambda>v. rv_claim_id v \<noteq> k) (tidy_reservations tlim d ss)"
    "mset (ss_reservations ss') = mset (others @ [v])" "rv_claim_id v = k"
    "sd_allow (throttle_decision tlim (short_window tlim d others) amount (Some (daily_window tlim d others)))"
    "\<And>s. open_standard_spot k d = Some s \<Longrightarrow> \<not> released k ss \<Longrightarrow>
       sd_allow (spot_window_decision tlim (spot_window tlim d (sp_id s) others) amount)"
proof -
  let ?vs = "tidy_reservations tlim d ss" and ?rows = "recent_payout_rows tlim (db_now d) d"
  let ?others = "filter (\<lambda>v. rv_claim_id v \<noteq> k) ?vs"
  obtain vs' ss1 where k: "0 < k" "0 < amount" and ss': "ss' = ss1\<lparr>ss_reservations := vs'\<rparr>"
    and dec: "decide_slot tlim k amount ?rows ?vs d ss = (decision, vs', ss1)"
    using reserve_cases [OF res] by metis
  note dec' = dec [unfolded decide_slot_def Let_def, folded paid_recently_def]
  show ?thesis
  proof (cases "list_ex (\<lambda>v. rv_claim_id v = k) ?vs")
    case True
    have re: "sd_allow (recheck_reservation tlim k amount ?rows ?others d ss)"
      and vs': "vs' = update_first (\<lambda>v. rv_claim_id v = k) (renew tlim (db_now d)) ?vs"
      using dec' True allow fresh by (auto split: if_split_asm)
    obtain v where v: "v \<in> set ?vs" "rv_claim_id v = k" "mset vs' = mset (?others @ [renew tlim (db_now d) v])"
      by (rule update_first_mset [OF tidy_distinct [OF dist, of tlim d] True, where f = "renew tlim (db_now d)"])
        (use vs' in simp)
    show ?thesis
    proof (rule that [of ?others "renew tlim (db_now d) v"])
      show "mset (ss_reservations ss') = mset (?others @ [renew tlim (db_now d) v])" using v(3) ss' by simp
      show "sd_allow (throttle_decision tlim (short_window tlim d ?others) amount (Some (daily_window tlim d ?others)))"
        using re unfolding recheck_reservation_def Let_def short_window_def daily_window_def
        by (auto split: option.split_asm if_split_asm)
      show "sd_allow (spot_window_decision tlim (spot_window tlim d (sp_id s) ?others) amount)"
        if "open_standard_spot k d = Some s" "\<not> released k ss" for s
        using re that unfolding recheck_reservation_def Let_def spot_window_def
        by (auto split: if_split_asm)
    qed (use v in \<open>auto simp: renew_def\<close>)
  next
    case False
    have re: "sd_allow (fresh_decision tlim k amount ?rows ?vs d ss)" and vs': "vs' = ?vs @ [new_reservation k amount d]"
      using dec' False allow fresh by (auto split: if_split_asm)
    have o: "?others = ?vs" using False by (simp add: list_ex_iff filter_id_conv)
    show ?thesis
    proof (rule that [of ?others "new_reservation k amount d"])
      show "mset (ss_reservations ss') = mset (?others @ [new_reservation k amount d])" using vs' ss' o by simp
      show "sd_allow (throttle_decision tlim (short_window tlim d ?others) amount (Some (daily_window tlim d ?others)))"
        using re unfolding fresh_decision_def Let_def short_window_def daily_window_def o
        by (auto split: option.split_asm if_split_asm)
      show "sd_allow (spot_window_decision tlim (spot_window tlim d (sp_id s) ?others) amount)"
        if "open_standard_spot k d = Some s" "\<not> released k ss" for s
        using re that unfolding fresh_decision_def Let_def spot_window_def o
        by (auto split: if_split_asm)
    qed (auto simp: new_reservation_def)
  qed
qed


text \<open>
  C27: A granted payout slot keeps every limit, whatever was reserved and paid
  before and however the reservations of other claims interleave: no single
  payout above the automatic maximum, and with the new reservation the number of
  payouts of the rolling window, of the day and, for a claim of an open Spot
  that no operator released, of the Spot's window stay within their limits; so do
  the amounts when the claim's earlier reservation was not for more than is asked
  now. A claim never holds two reservations.
\<close>

theorem reservations_within_limits:
  assumes res: "reserve_payout_slot tlim k amount d ss = Inr (decision, ss')" and allow: "sd_allow decision"
    and fresh: "\<not> paid_recently tlim d k" and dist: "distinct (map rv_claim_id (ss_reservations ss))"
  shows "distinct (map rv_claim_id (ss_reservations ss')) \<and> amount \<le> tl_single_luna tlim
    \<and> (\<exists>v\<in>set (ss_reservations ss'). rv_claim_id v = k)
    \<and> ws_count (short_window tlim d (ss_reservations ss')) \<le> tl_max_count tlim
    \<and> ws_count (daily_window tlim d (ss_reservations ss')) \<le> tl_daily_count tlim
    \<and> (\<forall>s. open_standard_spot k d = Some s \<and> \<not> released k ss
         \<longrightarrow> ws_count (spot_window tlim d (sp_id s) (ss_reservations ss')) \<le> tl_spot_count tlim)
    \<and> ((\<forall>v\<in>set (ss_reservations ss'). rv_claim_id v = k \<longrightarrow> rv_amount v \<le> amount)
        \<longrightarrow> ws_amount (short_window tlim d (ss_reservations ss')) \<le> tl_max_luna tlim
          \<and> ws_amount (daily_window tlim d (ss_reservations ss')) \<le> tl_daily_luna tlim
          \<and> (\<forall>s. open_standard_spot k d = Some s \<and> \<not> released k ss
               \<longrightarrow> ws_amount (spot_window tlim d (sp_id s) (ss_reservations ss')) \<le> tl_spot_luna tlim))"
proof -
  let ?vs' = "ss_reservations ss'"
  obtain others v where o: "others = filter (\<lambda>v. rv_claim_id v \<noteq> k) (tidy_reservations tlim d ss)"
    and m: "mset ?vs' = mset (others @ [v])" and v: "rv_claim_id v = k"
    and throttle: "sd_allow (throttle_decision tlim (short_window tlim d others) amount (Some (daily_window tlim d others)))"
    and spot: "\<And>s. open_standard_spot k d = Some s \<Longrightarrow> \<not> released k ss \<Longrightarrow>
       sd_allow (spot_window_decision tlim (spot_window tlim d (sp_id s) others) amount)"
    by (rule slot_cases [OF assms]) blast
  have pos: "0 < amount" using reserve_cases [OF res] by metis
  have member: "v \<in> set ?vs'" using mset_eq_setD [OF m] by simp
  have "distinct (map rv_claim_id (others @ [v]))"
    unfolding o using tidy_distinct [OF dist, of tlim d] v by (auto simp: distinct_map_filter)
  moreover have "mset (map rv_claim_id ?vs') = mset (map rv_claim_id (others @ [v]))" by (simp only: mset_map m)
  ultimately have dist': "distinct (map rv_claim_id ?vs')" by (metis mset_eq_imp_distinct_iff)
  have msp: "mset (filter (\<lambda>v. rv_spot_id v = sp) ?vs') = mset (filter (\<lambda>v. rv_spot_id v = sp) others)
      \<or> mset (filter (\<lambda>v. rv_spot_id v = sp) ?vs') = mset (filter (\<lambda>v. rv_spot_id v = sp) others @ [v])" for sp
    unfolding mset_filter m by simp
  note T = throttle_allows [OF throttle]
  have spot_count: "ws_count (spot_window tlim d sp ?vs') \<le> ws_count (spot_window tlim d sp others) + 1" for sp
    using msp [of sp] window_of_perm(1) window_one_more(1) unfolding spot_window_def spot_window_of_def
    by (metis (no_types, lifting) le_add_same_cancel1 zero_le_one)
  have spot_amount: "ws_amount (spot_window tlim d sp ?vs') \<le> ws_amount (spot_window tlim d sp others) + amount"
    if "rv_amount v \<le> amount" for sp
    using msp [of sp] window_of_perm(2) window_one_more(2) [OF _ that pos] pos unfolding spot_window_def spot_window_of_def
    by (metis (no_types, lifting) le_add_same_cancel1 less_imp_le)
  show ?thesis
  proof (intro conjI impI allI dist' T(1))
    show "\<exists>v\<in>set ?vs'. rv_claim_id v = k" using member v by blast
    show "ws_count (short_window tlim d ?vs') \<le> tl_max_count tlim"
      using window_one_more(1) [OF m, of "db_now d" "tl_window tlim" rv_short_at "recent_payout_rows tlim (db_now d) d"] T(2)
      unfolding short_window_def by linarith
    show "ws_count (daily_window tlim d ?vs') \<le> tl_daily_count tlim"
      using window_one_more(1) [OF m, of "db_now d" "tl_daily_window tlim" rv_daily_at "recent_payout_rows tlim (db_now d) d"] T(4)
      unfolding daily_window_def by linarith
    show "ws_count (spot_window tlim d (sp_id s) ?vs') \<le> tl_spot_count tlim"
      if "open_standard_spot k d = Some s \<and> \<not> released k ss" for s
      using spot_window_allows(1) [OF spot] that spot_count [of "sp_id s"] by fastforce
  next
    assume same: "\<forall>v\<in>set ?vs'. rv_claim_id v = k \<longrightarrow> rv_amount v \<le> amount"
    then have va: "rv_amount v \<le> amount" using member v by blast
    show "ws_amount (short_window tlim d ?vs') \<le> tl_max_luna tlim"
      using window_one_more(2) [OF m va pos, of "db_now d" "tl_window tlim" rv_short_at "recent_payout_rows tlim (db_now d) d"] T(3)
      unfolding short_window_def by linarith
    show "ws_amount (daily_window tlim d ?vs') \<le> tl_daily_luna tlim"
      using window_one_more(2) [OF m va pos, of "db_now d" "tl_daily_window tlim" rv_daily_at "recent_payout_rows tlim (db_now d) d"] T(5)
      unfolding daily_window_def by linarith
    show "ws_amount (spot_window tlim d (sp_id s) ?vs') \<le> tl_spot_luna tlim"
      if "open_standard_spot k d = Some s \<and> \<not> released k ss" for s
      using spot_window_allows(2) [OF spot] that spot_amount [OF va, of "sp_id s"] by fastforce
  qed
qed


section \<open>What a held claim does to the world\<close>

definition on_hold :: "int \<Rightarrow> world \<Rightarrow> bool" where
  "on_hold k w \<longleftrightarrow> (case get_claim_security_record k (wd_security w) of None \<Rightarrow> False | Some r \<Rightarrow> ev_manual_review r)"

lemma get_set_record [simp]:
  "get_claim_security_record k (set_security_record j r ss) = (if k = j then Some r else get_claim_security_record k ss)"
  by (simp add: get_claim_security_record_def set_security_record_def)

lemma record_reservations [simp]:
  "get_claim_security_record k (ss\<lparr>ss_reservations := vs\<rparr>) = get_claim_security_record k ss"
  by (simp add: get_claim_security_record_def)

lemma held_decision:
  assumes "on_hold k w"
  shows "\<exists>d. \<not> sd_allow d \<and> decide_payout c sl k w = (Inr d, w)"
proof -
  obtain r where r: "get_claim_security_record k (wd_security w) = Some r" "ev_manual_review r"
    using assms by (auto simp: on_hold_def split: option.split_asm)
  then have "payout_security_decision c sl k (wd_db w) (wd_security w)
      = (refuse ''claim_missing'' False, wd_security w)
    \<or> (\<exists>reason. payout_security_decision c sl k (wd_db w) (wd_security w) = (refuse reason True, wd_security w))"
    by (auto simp: payout_security_decision_def check_record_def Let_def split: option.split)
  then show ?thesis by (auto simp: decide_payout_def refuse_def)
qed

lemma security_holds:
  assumes "on_hold k w"
  shows "\<exists>reason. submit_claim_reward_transaction_with_security sv sl k a t w = (Inr (Skipped reason), w)"
proof -
  obtain d where "\<not> sd_allow d" "decide_payout (sv_settings sv) sl k w = (Inr d, w)" using held_decision [OF assms] by blast
  then show ?thesis by (simp add: submit_claim_reward_transaction_with_security_def bindA_def returnA_def)
qed

lemma throttle_holds:
  assumes "on_hold k w"
  shows "\<exists>reason. submit_claim_reward_transaction_with_throttle sv sl tlim k a t w = (Inr (Skipped reason), w)"
proof -
  obtain d where "\<not> sd_allow d" "decide_payout (sv_settings sv) sl k w = (Inr d, w)" using held_decision [OF assms] by blast
  then show ?thesis using security_holds [OF assms, of sv sl a t]
    by (simp add: submit_claim_reward_transaction_with_throttle_def bindA_def)
qed


lemma decide_payout_effect:
  assumes "decide_payout c sl k w = (res, w')"
  obtains d ss where "res = Inr d" "w' = w\<lparr>wd_security := ss\<rparr>"
    "ss_reservations ss = ss_reservations (wd_security w)"
    "sd_allow d \<Longrightarrow> w' = w"
    "\<not> sd_allow d \<Longrightarrow> \<exists>d2. \<not> sd_allow d2 \<and> decide_payout c sl k w' = (Inr d2, w')"
proof (cases "get_claim k (wd_db w)")
  case None
  then show ?thesis
    using assms that [of "refuse ''claim_missing'' False" "wd_security w"]
    by (auto simp: decide_payout_def payout_security_decision_def refuse_def)
next
  case (Some detail)
  note c = Some
  show ?thesis
  proof (cases "get_claim_security_record k (wd_security w)")
    case None
    then show ?thesis
      using assms c that [of "fst (payout_security_decision c sl k (wd_db w) (wd_security w))" "wd_security w"]
      by (auto simp: decide_payout_def payout_security_decision_def split: if_split_asm)
  next
    case (Some r)
    let ?p = "check_record sl (cd_claim detail) r (db_now (wd_db w))"
    have allow: "snd ?p = r" if "sd_allow (fst ?p)"
      using that by (auto simp: check_record_def Let_def refuse_def split: if_split_asm)
    have held: "ev_manual_review (snd ?p)" if "snd ?p \<noteq> r"
      using that by (auto simp: check_record_def Let_def hold_record_def split: if_split_asm)
    let ?ss = "if snd ?p = r then wd_security w else set_security_record k (snd ?p) (wd_security w)"
    have res: "res = Inr (fst ?p)" "w' = w\<lparr>wd_security := ?ss\<rparr>"
      using assms c Some by (auto simp: decide_payout_def payout_security_decision_def split: prod.split_asm)
    show ?thesis
    proof (rule that [OF res])
      show "ss_reservations ?ss = ss_reservations (wd_security w)" by (simp add: set_security_record_def)
      show "w' = w" if "sd_allow (fst ?p)" using allow [OF that] res by simp
      show "\<exists>d2. \<not> sd_allow d2 \<and> decide_payout c sl k w' = (Inr d2, w')" if no: "\<not> sd_allow (fst ?p)"
      proof (cases "snd ?p = r")
        case True
        then have "w' = w" using res by simp
        then show ?thesis using assms res no by auto
      next
        case False
        then have "on_hold k w'" using res held by (simp add: on_hold_def)
        then show ?thesis using held_decision by blast
      qed
    qed
  qed
qed

lemma tidy_ids: "rv_claim_id ` set (tidy_reservations tlim d ss) \<subseteq> rv_claim_id ` set (ss_reservations ss)"
  by (auto simp: tidy_reservations_def prune_reservations_def clean_reservations_def resolve_spot_def split: option.split)

text \<open>The first slot of an unreleased claim of an open Spot.\<close>

lemma first_open_slot:
  assumes res: "reserve_payout_slot tlim k a d ss = Inr (decision, ss')" and spot: "open_standard_spot k d = Some s"
    and rec: "get_claim_security_record k ss = Some r" "\<not> released k ss"
    and none: "k \<notin> rv_claim_id ` set (ss_reservations ss)" and fresh: "\<not> paid_recently tlim d k"
  shows "if sd_allow decision
    then get_claim_security_record k ss' = Some (hold_record ''within_open_spot_payout_limits'' (db_now d) r)
    else k \<notin> rv_claim_id ` set (ss_reservations ss')"
proof -
  let ?vs = "tidy_reservations tlim d ss" and ?rows = "recent_payout_rows tlim (db_now d) d"
  have no: "k \<notin> rv_claim_id ` set ?vs" using tidy_ids [of tlim d ss] none by blast
  then have no': "\<not> list_ex (\<lambda>v. rv_claim_id v = k) ?vs" by (auto simp: list_ex_iff)
  obtain vs' ss1 where ss': "ss' = ss1\<lparr>ss_reservations := vs'\<rparr>" and dec: "decide_slot tlim k a ?rows ?vs d ss = (decision, vs', ss1)"
    using reserve_cases [OF res] by metis
  have f: "decision = fresh_decision tlim k a ?rows ?vs d ss"
    and vs': "vs' = (if sd_allow decision then ?vs @ [new_reservation k a d] else ?vs)"
    and ss1: "ss1 = (if sd_review decision then hold_claim k (sd_reason decision) (db_now d) ss else ss)"
    using dec [unfolded decide_slot_def Let_def, folded paid_recently_def] no' fresh by auto
  show ?thesis
  proof (cases "sd_allow decision")
    case True
    have "decision = (permit ''within_open_spot_payout_limits'')\<lparr>sd_review := True\<rparr>"
      using True f spot rec(2) spot_window_allows(3)
      by (auto simp: fresh_decision_def Let_def split: if_split_asm)
    then have "ss1 = set_security_record k (hold_record ''within_open_spot_payout_limits'' (db_now d) r) ss"
      using ss1 rec(1) by (simp add: hold_claim_def permit_def)
    then show ?thesis using True ss' by simp
  next
    case False
    then show ?thesis using vs' ss' no by simp
  qed
qed

text \<open>
  C28: The automatic payout of an open Spot never happens by itself. For a claim
  with a security record that no operator released and no reservation yet, the
  guarded payout sends nothing and leaves the ledger as it is, whatever the limits
  and amounts: a decision that allows the payout carries the manual-review flag
  too, so granting the slot puts the claim on hold with the reason
  \<^verbatim>\<open>within_open_spot_payout_limits\<close>, the inner boundary then refuses it, and while
  that record stands every later attempt leaves the world unchanged.
\<close>

theorem open_spot_payout_held:
  assumes run: "submit_claim_reward_transaction_with_throttle sv sl tlim k a t w = (res, w')"
    and spot: "open_standard_spot k (wd_db w) = Some s"
    and rec: "get_claim_security_record k (wd_security w) = Some r" "\<not> released k (wd_security w)"
    and none: "k \<notin> rv_claim_id ` set (ss_reservations (wd_security w))"
    and fresh: "\<not> paid_recently tlim (wd_db w) k"
  shows "wd_sent w' = wd_sent w \<and> wd_db w' = wd_db w
    \<and> (k \<in> rv_claim_id ` set (ss_reservations (wd_security w')) \<longrightarrow>
        get_claim_security_record k (wd_security w') = Some (hold_record ''within_open_spot_payout_limits'' (db_now (wd_db w)) r)
        \<and> (\<forall>sv2 sl2 tlim2 a2 t2 w2.
             get_claim_security_record k (wd_security w2) = get_claim_security_record k (wd_security w') \<longrightarrow>
             (\<exists>reason. submit_claim_reward_transaction_with_throttle sv2 sl2 tlim2 k a2 t2 w2 = (Inr (Skipped reason), w2))))"
proof -
  obtain res0 w0 where dp: "decide_payout (sv_settings sv) sl k w = (res0, w0)" by fastforce
  obtain d0 ss0 where d0: "res0 = Inr d0" "w0 = w\<lparr>wd_security := ss0\<rparr>" "ss_reservations ss0 = ss_reservations (wd_security w)"
    and allow: "sd_allow d0 \<Longrightarrow> w0 = w"
    and again: "\<not> sd_allow d0 \<Longrightarrow> \<exists>d2. \<not> sd_allow d2 \<and> decide_payout (sv_settings sv) sl k w0 = (Inr d2, w0)"
    by (rule decide_payout_effect [OF dp]) blast
  note run' = run [unfolded submit_claim_reward_transaction_with_throttle_def bindA_def dp d0(1)]
  consider (no) "\<not> sd_allow d0" | (error) "sd_allow d0" "w' = w"
    | (slot) decision ss' where "sd_allow d0" "reserve_payout_slot tlim k a (wd_db w) (wd_security w) = Inr (decision, ss')"
    using run' allow by (cases "sd_allow d0") (auto simp: reserve_slot_def split: sum.split_asm prod.split_asm if_split_asm)
  then show ?thesis
  proof cases
    case no
    obtain d2 where "\<not> sd_allow d2" "decide_payout (sv_settings sv) sl k w0 = (Inr d2, w0)" using again [OF no] by blast
    then have "w' = w0"
      using run' no by (simp add: submit_claim_reward_transaction_with_security_def bindA_def returnA_def)
    then show ?thesis using d0 none by simp
  next
    case error
    then show ?thesis using none by simp
  next
    case slot
    note first = first_open_slot [OF slot(2) spot rec none fresh]
    let ?w1 = "w\<lparr>wd_security := ss'\<rparr>"
    have run1: "(if sd_allow decision then submit_claim_reward_transaction_with_security sv sl k a t ?w1
        else (Inr (Skipped (sd_reason decision)), ?w1)) = (res, w')"
      using run' slot allow by (simp add: reserve_slot_def returnA_def split: if_split_asm)
    show ?thesis
    proof (cases "sd_allow decision")
      case True
      then have held: "get_claim_security_record k ss' = Some (hold_record ''within_open_spot_payout_limits'' (db_now (wd_db w)) r)"
        using first by simp
      then have "on_hold k ?w1" by (simp add: on_hold_def hold_record_def)
      from security_holds [OF this, of sv sl a t] have w': "w' = ?w1" using run1 True by auto
      have "on_hold k w2" if "get_claim_security_record k (wd_security w2) = get_claim_security_record k (wd_security w')" for w2
        using that held w' by (simp add: on_hold_def hold_record_def)
      then show ?thesis using w' held throttle_holds by auto
    next
      case False
      then show ?thesis using run1 first by auto
    qed
  qed
qed


section \<open>What a payout has passed\<close>

lemma reward_request:
  assumes run: "submit_claim_reward_transaction sv k a t w = (res, w')" and ok: "db_ok (wd_db w)"
    and prod: "\<not> allow_dev_sends (sv_settings sv)" and new: "wd_sent w' \<noteq> wd_sent w"
  obtains i rq detail ct where "wd_sent w' = wd_sent w @ [(i, rq)]" "rq_amount rq = a"
    "get_claim k (wd_db w) = Some detail" "claim_reward_address (sv_settings sv) (cd_claim detail) = Inr ct"
    "validate_nimiq_address (sv_settings sv) ct = Inr (rq_to rq)"
  using run
proof (cases rule: reward_cases)
  case quiet
  then show ?thesis using new by simp
next
  case (send detail s ct memo r0)
  then show ?thesis using payout_intent.recorded_send_row [OF send(5) ok prod new] that by blast
qed

lemma own_address:
  assumes "claim_reward_address c cl = Inr ct" and "\<not> allow_placeholders c" "\<not> allow_dev_sends c"
    and "canonical_optional (cl_payout_address cl) = Some wallet"
  shows "ct = wallet" and "validate_nimiq_address c ct = Inr wallet"
proof -
  obtain own where own: "cl_payout_address cl = Some own" "py_strip own \<noteq> []" "normalise_nimiq_address False (py_strip own) = Inr wallet"
    using assms(4) by (auto simp: canonical_optional_def canonical_payout_address_def Let_def split: option.split_asm if_split_asm sum.split_asm)
  then show ct: "ct = wallet" using assms(1-3) by (simp add: claim_reward_address_def Let_def)
  show "validate_nimiq_address c ct = Inr wallet"
    using normalise_idem [OF own(3)] assms(3) by (simp add: validate_nimiq_address_def ct)
qed

definition cleared_record :: "security_limits \<Rightarrow> claim_row \<Rightarrow> claim_event \<Rightarrow> int \<Rightarrow> string \<Rightarrow> bool" where
  "cleared_record sl c r now wallet \<longleftrightarrow> \<not> ev_manual_review r
     \<and> canonical_payout_address (ev_wallet r) = Some wallet \<and> canonical_optional (cl_payout_address c) = Some wallet
     \<and> (canonical_optional (ev_payout r) = None \<or> canonical_optional (ev_payout r) = Some wallet)
     \<and> (if cl_claimed_at c = 0 then now else cl_claimed_at c) + sl_payout_hold sl \<le> now"

lemma permitted:
  assumes "decide_payout c sl k w = (Inr dec, w1)" "sd_allow dec" "public_deployment c"
  obtains detail r wallet where "w1 = w" "get_claim k (wd_db w) = Some detail"
    "get_claim_security_record k (wd_security w) = Some r"
    "cleared_record sl (cd_claim detail) r (db_now (wd_db w)) wallet"
proof -
  obtain detail where d: "get_claim k (wd_db w) = Some detail"
    using assms by (cases "get_claim k (wd_db w)") (auto simp: decide_payout_def payout_security_decision_def refuse_def)
  obtain r where r: "get_claim_security_record k (wd_security w) = Some r"
    using assms d by (cases "get_claim_security_record k (wd_security w)")
      (auto simp: decide_payout_def payout_security_decision_def refuse_def)
  have p: "dec = fst (check_record sl (cd_claim detail) r (db_now (wd_db w)))"
    using assms(1) d r by (auto simp: decide_payout_def payout_security_decision_def split: prod.split_asm)
  have w1: "w1 = w" using decide_payout_effect [OF assms(1)] assms(2) by (metis sum.inject(2))
  have "\<exists>wallet. cleared_record sl (cd_claim detail) r (db_now (wd_db w)) wallet"
    using assms(2) unfolding p
    by (auto simp: check_record_def cleared_record_def Let_def refuse_def permit_def not_less split: if_split_asm)
  then show ?thesis using that w1 d r by blast
qed

text \<open>
  C26: On a public deployment a claim payout reaches the signer only when the claim
  has a security record that is not under review, the claim's payout address is
  the wallet that record verified, the observation period since the claim is over
  and the throttle granted a slot for it; and then exactly one request is made,
  for the asked amount, to that verified wallet.
\<close>

theorem guarded_payout_checked:
  assumes run: "submit_claim_reward_transaction_with_throttle sv sl tlim k a t w = (res, w')"
    and ok: "outbox_ok w" and public: "public_deployment (sv_settings sv)"
      "\<not> allow_placeholders (sv_settings sv)" "\<not> allow_dev_sends (sv_settings sv)"
    and new: "wd_sent w' \<noteq> wd_sent w"
  shows "\<exists>i rq detail r. wd_sent w' = wd_sent w @ [(i, rq)] \<and> rq_amount rq = a
    \<and> get_claim k (wd_db w) = Some detail \<and> get_claim_security_record k (wd_security w) = Some r
    \<and> cleared_record sl (cd_claim detail) r (db_now (wd_db w)) (rq_to rq)
    \<and> (\<exists>decision ss. reserve_payout_slot tlim k a (wd_db w) (wd_security w) = Inr (decision, ss) \<and> sd_allow decision)"
proof -
  let ?c = "sv_settings sv"
  have gate: "\<exists>dec. sd_allow dec \<and> decide_payout ?c sl k v = (Inr dec, v) \<and> submit_claim_reward_transaction sv k a t v = (q, v')"
    if g: "submit_claim_reward_transaction_with_security sv sl k a t v = (q, v')" and n: "wd_sent v' \<noteq> wd_sent v" for v q v'
  proof -
    obtain res0 v0 where dp: "decide_payout ?c sl k v = (res0, v0)" by fastforce
    then show ?thesis
    proof (cases rule: decide_payout_effect)
      case (1 d ss)
      note g' = g [unfolded submit_claim_reward_transaction_with_security_def bindA_def dp 1(1)]
      have "sd_allow d"
      proof (rule ccontr)
        assume "\<not> sd_allow d"
        then have "v' = v0" using g' by (simp add: returnA_def)
        then show False using n 1(2) by simp
      qed
      then show ?thesis using g' dp 1 by auto
    qed
  qed
  obtain res0 w0 where dp: "decide_payout ?c sl k w = (res0, w0)" by fastforce
  then show ?thesis
  proof (cases rule: decide_payout_effect)
    case (1 d0 ss0)
    note run' = run [unfolded submit_claim_reward_transaction_with_throttle_def bindA_def dp 1(1)]
    have allow: "sd_allow d0"
    proof (rule ccontr)
      assume no: "\<not> sd_allow d0"
      then have "submit_claim_reward_transaction_with_security sv sl k a t w0 = (res, w')" using run' by simp
      from gate [OF this] new 1 no show False by fastforce
    qed
    then have w0: "w0 = w" using 1 by blast
    obtain decision ss where slot: "reserve_payout_slot tlim k a (wd_db w) (wd_security w) = Inr (decision, ss)"
      using run' allow w0 new by (cases "reserve_payout_slot tlim k a (wd_db w) (wd_security w)") (auto simp: reserve_slot_def)
    let ?w1 = "w\<lparr>wd_security := ss\<rparr>"
    have slot_ok: "sd_allow decision" and last: "submit_claim_reward_transaction_with_security sv sl k a t ?w1 = (res, w')"
      using run' allow w0 slot new by (auto simp: reserve_slot_def returnA_def split: if_split_asm)
    obtain dec where fin: "submit_claim_reward_transaction sv k a t ?w1 = (res, w')" using gate [OF last] new by auto
    obtain detail r wallet where P: "get_claim k (wd_db w) = Some detail" "get_claim_security_record k (wd_security w) = Some r"
        "cleared_record sl (cd_claim detail) r (db_now (wd_db w)) wallet"
      using permitted [of ?c sl k w d0 w] dp 1(1) allow w0 public(1) by metis
    obtain i rq detail2 ct where R: "wd_sent w' = wd_sent ?w1 @ [(i, rq)]" "rq_amount rq = a"
      "get_claim k (wd_db ?w1) = Some detail2" "claim_reward_address ?c (cd_claim detail2) = Inr ct"
      "validate_nimiq_address ?c ct = Inr (rq_to rq)"
      by (rule reward_request [OF fin]) (use ok public new in \<open>auto simp: outbox_ok_def\<close>)
    have "rq_to rq = wallet"
      using own_address [OF R(4) public(2,3)] R(3,5) P(1,3) by (auto simp: cleared_record_def)
    then show ?thesis using R(1,2) P slot slot_ok by auto
  qed
qed


section \<open>Instances\<close>

definition sample_record :: claim_event where
  "sample_record = \<lparr>ev_claim_id = 1, ev_spot_id = 1, ev_user_id = 2, ev_device = ''b'', ev_wallet = payout_address,
     ev_payout = Some payout_address, ev_ip = ''ip'', ev_claimed_at = 900000, ev_recorded_at = 900001,
     ev_session_created_at = 800000, ev_user_created_at = 10, ev_spot_lat = 0, ev_spot_long = 0, ev_spot_radius = 200,
     ev_reported_lat = 0, ev_reported_long = 0, ev_centre_offset = 0, ev_authorization = None,
     ev_manual_review = False, ev_review_reason = None, ev_review_marked_at = None, ev_released_at = None\<rparr>"

definition guarded_world :: "claim_event \<Rightarrow> world" where
  "guarded_world r = sample_world\<lparr>wd_security := empty_security\<lparr>ss_records := [(1, r)]\<rparr>\<rparr>"

definition public_services :: services where
  "public_services = sample_services\<lparr>sv_settings := \<lparr>allow_placeholders = False, allow_dev_sends = False, public_deployment = True\<rparr>\<rparr>"

lemma reservations_within_limits_witness:
  "\<exists>decision ss'. reserve_payout_slot default_throttle_limits 1 25000000 sample_payout_db empty_security = Inr (decision, ss')
    \<and> sd_allow decision \<and> ws_count (short_window default_throttle_limits sample_payout_db (ss_reservations ss')) \<le> 8"
proof -
  have "gives (reserve_payout_slot default_throttle_limits 1 25000000 sample_payout_db empty_security) (\<lambda>x. sd_allow (fst x))"
    by code_simp
  then obtain decision ss' where r: "reserve_payout_slot default_throttle_limits 1 25000000 sample_payout_db empty_security
      = Inr (decision, ss')" "sd_allow decision" by (auto simp: gives_iff)
  have f: "\<not> paid_recently default_throttle_limits sample_payout_db 1" by code_simp
  have "distinct (map rv_claim_id (ss_reservations empty_security))" by (simp add: empty_security_def)
  from reservations_within_limits [OF r f this] r show ?thesis by (auto simp: default_throttle_limits_def)
qed

lemma open_spot_payout_held_witness:
  "\<exists>res w'. submit_claim_reward_transaction_with_throttle public_services default_security_limits default_throttle_limits
      1 25000000 None (guarded_world sample_record) = (res, w')
    \<and> wd_sent w' = [] \<and> on_hold 1 w'
    \<and> (\<exists>reason. submit_claim_reward_transaction_with_throttle public_services default_security_limits default_throttle_limits
         1 25000000 None w' = (Inr (Skipped reason), w'))"
proof -
  obtain res w' where run: "submit_claim_reward_transaction_with_throttle public_services default_security_limits
      default_throttle_limits 1 25000000 None (guarded_world sample_record) = (res, w')" by fastforce
  have "rv_claim_id ` set (ss_reservations (wd_security (snd (submit_claim_reward_transaction_with_throttle public_services
      default_security_limits default_throttle_limits 1 25000000 None (guarded_world sample_record))))) = {1}"
    by code_simp
  then have mem: "1 \<in> rv_claim_id ` set (ss_reservations (wd_security w'))" using run by simp
  have "open_standard_spot 1 (wd_db (guarded_world sample_record)) \<noteq> None" by code_simp
  then obtain s where s: "open_standard_spot 1 (wd_db (guarded_world sample_record)) = Some s" by blast
  have rec: "get_claim_security_record 1 (wd_security (guarded_world sample_record)) = Some sample_record"
    "\<not> released 1 (wd_security (guarded_world sample_record))" "wd_sent (guarded_world sample_record) = []"
    "1 \<notin> rv_claim_id ` set (ss_reservations (wd_security (guarded_world sample_record)))"
    by (simp_all add: guarded_world_def released_def get_claim_security_record_def get_json_def sample_record_def
        empty_security_def sample_world_def)
  have f: "\<not> paid_recently default_throttle_limits (wd_db (guarded_world sample_record)) 1" by code_simp
  from open_spot_payout_held [OF run s rec(1,2,4) f] run rec(3) mem show ?thesis
    by (auto simp: on_hold_def hold_record_def)
qed

lemma guarded_payout_checked_witness:
  "\<exists>res w' rq. submit_claim_reward_transaction_with_throttle public_services default_security_limits default_throttle_limits
      1 25000000 None (guarded_world (sample_record\<lparr>ev_released_at := Some 5\<rparr>)) = (res, w')
    \<and> wd_sent w' = [rq] \<and> rq_to (snd rq) = payout_address"
proof -
  let ?w = "guarded_world (sample_record\<lparr>ev_released_at := Some 5\<rparr>)"
  obtain res w' where run: "submit_claim_reward_transaction_with_throttle public_services default_security_limits
      default_throttle_limits 1 25000000 None ?w = (res, w')" by fastforce
  have "length (wd_sent (snd (submit_claim_reward_transaction_with_throttle public_services
      default_security_limits default_throttle_limits 1 25000000 None ?w))) = 1"
    by code_simp
  then have new: "wd_sent w' \<noteq> wd_sent ?w" using run by (auto simp: guarded_world_def sample_world_def)
  have ok: "outbox_ok ?w"
    using sample_payout_db_ok by (simp add: outbox_ok_def guarded_world_def sample_world_def)
  have set: "public_deployment (sv_settings public_services)" "\<not> allow_placeholders (sv_settings public_services)"
    "\<not> allow_dev_sends (sv_settings public_services)" by (simp_all add: public_services_def sample_services_def)
  have rec: "get_claim_security_record 1 (wd_security ?w) = Some (sample_record\<lparr>ev_released_at := Some 5\<rparr>)" "wd_sent ?w = []"
    by (simp_all add: guarded_world_def get_claim_security_record_def get_json_def sample_world_def)
  have "canonical_payout_address payout_address = Some payout_address" by code_simp
  then show ?thesis
    using guarded_payout_checked [OF run ok set new] run rec by (auto simp: cleared_record_def sample_record_def)
qed

end
