(* ===== verification/RefundSafety.thy ===== *)
theory RefundSafety
  imports Payments "HOL-Library.List_Lexorder"
begin

text \<open>
  \<^verbatim>\<open>refund_address_safety.py\<close>: the account Nimiq Pay reports with a deposit is kept
  next to the deposit's hash, and a refund goes there, not to the chain sender,
  which may be a temporary contract. At start-up these functions replace the
  deposit recorder and the address resolver of \<^verbatim>\<open>trans_updater.py\<close>. The table is
  created on first use, so it always exists here, and a row of a deleted Spot is
  gone with it (\<open>return_rows\<close>).
\<close>

definition return_rows :: "db \<Rightarrow> security_state \<Rightarrow> return_row list" where
  "return_rows d ss = filter (\<lambda>r. has_spot d (rt_spot_id r)) (ss_returns ss)"

definition spot_return_address :: "int \<Rightarrow> db \<Rightarrow> security_state \<Rightarrow> string option" where
  "spot_return_address spot_id d ss =
    (case sort_key rt_created_at (sort_key rt_tx_hash (filter (\<lambda>r. rt_spot_id r = spot_id) (return_rows d ss))) of
       [] \<Rightarrow> None | r # _ \<Rightarrow> Some (rt_address r))"

definition return_row_of :: "string \<Rightarrow> db \<Rightarrow> security_state \<Rightarrow> return_row option" where
  "return_row_of source_tx_hash d ss = find (\<lambda>r. py_lower (rt_tx_hash r) = py_lower source_tx_hash) (return_rows d ss)"

definition original_account_message :: string where
  "original_account_message = ''Additional deposits for this Spot must use its original Nimiq Pay account.''"

text \<open>A stored address must still be valid, and the same as the one that is reported now.\<close>

definition same_account :: "settings \<Rightarrow> string \<Rightarrow> string \<Rightarrow> unit res" where
  "same_account c stored return_address =
     bindE (normalise_nimiq_address (allow_placeholders c) stored) (\<lambda>address.
       guardE (address = return_address) (ValueError original_account_message))"

definition remember_return_address ::
  "settings \<Rightarrow> int \<Rightarrow> string \<Rightarrow> string \<Rightarrow> db \<Rightarrow> security_state \<Rightarrow> security_state res" where
  "remember_return_address c spot_id source_tx_hash return_address d ss =
     bindE (case spot_return_address spot_id d ss of None \<Rightarrow> Inr () | Some a \<Rightarrow> same_account c a return_address) (\<lambda>_.
     case return_row_of source_tx_hash d ss of
       Some r \<Rightarrow>
         bindE (normalise_nimiq_address (allow_placeholders c) (rt_address r)) (\<lambda>existing_address.
         if rt_spot_id r \<noteq> spot_id \<or> existing_address \<noteq> return_address
         then Inl (ValueError ''this transaction hash is already attached to a different return address'')
         else Inr ss)
     | None \<Rightarrow>
         if sql_blank source_tx_hash \<or> sql_blank return_address
         then Inl (IntegrityError ''CHECK constraint failed: nimiq_pay_return_address'')
         else if \<not> has_spot d spot_id then Inl (IntegrityError ''FOREIGN KEY constraint failed'')
         else Inr (ss\<lparr>ss_returns := ss_returns ss @ [\<lparr>rt_tx_hash = source_tx_hash, rt_spot_id = spot_id,
                rt_address = return_address, rt_created_at = db_now d\<rparr>]\<rparr>))"

text \<open>
  The route that calls the recorder answers a \<^verbatim>\<open>ValueError\<close> inside its transaction,
  which commits, so what was written before an error stays.
\<close>

type_synonym recorded = "deposit_result res \<times> db \<times> security_state"

definition then_remember ::
  "settings \<Rightarrow> int \<Rightarrow> string \<Rightarrow> string \<Rightarrow> deposit_result \<Rightarrow> db \<Rightarrow> security_state \<Rightarrow> recorded" where
  "then_remember c spot_id clean_hash return_address result d ss =
    (case remember_return_address c spot_id clean_hash return_address d ss of
       Inl e \<Rightarrow> (Inl e, d, ss) | Inr ss' \<Rightarrow> (Inr result, d, ss'))"

definition recorded_deposit_again ::
  "settings \<Rightarrow> int \<Rightarrow> int \<Rightarrow> string \<Rightarrow> string \<Rightarrow> trans_row \<Rightarrow> db \<Rightarrow> security_state \<Rightarrow> recorded" where
  "recorded_deposit_again c user_id spot_id clean_hash return_address t d ss =
    (if \<not> same_recorded_deposit t user_id spot_id
     then (Inl (ValueError ''this transaction hash is already attached to a different record''), d, ss)
     else case spot_return_address spot_id d ss of
       None \<Rightarrow>
         (case normalise_nimiq_address (allow_placeholders c) (tr_from_address t) of
            Inl e \<Rightarrow> (Inl e, d, ss)
          | Inr stored_sender \<Rightarrow>
            if tr_status t \<noteq> TRANS_STATUS_PENDING \<or> stored_sender \<noteq> return_address
            then (Inl (ValueError ''this existing deposit has no safely recorded Nimiq Pay account; manual reconciliation is required''), d, ss)
            else then_remember c spot_id clean_hash return_address (recorded_before t) d ss)
     | Some stored_return \<Rightarrow>
         (case same_account c stored_return return_address of
            Inl e \<Rightarrow> (Inl e, d, ss) | Inr _ \<Rightarrow> (Inr (recorded_before t), d, ss)))"

text \<open>What a new deposit is checked for: its recipient and the amount that is taken.\<close>

definition check_new_deposit ::
  "settings \<Rightarrow> int \<Rightarrow> int \<Rightarrow> string \<Rightarrow> string option \<Rightarrow> db \<Rightarrow> security_state \<Rightarrow> (string \<times> int) res" where
  "check_new_deposit c spot_id requested return_address to_address d ss =
    (if requested \<le> 0 then Inl (ValueError ''amount must be positive'')
     else case get_spot spot_id d of
       None \<Rightarrow> Inl (ValueError ''spot does not exist'')
     | Some s \<Rightarrow>
       if sp_status s \<noteq> SPOT_STATUS_DRAFT then Inl (ValueError ''only draft spots can receive creator deposits'')
       else if sp_cancellation_started_at s \<noteq> None
       then Inl (ValueError ''this draft is being cancelled and cannot receive another deposit'')
       else
       bindE (normalise_nimiq_address (allow_placeholders c)
                (or_text (case to_address of None \<Rightarrow> [] | Some a \<Rightarrow> a) (sp_deposit_address s))) (\<lambda>clean_to.
       bindE (case spot_return_address spot_id d ss of
                Some established \<Rightarrow> same_account c established return_address
              | None \<Rightarrow> guardE (get_confirmed_spot_funding_address spot_id d = None)
                  (ValueError ''this Spot has confirmed legacy funding without a safely recorded Nimiq Pay account; manual reconciliation is required''))
         (\<lambda>_.
       let totals = get_spot_deposit_totals spot_id d;
           amount_due = max 0 (spot_required_deposit_amount s - st_confirmed_amount totals) in
       if 0 < st_pending_amount totals then Inl (ValueError ''this draft already has a pending deposit'')
       else if amount_due \<le> 0 then Inl (ValueError ''this draft is already fully funded'')
       else Inr (clean_to, min requested amount_due))))"

definition record_new_deposit ::
  "settings \<Rightarrow> int \<Rightarrow> int \<Rightarrow> string \<Rightarrow> string \<Rightarrow> string \<Rightarrow> int \<Rightarrow> db \<Rightarrow> security_state \<Rightarrow> recorded" where
  "record_new_deposit c user_id spot_id clean_hash return_address clean_to amount d ss =
    (case create_spot_deposit_transaction user_id spot_id amount return_address clean_hash (Some clean_to) d of
       Inr (i, d') \<Rightarrow>
         then_remember c spot_id clean_hash return_address
           \<lparr>dr_already_recorded = False, dr_trans_id = i, dr_amount = amount\<rparr> d' ss
     | Inl (IntegrityError m) \<Rightarrow>
         (case transaction_by_hash clean_hash d of
            None \<Rightarrow> (Inl (IntegrityError m), d, ss)
          | Some t \<Rightarrow> if same_recorded_deposit t user_id spot_id
                      then then_remember c spot_id clean_hash return_address (recorded_before t) d ss
                      else (Inl (IntegrityError m), d, ss))
     | Inl e \<Rightarrow> (Inl e, d, ss))"

definition record_deposit_with_return_address ::
  "settings \<Rightarrow> int \<Rightarrow> int \<Rightarrow> int \<Rightarrow> string \<Rightarrow> string \<Rightarrow> string option \<Rightarrow> db \<Rightarrow> security_state \<Rightarrow> recorded" where
  "record_deposit_with_return_address c user_id spot_id requested from_address tx_hash to_address d ss =
    (case normalise_nimiq_address (allow_placeholders c) from_address of
       Inl e \<Rightarrow> (Inl e, d, ss)
     | Inr return_address \<Rightarrow>
       let clean_hash = py_lower (py_strip tx_hash) in
       if \<not> is_transaction_hash clean_hash
       then (Inl (ValueError ''tx_hash must be a 64-character hexadecimal Nimiq transaction hash''), d, ss)
       else case transaction_by_hash clean_hash d of
         Some t \<Rightarrow> recorded_deposit_again c user_id spot_id clean_hash return_address t d ss
       | None \<Rightarrow> (case check_new_deposit c spot_id requested return_address to_address d ss of
           Inl e \<Rightarrow> (Inl e, d, ss)
         | Inr (clean_to, amount) \<Rightarrow>
             record_new_deposit c user_id spot_id clean_hash return_address clean_to amount d ss))"

section \<open>Resolving a refund address\<close>

definition mapped_deposit :: "db \<Rightarrow> return_row \<Rightarrow> trans_row option" where
  "mapped_deposit d r = find (\<lambda>t. py_lower (tr_tx_hash t) = py_lower (rt_tx_hash r)
     \<and> tr_spot_id t = Some (rt_spot_id r) \<and> tr_type t = TRANS_TYPE_FILL_SPOT \<and> tr_status t = TRANS_STATUS_CONFIRMED)
     (db_trans d)"

definition mapped_return_address ::
  "settings \<Rightarrow> string \<Rightarrow> string \<Rightarrow> db \<Rightarrow> security_state \<Rightarrow> string option res" where
  "mapped_return_address c source_tx_hash chain_sender d ss =
    (let clean_hash = py_lower (py_strip source_tx_hash) in
     if \<not> is_transaction_hash clean_hash then Inl (RuntimeError ''payout source transaction hash is invalid'')
     else bindE (normalise_nimiq_address (allow_placeholders c) chain_sender) (\<lambda>clean_chain_sender.
       case Option.bind (return_row_of clean_hash d ss) (\<lambda>r. map_option (Pair r) (mapped_deposit d r)) of
         None \<Rightarrow> Inr None
       | Some (r, t) \<Rightarrow>
         bindE (normalise_nimiq_address (allow_placeholders c) (tr_from_address t)) (\<lambda>stored_chain_sender.
         if stored_chain_sender \<noteq> clean_chain_sender
         then Inl (RuntimeError ''refund source sender does not match the confirmed deposit record'')
         else bindE (normalise_nimiq_address (allow_placeholders c) (rt_address r)) (\<lambda>a. Inr (Some a)))))"

definition resolve_refund_address ::
  "transport \<Rightarrow> settings \<Rightarrow> string \<Rightarrow> string option \<Rightarrow> bool option \<Rightarrow> db \<Rightarrow> security_state \<Rightarrow> string res" where
  "resolve_refund_address http c address source_tx_hash force_chain_resolution d ss =
    (case source_tx_hash of
       None \<Rightarrow> resolve_nimiq_pay_payout_address http c address None force_chain_resolution
     | Some h \<Rightarrow>
       if h = [] then resolve_nimiq_pay_payout_address http c address None force_chain_resolution
       else bindE (mapped_return_address c h address d ss) (\<lambda>mapped. case mapped of
         None \<Rightarrow>
           if \<not> public_deployment c
           then resolve_nimiq_pay_payout_address http c address (Some h) force_chain_resolution
           else Inl (RuntimeError ''the confirmed deposit has no recorded Nimiq Pay return address; manual reconciliation is required'')
       | Some a \<Rightarrow>
           if \<not> (case force_chain_resolution of None \<Rightarrow> public_deployment c | Some b \<Rightarrow> b) then Inr a
           else bindE (get_chain_account_by_address http c a) (\<lambda>account.
             if normalise_chain_account_type (obj_get ''type'' account) \<noteq> Some Basic
             then Inl (RuntimeError ''the recorded Nimiq Pay return address is not a basic account; manual reconciliation is required'')
             else Inr a)))"

end
