(* ===== verification/RefundProps.thy ===== *)
theory RefundProps
  imports RefundSafety DepositProps ThrottleProps ChainProps
begin

text \<open>
  What the table of return addresses guarantees: a Spot has one account, fixed by
  its first deposit, and on a public deployment its refunds go nowhere else.
\<close>

section \<open>The table of return addresses\<close>

definition return_table_ok :: "settings \<Rightarrow> db \<Rightarrow> security_state \<Rightarrow> bool" where
  "return_table_ok c d ss \<longleftrightarrow>
     (\<forall>r\<in>set (return_rows d ss). normalise_nimiq_address (allow_placeholders c) (rt_address r) = Inr (rt_address r)
        \<and> (\<exists>t\<in>set (db_trans d). py_lower (tr_tx_hash t) = py_lower (rt_tx_hash r) \<and> tr_spot_id t = Some (rt_spot_id r)))
     \<and> (\<forall>r1\<in>set (return_rows d ss). \<forall>r2\<in>set (return_rows d ss). rt_spot_id r1 = rt_spot_id r2 \<longrightarrow> rt_address r1 = rt_address r2)"

lemma return_table_ok_norm:
  "return_table_ok c d ss \<Longrightarrow> r \<in> set (return_rows d ss) \<Longrightarrow>
   normalise_nimiq_address (allow_placeholders c) (rt_address r) = Inr (rt_address r)"
  unfolding return_table_ok_def by blast

lemma spot_return_row:
  assumes "spot_return_address sp d ss = Some a"
  shows "\<exists>r\<in>set (return_rows d ss). rt_spot_id r = sp \<and> rt_address r = a"
proof -
  let ?l = "sort_key rt_created_at (sort_key rt_tx_hash (filter (\<lambda>r. rt_spot_id r = sp) (return_rows d ss)))"
  obtain r rest where r: "?l = r # rest" "rt_address r = a"
    using assms by (auto simp: spot_return_address_def split: list.split_asm)
  have "r \<in> set ?l" unfolding r(1) by simp
  then have "r \<in> set (return_rows d ss) \<and> rt_spot_id r = sp" by (simp only: set_sort set_filter) simp
  then show ?thesis using r(2) by blast
qed

lemma spot_return_none:
  assumes "spot_return_address sp d ss = None" and "r \<in> set (return_rows d ss)"
  shows "rt_spot_id r \<noteq> sp"
proof -
  let ?l = "sort_key rt_created_at (sort_key rt_tx_hash (filter (\<lambda>r. rt_spot_id r = sp) (return_rows d ss)))"
  have "?l = []" using assms(1) by (simp add: spot_return_address_def split: list.split_asm)
  then have "set ?l = {}" by simp
  then show ?thesis using assms(2) by auto
qed

lemma spot_return_unique:
  assumes "return_table_ok c d ss" and "r \<in> set (return_rows d ss)" and "rt_spot_id r = sp"
  shows "spot_return_address sp d ss = Some (rt_address r)"
proof (cases "spot_return_address sp d ss")
  case None
  then show ?thesis using spot_return_none assms(2,3) by blast
next
  case (Some a)
  then show ?thesis using spot_return_row assms by (metis return_table_ok_def)
qed

lemma same_account_iff [simp]: "same_account c a b = Inr u \<longleftrightarrow> normalise_nimiq_address (allow_placeholders c) a = Inr b"
  by (auto simp: same_account_def bindE_Inr_iff)

text \<open>What is remembered when the Spot has no other account.\<close>

lemma remember_cases:
  assumes r: "remember_return_address c sp h a d ss = Inr ss'" and inv: "return_table_ok c d ss"
    and ledger: "\<exists>t\<in>set (db_trans d). py_lower (tr_tx_hash t) = py_lower h \<and> tr_spot_id t = Some sp"
    and norm: "normalise_nimiq_address (allow_placeholders c) a = Inr a"
  shows "return_table_ok c d ss'" and "set (return_rows d ss) \<subseteq> set (return_rows d ss')"
    and "spot_return_address sp d ss' = Some a"
proof -
  have here: "case spot_return_address sp d ss of None \<Rightarrow> True | Some b \<Rightarrow> b = a"
  proof (cases "spot_return_address sp d ss")
    case (Some b)
    then have n: "normalise_nimiq_address (allow_placeholders c) b = Inr a"
      using r by (auto simp: remember_return_address_def bindE_Inr_iff)
    obtain r0 where "r0 \<in> set (return_rows d ss)" "rt_address r0 = b" using spot_return_row [OF Some] by blast
    then have "normalise_nimiq_address (allow_placeholders c) b = Inr b" using return_table_ok_norm [OF inv] by metis
    then show ?thesis using n Some by simp
  qed simp
  have all: "rt_address r = a" if "r \<in> set (return_rows d ss)" "rt_spot_id r = sp" for r
    using spot_return_unique [OF inv that] here by (metis option.simps(5))
  consider (known) r0 where "return_row_of h d ss = Some r0" "ss' = ss" "rt_spot_id r0 = sp"
    | (new) "has_spot d sp" "ss' = ss\<lparr>ss_returns := ss_returns ss @ [\<lparr>rt_tx_hash = h, rt_spot_id = sp, rt_address = a, rt_created_at = db_now d\<rparr>]\<rparr>"
  proof (cases "return_row_of h d ss")
    case None
    then show ?thesis using r new
      by (auto simp: remember_return_address_def bindE_Inr_iff split: if_split_asm)
  next
    case (Some r0)
    then show ?thesis using r known
      by (auto simp: remember_return_address_def bindE_Inr_iff split: if_split_asm)
  qed
  then have "return_table_ok c d ss' \<and> set (return_rows d ss) \<subseteq> set (return_rows d ss') \<and> spot_return_address sp d ss' = Some a"
  proof cases
    case known
    then have "r0 \<in> set (return_rows d ss)" by (auto simp: return_row_of_def find_Some_iff)
    then show ?thesis using known inv all spot_return_unique [OF inv] by fastforce
  next
    case new
    let ?r = "\<lparr>rt_tx_hash = h, rt_spot_id = sp, rt_address = a, rt_created_at = db_now d\<rparr>"
    have rows: "return_rows d ss' = return_rows d ss @ [?r]" using new by (simp add: return_rows_def)
    have ok: "return_table_ok c d ss'"
      unfolding return_table_ok_def rows
    proof (intro conjI ballI impI)
      fix r assume r: "r \<in> set (return_rows d ss @ [?r])"
      show "normalise_nimiq_address (allow_placeholders c) (rt_address r) = Inr (rt_address r)"
        using r norm return_table_ok_norm [OF inv, of r] by (cases "r = ?r") auto
      show "\<exists>t\<in>set (db_trans d). py_lower (tr_tx_hash t) = py_lower (rt_tx_hash r) \<and> tr_spot_id t = Some (rt_spot_id r)"
      proof (cases "r = ?r")
        case False
        then show ?thesis using r inv unfolding return_table_ok_def by simp
      qed (use ledger in simp)
    next
      fix r1 r2 assume r: "r1 \<in> set (return_rows d ss @ [?r])" "r2 \<in> set (return_rows d ss @ [?r])" "rt_spot_id r1 = rt_spot_id r2"
      show "rt_address r1 = rt_address r2"
      proof (cases "rt_spot_id r1 = sp")
        case True
        have "rt_address r = a" if "r \<in> set (return_rows d ss @ [?r])" "rt_spot_id r = sp" for r
          using that all [of r] by (cases "r = ?r") auto
        then show ?thesis using r True by metis
      next
        case False
        then have "r1 \<in> set (return_rows d ss)" "r2 \<in> set (return_rows d ss)" using r by auto
        then show ?thesis using inv r(3) unfolding return_table_ok_def by blast
      qed
    qed
    moreover have "spot_return_address sp d ss' = Some a"
      using spot_return_unique [OF ok, of ?r] rows by simp
    ultimately show ?thesis using rows by auto
  qed
  then show "return_table_ok c d ss'" "set (return_rows d ss) \<subseteq> set (return_rows d ss')"
    "spot_return_address sp d ss' = Some a" by blast+
qed


lemma return_table_ok_create:
  assumes "create_transaction u ty a f t h s k d = Inr (i, d')" and "return_table_ok c d ss"
  shows "return_table_ok c d' ss" and "return_rows d' ss = return_rows d ss"
proof -
  have "db_spots d' = db_spots d" using insert_trans_Inr [OF assms(1) [unfolded create_transaction_def]] by simp
  then show rows: "return_rows d' ss = return_rows d ss" by (simp add: return_rows_def has_spot_def)
  have "set (db_trans d) \<subseteq> set (db_trans d')" using create_transaction_row(2) [OF assms(1)] by auto
  then show "return_table_ok c d' ss" using assms(2) unfolding return_table_ok_def rows by blast
qed

lemma then_remember_cases:
  assumes r: "then_remember c sp h a x0 d ss = (res, d', ss')" and inv: "return_table_ok c d ss"
    and ledger: "\<exists>t\<in>set (db_trans d). py_lower (tr_tx_hash t) = py_lower h \<and> tr_spot_id t = Some sp"
    and norm: "normalise_nimiq_address (allow_placeholders c) a = Inr a"
  shows "d' = d" and "return_table_ok c d' ss'" and "set (return_rows d ss) \<subseteq> set (return_rows d' ss')"
    and "is_ok res \<Longrightarrow> spot_return_address sp d' ss' = Some a"
  using r remember_cases [OF _ inv ledger norm] inv
  by (auto simp: then_remember_def is_ok_def split: sum.split_asm)


lemma ledger_of_hash:
  assumes "transaction_by_hash h d = Some t" "is_transaction_hash h" "same_recorded_deposit t u sp"
  shows "\<exists>t\<in>set (db_trans d). py_lower (tr_tx_hash t) = py_lower h \<and> tr_spot_id t = Some sp"
  using assms strip_hash [OF assms(2)] by (auto simp: transaction_by_hash_def same_recorded_deposit_def find_Some_iff)

lemma again_cases:
  assumes r: "recorded_deposit_again c u sp h a t d ss = (res, d', ss')" and t: "transaction_by_hash h d = Some t" "is_transaction_hash h"
    and inv: "return_table_ok c d ss" and norm: "normalise_nimiq_address (allow_placeholders c) a = Inr a"
  shows "return_table_ok c d' ss' \<and> set (return_rows d ss) \<subseteq> set (return_rows d' ss')
    \<and> (is_ok res \<longrightarrow> spot_return_address sp d' ss' = Some a)"
proof -
  consider (quiet) "d' = d" "ss' = ss" "is_ok res \<longrightarrow> spot_return_address sp d ss = Some a"
    | (remember) "same_recorded_deposit t u sp" "then_remember c sp h a (recorded_before t) d ss = (res, d', ss')"
  proof (cases "spot_return_address sp d ss")
    case None
    then show ?thesis using r quiet remember
      by (auto simp: recorded_deposit_again_def is_ok_def split: if_split_asm sum.split_asm)
  next
    case (Some b)
    obtain r0 where "r0 \<in> set (return_rows d ss)" "rt_address r0 = b" using spot_return_row [OF Some] by blast
    then have n: "normalise_nimiq_address (allow_placeholders c) b = Inr b" using return_table_ok_norm [OF inv] by metis
    have "d' = d \<and> ss' = ss \<and> (is_ok res \<longrightarrow> same_account c b a = Inr ())"
      using r Some by (auto simp: recorded_deposit_again_def is_ok_def split: if_split_asm sum.split_asm)
    then show ?thesis using quiet n Some by simp
  qed
  then show ?thesis
  proof cases
    case quiet
    then show ?thesis using inv by simp
  next
    case remember
    from then_remember_cases [OF remember(2) inv ledger_of_hash [OF t remember(1)] norm] show ?thesis by blast
  qed
qed

lemma new_cases:
  assumes r: "record_new_deposit c u sp h a ct n d ss = (res, d', ss')" and h: "is_transaction_hash h"
    and inv: "return_table_ok c d ss" and norm: "normalise_nimiq_address (allow_placeholders c) a = Inr a"
  shows "return_table_ok c d' ss' \<and> set (return_rows d ss) \<subseteq> set (return_rows d' ss')
    \<and> (is_ok res \<longrightarrow> spot_return_address sp d' ss' = Some a)"
proof -
  consider (quiet) "d' = d" "ss' = ss" "\<not> is_ok res"
    | (made) i d1 x where "create_transaction u TRANS_TYPE_FILL_SPOT n a ct h (Some sp) None d = Inr (i, d1)"
        "then_remember c sp h a x d1 ss = (res, d', ss')"
    | (known) t where "transaction_by_hash h d = Some t" "same_recorded_deposit t u sp"
        "then_remember c sp h a (recorded_before t) d ss = (res, d', ss')"
    using r by (auto simp: record_new_deposit_def create_spot_deposit_transaction_def is_ok_def
        split: sum.split_asm prod.split_asm py_error.split_asm option.split_asm if_split_asm)
  then show ?thesis
  proof cases
    case quiet
    then show ?thesis using inv by simp
  next
    case (made i d1 x)
    note C = return_table_ok_create [OF made(1) inv]
    have "\<exists>t\<in>set (db_trans d1). py_lower (tr_tx_hash t) = py_lower h \<and> tr_spot_id t = Some sp"
      using create_transaction_row(2) [OF made(1)] by auto
    from then_remember_cases [OF made(2) C(1) this norm] show ?thesis using C(2) by simp
  next
    case (known t)
    from then_remember_cases [OF known(3) inv ledger_of_hash [OF known(1) h known(2)] norm] show ?thesis by blast
  qed
qed

text \<open>
  C34: The account that a Spot's refunds go to is fixed by its first recorded
  deposit. Recording a deposit, accepted or not, keeps every return address there
  is; after an accepted one the Spot's account is the one Nimiq Pay reported with
  it, so a deposit from any other account is refused.
\<close>

theorem return_account_fixed:
  assumes rec: "record_deposit_with_return_address c u sp n f h to_addr d ss = (res, d', ss')"
    and strict: "\<not> allow_placeholders c" and inv: "return_table_ok c d ss"
  shows "return_table_ok c d' ss' \<and> set (return_rows d ss) \<subseteq> set (return_rows d' ss')
    \<and> (\<forall>sp' a. spot_return_address sp' d ss = Some a \<longrightarrow> spot_return_address sp' d' ss' = Some a)
    \<and> (is_ok res \<longrightarrow> (\<exists>a. normalise_nimiq_address False f = Inr a \<and> spot_return_address sp d' ss' = Some a))"
proof -
  have main: "return_table_ok c d' ss' \<and> set (return_rows d ss) \<subseteq> set (return_rows d' ss')
    \<and> (is_ok res \<longrightarrow> (\<exists>a. normalise_nimiq_address False f = Inr a \<and> spot_return_address sp d' ss' = Some a))"
  proof (cases "normalise_nimiq_address False f")
    case (Inl e)
    then show ?thesis using rec inv strict by (auto simp: record_deposit_with_return_address_def is_ok_def)
  next
    case (Inr a)
    let ?h = "py_lower (py_strip h)"
    have norm: "normalise_nimiq_address (allow_placeholders c) a = Inr a" using normalise_idem [OF Inr] strict by simp
    consider (quiet) "d' = d" "ss' = ss" "\<not> is_ok res"
      | (again) t where "is_transaction_hash ?h" "transaction_by_hash ?h d = Some t"
          "recorded_deposit_again c u sp ?h a t d ss = (res, d', ss')"
      | (new) ct m where "is_transaction_hash ?h" "record_new_deposit c u sp ?h a ct m d ss = (res, d', ss')"
      using rec strict Inr
      by (auto simp: record_deposit_with_return_address_def Let_def is_ok_def
          split: if_split_asm option.split_asm sum.split_asm prod.split_asm)
    then show ?thesis
    proof cases
      case quiet
      then show ?thesis using inv by simp
    next
      case again
      from again_cases [OF again(3,2,1) inv norm] show ?thesis using Inr by blast
    next
      case new
      from new_cases [OF new(2,1) inv norm] show ?thesis using Inr by blast
    qed
  qed
  moreover have "spot_return_address sp' d' ss' = Some a" if "spot_return_address sp' d ss = Some a" for sp' a
    using spot_return_row [OF that] spot_return_unique main by (metis subsetD)
  ultimately show ?thesis by blast
qed

text \<open>
  C35: On a public deployment a refund with a source transaction goes to the Spot's
  recorded account and nowhere else: when the source is a ledger row of the Spot
  and hashes are unique, the resolver answers with that account, which the chain
  reports as a basic account, or with an error, whatever address the chain shows
  as the sender.
\<close>

theorem refund_to_recorded_account:
  assumes res: "resolve_refund_address http c address (Some h) None d ss = Inr a"
    and public: "public_deployment c" and h: "h \<noteq> []" and inv: "return_table_ok c d ss"
    and t: "t \<in> set (db_trans d)" "tr_spot_id t = Some sp" "py_lower (tr_tx_hash t) = py_lower (py_strip h)"
    and unique: "distinct (map (py_lower \<circ> tr_tx_hash) (db_trans d))"
  shows "spot_return_address sp d ss = Some a
    \<and> (\<exists>account. get_chain_account_by_address http c a = Inr account
        \<and> normalise_chain_account_type (obj_get ''type'' account) = Some Basic)"
proof -
  obtain account where m: "mapped_return_address c h address d ss = Inr (Some a)"
    and basic: "get_chain_account_by_address http c a = Inr account"
      "normalise_chain_account_type (obj_get ''type'' account) = Some Basic"
    using res h public by (auto simp: resolve_refund_address_def bindE_Inr_iff split: option.split_asm if_split_asm)
  let ?h = "py_lower (py_strip h)"
  obtain r t' where r: "return_row_of ?h d ss = Some r" "mapped_deposit d r = Some t'"
      "normalise_nimiq_address (allow_placeholders c) (rt_address r) = Inr a"
    using m by (auto simp: mapped_return_address_def Let_def bindE_Inr_iff bind_eq_Some_conv split: option.split_asm if_split_asm)
  have mem: "r \<in> set (return_rows d ss)" "py_lower (rt_tx_hash r) = ?h"
    using r(1) by (auto simp: return_row_of_def find_Some_iff)
  have t': "t' \<in> set (db_trans d)" "py_lower (tr_tx_hash t') = py_lower (rt_tx_hash r)" "tr_spot_id t' = Some (rt_spot_id r)"
    using r(2) by (auto simp: mapped_deposit_def find_Some_iff)
  have "t' = t" using unique t(1,3) t'(1,2) mem(2) by (auto simp: distinct_map inj_on_def)
  then have sp: "rt_spot_id r = sp" using t(2) t'(3) by simp
  have "rt_address r = a" using return_table_ok_norm [OF inv mem(1)] r(3) by simp
  then show ?thesis using spot_return_unique [OF inv mem(1) sp] basic by blast
qed


section \<open>Instances\<close>

definition sample_hash :: string where
  "sample_hash = replicate 64 CHR ''a''"

lemma return_account_fixed_witness:
  "\<exists>x d' ss'. record_deposit_with_return_address (sv_settings public_services) 1 1 70000000 payout_address sample_hash None
      sample_deposit_db empty_security = (Inr x, d', ss') \<and> spot_return_address 1 d' ss' = Some payout_address"
proof -
  let ?r = "record_deposit_with_return_address (sv_settings public_services) 1 1 70000000 payout_address sample_hash None
      sample_deposit_db empty_security"
  have ok: "is_ok (fst ?r)" by code_simp
  obtain res d' ss' where r: "?r = (res, d', ss')" by (cases ?r)
  have "\<not> allow_placeholders (sv_settings public_services)" by (simp add: public_services_def)
  moreover have "return_table_ok (sv_settings public_services) sample_deposit_db empty_security"
    by (simp add: return_table_ok_def return_rows_def empty_security_def)
  moreover have "normalise_nimiq_address False payout_address = Inr payout_address" by code_simp
  ultimately have "spot_return_address 1 d' ss' = Some payout_address"
    using return_account_fixed [OF r] ok r by auto
  then show ?thesis using ok r by (auto simp: is_ok_def split: sum.split_asm)
qed

text \<open>The chain shows a contract as the sender of the deposit.\<close>

definition refund_db :: db where
  "refund_db = sample_db\<lparr>db_trans := [sample_deposit\<lparr>tr_from_address := payout_address, tr_tx_hash := sample_hash\<rparr>]\<rparr>"

definition refund_security :: security_state where
  "refund_security = empty_security\<lparr>ss_returns :=
     [\<lparr>rt_tx_hash = sample_hash, rt_spot_id = 1, rt_address = zero_address, rt_created_at = 10\<rparr>]\<rparr>"

lemma refund_to_recorded_account_witness:
  "resolve_refund_address sample_htlc_http (sv_settings public_services) payout_address (Some sample_hash) None
      refund_db refund_security = Inr zero_address
    \<and> spot_return_address 1 refund_db refund_security = Some zero_address"
proof -
  have r: "resolve_refund_address sample_htlc_http (sv_settings public_services) payout_address (Some sample_hash) None
      refund_db refund_security = Inr zero_address" by code_simp
  have n: "normalise_nimiq_address (allow_placeholders (sv_settings public_services)) zero_address = Inr zero_address" by code_simp
  let ?t = "sample_deposit\<lparr>tr_from_address := payout_address, tr_tx_hash := sample_hash\<rparr>"
  have rows: "return_rows refund_db refund_security = ss_returns refund_security"
    by (simp add: return_rows_def refund_security_def refund_db_def sample_defs has_spot_def)
  have inv: "return_table_ok (sv_settings public_services) refund_db refund_security"
    unfolding return_table_ok_def rows by (simp add: refund_security_def refund_db_def n) (simp add: sample_deposit_def)
  have "public_deployment (sv_settings public_services)" "sample_hash \<noteq> []" by (simp_all add: public_services_def sample_hash_def)
  moreover have "?t \<in> set (db_trans refund_db)" "tr_spot_id ?t = Some 1"
    "distinct (map (py_lower \<circ> tr_tx_hash) (db_trans refund_db))" by (simp_all add: refund_db_def sample_deposit_def)
  moreover have "py_lower (tr_tx_hash ?t) = py_lower (py_strip sample_hash)"
  proof -
    have "py_lower (py_strip sample_hash) = py_lower sample_hash" by code_simp
    then show ?thesis by simp
  qed
  ultimately show ?thesis using refund_to_recorded_account [OF r _ _ inv, of ?t] r by blast
qed

end
