(* ===== verification/Funding.thy ===== *)
theory Funding
  imports Payments
begin

text \<open>
  \<^verbatim>\<open>funding_status.py\<close>, \<^verbatim>\<open>funding_fee_worker.py\<close> and \<^verbatim>\<open>funding_monitor.py\<close>: what a
  creator is told about a Spot's funding, the creation fee once the Spot is
  published, the recovery of a fee whose hash was lost, and the health report.
  At start-up they replace functions of \<^verbatim>\<open>db_access.py\<close> and \<^verbatim>\<open>trans_updater.py\<close>;
  the replacements carry a name of their own here. Log lines are left out.
\<close>

section \<open>Funding status (\<^verbatim>\<open>funding_status.py\<close>)\<close>

definition address_key :: "string \<Rightarrow> string" where
  "address_key value = filter (\<lambda>c. \<not> py_isspace c) (py_upper (py_strip value))"

definition is_real_chain_hash :: "string \<Rightarrow> bool" where
  "is_real_chain_hash value =
    (let tx_hash = py_strip value in tx_hash \<noteq> [] \<and> \<not> starts_with LOCAL_TRANSACTION_INTENT_PREFIX tx_hash)"

definition matching_creation_fee_rows ::
  "trans_row list \<Rightarrow> int \<Rightarrow> string \<Rightarrow> string \<Rightarrow> trans_row list" where
  "matching_creation_fee_rows transactions creation_fee deposit_address creation_fee_address =
     filter (\<lambda>t. tr_type t = TRANS_TYPE_CREATION_FEE \<and> tr_amount t = creation_fee
       \<and> address_key (tr_from_address t) = address_key deposit_address
       \<and> address_key (tr_to_address t) = address_key creation_fee_address) transactions"

definition broadcast_row :: "trans_row \<Rightarrow> bool" where
  "broadcast_row t \<longleftrightarrow> (tr_status t = TRANS_STATUS_PENDING \<or> tr_status t = TRANS_STATUS_CONFIRMED)
     \<and> is_real_chain_hash (tr_tx_hash t)"

definition has_broadcast_spot_creation_fee_transaction :: "int \<Rightarrow> db \<Rightarrow> bool" where
  "has_broadcast_spot_creation_fee_transaction spot_id d = (case get_spot spot_id d of
     None \<Rightarrow> False
   | Some s \<Rightarrow> let fee_amount = spot_creation_fee_amount s in
       if fee_amount \<le> 0 then True
       else list_ex broadcast_row (matching_creation_fee_rows (get_transactions_by_spot spot_id MAX_LIMIT 0 d)
              fee_amount (sp_deposit_address s) (sp_creation_fee_address s)))"

definition can_publish_spot_after_fee_broadcast :: "int \<Rightarrow> db \<Rightarrow> bool" where
  "can_publish_spot_after_fee_broadcast spot_id d \<longleftrightarrow>
     can_publish_spot spot_id d \<and> has_confirmed_spot_creation_fee_transaction spot_id d"

datatype fee_status = FeeNotDue | FeeConfirmed | FeePending | FeeAttention | FeeMismatch | FeeRetrying
  | FeePreparing | FeeWaiting

datatype deposit_status = DepositMissing | DepositProcessing | DepositPartial | DepositReady

record funding_summary =
  ds_status :: deposit_status
  ds_amount :: int
  ds_recorded_amount :: int
  ds_submitted_amount :: int
  ds_amount_due :: int
  ds_required_total :: int
  ds_funding_submitted :: bool
  ds_funding_complete :: bool
  ds_fee_submitted :: bool
  ds_fee_confirmed :: bool
  ds_fee_status :: fee_status
  ds_requires_attention :: bool
  ds_has_any :: bool
  ds_confirmed_amount :: int
  ds_pending_amount :: int
  ds_failed_amount :: int
  ds_tx_hash :: "string option"
  ds_created_at :: "int option"
  ds_paid :: bool
  ds_spot_value :: int
  ds_creation_fee :: int
  ds_creation_fee_address :: string
  ds_fee_paid :: bool
  ds_has_submitted :: bool
  ds_has_pending :: bool
  ds_confirmed_fee_amount :: int
  ds_matching_confirmed_fee_amount :: int
  ds_matching_broadcast_fee_amount :: int
  ds_local_intent_fee_amount :: int
  ds_pending_fee_amount :: int
  ds_failed_fee_amount :: int

definition status_total :: "int \<Rightarrow> trans_row list \<Rightarrow> int" where
  "status_total status rows = sum_where tr_amount (\<lambda>t. tr_status t = status) rows"

definition stuck_intent_row :: "trans_row \<Rightarrow> bool" where
  "stuck_intent_row t \<longleftrightarrow> tr_status t = TRANS_STATUS_PENDING \<and> \<not> is_real_chain_hash (tr_tx_hash t)"

text \<open>The fee as the summary sees it: confirmed, broadcast, stuck, and what other fee rows say.\<close>

definition fee_state :: "trans_row list \<Rightarrow> trans_row list \<Rightarrow> int \<Rightarrow> bool \<Rightarrow> fee_status" where
  "fee_state fees matching creation_fee funding_complete =
    (if creation_fee \<le> 0 then FeeNotDue
     else if creation_fee \<le> status_total TRANS_STATUS_CONFIRMED matching then FeeConfirmed
     else if creation_fee \<le> sum_where tr_amount broadcast_row matching then FeePending
     else if 0 < sum_where tr_amount stuck_intent_row matching
     then FeeAttention
     else if 0 < status_total TRANS_STATUS_CONFIRMED fees then FeeMismatch
     else if 0 < status_total TRANS_STATUS_FAILED fees then FeeRetrying
     else if funding_complete then FeePreparing else FeeWaiting)"

definition deposit_summary :: "trans_row list \<Rightarrow> int \<Rightarrow> int \<Rightarrow> string \<Rightarrow> string \<Rightarrow> funding_summary" where
  "deposit_summary transactions total_value creation_fee deposit_address creation_fee_address =
    (let fills = filter (\<lambda>t. tr_type t = TRANS_TYPE_FILL_SPOT) transactions;
         fees = filter (\<lambda>t. tr_type t = TRANS_TYPE_CREATION_FEE) transactions;
         confirmed = status_total TRANS_STATUS_CONFIRMED fills;
         pending = status_total TRANS_STATUS_PENDING fills;
         failed = status_total TRANS_STATUS_FAILED fills;
         fee = max 0 creation_fee;
         required = max 0 total_value + fee;
         submitted = confirmed + pending;
         complete = (0 < required \<and> required \<le> confirmed);
         matching = matching_creation_fee_rows fees fee deposit_address creation_fee_address;
         fee_confirmed = (fee \<le> 0 \<or> fee \<le> status_total TRANS_STATUS_CONFIRMED matching);
         status = (if submitted \<le> 0 then DepositMissing else if 0 < pending then DepositProcessing
                   else if \<not> complete then DepositPartial else DepositReady)
     in \<lparr>ds_status = status, ds_amount = (if status = DepositPartial then confirmed else submitted),
         ds_recorded_amount = submitted + failed, ds_submitted_amount = submitted,
         ds_amount_due = max 0 (required - submitted), ds_required_total = required,
         ds_funding_submitted = (0 < required \<and> required \<le> submitted), ds_funding_complete = complete,
         ds_fee_submitted = (fee \<le> 0 \<or> fee \<le> sum_where tr_amount broadcast_row matching),
         ds_fee_confirmed = fee_confirmed,
         ds_fee_status = fee_state fees matching fee complete,
         ds_requires_attention = (0 < sum_where tr_amount stuck_intent_row matching),
         ds_has_any = (fills \<noteq> []), ds_confirmed_amount = confirmed, ds_pending_amount = pending,
         ds_failed_amount = failed,
         ds_tx_hash = (case fills of [] \<Rightarrow> None | t # _ \<Rightarrow> Some (tr_tx_hash t)),
         ds_created_at = (case fills of [] \<Rightarrow> None | t # _ \<Rightarrow> Some (tr_created_at t)),
         ds_paid = (status = DepositReady), ds_spot_value = max 0 total_value, ds_creation_fee = fee,
         ds_creation_fee_address = creation_fee_address, ds_fee_paid = fee_confirmed,
         ds_has_submitted = (0 < submitted), ds_has_pending = (0 < pending),
         ds_confirmed_fee_amount = status_total TRANS_STATUS_CONFIRMED fees,
         ds_matching_confirmed_fee_amount = status_total TRANS_STATUS_CONFIRMED matching,
         ds_matching_broadcast_fee_amount = sum_where tr_amount broadcast_row matching,
         ds_local_intent_fee_amount = sum_where tr_amount stuck_intent_row matching,
         ds_pending_fee_amount = status_total TRANS_STATUS_PENDING fees,
         ds_failed_fee_amount = status_total TRANS_STATUS_FAILED fees\<rparr>)"

section \<open>The creation fee (\<^verbatim>\<open>funding_fee_worker.py\<close>)\<close>

definition fully_funded_admission :: "db \<Rightarrow> admission_row \<Rightarrow> bool" where
  "fully_funded_admission d a \<longleftrightarrow> da_status a = AdmissionConsumed
     \<and> list_ex (\<lambda>s. sp_deposit_key_index s = Some (da_key_index a)
          \<and> sp_total_value s + sp_creation_fee s \<le> get_confirmed_spot_deposit_total (sp_id s) d) (db_spots d)"

definition release_fully_funded_draft_admissions :: "db \<Rightarrow> int \<times> db" where
  "release_fully_funded_draft_admissions d =
     (count_where (fully_funded_admission d) (db_admissions d),
      d\<lparr>db_admissions := filter (\<lambda>a. \<not> fully_funded_admission d a) (db_admissions d)\<rparr>)"

definition reserve_draft_after_release :: "int \<Rightarrow> int option \<Rightarrow> db \<Rightarrow> ((int \<times> int) option \<times> db) res" where
  "reserve_draft_after_release user_id now d =
     reserve_draft_creation user_id now (snd (release_fully_funded_draft_admissions d))"

text \<open>A draft takes the original route; a published or completed Spot may be charged later.\<close>

definition create_live_spot_fee ::
  "bool \<Rightarrow> int \<Rightarrow> int \<Rightarrow> int \<Rightarrow> string \<Rightarrow> string \<Rightarrow> string \<Rightarrow> db \<Rightarrow> (int \<times> db) res" where
  "create_live_spot_fee dev user_id spot_id amount from_address to_address tx_hash d =
    (case get_spot spot_id d of None \<Rightarrow> Inl (ValueError ''spot does not exist'') | Some s \<Rightarrow>
     let expected_amount = spot_creation_fee_amount s in
     if sp_status s = SPOT_STATUS_DRAFT
     then create_spot_creation_fee_transaction dev user_id spot_id amount from_address to_address tx_hash d
     else if sp_status s \<noteq> SPOT_STATUS_PUBLISHED \<and> sp_status s \<noteq> SPOT_STATUS_COMPLETED
     then Inl (ValueError ''creation fees can only be created for draft, published or completed spots'')
     else if sp_cancellation_started_at s \<noteq> None
     then Inl (ValueError ''creation fee cannot be created after cancellation has started'')
     else if user_id \<noteq> sp_created_by s then Inl (ValueError ''creation fee user does not match the Spot owner'')
     else if expected_amount \<le> 0 \<or> amount \<noteq> expected_amount
     then Inl (ValueError ''creation fee amount does not match the Spot snapshot'')
     else
       bindE (normalise_nimiq_address dev (sp_deposit_address s)) (\<lambda>expected_from.
       bindE (normalise_nimiq_address dev from_address) (\<lambda>submitted_from.
       if submitted_from \<noteq> expected_from
       then Inl (ValueError ''creation fee sender does not match the Spot deposit address'') else
       bindE (normalise_nimiq_address dev (sp_creation_fee_address s)) (\<lambda>expected_to.
       bindE (normalise_nimiq_address dev to_address) (\<lambda>submitted_to.
       if submitted_to \<noteq> expected_to
       then Inl (ValueError ''creation fee recipient does not match the Spot snapshot'')
       else if get_confirmed_spot_deposit_total spot_id d < spot_required_deposit_amount s
       then Inl (ValueError ''creation fee cannot be created before full funding confirms'')
       else create_once (has_nonfailed_spot_creation_fee_transaction spot_id)
         ''Spot already has a non-failed creation fee transaction''
         (create_transaction (sp_created_by s) TRANS_TYPE_CREATION_FEE expected_amount expected_from expected_to
            tx_hash (Some spot_id) None) d)))))"

definition live_fee_failed :: "int \<Rightarrow> py_error \<Rightarrow> send_outcome act" where
  "live_fee_failed spot_id e =
    bindA (readA (\<lambda>d. (get_spot spot_id d, has_nonfailed_spot_creation_fee_transaction spot_id d))) (\<lambda>(s, live).
     case e of
       ValueError _ \<Rightarrow> if s \<noteq> None \<and> sp_cancellation_started_at (the s) \<noteq> None
         then returnA (Skipped ''cancellation_started'') else raiseA e
     | IntegrityError _ \<Rightarrow> if live then returnA AlreadyExists else raiseA e
     | RuntimeError m \<Rightarrow> if contains ''already has a non-failed creation fee transaction'' m \<and> live
         then returnA AlreadyExists else raiseA e
     | _ \<Rightarrow> raiseA e)"

definition submit_live_spot_fee :: "services \<Rightarrow> int \<Rightarrow> send_outcome act" where
  "submit_live_spot_fee sv spot_id =
    bind_spot spot_id (\<lambda>s.
    let amount = spot_creation_fee_amount s; fee_address = py_strip (sp_creation_fee_address s) in
    if sp_status s \<notin> {SPOT_STATUS_DRAFT, SPOT_STATUS_PUBLISHED, SPOT_STATUS_COMPLETED}
    then raiseA (ValueError ''creation fees can only be submitted for draft, published or completed spots'')
    else if sp_cancellation_started_at s \<noteq> None then returnA (Skipped ''cancellation_started'')
    else if amount \<le> 0 then returnA (Skipped ''zero_amount'')
    else bindA (readA (\<lambda>d. (get_confirmed_spot_deposit_total spot_id d,
                            has_nonfailed_spot_creation_fee_transaction spot_id d))) (\<lambda>(confirmed, live).
    if confirmed < spot_required_deposit_amount s then returnA (Skipped ''not_fully_funded'')
    else if live then returnA AlreadyExists
    else if fee_address = [] then raiseA (ValueError ''spot creation fee address is missing'')
    else catchA (mapA Sent (submit_recorded_chain_send sv s fee_address amount
           (build_transaction_description ''Creation Fee'' (Some (sp_title s))) ''creation_fee'' spot_id
           (\<lambda>a f t h. create_live_spot_fee (allow_placeholders (sv_settings sv))
              (sp_created_by s) spot_id a f t h)))
         (live_fee_failed spot_id)))"

definition submit_ready_live_fees :: "services \<Rightarrow> int \<Rightarrow> (int \<times> send_outcome res) list act" where
  "submit_ready_live_fees sv limit =
     bindA (readA (get_spot_ids_ready_for_creation_fee limit)) (\<lambda>spot_ids.
       foldA (submit_fee_step (submit_live_spot_fee sv)) spot_ids [])"

section \<open>Lost fee hashes (\<^verbatim>\<open>funding_monitor.py\<close>)\<close>

text \<open>
  A candidate is a transaction of the deposit address's history that pays the
  intent and whose hash no other row has. One entry per hash is kept, the last.
\<close>

type_synonym fee_match = "string \<times> int option \<times> verified_details"

definition fee_match_of :: "settings \<Rightarrow> trans_row \<Rightarrow> db \<Rightarrow> json \<Rightarrow> fee_match option" where
  "fee_match_of c t d candidate =
    (let tx_hash = py_strip (case extract_chain_hash candidate of None \<Rightarrow> [] | Some h \<Rightarrow> h);
         verified = verify_direct c t candidate
     in if tx_hash = [] then None
        else if (case get_transaction_by_hash tx_hash d of None \<Rightarrow> False | Some e \<Rightarrow> tr_id e \<noteq> tr_id t) then None
        else if vd_ok verified then Some (tx_hash, extract_block_number candidate, verified) else None)"

definition fee_matches :: "settings \<Rightarrow> trans_row \<Rightarrow> db \<Rightarrow> json \<Rightarrow> (string \<times> fee_match) list" where
  "fee_matches c t d history =
     foldl (\<lambda>acc m. AList.update (py_lower (fst m)) m acc) []
       (List.map_filter (fee_match_of c t d) (iter_candidate_transactions history))"

datatype recovery = NothingFound | Ambiguous nat | RecoveryError string | Recovered string

definition recover_fee_hash :: "settings \<Rightarrow> trans_row \<Rightarrow> fee_match \<Rightarrow> recovery act" where
  "recover_fee_hash c t m = (case m of (tx_hash, block, verified) \<Rightarrow>
     bindA (commit_db (update_transaction_chain_details (tr_id t)
       \<lparr>ch_tx_hash = Some tx_hash, ch_from_address = vd_from verified, ch_to_address = vd_to verified,
        ch_amount = vd_amount verified, ch_block_number = block\<rparr>)) (\<lambda>_.
     bindA (readA (get_transaction (tr_id t))) (\<lambda>updated. case updated of
       None \<Rightarrow> returnA (RecoveryError ''intent disappeared after recovery'')
     | Some row \<Rightarrow> mapA (\<lambda>_. Recovered tx_hash)
         (in_transaction (mark_trans_as_confirmed c row block (Some verified))))))"

definition recover_fee_intent :: "services \<Rightarrow> trans_row \<Rightarrow> recovery act" where
  "recover_fee_intent sv t w =
    (let address = py_strip (tr_from_address t) in
     if address = [] then (Inr (RecoveryError ''missing sender''), w)
     else case get_chain_transactions_by_address (sv_http sv) address NIMIQ_ADDRESS_TX_LOOKUP_LIMIT None of
       Inl _ \<Rightarrow> (Inr (RecoveryError ''address history lookup failed''), w)
     | Inr history \<Rightarrow>
       (case fee_matches (sv_settings sv) t (wd_db w) history of
          [] \<Rightarrow> (Inr NothingFound, w)
        | [(_, m)] \<Rightarrow> recover_fee_hash (sv_settings sv) t m w
        | ms \<Rightarrow> (Inr (Ambiguous (length ms)), w)))"

text \<open>
  \<open>tried\<close> is when each row was tried before, in seconds of the monotonic clock; a
  row is tried at most once a minute.
\<close>

definition RECOVERY_INTERVAL_SECONDS :: int where
  [const_defs]: "RECOVERY_INTERVAL_SECONDS = 60"

fun recover_intents ::
  "services \<Rightarrow> int \<Rightarrow> (int \<times> int) list \<Rightarrow> trans_row list \<Rightarrow> ((int \<times> recovery) list \<times> (int \<times> int) list) act" where
  "recover_intents sv now tried [] = returnA ([], tried)"
| "recover_intents sv now tried (t # ts) =
    (if now - (case map_of tried (tr_id t) of None \<Rightarrow> 0 | Some l \<Rightarrow> l) < RECOVERY_INTERVAL_SECONDS
     then recover_intents sv now tried ts
     else bindA (recover_fee_intent sv t) (\<lambda>r.
          bindA (recover_intents sv now (AList.update (tr_id t) now tried) ts) (\<lambda>(rs, tried').
          returnA ((tr_id t, r) # rs, tried'))))"

definition local_fee_intent :: "trans_row \<Rightarrow> bool" where
  "local_fee_intent t \<longleftrightarrow> tr_type t = TRANS_TYPE_CREATION_FEE \<and> \<not> is_real_chain_hash (tr_tx_hash t)"

definition recover_local_creation_fee_intents ::
  "services \<Rightarrow> int \<Rightarrow> (int \<times> int) list \<Rightarrow> ((int \<times> recovery) list \<times> (int \<times> int) list) act" where
  "recover_local_creation_fee_intents sv now tried =
     bindA (readA (\<lambda>d. filter local_fee_intent (get_transactions_by_status TRANS_STATUS_PENDING MAX_LIMIT 0 d)))
       (recover_intents sv now tried)"

text \<open>The check pass as installed: recovery first, and fees of published Spots after it.\<close>

definition check_pending_with_recovery ::
  "services \<Rightarrow> int \<Rightarrow> (int \<times> int) list \<Rightarrow> trans_row list \<Rightarrow>
   ((int \<times> recovery) list \<times> (int \<times> check_outcome) list \<times> (int \<times> send_outcome res) list \<times> (int \<times> int) list) act" where
  "check_pending_with_recovery sv now tried pending =
     bindA (recover_local_creation_fee_intents sv now tried) (\<lambda>(recovery, tried').
     bindA (foldA (\<lambda>t done. bindA (check_and_settle sv t) (\<lambda>r. returnA (done @ [(tr_id t, r)]))) pending [])
       (\<lambda>checked. bindA (submit_ready_live_fees sv 50) (\<lambda>fees.
          returnA (recovery, checked, fees, tried'))))"

section \<open>Health report\<close>

text \<open>\<^verbatim>\<open>int(value or -1)\<close>: zero counts as missing.\<close>

definition or_minus_one :: "int \<Rightarrow> int" where
  "or_minus_one v = (if v = 0 then -1 else v)"

definition diagnostic_rows :: "db \<Rightarrow> trans_row list" where
  "diagnostic_rows d = concat (map (\<lambda>status. get_transactions_by_status status MAX_LIMIT 0 d)
     [TRANS_STATUS_PENDING, TRANS_STATUS_CONFIRMED, TRANS_STATUS_FAILED])"

definition type_name :: "int \<Rightarrow> string" where
  "type_name ty = (if ty = TRANS_TYPE_CREATION_FEE then ''creation_fee'' else if ty = TRANS_TYPE_CLAIM then ''claim_payout''
     else if ty = TRANS_TYPE_CANCEL_SPOT then ''spot_refund'' else if ty = TRANS_TYPE_PLAT_FEE then ''platform_fee'' else ''other'')"

definition state_name :: "int \<Rightarrow> string" where
  "state_name st = (if st = TRANS_STATUS_PENDING then ''pending'' else if st = TRANS_STATUS_CONFIRMED then ''confirmed''
     else if st = TRANS_STATUS_FAILED then ''failed'' else ''unknown'')"

record funding_counts =
  fd_pending_count :: int
  fd_local_intent_count :: int
  fd_by_type :: "string \<Rightarrow> string \<Rightarrow> int"
  fd_local_by_type :: "string \<Rightarrow> int"

definition funding_flow_diagnostics :: "db \<Rightarrow> funding_counts" where
  "funding_flow_diagnostics d =
    (let rows = diagnostic_rows d;
         name = (\<lambda>t. type_name (or_minus_one (tr_type t)));
         state = (\<lambda>t. state_name (or_minus_one (tr_status t)));
         pending = filter (\<lambda>t. or_minus_one (tr_status t) = TRANS_STATUS_PENDING) rows
     in \<lparr>fd_pending_count = int (length pending),
         fd_local_intent_count = count_where (\<lambda>t. \<not> is_real_chain_hash (tr_tx_hash t)) pending,
         fd_by_type = (\<lambda>n s. count_where (\<lambda>t. name t = n \<and> state t = s) rows),
         fd_local_by_type = (\<lambda>n. count_where (\<lambda>t. name t = n \<and> state t = ''pending''
            \<and> \<not> is_real_chain_hash (tr_tx_hash t)) rows)\<rparr>)"

text \<open>\<^verbatim>\<open>/transaction-healthz\<close> of \<^verbatim>\<open>main.py\<close>, from the state of the two workers.\<close>

record worker_status =
  wk_running :: bool
  wk_healthy :: bool

definition transaction_healthz :: "worker_status \<Rightarrow> worker_status \<Rightarrow> db \<Rightarrow> bool" where
  "transaction_healthz refresher settlement d \<longleftrightarrow>
     wk_running refresher \<and> wk_healthy refresher \<and> wk_running settlement \<and> wk_healthy settlement
     \<and> fd_local_intent_count (funding_flow_diagnostics d) = 0"

end
