(* ===== verification/FundingProps.thy ===== *)
theory FundingProps
  imports Funding DepositProps ChainProps
begin

text \<open>
  A creation fee is recorded once, whichever route records it. Recovering a lost fee hash takes the one chain transaction that can be it; the
  health report cannot see what it is there to report.
\<close>

section \<open>The creation fee\<close>

text \<open>Both routes to a creation fee record the same intent under the same conditions, except for the status.\<close>

lemma live_fee_cases:
  assumes "create_live_spot_fee dev u s a f t h d = Inr (i, d')"
  obtains r ef et where "get_spot s d = Some r"
    "sp_status r \<in> {SPOT_STATUS_DRAFT, SPOT_STATUS_PUBLISHED, SPOT_STATUS_COMPLETED}"
    "sp_cancellation_started_at r = None" "u = sp_created_by r" "0 < a" "a = spot_creation_fee_amount r"
    "normalise_nimiq_address dev (sp_deposit_address r) = Inr ef" "normalise_nimiq_address dev f = Inr ef"
    "normalise_nimiq_address dev (sp_creation_fee_address r) = Inr et" "normalise_nimiq_address dev t = Inr et"
    "spot_required_deposit_amount r \<le> get_confirmed_spot_deposit_total s d"
    "\<not> has_nonfailed_spot_creation_fee_transaction s d"
    "create_transaction u TRANS_TYPE_CREATION_FEE a ef et h (Some s) None d = Inr (i, d')"
proof (cases "create_spot_creation_fee_transaction dev u s a f t h d = Inr (i, d')")
  case True
  show ?thesis by (rule creation_fee_cases [OF True]) (rule that; simp)
next
  case False
  then have "\<exists>r ef et. get_spot s d = Some r \<and> sp_status r \<in> {SPOT_STATUS_PUBLISHED, SPOT_STATUS_COMPLETED}
      \<and> sp_cancellation_started_at r = None \<and> u = sp_created_by r \<and> 0 < a \<and> a = spot_creation_fee_amount r
      \<and> normalise_nimiq_address dev (sp_deposit_address r) = Inr ef \<and> normalise_nimiq_address dev f = Inr ef
      \<and> normalise_nimiq_address dev (sp_creation_fee_address r) = Inr et \<and> normalise_nimiq_address dev t = Inr et
      \<and> spot_required_deposit_amount r \<le> get_confirmed_spot_deposit_total s d
      \<and> \<not> has_nonfailed_spot_creation_fee_transaction s d
      \<and> create_transaction u TRANS_TYPE_CREATION_FEE a ef et h (Some s) None d = Inr (i, d')"
    using assms unfolding create_live_spot_fee_def
    by (auto simp: Let_def create_once_Inr not_less not_le elim!: bindE_InrE split: option.split_asm if_split_asm)
  then show ?thesis using that by blast
qed

lemma live_fee_refused:
  assumes "x \<in> set (db_trans d)" and "tr_type x = TRANS_TYPE_CREATION_FEE" and "tr_spot_id x = Some s"
    and "tr_status x \<noteq> TRANS_STATUS_FAILED"
  shows "\<not> is_ok (create_live_spot_fee dev u s a f t h d)"
    and "\<not> is_ok (create_spot_creation_fee_transaction dev u s a f t h d)"
proof -
  have "has_nonfailed_spot_creation_fee_transaction s d"
    using assms by (auto simp: has_nonfailed_spot_creation_fee_transaction_def list_ex_iff of_type_def)
  then show "\<not> is_ok (create_live_spot_fee dev u s a f t h d)"
    "\<not> is_ok (create_spot_creation_fee_transaction dev u s a f t h d)"
    by (auto simp: is_ok_iff elim!: live_fee_cases creation_fee_cases)
qed

text \<open>
  C14: The installed route to a creation fee records an intent only for an
  uncancelled draft, published or completed Spot whose confirmed deposits cover
  its value plus fee and whose earlier fee rows have all failed. The new row, the
  only change to the ledger, is pending and pays exactly the fee of the Spot
  snapshot from its deposit address to its fee address on behalf of its owner.
  Whatever the ledger operations do next, neither this route nor the one it
  replaces records another fee for the Spot unless that row has failed.
\<close>

theorem live_creation_fee_recorded_once:
  assumes r: "create_live_spot_fee dev u s a f t h d = Inr (i, d')" and ok: "db_ok d"
  shows "\<exists>sp ef et. get_spot s d = Some sp
      \<and> sp_status sp \<in> {SPOT_STATUS_DRAFT, SPOT_STATUS_PUBLISHED, SPOT_STATUS_COMPLETED}
      \<and> sp_cancellation_started_at sp = None \<and> sp_created_by sp = u
      \<and> a = max 0 (sp_creation_fee sp) \<and> 0 < a
      \<and> max 0 (sp_total_value sp) + a \<le> get_confirmed_spot_deposit_total s d
      \<and> (\<forall>x\<in>set (db_trans d). tr_type x = TRANS_TYPE_CREATION_FEE \<and> tr_spot_id x = Some s
           \<longrightarrow> tr_status x = TRANS_STATUS_FAILED)
      \<and> normalise_nimiq_address dev (sp_deposit_address sp) = Inr ef \<and> normalise_nimiq_address dev f = Inr ef
      \<and> normalise_nimiq_address dev (sp_creation_fee_address sp) = Inr et \<and> normalise_nimiq_address dev t = Inr et
      \<and> db_trans d' = db_trans d @ [\<lparr>tr_id = i, tr_user_id = u, tr_spot_id = Some s, tr_claim_id = None,
           tr_type = TRANS_TYPE_CREATION_FEE, tr_amount = a, tr_from_address = ef, tr_to_address = et,
           tr_tx_hash = h, tr_block_number = None, tr_status = TRANS_STATUS_PENDING,
           tr_created_at = db_now d, tr_completed_at = None\<rparr>]
      \<and> (\<forall>d2 u' a' f' t' h'. trans_run dev d' d2
           \<and> (is_ok (create_live_spot_fee dev u' s a' f' t' h' d2)
              \<or> is_ok (create_spot_creation_fee_transaction dev u' s a' f' t' h' d2))
           \<longrightarrow> (\<exists>x\<in>set (db_trans d2). tr_id x = i \<and> tr_status x = TRANS_STATUS_FAILED))"
proof -
  obtain sp ef et where c: "get_spot s d = Some sp"
    "sp_status sp \<in> {SPOT_STATUS_DRAFT, SPOT_STATUS_PUBLISHED, SPOT_STATUS_COMPLETED}"
    "sp_cancellation_started_at sp = None" "u = sp_created_by sp" "0 < a" "a = spot_creation_fee_amount sp"
    "normalise_nimiq_address dev (sp_deposit_address sp) = Inr ef" "normalise_nimiq_address dev f = Inr ef"
    "normalise_nimiq_address dev (sp_creation_fee_address sp) = Inr et" "normalise_nimiq_address dev t = Inr et"
    "spot_required_deposit_amount sp \<le> get_confirmed_spot_deposit_total s d"
    "\<not> has_nonfailed_spot_creation_fee_transaction s d"
    "create_transaction u TRANS_TYPE_CREATION_FEE a ef et h (Some s) None d = Inr (i, d')"
    by (rule live_fee_cases [OF r])
  have ok': "db_ok d'" using create_transaction_ok [OF c(13) ok] by simp
  let ?row = "\<lparr>tr_id = i, tr_user_id = u, tr_spot_id = Some s, tr_claim_id = None,
           tr_type = TRANS_TYPE_CREATION_FEE, tr_amount = a, tr_from_address = ef, tr_to_address = et,
           tr_tx_hash = h, tr_block_number = None, tr_status = TRANS_STATUS_PENDING,
           tr_created_at = db_now d, tr_completed_at = None\<rparr>"
  have row: "db_trans d' = db_trans d @ [?row]"
    using insert_trans_Inr(1) [OF c(13) [unfolded create_transaction_def]] by simp
  have once: "\<exists>x\<in>set (db_trans d2). tr_id x = i \<and> tr_status x = TRANS_STATUS_FAILED"
    if run: "trans_run dev d' d2" and again: "is_ok (create_live_spot_fee dev u' s a' f' t' h' d2)
              \<or> is_ok (create_spot_creation_fee_transaction dev u' s a' f' t' h' d2)" for d2 u' a' f' t' h'
  proof -
    have "ledger_grows d' d2" using trans_run_ok [OF run ok'] by simp
    then obtain x where x: "x \<in> set (db_trans d2)" "trans_step ?row x"
      unfolding ledger_grows_def using row by fastforce
    then have same: "tr_id x = i" "tr_type x = TRANS_TYPE_CREATION_FEE" "tr_spot_id x = Some s"
      by (auto simp: trans_step_def)
    then have "tr_status x = TRANS_STATUS_FAILED" using live_fee_refused [OF x(1) same(2,3)] again by blast
    then show ?thesis using x(1) same(1) by blast
  qed
  have failed: "\<forall>x\<in>set (db_trans d). tr_type x = TRANS_TYPE_CREATION_FEE \<and> tr_spot_id x = Some s
           \<longrightarrow> tr_status x = TRANS_STATUS_FAILED"
    using c(12) by (auto simp: has_nonfailed_spot_creation_fee_transaction_def list_ex_iff of_type_def)
  have amount: "a = max 0 (sp_creation_fee sp)" using c(6) by (simp add: spot_creation_fee_amount_def)
  have funded: "max 0 (sp_total_value sp) + a \<le> get_confirmed_spot_deposit_total s d"
    using c(11) amount by (simp add: spot_required_deposit_amount_def spot_creation_fee_amount_def)
  show ?thesis
    by (rule exI [of _ sp], rule exI [of _ ef], rule exI [of _ et])
      (intro conjI c(1-3) c(4) [symmetric] amount c(5) funded failed c(7-10) row allI impI, elim conjE, rule once)
qed

text \<open>The Spot of the sample draft after publication, its fee still missing.\<close>

definition sample_live_fee_db :: db where
  "sample_live_fee_db = sample_fee_db\<lparr>db_spots := map (\<lambda>s. s\<lparr>sp_status := SPOT_STATUS_PUBLISHED\<rparr>) (db_spots sample_fee_db)\<rparr>"

lemma sample_live_fee_db_ok: "db_ok sample_live_fee_db"
  by (simp add: sample_live_fee_db_def sample_fee_db_def sample_defs db_ok_defs user_check_def spot_check_def
      trans_check_def unique_on_def const_defs has_user_def has_spot_def claim_payout_slot_def
      cancellation_slot_def creation_fee_slot_def remainder_refund_slot_def)

theorem live_creation_fee_recorded_once_witness:
  "\<exists>i d'. create_live_spot_fee True 1 1 20000000 ''NQ00 NIMHUNT DEV SPOT DEPOSIT 1''
       ''NQ00 NIMHUNT DEV CANCELLATION FEE POOL'' ''h2'' sample_live_fee_db = Inr (i, d')
     \<and> length (db_trans d') = Suc (length (db_trans sample_live_fee_db))
     \<and> \<not> is_ok (create_live_spot_fee True 1 1 20000000 ''NQ00 NIMHUNT DEV SPOT DEPOSIT 1''
       ''NQ00 NIMHUNT DEV CANCELLATION FEE POOL'' ''h3'' d')"
proof -
  have "gives (create_live_spot_fee True 1 1 20000000 ''NQ00 NIMHUNT DEV SPOT DEPOSIT 1''
       ''NQ00 NIMHUNT DEV CANCELLATION FEE POOL'' ''h2'' sample_live_fee_db) (\<lambda>(i, d').
       list_all (\<lambda>x. tr_id x = i \<longrightarrow> tr_status x \<noteq> TRANS_STATUS_FAILED) (db_trans d'))" by code_simp
  then obtain i d' where r: "create_live_spot_fee True 1 1 20000000 ''NQ00 NIMHUNT DEV SPOT DEPOSIT 1''
       ''NQ00 NIMHUNT DEV CANCELLATION FEE POOL'' ''h2'' sample_live_fee_db = Inr (i, d')"
    and n: "\<not> (\<exists>x\<in>set (db_trans d'). tr_id x = i \<and> tr_status x = TRANS_STATUS_FAILED)"
    by (auto simp: gives_iff list_all_iff)
  note T = live_creation_fee_recorded_once [OF r sample_live_fee_db_ok]
  have "length (db_trans d') = Suc (length (db_trans sample_live_fee_db))" using T by auto
  moreover have "\<not> is_ok (create_live_spot_fee True 1 1 20000000 ''NQ00 NIMHUNT DEV SPOT DEPOSIT 1''
       ''NQ00 NIMHUNT DEV CANCELLATION FEE POOL'' ''h3'' d')"
    using T trans_run.start [of True d'] n by blast
  ultimately show ?thesis using r by blast
qed

section \<open>Recovering a lost fee hash\<close>

text \<open>A successful chain transaction with the sender, the recipient and the exact amount of a row.\<close>

definition chain_pays :: "settings \<Rightarrow> trans_row \<Rightarrow> json \<Rightarrow> bool" where
  "chain_pays c t raw \<longleftrightarrow> \<not> execution_result_is_failure raw
     \<and> (\<exists>from_addr to_addr. extract_chain_from_address c raw = Some from_addr
        \<and> normalise_address_for_compare c (tr_from_address t) = Some from_addr
        \<and> extract_chain_to_address c raw = Some to_addr
        \<and> normalise_address_for_compare c (tr_to_address t) = Some to_addr)
     \<and> extract_chain_amount raw = Some (tr_amount t)"

definition hash_of :: "json \<Rightarrow> string" where
  "hash_of raw = py_strip (case extract_chain_hash raw of None \<Rightarrow> [] | Some h \<Rightarrow> h)"

definition taken :: "string \<Rightarrow> trans_row \<Rightarrow> db \<Rightarrow> bool" where
  "taken h t d \<longleftrightarrow> (\<exists>e\<in>set (db_trans d). tr_tx_hash e = h \<and> tr_id e \<noteq> tr_id t)"

lemma verify_direct_pays:
  assumes "tr_type t \<noteq> TRANS_TYPE_FILL_SPOT"
  shows "vd_ok (verify_direct c t raw) \<longleftrightarrow> chain_pays c t raw"
proof
  assume "vd_ok (verify_direct c t raw)"
  then show "chain_pays c t raw" by (rule verify_direct_ok) (use assms in \<open>auto simp: chain_pays_def\<close>)
next
  assume "chain_pays c t raw"
  then show "vd_ok (verify_direct c t raw)" using assms by (auto simp: chain_pays_def verify_direct_def Let_def)
qed

lemma by_hash_taken:
  assumes "db_ok d"
  shows "(case get_transaction_by_hash h d of None \<Rightarrow> False | Some e \<Rightarrow> tr_id e \<noteq> tr_id t) \<longleftrightarrow> taken h t d"
proof -
  have v: "view_trans_detail d = db_trans d"
    unfolding view_trans_detail_def using assms by (intro filter_True) (auto simp: db_ok_def trans_ok_def list_all_iff)
  have u: "e = e'" if "e \<in> set (db_trans d)" "e' \<in> set (db_trans d)" "tr_tx_hash e = tr_tx_hash e'" for e e'
    using assms that by (auto simp: db_ok_def trans_ok_def distinct_map inj_on_def)
  show ?thesis
  proof (cases "get_transaction_by_hash h d")
    case None
    then have "\<forall>e\<in>set (db_trans d). tr_tx_hash e \<noteq> h" by (simp add: get_transaction_by_hash_def v find_None_iff)
    then show ?thesis using None by (auto simp: taken_def)
  next
    case (Some e)
    then have "e \<in> set (db_trans d)" "tr_tx_hash e = h" by (auto simp: get_transaction_by_hash_def v find_Some_iff)
    then show ?thesis using Some u by (auto simp: taken_def)
  qed
qed

lemma fee_match_Some:
  assumes "db_ok d" and "tr_type t = TRANS_TYPE_CREATION_FEE"
  shows "fee_match_of c t d raw = Some m \<longleftrightarrow> hash_of raw \<noteq> [] \<and> \<not> taken (hash_of raw) t d \<and> chain_pays c t raw
    \<and> m = (hash_of raw, extract_block_number raw, verify_direct c t raw)"
proof -
  have "tr_type t \<noteq> TRANS_TYPE_FILL_SPOT" using assms(2) by (simp add: const_defs)
  note v = verify_direct_pays [OF this]
  have "fee_match_of c t d raw = (if hash_of raw = [] then None
        else if taken (hash_of raw) t d then None
        else if chain_pays c t raw then Some (hash_of raw, extract_block_number raw, verify_direct c t raw) else None)"
    unfolding fee_match_of_def Let_def hash_of_def [symmetric] by_hash_taken [OF assms(1)] v ..
  then show ?thesis by auto
qed

lemma set_update_subset: "set (AList.update k v al) \<subseteq> insert (k, v) (set al)"
  by (induction al) auto

lemma folded_matches:
  "set (foldl (\<lambda>acc m. AList.update (py_lower (fst m)) m acc) acc ms) \<subseteq> set acc \<union> (\<lambda>m. (py_lower (fst m), m)) ` set ms
   \<and> fst ` set (foldl (\<lambda>acc m. AList.update (py_lower (fst m)) m acc) acc ms) = fst ` set acc \<union> (py_lower \<circ> fst) ` set ms"
proof (induction ms arbitrary: acc)
  case (Cons m ms)
  have "fst ` set (AList.update (py_lower (fst m)) m acc) = insert (py_lower (fst m)) (fst ` set acc)"
    by (simp add: dom_update)
  then show ?case using Cons.IH [of "AList.update (py_lower (fst m)) m acc"] set_update_subset [of "py_lower (fst m)" m acc]
    by auto
qed simp

lemma single_fee_match:
  assumes one: "fee_matches c t d history = [(k, m)]" and ok: "db_ok d" "tr_type t = TRANS_TYPE_CREATION_FEE"
  obtains raw where "raw \<in> set (iter_candidate_transactions history)" "chain_pays c t raw" "hash_of raw \<noteq> []"
    "\<not> taken (hash_of raw) t d" "m = (hash_of raw, extract_block_number raw, verify_direct c t raw)"
    "\<forall>raw'\<in>set (iter_candidate_transactions history). chain_pays c t raw' \<and> hash_of raw' \<noteq> []
       \<longrightarrow> taken (hash_of raw') t d \<or> py_lower (hash_of raw') = py_lower (hash_of raw)"
proof -
  let ?ms = "List.map_filter (fee_match_of c t d) (iter_candidate_transactions history)"
  have fold: "set [(k, m)] \<subseteq> (\<lambda>m. (py_lower (fst m), m)) ` set ?ms" "fst ` set [(k, m)] = (py_lower \<circ> fst) ` set ?ms"
    using folded_matches [of "[]" ?ms] one unfolding fee_matches_def by auto
  then have "m \<in> set ?ms" "k = py_lower (fst m)" by auto
  then obtain raw where raw: "raw \<in> set (iter_candidate_transactions history)" "fee_match_of c t d raw = Some m"
    by (auto simp: List.map_filter_def)
  note M = raw(2) [unfolded fee_match_Some [OF ok]]
  have "py_lower (hash_of raw') = py_lower (hash_of raw)"
    if "raw' \<in> set (iter_candidate_transactions history)" "chain_pays c t raw'" "hash_of raw' \<noteq> []" "\<not> taken (hash_of raw') t d" for raw'
  proof -
    have "fee_match_of c t d raw' = Some (hash_of raw', extract_block_number raw', verify_direct c t raw')"
      using that by (simp add: fee_match_Some [OF ok])
    then have "(hash_of raw', extract_block_number raw', verify_direct c t raw') \<in> set ?ms"
      unfolding List.map_filter_def set_map set_filter by (intro image_eqI [of _ _ raw']) (use that(1) in simp_all)
    then have "py_lower (hash_of raw') \<in> (py_lower \<circ> fst) ` set ?ms" by force
    then show ?thesis using fold(2) M \<open>k = py_lower (fst m)\<close> by auto
  qed
  then show thesis using that raw(1) M by blast
qed

lemma confirm_forward:
  assumes "confirm_status i b d = Inr d'" and "t \<in> set (db_trans d)" and "tr_id t = i" and "tr_status t = TRANS_STATUS_PENDING"
  shows "\<exists>t'\<in>set (db_trans d'). tr_id t' = i \<and> tr_status t' = TRANS_STATUS_CONFIRMED \<and> tr_type t' = tr_type t
    \<and> tr_tx_hash t' = tr_tx_hash t \<and> tr_amount t' = tr_amount t"
proof -
  have fwd: "complete_trans (db_now d) t (f t) \<in> set (db_trans d')" if "settle_status i st m f d = Inr d'" for st m f
    using settle_status_Inr [OF that] assms(2-4) by (auto simp: update_trans_def write_trans_Inr set_update_where)
  show ?thesis
  proof (cases b)
    case None
    then show ?thesis
      using assms(1,3) fwd [of TRANS_STATUS_CONFIRMED _ "\<lambda>t. t\<lparr>tr_status := TRANS_STATUS_CONFIRMED\<rparr>"]
      by (intro bexI [of _ "complete_trans (db_now d) t (t\<lparr>tr_status := TRANS_STATUS_CONFIRMED\<rparr>)"])
        (auto simp: confirm_status_def modify_transaction_status_def)
  next
    case (Some n)
    let ?f = "\<lambda>t. coalesce_completed (db_now d) (t\<lparr>tr_status := TRANS_STATUS_CONFIRMED, tr_block_number := Some n\<rparr>)"
    show ?thesis
      using assms(1,3) fwd [of TRANS_STATUS_CONFIRMED _ ?f] Some
      by (intro bexI [of _ "complete_trans (db_now d) t (?f t)"])
        (auto simp: confirm_status_def set_transaction_status_to_confirmed_def coalesce_completed_def)
  qed
qed


lemma recover_hash_cases:
  assumes rec: "recover_fee_hash c t (h, b, v) w = (r, w')" and ok: "db_ok (wd_db w)"
    and mem: "t \<in> set (db_trans (wd_db w))" "tr_status t = TRANS_STATUS_PENDING" "tr_type t = TRANS_TYPE_CREATION_FEE"
    and v: "vd_ok v" "vd_amount v = Some (tr_amount t)" and h: "py_strip h = h"
  obtains (failed) e where "r = Inl e" "wd_sent w' = wd_sent w" "step_ok (wd_db w) (wd_db w')"
    | (recovered) t' where "r = Inr (Recovered h)" "wd_sent w' = wd_sent w" "step_ok (wd_db w) (wd_db w')"
        "t' \<in> set (db_trans (wd_db w'))" "tr_id t' = tr_id t" "tr_status t' = TRANS_STATUS_CONFIRMED"
        "tr_type t' = tr_type t" "tr_tx_hash t' = h" "tr_amount t' = tr_amount t"
proof -
  let ?d = "wd_db w"
  let ?det = "\<lparr>ch_tx_hash = Some h, ch_from_address = vd_from v, ch_to_address = vd_to v, ch_amount = vd_amount v, ch_block_number = b\<rparr>"
  show thesis
  proof (cases "update_transaction_chain_details (tr_id t) ?det ?d")
    case (Inl e)
    then show thesis using rec failed [of e]
      by (simp add: recover_fee_hash_def bindA_def commit_db_def in_transaction_def)
  next
    case (Inr d1)
    let ?t1 = "set_details ?det t"
    have t1: "?t1 \<in> set (db_trans d1)" by (rule update_details_written [OF Inr mem(1)]) simp_all
    have p1: "tr_id ?t1 = tr_id t" "tr_status ?t1 = TRANS_STATUS_PENDING" "tr_type ?t1 = tr_type t" "tr_tx_hash ?t1 = h"
      "tr_amount ?t1 = tr_amount t" using mem v h by (simp_all add: set_details_def)
    have s1: "step_ok ?d d1" by (rule details_step [OF Inr])
    then have ok1: "db_ok d1" using ok by (simp add: step_ok_def)
    have f: "find_row tr_id (tr_id t) (db_trans d1) = Some ?t1"
      using find_row_distinct [of tr_id "db_trans d1" ?t1] ok1 t1 p1(1) by (simp add: db_ok_def trans_ok_def)
    have g: "get_transaction (tr_id t) d1 = Some ?t1" by (rule find_trans(3) [OF ok1 f])
    show thesis
    proof (cases "mark_trans_as_confirmed c ?t1 b (Some v) d1")
      case e: (Inl e)
      then have "r = Inl e" "w' = w\<lparr>wd_db := d1\<rparr>"
        using rec Inr g by (simp_all add: recover_fee_hash_def bindA_def commit_db_def in_transaction_def readA_def mapA_def)
      then show thesis using failed [of e] s1 by simp
    next
      case m: (Inr y)
      obtain x d2 where y: "y = (x, d2)" by (cases y)
      note mc = m [unfolded y]
      have out: "r = Inr (Recovered h)" "w' = w\<lparr>wd_db := d2\<rparr>"
        using rec Inr g mc
        by (simp_all add: recover_fee_hash_def bindA_def commit_db_def in_transaction_def readA_def mapA_def returnA_def)
      have s2: "step_ok ?d d2" by (rule step_ok_trans [OF s1 mark_confirmed_step [OF mc]])
      have nofill: "\<not> funding_mismatch c ?t1 v d1" using p1(3) mem(3) by (simp add: funding_mismatch_def const_defs)
      let ?det2 = "\<lparr>ch_tx_hash = None, ch_from_address = vd_from v, ch_to_address = vd_to v, ch_amount = vd_amount v, ch_block_number = b\<rparr>"
      obtain da db dc where u: "update_transaction_chain_details (tr_id ?t1) ?det2 d1 = Inr da"
          and cs: "confirm_status (tr_id ?t1) b da = Inr db"
          and w: "settle_winner (claim_transaction_is_completed_prizedraw_payout ?t1 d1) (tr_claim_id ?t1) db = Inr dc"
          and fin: "finalize_cancelled_spot_if_ready (tr_spot_id ?t1) dc = Inr (mr_cancelled_finalized x, d2)"
        by (rule mark_confirmed_cases [OF mc]) (use nofill v(1) in auto)
      obtain ta where ta: "ta \<in> set (db_trans da)" "tr_id ta = tr_id t" "tr_status ta = TRANS_STATUS_PENDING"
          "tr_type ta = tr_type t" "tr_tx_hash ta = h" "tr_amount ta = tr_amount t"
        using update_details_row [OF u t1 refl] p1 v(2) by (auto simp: set_details_def)
      obtain tb where tb: "tb \<in> set (db_trans db)" "tr_id tb = tr_id t" "tr_status tb = TRANS_STATUS_CONFIRMED"
          "tr_type tb = tr_type ta" "tr_tx_hash tb = tr_tx_hash ta" "tr_amount tb = tr_amount ta"
        using confirm_forward [OF cs ta(1)] ta p1(1) by auto
      have "db_ok da" using details_step [OF u] ok1 by (simp add: step_ok_def)
      then have "db_ok db" using confirm_step [OF cs] by (simp add: step_ok_def)
      then have "tb \<in> set (db_trans d2)" using tb(1) winner_trans [OF w] finalize_trans [OF fin] by simp
      then show thesis by (intro recovered [of tb]) (use out s2 tb ta in simp_all)
    qed
  qed
qed

text \<open>
  C38: A creation fee whose hash was lost is recovered only when the history of the
  deposit address holds exactly one successful transaction (up to the case of its
  hash) from the row's sender to its recipient over its exact amount that belongs
  to no other row. The row is then confirmed with that hash, which no other row
  has. In every other case, and whatever the node answers, no request is made, and
  nothing changes unless the database refused a write halfway.
\<close>

theorem recovered_fee_exact:
  assumes rec: "recover_fee_intent sv t w = (r, w')" and ok: "db_ok (wd_db w)"
    and mem: "t \<in> set (db_trans (wd_db w))" "tr_status t = TRANS_STATUS_PENDING" "tr_type t = TRANS_TYPE_CREATION_FEE"
  shows "wd_sent w' = wd_sent w \<and> db_ok (wd_db w') \<and> ledger_grows (wd_db w) (wd_db w')
    \<and> (is_ok r \<longrightarrow> w' = w \<and> (\<forall>h. r \<noteq> Inr (Recovered h)) \<or>
        (\<exists>history raw t'. get_chain_transactions_by_address (sv_http sv) (py_strip (tr_from_address t))
            NIMIQ_ADDRESS_TX_LOOKUP_LIMIT None = Inr history
          \<and> raw \<in> set (iter_candidate_transactions history) \<and> chain_pays (sv_settings sv) t raw
          \<and> r = Inr (Recovered (hash_of raw)) \<and> \<not> taken (hash_of raw) t (wd_db w)
          \<and> (\<forall>raw'\<in>set (iter_candidate_transactions history). chain_pays (sv_settings sv) t raw' \<and> hash_of raw' \<noteq> []
               \<longrightarrow> taken (hash_of raw') t (wd_db w) \<or> py_lower (hash_of raw') = py_lower (hash_of raw))
          \<and> t' \<in> set (db_trans (wd_db w')) \<and> tr_id t' = tr_id t \<and> tr_type t' = TRANS_TYPE_CREATION_FEE
          \<and> tr_status t' = TRANS_STATUS_CONFIRMED \<and> tr_tx_hash t' = hash_of raw \<and> tr_amount t' = tr_amount t))"
proof -
  let ?c = "sv_settings sv" and ?d = "wd_db w"
  consider (same) "w' = w" "\<forall>h. r \<noteq> Inr (Recovered h)"
    | (one) history k m where "get_chain_transactions_by_address (sv_http sv) (py_strip (tr_from_address t))
            NIMIQ_ADDRESS_TX_LOOKUP_LIMIT None = Inr history"
        "fee_matches ?c t ?d history = [(k, m)]" "recover_fee_hash ?c t m w = (r, w')"
    using rec unfolding recover_fee_intent_def Let_def
    by (auto split: if_split_asm sum.split_asm list.split_asm prod.split_asm)
  then show ?thesis
  proof cases
    case same
    then show ?thesis using ok by auto
  next
    case (one history k m)
    show ?thesis
    proof (rule single_fee_match [OF one(2) ok mem(3)])
      fix raw assume raw: "raw \<in> set (iter_candidate_transactions history)" "chain_pays ?c t raw" "hash_of raw \<noteq> []"
        "\<not> taken (hash_of raw) t ?d" "m = (hash_of raw, extract_block_number raw, verify_direct ?c t raw)"
        "\<forall>raw'\<in>set (iter_candidate_transactions history). chain_pays ?c t raw' \<and> hash_of raw' \<noteq> []
           \<longrightarrow> taken (hash_of raw') t ?d \<or> py_lower (hash_of raw') = py_lower (hash_of raw)"
      have nofill: "tr_type t \<noteq> TRANS_TYPE_FILL_SPOT" using mem(3) by (simp add: const_defs)
      then have v: "vd_ok (verify_direct ?c t raw)" using verify_direct_pays raw(2) by blast
      have va: "vd_amount (verify_direct ?c t raw) = Some (tr_amount t)"
        by (rule verify_direct_ok [OF v]) (use nofill in auto)
      have hs: "py_strip (hash_of raw) = hash_of raw" by (simp add: hash_of_def)
      show ?thesis
      proof (rule recover_hash_cases [OF one(3) [unfolded raw(5)] ok mem v va hs])
        fix e assume "r = Inl e" "wd_sent w' = wd_sent w" "step_ok ?d (wd_db w')"
        then show ?thesis using ok by (auto simp: step_ok_def is_ok_def)
      next
        fix t' assume "r = Inr (Recovered (hash_of raw))" "wd_sent w' = wd_sent w" "step_ok ?d (wd_db w')"
          "t' \<in> set (db_trans (wd_db w'))" "tr_id t' = tr_id t" "tr_status t' = TRANS_STATUS_CONFIRMED"
          "tr_type t' = tr_type t" "tr_tx_hash t' = hash_of raw" "tr_amount t' = tr_amount t"
        moreover from this have "db_ok (wd_db w') \<and> ledger_grows ?d (wd_db w')" using ok by (simp add: step_ok_def)
        ultimately show ?thesis using one(1) raw mem(3) by (intro conjI impI disjI2 exI [of _ history] exI [of _ raw] exI [of _ t']) simp_all
      qed
    qed
  qed
qed


definition lost_fee :: trans_row where
  "lost_fee = sample_deposit\<lparr>tr_id := 2, tr_type := TRANS_TYPE_CREATION_FEE, tr_amount := 25000000,
     tr_from_address := ''NQ00 NIMHUNT DEV SPOT DEPOSIT 1'',
     tr_to_address := ''NQ07 0000 0000 0000 0000 0000 0000 0000 0000'',
     tr_tx_hash := ''NIMHUNT_INTENT:creation_fee:1:t'', tr_status := TRANS_STATUS_PENDING, tr_completed_at := None\<rparr>"

definition lost_fee_db :: db where
  "lost_fee_db = sample_db\<lparr>db_trans := db_trans sample_db @ [lost_fee], db_trans_seq := 2\<rparr>"

definition lost_fee_world :: world where
  "lost_fee_world = sample_world\<lparr>wd_db := lost_fee_db\<rparr>"

definition node_services :: services where
  "node_services = sample_services\<lparr>sv_settings := sample_settings, sv_http := sample_http\<rparr>"

lemma lost_fee_db_ok: "db_ok lost_fee_db"
  by (simp add: lost_fee_db_def lost_fee_def sample_defs db_ok_defs user_check_def spot_check_def trans_check_def unique_on_def
      const_defs has_user_def has_spot_def claim_payout_slot_def cancellation_slot_def claim_check_def
      creation_fee_slot_def remainder_refund_slot_def)

lemma recovered_fee_exact_witness:
  "\<exists>w' t'. recover_fee_intent node_services lost_fee lost_fee_world = (Inr (Recovered (replicate 64 CHR ''A'')), w')
    \<and> t' \<in> set (db_trans (wd_db w')) \<and> tr_id t' = 2 \<and> tr_status t' = TRANS_STATUS_CONFIRMED \<and> wd_sent w' = []"
proof -
  let ?run = "recover_fee_intent node_services lost_fee lost_fee_world"
  have f: "fst ?run = Inr (Recovered (replicate 64 CHR ''A''))" by code_simp
  obtain r w' where run: "?run = (r, w')" by (cases ?run)
  have w: "wd_db lost_fee_world = lost_fee_db" "wd_sent lost_fee_world = []"
    by (simp_all add: lost_fee_world_def sample_world_def)
  have "db_ok (wd_db lost_fee_world)" "lost_fee \<in> set (db_trans (wd_db lost_fee_world))"
    using lost_fee_db_ok by (simp_all add: w lost_fee_db_def)
  moreover have "tr_status lost_fee = TRANS_STATUS_PENDING" "tr_type lost_fee = TRANS_TYPE_CREATION_FEE" "tr_id lost_fee = 2"
    by (simp_all add: lost_fee_def)
  ultimately have "\<exists>t'. t' \<in> set (db_trans (wd_db w')) \<and> tr_id t' = 2 \<and> tr_status t' = TRANS_STATUS_CONFIRMED" "wd_sent w' = []"
    using recovered_fee_exact [OF run] f run w by (auto simp: is_ok_def)
  then show ?thesis using f run by auto
qed

section \<open>The health report\<close>

lemma or_minus_one_not_zero [simp]: "or_minus_one v \<noteq> 0"
  by (simp add: or_minus_one_def)

text \<open>
  The health report never counts a pending transaction: \<^verbatim>\<open>int(status or -1)\<close>
  turns the status 0 of a pending row into -1. So on every database the report
  shows no pending transaction and no intent without a chain hash, and
  \<^verbatim>\<open>/transaction-healthz\<close> is green whenever both workers run, although it is there
  to turn red for such an intent.
\<close>

theorem health_report_blind:
  "fd_pending_count (funding_flow_diagnostics d) = 0 \<and> fd_local_intent_count (funding_flow_diagnostics d) = 0
   \<and> fd_by_type (funding_flow_diagnostics d) name ''pending'' = 0
   \<and> fd_local_by_type (funding_flow_diagnostics d) name = 0
   \<and> transaction_healthz refresher settlement d =
       (wk_running refresher \<and> wk_healthy refresher \<and> wk_running settlement \<and> wk_healthy settlement)"
proof -
  have no: "or_minus_one st \<noteq> TRANS_STATUS_PENDING" for st by (simp add: const_defs)
  then have "state_name (or_minus_one st) \<noteq> ''pending''" for st by (simp add: state_name_def)
  then show ?thesis
    by (simp add: funding_flow_diagnostics_def transaction_healthz_def Let_def no count_where_def)
qed

text \<open>The stuck intent of \<open>lost_fee_db\<close> is one that the report does not show.\<close>

lemma health_report_misses_lost_fee:
  "local_fee_intent lost_fee \<and> lost_fee \<in> set (get_transactions_by_status TRANS_STATUS_PENDING MAX_LIMIT 0 lost_fee_db)
   \<and> transaction_healthz \<lparr>wk_running = True, wk_healthy = True\<rparr> \<lparr>wk_running = True, wk_healthy = True\<rparr> lost_fee_db"
  by code_simp

end
