(* ===== verification/Moderation.thy ===== *)
theory Moderation
  imports Payments Reports
begin

text \<open>
  \<^verbatim>\<open>admin_moderation.py\<close> with the tables of \<^verbatim>\<open>admin_store.py\<close>: banning a Spot,
  sweeping its unspent balance to the operator's address, and the gate that keeps
  a banned Spot from paying rewards. The two admin tables are a record next to the
  world; audit details are left out, and so are notifications of the cache.
\<close>

section \<open>The admin tables (\<^verbatim>\<open>admin_store.py\<close>)\<close>

datatype ban_state = PendingSweep | Swept | SweepBlocked

record ban_row =
  bn_spot_id :: int
  bn_report_id :: "int option"
  bn_reason :: "string option"
  bn_state :: ban_state
  bn_sweep_trans_id :: "int option"
  bn_sweep_amount :: int
  bn_created_at :: int
  bn_updated_at :: int

record audit_row =
  au_id :: int
  au_action :: string
  au_target_type :: string
  au_target_id :: "int option"
  au_created_at :: int

record admin_state =
  ad_bans :: "ban_row list"
  ad_audit :: "audit_row list"

definition clean_reason :: "string option \<Rightarrow> string option" where
  "clean_reason reason = (let r = take 2000 (py_strip (case reason of None \<Rightarrow> [] | Some s \<Rightarrow> s))
     in if r = [] then None else Some r)"

definition get_ban_record :: "int \<Rightarrow> admin_state \<Rightarrow> ban_row option" where
  "get_ban_record spot_id ad = find (\<lambda>b. bn_spot_id b = spot_id) (ad_bans ad)"

definition first_of :: "'a option \<Rightarrow> 'a option \<Rightarrow> 'a option" where
  "first_of a b = (case a of None \<Rightarrow> b | Some x \<Rightarrow> Some x)"

definition upsert_ban_record ::
  "int \<Rightarrow> int \<Rightarrow> int option \<Rightarrow> string option \<Rightarrow> ban_state \<Rightarrow> int option \<Rightarrow> int \<Rightarrow> admin_state \<Rightarrow> admin_state" where
  "upsert_ban_record now spot_id report_id reason state sweep_trans_id sweep_amount ad =
    (case get_ban_record spot_id ad of
       None \<Rightarrow> ad\<lparr>ad_bans := ad_bans ad @ [\<lparr>bn_spot_id = spot_id, bn_report_id = report_id,
         bn_reason = clean_reason reason, bn_state = state, bn_sweep_trans_id = sweep_trans_id,
         bn_sweep_amount = max 0 sweep_amount, bn_created_at = now, bn_updated_at = now\<rparr>]\<rparr>
     | Some _ \<Rightarrow> ad\<lparr>ad_bans := update_where (\<lambda>b. bn_spot_id b = spot_id) (\<lambda>b. b\<lparr>
         bn_report_id := first_of report_id (bn_report_id b),
         bn_reason := first_of (clean_reason reason) (bn_reason b), bn_state := state,
         bn_sweep_trans_id := first_of sweep_trans_id (bn_sweep_trans_id b),
         bn_sweep_amount := (if 0 < sweep_amount then sweep_amount else bn_sweep_amount b),
         bn_updated_at := now\<rparr>) (ad_bans ad)\<rparr>)"

definition record_audit :: "int \<Rightarrow> string \<Rightarrow> string \<Rightarrow> int option \<Rightarrow> admin_state \<Rightarrow> admin_state" where
  "record_audit now action target_type target_id ad = ad\<lparr>ad_audit := ad_audit ad @
     [\<lparr>au_id = int (length (ad_audit ad)) + 1, au_action = take 120 (py_strip action),
       au_target_type = take 80 (py_strip target_type), au_target_id = target_id, au_created_at = now\<rparr>]\<rparr>"

definition pending_banned_spot_ids :: "int \<Rightarrow> admin_state \<Rightarrow> int list" where
  "pending_banned_spot_ids limit ad = take (nat (max 1 (min limit 100)))
     (map bn_spot_id (sort_key bn_updated_at (sort_key bn_spot_id (filter (\<lambda>b. bn_state b \<noteq> Swept) (ad_bans ad)))))"

definition recent_audit :: "int \<Rightarrow> admin_state \<Rightarrow> audit_row list" where
  "recent_audit limit ad = take (nat (max 1 (min limit 100)))
     (sort_key (\<lambda>a. - au_created_at a) (sort_key (\<lambda>a. - au_id a) (ad_audit ad)))"

definition set_report_status :: "int \<Rightarrow> int \<Rightarrow> string option \<Rightarrow> db \<Rightarrow> db res" where
  "set_report_status report_id status moderator_note d =
    (let P = (\<lambda>r. rp_id r = report_id);
         f = (\<lambda>r. review_stamp (db_now d) r (r\<lparr>rp_status := status, rp_moderator_note := clean_reason moderator_note\<rparr>));
         rows = update_where P f (db_reports d)
     in if status \<notin> {REPORT_STATUS_PENDING, REPORT_STATUS_APPROVED, REPORT_STATUS_DISMISSED}
        then Inl (ValueError ''invalid report status'')
        else if \<not> list_all report_check rows then Inl (IntegrityError ''CHECK constraint failed: report'')
        else if count_where P (db_reports d) \<noteq> 1 then Inl (ValueError ''report does not exist'')
        else Inr (d\<lparr>db_reports := rows\<rparr>))"

definition set_user_status :: "int \<Rightarrow> int \<Rightarrow> db \<Rightarrow> db res" where
  "set_user_status user_id status =
    (if status = USER_STATUS_ACTIVE then set_user_status_to_active user_id
     else if status = USER_STATUS_LIMITED then set_user_status_to_limited user_id
     else if status = USER_STATUS_BANNED then set_user_status_to_banned user_id
     else (\<lambda>d. Inl (ValueError ''invalid user status'')))"

definition pending_reports :: "int \<Rightarrow> db \<Rightarrow> report_row list" where
  "pending_reports limit d = take (nat (max 1 (min limit 100)))
     (sort_key rp_created_at (sort_key rp_id (filter (\<lambda>r. rp_status r = REPORT_STATUS_PENDING) (view_report_detail d))))"

definition spot_creation_leaderboard :: "int \<Rightarrow> db \<Rightarrow> (int \<times> int) list" where
  "spot_creation_leaderboard limit d = take (nat (max 1 (min limit 50)))
     (sort_key (\<lambda>r. - snd r) (sort_key fst
       (map (\<lambda>u. (us_id u, count_where (\<lambda>s. sp_created_by s = us_id u) (db_spots d)))
         (filter (\<lambda>u. list_ex (\<lambda>s. sp_created_by s = us_id u) (db_spots d)) (db_users d)))))"

section \<open>The balance of a banned Spot\<close>

record financial_state =
  fs_pending :: "trans_row list"
  fs_confirmed_deposits :: int
  fs_confirmed_outgoing :: int
  fs_remaining :: int

definition spot_financial_state :: "trans_row list \<Rightarrow> financial_state" where
  "spot_financial_state transactions =
    (let deposits = sum_where tr_amount (\<lambda>t. tr_type t = TRANS_TYPE_FILL_SPOT \<and> tr_status t = TRANS_STATUS_CONFIRMED) transactions;
         outgoing = sum_where tr_amount (\<lambda>t. tr_type t \<noteq> TRANS_TYPE_FILL_SPOT \<and> tr_status t = TRANS_STATUS_CONFIRMED) transactions
     in \<lparr>fs_pending = filter (\<lambda>t. tr_status t = TRANS_STATUS_PENDING) transactions,
         fs_confirmed_deposits = deposits, fs_confirmed_outgoing = outgoing,
         fs_remaining = max 0 (deposits - outgoing)\<rparr>)"

definition committed_payout :: "db \<Rightarrow> int \<Rightarrow> bool" where
  "committed_payout d claim_id \<longleftrightarrow> list_ex (\<lambda>t. tr_claim_id t = Some claim_id \<and> tr_type t = TRANS_TYPE_CLAIM
     \<and> tr_status t \<noteq> TRANS_STATUS_FAILED) (db_trans d)"

definition fail_claims_without_committed_payout :: "int \<Rightarrow> db \<Rightarrow> (int \<times> db) res" where
  "fail_claims_without_committed_payout spot_id d =
    (let P = (\<lambda>c. cl_spot_id c = spot_id \<and> cl_status c \<noteq> CLAIM_STATUS_FAILED \<and> \<not> committed_payout d (cl_id c))
     in bindE (update_claims True P (\<lambda>c. c\<lparr>cl_status := CLAIM_STATUS_FAILED\<rparr>) d) (\<lambda>d'.
        Inr (count_where P (db_claims d), d')))"

text \<open>The intent of a sweep is checked again inside the transaction that records it.\<close>

definition create_ban_sweep_transaction ::
  "settings \<Rightarrow> string \<Rightarrow> int \<Rightarrow> int \<Rightarrow> int \<Rightarrow> string \<Rightarrow> string \<Rightarrow> string \<Rightarrow> db \<Rightarrow> (int \<times> db) res" where
  "create_ban_sweep_transaction c operator_address user_id spot_id amount from_address to_address tx_hash d =
    (case get_spot spot_id d of None \<Rightarrow> Inl (ValueError ''spot does not exist'') | Some s \<Rightarrow>
     if sp_status s \<noteq> SPOT_STATUS_BANNED then Inl (ValueError ''moderation sweep requires a banned Spot'')
     else if user_id \<noteq> sp_created_by s then Inl (ValueError ''moderation sweep user does not match the Spot owner'')
     else
       bindE (normalise_nimiq_address (allow_placeholders c) (sp_deposit_address s)) (\<lambda>expected_from.
       bindE (normalise_nimiq_address (allow_placeholders c) from_address) (\<lambda>submitted_from.
       if submitted_from \<noteq> expected_from
       then Inl (ValueError ''moderation sweep sender does not match the Spot deposit address'') else
       bindE (normalise_nimiq_address (allow_placeholders c) operator_address) (\<lambda>expected_to.
       bindE (normalise_nimiq_address (allow_placeholders c) to_address) (\<lambda>submitted_to.
       if submitted_to \<noteq> expected_to
       then Inl (ValueError ''moderation sweep recipient must be the configured cancellation address'') else
       let state = spot_financial_state (get_transactions_by_spot spot_id MAX_LIMIT 0 d) in
       if fs_pending state \<noteq> []
       then Inl (RuntimeError ''moderation sweep cannot start while another Spot transaction is pending'')
       else if amount \<noteq> fs_remaining state \<or> amount \<le> 0
       then Inl (ValueError ''moderation sweep amount no longer matches the confirmed unspent balance'')
       else create_transaction user_id TRANS_TYPE_PLAT_FEE amount expected_from expected_to tx_hash (Some spot_id) None d)))))"

section \<open>Sweeping and banning\<close>

datatype sweep_outcome = SweepRefused string | SweepDeferred nat | AllSwept | SweepStopped int
  | SweepUnresolved bool | SweepSubmitted send_result

type_synonym 'a admin_act = "admin_state \<times> world \<Rightarrow> 'a res \<times> admin_state \<times> world"

text \<open>\<^verbatim>\<open>except (RuntimeError, sqlite3.IntegrityError)\<close>; any other error is passed on.\<close>

definition is_send_error :: "py_error \<Rightarrow> bool" where
  "is_send_error e \<longleftrightarrow> (case e of RuntimeError _ \<Rightarrow> True | IntegrityError _ \<Rightarrow> True | _ \<Rightarrow> False)"

definition sweep_answer :: "int \<Rightarrow> int \<Rightarrow> admin_state \<Rightarrow> send_result res \<times> world \<Rightarrow> sweep_outcome res \<times> admin_state \<times> world" where
  "sweep_answer spot_id remaining ad sent = (case sent of
     (Inl e, w) \<Rightarrow>
       if \<not> is_send_error e then (Inl e, ad, w)
       else let unresolved = fs_pending (spot_financial_state (get_transactions_by_spot spot_id MAX_LIMIT 0 (wd_db w))) \<noteq> []
         in (Inr (SweepUnresolved unresolved),
             upsert_ban_record (db_now (wd_db w)) spot_id None (Some ''sweep failed'')
               (if unresolved then SweepBlocked else PendingSweep) None 0 ad, w)
   | (Inr r, w) \<Rightarrow> (Inr (SweepSubmitted r),
       record_audit (db_now (wd_db w)) ''spot_ban_sweep_submitted'' ''spot'' (Some spot_id)
         (upsert_ban_record (db_now (wd_db w)) spot_id None None PendingSweep (Some (sr_trans_id r)) remaining ad), w))"

definition send_sweep :: "services \<Rightarrow> spot_row \<Rightarrow> int \<Rightarrow> string \<Rightarrow> send_result act" where
  "send_sweep sv s remaining cancellation_address =
     submit_recorded_chain_send sv s cancellation_address remaining
       (build_transaction_description ''Banned Spot'' (Some (sp_title s))) ''moderation_sweep'' (sp_id s)
       (\<lambda>a f t h. create_ban_sweep_transaction (sv_settings sv) (sv_fee_address sv) (sp_created_by s) (sp_id s) a f t h)"

definition attempt_banned_spot_sweep :: "services \<Rightarrow> int \<Rightarrow> sweep_outcome admin_act" where
  "attempt_banned_spot_sweep sv spot_id = (\<lambda>(ad, w).
     let d = wd_db w; now = db_now d in
     case get_spot spot_id d of None \<Rightarrow> (Inr (SweepRefused ''spot_missing''), ad, w) | Some s \<Rightarrow>
     if sp_status s \<noteq> SPOT_STATUS_BANNED then (Inr (SweepRefused ''spot_not_banned''), ad, w)
     else let transactions = get_transactions_by_spot spot_id MAX_LIMIT 0 d;
              state = spot_financial_state transactions; remaining = fs_remaining state in
     if fs_pending state \<noteq> []
     then (Inr (SweepDeferred (length (fs_pending state))),
           upsert_ban_record now spot_id None None PendingSweep None 0 ad, w)
     else if remaining \<le> 0
     then (let was_swept = (case get_ban_record spot_id ad of None \<Rightarrow> False | Some b \<Rightarrow> bn_state b = Swept);
               ad1 = upsert_ban_record now spot_id None None Swept None 0 ad
           in (Inr AllSwept,
               if was_swept then ad1 else record_audit now ''spot_ban_sweep_complete'' ''spot'' (Some spot_id) ad1, w))
     else if list_ex (\<lambda>t. tr_type t = TRANS_TYPE_PLAT_FEE \<and> tr_status t \<noteq> TRANS_STATUS_FAILED) transactions
     then (Inr (SweepStopped remaining),
           upsert_ban_record now spot_id None (Some ''Existing non-failed platform-fee transaction leaves an unexpected balance.'')
             SweepBlocked None 0 ad, w)
     else (case normalise_nimiq_address (allow_placeholders (sv_settings sv)) (sv_fee_address sv) of
         Inl e \<Rightarrow> (Inl e, ad, w)
       | Inr cancellation_address \<Rightarrow>
           sweep_answer spot_id remaining ad (send_sweep sv s remaining cancellation_address w)))"

text \<open>The part of a ban that is one transaction.\<close>

definition ban_spot_now :: "int \<Rightarrow> int option \<Rightarrow> string option \<Rightarrow> admin_state \<times> db \<Rightarrow> (int \<times> admin_state \<times> db) res" where
  "ban_spot_now spot_id report_id reason = (\<lambda>(ad, d).
     case get_spot spot_id d of None \<Rightarrow> Inl (ValueError ''spot does not exist'') | Some s \<Rightarrow>
     if sp_status s = SPOT_STATUS_CANCELLED
     then Inl (ValueError ''cancelled Spots cannot be converted into moderation bans'')
     else if sp_status s \<noteq> SPOT_STATUS_BANNED \<and> sp_cancellation_started_at s \<noteq> None
     then Inl (ValueError ''this Spot is already in creator cancellation; reconcile that flow before banning it'')
     else
       bindE (if sp_status s \<noteq> SPOT_STATUS_BANNED then set_spot_status_to_banned spot_id d else Inr d) (\<lambda>d1.
       bindE (fail_claims_without_committed_payout spot_id d1) (\<lambda>(failed_claim_count, d2).
       bindE (case report_id of None \<Rightarrow> Inr d2
              | Some i \<Rightarrow> set_report_status i REPORT_STATUS_APPROVED (Some ''Spot banned by administrator.'') d2) (\<lambda>d3.
       Inr (failed_claim_count,
         record_audit (db_now d) ''spot_banned'' ''spot'' (Some spot_id)
           (upsert_ban_record (db_now d) spot_id report_id
             (Some (or_text (take 2000 (py_strip (case reason of None \<Rightarrow> [] | Some r \<Rightarrow> r))) ''Administrator banned Spot.''))
             PendingSweep None 0 ad), d3)))))"

definition ban_spot :: "services \<Rightarrow> int \<Rightarrow> int option \<Rightarrow> string option \<Rightarrow> (int \<times> sweep_outcome) admin_act" where
  "ban_spot sv spot_id report_id reason = (\<lambda>(ad, w).
     case ban_spot_now spot_id report_id reason (ad, wd_db w) of
       Inl e \<Rightarrow> (Inl e, ad, w)
     | Inr (failed_claim_count, ad1, d1) \<Rightarrow>
         (case attempt_banned_spot_sweep sv spot_id (ad1, w\<lparr>wd_db := d1\<rparr>) of
            (Inl e, rest) \<Rightarrow> (Inl e, rest) | (Inr r, rest) \<Rightarrow> (Inr (failed_claim_count, r), rest)))"

fun sweep_all :: "services \<Rightarrow> int list \<Rightarrow> sweep_outcome list admin_act" where
  "sweep_all sv [] = (\<lambda>(ad, w). (Inr [], ad, w))"
| "sweep_all sv (spot_id # ids) = (\<lambda>aw. case attempt_banned_spot_sweep sv spot_id aw of
     (Inl e, aw1) \<Rightarrow> (Inl e, aw1)
   | (Inr r, aw1) \<Rightarrow> (case sweep_all sv ids aw1 of
       (Inl e, aw2) \<Rightarrow> (Inl e, aw2) | (Inr rs, aw2) \<Rightarrow> (Inr (r # rs), aw2)))"

definition reconcile_banned_spot_sweeps :: "services \<Rightarrow> int \<Rightarrow> sweep_outcome list admin_act" where
  "reconcile_banned_spot_sweeps sv limit = (\<lambda>(ad, w). sweep_all sv (pending_banned_spot_ids limit ad) (ad, w))"

text \<open>
  The two hooks: the gate in front of the payout intent, and a reconciliation
  after every pass over the pending rows, whose errors stay inside.
\<close>

definition guarded_create_claim_transaction ::
  "int \<Rightarrow> int \<Rightarrow> int \<Rightarrow> string \<Rightarrow> string \<Rightarrow> string \<Rightarrow> db \<Rightarrow> (int \<times> db) res" where
  "guarded_create_claim_transaction user_id claim_id amount from_address to_address tx_hash d =
    (case get_claim claim_id d of None \<Rightarrow> Inl (RuntimeError ''Claim not found'') | Some detail \<Rightarrow>
     case get_spot (cl_spot_id (cd_claim detail)) d of None \<Rightarrow> Inl (RuntimeError ''Spot not found for claim'') | Some s \<Rightarrow>
     if sp_status s = SPOT_STATUS_BANNED
     then Inl (RuntimeError ''claim payout blocked because the Spot has been banned'')
     else create_claim_transaction user_id claim_id amount from_address to_address tx_hash d)"

definition checked_pending_with_ban_reconciliation ::
  "services \<Rightarrow> 'a act \<Rightarrow> ('a \<times> (py_error + sweep_outcome list)) admin_act" where
  "checked_pending_with_ban_reconciliation sv original = (\<lambda>(ad, w). case original w of
     (Inl e, w1) \<Rightarrow> (Inl e, ad, w1)
   | (Inr r, w1) \<Rightarrow> (case reconcile_banned_spot_sweeps sv 50 (ad, w1) of (sweeps, rest) \<Rightarrow> (Inr (r, sweeps), rest)))"

end
