(* ===== verification/MoneyProps.thy ===== *)
theory MoneyProps
  imports Moderation FundingProps SettleProps ThrottleProps RefundProps LedgerSpec
begin

text \<open>
  Everything that moves money, composed: the settlement pass with the guarded
  payout and the guarded cancellation as its hooks, the check pass with recovery
  and fees, deposits, bans and sweeps. Whatever their order, the outbox stays
  consistent.
\<close>

section \<open>Acts on parts of the world\<close>

lemma safe_actI: "(\<And>w r w'. m w = (r, w') \<Longrightarrow> world_step w w') \<Longrightarrow> safe_act m"
  unfolding safe_act_def by (metis prod.collapse)

lemma safe_actD: "safe_act m \<Longrightarrow> m w = (r, w') \<Longrightarrow> world_step w w'"
  unfolding safe_act_def by (metis snd_conv)

lemma world_step_parts [simp]:
  "world_step w (w\<lparr>wd_guards := g\<rparr>)" "world_step w (w\<lparr>wd_policies := p\<rparr>)" "world_step w (w\<lparr>wd_security := s\<rparr>)"
  by (simp_all add: world_step_def outbox_ok_def)

lemma world_step_same: "wd_db w' = wd_db w \<Longrightarrow> wd_sent w' = wd_sent w \<Longrightarrow> world_step w w'"
  by (simp add: world_step_def outbox_ok_def)

lemma safe_attempt [safe]: "safe_act m \<Longrightarrow> safe_act (attempt m)"
  by (auto simp: safe_act_def attempt_def split: prod.split) (metis snd_conv)

lemma safe_for_each [safe]: "(\<And>x. safe_act (f x)) \<Longrightarrow> safe_act (for_each f xs)"
  by (induction xs) (auto intro: safe)

lemma safe_sum [safe]:
  "(\<And>x. v = Inl x \<Longrightarrow> safe_act (m x)) \<Longrightarrow> (\<And>x. v = Inr x \<Longrightarrow> safe_act (k x)) \<Longrightarrow>
   safe_act (case v of Inl x \<Rightarrow> m x | Inr x \<Rightarrow> k x)"
  by (cases v) auto

lemma safe_commit [safe]: "(\<And>d d'. f d = Inr d' \<Longrightarrow> step_ok d d') \<Longrightarrow> safe_act (commit_db f)"
  unfolding commit_db_def by (intro safe_transaction safe_writeI) (auto elim!: bindE_InrE)

section \<open>Payments\<close>

lemma safe_platform_fee [safe]: "safe_act (submit_platform_fee_transaction sv sp a f)"
  unfolding submit_platform_fee_transaction_def by (intro safe fee_intent.safe_recorded_send)

lemma safe_spot_refund [safe]: "safe_act (submit_spot_refund_transaction sv sp t a)"
  unfolding submit_spot_refund_transaction_def by (intro safe refund_intent.safe_recorded_send)

lemma safe_remainder [safe]: "safe_act (submit_spot_remainder_refund_transaction sv sp t a)"
  unfolding submit_spot_remainder_refund_transaction_def by (intro safe remainder_intent.safe_recorded_send)

lemma safe_reward [safe]: "safe_act (submit_claim_reward_transaction sv k a t)"
  unfolding submit_claim_reward_transaction_def
  by (intro safe payout_intent.safe_recorded_send)

lemma safe_creation_fee_failed [safe]: "safe_act (live_fee_failed sp e)"
  unfolding live_fee_failed_def by (intro safe) (auto intro!: safe split: py_error.split)

lemma live_fee_create:
  assumes "create_live_spot_fee dev u sp a f t h d = Inr (i, d')" and ok: "db_ok d"
  shows "\<exists>r. new_intent a h d i d' r"
proof -
  consider "create_spot_creation_fee_transaction dev u sp a f t h d = Inr (i, d')"
    | ef et u' where "create_transaction u' TRANS_TYPE_CREATION_FEE a ef et h (Some sp) None d = Inr (i, d')"
    using assms(1) unfolding create_live_spot_fee_def Let_def
    by (auto simp: create_once_Inr elim!: bindE_InrE split: option.split_asm if_split_asm)
  then show ?thesis
  proof cases
    case 1
    then show ?thesis using creation_fee_intent.creates ok by blast
  next
    case 2
    then show ?thesis using create_transaction_creates ok by blast
  qed
qed

interpretation live_fee_intent: intent_creator "\<lambda>a f t h. create_live_spot_fee dev u sp a f t h" for dev u sp
  by unfold_locales (rule live_fee_create)

lemma safe_live_fee [safe]: "safe_act (submit_live_spot_fee sv sp)"
  unfolding submit_live_spot_fee_def by (intro safe live_fee_intent.safe_recorded_send)

lemma safe_fee_step [safe]: "(\<And>s. safe_act (f s)) \<Longrightarrow> safe_act (submit_fee_step f sp done')"
  unfolding submit_fee_step_def safe_act_def by (auto split: prod.split) (metis snd_conv)

lemma safe_live_fees [safe]: "safe_act (submit_ready_live_fees sv n)"
  unfolding submit_ready_live_fees_def by (intro safe)

section \<open>Checking pending rows\<close>

lemma safe_settle_checked [safe]: "safe_act (settle_checked sv t st)"
proof (cases "st_status st")
  case Confirmed
  then show ?thesis
    unfolding settle_checked_def
    by (simp add: Let_def) (intro safe safe_writeI; erule mark_confirmed_step mark_failed_step)
next
  case Failed
  then show ?thesis
    unfolding settle_checked_def by simp (intro safe safe_writeI; erule mark_failed_step)
qed (simp_all add: settle_checked_def safe)

lemma safe_check_and_settle [safe]: "safe_act (check_and_settle sv t)"
proof -
  have "safe_act (\<lambda>w. (check_pending_transaction (sv_http sv) (sv_settings sv) (db_now (wd_db w)) t, w))"
    by (rule safe_actI) auto
  then show ?thesis unfolding check_and_settle_def by (intro safe)
qed

lemma safe_recover [safe]: "safe_act (recover_fee_intent sv t)"
proof (rule safe_actI)
  fix w r w' assume run: "recover_fee_intent sv t w = (r, w')"
  have s: "safe_act (recover_fee_hash c t m)" for c m
    unfolding recover_fee_hash_def
    by (intro safe safe_writeI) (auto intro: details_step mark_confirmed_step)
  show "world_step w w'"
    using run safe_actD [OF s] unfolding recover_fee_intent_def Let_def
    by (auto split: if_split_asm sum.split_asm list.split_asm prod.split_asm)
qed

lemma safe_recover_intents [safe]: "safe_act (recover_intents sv now tried ts)"
  by (induction ts arbitrary: tried) (auto intro!: safe)

lemma safe_check_pass [safe]: "safe_act (check_pending_with_recovery sv now tried pending)"
  unfolding check_pending_with_recovery_def recover_local_creation_fee_intents_def by (intro safe)


section \<open>Guarded payouts and cancellations\<close>

lemma safe_decide_payout [safe]: "safe_act (decide_payout c sl k)"
  by (rule safe_actI) (auto simp: decide_payout_def split: prod.split_asm)

lemma safe_reserve_slot [safe]: "safe_act (reserve_slot tlim k a)"
  by (rule safe_actI) (auto simp: reserve_slot_def split: sum.split_asm prod.split_asm)

lemma safe_secured_reward [safe]: "safe_act (submit_claim_reward_transaction_with_security sv sl k a t)"
  unfolding submit_claim_reward_transaction_with_security_def by (intro safe)

lemma safe_throttled_reward [safe]: "safe_act (submit_claim_reward_transaction_with_throttle sv sl tlim k a t)"
  unfolding submit_claim_reward_transaction_with_throttle_def by (intro safe)

lemma step_okI: "(db_ok d \<Longrightarrow> db_ok d') \<Longrightarrow> db_trans d' = db_trans d \<Longrightarrow> step_ok d d'"
  unfolding step_ok_def using ledger_same by blast

lemma cancellation_mark_step: "mark_spot_cancellation_started sp d = Inr (b, d') \<Longrightarrow> step_ok d d'"
  by (rule step_okI) (auto dest: mark_spot_cancellation_started_ok mark_cancellation_trans)

lemma decide_cancellation_step:
  assumes "decide_cancellation sp fee d = Inr (x, d')"
  shows "step_ok d d'"
proof -
  have "\<exists>b d1. mark_spot_cancellation_started sp d = Inr (b, d1) \<and> (d' = d1 \<or> modify_spot_status sp SPOT_STATUS_CANCELLED d1 = Inr d')"
    using assms unfolding decide_cancellation_def Let_def set_spot_status_to_cancelled_def
    by (auto elim!: bindE_InrE split: if_split_asm)
  then show ?thesis using cancellation_mark_step spot_status_step step_ok_trans by blast
qed

lemma safe_cancellation_failed [safe]: "safe_act (cancellation_send_failed e)"
  unfolding cancellation_send_failed_def by (cases e) (auto intro!: safe)

lemma safe_legs [safe]: "safe_act (send_cancellation_legs sv sp f plan)"
proof (rule safe_actI)
  fix w r w' assume run: "send_cancellation_legs sv sp f plan w = (r, w')"
  have s: "safe_act (catchA
         (bindA (if 0 < cp_fee plan then submit_platform_fee_transaction sv sp (cp_fee plan) f
                 else returnA (Skipped ''no_fee'')) (\<lambda>fee_result.
          bindA (if 0 < cp_refund plan
                 then submit_spot_refund_transaction sv sp
                        (case refund_to of None \<Rightarrow> [] | Some a \<Rightarrow> a) (cp_refund plan)
                 else returnA (Skipped ''no_refund'')) (\<lambda>refund_result.
          returnA (Submitted plan fee_result refund_result))))
         cancellation_send_failed)" for refund_to
    by (intro safe)
  show "world_step w w'"
    using run safe_actD [OF s] unfolding send_cancellation_legs_def Let_def by (auto split: sum.split_asm)
qed

lemma safe_cancellation [safe]: "safe_act (submit_spot_cancellation_transactions sv sp fee f)"
proof -
  have "safe_act (\<lambda>w. (cancellable_spot sp (wd_db w), w))" by (rule safe_actI) auto
  then show ?thesis
    unfolding submit_spot_cancellation_transactions_def
    by (intro safe safe_writeI) (auto intro: decide_cancellation_step intro!: safe split: cancel_decision.split)
qed

lemma guard_parts [simp]:
  "wd_db (set_guard sp st reason w) = wd_db w" "wd_db (release_guard sp w) = wd_db w"
  "wd_db (block_guard sp reason w) = wd_db w" "wd_db (delete_cancellation_policy sp w) = wd_db w"
  by (simp_all add: set_guard_def release_guard_def block_guard_def delete_cancellation_policy_def)

lemma safe_policy [safe]: "safe_act (snapshot_cancellation_policy sv sp fee f)"
  by (rule safe_actI)
    (auto simp: snapshot_cancellation_policy_def Let_def split: option.split_asm sum.split_asm if_split_asm)

lemma safe_under_lease [safe]: "safe_act (run_under_lease sv sp policy)"
proof (rule safe_actI)
  fix w r w' assume run: "run_under_lease sv sp policy w = (r, w')"
  show "world_step w w'"
  proof (cases "guard_row sp w")
    case None
    let ?w0 = "set_guard sp Processing ''cancellation send started'' w"
    let ?m = "submit_spot_cancellation_transactions sv sp (Some (fst policy)) (Some (fst (snd policy)))"
    obtain q w1 where m: "?m ?w0 = (q, w1)" by fastforce
    have "world_step w ?w0" by (rule world_step_same) simp_all
    then have 1: "world_step w w1" using safe_actD [OF safe_cancellation m] by (rule world_step_trans)
    have "wd_db w' = wd_db w1 \<and> wd_sent w' = wd_sent w1"
      using run None m unfolding run_under_lease_def Let_def
      by (cases policy) (auto split: sum.split_asm py_error.split_asm if_split_asm)
    then show ?thesis using world_step_trans [OF 1 world_step_same] by blast
  qed (use run in \<open>auto simp: run_under_lease_def\<close>)
qed

lemma safe_guarded_cancellation [safe]: "safe_act (guarded_submit_spot_cancellation_transactions sv sp fee f)"
proof (rule safe_actI)
  fix w r w' assume run: "guarded_submit_spot_cancellation_transactions sv sp fee f w = (r, w')"
  consider (same) "wd_db w' = wd_db w" "wd_sent w' = wd_sent w"
    | (go) w0 where "wd_db w0 = wd_db w" "wd_sent w0 = wd_sent w"
        "bindA (snapshot_cancellation_policy sv sp fee f) (run_under_lease sv sp) w0 = (r, w')"
    using run unfolding guarded_submit_spot_cancellation_transactions_def Let_def
    by (auto split: if_split_asm option.split_asm intro: go [of w] go [of "release_guard sp w"] same)
  then show "world_step w w'"
  proof cases
    case same
    then show ?thesis by (rule world_step_same)
  next
    case go
    have "safe_act (bindA (snapshot_cancellation_policy sv sp fee f) (run_under_lease sv sp))" by (intro safe)
    from safe_actD [OF this go(3)] world_step_same [OF go(1,2)] show ?thesis by (rule world_step_trans [rotated])
  qed
qed

section \<open>The settlement pass\<close>

lemma claim_safe_step: "(db_ok d \<Longrightarrow> claim_safe d d') \<Longrightarrow> step_ok d d'"
  unfolding step_ok_def claim_safe_def claim_frame_def using ledger_same by blast

lemma update_claims_step:
  assumes u: "update_claims True P (\<lambda>c. c\<lparr>cl_status := st\<rparr>) d = Inr d'"
  shows "step_ok d d'"
  using update_claims_ok [OF u] update_claims_frame(1) [OF u] by (intro step_okI) (simp_all add: claim_frame_def)

lemma duration_step: "settle_duration_claim k d = Inr (x, d') \<Longrightarrow> step_ok d d'"
  unfolding settle_duration_claim_def
  by (rule claim_safe_step) (auto elim!: bindE_InrE intro: policy.refresh_safe)

lemma draw_step:
  assumes "draw_prizedraw draws sp d = Inr (x, d')"
  shows "step_ok d d'"
proof (cases x)
  case (Drawn reason n ws)
  obtain d1 ids n' d2 where s: "fail_pending_claims_for_spot sp d = Inr (n, d1)"
      "mark_prizedraw_winners_pending sp ws d1 = Inr (ids, n', d2)" "set_spot_status_to_completed sp d2 = Inr d'"
    by (rule draw_cases [OF assms [unfolded Drawn]]) blast
  have 1: "step_ok d d1" by (rule claim_safe_step) (rule fail_pending_safe [OF s(1)])
  have 2: "step_ok d1 d2"
    using s(2) unfolding mark_prizedraw_winners_pending_def Let_def
    by (auto elim!: bindE_InrE intro: update_claims_step split: if_split_asm)
  have "step_ok d2 d'" using s(3) unfolding set_spot_status_to_completed_def by (rule spot_status_step)
  with 1 2 show ?thesis using step_ok_trans by blast
next
  case (NotDrawn ok reason)
  have "d' = d"
    using assms NotDrawn unfolding draw_prizedraw_def close_draw_def persist_winners_def
    by (auto elim!: bindE_InrE split: option.split_asm if_split_asm)
  then show ?thesis by simp
qed

lemma payout_jobs_step: "payout_jobs amounts ks d = Inr (jobs, d') \<Longrightarrow> step_ok d d'"
proof (induction amounts ks d arbitrary: jobs d' rule: payout_jobs.induct)
  case (2 amounts k ks d)
  show ?case
  proof (cases "has_confirmed_claim_payout_transaction k d")
    case True
    then obtain d1 where d1: "set_claim_status_to_success k d = Inr d1" "payout_jobs amounts ks d1 = Inr (jobs, d')"
      using 2(3) by (auto elim!: bindE_InrE)
    then show ?thesis
      using 2(1) [OF True] claim_status_step step_ok_trans unfolding set_claim_status_to_success_def by blast
  next
    case False
    then show ?thesis using 2(3) 2(2) [OF False refl refl] by (auto simp: Let_def elim!: bindE_InrE)
  qed
qed simp

lemma collect_jobs_step: "collect_payout_jobs sp d = Inr (x, d') \<Longrightarrow> step_ok d d'"
  unfolding collect_payout_jobs_def Let_def
  by (auto elim!: bindE_InrE intro: payout_jobs_step split: option.split_asm if_split_asm)

lemma remainder_step:
  assumes "prepare_remainder sp d = Inr (x, d')"
  shows "step_ok d d'"
proof -
  have mark: "step_ok d (mark_spot_remainder_settled s d)" for s d
    unfolding step_ok_def using trans_op_ok trans_op.settled by blast
  have "step_ok d d'" if "plan_remainder s b d = Inr (x, d')" for s b
  proof -
    have "\<exists>d1. (d1 = d \<or> modify_spot_status (sp_id s) SPOT_STATUS_COMPLETED d = Inr d1)
        \<and> (d' = d1 \<or> d' = mark_spot_remainder_settled (sp_id s) d1)"
      using that unfolding plan_remainder_def Let_def set_spot_status_to_completed_def
      by (auto elim!: bindE_InrE split: if_split_asm option.split_asm)
    then show ?thesis using mark spot_status_step step_ok_trans step_ok_refl by metis
  qed
  then show ?thesis using assms unfolding prepare_remainder_def by (auto split: option.split_asm if_split_asm)
qed

lemma safe_return_remainder [safe]: "safe_act (return_remainder sv sp a addr h)"
proof (rule safe_actI)
  fix w r w' assume run: "return_remainder sv sp a addr h w = (r, w')"
  have s: "safe_act (catchA (mapA RemainderSubmitted (submit_spot_remainder_refund_transaction sv sp to a))
           (remainder_send_failed sp))" for to
    unfolding remainder_send_failed_def by (intro safe) (auto intro!: safe split: py_error.split)
  show "world_step w w'"
    using run safe_actD [OF s] unfolding return_remainder_def by (auto split: sum.split_asm)
qed

lemma safe_remainder_pass: "safe_act (settle_spot_remainder_if_ready sv sp)"
  unfolding settle_spot_remainder_if_ready_def
  by (intro safe safe_writeI) (auto intro: remainder_step intro!: safe split: remainder_decision.split)

text \<open>What the pass relies on: its hooks are safe.\<close>

locale safe_hooks =
  fixes hk :: hooks
  assumes pay_safe: "safe_act (hk_pay hk k a)" and cancel_safe: "safe_act (hk_cancel hk sp)"
begin

lemma safe_pay_mapped [safe]: "safe_act (mapA f (hk_pay hk k a))"
  by (intro safe pay_safe)

lemma safe_standard: "safe_act (payout_standard_claim_if_ready hk k)"
  unfolding payout_standard_claim_if_ready_def payout_send_failed_def
  by (intro safe) (auto intro!: safe split: py_error.split)

lemma safe_job: "safe_act (run_payout_job hk job)"
  by (cases job) (auto simp: run_payout_job_def intro!: safe)

lemma safe_retry_spot: "safe_act (retry_pending_prizedraw_payouts_for_spot hk sp)"
  unfolding retry_pending_prizedraw_payouts_for_spot_def
  by (intro safe safe_writeI) (auto intro: collect_jobs_step intro!: safe safe_job split: jobs_decision.split)

lemma safe_draw: "safe_act (settle_prizedraw_spot_if_ready hk draws sp)"
  unfolding settle_prizedraw_spot_if_ready_def
  by (intro safe safe_writeI) (auto intro: draw_step intro!: safe safe_retry_spot split: draw_decision.split)

lemma pass_safe: "safe_act (run_settlement_pass sv hk draws)"
  unfolding run_settlement_pass_def settle_pending_duration_claims_def retry_unpaid_standard_claim_payouts_def
    settle_ready_prizedraws_def retry_pending_prizedraw_payouts_def settle_spot_remainders_def
    retry_pending_spot_cancellations_def
  by (intro safe safe_writeI safe_standard safe_draw safe_retry_spot safe_remainder_pass cancel_safe)
    (rule duration_step)

end

text \<open>
  The hooks as \<^verbatim>\<open>funding_flow.install\<close> leaves them: the payout behind the security
  check and the throttle, the cancellation behind its lease.
\<close>

definition installed_hooks :: "services \<Rightarrow> security_limits \<Rightarrow> throttle_limits \<Rightarrow> hooks" where
  "installed_hooks sv sl tlim = \<lparr>hk_pay = (\<lambda>k a. submit_claim_reward_transaction_with_throttle sv sl tlim k a None),
     hk_cancel = (\<lambda>sp. guarded_submit_spot_cancellation_transactions sv sp (Some SPOT_CANCELLATION_FEE) None)\<rparr>"

interpretation installed: safe_hooks "installed_hooks sv sl tlim" for sv sl tlim
  by unfold_locales (simp_all add: installed_hooks_def safe_throttled_reward safe_guarded_cancellation)


section \<open>Bans and sweeps\<close>

lemma sweep_create_cases:
  assumes "create_ban_sweep_transaction c op u sp a f t h d = Inr (i, d')"
  obtains s ef et where "get_spot sp d = Some s" "sp_status s = SPOT_STATUS_BANNED"
    "normalise_nimiq_address (allow_placeholders c) op = Inr et" "normalise_nimiq_address (allow_placeholders c) t = Inr et"
    "fs_pending (spot_financial_state (get_transactions_by_spot sp MAX_LIMIT 0 d)) = []"
    "a = fs_remaining (spot_financial_state (get_transactions_by_spot sp MAX_LIMIT 0 d))" "0 < a"
    "create_transaction u TRANS_TYPE_PLAT_FEE a ef et h (Some sp) None d = Inr (i, d')"
  using assms unfolding create_ban_sweep_transaction_def Let_def
  by (auto elim!: bindE_InrE split: option.split_asm if_split_asm)

interpretation sweep_intent: intent_creator "\<lambda>a f t h. create_ban_sweep_transaction c op u sp a f t h" for c op u sp
  by unfold_locales (erule sweep_create_cases, rule create_transaction_creates)

text \<open>An attempt sends nothing or the one recorded sweep, and touches no Spot and no claim.\<close>

lemma sweep_effect:
  assumes run: "attempt_banned_spot_sweep sv sp (ad, w) = (r, ad', w')" and ok: "db_ok (wd_db w)"
  obtains (quiet) "wd_db w' = wd_db w" "wd_sent w' = wd_sent w"
  | (swept) s i d1 f t to_addr h sent where "get_spot sp (wd_db w) = Some s"
      "create_ban_sweep_transaction (sv_settings sv) (sv_fee_address sv) (sp_created_by s) (sp_id s)
         (fs_remaining (spot_financial_state (get_transactions_by_spot sp MAX_LIMIT 0 (wd_db w)))) f t h (wd_db w) = Inr (i, d1)"
      "db_spots (wd_db w') = db_spots (wd_db w)" "db_claims (wd_db w') = db_claims (wd_db w)"
      "wd_sent w' = wd_sent w @ sent" "validate_nimiq_address (sv_settings sv) to_addr = Inr t"
      "validate_nimiq_address (sv_settings sv) (sp_deposit_address s) = Inr f"
      "sent = [] \<or> (\<exists>rq memo. build_send_request sv s t
         (fs_remaining (spot_financial_state (get_transactions_by_spot sp MAX_LIMIT 0 (wd_db w)))) memo = Inr rq \<and> sent = [(i, rq)])"
      "world_step w w'"
proof -
  let ?rem = "fs_remaining (spot_financial_state (get_transactions_by_spot sp MAX_LIMIT 0 (wd_db w)))"
  consider (same) "w' = w" | (send) s a where "get_spot sp (wd_db w) = Some s"
      "sweep_answer sp ?rem ad (send_sweep sv s ?rem a w) = (r, ad', w')"
    using run unfolding attempt_banned_spot_sweep_def Let_def
    by (auto split: option.split_asm if_split_asm sum.split_asm)
  then show thesis
  proof cases
    case same
    then show thesis using quiet by simp
  next
    case (send s a)
    obtain q w1 where m: "send_sweep sv s ?rem a w = (q, w1)" by fastforce
    have w1: "w' = w1" using send(2) unfolding m sweep_answer_def by (auto simp: Let_def split: sum.split_asm if_split_asm)
    note step = safe_actD [OF sweep_intent.safe_recorded_send m [unfolded send_sweep_def]]
    show thesis
    proof (rule recorded_send_cases [OF m [unfolded send_sweep_def]])
      assume "wd_db w1 = wd_db w" "wd_sent w1 = wd_sent w"
      then show thesis using quiet w1 by simp
    next
      fix i d1 f t h sent
      assume A: "validate_nimiq_address (sv_settings sv) (sp_deposit_address s) = Inr f"
          "validate_nimiq_address (sv_settings sv) a = Inr t"
          "create_ban_sweep_transaction (sv_settings sv) (sv_fee_address sv) (sp_created_by s) (sp_id s) ?rem f t h (wd_db w) = Inr (i, d1)"
          "wd_sent w1 = wd_sent w @ sent"
          "sent = [] \<or> (\<exists>rq. build_send_request sv s t ?rem (build_transaction_description ''Banned Spot'' (Some (sp_title s))) = Inr rq \<and> sent = [(i, rq)] \<and> sv_command sv)"
        and fin: "wd_db w1 = d1 \<and> (\<exists>e. q = Inl e)
       \<or> (\<exists>y x. validate_submitted_chain_send (sv_settings sv) f t ?rem y = Inr x
           \<and> (sent = [] \<longrightarrow> dev_hash (su_tx_hash y))
           \<and> update_transaction_chain_details i (details_of x) d1 = Inr (wd_db w1)
           \<and> q = Inr \<lparr>sr_trans_id = i, sr_amount = su_amount x, sr_to = su_to x, sr_from = su_from x,
                sr_tx_hash = su_tx_hash x, sr_intent_hash = h\<rparr>)"
      obtain u ef et where "create_transaction u TRANS_TYPE_PLAT_FEE ?rem ef et h (Some (sp_id s)) None (wd_db w) = Inr (i, d1)"
        by (rule sweep_create_cases [OF A(3)]) blast
      then have d1: "db_spots d1 = db_spots (wd_db w)" "db_claims d1 = db_claims (wd_db w)"
        using insert_trans_Inr(1) unfolding create_transaction_def by force+
      have "db_spots d2 = db_spots d1 \<and> db_claims d2 = db_claims d1" if "update_transaction_chain_details i c d1 = Inr d2" for c d2
        using that unfolding update_transaction_chain_details_def
        by (auto simp: update_trans_def write_trans_Inr elim!: bindE_InrE split: if_split_asm)
      then have d2: "db_spots (wd_db w1) = db_spots (wd_db w)" "db_claims (wd_db w1) = db_claims (wd_db w)"
        using fin d1 by auto
      show thesis
        by (rule swept [OF send(1) A(3) _ _ _ A(2,1)]) (use d2 w1 A(4,5) step in auto)
    qed
  qed
qed

lemma sweep_step: "attempt_banned_spot_sweep sv sp (ad, w) = (r, ad', w') \<Longrightarrow> world_step w w'"
proof -
  assume run: "attempt_banned_spot_sweep sv sp (ad, w) = (r, ad', w')"
  show ?thesis
  proof (cases "db_ok (wd_db w)")
    case True
    then show ?thesis by (rule sweep_effect [OF run]) (auto intro: world_step_same)
  qed (simp add: world_step_def outbox_ok_def)
qed

lemma sweep_all_step: "sweep_all sv ids (ad, w) = (r, ad', w') \<Longrightarrow> world_step w w'"
proof (induction sv ids arbitrary: ad w r ad' w' rule: sweep_all.induct)
  case (2 sv sp ids)
  obtain q ad1 w1 where m: "attempt_banned_spot_sweep sv sp (ad, w) = (q, ad1, w1)" by (metis prod_cases3)
  note s = sweep_step [OF m]
  obtain q2 ad2 w2 where m2: "sweep_all sv ids (ad1, w1) = (q2, ad2, w2)" by (metis prod_cases3)
  show ?case
  proof (cases q)
    case (Inl e)
    then show ?thesis using 2(2) m s by simp
  next
    case (Inr x)
    have "w' = w2" using 2(2) m m2 Inr by (auto split: sum.split_asm)
    then show ?thesis using world_step_trans [OF s 2(1) [OF m [symmetric] Inr m2]] by simp
  qed
qed simp


lemma report_status_frame: "set_report_status i st note d = Inr d' \<Longrightarrow> \<exists>rs. d' = d\<lparr>db_reports := rs\<rparr>"
  unfolding set_report_status_def Let_def by (auto split: if_split_asm)

lemma banned_rows:
  assumes m: "modify_spot_status sp st d = Inr d'" and ok: "db_ok d" and s: "get_spot sp d = Some s"
  shows "db_ok d'" "db_trans d' = db_trans d" "db_users d' = db_users d" "db_claims d' = db_claims d"
    "\<exists>s'. get_spot sp d' = Some s' \<and> sp_status s' = st"
proof -
  have u: "update_spots False True (\<lambda>r. sp_id r = sp) (\<lambda>r. r\<lparr>sp_status := st\<rparr>) d = Inr d'"
    using m by (auto simp: modify_spot_status_def Let_def)
  note d' = update_spots_Inr(2) [OF u]
  show "db_ok d'" by (rule modify_spot_status_ok [OF m ok])
  show "db_trans d' = db_trans d" "db_users d' = db_users d" "db_claims d' = db_claims d" using d' by simp_all
  show "\<exists>s'. get_spot sp d' = Some s' \<and> sp_status s' = st"
    using s by (auto simp: d' get_spot_def find_row_update_where stamp_spot_def dest: find_row_SomeD)
qed

lemma ban_now_cases:
  assumes "ban_spot_now sp rep reason (ad, d) = Inr (n, ad1, d1)"
  obtains s da db rs where "get_spot sp d = Some s"
    "sp_status s \<noteq> SPOT_STATUS_BANNED \<and> modify_spot_status sp SPOT_STATUS_BANNED d = Inr da
     \<or> sp_status s = SPOT_STATUS_BANNED \<and> da = d"
    "fail_claims_without_committed_payout sp da = Inr (n, db)" "d1 = db\<lparr>db_reports := rs\<rparr>"
proof -
  obtain s where s: "get_spot sp d = Some s" using assms by (auto simp: ban_spot_now_def split: option.split_asm)
  let ?set = "if sp_status s \<noteq> SPOT_STATUS_BANNED then set_spot_status_to_banned sp d else Inr d"
  let ?rep = "\<lambda>d2. case rep of None \<Rightarrow> Inr d2
    | Some i \<Rightarrow> set_report_status i REPORT_STATUS_APPROVED (Some ''Spot banned by administrator.'') d2"
  obtain X where body: "bindE ?set (\<lambda>da. bindE (fail_claims_without_committed_payout sp da) (\<lambda>(m, db).
      bindE (?rep db) (\<lambda>d3. Inr (m, X, d3)))) = Inr (n, ad1, d1)"
    using assms unfolding ban_spot_now_def prod.case s option.case by (simp only: split: if_split_asm) (blast | simp)+
  obtain da where 1: "?set = Inr da" and r1: "bindE (fail_claims_without_committed_payout sp da) (\<lambda>(m, db).
      bindE (?rep db) (\<lambda>d3. Inr (m, X, d3))) = Inr (n, ad1, d1)"
    using body by (rule bindE_InrE)
  obtain m db where 2: "fail_claims_without_committed_payout sp da = Inr (m, db)"
      and r2: "bindE (?rep db) (\<lambda>d3. Inr (m, X, d3)) = Inr (n, ad1, d1)"
    using r1 by (rule bindE_InrE) (simp split: prod.split_asm)
  have st: "?set = Inr da" "fail_claims_without_committed_payout sp da = Inr (n, db)" "?rep db = Inr d1"
    using 1 2 r2 by (auto elim: bindE_InrE)
  have "\<exists>rs. d1 = db\<lparr>db_reports := rs\<rparr>"
  proof (cases rep)
    case None
    then have "d1 = db\<lparr>db_reports := db_reports db\<rparr>" using st(3) by simp
    then show ?thesis ..
  qed (use st(3) report_status_frame in simp)
  then obtain rs where rs: "d1 = db\<lparr>db_reports := rs\<rparr>" by blast
  have "sp_status s \<noteq> SPOT_STATUS_BANNED \<and> modify_spot_status sp SPOT_STATUS_BANNED d = Inr da
     \<or> sp_status s = SPOT_STATUS_BANNED \<and> da = d"
    using st(1) by (simp add: set_spot_status_to_banned_def split: if_split_asm)
  then show thesis by (rule that [OF s _ st(2) rs])
qed

lemma ban_now_facts:
  assumes ban: "ban_spot_now sp rep reason (ad, d) = Inr (n, ad1, d1)" and ok: "db_ok d"
  shows "db_ok d1" "db_trans d1 = db_trans d" "db_users d1 = db_users d"
    "\<exists>s. get_spot sp d1 = Some s \<and> sp_status s = SPOT_STATUS_BANNED"
    "\<forall>c\<in>set (db_claims d1). cl_spot_id c = sp \<longrightarrow> cl_status c = CLAIM_STATUS_FAILED \<or> committed_payout d (cl_id c)"
proof -
  obtain s da db rs where s: "get_spot sp d = Some s"
    and a: "sp_status s \<noteq> SPOT_STATUS_BANNED \<and> modify_spot_status sp SPOT_STATUS_BANNED d = Inr da
       \<or> sp_status s = SPOT_STATUS_BANNED \<and> da = d"
    and b: "fail_claims_without_committed_payout sp da = Inr (n, db)" and c: "d1 = db\<lparr>db_reports := rs\<rparr>"
    by (rule ban_now_cases [OF ban])
  have A: "db_ok da \<and> db_trans da = db_trans d \<and> db_users da = db_users d \<and> db_claims da = db_claims d
      \<and> (\<exists>s. get_spot sp da = Some s \<and> sp_status s = SPOT_STATUS_BANNED)"
    using a
  proof
    assume "sp_status s \<noteq> SPOT_STATUS_BANNED \<and> modify_spot_status sp SPOT_STATUS_BANNED d = Inr da"
    then have "modify_spot_status sp SPOT_STATUS_BANNED d = Inr da" ..
    from banned_rows [OF this ok s] show ?thesis by simp
  qed (use s ok in simp)
  let ?P = "\<lambda>c. cl_spot_id c = sp \<and> cl_status c \<noteq> CLAIM_STATUS_FAILED \<and> \<not> committed_payout da (cl_id c)"
  have u: "update_claims True ?P (\<lambda>c. c\<lparr>cl_status := CLAIM_STATUS_FAILED\<rparr>) da = Inr db"
    using b unfolding fail_claims_without_committed_payout_def Let_def by (auto elim!: bindE_InrE)
  note f = update_claims_frame [OF u]
  have B: "db_ok db" by (rule update_claims_ok [OF u]) (use A in simp_all)
  have eq: "db_trans db = db_trans d" "db_users db = db_users d" "get_spot sp db = get_spot sp da"
    using f(1) A frame_get(1) [OF f(1)] by (simp_all add: claim_frame_def)
  show "db_ok d1" "db_trans d1 = db_trans d" "db_users d1 = db_users d" using c B eq by auto
  show "\<exists>s. get_spot sp d1 = Some s \<and> sp_status s = SPOT_STATUS_BANNED"
    using c eq(3) A by (auto simp: get_spot_def)
  have "cl_status c = CLAIM_STATUS_FAILED \<or> committed_payout d (cl_id c)" if mem: "c \<in> set (db_claims db)" and csp: "cl_spot_id c = sp" for c
  proof -
    have cp: "committed_payout da = committed_payout d" using A by (simp add: fun_eq_iff committed_payout_def)
    obtain x where "c = (if ?P x then x\<lparr>cl_status := CLAIM_STATUS_FAILED, cl_updated_at := db_now da\<rparr> else x)"
      using mem unfolding f(3) set_update_where by (rule imageE)
    then show ?thesis using csp cp by (auto split: if_split_asm)
  qed
  then show "\<forall>c\<in>set (db_claims d1). cl_spot_id c = sp \<longrightarrow> cl_status c = CLAIM_STATUS_FAILED \<or> committed_payout d (cl_id c)"
    using c by auto
qed


lemma ban_step:
  assumes run: "ban_spot sv sp rep reason (ad, w) = (r, ad', w')"
  shows "world_step w w'"
proof (cases "ban_spot_now sp rep reason (ad, wd_db w)")
  case (Inl e)
  then show ?thesis using run by (simp add: ban_spot_def)
next
  case (Inr y)
  obtain n ad1 d1 where y: "y = (n, ad1, d1)" by (metis prod_cases3)
  note now = Inr [unfolded y]
  obtain q ad2 w2 where m: "attempt_banned_spot_sweep sv sp (ad1, w\<lparr>wd_db := d1\<rparr>) = (q, ad2, w2)" by (metis prod_cases3)
  have w2: "w' = w2" using run now m by (auto simp: ban_spot_def split: sum.split_asm)
  have "world_step w (w\<lparr>wd_db := d1\<rparr>)"
    using ban_now_facts [OF now] ledger_same [of d1 "wd_db w"] by (auto simp: world_step_def outbox_ok_def)
  then show ?thesis unfolding w2 using sweep_step [OF m] by (rule world_step_trans)
qed

section \<open>Runs of money operations\<close>

text \<open>
  One operation of any worker or route that handles money; \<open>request\<close> is a step of
  any other part of the server, of which only is asked that it keeps the database
  consistent and the ledger's rows.
\<close>

inductive money_op :: "services \<Rightarrow> security_limits \<Rightarrow> throttle_limits \<Rightarrow> world \<Rightarrow> world \<Rightarrow> bool" for sv sl tlim where
  pass: "run_settlement_pass sv (installed_hooks sv sl tlim) draws w = (r1, w') \<Longrightarrow> money_op sv sl tlim w w'"
| check: "check_pending_with_recovery sv now tried pending w = (r2, w') \<Longrightarrow> money_op sv sl tlim w w'"
| payout: "submit_claim_reward_transaction_with_throttle sv sl tlim k a t w = (r3, w') \<Longrightarrow> money_op sv sl tlim w w'"
| cancel: "guarded_submit_spot_cancellation_transactions sv sp fee f w = (r4, w') \<Longrightarrow> money_op sv sl tlim w w'"
| fee: "submit_live_spot_fee sv sp w = (r5, w') \<Longrightarrow> money_op sv sl tlim w w'"
| deposit: "record_deposit_with_return_address c u sp n from_addr h to_addr (wd_db w) (wd_security w) = (r6, d', ss')
    \<Longrightarrow> money_op sv sl tlim w (w\<lparr>wd_db := d', wd_security := ss'\<rparr>)"
| ban: "ban_spot sv sp rep reason (ad, w) = (r7, ad', w') \<Longrightarrow> money_op sv sl tlim w w'"
| sweeps: "reconcile_banned_spot_sweeps sv n (ad, w) = (r8, ad', w') \<Longrightarrow> money_op sv sl tlim w w'"
| request: "step_ok (wd_db w) d' \<Longrightarrow> money_op sv sl tlim w (w\<lparr>wd_db := d'\<rparr>)"

inductive money_run :: "services \<Rightarrow> security_limits \<Rightarrow> throttle_limits \<Rightarrow> world \<Rightarrow> world \<Rightarrow> bool" for sv sl tlim where
  start: "money_run sv sl tlim w w"
| step: "money_run sv sl tlim w w1 \<Longrightarrow> money_op sv sl tlim w1 w2 \<Longrightarrow> money_run sv sl tlim w w2"

lemma world_step_db: "step_ok (wd_db w) (wd_db w') \<Longrightarrow> wd_sent w' = wd_sent w \<Longrightarrow> world_step w w'"
  unfolding world_step_def outbox_ok_def step_ok_def using ledger_ids by fastforce

lemma return_deposit_step:
  assumes "record_deposit_with_return_address c u sp n f h t d ss = (r, d', ss')"
  shows "step_ok d d'"
proof -
  have "d' = d \<or> (\<exists>u s a f h t i. create_spot_deposit_transaction u s a f h t d = Inr (i, d'))"
    using assms unfolding record_deposit_with_return_address_def record_new_deposit_def recorded_deposit_again_def
      then_remember_def Let_def
    by (auto split: sum.split_asm prod.split_asm option.split_asm if_split_asm py_error.split_asm)
  then show ?thesis unfolding step_ok_def using trans_op_ok trans_op.deposit ledger_grows_refl by blast
qed

lemma money_op_step: "money_op sv sl tlim w w' \<Longrightarrow> world_step w w'"
proof (induction rule: money_op.induct)
  case (pass draws w r1 w')
  then show ?case by (rule safe_actD [OF installed.pass_safe])
next
  case (check now tried pending w r2 w')
  then show ?case by (rule safe_actD [OF safe_check_pass])
next
  case (payout k a t w r3 w')
  then show ?case by (rule safe_actD [OF safe_throttled_reward])
next
  case (cancel sp fee f w r4 w')
  then show ?case by (rule safe_actD [OF safe_guarded_cancellation])
next
  case (fee sp w r5 w')
  then show ?case by (rule safe_actD [OF safe_live_fee])
next
  case (deposit c u sp n from_addr h to_addr w r6 d' ss')
  then show ?case by (intro world_step_db) (auto dest: return_deposit_step)
next
  case (ban sp rep reason ad w r7 ad' w')
  then show ?case by (rule ban_step)
next
  case (sweeps n ad w r8 ad' w')
  then show ?case unfolding reconcile_banned_spot_sweeps_def by (auto intro: sweep_all_step)
next
  case (request w d')
  then show ?case by (intro world_step_db) simp_all
qed

lemma money_run_step: "money_run sv sl tlim w w' \<Longrightarrow> world_step w w'"
  by (induction rule: money_run.induct) (auto intro: world_step_trans money_op_step)

lemma paid_stays_paid:
  assumes grows: "ledger_grows d d'" and ok: "db_ok d'" and paid: "register d ob = Paid"
  shows "register d' ob = Paid"
proof -
  obtain t where f: "find (\<lambda>t. owed t = Some ob \<and> active t) (db_trans d) = Some t" and p: "stage_of t = Paid"
    using paid by (auto simp: register_def split: option.split_asm)
  have t: "t \<in> set (db_trans d)" "owed t = Some ob" "stage_of t = Paid" using f p by (auto simp: find_Some_iff)
  then have c: "tr_status t = TRANS_STATUS_CONFIRMED" by (simp add: stage_of_def split: if_split_asm)
  obtain t' where t': "t' \<in> set (db_trans d')" "trans_step t t'"
    using grows t(1) unfolding ledger_grows_def by blast
  have "tr_status t' = TRANS_STATUS_CONFIRMED" using t'(2) c by (simp add: trans_step_def const_defs)
  moreover have "owed t' = owed t" using t'(2) by (simp add: trans_step_def owed_def)
  then have "owed t' = Some ob" using t(2) by simp
  ultimately show ?thesis
    using register_row [OF ok t'(1)] by (simp add: active_def stage_of_def const_defs)
qed

text \<open>
  C2: However the settlement passes, check passes, payouts, cancellations, fees,
  deposits, bans, sweeps and the other requests of the server interleave, and
  whatever the signer and the node answer: the ledger stays consistent, every
  request to the signer has a ledger row of its own and is made once for that row,
  of two requests for one obligation at most one is still live, and an obligation
  once paid stays paid.
\<close>

theorem money_runs_consistent:
  assumes run: "money_run sv sl tlim w w'" and ok: "outbox_ok w"
  shows "outbox_ok w' \<and> (\<exists>more. wd_sent w' = wd_sent w @ more)
    \<and> (\<forall>(i, rq)\<in>set (wd_sent w'). \<exists>t\<in>set (db_trans (wd_db w')). tr_id t = i)
    \<and> distinct (map fst (wd_sent w'))
    \<and> (\<forall>t\<in>set (db_trans (wd_db w')). \<forall>t'\<in>set (db_trans (wd_db w')). \<forall>ob.
         owed t = Some ob \<and> owed t' = Some ob \<and> active t \<and> active t' \<longrightarrow> t' = t)
    \<and> (\<forall>ob. register (wd_db w) ob = Paid \<longrightarrow> register (wd_db w') ob = Paid)"
proof -
  have s: "outbox_ok w'" "ledger_grows (wd_db w) (wd_db w')" "\<exists>more. wd_sent w' = wd_sent w @ more"
    using money_run_step [OF run] ok by (auto simp: world_step_def)
  then have d: "db_ok (wd_db w')" "distinct (map fst (wd_sent w'))"
      "set (map fst (wd_sent w')) \<subseteq> tr_id ` set (db_trans (wd_db w'))" by (auto simp: outbox_ok_def)
  have "\<exists>t\<in>set (db_trans (wd_db w')). tr_id t = i" if "(i, rq) \<in> set (wd_sent w')" for i rq
    using d(3) that by force
  then show ?thesis using s d active_unique [OF d(1)] paid_stays_paid [OF s(2) d(1)] by blast
qed

text \<open>The balance a sweep pays out, read off the ledger of the Spot itself.\<close>

lemma financial_state_listed:
  assumes "db_ok d" and "spot_rows_listed sp d"
  defines "state \<equiv> spot_financial_state (get_transactions_by_spot sp MAX_LIMIT 0 d)"
  shows "fs_pending state = [] \<Longrightarrow> t \<in> set (db_trans d) \<Longrightarrow> tr_spot_id t = Some sp \<Longrightarrow> tr_status t \<noteq> TRANS_STATUS_PENDING"
    and "fs_remaining state = max 0
      (sum_where tr_amount (\<lambda>t. tr_spot_id t = Some sp \<and> tr_type t = TRANS_TYPE_FILL_SPOT
         \<and> tr_status t = TRANS_STATUS_CONFIRMED) (db_trans d)
     - sum_where tr_amount (\<lambda>t. tr_spot_id t = Some sp \<and> tr_type t \<noteq> TRANS_TYPE_FILL_SPOT
         \<and> tr_status t = TRANS_STATUS_CONFIRMED) (db_trans d))"
proof -
  let ?rows = "get_transactions_by_spot sp MAX_LIMIT 0 d"
  show "tr_status t \<noteq> TRANS_STATUS_PENDING"
    if "fs_pending state = []" "t \<in> set (db_trans d)" "tr_spot_id t = Some sp"
  proof -
    have "t \<in> set ?rows" using listed_set [OF assms(1,2)] that(2,3) by blast
    moreover have "filter (\<lambda>t. tr_status t = TRANS_STATUS_PENDING) ?rows = []"
      using that(1) unfolding state_def spot_financial_state_def Let_def by (simp only: financial_state.select_convs)
    ultimately show ?thesis unfolding filter_empty_conv by blast
  qed
  have total: "sum_where tr_amount P ?rows = sum_where tr_amount (\<lambda>t. tr_spot_id t = Some sp \<and> P t) (db_trans d)" for P
    using sum_where_mset [OF transactions_by_spot_mset [OF assms(1,2)], of tr_amount P]
    by (simp add: sum_where_def conj_commute)
  show "fs_remaining state = max 0
      (sum_where tr_amount (\<lambda>t. tr_spot_id t = Some sp \<and> tr_type t = TRANS_TYPE_FILL_SPOT
         \<and> tr_status t = TRANS_STATUS_CONFIRMED) (db_trans d)
     - sum_where tr_amount (\<lambda>t. tr_spot_id t = Some sp \<and> tr_type t \<noteq> TRANS_TYPE_FILL_SPOT
         \<and> tr_status t = TRANS_STATUS_CONFIRMED) (db_trans d))"
    unfolding state_def spot_financial_state_def Let_def financial_state.select_convs total ..
qed

text \<open>
  C37: Banning a Spot ends its payments. Afterwards it is banned, each of its claims
  without a pending or confirmed payout has failed, and no payout of any claim of
  it can be recorded any more. At most one request goes out, to the operator's
  configured address, and none while a transaction of the Spot is pending. Its
  amount is positive and, for a Spot whose ledger rows one listing covers, exactly
  the sum of its confirmed deposits less the sum of every other confirmed row.
\<close>

theorem ban_ends_payments:
  assumes run: "ban_spot sv sp rep reason (ad, w) = (Inr (n, out), ad', w')" and ok: "db_ok (wd_db w)"
    and strict: "\<not> allow_dev_sends (sv_settings sv)" "\<not> allow_placeholders (sv_settings sv)"
  shows "(\<exists>s. get_spot sp (wd_db w') = Some s \<and> sp_status s = SPOT_STATUS_BANNED)
    \<and> (\<forall>c\<in>set (db_claims (wd_db w')). cl_spot_id c = sp \<longrightarrow> cl_status c = CLAIM_STATUS_FAILED \<or> committed_payout (wd_db w) (cl_id c))
    \<and> (\<forall>k detail u a f t h. get_claim k (wd_db w') = Some detail \<and> cl_spot_id (cd_claim detail) = sp
         \<longrightarrow> \<not> is_ok (guarded_create_claim_transaction u k a f t h (wd_db w')))
    \<and> (wd_sent w' = wd_sent w \<or> (\<exists>i rq state. state = spot_financial_state (get_transactions_by_spot sp MAX_LIMIT 0 (wd_db w))
         \<and> wd_sent w' = wd_sent w @ [(i, rq)] \<and> fs_pending state = [] \<and> rq_amount rq = fs_remaining state
         \<and> normalise_nimiq_address False (sv_fee_address sv) = Inr (rq_to rq) \<and> 0 < rq_amount rq
         \<and> (spot_rows_listed sp (wd_db w) \<longrightarrow>
              (\<forall>t\<in>set (db_trans (wd_db w)). tr_spot_id t = Some sp \<longrightarrow> tr_status t \<noteq> TRANS_STATUS_PENDING)
            \<and> rq_amount rq = sum_where tr_amount (\<lambda>t. tr_spot_id t = Some sp \<and> tr_type t = TRANS_TYPE_FILL_SPOT
                 \<and> tr_status t = TRANS_STATUS_CONFIRMED) (db_trans (wd_db w))
               - sum_where tr_amount (\<lambda>t. tr_spot_id t = Some sp \<and> tr_type t \<noteq> TRANS_TYPE_FILL_SPOT
                 \<and> tr_status t = TRANS_STATUS_CONFIRMED) (db_trans (wd_db w)))))"
proof -
  obtain ad1 d1 where now: "ban_spot_now sp rep reason (ad, wd_db w) = Inr (n, ad1, d1)"
      and m: "attempt_banned_spot_sweep sv sp (ad1, w\<lparr>wd_db := d1\<rparr>) = (Inr out, ad', w')"
    using run by (auto simp: ban_spot_def split: sum.split_asm prod.split_asm)
  note F = ban_now_facts [OF now ok]
  let ?state = "spot_financial_state (get_transactions_by_spot sp MAX_LIMIT 0 (wd_db w))"
  have rows: "get_transactions_by_spot sp MAX_LIMIT 0 d1 = get_transactions_by_spot sp MAX_LIMIT 0 (wd_db w)"
    using F(2,3) by (simp add: get_transactions_by_spot_def view_trans_detail_def has_user_def)
  have ok1: "db_ok (wd_db (w\<lparr>wd_db := d1\<rparr>))" using F(1) by simp
  have E: "db_spots (wd_db w') = db_spots d1 \<and> db_claims (wd_db w') = db_claims d1
    \<and> (wd_sent w' = wd_sent w \<or> (\<exists>i rq. wd_sent w' = wd_sent w @ [(i, rq)] \<and> fs_pending ?state = []
         \<and> rq_amount rq = fs_remaining ?state \<and> normalise_nimiq_address False (sv_fee_address sv) = Inr (rq_to rq)
         \<and> 0 < fs_remaining ?state))"
  proof (rule sweep_effect [OF m ok1])
    fix s i d2 f t to_addr h sent
    assume S: "create_ban_sweep_transaction (sv_settings sv) (sv_fee_address sv) (sp_created_by s) (sp_id s)
         (fs_remaining (spot_financial_state (get_transactions_by_spot sp MAX_LIMIT 0 (wd_db (w\<lparr>wd_db := d1\<rparr>)))))
           f t h (wd_db (w\<lparr>wd_db := d1\<rparr>)) = Inr (i, d2)"
      "db_spots (wd_db w') = db_spots (wd_db (w\<lparr>wd_db := d1\<rparr>))" "db_claims (wd_db w') = db_claims (wd_db (w\<lparr>wd_db := d1\<rparr>))"
      "wd_sent w' = wd_sent (w\<lparr>wd_db := d1\<rparr>) @ sent" "validate_nimiq_address (sv_settings sv) to_addr = Inr t"
      "validate_nimiq_address (sv_settings sv) (sp_deposit_address s) = Inr f"
      "get_spot sp (wd_db (w\<lparr>wd_db := d1\<rparr>)) = Some s"
      "sent = [] \<or> (\<exists>rq memo. build_send_request sv s t
         (fs_remaining (spot_financial_state (get_transactions_by_spot sp MAX_LIMIT 0 (wd_db (w\<lparr>wd_db := d1\<rparr>))))) memo = Inr rq \<and> sent = [(i, rq)])"
    have id: "sp_id s = sp" using S(7) by (auto simp: get_spot_def dest: find_row_SomeD)
    obtain et where C: "normalise_nimiq_address False (sv_fee_address sv) = Inr et" "normalise_nimiq_address False t = Inr et"
        "fs_pending ?state = []" "0 < fs_remaining ?state"
      by (rule sweep_create_cases [OF S(1)]) (use id rows strict in auto)
    have "normalise_nimiq_address False to_addr = Inr t" using S(5) strict by (simp add: validate_nimiq_address_def)
    then have t: "t = et" using normalise_idem C(2) by simp
    have "rq_to rq = t \<and> rq_amount rq = fs_remaining ?state" if "sent = [(i, rq)]" for rq
      using S(8) that send_request_of [OF _ strict(1) S(5,6)] rows by auto
    then show ?thesis using S(2,3,4,8) C(1,3,4) t by auto
  qed simp
  have spot: "\<exists>s. get_spot sp (wd_db w') = Some s \<and> sp_status s = SPOT_STATUS_BANNED"
    using E F(4) by (auto simp: get_spot_def)
  have gate: "\<not> is_ok (guarded_create_claim_transaction u k a f t h (wd_db w'))"
    if "get_claim k (wd_db w') = Some detail" "cl_spot_id (cd_claim detail) = sp" for k detail u a f t h
    using that spot by (auto simp: guarded_create_claim_transaction_def is_ok_def)
  have claims: "\<forall>c\<in>set (db_claims (wd_db w')). cl_spot_id c = sp
      \<longrightarrow> cl_status c = CLAIM_STATUS_FAILED \<or> committed_payout (wd_db w) (cl_id c)"
    using E F(5) by simp
  show ?thesis
  proof (intro conjI spot claims allI impI)
    fix k detail u a f t h
    assume "get_claim k (wd_db w') = Some detail \<and> cl_spot_id (cd_claim detail) = sp"
    then show "\<not> is_ok (guarded_create_claim_transaction u k a f t h (wd_db w'))" using gate by blast
  next
    show "wd_sent w' = wd_sent w \<or> (\<exists>i rq state. state = spot_financial_state (get_transactions_by_spot sp MAX_LIMIT 0 (wd_db w))
         \<and> wd_sent w' = wd_sent w @ [(i, rq)] \<and> fs_pending state = [] \<and> rq_amount rq = fs_remaining state
         \<and> normalise_nimiq_address False (sv_fee_address sv) = Inr (rq_to rq) \<and> 0 < rq_amount rq
         \<and> (spot_rows_listed sp (wd_db w) \<longrightarrow>
              (\<forall>t\<in>set (db_trans (wd_db w)). tr_spot_id t = Some sp \<longrightarrow> tr_status t \<noteq> TRANS_STATUS_PENDING)
            \<and> rq_amount rq = sum_where tr_amount (\<lambda>t. tr_spot_id t = Some sp \<and> tr_type t = TRANS_TYPE_FILL_SPOT
                 \<and> tr_status t = TRANS_STATUS_CONFIRMED) (db_trans (wd_db w))
               - sum_where tr_amount (\<lambda>t. tr_spot_id t = Some sp \<and> tr_type t \<noteq> TRANS_TYPE_FILL_SPOT
                 \<and> tr_status t = TRANS_STATUS_CONFIRMED) (db_trans (wd_db w))))"
    proof (cases "wd_sent w' = wd_sent w")
      case False
      then obtain i rq where q: "wd_sent w' = wd_sent w @ [(i, rq)]" "fs_pending ?state = []"
          "rq_amount rq = fs_remaining ?state" "normalise_nimiq_address False (sv_fee_address sv) = Inr (rq_to rq)"
          "0 < fs_remaining ?state" using E by blast
      note L = financial_state_listed [OF ok, of sp]
      show ?thesis
        by (intro disjI2 exI [of _ i] exI [of _ rq] exI [of _ ?state] conjI refl q impI)
          (use q L in auto)
    qed simp
  qed
qed

section \<open>Instances\<close>

lemma sample_outbox_ok: "outbox_ok sample_world"
  using sample_payout_db_ok by (simp add: outbox_ok_def sample_world_def)

lemma money_runs_consistent_witness:
  "\<exists>w'. money_run sample_services default_security_limits default_throttle_limits sample_world w'
    \<and> length (wd_sent w') = 1 \<and> outbox_ok w'"
proof -
  let ?run = "submit_claim_reward_transaction_with_throttle sample_services default_security_limits default_throttle_limits
     1 25000000 None sample_world"
  have n: "length (wd_sent (snd ?run)) = 1" by code_simp
  obtain r w' where run: "?run = (r, w')" by (cases ?run)
  have "money_run sample_services default_security_limits default_throttle_limits sample_world w'"
    by (rule money_run.step [OF money_run.start money_op.payout [OF run]])
  moreover from this have "outbox_ok w'" using money_runs_consistent [OF _ sample_outbox_ok] by blast
  ultimately show ?thesis using n run by auto
qed

lemma ban_ends_payments_witness:
  "\<exists>out ad' w' i rq. ban_spot sample_services 1 None None (\<lparr>ad_bans = [], ad_audit = []\<rparr>, sample_world) = (Inr (1, out), ad', w')
    \<and> wd_sent w' = [(i, rq)] \<and> rq_amount rq = 70000000"
proof -
  let ?ad = "\<lparr>ad_bans = [], ad_audit = []\<rparr> :: admin_state"
  let ?run = "ban_spot sample_services 1 None None (?ad, sample_world)"
  have c: "(case fst ?run of Inr (n, out) \<Rightarrow> n = 1 | Inl _ \<Rightarrow> False) \<and> wd_sent (snd (snd ?run)) \<noteq> []"
    by code_simp
  obtain q ad' w' where run: "?run = (q, ad', w')" by (metis prod_cases3)
  obtain out where q: "q = Inr (1, out)" using c run by (auto split: sum.split_asm)
  have st: "fs_remaining (spot_financial_state (get_transactions_by_spot 1 MAX_LIMIT 0 (wd_db sample_world))) = 70000000"
    by code_simp
  have "db_ok (wd_db sample_world)" "wd_sent sample_world = []" using sample_payout_db_ok by (simp_all add: sample_world_def)
  moreover have "\<not> allow_dev_sends (sv_settings sample_services)" "\<not> allow_placeholders (sv_settings sample_services)"
    by (simp_all add: sample_services_def)
  ultimately have "\<exists>i rq. wd_sent w' = [(i, rq)] \<and> rq_amount rq = 70000000"
    using ban_ends_payments [OF run [unfolded q]] c run st by auto
  then show ?thesis using run q by blast
qed

end
