(* ===== verification/ClaimGuards.thy ===== *)
theory ClaimGuards
  imports PayoutSecurity ClaimPolicy
begin

text \<open>
  What stands around the creation of a claim at run time:
  \<^verbatim>\<open>claim_location_guard.py\<close> (implausible travel between claimed Spots), the
  wallet limits of \<^verbatim>\<open>claim_security_defence_in_depth.py\<close> and
  \<^verbatim>\<open>claim_wallet_hourly_limit.py\<close>, and the claim route of \<^verbatim>\<open>public_html.py\<close>,
  which commits when the attempt is refused: a ban or a cooldown decided on the
  way stays. Hence these are acts of the world, whose effects survive an error.
\<close>

section \<open>Acts\<close>

definition get_world :: "world act" where
  "get_world w = (Inr w, w)"

definition change_security :: "(security_state \<Rightarrow> security_state) \<Rightarrow> unit act" where
  "change_security f w = (Inr (), w\<lparr>wd_security := f (wd_security w)\<rparr>)"

text \<open>\<^verbatim>\<open>async with transaction(db)\<close> around an act: any error restores all tables.\<close>

definition all_or_nothing :: "'a act \<Rightarrow> 'a act" where
  "all_or_nothing m w = (case m w of (Inl e, w') \<Rightarrow> (Inl e, w) | (Inr x, w') \<Rightarrow> (Inr x, w'))"

section \<open>Travel between claimed Spots (\<^verbatim>\<open>claim_location_guard.py\<close>)\<close>

definition RECENT_CLAIM_LIMIT :: nat where
  [const_defs]: "RECENT_CLAIM_LIMIT = 5"

definition HARD_BAN_MIN_DISTANCE_METRES :: rat where
  [const_defs]: "HARD_BAN_MIN_DISTANCE_METRES = 3000"

definition HARD_BAN_MAX_SPEED_METRES_PER_SECOND :: rat where
  [const_defs]: "HARD_BAN_MAX_SPEED_METRES_PER_SECOND = 500"

definition SOFT_COOLDOWN_MIN_DISTANCE_METRES :: rat where
  [const_defs]: "SOFT_COOLDOWN_MIN_DISTANCE_METRES = 1000"

definition SOFT_COOLDOWN_MAX_SPEED_METRES_PER_SECOND :: rat where
  [const_defs]: "SOFT_COOLDOWN_MAX_SPEED_METRES_PER_SECOND = 75"

text \<open>A place a user was: the centre and the radius of a Spot, with the claim made there if any.\<close>

record anchor =
  an_claim_id :: int
  an_spot_id :: int
  an_lat :: rat
  an_long :: rat
  an_radius :: int

record travel_metrics =
  tm_distance :: rat
  tm_elapsed :: int
  tm_speed :: rat
  tm_hard :: bool
  tm_soft :: bool
  tm_retry_at :: int

definition travel_metrics_of :: "distance_fun \<Rightarrow> anchor \<Rightarrow> anchor \<Rightarrow> int \<Rightarrow> int \<Rightarrow> travel_metrics" where
  "travel_metrics_of metres previous target observed_at checked_at =
    (let centre = metres (an_lat previous) (an_long previous) (an_lat target) (an_long target);
         distance = max 0 (fl (fl (centre - max 0 (of_int (an_radius previous))) - max 0 (of_int (an_radius target))))
     in if checked_at < observed_at
        then \<lparr>tm_distance = distance, tm_elapsed = 0, tm_speed = 0, tm_hard = False, tm_soft = False,
              tm_retry_at = checked_at\<rparr>
        else let elapsed = max 0 (checked_at - observed_at);
                 speed = fl (distance / of_int (max 1 elapsed));
                 required = \<lceil>fl (distance / SOFT_COOLDOWN_MAX_SPEED_METRES_PER_SECOND)\<rceil> + 1
             in \<lparr>tm_distance = distance, tm_elapsed = elapsed, tm_speed = speed,
                 tm_hard = (HARD_BAN_MIN_DISTANCE_METRES \<le> distance \<and> HARD_BAN_MAX_SPEED_METRES_PER_SECOND < speed),
                 tm_soft = (SOFT_COOLDOWN_MIN_DISTANCE_METRES \<le> distance
                            \<and> SOFT_COOLDOWN_MAX_SPEED_METRES_PER_SECOND < speed),
                 tm_retry_at = observed_at + max 1 required\<rparr>)"

definition claim_observed_at :: "claim_row \<Rightarrow> spot_row \<Rightarrow> int \<Rightarrow> int" where
  "claim_observed_at c s now =
    (let claimed_at = (if cl_claimed_at c = 0 then now else cl_claimed_at c)
     in if cl_status c = CLAIM_STATUS_PENDING \<and> 0 < sp_claim_duration s
        then max claimed_at (if cl_updated_at c = 0 then claimed_at else cl_updated_at c)
        else claimed_at)"

definition spot_anchor_of :: "int \<Rightarrow> spot_row \<Rightarrow> anchor option" where
  "spot_anchor_of claim_id s = (case (sp_lat s, sp_long s) of
     (Some la, Some lo) \<Rightarrow> Some \<lparr>an_claim_id = claim_id, an_spot_id = sp_id s, an_lat = la, an_long = lo,
                                 an_radius = sp_radius s\<rparr>
   | _ \<Rightarrow> None)"

definition recent_claim_anchors :: "int \<Rightarrow> int \<Rightarrow> db \<Rightarrow> (anchor \<times> int) list" where
  "recent_claim_anchors user_id now d = take RECENT_CLAIM_LIMIT (List.map_filter
     (\<lambda>c. case get_spot (cl_spot_id c) d of None \<Rightarrow> None
        | Some s \<Rightarrow> map_option (\<lambda>a. (a, claim_observed_at c s now)) (spot_anchor_of (cl_id c) s))
     (sort_key (\<lambda>c. - cl_claimed_at c) (sort_key (\<lambda>c. - cl_id c)
       (filter (\<lambda>c. cl_recipient c = user_id) (db_claims d)))))"

text \<open>A claim of the user and when it places them; its Spot may have no coordinates.\<close>

definition claim_anchor :: "int \<Rightarrow> int \<Rightarrow> int \<Rightarrow> db \<Rightarrow> (anchor option \<times> int) option" where
  "claim_anchor user_id claim_id now d =
    (case find_row cl_id claim_id (db_claims d) of None \<Rightarrow> None | Some c \<Rightarrow>
     if cl_recipient c \<noteq> user_id then None
     else map_option (\<lambda>s. (spot_anchor_of claim_id s, claim_observed_at c s now)) (get_spot (cl_spot_id c) d))"

definition spot_anchor :: "int \<Rightarrow> db \<Rightarrow> anchor option" where
  "spot_anchor spot_id d = (case get_spot spot_id d of None \<Rightarrow> None | Some s \<Rightarrow> spot_anchor_of 0 s)"

text \<open>The first of the largest, as a loop with a strict comparison keeps it.\<close>

fun first_max :: "('a \<Rightarrow> 'b::linorder) \<Rightarrow> 'a list \<Rightarrow> 'a option" where
  "first_max f [] = None"
| "first_max f (x # xs) = (case first_max f xs of None \<Rightarrow> Some x | Some y \<Rightarrow> if f x < f y then Some y else Some x)"

datatype location_decision =
    AllowClaim
  | BanUser string int
  | NewCooldown int int
  | Cooldown string int int

definition trusted_travel_decision :: "distance_fun \<Rightarrow> int \<Rightarrow> anchor \<Rightarrow> int \<Rightarrow> db \<Rightarrow> location_decision" where
  "trusted_travel_decision metres user_id target checked_at d =
    (let seen = map (\<lambda>(a, observed_at). (a, travel_metrics_of metres a target observed_at checked_at))
           (recent_claim_anchors user_id checked_at d)
     in case first_max (\<lambda>p. tm_speed (snd p)) (filter (\<lambda>p. tm_hard (snd p)) seen) of
          Some _ \<Rightarrow> BanUser ''hard_trusted_jump'' checked_at
        | None \<Rightarrow> (case first_max (\<lambda>p. tm_retry_at (snd p)) (filter (\<lambda>p. tm_soft (snd p)) seen) of
            Some (a, m) \<Rightarrow> NewCooldown (an_claim_id a) (tm_retry_at m)
          | None \<Rightarrow> AllowClaim))"

text \<open>
  While a cooldown runs. The second component is the marker afterwards;
  \<open>None\<close> as a decision lets the ordinary decision stand. A missing row clears the
  marker; \<^verbatim>\<open>float(None)\<close> of a trusted Spot without coordinates raises after that.
\<close>

definition active_cooldown_decision ::
  "distance_fun \<Rightarrow> int \<Rightarrow> anchor \<Rightarrow> suspicion \<Rightarrow> int \<Rightarrow> db \<Rightarrow> (location_decision option \<times> suspicion option) res" where
  "active_cooldown_decision metres user_id target sn checked_at d =
    (if sn_retry_at sn \<le> checked_at then Inr (None, None)
     else if an_spot_id target = sn_last_spot sn
     then Inr (Some (Cooldown ''consecutive_duplicate'' (sn_retry_at sn) checked_at), Some sn)
     else (case (claim_anchor user_id (sn_trusted_claim sn) checked_at d,
                 spot_anchor (sn_suspicious_spot sn) d, spot_anchor (sn_last_spot sn) d) of
         (Some (place, observed_at), Some original, Some previous) \<Rightarrow>
           let previous_soft = tm_soft (travel_metrics_of metres previous target (sn_last_at sn) checked_at)
           in (case place of
               None \<Rightarrow> Inl (TypeError ''float() argument must be a string or a real number'')
             | Some trusted_at \<Rightarrow>
               let trusted_soft = tm_soft (travel_metrics_of metres trusted_at target observed_at checked_at);
                   original_soft = tm_soft (travel_metrics_of metres original target (sn_attempted_at sn) checked_at)
               in if previous_soft \<and> trusted_soft \<and> original_soft
                  then Inr (Some (BanUser ''second_suspicious_jump'' checked_at), Some sn)
                  else Inr (Some (Cooldown (if previous_soft then ''mercy_rule'' else ''plausible_cooldown_movement'')
                                    (sn_retry_at sn) checked_at),
                            Some (sn\<lparr>sn_last_spot := an_spot_id target, sn_last_at := checked_at\<rparr>)))
       | _ \<Rightarrow> Inr (None, None)))"

definition store_suspicion :: "int \<Rightarrow> suspicion option \<Rightarrow> security_state \<Rightarrow> security_state" where
  "store_suspicion user_id sn ss = ss\<lparr>ss_suspicions := (case sn of
     None \<Rightarrow> delete_json user_id (ss_suspicions ss) | Some s \<Rightarrow> set_json user_id s (ss_suspicions ss))\<rparr>"

definition start_cooldown :: "int \<Rightarrow> int \<Rightarrow> int \<Rightarrow> int \<Rightarrow> int \<Rightarrow> location_decision act" where
  "start_cooldown user_id target_spot_id previous_claim_id retry_at checked_at =
    bindA (change_security (store_suspicion user_id (Some \<lparr>sn_trusted_claim = previous_claim_id,
      sn_suspicious_spot = target_spot_id, sn_attempted_at = checked_at, sn_retry_at = retry_at,
      sn_last_spot = target_spot_id, sn_last_at = checked_at\<rparr>))) (\<lambda>_.
    bindA (in_transaction (record_decision user_id ''impossible_claim_travel_cooldown'' TemporaryRestriction
      checked_at (Some retry_at))) (\<lambda>_.
    returnA (Cooldown ''new_suspicious_cooldown'' retry_at checked_at)))"

definition get_claim_location_decision :: "distance_fun \<Rightarrow> int \<Rightarrow> int \<Rightarrow> location_decision act" where
  "get_claim_location_decision metres user_id target_spot_id = bindA get_world (\<lambda>w.
    let d = wd_db w; checked_at = db_now d in
    case spot_anchor target_spot_id d of None \<Rightarrow> returnA AllowClaim | Some target \<Rightarrow>
    let trusted = trusted_travel_decision metres user_id target checked_at d in
    (case trusted of
       BanUser r c \<Rightarrow> returnA (BanUser r c)
     | _ \<Rightarrow>
       bindA (case get_json (ss_suspicions (wd_security w)) user_id of
           None \<Rightarrow> returnA None
         | Some sn \<Rightarrow> bindA (liftA (active_cooldown_decision metres user_id target sn checked_at d)) (\<lambda>(active, sn').
             bindA (change_security (store_suspicion user_id sn')) (\<lambda>_. returnA active))) (\<lambda>active.
       case active of Some decision \<Rightarrow> returnA decision
       | None \<Rightarrow> (case trusted of
           NewCooldown previous_claim_id retry_at \<Rightarrow>
             start_cooldown user_id target_spot_id previous_claim_id retry_at checked_at
         | decision \<Rightarrow> returnA decision))))"

definition ban_for_decision :: "int \<Rightarrow> int \<Rightarrow> 'a act" where
  "ban_for_decision user_id checked_at =
    bindA (commit_db (set_user_status_to_banned user_id)) (\<lambda>_.
    bindA (change_security (store_suspicion user_id None)) (\<lambda>_.
    bindA (in_transaction (record_decision user_id ''impossible_claim_travel'' AutomaticBan checked_at None)) (\<lambda>_.
    raiseA (ValueError ''This device account has been banned because recent claim locations could not have been reached in the time available.''))))"

definition create_claim_with_impossible_travel_guard ::
  "distance_fun \<Rightarrow> bool \<Rightarrow> int \<Rightarrow> int \<Rightarrow> rat \<Rightarrow> rat \<Rightarrow> rat \<Rightarrow> string option \<Rightarrow> int act" where
  "create_claim_with_impossible_travel_guard metres dev spot_id user_id lat long accuracy payout_address =
    bindA (liftA (clean_optional_nimiq_address dev False payout_address)) (\<lambda>clean_payout_address.
    bindA (get_claim_location_decision metres user_id spot_id) (\<lambda>decision.
    case decision of
      BanUser _ checked_at \<Rightarrow> ban_for_decision user_id checked_at
    | Cooldown _ retry_at _ \<Rightarrow> raiseA (CooldownError retry_at)
    | _ \<Rightarrow>
      bindA (in_transaction (create_claim dev spot_id user_id lat long accuracy clean_payout_address)) (\<lambda>claim_id.
      bindA (change_security (store_suspicion user_id None)) (\<lambda>_. returnA claim_id))))"

section \<open>Limits per verified wallet\<close>

definition bound_wallet :: "int \<Rightarrow> security_state \<Rightarrow> string option" where
  "bound_wallet user_id ss = (case get_json (ss_bindings ss) user_id of
     None \<Rightarrow> None | Some b \<Rightarrow> canonical_payout_address (bd_wallet b))"

definition verified_wallet_user_ids :: "string \<Rightarrow> security_state \<Rightarrow> int list" where
  "verified_wallet_user_ids wallet_address ss = (case canonical_payout_address wallet_address of
     None \<Rightarrow> []
   | Some canonical \<Rightarrow> sort (remdups (filter (\<lambda>u. 0 < u) (map (\<lambda>kb. bd_user_id (snd kb))
       (filter (\<lambda>kb. canonical_payout_address (bd_wallet (snd kb)) = Some canonical) (ss_bindings ss))))))"

definition wallet_active_claim_count :: "int \<Rightarrow> string \<Rightarrow> security_state \<Rightarrow> db \<Rightarrow> int" where
  "wallet_active_claim_count spot_id wallet_address ss d =
    (let user_ids = verified_wallet_user_ids wallet_address ss;
         statuses = CLAIM_STATUS_SUCCESS # (if is_prizedraw spot_id d then [CLAIM_STATUS_PENDING] else [])
     in if user_ids = [] then 0
        else count_where (\<lambda>c. cl_spot_id c = spot_id \<and> cl_recipient c \<in> set user_ids \<and> cl_status c \<in> set statuses)
               (db_claims d))"

definition wallet_has_reached_spot_limit :: "int \<Rightarrow> string \<Rightarrow> security_state \<Rightarrow> db \<Rightarrow> bool" where
  "wallet_has_reached_spot_limit spot_id wallet_address ss d = (case get_spot spot_id d of
     None \<Rightarrow> True
   | Some s \<Rightarrow> 0 < sp_max_claims_per_user s
       \<and> sp_max_claims_per_user s \<le> wallet_active_claim_count spot_id wallet_address ss d)"

definition verified_wallet_owns_spot :: "int \<Rightarrow> string \<Rightarrow> security_state \<Rightarrow> db \<Rightarrow> bool" where
  "verified_wallet_owns_spot spot_id wallet_address ss d = (case get_spot spot_id d of
     None \<Rightarrow> False
   | Some s \<Rightarrow> 0 < sp_created_by s \<and> bound_wallet (sp_created_by s) ss \<noteq> None
       \<and> bound_wallet (sp_created_by s) ss = canonical_payout_address wallet_address)"

text \<open>The payout address of a public claim: the verified wallet, whatever the browser sent.\<close>

definition bind_claim_to_wallet :: "settings \<Rightarrow> int \<Rightarrow> int \<Rightarrow> string option \<Rightarrow> security_state \<Rightarrow> db \<Rightarrow> string option res" where
  "bind_claim_to_wallet c spot_id user_id payout_address ss d =
    (if \<not> public_deployment c then Inr payout_address
     else case get_json (ss_bindings ss) user_id of
       None \<Rightarrow> Inl (ValueError ''A verified Nimiq wallet is required before claiming.'')
     | Some b \<Rightarrow> (case canonical_payout_address (bd_wallet b) of
         None \<Rightarrow> Inl (ValueError ''The verified Nimiq wallet for this claim is invalid.'')
       | Some verified_wallet \<Rightarrow>
           if verified_wallet_owns_spot spot_id verified_wallet ss d
           then Inl (ValueError ''You cannot claim your own spot.'')
           else if wallet_has_reached_spot_limit spot_id verified_wallet ss d
           then Inl (ValueError ''You have already reached your claim limit for this spot.'')
           else Inr (Some verified_wallet)))"

definition promote_claim_with_verified_wallet_limit :: "settings \<Rightarrow> security_state \<Rightarrow> promoter \<Rightarrow> promoter" where
  "promote_claim_with_verified_wallet_limit c ss delegate claim_id d =
    (if \<not> public_deployment c then delegate claim_id d
     else case get_claim claim_id d of None \<Rightarrow> delegate claim_id d | Some claim \<Rightarrow>
     let row = cd_claim claim; spot_id = cl_spot_id row in
     if cl_status row \<noteq> CLAIM_STATUS_PENDING \<or> is_prizedraw spot_id d then delegate claim_id d
     else case bound_wallet (cl_recipient row) ss of
       None \<Rightarrow> bindE (set_claim_status_to_failed claim_id d) (\<lambda>d1.
         Inr (map_option plain (get_claim claim_id d1), d1))
     | Some verified_wallet \<Rightarrow>
         if wallet_has_reached_spot_limit spot_id verified_wallet ss d
         then failed_promotion claim_id ''verified_wallet_claim_limit_reached'' d
         else delegate claim_id d)"

section \<open>The hourly limit of a wallet (\<^verbatim>\<open>claim_wallet_hourly_limit.py\<close>)\<close>

definition oldest_of :: "int list \<Rightarrow> int option" where
  "oldest_of stamps = (if stamps = [] then None else Some (Min (set stamps)))"

definition wallet_recent_claim_window :: "string \<Rightarrow> int \<Rightarrow> security_state \<Rightarrow> db \<Rightarrow> int \<times> int option" where
  "wallet_recent_claim_window wallet_address now ss d =
    (let user_ids = verified_wallet_user_ids wallet_address ss;
         stamps = map cl_claimed_at (filter (\<lambda>c. cl_recipient c \<in> set user_ids \<and> now - 60 * 60 < cl_claimed_at c)
           (db_claims d))
     in if user_ids = [] then (0, None) else (int (length stamps), oldest_of stamps))"

definition payout_address_recent_claim_window :: "string \<Rightarrow> int \<Rightarrow> db \<Rightarrow> int \<times> int option" where
  "payout_address_recent_claim_window payout_address now d = (case canonical_payout_address payout_address of
     None \<Rightarrow> (0, None)
   | Some canonical \<Rightarrow>
       let stamps = map cl_claimed_at (filter (\<lambda>c. cl_payout_address c = Some canonical \<and> now - 60 * 60 < cl_claimed_at c)
             (db_claims d))
       in (int (length stamps), oldest_of stamps))"

record preclaim =
  pc_blocked :: bool
  pc_reason :: string
  pc_retry_at :: int

definition preclaim_allowed :: preclaim where
  "preclaim_allowed = \<lparr>pc_blocked = False, pc_reason = ''allow'', pc_retry_at = 0\<rparr>"

definition hourly_decision :: "string \<Rightarrow> int \<Rightarrow> int \<Rightarrow> int \<times> int option \<Rightarrow> preclaim" where
  "hourly_decision reason limit now window = (case window of (n, oldest) \<Rightarrow>
     if n < max 1 limit then preclaim_allowed
     else \<lparr>pc_blocked = True, pc_reason = reason,
           pc_retry_at = (case oldest of None \<Rightarrow> now | Some t \<Rightarrow> t) + 60 * 60 + 1\<rparr>)"

definition durable_wallet_rate_decision :: "security_limits \<Rightarrow> string \<Rightarrow> int \<Rightarrow> security_state \<Rightarrow> db \<Rightarrow> preclaim" where
  "durable_wallet_rate_decision sl wallet_address now ss d =
     hourly_decision ''wallet_rate_limit'' (sl_wallet_hourly sl) now (wallet_recent_claim_window wallet_address now ss d)"

definition durable_payout_address_rate_decision :: "security_limits \<Rightarrow> string \<Rightarrow> int \<Rightarrow> db \<Rightarrow> preclaim" where
  "durable_payout_address_rate_decision sl payout_address now d =
     hourly_decision ''payout_address_rate_limit'' (sl_wallet_hourly sl) now
       (payout_address_recent_claim_window payout_address now d)"

definition hourly_limit_reached :: "settings \<Rightarrow> security_limits \<Rightarrow> int \<Rightarrow> security_state \<Rightarrow> db \<Rightarrow> bool" where
  "hourly_limit_reached c sl user_id ss d \<longleftrightarrow> public_deployment c
     \<and> (case bound_wallet user_id ss of None \<Rightarrow> False
        | Some wallet_address \<Rightarrow> pc_blocked (durable_wallet_rate_decision sl wallet_address (db_now d) ss d))"

section \<open>The attempt as it runs\<close>

text \<open>\<^verbatim>\<open>claim_code_policy.create_claim_attempt_success_only\<close> with the travel guard as \<^verbatim>\<open>create_claim\<close>.\<close>

definition guarded_create_or_refuse ::
  "distance_fun \<Rightarrow> bool \<Rightarrow> int \<Rightarrow> int \<Rightarrow> rat \<Rightarrow> rat \<Rightarrow> string option \<Rightarrow> int act" where
  "guarded_create_or_refuse metres dev spot_id user_id lat long payout_address =
    catchA (create_claim_with_impossible_travel_guard metres dev spot_id user_id lat long 1 payout_address) (\<lambda>e.
      raiseA (if e = IntegrityError ''spot cancellation has started''
              then ValueError ''This spot is being cancelled and can no longer be claimed.'' else e))"

definition finish_attempt :: "spot_row \<Rightarrow> int \<Rightarrow> claim_outcome act" where
  "finish_attempt s claim_id =
    (if sp_claim_duration s \<le> 0
     then bindA (in_transaction (policy_promoter claim_id)) (\<lambda>claim_after. case claim_after of
         None \<Rightarrow> in_transaction (reload_claim claim_id)
       | Some o' \<Rightarrow> (case co_promotion o' of
           None \<Rightarrow> returnA o'
         | Some p \<Rightarrow>
             if pr_ok p then returnA o'
             else raiseA (ValueError (if pr_reason p = ''claim_code_already_used'' then ''This code has already been used.''
               else if pr_reason p = ''claim_code_attempt_missing'' then ''This claim no longer has a valid code attempt.''
               else ''This spot has run out of rewards.''))))
     else in_transaction (reload_claim claim_id))"

definition attempt_with_guard ::
  "distance_fun \<Rightarrow> bool \<Rightarrow> int \<Rightarrow> int \<Rightarrow> rat \<Rightarrow> rat \<Rightarrow> rat option \<Rightarrow> string option \<Rightarrow> string option
     \<Rightarrow> claim_outcome act" where
  "attempt_with_guard metres dev spot_id user_id lat long location_accuracy_metres claim_code payout_address =
    bindA get_world (\<lambda>w.
    bindA (liftA (check_claim_attempt metres spot_id user_id lat long location_accuracy_metres claim_code (wd_db w)))
      (\<lambda>(s, code).
    bindA (guarded_create_or_refuse metres dev spot_id user_id lat long payout_address) (\<lambda>claim_id.
    bindA (case code of None \<Rightarrow> returnA () | Some (_, k) \<Rightarrow> commit_db (create_attempt claim_id (cc_id k))) (\<lambda>_.
    finish_attempt s claim_id))))"

text \<open>The wrappers in their order: the hourly limit outside, the wallet binding inside.\<close>

definition installed_claim_attempt ::
  "settings \<Rightarrow> security_limits \<Rightarrow> distance_fun \<Rightarrow> int \<Rightarrow> int \<Rightarrow> rat \<Rightarrow> rat \<Rightarrow> rat option \<Rightarrow> string option
     \<Rightarrow> string option \<Rightarrow> claim_outcome act" where
  "installed_claim_attempt c sl metres spot_id user_id lat long location_accuracy_metres claim_code payout_address =
    bindA get_world (\<lambda>w.
    if hourly_limit_reached c sl user_id (wd_security w) (wd_db w)
    then raiseA (ValueError ''Verified wallet hourly claim limit reached.'')
    else bindA (liftA (bind_claim_to_wallet c spot_id user_id payout_address (wd_security w) (wd_db w))) (\<lambda>address.
      attempt_with_guard metres (allow_placeholders c) spot_id user_id lat long location_accuracy_metres claim_code
        address))"

section \<open>The claim route (\<^verbatim>\<open>public_html.py\<close>)\<close>

text \<open>
  The user has been identified. A refused attempt answers from inside the
  transaction, which commits; any other error restores the tables. What is
  queued for after the response is the third component of an accepted claim: the
  route asks the bare Spot row for its prize count, which that row does not have,
  so a Prizedraw entry is treated like a standard claim.
\<close>

record claim_request =
  cr_lat :: "rat option"
  cr_long :: "rat option"
  cr_accuracy :: "rat option"
  cr_captcha :: "(int \<times> int \<times> int) option"
  cr_claim_code :: "string option"
  cr_payout_address :: "string option"

datatype claim_answer = ClaimRefused string | ClaimAccepted claim_outcome "int option"

definition refusal_code :: "py_error \<Rightarrow> string option" where
  "refusal_code e = (case e of
     ValueError message \<Rightarrow> (let lowered = py_lower message in
       Some (if contains ''already been used'' lowered then ''claim_code_used''
             else if contains ''claim code'' lowered then ''invalid_claim_code'' else ''claim_failed''))
   | CooldownError _ \<Rightarrow> Some ''claim_failed''
   | _ \<Rightarrow> None)"

definition answer_attempt :: "claim_outcome act \<Rightarrow> claim_answer act" where
  "answer_attempt attempt w = (case attempt w of
     (Inr o', w') \<Rightarrow> (Inr (ClaimAccepted o'
       (if outcome_status o' = CLAIM_STATUS_SUCCESS then Some (cl_id (cd_claim (co_claim o'))) else None)), w')
   | (Inl e, w') \<Rightarrow> (case refusal_code e of None \<Rightarrow> (Inl e, w') | Some code \<Rightarrow> (Inr (ClaimRefused code), w')))"

definition claim_spot_api ::
  "settings \<Rightarrow> security_limits \<Rightarrow> distance_fun \<Rightarrow> int \<Rightarrow> int \<Rightarrow> claim_request \<Rightarrow> claim_answer act" where
  "claim_spot_api c sl metres spot_id user_id rq = all_or_nothing (bindA get_world (\<lambda>w.
    case (cr_lat rq, cr_long rq) of
      (Some lat, Some long) \<Rightarrow>
        (case get_spot spot_id (wd_db w) of None \<Rightarrow> returnA (ClaimRefused ''spot_missing'') | Some s \<Rightarrow>
         if sp_use_password s = 1 \<and> cr_captcha rq = None then returnA (ClaimRefused ''captcha_required'')
         else if sp_use_password s = 1 \<and> (case cr_captcha rq of None \<Rightarrow> False | Some (a, b, answer) \<Rightarrow> a + b \<noteq> answer)
         then returnA (ClaimRefused ''captcha_failed'')
         else answer_attempt (installed_claim_attempt c sl metres spot_id user_id lat long (cr_accuracy rq)
           (cr_claim_code rq) (cr_payout_address rq)))
    | _ \<Rightarrow> returnA (ClaimRefused ''location_missing'')))"

end
