(* ===== verification/ClaimGuardProps.thy ===== *)
theory ClaimGuardProps
  imports ClaimGuards ClaimProps
begin

section \<open>Acts\<close>

lemmas act_defs = bindA_def returnA_def raiseA_def liftA_def in_transaction_def commit_db_def get_world_def
  change_security_def

lemma bindA_InrE:
  assumes "bindA m k w = (Inr y, w')"
  obtains x w1 where "m w = (Inr x, w1)" "k x w1 = (Inr y, w')"
  using assms by (auto simp: bindA_def split: prod.splits sum.splits)

lemma bindA_InlE:
  assumes "bindA m k w = (Inl e, w')"
  obtains (first) "m w = (Inl e, w')" | (second) x w1 where "m w = (Inr x, w1)" "k x w1 = (Inl e, w')"
  using assms by (auto simp: bindA_def split: prod.splits sum.splits)

lemma in_transaction_InrE:
  assumes "in_transaction f w = (Inr x, w')"
  obtains d where "f (wd_db w) = Inr (x, d)" "w' = w\<lparr>wd_db := d\<rparr>"
  using assms by (auto simp: in_transaction_def split: sum.splits)

lemma in_transaction_InlE:
  assumes "in_transaction f w = (Inl e, w')"
  shows "f (wd_db w) = Inl e \<and> w' = w"
  using assms by (auto simp: in_transaction_def split: sum.splits)

lemma commit_db_cases:
  assumes "commit_db f w = (r, w')"
  obtains (ok) d where "r = Inr ()" "f (wd_db w) = Inr d" "w' = w\<lparr>wd_db := d\<rparr>"
  | (error) e where "r = Inl e" "f (wd_db w) = Inl e" "w' = w"
  using assms by (cases "f (wd_db w)") (auto simp: commit_db_def in_transaction_def)

lemma act_simps [simp]:
  "get_world w = (Inr w, w)" "returnA x w = (Inr x, w)" "raiseA e w = (Inl e, w)" "liftA r w = (r, w)"
  "change_security f w = (Inr (), w\<lparr>wd_security := f (wd_security w)\<rparr>)"
  by (simp_all add: act_defs)

lemma bindA_simps [simp]:
  "m w = (Inr x, w1) \<Longrightarrow> bindA m k w = k x w1"
  "m w = (Inl e, w1) \<Longrightarrow> bindA m k w = (Inl e, w1)"
  by (simp_all add: bindA_def)

section \<open>Decisions of the travel guard\<close>

text \<open>
  Deciding leaves the tables of claims, codes and users alone; it answers with a
  ban, a running cooldown, or leave to claim.
\<close>

lemma record_decision_tables:
  assumes "record_decision u c t n e d = Inr (i, d')"
  shows "db_users d' = db_users d" "db_claims d' = db_claims d" "db_codes d' = db_codes d" "claim_frame d d'"
    "db_attempts d' = db_attempts d"
  using assms by (auto simp: record_decision_def Let_def prune_expired_def claim_frame_def split: if_splits)

definition only_guard :: "world \<Rightarrow> world \<Rightarrow> bool" where
  "only_guard w w' \<longleftrightarrow> (\<exists>sn. w' = w\<lparr>wd_security := wd_security w\<lparr>ss_suspicions := sn\<rparr>\<rparr>)"

lemma only_guard_refl [simp]: "only_guard w w"
  unfolding only_guard_def by (auto intro: exI [of _ "ss_suspicions (wd_security w)"])

lemma only_guard_store [simp]: "only_guard w (w\<lparr>wd_security := store_suspicion u sn (wd_security w)\<rparr>)"
  by (auto simp: only_guard_def store_suspicion_def)

lemma active_not_new:
  assumes "active_cooldown_decision metres u target sn now d = Inr (r, sn')"
  shows "r \<noteq> Some (NewCooldown k t)"
  using assms by (auto simp: active_cooldown_decision_def Let_def split: if_splits option.splits elim!: bindE_InrE)

lemma decision_cases:
  assumes "get_claim_location_decision metres u sp w = (Inr dec, w')"
  obtains (guard) "only_guard w w'" "\<And>k t. dec \<noteq> NewCooldown k t"
  | (fresh) i d t sn where "record_decision u ''impossible_claim_travel_cooldown'' TemporaryRestriction (db_now (wd_db w)) (Some t) (wd_db w) = Inr (i, d)"
      "wd_db w' = d" "wd_security w' = wd_security w\<lparr>ss_suspicions := sn\<rparr>" "wd_sent w' = wd_sent w" 
      "dec = Cooldown ''new_suspicious_cooldown'' t (db_now (wd_db w))"
proof (cases "spot_anchor sp (wd_db w)")
  case None
  then show thesis using assms guard by (simp add: get_claim_location_decision_def)
next
  case (Some target)
  let ?t = "trusted_travel_decision metres u target (db_now (wd_db w)) (wd_db w)"
  have new: "?t \<noteq> Cooldown a b c" for a b c
    by (simp add: trusted_travel_decision_def Let_def split: option.splits)
  show thesis
  proof (cases ?t)
    case (BanUser r c)
    then have "dec = BanUser r c" "w' = w" using assms Some by (simp_all add: get_claim_location_decision_def Let_def)
    then show thesis using guard by simp
  next
    case (Cooldown a b c)
    then show thesis using new by simp
  next
    case AllowClaim
    show thesis
    proof (cases "get_json (ss_suspicions (wd_security w)) u")
      case None
      then show thesis using assms Some AllowClaim guard by (simp add: get_claim_location_decision_def Let_def bindA_def)
    next
      case sn: (Some sn)
      then obtain active sn' where a: "active_cooldown_decision metres u target sn (db_now (wd_db w)) (wd_db w) = Inr (active, sn')"
        using assms Some AllowClaim
        by (auto simp: get_claim_location_decision_def Let_def bindA_def split: sum.splits)
      have "dec = (case active of None \<Rightarrow> AllowClaim | Some x \<Rightarrow> x)"
          "w' = w\<lparr>wd_security := store_suspicion u sn' (wd_security w)\<rparr>"
        using assms Some AllowClaim sn a
        by (auto simp: get_claim_location_decision_def Let_def bindA_def split: option.splits)
      moreover have "active \<noteq> Some (NewCooldown k t)" for k t using active_not_new a by blast
      ultimately show thesis using guard by (auto split: option.splits)
    qed
  next
    case (NewCooldown k t)
    have start: thesis
      if "start_cooldown u sp k t (db_now (wd_db w)) (w\<lparr>wd_security := s\<rparr>) = (Inr dec, w')"
        "\<exists>sn. s = wd_security w\<lparr>ss_suspicions := sn\<rparr>" for s
      using that fresh unfolding start_cooldown_def
      by (auto elim!: bindA_InrE in_transaction_InrE simp: store_suspicion_def)
    show thesis
    proof (cases "get_json (ss_suspicions (wd_security w)) u")
      case None
      then have "start_cooldown u sp k t (db_now (wd_db w)) (w\<lparr>wd_security := wd_security w\<rparr>) = (Inr dec, w')"
        using assms Some NewCooldown by (simp add: get_claim_location_decision_def Let_def bindA_def)
      then show thesis by (rule start) (auto intro: exI [of _ "ss_suspicions (wd_security w)"])
    next
      case sn: (Some sn)
      then obtain active sn' where a: "active_cooldown_decision metres u target sn (db_now (wd_db w)) (wd_db w) = Inr (active, sn')"
        using assms Some NewCooldown
        by (auto simp: get_claim_location_decision_def Let_def bindA_def split: sum.splits)
      let ?w = "w\<lparr>wd_security := store_suspicion u sn' (wd_security w)\<rparr>"
      show thesis
      proof (cases active)
        case None
        then have "start_cooldown u sp k t (db_now (wd_db w)) ?w = (Inr dec, w')"
          using assms Some NewCooldown sn a by (simp add: get_claim_location_decision_def Let_def bindA_def)
        then show thesis by (rule start) (auto simp: store_suspicion_def)
      next
        case (Some x)
        then have "dec = x" "w' = ?w"
          using assms \<open>spot_anchor sp (wd_db w) = Some target\<close> NewCooldown sn a
          by (simp_all add: get_claim_location_decision_def Let_def bindA_def)
        then show thesis using guard active_not_new [OF a] Some by simp
      qed
    qed
  qed
qed


text \<open>Errors that are neither a refusal nor turned into one.\<close>

definition passed_on :: "py_error \<Rightarrow> bool" where
  "passed_on e \<longleftrightarrow> refusal_code e = None \<and> e \<noteq> IntegrityError ''spot cancellation has started''"

lemma decision_error:
  assumes "get_claim_location_decision metres u sp w = (Inl e, w')"
  shows "passed_on e"
proof -
  have rec: "passed_on e" if "record_decision u ''impossible_claim_travel_cooldown'' TemporaryRestriction n t d = Inl e" for n t d
    using that by (auto simp: record_decision_def Let_def py_strip_def py_isspace_def code_of_def passed_on_def refusal_code_def split: if_splits)
  have act: "passed_on e" if "active_cooldown_decision metres u tg sn now d = Inl e" for tg sn now d
    using that
    by (auto simp: active_cooldown_decision_def claim_anchor_def Let_def passed_on_def refusal_code_def bindE_def
        split: if_splits option.splits sum.splits)
  show ?thesis
    using assms rec act
    by (auto simp: get_claim_location_decision_def start_cooldown_def Let_def
        elim!: bindA_InlE in_transaction_InlE dest!: in_transaction_InlE
        split: option.splits location_decision.splits prod.splits)
qed

text \<open>What a refused attempt may leave behind before its claim exists.\<close>

definition quiet :: "db \<Rightarrow> db \<Rightarrow> bool" where
  "quiet d d' \<longleftrightarrow> db_claims d' = db_claims d \<and> db_codes d' = db_codes d \<and> db_attempts d' = db_attempts d
     \<and> db_spots d' = db_spots d \<and> db_trans d' = db_trans d \<and> (claim_world d \<longrightarrow> claim_world d')"

lemma quiet_refl [simp]: "quiet d d"
  by (simp add: quiet_def)

lemma quiet_trans: "quiet d d1 \<Longrightarrow> quiet d1 d2 \<Longrightarrow> quiet d d2"
  by (simp add: quiet_def)

lemma quietI:
  assumes "db_claims d' = db_claims d" "db_codes d' = db_codes d" "db_attempts d' = db_attempts d"
    "db_spots d' = db_spots d" "db_prizedraws d' = db_prizedraws d" "db_trans d' = db_trans d" "db_ok d \<Longrightarrow> db_ok d'"
  shows "quiet d d'"
  using assms by (auto simp: quiet_def claim_world_def within_capacity_def codes_final_def is_prizedraw_def
      get_prizedraw_def count_claims_by_status_for_spot_def)

lemma quiet_decision: "record_decision u c t n e d = Inr (i, d') \<Longrightarrow> quiet d d'"
  using record_decision_ok [of u c t n e d i d']
  by (intro quietI) (auto simp: record_decision_def Let_def prune_expired_def split: if_splits)

lemma banned_db:
  assumes "set_user_status_to_banned u d = Inr d'"
  shows "d' = d\<lparr>db_users := update_where (\<lambda>r. us_id r = u) (\<lambda>r. r\<lparr>us_status := USER_STATUS_BANNED\<rparr>) (db_users d)\<rparr>"
    and "list_all user_check (update_where (\<lambda>r. us_id r = u) (\<lambda>r. r\<lparr>us_status := USER_STATUS_BANNED\<rparr>) (db_users d))"
  using assms
  by (simp_all add: set_user_status_to_banned_def modify_user_status_def update_user_def Let_def bindE_Inr_iff
      split: if_split_asm)

lemma quiet_ban:
  assumes "set_user_status_to_banned u d = Inr d'"
  shows "quiet d d'"
proof (rule quietI)
  show "db_ok d'" if "db_ok d"
    unfolding banned_db(1) [OF assms] by (rule update_users_ok [OF that banned_db(2) [OF assms]]) simp_all
qed (unfold banned_db(1) [OF assms], simp_all)

definition user_banned :: "int \<Rightarrow> db \<Rightarrow> bool" where
  "user_banned u d \<longleftrightarrow> (\<forall>x\<in>set (db_users d). us_id x = u \<longrightarrow> us_status x = USER_STATUS_BANNED)"

lemma banned_row:
  assumes "set_user_status_to_banned u d = Inr d'"
  shows "user_banned u d'"
  unfolding user_banned_def banned_db(1) [OF assms] by (simp add: update_where_def ball_Un)

lemma require_one_error: "require_one n m = Inl e \<Longrightarrow> passed_on e"
  by (auto simp: require_one_def guardE_def passed_on_def refusal_code_def split: if_splits)

lemma ban_error: "set_user_status_to_banned u d = Inl e \<Longrightarrow> passed_on e"
  by (cases "require_one (count_where (\<lambda>r. us_id r = u) (db_users d)) ''Failed to update user status''")
    (auto simp: set_user_status_to_banned_def modify_user_status_def update_user_def Let_def passed_on_def refusal_code_def
      dest: require_one_error split: if_splits)

lemma automatic_ban_error:
  "record_decision u ''impossible_claim_travel'' AutomaticBan n None d = Inl e \<Longrightarrow> passed_on e"
  by (auto simp: record_decision_def Let_def py_strip_def py_isspace_def code_of_def passed_on_def refusal_code_def split: if_splits)

lemma ban_cases:
  assumes "ban_for_decision u t w = (r, w')"
  obtains e where "r = Inl e" "quiet (wd_db w) (wd_db w')" "wd_sent w' = wd_sent w"
    "\<not> passed_on e \<Longrightarrow> user_banned u (wd_db w')" "e \<noteq> IntegrityError ''spot cancellation has started''"
proof (cases "set_user_status_to_banned u (wd_db w)")
  case (Inl e)
  then have "r = Inl e" "w' = w" using assms by (simp_all add: ban_for_decision_def bindA_def commit_db_def in_transaction_def)
  then show thesis using that ban_error [OF Inl] by (auto simp: passed_on_def)
next
  case (Inr d1)
  let ?w1 = "w\<lparr>wd_db := d1, wd_security := store_suspicion u None (wd_security w)\<rparr>"
  show thesis
  proof (cases "record_decision u ''impossible_claim_travel'' AutomaticBan t None d1")
    case (Inl e)
    then have "r = Inl e" "w' = ?w1"
      using assms Inr by (simp_all add: ban_for_decision_def bindA_def commit_db_def in_transaction_def)
    then show thesis using that quiet_ban [OF Inr] automatic_ban_error [OF Inl] by (auto simp: passed_on_def)
  next
    case rec: (Inr p)
    obtain i d2 where p: "p = (i, d2)" by (cases p)
    have "\<exists>e. r = Inl e \<and> e \<noteq> IntegrityError ''spot cancellation has started'' \<and> w' = ?w1\<lparr>wd_db := d2\<rparr>"
      using assms Inr rec p by (auto simp: ban_for_decision_def bindA_def commit_db_def in_transaction_def)
    moreover have "quiet (wd_db w) d2"
      using quiet_trans [OF quiet_ban [OF Inr] quiet_decision [OF rec [unfolded p]]] .
    moreover have "db_users d2 = db_users d1" by (rule record_decision_tables(1) [OF rec [unfolded p]])
    ultimately show thesis using that banned_row [OF Inr] by (auto simp: user_banned_def)
  qed
qed

text \<open>A guarded creation: made, refused with the claims untouched, or an error that restores the tables.\<close>

lemma strip_ends: "s \<noteq> [] \<Longrightarrow> \<not> py_isspace (hd s) \<Longrightarrow> \<not> py_isspace (last s) \<Longrightarrow> py_strip s = s"
  by (simp add: py_strip_def dropWhile_last_id hd_rev)

lemma format_ends:
  "s \<noteq> [] \<Longrightarrow> format_user_friendly_address s \<noteq> [] \<and> hd (format_user_friendly_address s) = hd s
     \<and> last (format_user_friendly_address s) = last s \<and> length (format_user_friendly_address s) \<le> 2 * length s"
  by (induction s rule: format_user_friendly_address.induct) auto

lemma candidate_no_space: "c \<in> set (normalise_address_candidate s) \<Longrightarrow> \<not> py_isspace c"
  by (auto simp: normalise_address_candidate_def join_split_def)

text \<open>A canonical address passes the cleaning of a payout address unchanged.\<close>

lemma canonical_clean:
  assumes n: "normalise_nimiq_address False v = Inr a"
  shows "clean_optional_nimiq_address dev False (Some a) = Inr (Some a)"
proof -
  let ?c = "normalise_address_candidate v"
  have a: "is_valid_nimiq_user_friendly_address ?c" "a = format_user_friendly_address ?c"
    using n by (auto simp: normalise_nimiq_address_def Let_def split: if_splits)
  have c: "length ?c = 36" using a(1) by (simp add: is_valid_nimiq_user_friendly_address_def Let_def split: if_splits)
  then have ne: "?c \<noteq> []" by auto
  note e = format_ends [OF ne, folded a(2)]
  have s: "py_strip a = a"
    by (rule strip_ends) (use e ne candidate_no_space [of "hd ?c" v] candidate_no_space [of "last ?c" v] in auto)
  have "normalise_nimiq_address dev a = Inr a"
  proof (cases "dev \<and> is_allowed_dev_placeholder_address a")
    case True
    then show ?thesis using e s by (simp add: normalise_nimiq_address_def Let_def)
  next
    case False
    then show ?thesis using normalise_idem [OF n] s by (auto simp: normalise_nimiq_address_def Let_def split: if_splits)
  qed
  then show ?thesis using s e c
    by (simp add: clean_optional_nimiq_address_def clean_optional_text_def Let_def const_defs)
qed

lemma clean_optional_idem:
  assumes "clean_optional_nimiq_address dev False p = Inr q"
  shows "clean_optional_nimiq_address dev False q = Inr q"
proof (cases q)
  case None
  then show ?thesis by (simp add: clean_optional_nimiq_address_def clean_optional_text_def)
next
  case (Some a)
  then obtain v where v: "clean_optional_text p = Some v" "length v \<le> 160" "normalise_nimiq_address dev v = Inr a"
    using assms by (auto simp: clean_optional_nimiq_address_def const_defs split: option.splits if_splits)
  have vs: "v \<noteq> []" "py_strip v = v" using v(1) by (auto simp: clean_optional_text_def Let_def split: option.splits if_splits)
  show ?thesis
  proof (cases "dev \<and> is_allowed_dev_placeholder_address v")
    case True
    then have "a = v" using v(3) vs by (simp add: normalise_nimiq_address_def Let_def)
    then show ?thesis using Some v vs True
      by (simp add: clean_optional_nimiq_address_def clean_optional_text_def Let_def const_defs normalise_nimiq_address_def)
  next
    case False
    then have "normalise_nimiq_address False v = Inr a"
      using v(3) vs by (auto simp: normalise_nimiq_address_def Let_def split: if_splits)
    then show ?thesis using canonical_clean Some by simp
  qed
qed

lemma create_claim_error:
  assumes "create_claim dev sp u la lo acc p d = Inl e" and "e \<noteq> IntegrityError ''spot cancellation has started''"
    and "clean_optional_nimiq_address dev False p = Inr q"
  shows "refusal_code e = None"
  using assms
  by (auto simp: create_claim_def insert_claim_def Let_def refusal_code_def split: if_splits option.splits)

lemma guarded_create_cases:
  assumes "guarded_create_or_refuse metres dev sp u la lo p w = (r, w')"
  obtains (made) i sn d' where "r = Inr i" "create_claim_or_refuse dev sp u la lo p (wd_db w) = Inr (i, d')"
      "get_claim_location_decision metres u sp w = (Inr AllowClaim, w\<lparr>wd_security := wd_security w\<lparr>ss_suspicions := sn\<rparr>\<rparr>)"
      "w' = w\<lparr>wd_db := d', wd_security := store_suspicion u None (wd_security w\<lparr>ss_suspicions := sn\<rparr>)\<rparr>"
  | (refused) e where "r = Inl e" "quiet (wd_db w) (wd_db w')" "wd_sent w' = wd_sent w"
  | (error) e where "r = Inl e" "refusal_code e = None"
proof -
  obtain r0 where g: "create_claim_with_impossible_travel_guard metres dev sp u la lo 1 p w = (r0, w')"
    and r: "r = (case r0 of Inr i \<Rightarrow> Inr i | Inl e \<Rightarrow> Inl (if e = IntegrityError ''spot cancellation has started''
              then ValueError ''This spot is being cancelled and can no longer be claimed.'' else e))"
    using assms unfolding guarded_create_or_refuse_def catchA_def by (auto split: prod.splits sum.splits)
  show thesis
  proof (cases "clean_optional_nimiq_address dev False p")
    case (Inl e)
    then have "r0 = Inl e" "w' = w" using g by (simp_all add: create_claim_with_impossible_travel_guard_def bindA_def)
    then show thesis using r refused by simp
  next
    case q: (Inr q)
    obtain dec0 w1 where d0: "get_claim_location_decision metres u sp w = (dec0, w1)"
      by (cases "get_claim_location_decision metres u sp w")
    show thesis
    proof (cases dec0)
      case (Inl e)
      then have "r0 = Inl e" using g q d0 by (simp add: create_claim_with_impossible_travel_guard_def bindA_def)
      moreover have "passed_on e" by (rule decision_error [OF d0 [unfolded Inl]])
      ultimately show thesis using r error by (simp add: passed_on_def)
    next
      case dec: (Inr dec)
      note cases = decision_cases [OF d0 [unfolded dec]]
      have q1: "quiet (wd_db w) (wd_db w1)" "wd_sent w1 = wd_sent w"
        by (rule cases, use quiet_decision in \<open>auto simp: only_guard_def\<close>)+
      have not_new: "dec \<noteq> NewCooldown k t" for k t by (rule cases) auto
      show thesis
      proof (cases dec)
        case (BanUser a t)
        then have "ban_for_decision u t w1 = (r0, w')"
          using g q d0 dec by (simp add: create_claim_with_impossible_travel_guard_def bindA_def)
        then obtain e where e: "r0 = Inl e" "quiet (wd_db w1) (wd_db w')" "wd_sent w' = wd_sent w1"
            "e \<noteq> IntegrityError ''spot cancellation has started''" by (rule ban_cases)
        then show thesis using r refused quiet_trans [OF q1(1) e(2)] q1(2) by simp
      next
        case (NewCooldown k t)
        then show thesis using not_new by simp
      next
        case (Cooldown a t n)
        then have "r0 = Inl (CooldownError t)" "w' = w1"
          using g q d0 dec by (simp_all add: create_claim_with_impossible_travel_guard_def bindA_def)
        then show thesis using r refused q1 by simp
      next
        case AllowClaim
        obtain sn where w1: "w1 = w\<lparr>wd_security := wd_security w\<lparr>ss_suspicions := sn\<rparr>\<rparr>"
          by (rule cases) (use AllowClaim in \<open>auto simp: only_guard_def\<close>)
        have q2: "create_claim dev sp u la lo 1 q d = create_claim dev sp u la lo 1 p d" for d
          using q clean_optional_idem [OF q] by (simp add: create_claim_def)
        show thesis
        proof (cases "create_claim dev sp u la lo 1 p (wd_db w)")
          case (Inl e)
          have r0: "r0 = Inl e" "w' = w1"
            using g q d0 dec AllowClaim w1 q2 Inl
            by (simp_all add: create_claim_with_impossible_travel_guard_def bindA_def in_transaction_def)
          show thesis
          proof (cases "e = IntegrityError ''spot cancellation has started''")
            case True
            then show thesis using r r0 Inl refused q1 by simp
          next
            case False
            then have "refusal_code e = None" using create_claim_error [OF Inl False q] by simp
            then show thesis using r r0 Inl False error by simp
          qed
        next
          case (Inr x)
          obtain i d' where x: "x = (i, d')" by (cases x)
          have "r0 = Inr i" "w' = w\<lparr>wd_db := d', wd_security := store_suspicion u None (wd_security w\<lparr>ss_suspicions := sn\<rparr>)\<rparr>"
            using g q d0 dec AllowClaim w1 q2 Inr x
            by (simp_all add: create_claim_with_impossible_travel_guard_def bindA_def in_transaction_def)
          then show thesis using made r d0 [unfolded dec AllowClaim w1] Inr x by (simp add: create_claim_or_refuse_def)
        qed
      qed
    qed
  qed
qed


section \<open>Errors that restore the tables\<close>

definition hard :: "'a res \<Rightarrow> bool" where
  "hard r \<longleftrightarrow> (\<forall>e. r = Inl e \<longrightarrow> refusal_code e = None)"

named_theorems hard_intros

lemma hard_bind [hard_intros]: "hard m \<Longrightarrow> (\<And>x. m = Inr x \<Longrightarrow> hard (k x)) \<Longrightarrow> hard (bindE m k)"
  by (auto simp: hard_def bindE_def split: sum.splits)

lemma hard_basic [hard_intros]: "hard (Inr x)" "hard (Inl (RuntimeError m))" "hard (Inl (IntegrityError m))"
  by (simp_all add: hard_def refusal_code_def)

lemma hard_if [hard_intros]: "(b \<Longrightarrow> hard x) \<Longrightarrow> (\<not> b \<Longrightarrow> hard y) \<Longrightarrow> hard (if b then x else y)"
  by simp

lemma hard_option [hard_intros]:
  "(v = None \<Longrightarrow> hard x) \<Longrightarrow> (\<And>a. v = Some a \<Longrightarrow> hard (f a)) \<Longrightarrow> hard (case v of None \<Rightarrow> x | Some a \<Rightarrow> f a)"
  by (cases v) simp_all

lemma hard_pair [hard_intros]: "(\<And>a b. p = (a, b) \<Longrightarrow> hard (f a b)) \<Longrightarrow> hard (case p of (a, b) \<Rightarrow> f a b)"
  by (cases p) simp

lemma hard_require [hard_intros]: "hard (require_one n m)"
  using require_one_error by (auto simp: hard_def passed_on_def)

lemma hard_update_claims [hard_intros]: "hard (update_claims b P f d)"
  by (simp add: update_claims_def Let_def hard_intros)

lemma hard_used_by [hard_intros]: "hard (update_used_by P v d)"
  by (simp add: update_used_by_def Let_def hard_intros)

lemma hard_attempt [hard_intros]: "hard (insert_attempt k q d)"
  by (simp add: insert_attempt_def Let_def hard_intros)

lemma hard_status [hard_intros]: "hard (modify_claim_status k st d)"
  unfolding modify_claim_status_def update_claim_def Let_def by (intro hard_intros)

lemma hard_failed [hard_intros]: "hard (set_claim_status_to_failed k d)" "hard (set_claim_status_to_success k d)"
  "hard (failed_promotion k m d)"
  unfolding set_claim_status_to_failed_def set_claim_status_to_success_def failed_promotion_def
  by (intro hard_intros)+

lemma hard_full [hard_intros]: "hard (fail_pending_standard_duration_claims_if_capacity_full s d)"
  unfolding fail_pending_standard_duration_claims_if_capacity_full_def Let_def by (intro hard_intros)

lemma hard_base [hard_intros]: "hard (promote_pending_claim_to_success_if_capacity_available k d)"
  unfolding promote_pending_claim_to_success_if_capacity_available_def Let_def by (intro hard_intros)

lemma hard_policy [hard_intros]: "hard (policy_promoter k d)"
  unfolding policy_promoter_def promote_pending_claim_to_success_if_code_available_def release_code_from_claim_def Let_def
  by (intro hard_intros)

lemma hard_reload [hard_intros]: "hard (reload_claim k d)"
  unfolding reload_claim_def by (intro hard_intros)


section \<open>A promotion that is refused\<close>

definition refused_promotion :: "claim_outcome \<Rightarrow> bool" where
  "refused_promotion o' \<longleftrightarrow> (\<exists>p. co_promotion o' = Some p \<and> \<not> pr_ok p)"

lemma refused_simps [simp]: "\<not> refused_promotion (plain v)"
  by (simp add: refused_promotion_def plain_def)

lemma refused_promoted: "promoted b m x = Some o' \<Longrightarrow> refused_promotion o' \<longleftrightarrow> \<not> b"
  by (auto simp: promoted_def refused_promotion_def)

lemma base_refused:
  assumes p: "promote_pending_claim_to_success_if_capacity_available k d = Inr (Some o', d')" and no: "refused_promotion o'"
  shows "modify_claim_status k CLAIM_STATUS_FAILED d = Inr d'"
proof (cases rule: base_promote_cases [OF p, case_names same free won full])
  case same
  then show ?thesis using no by (cases "get_claim k d") auto
next
  case (free c m)
  then show ?thesis using no refused_promoted [of True m] by metis
next
  case (won c d1 clean)
  then show ?thesis using no by (cases "get_claim k d1") (auto simp: promoted_def refused_promotion_def)
next
  case (full c d1)
  then show ?thesis using update_claims_none by blast
qed


lemma spent_released:
  assumes "q \<in> set (update_where (\<lambda>q. cc_used_by q = Some k) (\<lambda>r. r\<lparr>cc_used_by := None\<rparr>) rows)" and "cc_used_by q = Some c"
  shows "q \<in> set rows \<and> c \<noteq> k"
  using released_code assms by blast

text \<open>
  A refused promotion fails the claim and nothing else; every code that is
  consumed afterwards was consumed before.
\<close>

lemma policy_refused:
  assumes p: "policy_promoter k d = Inr (Some o', d')" and no: "refused_promotion o'" and ok: "db_ok d"
  shows "db_claims d' = update_where (\<lambda>c. cl_id c = k) (\<lambda>c. c\<lparr>cl_status := CLAIM_STATUS_FAILED, cl_updated_at := db_now d\<rparr>)
      (db_claims d)"
    and "q \<in> set (db_codes d') \<Longrightarrow> cc_used_by q = Some c \<Longrightarrow> \<exists>q0\<in>set (db_codes d). cc_used_by q0 = Some c"
proof -
  note M = modify_claim_status_Inr
  have "db_claims d' = update_where (\<lambda>c. cl_id c = k) (\<lambda>c. c\<lparr>cl_status := CLAIM_STATUS_FAILED, cl_updated_at := db_now d\<rparr>)
      (db_claims d) \<and> (\<forall>q\<in>set (db_codes d'). \<forall>c. cc_used_by q = Some c \<longrightarrow> (\<exists>q0\<in>set (db_codes d). cc_used_by q0 = Some c))"
    (is "?claims \<and> ?codes")
  proof (cases rule: base_inner.policy_cases [OF p [unfolded policy_promoter_def], case_names same inner failed won lost])
    case same
    then show ?thesis using no by (cases "get_claim k d") auto
  next
    case inner
    note m = base_refused [OF inner no]
    show ?thesis using M(3,4) [OF m ok] by auto
  next
    case (failed c m)
    then have m: "modify_claim_status k CLAIM_STATUS_FAILED d = Inr d'"
      by (auto simp: failed_promotion_def set_claim_status_to_failed_def)
    show ?thesis using M(3,4) [OF m ok] by auto
  next
    case (won i d1)
    have ok1: "db_ok d1" using update_used_by_ok won(1) ok by blast
    note m = base_refused [OF won(2) no]
    have "reports k (Some o') d'" using base_promote_safe [OF won(2) ok1] by simp
    moreover have "map_option cl_status (find_row cl_id k (db_claims d')) \<noteq> Some CLAIM_STATUS_SUCCESS"
      using find_claim_update [OF M(4) [OF m ok1], of k] by (cases "find_row cl_id k (db_claims d1)") (auto dest: find_row_SomeD)
    ultimately show ?thesis using won(3) by (auto simp: reports_def)
  next
    case (lost i d1 d2)
    have ok1: "db_ok d1" using update_used_by_ok lost(1) ok by blast
    note m = base_refused [OF lost(2) no]
    note U = update_used_by_frame [OF lost(1)] and R = update_used_by_frame [OF lost(3) [unfolded release_code_from_claim_def]]
    have "db_claims d' = db_claims d2" "db_claims d1 = db_claims d" "db_now d1 = db_now d"
      using R U by (simp_all add: claim_frame_def)
    then have ?claims using M(4) [OF m ok1] by simp
    moreover have ?codes
    proof (intro ballI allI impI)
      fix q c assume q: "q \<in> set (db_codes d')" "cc_used_by q = Some c"
      then have two: "q \<in> set (db_codes d1)" "c \<noteq> k"
        using spent_released [OF q(1) [unfolded R(3)] q(2)] M(3) [OF m ok1] by auto
      then show "\<exists>q0\<in>set (db_codes d). cc_used_by q0 = Some c"
        using taken_code [OF two(1) [unfolded U(3)] q(2)] by blast
    qed
    ultimately show ?thesis by simp
  qed
  then show ?claims "q \<in> set (db_codes d') \<Longrightarrow> cc_used_by q = Some c \<Longrightarrow> \<exists>q0\<in>set (db_codes d). cc_used_by q0 = Some c"
    by blast+
qed


section \<open>The attempt behind the travel guard\<close>

text \<open>What \<open>create_claim_attempt_success_only\<close> does once the claim row exists.\<close>

definition after_creation :: "spot_row \<Rightarrow> (string \<times> code_row) option \<Rightarrow> int \<Rightarrow> db \<Rightarrow> (claim_outcome \<times> db) res" where
  "after_creation s code claim_id d1 =
    bindE (case code of None \<Rightarrow> Inr d1 | Some (_, k) \<Rightarrow> create_attempt claim_id (cc_id k) d1) (\<lambda>d2.
    if sp_claim_duration s \<le> 0
    then bindE (policy_promoter claim_id d2) (\<lambda>(claim_after, d3).
         (case claim_after of
            None \<Rightarrow> reload_claim claim_id d3
          | Some o' \<Rightarrow>
             (case co_promotion o' of
                Some p \<Rightarrow>
                  if \<not> pr_ok p
                  then (if pr_reason p = ''claim_code_already_used''
                        then Inl (ValueError ''This code has already been used.'')
                        else if pr_reason p = ''claim_code_attempt_missing''
                        then Inl (ValueError ''This claim no longer has a valid code attempt.'')
                        else Inl (ValueError ''This spot has run out of rewards.''))
                  else Inr (o', d3)
              | None \<Rightarrow> Inr (o', d3))))
    else reload_claim claim_id d2)"

lemma attempt_split:
  "create_claim_attempt_success_only metres dev sp u la lo acc code p d =
    bindE (check_claim_attempt metres sp u la lo acc code d) (\<lambda>(s, k).
    bindE (create_claim_or_refuse dev sp u la lo p d) (\<lambda>(i, d1). after_creation s k i d1))"
  by (simp add: create_claim_attempt_success_only_def after_creation_def)

definition rest_of_attempt :: "spot_row \<Rightarrow> (string \<times> code_row) option \<Rightarrow> int \<Rightarrow> claim_outcome act" where
  "rest_of_attempt s code claim_id =
     bindA (case code of None \<Rightarrow> returnA () | Some (_, k) \<Rightarrow> commit_db (create_attempt claim_id (cc_id k))) (\<lambda>_.
       finish_attempt s claim_id)"

lemma finish_cases:
  assumes "finish_attempt s i w = (r, w')"
  obtains (done') o' d' where "r = Inr o'" "w' = w\<lparr>wd_db := d'\<rparr>" "after_creation s None i (wd_db w) = Inr (o', d')"
  | (refused) e o' d' where "r = Inl e" "w' = w\<lparr>wd_db := d'\<rparr>" "policy_promoter i (wd_db w) = Inr (Some o', d')"
      "refused_promotion o'" "after_creation s None i (wd_db w) = Inl e"
  | (error) e where "r = Inl e" "refusal_code e = None" "after_creation s None i (wd_db w) = Inl e"
proof (cases "sp_claim_duration s \<le> 0")
  case False
  then have f: "finish_attempt s i w = in_transaction (reload_claim i) w"
      "after_creation s None i (wd_db w) = reload_claim i (wd_db w)" by (simp_all add: finish_attempt_def after_creation_def)
  show thesis
  proof (cases "reload_claim i (wd_db w)")
    case (Inl e)
    then show thesis using error assms f hard_reload [of i "wd_db w"] by (auto simp: in_transaction_def hard_def)
  next
    case (Inr x)
    then show thesis using done' assms f by (cases x) (auto simp: in_transaction_def)
  qed
next
  case True
  show thesis
  proof (cases "policy_promoter i (wd_db w)")
    case (Inl e)
    then show thesis using error assms True hard_policy [of i "wd_db w"]
      by (auto simp: finish_attempt_def after_creation_def in_transaction_def bindA_def hard_def)
  next
    case (Inr x)
    then obtain after d3 where x: "policy_promoter i (wd_db w) = Inr (after, d3)" by (cases x) auto
    let ?w3 = "w\<lparr>wd_db := d3\<rparr>"
    show thesis
    proof (cases after)
      case None
      then have f: "finish_attempt s i w = in_transaction (reload_claim i) ?w3"
          "after_creation s None i (wd_db w) = reload_claim i d3"
        using x True by (simp_all add: finish_attempt_def after_creation_def in_transaction_def bindA_def)
      show thesis
      proof (cases "reload_claim i d3")
        case (Inl e)
        then show thesis using error assms f hard_reload [of i d3] by (auto simp: in_transaction_def hard_def)
      next
        case (Inr y)
        then show thesis using done' assms f by (cases y) (auto simp: in_transaction_def)
      qed
    next
      case (Some o')
      show thesis
      proof (cases "co_promotion o'")
        case None
        show thesis
          by (rule done' [of o' d3]) (use None assms x Some True in
            \<open>auto simp: finish_attempt_def after_creation_def in_transaction_def bindA_def\<close>)
      next
        case p: (Some pr)
        show thesis
        proof (cases "pr_ok pr")
          case True
          show thesis
            by (rule done' [of o' d3]) (use True assms x Some p \<open>sp_claim_duration s \<le> 0\<close> in
              \<open>auto simp: finish_attempt_def after_creation_def in_transaction_def bindA_def\<close>)
        next
          case False
          then have ref: "refused_promotion o'" using p by (simp add: refused_promotion_def)
          show thesis
            by (rule refused [OF _ _ x [unfolded Some] ref])
              (use assms x Some p False \<open>sp_claim_duration s \<le> 0\<close> in
                \<open>auto simp: finish_attempt_def after_creation_def in_transaction_def bindA_def\<close>)
        qed
      qed
    qed
  qed
qed


lemma attempt_commit:
  "bindA (case code of None \<Rightarrow> returnA () | Some (_, k) \<Rightarrow> commit_db (create_attempt i (cc_id k))) (\<lambda>_. m) w =
    (case (case code of None \<Rightarrow> Inr (wd_db w) | Some (_, k) \<Rightarrow> create_attempt i (cc_id k) (wd_db w)) of
       Inl e \<Rightarrow> (Inl e, w) | Inr d \<Rightarrow> m (w\<lparr>wd_db := d\<rparr>))"
  by (auto simp: bindA_def commit_db_def in_transaction_def bindE_def split: option.splits sum.splits prod.splits)

lemma rest_cases:
  assumes "rest_of_attempt s code i w = (r, w')"
  obtains (done') o' d' where "r = Inr o'" "w' = w\<lparr>wd_db := d'\<rparr>" "after_creation s code i (wd_db w) = Inr (o', d')"
  | (refused) e o' d2 d' where "r = Inl e" "w' = w\<lparr>wd_db := d'\<rparr>" "policy_promoter i d2 = Inr (Some o', d')"
      "refused_promotion o'" "after_creation s code i (wd_db w) = Inl e"
      "(code = None \<and> d2 = wd_db w) \<or> (\<exists>x q. code = Some (x, q) \<and> insert_attempt i (cc_id q) (wd_db w) = Inr d2)"
  | (error) e where "r = Inl e" "refusal_code e = None" "after_creation s code i (wd_db w) = Inl e"
proof -
  let ?c = "case code of None \<Rightarrow> Inr (wd_db w) | Some (_, k) \<Rightarrow> create_attempt i (cc_id k) (wd_db w)"
  have A: "after_creation s code i (wd_db w) = bindE ?c (after_creation s None i)"
    by (auto simp: after_creation_def bindE_def split: option.splits sum.splits)
  show thesis
  proof (cases ?c)
    case (Inl e)
    then have "\<exists>q. insert_attempt i q (wd_db w) = Inl e" by (auto simp: create_attempt_def split: option.splits)
    then have "refusal_code e = None" using hard_attempt [of i _ "wd_db w"] by (auto simp: hard_def)
    then show thesis by (intro error [of e]) (use assms Inl A in \<open>auto simp: rest_of_attempt_def attempt_commit\<close>)
  next
    case (Inr d2)
    then have f: "finish_attempt s i (w\<lparr>wd_db := d2\<rparr>) = (r, w')" using assms by (simp add: rest_of_attempt_def attempt_commit)
    have A2: "after_creation s code i (wd_db w) = after_creation s None i d2" using A Inr by simp
    have k: "(code = None \<and> d2 = wd_db w) \<or> (\<exists>x q. code = Some (x, q) \<and> insert_attempt i (cc_id q) (wd_db w) = Inr d2)"
      using Inr by (auto simp: create_attempt_def split: option.splits)
    show thesis
      by (rule finish_cases [OF f]) (use A2 k done' refused error in auto)
  qed
qed

definition cleared :: "int \<Rightarrow> (int \<times> suspicion) list \<Rightarrow> db \<Rightarrow> world \<Rightarrow> world" where
  "cleared u sn d w = w\<lparr>wd_db := d, wd_security := store_suspicion u None (wd_security w\<lparr>ss_suspicions := sn\<rparr>)\<rparr>"

lemma cleared_db [simp]: "wd_db (cleared u sn d w) = d" "wd_sent (cleared u sn d w) = wd_sent w"
  "cleared u sn d w\<lparr>wd_db := d'\<rparr> = cleared u sn d' w"
  by (simp_all add: cleared_def)

lemma guarded_create_made:
  assumes dec: "get_claim_location_decision metres u sp w = (Inr AllowClaim, w\<lparr>wd_security := wd_security w\<lparr>ss_suspicions := sn\<rparr>\<rparr>)"
    and c: "create_claim_or_refuse dev sp u la lo p (wd_db w) = Inr (i, d1)"
  shows "guarded_create_or_refuse metres dev sp u la lo p w = (Inr i, cleared u sn d1 w)"
proof -
  have c1: "create_claim dev sp u la lo 1 p (wd_db w) = Inr (i, d1)"
    using c by (auto simp: create_claim_or_refuse_def split: sum.splits py_error.splits if_splits)
  then obtain q where q: "clean_optional_nimiq_address dev False p = Inr q" by (auto simp: create_claim_def)
  then have "create_claim dev sp u la lo 1 q (wd_db w) = Inr (i, d1)"
    using c1 clean_optional_idem [OF q] by (simp add: create_claim_def)
  then show ?thesis using q dec
    by (simp add: guarded_create_or_refuse_def catchA_def create_claim_with_impossible_travel_guard_def bindA_def
        in_transaction_def cleared_def)
qed

lemma guarded_attempt_cases:
  assumes "attempt_with_guard metres dev sp u la lo acc code p w = (r, w')"
  obtains (accepted) o' d' sn where "r = Inr o'" "w' = cleared u sn d' w"
      "create_claim_attempt_success_only metres dev sp u la lo acc code p (wd_db w) = Inr (o', d')"
      "get_claim_location_decision metres u sp w = (Inr AllowClaim, w\<lparr>wd_security := wd_security w\<lparr>ss_suspicions := sn\<rparr>\<rparr>)"
  | (early) e where "r = Inl e" "quiet (wd_db w) (wd_db w')" "wd_sent w' = wd_sent w"
  | (late) e i o' d1 d2 sn x where "r = Inl e" "create_claim_or_refuse dev sp u la lo p (wd_db w) = Inr (i, d1)"
      "d2 = d1 \<or> (\<exists>q. insert_attempt i q d1 = Inr d2)"
      "policy_promoter i d2 = Inr (Some o', x)" "refused_promotion o'" "w' = cleared u sn x w"
  | (hard_error) e where "r = Inl e" "refusal_code e = None"
proof (cases "check_claim_attempt metres sp u la lo acc code (wd_db w)")
  case (Inl e)
  then have "r = Inl e" "w' = w" using assms by (simp_all add: attempt_with_guard_def bindA_def)
  then show thesis using early by simp
next
  case (Inr x)
  then obtain s k where sk: "check_claim_attempt metres sp u la lo acc code (wd_db w) = Inr (s, k)" by (cases x) auto
  have A: "bindA (guarded_create_or_refuse metres dev sp u la lo p) (rest_of_attempt s k) w = (r, w')"
    using assms sk by (simp add: attempt_with_guard_def rest_of_attempt_def [abs_def] bindA_def)
  obtain g w1 where g: "guarded_create_or_refuse metres dev sp u la lo p w = (g, w1)"
    by (cases "guarded_create_or_refuse metres dev sp u la lo p w")
  show thesis
  proof (cases rule: guarded_create_cases [OF g, case_names made refused error])
    case (refused e)
    then show thesis by (intro early [of e]) (use A g in \<open>auto simp: bindA_def\<close>)
  next
    case (error e)
    then show thesis by (intro hard_error [of e]) (use A g in \<open>auto simp: bindA_def\<close>)
  next
    case (made i sn d')
    then have w1: "w1 = cleared u sn d' w" by (simp add: cleared_def)
    have R: "rest_of_attempt s k i w1 = (r, w')" using A g made(1) by (simp add: bindA_def)
    show thesis
    proof (cases rule: rest_cases [OF R, case_names done' refused error])
      case (done' o' d2)
      then have "create_claim_attempt_success_only metres dev sp u la lo acc code p (wd_db w) = Inr (o', d2)"
        using attempt_split sk made(2) w1 by simp
      then show thesis using accepted [OF done'(1) _ _ made(3)] done'(2) w1 by simp
    next
      case (refused e o' d2 d3)
      then show thesis using late [OF refused(1) made(2) _ refused(3,4)] w1 by auto
    next
      case (error e)
      then show thesis by (intro hard_error [of e]) auto
    qed
  qed
qed


text \<open>
  C7: Behind the travel guard an attempt succeeds exactly when the guard allows the
  claim and the unguarded attempt succeeds; then it has the same outcome and the
  same tables, and the only other effect is that the user's marker is gone.
\<close>

theorem guarded_attempt_exact:
  "attempt_with_guard metres dev sp u la lo acc code p w = (Inr o', w') \<longleftrightarrow>
    (\<exists>sn d'. get_claim_location_decision metres u sp w = (Inr AllowClaim, w\<lparr>wd_security := wd_security w\<lparr>ss_suspicions := sn\<rparr>\<rparr>)
      \<and> create_claim_attempt_success_only metres dev sp u la lo acc code p (wd_db w) = Inr (o', d')
      \<and> w' = w\<lparr>wd_db := d', wd_security := store_suspicion u None (wd_security w\<lparr>ss_suspicions := sn\<rparr>)\<rparr>)"
proof
  assume "attempt_with_guard metres dev sp u la lo acc code p w = (Inr o', w')"
  then show "\<exists>sn d'. get_claim_location_decision metres u sp w = (Inr AllowClaim, w\<lparr>wd_security := wd_security w\<lparr>ss_suspicions := sn\<rparr>\<rparr>)
      \<and> create_claim_attempt_success_only metres dev sp u la lo acc code p (wd_db w) = Inr (o', d')
      \<and> w' = w\<lparr>wd_db := d', wd_security := store_suspicion u None (wd_security w\<lparr>ss_suspicions := sn\<rparr>)\<rparr>"
    by (rule guarded_attempt_cases) (auto simp: cleared_def)
next
  assume "\<exists>sn d'. get_claim_location_decision metres u sp w = (Inr AllowClaim, w\<lparr>wd_security := wd_security w\<lparr>ss_suspicions := sn\<rparr>\<rparr>)
      \<and> create_claim_attempt_success_only metres dev sp u la lo acc code p (wd_db w) = Inr (o', d')
      \<and> w' = w\<lparr>wd_db := d', wd_security := store_suspicion u None (wd_security w\<lparr>ss_suspicions := sn\<rparr>)\<rparr>"
  then obtain sn d' where
    dec: "get_claim_location_decision metres u sp w = (Inr AllowClaim, w\<lparr>wd_security := wd_security w\<lparr>ss_suspicions := sn\<rparr>\<rparr>)"
    and a: "create_claim_attempt_success_only metres dev sp u la lo acc code p (wd_db w) = Inr (o', d')"
    and w': "w' = cleared u sn d' w" by (auto simp: cleared_def)
  obtain s k i d1 where c: "check_claim_attempt metres sp u la lo acc code (wd_db w) = Inr (s, k)"
      "create_claim_or_refuse dev sp u la lo p (wd_db w) = Inr (i, d1)" "after_creation s k i d1 = Inr (o', d')"
    using a by (auto simp: attempt_split elim!: bindE_InrE)
  obtain r w2 where R: "rest_of_attempt s k i (cleared u sn d1 w) = (r, w2)"
    by (cases "rest_of_attempt s k i (cleared u sn d1 w)")
  have "r = Inr o' \<and> w2 = w'"
    by (cases rule: rest_cases [OF R]) (use c(3) w' in auto)
  then show "attempt_with_guard metres dev sp u la lo acc code p w = (Inr o', w')"
    using R c(1) guarded_create_made [OF dec c(2)]
    by (simp add: attempt_with_guard_def rest_of_attempt_def [abs_def] bindA_def)
qed


section \<open>The route\<close>

lemma insert_attempt_codes: "insert_attempt k q d = Inr d' \<Longrightarrow> db_codes d' = db_codes d"
  by (auto simp: insert_attempt_def Let_def split: if_splits)

lemma late_world:
  assumes c: "create_claim_or_refuse dev sp u la lo p d = Inr (i, d1)" and a: "d2 = d1 \<or> (\<exists>q. insert_attempt i q d1 = Inr d2)"
    and p: "policy_promoter i d2 = Inr (Some o', x)" and no: "refused_promotion o'" and w: "claim_world d"
  shows "claim_world x" "\<exists>n. db_claims x = db_claims d @ [n] \<and> cl_status n = CLAIM_STATUS_FAILED"
    "q \<in> set (db_codes x) \<Longrightarrow> cc_used_by q = Some k \<Longrightarrow> \<exists>q0\<in>set (db_codes d). cc_used_by q0 = Some k"
proof -
  obtain ad where ins: "insert_claim \<lparr>cl_id = 0, cl_spot_id = sp, cl_recipient = u, cl_payout_address = ad,
       cl_lat = la, cl_long = lo, cl_accuracy = 1, cl_status = CLAIM_STATUS_PENDING,
       cl_claimed_at = 0, cl_updated_at = 0\<rparr> d = Inr (i, d1)"
    by (rule create_claim_or_refuse_Inr [OF c])
  note I = insert_claim_world [OF ins _ w, simplified]
  note R = insert_claim_Inr [OF ins]
  have w2: "claim_world d2" "db_claims d2 = db_claims d1" "db_codes d2 = db_codes d1"
    using a I(1) insert_attempt_world [OF _ I(1)] insert_attempt_codes by blast+
  then have ok2: "db_ok d2" by (simp add: claim_world_def)
  show "claim_world x" using policy_world [OF p w2(1)] by simp
  have fresh: "cl_id y \<noteq> i" if "y \<in> set (db_claims d)" for y using I(5) that by (auto simp: find_row_None_iff)
  have "update_where (\<lambda>c. cl_id c = i) f (db_claims d) = db_claims d" for f
    using fresh by (auto simp: update_where_def intro!: map_idI)
  then show "\<exists>n. db_claims x = db_claims d @ [n] \<and> cl_status n = CLAIM_STATUS_FAILED"
    using policy_refused(1) [OF p no ok2] w2(2) R(1) by (simp add: update_where_def)
  show "q \<in> set (db_codes x) \<Longrightarrow> cc_used_by q = Some k \<Longrightarrow> \<exists>q0\<in>set (db_codes d). cc_used_by q0 = Some k"
    using policy_refused(2) [OF p no ok2] w2(3) I(4) by metis
qed

lemma installed_cases:
  assumes "installed_claim_attempt c sl metres sp u la lo acc code p w = (r, w')"
  obtains (refused) e where "r = Inl e" "w' = w"
  | (attempt) a where "bind_claim_to_wallet c sp u p (wd_security w) (wd_db w) = Inr a"
      "\<not> hourly_limit_reached c sl u (wd_security w) (wd_db w)"
      "attempt_with_guard metres (allow_placeholders c) sp u la lo acc code a w = (r, w')"
proof (cases "hourly_limit_reached c sl u (wd_security w) (wd_db w)")
  case True
  show thesis by (rule refused) (use assms True in \<open>auto simp: installed_claim_attempt_def bindA_def\<close>)
next
  case False
  show thesis
  proof (cases "bind_claim_to_wallet c sp u p (wd_security w) (wd_db w)")
    case (Inl e)
    show thesis by (rule refused [of e]) (use assms False Inl in \<open>auto simp: installed_claim_attempt_def bindA_def\<close>)
  next
    case (Inr a)
    show thesis
      by (rule attempt [OF Inr False]) (use assms False Inr in \<open>simp add: installed_claim_attempt_def bindA_def\<close>)
  qed
qed

text \<open>What the tables may look like after a refusal.\<close>

definition refusal_leaves :: "db \<Rightarrow> db \<Rightarrow> bool" where
  "refusal_leaves d d' \<longleftrightarrow>
     (db_claims d' = db_claims d \<or> (\<exists>n. db_claims d' = db_claims d @ [n] \<and> cl_status n = CLAIM_STATUS_FAILED))
   \<and> (\<forall>q\<in>set (db_codes d'). \<forall>k. cc_used_by q = Some k \<longrightarrow> (\<exists>q0\<in>set (db_codes d). cc_used_by q0 = Some k))"

lemma quiet_leaves: "quiet d d' \<Longrightarrow> refusal_leaves d d'"
  by (auto simp: quiet_def refusal_leaves_def)

lemma installed_world:
  assumes a: "installed_claim_attempt c sl metres sp u la lo acc code p w = (r, w')" and w: "claim_world (wd_db w)"
  shows "r = Inl e \<Longrightarrow> refusal_code e = Some m \<Longrightarrow> claim_world (wd_db w') \<and> refusal_leaves (wd_db w) (wd_db w') \<and> wd_sent w' = wd_sent w"
    and "r = Inr o' \<Longrightarrow> claim_world (wd_db w') \<and> wd_sent w' = wd_sent w"
proof -
  have "(\<forall>e m. r = Inl e \<and> refusal_code e = Some m \<longrightarrow> claim_world (wd_db w') \<and> refusal_leaves (wd_db w) (wd_db w') \<and> wd_sent w' = wd_sent w)
     \<and> (\<forall>o'. r = Inr o' \<longrightarrow> claim_world (wd_db w') \<and> wd_sent w' = wd_sent w)"
  proof (cases rule: installed_cases [OF a, case_names refused attempt])
    case (refused e)
    then show ?thesis using w quiet_leaves by simp
  next
    case (attempt b)
    show ?thesis
    proof (cases rule: guarded_attempt_cases [OF attempt(3), case_names accepted early late hard_error])
      case (accepted x d' sn)
      then show ?thesis using attempt_world(1) [OF accepted(3) w] by simp
    next
      case (early e)
      then show ?thesis using w quiet_leaves by (auto simp: quiet_def)
    next
      case (late e i x d1 d2 sn y)
      then show ?thesis using late_world [OF late(2,3,4,5) w] by (auto simp: refusal_leaves_def)
    next
      case (hard_error e)
      then show ?thesis by simp
    qed
  qed
  then show "r = Inl e \<Longrightarrow> refusal_code e = Some m \<Longrightarrow> claim_world (wd_db w') \<and> refusal_leaves (wd_db w) (wd_db w') \<and> wd_sent w' = wd_sent w"
    and "r = Inr o' \<Longrightarrow> claim_world (wd_db w') \<and> wd_sent w' = wd_sent w" by blast+
qed

lemma route_cases:
  assumes "claim_spot_api c sl metres sp u rq w = (r, w')"
  obtains (error) e where "r = Inl e" "w' = w"
  | (answered) code where "r = Inr (ClaimRefused code)" "w' = w"
  | (refused) la lo e code where "cr_lat rq = Some la" "cr_long rq = Some lo" "r = Inr (ClaimRefused code)" "refusal_code e = Some code"
      "installed_claim_attempt c sl metres sp u la lo (cr_accuracy rq) (cr_claim_code rq) (cr_payout_address rq) w = (Inl e, w')"
  | (accepted) la lo o' next_payout where "cr_lat rq = Some la" "cr_long rq = Some lo" "r = Inr (ClaimAccepted o' next_payout)"
      "installed_claim_attempt c sl metres sp u la lo (cr_accuracy rq) (cr_claim_code rq) (cr_payout_address rq) w = (Inr o', w')"
proof -
  define B where "B = (case (cr_lat rq, cr_long rq) of
      (Some lat, Some long) \<Rightarrow>
        (case get_spot sp (wd_db w) of None \<Rightarrow> returnA (ClaimRefused ''spot_missing'') | Some s \<Rightarrow>
         if sp_use_password s = 1 \<and> cr_captcha rq = None then returnA (ClaimRefused ''captcha_required'')
         else if sp_use_password s = 1 \<and> (case cr_captcha rq of None \<Rightarrow> False | Some (a, b, answer) \<Rightarrow> a + b \<noteq> answer)
         then returnA (ClaimRefused ''captcha_failed'')
         else answer_attempt (installed_claim_attempt c sl metres sp u lat long (cr_accuracy rq)
           (cr_claim_code rq) (cr_payout_address rq)))
    | _ \<Rightarrow> returnA (ClaimRefused ''location_missing'')) w"
  have m: "(r, w') = (case B of (Inl e, w1) \<Rightarrow> (Inl e, w) | (Inr x, w1) \<Rightarrow> (Inr x, w1))"
    using assms by (simp only: claim_spot_api_def all_or_nothing_def bindA_def get_world_def B_def prod.case sum.case)
  have plain: thesis if "B = (Inr (ClaimRefused code), w)" for code
    using that m answered by simp
  show thesis
  proof (cases "cr_lat rq = None \<or> cr_long rq = None")
    case True
    then have "B = (Inr (ClaimRefused ''location_missing''), w)" by (auto simp: B_def split: option.splits)
    then show thesis by (rule plain)
  next
    case False
    then obtain la lo where l: "cr_lat rq = Some la" "cr_long rq = Some lo" by auto
    let ?a = "installed_claim_attempt c sl metres sp u la lo (cr_accuracy rq) (cr_claim_code rq) (cr_payout_address rq)"
    show thesis
    proof (cases "\<exists>code. B = (Inr (ClaimRefused code), w)")
      case True
      then show thesis using plain by blast
    next
      case False
      then have run: "B = answer_attempt ?a w" using l by (auto simp: B_def split: option.splits if_splits)
      obtain a w1 where a: "?a w = (a, w1)" by (cases "?a w")
      show thesis
      proof (cases a)
        case (Inr o')
        then show thesis using accepted [OF l] a m run by (simp add: answer_attempt_def)
      next
        case (Inl e)
        show thesis
        proof (cases "refusal_code e")
          case None
          then show thesis using error a m run Inl by (simp add: answer_attempt_def)
        next
          case (Some code)
          then show thesis using refused [OF l] a m run Inl by (simp add: answer_attempt_def)
        qed
      qed
    qed
  qed
qed


text \<open>
  C5: The claim route commits when it refuses, so an unsuccessful attempt may leave
  traces; but whatever it answers, the tables stay consistent, no Spot is
  overfilled, every consumed code belongs to a successful claim, and nothing is
  sent. A refusal adds at most one claim, which has failed, changes no other claim
  and consumes no code; an exception restores everything.
\<close>

theorem claim_route_safe:
  assumes a: "claim_spot_api c sl metres sp u rq w = (r, w')"
    and w: "db_ok (wd_db w)" "within_capacity (wd_db w)" "codes_final (wd_db w)"
  shows "db_ok (wd_db w') \<and> within_capacity (wd_db w') \<and> codes_final (wd_db w') \<and> wd_sent w' = wd_sent w
    \<and> (\<forall>e. r = Inl e \<longrightarrow> w' = w)
    \<and> (\<forall>code. r = Inr (ClaimRefused code) \<longrightarrow>
         (db_claims (wd_db w') = db_claims (wd_db w)
          \<or> (\<exists>n. db_claims (wd_db w') = db_claims (wd_db w) @ [n] \<and> cl_status n = CLAIM_STATUS_FAILED))
       \<and> (\<forall>q\<in>set (db_codes (wd_db w')). \<forall>k. cc_used_by q = Some k \<longrightarrow>
            (\<exists>q0\<in>set (db_codes (wd_db w)). cc_used_by q0 = Some k)))"
proof -
  have cw: "claim_world (wd_db w)" using w by (simp add: claim_world_def)
  have "claim_world (wd_db w') \<and> wd_sent w' = wd_sent w \<and> (\<forall>e. r = Inl e \<longrightarrow> w' = w)
    \<and> (\<forall>code. r = Inr (ClaimRefused code) \<longrightarrow> refusal_leaves (wd_db w) (wd_db w'))"
  proof (cases rule: route_cases [OF a, case_names error answered refused accepted])
    case (refused la lo e code)
    then show ?thesis using installed_world(1) [OF refused(5) cw refl refused(4)] by simp
  next
    case (accepted la lo o' k)
    then show ?thesis using installed_world(2) [OF accepted(4) cw refl] by simp
  qed (use cw quiet_leaves in simp_all)
  then show ?thesis by (auto simp: claim_world_def refusal_leaves_def)
qed

section \<open>Claims of one wallet\<close>

lemma attempt_payout:
  assumes a: "create_claim_attempt_success_only metres dev sp u la lo acc code p d = Inr (o', d')" and w: "claim_world d"
    and p: "clean_optional_nimiq_address dev False p = Inr q"
  obtains i n where "find_row cl_id i (db_claims d) = None" "find_row cl_id i (db_claims d') = Some n"
    "cl_spot_id n = sp" "cl_recipient n = u" "cl_payout_address n = q"
proof -
  obtain row k i d1 d2 where c:
    "check_claim_attempt metres sp u la lo acc code d = Inr (row, k)"
    "create_claim_or_refuse dev sp u la lo p d = Inr (i, d1)"
    "(k = None \<and> d2 = d1) \<or> (\<exists>x q. k = Some (x, q) \<and> insert_attempt i (cc_id q) d1 = Inr d2)"
    "(0 < sp_claim_duration row \<and> reload_claim i d2 = Inr (o', d'))
     \<or> (sp_claim_duration row \<le> 0 \<and> (policy_promoter i d2 = Inr (Some o', d')
          \<or> (\<exists>d3. policy_promoter i d2 = Inr (None, d3) \<and> reload_claim i d3 = Inr (o', d'))))"
    by (rule attempt_cases [OF a])
  have "create_claim dev sp u la lo 1 p d = Inr (i, d1)"
    using c(2) by (auto simp: create_claim_or_refuse_def split: sum.splits py_error.splits if_splits)
  then have ins: "insert_claim \<lparr>cl_id = 0, cl_spot_id = sp, cl_recipient = u, cl_payout_address = q,
       cl_lat = la, cl_long = lo, cl_accuracy = 1, cl_status = CLAIM_STATUS_PENDING,
       cl_claimed_at = 0, cl_updated_at = 0\<rparr> d = Inr (i, d1)"
    using p by (simp add: create_claim_def)
  note I = insert_claim_world [OF ins _ w, simplified]
  have w2: "claim_world d2" "db_claims d2 = db_claims d1"
    using c(3) I(1) insert_attempt_world [OF _ I(1)] by auto
  have "claim_grows d2 d'"
    using c(4) policy_world [OF _ w2(1)] claim_grows_refl by (auto simp: reload_claim_Inr)
  then obtain n where "find_row cl_id i (db_claims d') = Some n"
      "claim_step \<lparr>cl_id = i, cl_spot_id = sp, cl_recipient = u, cl_payout_address = q,
       cl_lat = la, cl_long = lo, cl_accuracy = 1, cl_status = CLAIM_STATUS_PENDING,
       cl_claimed_at = db_now d, cl_updated_at = db_now d\<rparr> n"
    using I(6) w2(2) unfolding claim_grows_def by fastforce
  then show thesis using that I(5) by (auto simp: claim_step_def)
qed

text \<open>
  C6: On a public deployment an accepted claim belongs to a verified wallet: it is
  the claim the unguarded attempt would have made, it pays the wallet the user has
  proved to control whatever the request named, the wallet is not the owner's, and
  counted over all users bound to that wallet both its claims of the Spot and its
  claims of the last hour were below their limits.
\<close>

theorem accepted_claim_bound:
  assumes a: "claim_spot_api c sl metres sp u rq w = (Inr (ClaimAccepted o' k), w')"
    and w: "db_ok (wd_db w)" "within_capacity (wd_db w)" "codes_final (wd_db w)" and pub: "public_deployment c"
  shows "\<exists>la lo b a. cr_lat rq = Some la \<and> cr_long rq = Some lo
    \<and> get_json (ss_bindings (wd_security w)) u = Some b \<and> canonical_payout_address (bd_wallet b) = Some a
    \<and> create_claim_attempt_success_only metres (allow_placeholders c) sp u la lo (cr_accuracy rq) (cr_claim_code rq) (Some a)
        (wd_db w) = Inr (o', wd_db w')
    \<and> (\<exists>i n. find_row cl_id i (db_claims (wd_db w)) = None \<and> find_row cl_id i (db_claims (wd_db w')) = Some n
        \<and> cl_recipient n = u \<and> cl_payout_address n = Some a)
    \<and> \<not> verified_wallet_owns_spot sp a (wd_security w) (wd_db w)
    \<and> (\<exists>s. get_spot sp (wd_db w) = Some s \<and> (0 < sp_max_claims_per_user s \<longrightarrow>
        wallet_active_claim_count sp a (wd_security w) (wd_db w) < sp_max_claims_per_user s))
    \<and> fst (wallet_recent_claim_window a (db_now (wd_db w)) (wd_security w) (wd_db w)) < max 1 (sl_wallet_hourly sl)"
proof (cases rule: route_cases [OF a, case_names error answered refused accepted])
  case (accepted la lo o'' k')
  have cw: "claim_world (wd_db w)" using w by (simp add: claim_world_def)
  have o: "o'' = o'" using accepted(3) by simp
  show ?thesis
  proof (cases rule: installed_cases [OF accepted(4), case_names refused attempt])
    case (attempt p)
    obtain b where b0: "get_json (ss_bindings (wd_security w)) u = Some b"
      using attempt(1) pub by (cases "get_json (ss_bindings (wd_security w)) u") (simp_all add: bind_claim_to_wallet_def)
    obtain v where v: "canonical_payout_address (bd_wallet b) = Some v"
      using attempt(1) pub b0 by (cases "canonical_payout_address (bd_wallet b)") (simp_all add: bind_claim_to_wallet_def)
    have b: "get_json (ss_bindings (wd_security w)) u = Some b" "canonical_payout_address (bd_wallet b) = Some v"
        "p = Some v" "\<not> verified_wallet_owns_spot sp v (wd_security w) (wd_db w)"
        "\<not> wallet_has_reached_spot_limit sp v (wd_security w) (wd_db w)"
      using attempt(1) pub b0 v by (simp_all add: bind_claim_to_wallet_def split: if_split_asm)
    have "normalise_nimiq_address False (py_strip (bd_wallet b)) = Inr v"
      using b(2) by (auto simp: canonical_payout_address_def Let_def split: if_splits sum.splits)
    then have clean: "clean_optional_nimiq_address (allow_placeholders c) False (Some v) = Inr (Some v)"
      by (rule canonical_clean)
    have hour: "fst (wallet_recent_claim_window v (db_now (wd_db w)) (wd_security w) (wd_db w)) < max 1 (sl_wallet_hourly sl)"
      using attempt(2) b pub
      by (auto simp: hourly_limit_reached_def bound_wallet_def durable_wallet_rate_decision_def hourly_decision_def
          preclaim_allowed_def split: prod.splits if_splits)
    obtain s where s: "get_spot sp (wd_db w) = Some s" "0 < sp_max_claims_per_user s \<longrightarrow>
        wallet_active_claim_count sp v (wd_security w) (wd_db w) < sp_max_claims_per_user s"
      using b(5) by (auto simp: wallet_has_reached_spot_limit_def split: option.splits)
    have run: "create_claim_attempt_success_only metres (allow_placeholders c) sp u la lo (cr_accuracy rq) (cr_claim_code rq) (Some v)
        (wd_db w) = Inr (o', wd_db w')"
      by (rule guarded_attempt_cases [OF attempt(3)]) (use b(3) o in auto)
    obtain i n where "find_row cl_id i (db_claims (wd_db w)) = None" "find_row cl_id i (db_claims (wd_db w')) = Some n"
        "cl_recipient n = u" "cl_payout_address n = Some v"
      by (rule attempt_payout [OF run cw clean])
    then show ?thesis using accepted(1,2) b(1,2,4) s hour run by blast
  qed simp
qed simp_all

section \<open>The wallet limit keeps the promoter contract\<close>

lemma wallet_promoter_cases:
  assumes "promote_claim_with_verified_wallet_limit c ss delegate k d = Inr (r, d')"
  obtains (delegate) "delegate k d = Inr (r, d')"
  | (unverified) x where "find_row cl_id k (db_claims d) = Some x" "cl_status x = CLAIM_STATUS_PENDING"
      "modify_claim_status k CLAIM_STATUS_FAILED d = Inr d'" "r = map_option plain (get_claim k d')"
  | (limit) x m where "find_row cl_id k (db_claims d) = Some x" "cl_status x = CLAIM_STATUS_PENDING"
      "failed_promotion k m d = Inr (r, d')"
proof (cases "public_deployment c \<and> get_claim k d \<noteq> None")
  case False
  show thesis
    by (rule delegate)
      (use assms False in \<open>cases "get_claim k d"; auto simp: promote_claim_with_verified_wallet_limit_def split: if_splits\<close>)
next
  case True
  then obtain v where pub: "public_deployment c" and v: "get_claim k d = Some v" by auto
  note unf = promote_claim_with_verified_wallet_limit_def Let_def
  show thesis
  proof (cases "cl_status (cd_claim v) \<noteq> CLAIM_STATUS_PENDING \<or> is_prizedraw (cl_spot_id (cd_claim v)) d")
    case True
    show thesis by (rule delegate) (use assms True pub v in \<open>auto simp: unf\<close>)
  next
    case False
    then have row: "find_row cl_id k (db_claims d) = Some (cd_claim v)" "cl_status (cd_claim v) = CLAIM_STATUS_PENDING"
      using get_claim_SomeD(1) [OF v] by auto
    have eq: "promote_claim_with_verified_wallet_limit c ss delegate k d
      = (case bound_wallet (cl_recipient (cd_claim v)) ss of
       None \<Rightarrow> bindE (set_claim_status_to_failed k d) (\<lambda>d1. Inr (map_option plain (get_claim k d1), d1))
     | Some a \<Rightarrow> if wallet_has_reached_spot_limit (cl_spot_id (cd_claim v)) a ss d
         then failed_promotion k ''verified_wallet_claim_limit_reached'' d else delegate k d)"
      using pub v False by (auto simp: unf)
    show thesis
    proof (cases "bound_wallet (cl_recipient (cd_claim v)) ss")
      case None
      with assms eq obtain d1 where "set_claim_status_to_failed k d = Inr d1" "r = map_option plain (get_claim k d1)" "d1 = d'"
        by (auto elim!: bindE_InrE)
      then show thesis using unverified [OF row] by (simp add: set_claim_status_to_failed_def)
    next
      case a: (Some a)
      show thesis
      proof (cases "wallet_has_reached_spot_limit (cl_spot_id (cd_claim v)) a ss d")
        case True
        show thesis by (rule limit [OF row]) (use assms eq a True in simp)
      next
        case False
        show thesis by (rule delegate) (use assms eq a False in simp)
      qed
    qed
  qed
qed

interpretation wallet_bound: code_promoter "promote_claim_with_verified_wallet_limit c ss policy_promoter" for c ss
proof unfold_locales
  fix k d r d'
  assume p: "promote_claim_with_verified_wallet_limit c ss policy_promoter k d = Inr (r, d')" and ok: "db_ok d"
  have *: "claim_safe d d' \<and> reports k r d' \<and> (codes_final d \<longrightarrow> codes_final d')"
  proof (cases rule: wallet_promoter_cases [OF p, case_names delegate unverified limit])
    case delegate
    then show ?thesis using policy.promote_safe policy.promote_reports policy.promote_final ok by blast
  next
    case (unverified x)
    have "reports k r d'" using unverified(4) reports_plain [of k d'] by (cases "get_claim k d'") (auto simp: reports_def)
    then show ?thesis
      using set_failed_safe [OF unverified(3) ok _ unverified(1,2)] policy.modify_codes_final [OF unverified(3) ok _ unverified(1,2)]
      by simp
  next
    case (limit x m)
    note s = failed_promotion_safe [OF limit(3) ok limit(1,2)]
    then have "codes_final d \<longrightarrow> codes_final d'" using codes_final_steps by (auto simp: claim_safe_def)
    then show ?thesis using s by simp
  qed
  show "claim_safe d d'" "reports k r d'" using * by simp_all
  show "codes_final d'" if "codes_final d" using * that by simp
qed

section \<open>Bans for travel\<close>

lemma metrics_hard:
  "tm_hard (travel_metrics_of metres a b t now) \<Longrightarrow> t \<le> now \<and> 3000 \<le> tm_distance (travel_metrics_of metres a b t now)
     \<and> 500 < tm_speed (travel_metrics_of metres a b t now)"
  by (auto simp: travel_metrics_of_def Let_def const_defs split: if_splits)

lemma metrics_soft:
  "tm_soft (travel_metrics_of metres a b t now) \<Longrightarrow> t \<le> now \<and> 1000 \<le> tm_distance (travel_metrics_of metres a b t now)
     \<and> 75 < tm_speed (travel_metrics_of metres a b t now)"
  by (auto simp: travel_metrics_of_def Let_def const_defs split: if_splits)

lemma first_max_in: "first_max f xs = Some x \<Longrightarrow> x \<in> set xs"
  by (induction xs arbitrary: x) (auto split: option.splits if_splits)

text \<open>\<open>too_fast metres a b t now\<close>: to be at \<open>a\<close> at \<open>t\<close> and at \<open>b\<close> now takes more than 75 m/s over a kilometre or more.\<close>

definition too_fast :: "distance_fun \<Rightarrow> anchor \<Rightarrow> anchor \<Rightarrow> int \<Rightarrow> int \<Rightarrow> bool" where
  "too_fast metres a b t now \<longleftrightarrow> t \<le> now \<and> 1000 \<le> tm_distance (travel_metrics_of metres a b t now)
     \<and> 75 < tm_speed (travel_metrics_of metres a b t now)"

definition travel_evidence :: "distance_fun \<Rightarrow> int \<Rightarrow> int \<Rightarrow> world \<Rightarrow> bool" where
  "travel_evidence metres u sp w \<longleftrightarrow> (let d = wd_db w; now = db_now d in \<exists>target. spot_anchor sp d = Some target \<and>
     ((\<exists>(a, t)\<in>set (recent_claim_anchors u now d). t \<le> now \<and> 3000 \<le> tm_distance (travel_metrics_of metres a target t now)
         \<and> 500 < tm_speed (travel_metrics_of metres a target t now))
    \<or> (\<exists>sn trusted t original previous. get_json (ss_suspicions (wd_security w)) u = Some sn \<and> now < sn_retry_at sn
         \<and> an_spot_id target \<noteq> sn_last_spot sn
         \<and> claim_anchor u (sn_trusted_claim sn) now d = Some (Some trusted, t)
         \<and> spot_anchor (sn_suspicious_spot sn) d = Some original \<and> spot_anchor (sn_last_spot sn) d = Some previous
         \<and> too_fast metres trusted target t now \<and> too_fast metres original target (sn_attempted_at sn) now
         \<and> too_fast metres previous target (sn_last_at sn) now)))"

lemma trusted_ban:
  assumes "trusted_travel_decision metres u target now d = BanUser r t"
  shows "\<exists>(a, t)\<in>set (recent_claim_anchors u now d). t \<le> now \<and> 3000 \<le> tm_distance (travel_metrics_of metres a target t now)
         \<and> 500 < tm_speed (travel_metrics_of metres a target t now)"
  using assms metrics_hard
  by (fastforce simp: trusted_travel_decision_def Let_def dest!: first_max_in split: option.splits)

lemma active_ban:
  assumes "active_cooldown_decision metres u target sn now d = Inr (Some (BanUser r t), sn')"
  shows "now < sn_retry_at sn \<and> an_spot_id target \<noteq> sn_last_spot sn \<and> (\<exists>trusted t original previous.
      claim_anchor u (sn_trusted_claim sn) now d = Some (Some trusted, t)
         \<and> spot_anchor (sn_suspicious_spot sn) d = Some original \<and> spot_anchor (sn_last_spot sn) d = Some previous
         \<and> too_fast metres trusted target t now \<and> too_fast metres original target (sn_attempted_at sn) now
         \<and> too_fast metres previous target (sn_last_at sn) now)"
  using assms metrics_soft
  by (fastforce simp: active_cooldown_decision_def Let_def too_fast_def elim!: bindE_InrE split: if_splits option.splits prod.splits)

lemma decision_ban:
  assumes "get_claim_location_decision metres u sp w = (Inr (BanUser r t), w')"
  shows "travel_evidence metres u sp w"
proof -
  let ?d = "wd_db w"
  obtain target where target: "spot_anchor sp ?d = Some target"
    using assms by (auto simp: get_claim_location_decision_def Let_def act_simps get_world_def split: option.splits)
  show ?thesis
  proof (cases "\<exists>r c. trusted_travel_decision metres u target (db_now ?d) ?d = BanUser r c")
    case True
    then show ?thesis using trusted_ban target unfolding travel_evidence_def Let_def by blast
  next
    case False
    obtain sn sn' t where sn: "get_json (ss_suspicions (wd_security w)) u = Some sn"
        "active_cooldown_decision metres u target sn (db_now ?d) ?d = Inr (Some (BanUser r t), sn')"
      using assms False target
      by (cases "trusted_travel_decision metres u target (db_now ?d) ?d")
        (auto simp: get_claim_location_decision_def Let_def act_simps get_world_def liftA_def change_security_def start_cooldown_def
          elim!: bindA_InrE split: option.splits)
    show ?thesis using active_ban [OF sn(2)] sn(1) target unfolding travel_evidence_def Let_def by blast
  qed
qed

lemma decision_users:
  assumes "get_claim_location_decision metres u sp w = (x, w')"
  shows "db_users (wd_db w') = db_users (wd_db w)"
proof (cases x)
  case (Inl e)
  note rec = record_decision_tables(1)
  show ?thesis
    using assms [unfolded Inl]
    by (auto simp: get_claim_location_decision_def start_cooldown_def Let_def
        elim!: bindA_InlE bindA_InrE in_transaction_InlE dest!: in_transaction_InlE
        split: option.splits location_decision.splits prod.splits)
next
  case (Inr dec)
  show ?thesis
    by (rule decision_cases [OF assms [unfolded Inr]])
      (auto simp: only_guard_def dest: record_decision_tables(1))
qed

lemma create_users: "create_claim dev sp u la lo acc p d = Inr (i, d') \<Longrightarrow> db_users d' = db_users d"
  by (auto simp: create_claim_def insert_claim_def Let_def elim!: bindE_InrE split: if_splits option.splits)

lemma ban_users:
  assumes "ban_for_decision u t w = (r, w')"
  shows "(\<exists>e. r = Inl e) \<and> (db_users (wd_db w') = db_users (wd_db w)
    \<or> db_users (wd_db w') = update_where (\<lambda>x. us_id x = u) (\<lambda>x. x\<lparr>us_status := USER_STATUS_BANNED\<rparr>) (db_users (wd_db w)))"
proof (cases "set_user_status_to_banned u (wd_db w)")
  case (Inl e)
  then show ?thesis using assms by (auto simp: ban_for_decision_def bindA_def commit_db_def in_transaction_def)
next
  case (Inr d1)
  have d1: "db_users d1 = update_where (\<lambda>x. us_id x = u) (\<lambda>x. x\<lparr>us_status := USER_STATUS_BANNED\<rparr>) (db_users (wd_db w))"
    unfolding banned_db(1) [OF Inr] by simp
  show ?thesis
  proof (cases "record_decision u ''impossible_claim_travel'' AutomaticBan t None d1")
    case (Inl e)
    then show ?thesis using assms Inr d1 by (auto simp: ban_for_decision_def bindA_def commit_db_def in_transaction_def)
  next
    case rec: (Inr p)
    obtain i d2 where p: "p = (i, d2)" by (cases p)
    have "db_users d2 = db_users d1" by (rule record_decision_tables(1) [OF rec [unfolded p]])
    then show ?thesis
      using assms Inr rec p d1 by (auto simp: ban_for_decision_def bindA_def commit_db_def in_transaction_def)
  qed
qed

text \<open>
  C8: Creating a claim changes a user only by banning the claimant, and only on
  travel evidence: a claim of theirs over three kilometres away left at more than
  500 m/s, or, during a cooldown, a third Spot that at more than 75 m/s could not
  have been reached from the trusted, the first suspicious or the last attempted
  place. The claim is then refused.
\<close>

theorem travel_ban_needs_evidence:
  assumes g: "create_claim_with_impossible_travel_guard metres dev sp u la lo acc p w = (r, w')"
    and changed: "db_users (wd_db w') \<noteq> db_users (wd_db w)"
  shows "travel_evidence metres u sp w \<and> (\<exists>e. r = Inl e)
    \<and> db_users (wd_db w') = update_where (\<lambda>x. us_id x = u) (\<lambda>x. x\<lparr>us_status := USER_STATUS_BANNED\<rparr>) (db_users (wd_db w))"
proof (cases "clean_optional_nimiq_address dev False p")
  case (Inl e)
  then show ?thesis using g changed by (simp add: create_claim_with_impossible_travel_guard_def bindA_def)
next
  case q: (Inr q)
  obtain x w1 where d: "get_claim_location_decision metres u sp w = (x, w1)"
    by (cases "get_claim_location_decision metres u sp w")
  note users = decision_users [OF d]
  show ?thesis
  proof (cases x)
    case (Inl e)
    then show ?thesis using g q d changed users by (simp add: create_claim_with_impossible_travel_guard_def bindA_def)
  next
    case dec: (Inr dec)
    show ?thesis
    proof (cases "\<exists>c t. dec = BanUser c t")
      case True
      then obtain c t where ban: "dec = BanUser c t" by blast
      then have "ban_for_decision u t w1 = (r, w')"
        using g q d dec by (simp add: create_claim_with_impossible_travel_guard_def bindA_def)
      from ban_users [OF this] show ?thesis using users changed decision_ban [OF d [unfolded dec ban]] by auto
    next
      case False
      have "db_users (wd_db w') = db_users (wd_db w1)"
        using g q d dec False create_users
        by (cases dec; cases "create_claim dev sp u la lo acc q (wd_db w1)")
          (auto simp: create_claim_with_impossible_travel_guard_def bindA_def in_transaction_def)
      then show ?thesis using users changed by simp
    qed
  qed
qed

text \<open>User 2 claimed ten seconds ago at Spot 2, a hundred kilometres away.\<close>

definition sample_travel :: world where
  "sample_travel = \<lparr>wd_db = sample_db\<lparr>db_spots := [sample_spot, sample_spot\<lparr>sp_id := 2\<rparr>],
       db_claims := [(sample_claim 1 2 CLAIM_STATUS_SUCCESS)\<lparr>cl_spot_id := 2, cl_claimed_at := 999990\<rparr>],
       db_claim_seq := 1, db_spot_seq := 2\<rparr>,
     wd_sent = [], wd_draws = 0, wd_guards = [], wd_policies = [], wd_security = empty_security\<rparr>"

lemma travel_ban_needs_evidence_witness:
  "travel_evidence (\<lambda>_ _ _ _. 100000) 2 1 sample_travel"
proof -
  obtain r w' where g: "create_claim_with_impossible_travel_guard (\<lambda>_ _ _ _. 100000) False 1 2 0 0 1 None sample_travel = (r, w')"
    by fastforce
  have "map us_status (db_users (wd_db (snd
      (create_claim_with_impossible_travel_guard (\<lambda>_ _ _ _. 100000) False 1 2 0 0 1 None sample_travel))))
    \<noteq> map us_status (db_users (wd_db sample_travel))" by code_simp
  then have "db_users (wd_db w') \<noteq> db_users (wd_db sample_travel)" using g by auto
  from travel_ban_needs_evidence [OF g this] show ?thesis by blast
qed

section \<open>A claim on a public deployment\<close>

definition sample_wallet :: string where
  "sample_wallet = ''NQ07 0000 0000 0000 0000 0000 0000 0000 0000''"

definition sample_claim_request :: claim_request where
  "sample_claim_request = \<lparr>cr_lat = Some 0, cr_long = Some 0, cr_accuracy = Some 5, cr_captcha = None,
     cr_claim_code = None, cr_payout_address = None\<rparr>"

definition public_settings :: settings where
  "public_settings = \<lparr>allow_placeholders = False, allow_dev_sends = False, public_deployment = True\<rparr>"

definition sample_public :: world where
  "sample_public = \<lparr>wd_db = sample_db, wd_sent = [], wd_draws = 0, wd_guards = [], wd_policies = [],
     wd_security = empty_security\<lparr>ss_bindings := [(2, \<lparr>bd_user_id = 2, bd_device = ''b'',
       bd_wallet = sample_wallet, bd_verified_at = 10\<rparr>)]\<rparr>\<rparr>"

lemma sample_public_ok:
  "db_ok (wd_db sample_public)" "within_capacity (wd_db sample_public)" "codes_final (wd_db sample_public)"
  using sample_db_ok by (simp_all add: sample_public_def within_capacity_def codes_final_def sample_defs
      count_claims_by_status_for_spot_def)

definition accepted_address :: "claim_answer act \<Rightarrow> world \<Rightarrow> string option" where
  "accepted_address m w = (case m w of (Inr (ClaimAccepted o' k), _) \<Rightarrow> cl_payout_address (cd_claim (co_claim o')) | _ \<Rightarrow> None)"

lemma sample_accepted:
  obtains o' k w' where "claim_spot_api public_settings default_security_limits (\<lambda>_ _ _ _. 20) 1 2 sample_claim_request sample_public
    = (Inr (ClaimAccepted o' k), w')"
proof -
  have "accepted_address (claim_spot_api public_settings default_security_limits (\<lambda>_ _ _ _. 20) 1 2 sample_claim_request) sample_public
    = Some sample_wallet" by code_simp
  then show thesis using that by (auto simp: accepted_address_def split: prod.splits sum.splits claim_answer.splits)
qed

lemma claim_route_safe_witness:
  "\<exists>o' k w'. claim_spot_api public_settings default_security_limits (\<lambda>_ _ _ _. 20) 1 2 sample_claim_request sample_public
      = (Inr (ClaimAccepted o' k), w') \<and> within_capacity (wd_db w') \<and> codes_final (wd_db w')"
proof -
  obtain o' k w' where a: "claim_spot_api public_settings default_security_limits (\<lambda>_ _ _ _. 20) 1 2 sample_claim_request sample_public
    = (Inr (ClaimAccepted o' k), w')" by (rule sample_accepted)
  from claim_route_safe [OF a sample_public_ok] a show ?thesis by blast
qed

lemma accepted_claim_bound_witness:
  "\<exists>o' k w' n. claim_spot_api public_settings default_security_limits (\<lambda>_ _ _ _. 20) 1 2 sample_claim_request sample_public
      = (Inr (ClaimAccepted o' k), w') \<and> n \<in> set (db_claims (wd_db w')) \<and> cl_payout_address n = Some sample_wallet"
proof -
  obtain o' k w' where a: "claim_spot_api public_settings default_security_limits (\<lambda>_ _ _ _. 20) 1 2 sample_claim_request sample_public
    = (Inr (ClaimAccepted o' k), w')" by (rule sample_accepted)
  have pub: "public_deployment public_settings" by (simp add: public_settings_def)
  obtain b v i n where "get_json (ss_bindings (wd_security sample_public)) 2 = Some b"
      "canonical_payout_address (bd_wallet b) = Some v" "find_row cl_id i (db_claims (wd_db w')) = Some n"
      "cl_payout_address n = Some v"
    using accepted_claim_bound [OF a sample_public_ok pub] by blast
  moreover have "canonical_payout_address sample_wallet = Some sample_wallet" by code_simp
  ultimately have "n \<in> set (db_claims (wd_db w')) \<and> cl_payout_address n = Some sample_wallet"
    using find_row_SomeD by (fastforce simp: sample_public_def get_json_def)
  then show ?thesis using a by blast
qed

end
