(* ===== verification/ClaimSecurity.thy ===== *)
theory ClaimSecurity
  imports ClaimGuards
begin

text \<open>
  The authentication of claims: \<^verbatim>\<open>claim_security.py\<close> with
  \<^verbatim>\<open>claim_authorization.py\<close>, \<^verbatim>\<open>claim_identity.py\<close>,
  \<^verbatim>\<open>user_registration_security.py\<close>, the detector of
  \<^verbatim>\<open>claim_security_defence_in_depth.py\<close>, \<^verbatim>\<open>claim_auth_abuse_guard.py\<close> and
  \<^verbatim>\<open>claim_security_maintenance.py\<close>. A wallet signs a challenge to open a
  session, then signs each claim; an approval goes from issued to verifying to
  processing and is deleted. SHA-256, the random tokens and the verifier process
  are outside code: fields of \<open>claim_services\<close>. A request is its parsed fields.
\<close>

section \<open>Outside code and settings\<close>

text \<open>The verifier process: missing or timed out; no JSON; an exit code and a JSON value.\<close>

datatype verifier_reply = VerifierUnavailable | VerifierNotJson | VerifierReply bool json

record registration_limits =
  rl_burst_window :: int
  rl_burst :: int
  rl_hourly :: int
  rl_daily :: int
  rl_global :: int

definition default_registration_limits :: registration_limits where
  "default_registration_limits = \<lparr>rl_burst_window = 600, rl_burst = 40, rl_hourly = 120, rl_daily = 300,
     rl_global = 500\<rparr>"

record burst_limits =
  bl_window :: int
  bl_identities :: int
  bl_spots :: int
  bl_spread :: int

definition default_burst_limits :: burst_limits where
  "default_burst_limits = \<lparr>bl_window = 900, bl_identities = 5, bl_spots = 4, bl_spread = 50000\<rparr>"

record claim_services =
  ck_settings :: settings
  ck_limits :: security_limits
  ck_registration :: registration_limits
  ck_burst :: burst_limits
  ck_verify_per_ip :: int
  ck_verify_per_device :: int
  ck_metres :: distance_fun
  ck_sha :: "string \<Rightarrow> string"
  ck_verifier :: "string \<Rightarrow> string \<Rightarrow> string \<Rightarrow> verifier_reply"
  ck_random :: "nat \<Rightarrow> string"
  ck_mode :: string
  ck_network :: string

definition verify_wallet_signature :: "claim_services \<Rightarrow> string \<Rightarrow> string \<Rightarrow> string \<Rightarrow> string res" where
  "verify_wallet_signature ck message public_key signature = (case ck_verifier ck message public_key signature of
     VerifierUnavailable \<Rightarrow> Inl (RuntimeError ''Nimiq authentication verifier is unavailable'')
   | VerifierNotJson \<Rightarrow> Inl (RuntimeError ''Nimiq authentication verifier returned invalid JSON'')
   | VerifierReply success reply \<Rightarrow>
       if \<not> success \<or> \<not> is_object reply \<or> obj_get ''ok'' reply = JBool False
       then Inl (ValueError ''Invalid Nimiq authentication signature'')
       else normalise_nimiq_address False (str_or_empty (obj_get ''address'' reply)))"

definition draw_token :: "claim_services \<Rightarrow> string act" where
  "draw_token ck w = (Inr (ck_random ck (wd_draws w)), w\<lparr>wd_draws := wd_draws w + 1\<rparr>)"

section \<open>The signed envelope (\<^verbatim>\<open>claim_authorization.py\<close>)\<close>

text \<open>A field of a JSON body that should hold a number: missing or null, not a finite number, or a float.\<close>

datatype number = Missing | NotNumber | Number rat

definition ABSENT_ACCURACY_CM :: int where
  [const_defs]: "ABSENT_ACCURACY_CM = -1"

definition fixed_point :: "number \<Rightarrow> rat \<Rightarrow> rat \<Rightarrow> rat \<Rightarrow> int res" where
  "fixed_point value scale minimum maximum = (case value of
     Number n \<Rightarrow> if n < minimum \<or> maximum < n then Inl (ValueError ''outside its valid range'')
                 else Inr (round_even (fl (n * scale)))
   | _ \<Rightarrow> Inl (ValueError ''must be a number''))"

definition canonical_location :: "number \<Rightarrow> number \<Rightarrow> number \<Rightarrow> (int \<times> int \<times> int) res" where
  "canonical_location lat long accuracy =
    bindE (fixed_point lat 1000000 (-90) 90) (\<lambda>latitude_e6.
    bindE (fixed_point long 1000000 (-180) 180) (\<lambda>longitude_e6.
    bindE (if accuracy = Missing then Inr ABSENT_ACCURACY_CM else fixed_point accuracy 100 0 10000000) (\<lambda>accuracy_cm.
    Inr (latitude_e6, longitude_e6, accuracy_cm))))"

definition text_line :: "string \<Rightarrow> string \<Rightarrow> string" where
  "text_line name value = name @ '': '' @ value @ [char_of (10::nat)]"

definition build_message :: "string \<Rightarrow> string \<Rightarrow> int \<Rightarrow> string \<Rightarrow> string \<Rightarrow> int \<times> int \<times> int \<Rightarrow> string \<Rightarrow> int \<Rightarrow> int \<Rightarrow> string res" where
  "build_message environment network spot_id receiving_wallet device loc nonce issued_at expires_at =
    (if spot_id \<le> 0 then Inl (ValueError ''Spot ID must be a canonical positive decimal integer'')
     else case loc of (latitude_e6, longitude_e6, accuracy_cm) \<Rightarrow>
       Inr (''NimHunt Claim Authorization'' @ [char_of (10::nat)] @ text_line ''Version'' ''2''
         @ text_line ''Environment'' environment @ text_line ''Network'' network @ text_line ''Action'' ''claim''
         @ text_line ''SpotId'' (int_text spot_id) @ text_line ''ReceivingWallet'' receiving_wallet
         @ text_line ''Device'' device @ text_line ''LatitudeE6'' (int_text latitude_e6)
         @ text_line ''LongitudeE6'' (int_text longitude_e6) @ text_line ''AccuracyCm'' (int_text accuracy_cm)
         @ text_line ''Nonce'' nonce @ text_line ''IssuedAt'' (int_text issued_at)
         @ text_line ''ExpiresAt'' (int_text expires_at)))"

definition claim_network :: "claim_services \<Rightarrow> string" where
  "claim_network ck = (let value = ck_network ck in
     if value = ''MainAlbatross'' then ''mainnet'' else if value = ''TestAlbatross'' then ''testnet''
     else if value = ''DevAlbatross'' then ''devnet'' else value)"

section \<open>Registration (\<^verbatim>\<open>user_registration_security.py\<close>)\<close>

definition REGISTRATION_PREFIX :: string where
  "REGISTRATION_PREFIX = ''user_registration_security:recent:''"

definition stamps_after :: "string \<Rightarrow> int \<Rightarrow> security_state \<Rightarrow> int list" where
  "stamps_after key cutoff ss = filter (\<lambda>t. cutoff < t) (case get_json (ss_rates ss) key of None \<Rightarrow> [] | Some ts \<Rightarrow> ts)"

definition store_stamps :: "string \<Rightarrow> int list \<Rightarrow> security_state \<Rightarrow> security_state" where
  "store_stamps key stamps ss = ss\<lparr>ss_rates := set_json key stamps (ss_rates ss)\<rparr>"

text \<open>The first exhausted quota answers with the moment at which its oldest stamp leaves the window.\<close>

definition registration_retry :: "registration_limits \<Rightarrow> int \<Rightarrow> int list \<Rightarrow> int list \<Rightarrow> int option" where
  "registration_retry rl now source_stamps global_stamps =
    (let window = max 1 (rl_burst_window rl);
         burst = filter (\<lambda>t. now - window < t) source_stamps;
         hourly = filter (\<lambda>t. now - 60 * 60 < t) source_stamps
     in if max 1 (rl_burst rl) \<le> int (length burst) then Some (Min (set burst) + window + 1)
        else if max 1 (rl_hourly rl) \<le> int (length hourly) then Some (Min (set hourly) + 60 * 60 + 1)
        else if max 1 (rl_daily rl) \<le> int (length source_stamps) then Some (Min (set source_stamps) + 24 * 60 * 60 + 1)
        else if max 1 (rl_global rl) \<le> int (length global_stamps) then Some (Min (set global_stamps) + 60 * 60 + 1)
        else None)"

definition get_or_create_public_user ::
  "registration_limits \<Rightarrow> string \<Rightarrow> string \<Rightarrow> db \<times> security_state \<Rightarrow> ((int \<times> bool) \<times> db \<times> security_state) res" where
  "get_or_create_public_user rl device_id_hash source_network_hash = (\<lambda>(d, ss).
    case get_user device_id_hash d of Some existing \<Rightarrow> Inr ((us_id existing, False), d, ss)
    | None \<Rightarrow>
      let now = db_now d;
          source = py_lower (py_strip (if source_network_hash = [] then ''unknown'' else source_network_hash));
          source_key = REGISTRATION_PREFIX @ ''source:'' @ source;
          global_key = REGISTRATION_PREFIX @ ''global'';
          source_stamps = stamps_after source_key (now - 24 * 60 * 60) ss;
          global_stamps = stamps_after global_key (now - 60 * 60) ss
      in (case registration_retry rl now source_stamps global_stamps of
            Some retry_at \<Rightarrow> Inl (CooldownError retry_at)
          | None \<Rightarrow> bindE (get_or_create_user device_id_hash d) (\<lambda>((user_id, created), d').
              Inr ((user_id, created), d',
                if created then store_stamps global_key (global_stamps @ [now]) (store_stamps source_key (source_stamps @ [now]) ss)
                else ss))))"

section \<open>Sessions\<close>

datatype 'a reply_to = Refused string int "int option" | Granted 'a

definition RATE_PREFIX :: string where
  "RATE_PREFIX = ''claim_security:rate:''"

text \<open>A rolling bucket of the security state.\<close>

definition admit :: "string \<Rightarrow> int \<Rightarrow> int \<Rightarrow> (bool \<times> int) act" where
  "admit key window limit w = (case admit_timestamp (RATE_PREFIX @ key) (db_now (wd_db w)) window limit (ss_rates (wd_security w)) of
     (answer, rates) \<Rightarrow> (Inr answer, w\<lparr>wd_security := (wd_security w)\<lparr>ss_rates := rates\<rparr>\<rparr>))"

text \<open>The session of a token, and whether its expired document is deleted on the way.\<close>

definition load_session :: "claim_services \<Rightarrow> string option \<Rightarrow> string \<Rightarrow> int \<Rightarrow> security_state \<Rightarrow> session_doc option \<times> security_state" where
  "load_session ck token device_id_hash now ss = (case token of
     None \<Rightarrow> (None, ss)
   | Some t \<Rightarrow> if t = [] then (None, ss) else
     let key = ck_sha ck t in
     (case get_json (ss_sessions ss) key of
        None \<Rightarrow> (None, ss)
      | Some s \<Rightarrow>
          if ses_expires_at s \<le> now then (None, ss\<lparr>ss_sessions := delete_json key (ss_sessions ss)\<rparr>)
          else if ses_device s \<noteq> device_id_hash then (None, ss)
          else (case canonical_payout_address (ses_wallet s) of
              None \<Rightarrow> (None, ss)
            | Some wallet_address \<Rightarrow> (Some (s\<lparr>ses_wallet := wallet_address\<rparr>), ss))))"

text \<open>The session, if its user still has the device: read on a connection that is closed without a commit.\<close>

definition session_of :: "claim_services \<Rightarrow> string option \<Rightarrow> string \<Rightarrow> world \<Rightarrow> session_doc option" where
  "session_of ck token device_id w = (case fst (load_session ck token device_id (db_now (wd_db w)) (wd_security w)) of
     None \<Rightarrow> None
   | Some s \<Rightarrow> (case get_user_by_id (ses_user_id s) (wd_db w) of
       None \<Rightarrow> None
     | Some u \<Rightarrow> if py_lower (us_device_id_hash u) \<noteq> device_id then None else Some s))"

definition security_session_status :: "claim_services \<Rightarrow> string \<Rightarrow> string option \<Rightarrow> (string \<times> int) option reply_to act" where
  "security_session_status ck device_id_hash token w = (case clean_device_identifier device_id_hash of
     Inl _ \<Rightarrow> (Inr (Refused ''invalid_device'' 400 None), w)
   | Inr device_id \<Rightarrow>
       (Inr (Granted (map_option (\<lambda>s. (ses_wallet s, ses_expires_at s)) (session_of ck token device_id w))), w))"

definition challenge_message :: "string \<Rightarrow> string \<Rightarrow> int \<Rightarrow> string" where
  "challenge_message device_id nonce now = ''NimHunt claim authentication'' @ [char_of (10::nat)]
     @ text_line ''Device'' device_id @ text_line ''Nonce'' nonce @ ''Issued: '' @ int_text now"

definition security_challenge :: "claim_services \<Rightarrow> string \<Rightarrow> string \<Rightarrow> (string \<times> string \<times> int) reply_to act" where
  "security_challenge ck device_id_hash ip_fingerprint = (case clean_device_identifier device_id_hash of
     Inl _ \<Rightarrow> returnA (Refused ''invalid_device'' 400 None)
   | Inr device_id \<Rightarrow> all_or_nothing (
       let sl = ck_limits ck in
       bindA (admit (''challenge:ip:'' @ ip_fingerprint) (sl_auth_window sl) (sl_auth_per_ip sl)) (\<lambda>(allowed_ip, retry_ip).
       bindA (admit (''challenge:device:'' @ device_id) (sl_auth_window sl) (sl_auth_per_device sl)) (\<lambda>(allowed_device, retry_device).
       if \<not> allowed_ip \<or> \<not> allowed_device
       then returnA (Refused ''auth_rate_limited'' 429 (Some (max retry_ip retry_device)))
       else bindA (draw_token ck) (\<lambda>challenge_id. bindA (draw_token ck) (\<lambda>nonce. bindA get_world (\<lambda>w.
         let now = db_now (wd_db w); message = challenge_message device_id nonce now;
             expires_at = now + sl_challenge_ttl sl in
         bindA (change_security (\<lambda>ss. ss\<lparr>ss_challenges := set_json challenge_id
           \<lparr>chal_device = device_id, chal_message = message, chal_created_at = now, chal_expires_at = expires_at,
            chal_ip = ip_fingerprint\<rparr> (ss_challenges ss)\<rparr>)) (\<lambda>_.
         returnA (Granted (challenge_id, message, expires_at))))))))))"

text \<open>
  Opening a session. First the challenge is read and the signature verified, then
  everything is checked again inside the transaction that consumes the challenge.
\<close>

definition check_challenge :: "string \<Rightarrow> string \<Rightarrow> challenge reply_to act" where
  "check_challenge device_id challenge_id w = (case get_json (ss_challenges (wd_security w)) challenge_id of
     None \<Rightarrow> (Inr (Refused ''challenge_missing'' 409 None), w)
   | Some ch \<Rightarrow>
       if chal_device ch \<noteq> device_id then (Inr (Refused ''challenge_mismatch'' 409 None), w)
       else if chal_expires_at ch \<le> db_now (wd_db w)
       then (Inr (Refused ''challenge_expired'' 409 None),
             w\<lparr>wd_security := (wd_security w)\<lparr>ss_challenges := delete_json challenge_id (ss_challenges (wd_security w))\<rparr>\<rparr>)
       else (Inr (Granted ch), w))"

definition bind_session :: "claim_services \<Rightarrow> string \<Rightarrow> string \<Rightarrow> string \<Rightarrow> string \<Rightarrow> string \<Rightarrow> string \<Rightarrow> int
     \<Rightarrow> (string \<times> string \<times> int) reply_to act" where
  "bind_session ck device_id challenge_id wallet_address public_key token ip_fingerprint user_id w =
    (let ss = wd_security w; now = db_now (wd_db w); expires_at = now + sl_session_ttl (ck_limits ck);
         previous_wallet = bound_wallet user_id ss
     in if previous_wallet \<noteq> None \<and> previous_wallet \<noteq> Some wallet_address
        then (Inr (Refused ''device_wallet_mismatch'' 409 None), w)
        else (Inr (Granted (token, wallet_address, expires_at)), w\<lparr>wd_security := ss\<lparr>
           ss_sessions := set_json (ck_sha ck token) \<lparr>ses_user_id = user_id, ses_device = device_id,
             ses_wallet = wallet_address, ses_key_hash = ck_sha ck (py_lower public_key), ses_created_at = now,
             ses_expires_at = expires_at, ses_ip = ip_fingerprint\<rparr> (ss_sessions ss),
           ss_bindings := set_json user_id \<lparr>bd_user_id = user_id, bd_device = device_id, bd_wallet = wallet_address,
             bd_verified_at = now\<rparr> (ss_bindings ss),
           ss_challenges := delete_json challenge_id (ss_challenges ss)\<rparr>\<rparr>))"

definition open_session :: "claim_services \<Rightarrow> string \<Rightarrow> string \<Rightarrow> string \<Rightarrow> string \<Rightarrow> string
     \<Rightarrow> (string \<times> string \<times> int) reply_to act" where
  "open_session ck device_id challenge_id wallet_address public_key ip_fingerprint =
    bindA (draw_token ck) (\<lambda>token. all_or_nothing (bindA get_world (\<lambda>w.
      case get_json (ss_challenges (wd_security w)) challenge_id of
        None \<Rightarrow> returnA (Refused ''challenge_used'' 409 None)
      | Some ch \<Rightarrow>
          if chal_expires_at ch \<le> db_now (wd_db w) then returnA (Refused ''challenge_used'' 409 None)
          else if chal_device ch \<noteq> device_id then returnA (Refused ''challenge_mismatch'' 409 None)
          else (case get_or_create_public_user (ck_registration ck) device_id ip_fingerprint (wd_db w, wd_security w) of
              Inl (CooldownError retry_at) \<Rightarrow> returnA (Refused ''registration_rate_limited'' 429 (Some retry_at))
            | Inl e \<Rightarrow> raiseA e
            | Inr ((user_id, _), d, ss) \<Rightarrow>
                (\<lambda>w. bind_session ck device_id challenge_id wallet_address public_key token ip_fingerprint user_id
                  (w\<lparr>wd_db := d, wd_security := ss\<rparr>))))))"

definition security_verify :: "claim_services \<Rightarrow> string \<Rightarrow> string \<Rightarrow> string \<Rightarrow> string \<Rightarrow> string
     \<Rightarrow> (string \<times> string \<times> int) reply_to act" where
  "security_verify ck device_id_hash challenge_id public_key signature ip_fingerprint =
    (case clean_device_identifier device_id_hash of
       Inl _ \<Rightarrow> returnA (Refused ''invalid_device'' 400 None)
     | Inr device_id \<Rightarrow> bindA (check_challenge device_id challenge_id) (\<lambda>checked. case checked of
         Refused code st retry \<Rightarrow> returnA (Refused code st retry)
       | Granted ch \<Rightarrow> (case verify_wallet_signature ck (chal_message ch) public_key signature of
           Inl (RuntimeError _) \<Rightarrow> returnA (Refused ''auth_unavailable'' 503 None)
         | Inl _ \<Rightarrow> returnA (Refused ''signature_invalid'' 401 None)
         | Inr wallet_address \<Rightarrow> open_session ck device_id challenge_id wallet_address public_key ip_fingerprint)))"

text \<open>\<^verbatim>\<open>claim_auth_abuse_guard.py\<close>: the verify route behind its own buckets.\<close>

definition guarded_security_verify :: "claim_services \<Rightarrow> string \<Rightarrow> string \<Rightarrow> string \<Rightarrow> string \<Rightarrow> string
     \<Rightarrow> (string \<times> string \<times> int) reply_to act" where
  "guarded_security_verify ck device_id_hash challenge_id public_key signature ip_fingerprint =
    (let sl = ck_limits ck;
         rest = security_verify ck device_id_hash challenge_id public_key signature ip_fingerprint in
     if \<not> public_deployment (ck_settings ck) then rest
     else bindA get_world (\<lambda>w.
       bindA (admit (''verify:ip:'' @ ip_fingerprint) (sl_auth_window sl) (max 1 (ck_verify_per_ip ck))) (\<lambda>(allowed_ip, retry_ip).
       bindA (case clean_device_identifier device_id_hash of
           Inl _ \<Rightarrow> returnA (True, db_now (wd_db w))
         | Inr device_id \<Rightarrow> admit (''verify:device:'' @ device_id) (sl_auth_window sl) (max 1 (ck_verify_per_device ck)))
         (\<lambda>(allowed_device, retry_device).
       if \<not> allowed_ip \<or> \<not> allowed_device
       then returnA (Refused ''auth_verify_rate_limited'' 429 (Some (max retry_ip retry_device)))
       else rest))))"

end
