(* ===== verification/ClaimRisk.thy ===== *)
theory ClaimRisk
  imports ClaimSecurity
begin

text \<open>
  The correlation of claims in \<^verbatim>\<open>claim_security.py\<close> and
  \<^verbatim>\<open>claim_security_defence_in_depth.py\<close>: the recent claim events, the risk of a
  claim that is about to be made, the two detectors of coordinated bursts, and
  the security record of a claim that was made. The detectors only ever mark
  claims for manual review; they refuse nothing.
\<close>

section \<open>Recent events\<close>

definition load_recent_events :: "security_limits \<Rightarrow> int \<Rightarrow> security_state \<Rightarrow> claim_event list" where
  "load_recent_events sl now ss =
     last_n (sl_max_events sl) (filter (\<lambda>e. now - sl_event_retention sl \<le> ev_claimed_at e) (ss_events ss))"

text \<open>The claim about to be made.\<close>

record claim_target =
  ct_spot_id :: int
  ct_device :: string
  ct_wallet :: string
  ct_payout :: "string option"
  ct_ip :: string
  ct_claimed_at :: int
  ct_lat :: rat
  ct_long :: rat
  ct_radius :: int

definition event_distance :: "distance_fun \<Rightarrow> claim_event \<Rightarrow> claim_target \<Rightarrow> rat" where
  "event_distance metres previous target =
    (let centre = metres (ev_spot_lat previous) (ev_spot_long previous) (ct_lat target) (ct_long target)
     in max 0 (fl (fl (centre - max 0 (of_int (ev_spot_radius previous))) - max 0 (of_int (ct_radius target)))))"

record violation =
  vi_distance :: rat
  vi_elapsed :: int
  vi_speed :: rat
  vi_retry_at :: int

definition travel_violation :: "distance_fun \<Rightarrow> claim_event \<Rightarrow> claim_target \<Rightarrow> int \<Rightarrow> int \<Rightarrow> violation option" where
  "travel_violation metres previous target max_mps min_metres =
    (let distance = event_distance metres previous target;
         elapsed = max 1 (ct_claimed_at target - ev_claimed_at previous);
         speed = fl (distance / of_int elapsed)
     in if distance < of_int min_metres \<or> speed \<le> of_int max_mps then None
        else Some \<lparr>vi_distance = distance, vi_elapsed = elapsed, vi_speed = speed,
          vi_retry_at = ev_claimed_at previous + \<lceil>fl (distance / of_int max_mps)\<rceil> + 1\<rparr>)"

definition signal_text :: "string \<Rightarrow> string" where
  "signal_text s = py_upper (py_strip s)"

definition shared_strong_signal :: "claim_event \<Rightarrow> claim_target \<Rightarrow> string option" where
  "shared_strong_signal previous target =
    (let same = (\<lambda>l r. signal_text l \<noteq> [] \<and> signal_text r \<noteq> [] \<and> signal_text l = signal_text r);
         text = (\<lambda>p. case p of None \<Rightarrow> [] | Some a \<Rightarrow> a)
     in if same (ev_wallet previous) (ct_wallet target) then Some ''verified wallet''
        else if same (ev_device previous) (ct_device target) then Some ''device''
        else if same (text (ev_payout previous)) (text (ct_payout target)) then Some ''payout address''
        else None)"

section \<open>The risk of a claim\<close>

definition identity_violations :: "security_limits \<Rightarrow> distance_fun \<Rightarrow> claim_event list \<Rightarrow> claim_target \<Rightarrow> violation list" where
  "identity_violations sl metres events target = List.map_filter (\<lambda>previous.
     case shared_strong_signal previous target of None \<Rightarrow> None
     | Some _ \<Rightarrow> travel_violation metres previous target (sl_travel_mps sl) (sl_travel_min sl)) events"

definition wallet_events :: "claim_event list \<Rightarrow> claim_target \<Rightarrow> claim_event list" where
  "wallet_events events target = filter (\<lambda>e. signal_text (ev_wallet e) = signal_text (ct_wallet target)
     \<and> ct_claimed_at target - 60 * 60 < ev_claimed_at e) events"

definition preclaim_risk :: "security_limits \<Rightarrow> distance_fun \<Rightarrow> claim_event list \<Rightarrow> claim_target \<Rightarrow> preclaim" where
  "preclaim_risk sl metres events target =
    (case first_max vi_retry_at (identity_violations sl metres events target) of
       Some v \<Rightarrow> \<lparr>pc_blocked = True, pc_reason = ''impossible_travel'', pc_retry_at = vi_retry_at v\<rparr>
     | None \<Rightarrow>
       let recent = wallet_events events target in
       if signal_text (ct_wallet target) \<noteq> [] \<and> sl_wallet_hourly sl \<le> int (length recent)
       then \<lparr>pc_blocked = True, pc_reason = ''wallet_rate_limit'',
             pc_retry_at = Min (set (map ev_claimed_at recent)) + 60 * 60 + 1\<rparr>
       else case List.map_filter (\<lambda>previous. if ct_ip target \<noteq> [] \<and> ev_ip previous = ct_ip target
                then travel_violation metres previous target (sl_ip_travel_mps sl) (sl_ip_travel_min sl) else None) events of
         v # _ \<Rightarrow> \<lparr>pc_blocked = True, pc_reason = ''source_network_impossible_travel'', pc_retry_at = vi_retry_at v\<rparr>
       | [] \<Rightarrow> preclaim_allowed)"

text \<open>\<^verbatim>\<open>claim_security_defence_in_depth.py\<close>: a shared network alone never refuses.\<close>

definition preclaim_risk_without_ip_only_block ::
  "security_limits \<Rightarrow> distance_fun \<Rightarrow> claim_event list \<Rightarrow> claim_target \<Rightarrow> preclaim" where
  "preclaim_risk_without_ip_only_block sl metres events target =
    (let decision = preclaim_risk sl metres events target
     in if pc_reason decision = ''source_network_impossible_travel'' then preclaim_allowed else decision)"

definition preclaim_decision :: "claim_services \<Rightarrow> int \<Rightarrow> session_doc \<Rightarrow> string \<Rightarrow> db \<Rightarrow> security_state \<Rightarrow> preclaim" where
  "preclaim_decision ck spot_id session ip_fingerprint d ss =
    (let unavailable = \<lparr>pc_blocked = False, pc_reason = ''spot_unavailable_for_security_check'', pc_retry_at = 0\<rparr>
     in case get_spot spot_id d of None \<Rightarrow> unavailable | Some s \<Rightarrow>
       (case (sp_lat s, sp_long s) of
          (Some lat, Some long) \<Rightarrow>
            preclaim_risk_without_ip_only_block (ck_limits ck) (ck_metres ck)
              (load_recent_events (ck_limits ck) (db_now d) ss)
              \<lparr>ct_spot_id = spot_id, ct_device = ses_device session, ct_wallet = ses_wallet session,
               ct_payout = canonical_payout_address (ses_wallet session), ct_ip = ip_fingerprint,
               ct_claimed_at = db_now d, ct_lat = lat, ct_long = long, ct_radius = sp_radius s\<rparr>
        | _ \<Rightarrow> unavailable))"

definition preclaim_decision_with_durable_wallet_limit ::
  "claim_services \<Rightarrow> int \<Rightarrow> session_doc \<Rightarrow> string \<Rightarrow> db \<Rightarrow> security_state \<Rightarrow> preclaim" where
  "preclaim_decision_with_durable_wallet_limit ck spot_id session ip_fingerprint d ss =
    (let decision = preclaim_decision ck spot_id session ip_fingerprint d ss in
     if pc_blocked decision then decision
     else case canonical_payout_address (ses_wallet session) of None \<Rightarrow> decision
     | Some wallet_address \<Rightarrow>
         let durable = durable_wallet_rate_decision (ck_limits ck) wallet_address (db_now d) ss d
         in if pc_blocked durable then durable else decision)"

section \<open>Bursts of new identities\<close>

fun max_spread_metres :: "distance_fun \<Rightarrow> claim_event list \<Rightarrow> rat" where
  "max_spread_metres metres [] = 0"
| "max_spread_metres metres (first # rest) =
     foldl max (max_spread_metres metres rest)
       (map (\<lambda>e. metres (ev_spot_lat first) (ev_spot_long first) (ev_spot_lat e) (ev_spot_long e)) rest)"

definition distinct_texts :: "(claim_event \<Rightarrow> string) \<Rightarrow> claim_event list \<Rightarrow> int" where
  "distinct_texts f events = int (length (remdups (filter (\<lambda>t. t \<noteq> []) (map f events))))"

definition distinct_spots :: "claim_event list \<Rightarrow> int" where
  "distinct_spots events = int (length (remdups (filter (\<lambda>k. 0 < k) (map ev_spot_id events))))"

definition claim_ids_of :: "claim_event list \<Rightarrow> int list" where
  "claim_ids_of events = sort (remdups (filter (\<lambda>k. 0 < k) (map ev_claim_id events)))"

definition burst_candidates :: "security_limits \<Rightarrow> int \<Rightarrow> claim_event list \<Rightarrow> claim_event list" where
  "burst_candidates sl now = filter (\<lambda>e.
     let user_age = ev_claimed_at e - ev_user_created_at e; session_age = ev_claimed_at e - ev_session_created_at e
     in now - sl_burst_window sl \<le> ev_claimed_at e \<and> 0 \<le> user_age \<and> 0 \<le> session_age
        \<and> user_age \<le> sl_new_identity_age sl \<and> session_age \<le> sl_new_identity_age sl
        \<and> ev_centre_offset e \<le> of_int (sl_burst_tolerance sl))"

definition coordinated_burst_claim_ids :: "security_limits \<Rightarrow> distance_fun \<Rightarrow> int \<Rightarrow> claim_event list \<Rightarrow> int list" where
  "coordinated_burst_claim_ids sl metres now events =
    (let candidates = burst_candidates sl now events; minimum = sl_burst_identities sl in
     if int (length candidates) < minimum then []
     else if min (min (distinct_texts ev_device candidates) (distinct_texts ev_wallet candidates)) (distinct_spots candidates)
          < minimum then []
     else if max_spread_metres metres candidates < of_int (sl_burst_spread sl) then []
     else claim_ids_of candidates)"

text \<open>New here means: the first retained claim of its wallet and of its device.\<close>

definition first_claim_at :: "(claim_event \<Rightarrow> string) \<Rightarrow> claim_event \<Rightarrow> claim_event list \<Rightarrow> int" where
  "first_claim_at f e events = Min (set (map ev_claimed_at (filter (\<lambda>x. f x = f e) events)))"

definition broad_candidates :: "burst_limits \<Rightarrow> int \<Rightarrow> claim_event list \<Rightarrow> claim_event list" where
  "broad_candidates bl now events = filter (\<lambda>e. now - max 60 (bl_window bl) \<le> ev_claimed_at e
     \<and> ev_wallet e \<noteq> [] \<and> ev_device e \<noteq> []
     \<and> first_claim_at ev_wallet e events = ev_claimed_at e \<and> first_claim_at ev_device e events = ev_claimed_at e) events"

definition payout_texts :: "claim_event list \<Rightarrow> string list" where
  "payout_texts events = filter (\<lambda>t. t \<noteq> []) (map (\<lambda>e. case ev_payout e of None \<Rightarrow> [] | Some a \<Rightarrow> signal_text a) events)"

definition broad_new_identity_burst_claim_ids :: "burst_limits \<Rightarrow> distance_fun \<Rightarrow> claim_event list \<Rightarrow> int \<Rightarrow> int list" where
  "broad_new_identity_burst_claim_ids bl metres events now =
    (let candidates = broad_candidates bl now events; minimum = max 4 (bl_identities bl); spots = distinct_spots candidates;
         payouts = payout_texts candidates;
         shared_payout = list_ex (\<lambda>p. minimum \<le> int (length (filter (\<lambda>q. q = p) payouts))) payouts;
         concentrated_sweep = (0 < spots \<and> spots \<le> max 1 (bl_spots bl) \<and> shared_payout);
         geographic_sweep = (minimum \<le> spots \<and> of_int (max 10000 (bl_spread bl)) \<le> max_spread_metres metres candidates)
     in if int (length candidates) < minimum then []
        else if min (distinct_texts ev_device candidates) (distinct_texts ev_wallet candidates) < minimum then []
        else if \<not> concentrated_sweep \<and> \<not> geographic_sweep then []
        else claim_ids_of candidates)"

section \<open>Security records\<close>

definition mark_manual_review :: "int list \<Rightarrow> string \<Rightarrow> int \<Rightarrow> security_state \<Rightarrow> security_state" where
  "mark_manual_review claim_ids reason now ss =
    (let ids = sort (remdups (filter (\<lambda>k. 0 < k) claim_ids)) in
     if claim_ids = [] then ss
     else (fold (\<lambda>k s. case get_json (ss_records s) k of None \<Rightarrow> s
            | Some r \<Rightarrow> s\<lparr>ss_records := set_json k (r\<lparr>ev_manual_review := True, ev_review_reason := Some reason,
                ev_review_marked_at := Some now\<rparr>) (ss_records s)\<rparr>) ids ss)\<lparr>ss_incident := Some (reason, ids, now)\<rparr>)"

definition event_of_claim :: "claim_services \<Rightarrow> int \<Rightarrow> session_doc \<Rightarrow> rat \<Rightarrow> rat \<Rightarrow> string \<Rightarrow> authorization option
     \<Rightarrow> db \<Rightarrow> claim_event res" where
  "event_of_claim ck claim_id session reported_lat reported_long ip_fingerprint approval d =
    (case get_claim claim_id d of None \<Rightarrow> Inl (RuntimeError ''claim disappeared before security recording'') | Some v \<Rightarrow>
     let c = cd_claim v; now = db_now d in
     (case get_spot (cl_spot_id c) d of None \<Rightarrow> Inl (RuntimeError ''spot disappeared before security recording'') | Some s \<Rightarrow>
     (case get_user_by_id (cl_recipient c) d of None \<Rightarrow> Inl (RuntimeError ''user disappeared before security recording'') | Some u \<Rightarrow>
     (case (sp_lat s, sp_long s) of
        (Some lat, Some long) \<Rightarrow> Inr \<lparr>ev_claim_id = claim_id, ev_spot_id = cl_spot_id c, ev_user_id = cl_recipient c,
          ev_device = ses_device session, ev_wallet = ses_wallet session,
          ev_payout = (case cl_payout_address c of None \<Rightarrow> None | Some a \<Rightarrow> canonical_payout_address a),
          ev_ip = ip_fingerprint, ev_claimed_at = (if cl_claimed_at c = 0 then now else cl_claimed_at c),
          ev_recorded_at = now,
          ev_session_created_at = (if ses_created_at session = 0 then now else ses_created_at session),
          ev_user_created_at = (if us_created_at u = 0 then now else us_created_at u),
          ev_spot_lat = lat, ev_spot_long = long, ev_spot_radius = sp_radius s,
          ev_reported_lat = reported_lat, ev_reported_long = reported_long,
          ev_centre_offset = ck_metres ck reported_lat reported_long lat long,
          ev_authorization = approval, ev_manual_review = False, ev_review_reason = None,
          ev_review_marked_at = None, ev_released_at = None\<rparr>
      | _ \<Rightarrow> Inl (TypeError ''float() argument must be a string or a real number'')))))"

definition store_event :: "claim_services \<Rightarrow> claim_event \<Rightarrow> int \<Rightarrow> security_state \<Rightarrow> security_state" where
  "store_event ck event now ss =
    (let sl = ck_limits ck;
         others = filter (\<lambda>e. ev_claim_id e \<noteq> ev_claim_id event) (load_recent_events sl now ss);
         events = last_n (sl_max_events sl) (others @ [event]);
         ss1 = ss\<lparr>ss_records := set_json (ev_claim_id event) event (ss_records ss), ss_events := events\<rparr>
     in mark_manual_review (coordinated_burst_claim_ids sl (ck_metres ck) now events)
          ''coordinated_new_identity_exact_location_burst'' now ss1)"

definition record_claim_event :: "claim_services \<Rightarrow> int \<Rightarrow> session_doc \<Rightarrow> rat \<Rightarrow> rat \<Rightarrow> string \<Rightarrow> authorization option
     \<Rightarrow> unit act" where
  "record_claim_event ck claim_id session reported_lat reported_long ip_fingerprint approval = bindA get_world (\<lambda>w.
    bindA (liftA (event_of_claim ck claim_id session reported_lat reported_long ip_fingerprint approval (wd_db w))) (\<lambda>event.
    change_security (store_event ck event (db_now (wd_db w)))))"

text \<open>Its replacement in \<^verbatim>\<open>claim_security_defence_in_depth.py\<close>, which takes no approval.\<close>

definition record_claim_event_with_broad_burst ::
  "claim_services \<Rightarrow> int \<Rightarrow> session_doc \<Rightarrow> rat \<Rightarrow> rat \<Rightarrow> string \<Rightarrow> unit act" where
  "record_claim_event_with_broad_burst ck claim_id session reported_lat reported_long ip_fingerprint =
    bindA (record_claim_event ck claim_id session reported_lat reported_long ip_fingerprint None) (\<lambda>_.
    bindA get_world (\<lambda>w.
    let now = db_now (wd_db w); events = load_recent_events (ck_limits ck) now (wd_security w) in
    change_security (mark_manual_review (broad_new_identity_burst_claim_ids (ck_burst ck) (ck_metres ck) events now)
      ''coordinated_new_identity_geographic_burst'' now)))"

text \<open>
  What the name \<^verbatim>\<open>_record_claim_event\<close> stands for when the guard calls it with the
  keyword argument \<^verbatim>\<open>authorization\<close>: Python raises when the function has no such
  parameter.
\<close>

datatype record_hook =
    TakesApproval "int \<Rightarrow> session_doc \<Rightarrow> rat \<Rightarrow> rat \<Rightarrow> string \<Rightarrow> authorization option \<Rightarrow> unit act"
  | NoApproval "int \<Rightarrow> session_doc \<Rightarrow> rat \<Rightarrow> rat \<Rightarrow> string \<Rightarrow> unit act"

fun call_record_hook :: "record_hook \<Rightarrow> int \<Rightarrow> session_doc \<Rightarrow> rat \<Rightarrow> rat \<Rightarrow> string \<Rightarrow> authorization \<Rightarrow> unit act" where
  "call_record_hook (TakesApproval f) k s la lo ip a = f k s la lo ip (Some a)"
| "call_record_hook (NoApproval f) k s la lo ip a =
     raiseA (TypeError ''_record_claim_event_with_broad_burst() got an unexpected keyword argument authorization'')"

definition installed_record_hook :: "claim_services \<Rightarrow> record_hook" where
  "installed_record_hook ck = NoApproval (record_claim_event_with_broad_burst ck)"

end
