(* ===== verification/ClaimApproval.thy ===== *)
theory ClaimApproval
  imports ClaimRisk "HOL-Library.Char_ord" "HOL-Library.List_Lexorder"
begin

text \<open>
  Signed claim approvals and the guard in front of the claim route
  (\<^verbatim>\<open>prepare_claim_authorization\<close> and \<^verbatim>\<open>guard_http_request\<close> of
  \<^verbatim>\<open>claim_security.py\<close>). The guard opens a connection, and closes it, several
  times while it handles one request, so other requests run in between: it is a
  machine whose stages are the points between two connections, and \<open>advance\<close> is
  what happens from one to the next. The application behind it and the checks of
  fresh accounts (\<^verbatim>\<open>fresh_claim_guard.py\<close>) are arguments.
\<close>

section \<open>Identifiers and cleanup\<close>

fun digits_padded :: "nat \<Rightarrow> string \<Rightarrow> string" where
  "digits_padded width s = replicate (width - length s) (CHR ''0'') @ s"

definition token_char :: "char \<Rightarrow> bool" where
  "token_char c \<longleftrightarrow> py_isalnum c \<or> c = CHR ''_'' \<or> c = CHR ''-''"

text \<open>\<^verbatim>\<open>[0-9]{12}\.[A-Za-z0-9_-]{20,64}\<close>.\<close>

definition claim_authorization_key :: "string \<Rightarrow> string res" where
  "claim_authorization_key challenge_id =
    (let stamp = take 12 challenge_id; token = drop 13 challenge_id
     in if length stamp = 12 \<and> list_all py_isdigit stamp \<and> take 1 (drop 12 challenge_id) = ''.''
          \<and> 20 \<le> length token \<and> length token \<le> 64 \<and> list_all token_char token
        then Inr challenge_id else Inl (ValueError ''Invalid claim authorization identifier''))"

definition unusable :: "security_limits \<Rightarrow> int \<Rightarrow> authorization \<Rightarrow> bool" where
  "unusable sl now a = (case au_status a of
     Issued \<Rightarrow> au_expires_at a \<le> now
   | _ \<Rightarrow> au_expires_at a \<le> now - sl_verify_grace sl)"

definition cleanup_claim_authorizations :: "security_limits \<Rightarrow> int \<Rightarrow> security_state \<Rightarrow> security_state" where
  "cleanup_claim_authorizations sl now ss =
    (let rows = take (nat (sl_cleanup_batch sl)) (sort_key fst (ss_authorizations ss));
         removable = map fst (filter (\<lambda>r. unusable sl now (snd r)) rows)
     in ss\<lparr>ss_authorizations := fold delete_json removable (ss_authorizations ss)\<rparr>)"

definition retire_claim_authorization :: "string \<Rightarrow> unit act" where
  "retire_claim_authorization key =
     change_security (\<lambda>ss. ss\<lparr>ss_authorizations := delete_json key (ss_authorizations ss)\<rparr>)"

section \<open>Preparing an approval\<close>

record approval_request =
  ap_device :: string
  ap_token :: "string option"
  ap_spot_id :: int
  ap_action :: string
  ap_lat :: number
  ap_long :: number
  ap_accuracy :: number

definition new_authorization :: "claim_services \<Rightarrow> int \<Rightarrow> string \<Rightarrow> string \<Rightarrow> int \<times> int \<times> int \<Rightarrow> string \<Rightarrow> int \<Rightarrow> authorization res" where
  "new_authorization ck spot_id wallet_address device_id fixed nonce now =
    (let expires_at = now + sl_authorization_ttl (ck_limits ck)
     in bindE (build_message (ck_mode ck) (claim_network ck) spot_id wallet_address device_id fixed nonce now expires_at) (\<lambda>message.
        Inr \<lparr>au_status = Issued, au_message = message, au_spot_id = spot_id, au_device = device_id,
          au_wallet = wallet_address, au_location = fixed, au_environment = ck_mode ck,
          au_network = claim_network ck, au_issued_at = now, au_expires_at = expires_at\<rparr>))"

definition issue_authorization :: "claim_services \<Rightarrow> int \<Rightarrow> string \<Rightarrow> string \<Rightarrow> int \<times> int \<times> int
     \<Rightarrow> (string \<times> authorization) reply_to act" where
  "issue_authorization ck spot_id wallet_address device_id fixed =
    bindA (draw_token ck) (\<lambda>token. bindA (draw_token ck) (\<lambda>nonce. bindA get_world (\<lambda>w.
    let now = db_now (wd_db w);
        challenge_id = digits_padded 12 (int_text (now + sl_authorization_ttl (ck_limits ck))) @ ''.'' @ token in
    bindA (liftA (new_authorization ck spot_id wallet_address device_id fixed nonce now)) (\<lambda>a.
    bindA (liftA (claim_authorization_key challenge_id)) (\<lambda>key.
    bindA (change_security (\<lambda>ss. ss\<lparr>ss_authorizations := set_json key a (ss_authorizations ss)\<rparr>)) (\<lambda>_.
    returnA (Granted (challenge_id, a))))))))"

definition prepare_under_session :: "claim_services \<Rightarrow> approval_request \<Rightarrow> string \<Rightarrow> int \<times> int \<times> int \<Rightarrow> session_doc
     \<Rightarrow> (string \<times> authorization) reply_to act" where
  "prepare_under_session ck rq device_id fixed session = bindA get_world (\<lambda>w.
    let sl = ck_limits ck in
    if get_spot (ap_spot_id rq) (wd_db w) = None then returnA (Refused ''spot_missing'' 404 None)
    else case canonical_payout_address (ses_wallet session) of
      None \<Rightarrow> returnA (Refused ''wallet_auth_required'' 401 None)
    | Some wallet_address \<Rightarrow>
      bindA (admit (''claim_authorization:device:'' @ device_id) (sl_authorization_window sl)
        (sl_authorization_per_device sl)) (\<lambda>(allowed_device, retry_device).
      bindA (admit (''claim_authorization:wallet:'' @ ck_sha ck wallet_address) (sl_authorization_window sl)
        (sl_authorization_per_wallet sl)) (\<lambda>(allowed_wallet, retry_wallet).
      if \<not> allowed_device \<or> \<not> allowed_wallet
      then returnA (Refused ''claim_authorization_rate_limited'' 429 (Some (max retry_device retry_wallet)))
      else issue_authorization ck (ap_spot_id rq) wallet_address device_id fixed)))"

definition prepare_claim_authorization :: "claim_services \<Rightarrow> approval_request \<Rightarrow> (string \<times> authorization) reply_to act" where
  "prepare_claim_authorization ck rq =
    (case (clean_device_identifier (ap_device rq), canonical_location (ap_lat rq) (ap_long rq) (ap_accuracy rq)) of
       (Inr device_id, Inr fixed) \<Rightarrow>
         if ap_action rq \<noteq> ''claim'' then returnA (Refused ''claim_authorization_invalid'' 400 None)
         else all_or_nothing (bindA get_world (\<lambda>w.
           let now = db_now (wd_db w) in
           bindA (change_security (cleanup_claim_authorizations (ck_limits ck) now)) (\<lambda>_.
           bindA get_world (\<lambda>w1.
           case load_session ck (ap_token rq) device_id now (wd_security w1) of (session, ss) \<Rightarrow>
           bindA (change_security (\<lambda>_. ss)) (\<lambda>_.
           case session of None \<Rightarrow> returnA (Refused ''wallet_auth_required'' 401 None)
           | Some s \<Rightarrow> prepare_under_session ck rq device_id fixed s)))))
     | _ \<Rightarrow> returnA (Refused ''claim_authorization_invalid'' 400 None))"

section \<open>The guard\<close>

record signed_proof =
  pf_challenge_id :: string
  pf_public_key :: string
  pf_signature :: string

record guarded_request =
  gr_spot_id :: int
  gr_device :: string
  gr_token :: "string option"
  gr_ip :: string
  gr_proof :: "signed_proof option"
  gr_lat :: number
  gr_long :: number
  gr_accuracy :: number
  gr_captcha :: "(int \<times> int \<times> int) option"
  gr_claim_code :: "string option"
  gr_payout_address :: "string option"

text \<open>The application's answer: whether it is an accepted claim, and the id it carries.\<close>

record 'r app_reply =
  ar_ok :: bool
  ar_claim_id :: "int option"
  ar_body :: 'r

datatype 'r guard_answer = GuardRefused string int "int option" | Forwarded "'r app_reply"

datatype 'r guard_stage =
    Arrived
  | Checked session_doc string authorization
  | Attempted session_doc string authorization
  | Vetted session_doc string authorization
  | Processing session_doc string authorization
  | Running session_doc string authorization
  | Recording session_doc string authorization int "'r guard_answer"
  | Retiring string "'r guard_answer"
  | Answered "'r guard_answer"

text \<open>
  The checks of fresh accounts see the request, the session and the signer; they
  answer whether the claim is allowed and whether the user is banned, and may
  change the tables and their own documents, also when they raise.
\<close>

type_synonym fresh_check =
  "guarded_request \<Rightarrow> session_doc \<Rightarrow> string \<Rightarrow> db \<times> fresh_state \<Rightarrow> (bool \<times> bool) res \<times> db \<times> fresh_state"

record 'r guard_services =
  gs_app :: "guarded_request \<Rightarrow> 'r app_reply act"
  gs_fresh :: fresh_check
  gs_record :: record_hook

definition approval_matches :: "claim_services \<Rightarrow> guarded_request \<Rightarrow> string \<Rightarrow> int \<times> int \<times> int \<Rightarrow> authorization \<Rightarrow> bool" where
  "approval_matches ck rq device_id fixed a \<longleftrightarrow> au_spot_id a = gr_spot_id rq \<and> au_device a = device_id
     \<and> au_location a = fixed \<and> au_environment a = ck_mode ck \<and> au_network a = claim_network ck"

text \<open>The session and the approval of a request, read on connections that are closed without a commit.\<close>

definition check_request :: "claim_services \<Rightarrow> guarded_request \<Rightarrow> world \<Rightarrow> 'r guard_stage" where
  "check_request ck rq w =
    (let now = db_now (wd_db w) in
     case clean_device_identifier (gr_device rq) of Inl _ \<Rightarrow> Answered (GuardRefused ''wallet_auth_required'' 401 None)
     | Inr device_id \<Rightarrow>
     (case session_of ck (gr_token rq) device_id w of None \<Rightarrow> Answered (GuardRefused ''wallet_auth_required'' 401 None)
     | Some session \<Rightarrow>
     (case gr_proof rq of None \<Rightarrow> Answered (GuardRefused ''claim_authorization_required'' 401 None)
     | Some proof \<Rightarrow>
     (case claim_authorization_key (pf_challenge_id proof) of
        Inl _ \<Rightarrow> Answered (GuardRefused ''claim_authorization_missing'' 409 None)
      | Inr key \<Rightarrow>
     (case get_json (ss_authorizations (wd_security w)) key of
        None \<Rightarrow> Answered (GuardRefused ''claim_authorization_missing'' 409 None)
      | Some a \<Rightarrow>
        if au_status a \<noteq> Issued \<or> au_expires_at a \<le> now then Answered (GuardRefused ''claim_authorization_used'' 409 None)
        else case canonical_location (gr_lat rq) (gr_long rq) (gr_accuracy rq) of
          Inl _ \<Rightarrow> Answered (GuardRefused ''claim_authorization_mismatch'' 409 None)
        | Inr fixed \<Rightarrow>
            if approval_matches ck rq device_id fixed a then Checked session key a
            else Answered (GuardRefused ''claim_authorization_mismatch'' 409 None))))))"

definition set_authorization_status :: "string \<Rightarrow> authorization_status \<Rightarrow> security_state \<Rightarrow> security_state" where
  "set_authorization_status key st ss = (case get_json (ss_authorizations ss) key of
     None \<Rightarrow> ss
   | Some a \<Rightarrow> ss\<lparr>ss_authorizations := set_json key (a\<lparr>au_status := st\<rparr>) (ss_authorizations ss)\<rparr>)"

text \<open>The one permitted verification attempt.\<close>

definition begin_verification :: "session_doc \<Rightarrow> string \<Rightarrow> authorization \<Rightarrow> 'r guard_stage act" where
  "begin_verification session key a = bindA get_world (\<lambda>w.
    case get_json (ss_authorizations (wd_security w)) key of
      None \<Rightarrow> returnA (Answered (GuardRefused ''claim_authorization_used'' 409 None))
    | Some fresh \<Rightarrow>
        if au_status fresh \<noteq> Issued \<or> au_expires_at fresh \<le> db_now (wd_db w)
        then returnA (Answered (GuardRefused ''claim_authorization_used'' 409 None))
        else bindA (change_security (set_authorization_status key Verifying)) (\<lambda>_. returnA (Attempted session key a)))"

definition fresh_account_decision :: "fresh_check \<Rightarrow> guarded_request \<Rightarrow> session_doc \<Rightarrow> string \<Rightarrow> (bool \<times> bool) act" where
  "fresh_account_decision fresh rq session signer w =
    (if get_spot (gr_spot_id rq) (wd_db w) = None then (Inr (False, False), w)
     else case fresh rq session signer (wd_db w, ss_fresh (wd_security w)) of (r, d, f) \<Rightarrow>
       (r, w\<lparr>wd_db := d, wd_security := (wd_security w)\<lparr>ss_fresh := f\<rparr>\<rparr>))"

text \<open>The signature, then the checks of fresh accounts.\<close>

definition vet_signer :: "claim_services \<Rightarrow> 'r guard_services \<Rightarrow> guarded_request \<Rightarrow> session_doc \<Rightarrow> string
     \<Rightarrow> authorization \<Rightarrow> 'r guard_stage act" where
  "vet_signer ck gs rq session key a = (case gr_proof rq of
     None \<Rightarrow> returnA (Retiring key (GuardRefused ''claim_signature_invalid'' 401 None))
   | Some proof \<Rightarrow> (case verify_wallet_signature ck (au_message a) (pf_public_key proof) (pf_signature proof) of
       Inl _ \<Rightarrow> returnA (Retiring key (GuardRefused ''claim_signature_invalid'' 401 None))
     | Inr signer \<Rightarrow>
         if canonical_payout_address (au_wallet a) \<noteq> Some signer \<or> signer \<noteq> ses_wallet session
         then returnA (Retiring key (GuardRefused ''claim_wallet_mismatch'' 409 None))
         else bindA (fresh_account_decision (gs_fresh gs) rq session signer) (\<lambda>(allowed, banned).
           returnA (if allowed then Vetted session key a
             else Retiring key (GuardRefused ''public_claim_temporarily_unavailable'' (if banned then 403 else 429) None)))))"

definition begin_processing :: "session_doc \<Rightarrow> string \<Rightarrow> authorization \<Rightarrow> 'r guard_stage act" where
  "begin_processing session key a = bindA get_world (\<lambda>w.
    case get_json (ss_authorizations (wd_security w)) key of
      None \<Rightarrow> returnA (Answered (GuardRefused ''claim_authorization_used'' 409 None))
    | Some fresh \<Rightarrow>
        if au_status fresh \<noteq> Verifying then returnA (Answered (GuardRefused ''claim_authorization_used'' 409 None))
        else bindA (change_security (set_authorization_status key Processing_claim)) (\<lambda>_.
          returnA (Processing session key a)))"

definition check_risk :: "claim_services \<Rightarrow> guarded_request \<Rightarrow> session_doc \<Rightarrow> string \<Rightarrow> authorization \<Rightarrow> world \<Rightarrow> 'r guard_stage" where
  "check_risk ck rq session key a w =
    (let decision = preclaim_decision_with_durable_wallet_limit ck (gr_spot_id rq) session (gr_ip rq) (wd_db w) (wd_security w)
     in if pc_blocked decision
        then Retiring key (GuardRefused ''claim_security_cooldown'' 429
          (if pc_retry_at decision = 0 then None else Some (pc_retry_at decision)))
        else Running session key a)"

text \<open>The answer goes out last; an accepted claim without an id leaves the approval as it is.\<close>

definition run_app :: "'r guard_services \<Rightarrow> guarded_request \<Rightarrow> session_doc \<Rightarrow> string \<Rightarrow> authorization \<Rightarrow> 'r guard_stage act" where
  "run_app gs rq session key a = bindA (gs_app gs rq) (\<lambda>reply.
    returnA (if \<not> ar_ok reply then Retiring key (Forwarded reply)
      else case ar_claim_id reply of
        None \<Rightarrow> Answered (Forwarded reply)
      | Some claim_id \<Rightarrow> Recording session key a claim_id (Forwarded reply)))"

definition number_value :: "number \<Rightarrow> rat" where
  "number_value n = (case n of Number x \<Rightarrow> x | _ \<Rightarrow> 0)"

definition record_and_retire :: "'r guard_services \<Rightarrow> guarded_request \<Rightarrow> session_doc \<Rightarrow> string \<Rightarrow> authorization \<Rightarrow> int
     \<Rightarrow> 'r guard_answer \<Rightarrow> 'r guard_stage act" where
  "record_and_retire gs rq session key a claim_id answer =
    catchA (bindA (call_record_hook (gs_record gs) claim_id session (number_value (gr_lat rq))
        (number_value (gr_long rq)) (gr_ip rq) a) (\<lambda>_. returnA (Retiring key answer)))
      (\<lambda>_. returnA (Answered answer))"

fun advance :: "claim_services \<Rightarrow> 'r guard_services \<Rightarrow> guarded_request \<Rightarrow> 'r guard_stage \<Rightarrow> 'r guard_stage act" where
  "advance ck gs rq Arrived = bindA get_world (\<lambda>w. returnA (check_request ck rq w))"
| "advance ck gs rq (Checked s k a) = begin_verification s k a"
| "advance ck gs rq (Attempted s k a) = vet_signer ck gs rq s k a"
| "advance ck gs rq (Vetted s k a) = begin_processing s k a"
| "advance ck gs rq (Processing s k a) = bindA get_world (\<lambda>w. returnA (check_risk ck rq s k a w))"
| "advance ck gs rq (Running s k a) = run_app gs rq s k a"
| "advance ck gs rq (Recording s k a i r) = record_and_retire gs rq s k a i r"
| "advance ck gs rq (Retiring k r) = bindA (retire_claim_authorization k) (\<lambda>_. returnA (Answered r))"
| "advance ck gs rq (Answered r) = returnA (Answered r)"

text \<open>One request alone.\<close>

fun advances :: "nat \<Rightarrow> claim_services \<Rightarrow> 'r guard_services \<Rightarrow> guarded_request \<Rightarrow> 'r guard_stage \<Rightarrow> 'r guard_stage act" where
  "advances 0 ck gs rq st = returnA st"
| "advances (Suc n) ck gs rq st = bindA (advance ck gs rq st) (advances n ck gs rq)"

definition guard_http_request :: "claim_services \<Rightarrow> 'r guard_services \<Rightarrow> guarded_request \<Rightarrow> 'r guard_answer option act" where
  "guard_http_request ck gs rq =
    (if \<not> public_deployment (ck_settings ck) then bindA (gs_app gs rq) (\<lambda>reply. returnA (Some (Forwarded reply)))
     else bindA (advances 8 ck gs rq Arrived) (\<lambda>st. returnA (case st of Answered r \<Rightarrow> Some r | _ \<Rightarrow> None)))"

section \<open>The application behind the guard\<close>

text \<open>\<^verbatim>\<open>public_html._identify_private_page_user\<close> inside Nimiq Pay; an unknown device registers.\<close>

definition identify_private_page_user :: "claim_services \<Rightarrow> string \<Rightarrow> int reply_to act" where
  "identify_private_page_user ck device_id_hash w =
    (let device = py_lower (py_strip device_id_hash) in
     case get_or_create_public_user (ck_registration ck) device [] (wd_db w, wd_security w) of
       Inl (CooldownError retry_at) \<Rightarrow> (Inr (Refused ''registration_rate_limited'' 429 (Some retry_at)), w)
     | Inl e \<Rightarrow> (Inl e, w)
     | Inr ((user_id, _), d, ss) \<Rightarrow> (case touch_user_last_seen user_id d of
         Inl e \<Rightarrow> (Inl e, w)
       | Inr d' \<Rightarrow> (Inr (if get_user_by_id user_id d' = None then Refused ''user_missing'' 500 None else Granted user_id),
                    w\<lparr>wd_db := d', wd_security := ss\<rparr>)))"

definition number_given :: "number \<Rightarrow> rat option" where
  "number_given n = (case n of Number x \<Rightarrow> Some x | _ \<Rightarrow> None)"

definition claim_route :: "claim_services \<Rightarrow> guarded_request \<Rightarrow> claim_answer app_reply act" where
  "claim_route ck rq = bindA (all_or_nothing (bindA (identify_private_page_user ck (gr_device rq)) (\<lambda>identified.
     case identified of
       Refused code _ _ \<Rightarrow> returnA (ClaimRefused code)
     | Granted user_id \<Rightarrow> claim_spot_api (ck_settings ck) (ck_limits ck) (ck_metres ck) (gr_spot_id rq) user_id
         \<lparr>cr_lat = number_given (gr_lat rq), cr_long = number_given (gr_long rq), cr_accuracy = number_given (gr_accuracy rq),
          cr_captcha = gr_captcha rq, cr_claim_code = gr_claim_code rq, cr_payout_address = gr_payout_address rq\<rparr>)))
     (\<lambda>answer. returnA (case answer of
         ClaimRefused _ \<Rightarrow> \<lparr>ar_ok = False, ar_claim_id = None, ar_body = answer\<rparr>
       | ClaimAccepted o' _ \<Rightarrow> \<lparr>ar_ok = True, ar_claim_id = Some (cl_id (cd_claim (co_claim o'))), ar_body = answer\<rparr>))"

definition installed_guard :: "claim_services \<Rightarrow> fresh_check \<Rightarrow> claim_answer guard_services" where
  "installed_guard ck fresh = \<lparr>gs_app = claim_route ck, gs_fresh = fresh, gs_record = installed_record_hook ck\<rparr>"

section \<open>Many requests at once\<close>

text \<open>
  A configuration is the world and the stage of every request. A request
  advances, or ends in an exception; an approval is prepared; or anything else
  happens that leaves the approvals alone.
\<close>

datatype guard_label = Silent | IssuedApproval string | AppRan string

fun advance_label :: "'r guard_stage \<Rightarrow> guard_label" where
  "advance_label (Running s k a) = AppRan k"
| "advance_label _ = Silent"

fun prepare_label :: "py_error + (string \<times> authorization) reply_to \<Rightarrow> guard_label" where
  "prepare_label (Inr (Granted (k, a))) = IssuedApproval k"
| "prepare_label _ = Silent"

inductive guard_step :: "claim_services \<Rightarrow> 'r guard_services \<Rightarrow> guarded_request list \<Rightarrow> world \<times> 'r guard_stage list
    \<Rightarrow> guard_label \<Rightarrow> world \<times> 'r guard_stage list \<Rightarrow> bool"
  for ck :: claim_services and gs :: "'r guard_services" and rqs :: "guarded_request list" where
  advances: "i < length sts \<Longrightarrow> i < length rqs \<Longrightarrow> advance ck gs (rqs ! i) (sts ! i) w = (Inr st, w')
    \<Longrightarrow> guard_step ck gs rqs (w, sts) (advance_label (sts ! i)) (w', sts[i := st])"
| crashes: "i < length sts \<Longrightarrow> i < length rqs \<Longrightarrow> advance ck gs (rqs ! i) (sts ! i) w = (Inl e, w')
    \<Longrightarrow> guard_step ck gs rqs (w, sts) (advance_label (sts ! i))
          (w', sts[i := Answered (GuardRefused ''internal_error'' 500 None)])"
| prepares: "prepare_claim_authorization ck ap w = (r, w')
    \<Longrightarrow> guard_step ck gs rqs (w, sts) (prepare_label r) (w', sts)"
| elsewhere: "ss_authorizations (wd_security w') = ss_authorizations (wd_security w)
    \<Longrightarrow> guard_step ck gs rqs (w, sts) Silent (w', sts)"

inductive guard_run :: "claim_services \<Rightarrow> 'r guard_services \<Rightarrow> guarded_request list \<Rightarrow> world \<times> 'r guard_stage list
    \<Rightarrow> guard_label list \<Rightarrow> world \<times> 'r guard_stage list \<Rightarrow> bool"
  for ck :: claim_services and gs :: "'r guard_services" and rqs :: "guarded_request list" where
  here: "guard_run ck gs rqs cf [] cf"
| more: "guard_run ck gs rqs cf ls cf1 \<Longrightarrow> guard_step ck gs rqs cf1 l cf2 \<Longrightarrow> guard_run ck gs rqs cf (ls @ [l]) cf2"

end
