(* ===== verification/ApprovalProps.thy ===== *)
theory ApprovalProps
  imports ClaimApproval ClaimGuardProps
begin

text \<open>
  What the guard in front of the claim route guarantees. The lemmas about runs
  are proved in the locale \<open>approval_client\<close>, for any application and any recorder
  that leave the approvals alone, and interpreted on the installed ones.
\<close>

section \<open>Acts that leave the approvals alone\<close>

definition approvals :: "world \<Rightarrow> (string \<times> authorization) list" where
  "approvals w = ss_authorizations (wd_security w)"

definition keeps :: "'a act \<Rightarrow> bool" where
  "keeps m \<longleftrightarrow> (\<forall>w r w'. m w = (r, w') \<longrightarrow> approvals w' = approvals w \<and> ss_records (wd_security w') = ss_records (wd_security w))"

named_theorems keeps_intros

lemma keepsD:
  "keeps m \<Longrightarrow> m w = (r, w') \<Longrightarrow> approvals w' = approvals w"
  "keeps m \<Longrightarrow> m w = (r, w') \<Longrightarrow> ss_records (wd_security w') = ss_records (wd_security w)"
  by (auto simp: keeps_def)

lemma keeps_bind [keeps_intros]: "keeps m \<Longrightarrow> (\<And>x. keeps (k x)) \<Longrightarrow> keeps (bindA m k)"
  unfolding keeps_def bindA_def by (auto split: prod.splits sum.splits)

lemma keeps_catch [keeps_intros]: "keeps m \<Longrightarrow> (\<And>e. keeps (h e)) \<Longrightarrow> keeps (catchA m h)"
  unfolding keeps_def catchA_def by (auto split: prod.splits sum.splits)

lemma keeps_basic [keeps_intros]:
  "keeps (returnA x)" "keeps (raiseA e)" "keeps (liftA q)" "keeps get_world"
  by (simp_all add: keeps_def)

lemma keeps_transaction [keeps_intros]: "keeps (in_transaction f)" "keeps (commit_db g)"
  by (auto simp: keeps_def approvals_def in_transaction_def commit_db_def split: sum.splits prod.splits)

lemma keeps_all_or_nothing [keeps_intros]: "keeps m \<Longrightarrow> keeps (all_or_nothing m)"
  by (auto simp: keeps_def all_or_nothing_def split: prod.splits sum.splits)

lemma keeps_security:
  "(\<And>ss. ss_authorizations (f ss) = ss_authorizations ss \<and> ss_records (f ss) = ss_records ss) \<Longrightarrow> keeps (change_security f)"
  by (simp add: keeps_def approvals_def)

lemma keeps_suspicion [keeps_intros]: "keeps (change_security (store_suspicion u sn))"
  by (rule keeps_security) (simp add: store_suspicion_def)

lemma keeps_if [keeps_intros]: "(b \<Longrightarrow> keeps x) \<Longrightarrow> (\<not> b \<Longrightarrow> keeps y) \<Longrightarrow> keeps (if b then x else y)"
  by simp

lemma keeps_option [keeps_intros]:
  "(q = None \<Longrightarrow> keeps x) \<Longrightarrow> (\<And>a. q = Some a \<Longrightarrow> keeps (f a)) \<Longrightarrow> keeps (case q of None \<Rightarrow> x | Some a \<Rightarrow> f a)"
  by (simp split: option.splits)

lemma keeps_pair [keeps_intros]: "(\<And>a b. p = (a, b) \<Longrightarrow> keeps (f a b)) \<Longrightarrow> keeps (case p of (a, b) \<Rightarrow> f a b)"
  by (simp split: prod.splits)

lemma keeps_decision [keeps_intros]:
  "\<lbrakk>\<And>c t. keeps (f c t); \<And>c t. keeps (g c t); \<And>a b e. keeps (h a b e); keeps z\<rbrakk>
    \<Longrightarrow> keeps (case dec of BanUser c t \<Rightarrow> f c t | NewCooldown c t \<Rightarrow> g c t | Cooldown a b e \<Rightarrow> h a b e | AllowClaim \<Rightarrow> z)"
  by (simp split: location_decision.splits)

lemma keeps_reply [keeps_intros]:
  "\<lbrakk>\<And>a b c. keeps (f a b c); \<And>x. keeps (g x)\<rbrakk> \<Longrightarrow> keeps (case q of Refused a b c \<Rightarrow> f a b c | Granted x \<Rightarrow> g x)"
  by (simp split: reply_to.splits)

lemma keeps_location [keeps_intros]: "keeps (get_claim_location_decision metres u sp)"
  unfolding get_claim_location_decision_def start_cooldown_def Let_def
  by (intro keeps_intros)

lemma keeps_ban [keeps_intros]: "keeps (ban_for_decision u t)"
  unfolding ban_for_decision_def by (intro keeps_intros)

lemma keeps_attempt [keeps_intros]: "keeps (attempt_with_guard metres dev sp u la lo acc code p)"
  unfolding attempt_with_guard_def guarded_create_or_refuse_def create_claim_with_impossible_travel_guard_def
    finish_attempt_def
  by (intro keeps_intros)

lemma keeps_answer [keeps_intros]: "keeps m \<Longrightarrow> keeps (answer_attempt m)"
  by (auto simp: keeps_def answer_attempt_def split: prod.splits sum.splits option.splits)

lemma keeps_claim_route [keeps_intros]: "keeps (claim_spot_api c sl metres sp u rq)"
  unfolding claim_spot_api_def installed_claim_attempt_def
  by (intro keeps_intros)

lemma register_authorizations:
  "get_or_create_public_user rl dev src (d, ss) = Inr (r, d', ss') \<Longrightarrow> ss_authorizations ss' = ss_authorizations ss \<and> ss_records ss' = ss_records ss"
  by (auto simp: get_or_create_public_user_def Let_def store_stamps_def split: option.splits if_splits elim!: bindE_InrE)

lemma keeps_identify [keeps_intros]: "keeps (identify_private_page_user ck dev)"
  unfolding keeps_def approvals_def identify_private_page_user_def Let_def
  using register_authorizations
  by (fastforce split: sum.splits prod.splits py_error.splits)

lemma keeps_route [keeps_intros]: "keeps (claim_route ck rq)"
  unfolding claim_route_def by (intro keeps_intros)

lemma keeps_admit [keeps_intros]: "keeps (admit key window limit)"
  by (auto simp: keeps_def approvals_def admit_def split: prod.splits)

section \<open>Preparing\<close>

definition fewer :: "world \<Rightarrow> world \<Rightarrow> bool" where
  "fewer w w' \<longleftrightarrow> (\<forall>k. get_json (approvals w') k = None \<or> get_json (approvals w') k = get_json (approvals w) k)"

lemma fewer_refl [simp]: "fewer w w"
  by (simp add: fewer_def)

lemma fewer_trans: "fewer w w1 \<Longrightarrow> fewer w1 w2 \<Longrightarrow> fewer w w2"
  unfolding fewer_def by metis

lemma fewer_keeps: "keeps m \<Longrightarrow> m w = (r, w') \<Longrightarrow> fewer w w'"
  by (simp add: fewer_def keepsD)

lemma fewer_delete: "fewer w (w\<lparr>wd_security := (wd_security w)\<lparr>ss_authorizations := delete_json k (approvals w)\<rparr>\<rparr>)"
  by (simp add: fewer_def approvals_def)

lemma get_fold_delete:
  "get_json (fold delete_json ks docs) k = (if k \<in> set ks then None else get_json docs k)"
  by (induction ks arbitrary: docs) auto

lemma fewer_cleanup: "fewer w (w\<lparr>wd_security := cleanup_claim_authorizations sl now (wd_security w)\<rparr>)"
  by (simp add: fewer_def approvals_def cleanup_claim_authorizations_def Let_def get_fold_delete)

lemma load_session_authorizations:
  "load_session ck t dev now ss = (s, ss') \<Longrightarrow> ss_authorizations ss' = ss_authorizations ss"
  by (auto simp: load_session_def Let_def split: option.splits if_splits)

lemma load_session_facts:
  "load_session ck t dev now ss = (Some s, ss') \<Longrightarrow> ses_device s = dev \<and> now < ses_expires_at s"
  by (auto simp: load_session_def Let_def split: option.splits if_splits)

text \<open>The message of an approval names exactly its fields.\<close>

definition approval_ok :: "authorization \<Rightarrow> bool" where
  "approval_ok a \<longleftrightarrow> (\<exists>nonce. build_message (au_environment a) (au_network a) (au_spot_id a) (au_wallet a) (au_device a)
     (au_location a) nonce (au_issued_at a) (au_expires_at a) = Inr (au_message a))"

definition issued :: "claim_services \<Rightarrow> string \<Rightarrow> authorization \<Rightarrow> world \<Rightarrow> world \<Rightarrow> bool" where
  "issued ck key a w w' \<longleftrightarrow> approval_ok a \<and> au_status a = Issued \<and> get_json (approvals w') key = Some a
     \<and> (\<forall>k. k \<noteq> key \<longrightarrow> get_json (approvals w') k = None \<or> get_json (approvals w') k = get_json (approvals w) k)"

lemma draw_world: "draw_token ck w = (Inr (ck_random ck (wd_draws w)), w\<lparr>wd_draws := wd_draws w + 1\<rparr>)"
  by (simp add: draw_token_def)

lemma new_authorization_ok:
  "new_authorization ck sp wa dev fixed nonce now = Inr a \<Longrightarrow> approval_ok a \<and> au_status a = Issued"
  by (auto simp: new_authorization_def Let_def approval_ok_def elim!: bindE_InrE)

lemma authorization_key_eq: "claim_authorization_key c = Inr k \<Longrightarrow> k = c"
  by (auto simp: claim_authorization_key_def Let_def split: if_splits)

lemma issue_cases:
  assumes "issue_authorization ck sp wa dev fixed w = (r, w')"
  obtains (issued) key a where "r = Inr (Granted (key, a))" "issued ck key a w w'"
  | (error) e where "r = Inl e" "fewer w w'"
proof -
  let ?w = "w\<lparr>wd_draws := wd_draws w + 1 + 1\<rparr>" and ?now = "db_now (wd_db w)"
  let ?c = "digits_padded 12 (int_text (?now + sl_authorization_ttl (ck_limits ck))) @ ''.'' @ ck_random ck (wd_draws w)"
  let ?q = "new_authorization ck sp wa dev fixed (ck_random ck (wd_draws w + 1)) ?now"
  have same: "fewer w ?w" by (simp add: fewer_def approvals_def)
  have "issue_authorization ck sp wa dev fixed w =
    bindA (liftA ?q) (\<lambda>a. bindA (liftA (claim_authorization_key ?c)) (\<lambda>key.
    bindA (change_security (\<lambda>ss. ss\<lparr>ss_authorizations := set_json key a (ss_authorizations ss)\<rparr>)) (\<lambda>_.
    returnA (Granted (?c, a))))) ?w"
    by (simp add: issue_authorization_def Let_def bindA_simps(1) [OF draw_world] del: digits_padded.simps)
  note eq = this [unfolded assms]
  show thesis
  proof (cases ?q)
    case (Inl e)
    then show thesis using eq error same by (simp add: bindA_def)
  next
    case (Inr a)
    show thesis
    proof (cases "claim_authorization_key ?c")
      case (Inl e)
      then show thesis using eq Inr error same by (simp add: bindA_def)
    next
      case (Inr key)
      then have "r = Inr (Granted (key, a))"
          "w' = ?w\<lparr>wd_security := (wd_security w)\<lparr>ss_authorizations := set_json key a (ss_authorizations (wd_security w))\<rparr>\<rparr>"
        using eq \<open>?q = Inr a\<close> authorization_key_eq [OF Inr] by (simp_all add: bindA_def)
      then show thesis using issued new_authorization_ok [OF \<open>?q = Inr a\<close>] by (simp add: issued_def approvals_def)
    qed
  qed
qed

definition prepares_at :: "claim_services \<Rightarrow> (string \<times> authorization) reply_to act \<Rightarrow> world \<Rightarrow> bool" where
  "prepares_at ck m w \<longleftrightarrow> (case m w of (r, w') \<Rightarrow>
     (\<exists>key a. r = Inr (Granted (key, a)) \<and> issued ck key a w w') \<or> (prepare_label r = Silent \<and> fewer w w'))"

named_theorems prepares_intros

lemma prepares_refused [prepares_intros]: "prepares_at ck (returnA (Refused a b c)) w"
  by (simp add: prepares_at_def)

lemma prepares_issue [prepares_intros]: "prepares_at ck (issue_authorization ck sp wa dev fixed) w"
  unfolding prepares_at_def
  by (cases "issue_authorization ck sp wa dev fixed w") (auto elim!: issue_cases)

lemma issued_after: "fewer w w1 \<Longrightarrow> issued ck key a w1 w' \<Longrightarrow> issued ck key a w w'"
  unfolding fewer_def issued_def by metis

lemma prepares_bind [prepares_intros]:
  assumes "fewer w (snd (m w))" and "\<And>x w1. m w = (Inr x, w1) \<Longrightarrow> prepares_at ck (k x) w1"
  shows "prepares_at ck (bindA m k) w"
proof (cases "m w")
  case (Pair q w1)
  show ?thesis
  proof (cases q)
    case (Inl e)
    then show ?thesis using assms(1) Pair by (simp add: prepares_at_def bindA_def)
  next
    case (Inr x)
    then have k: "prepares_at ck (k x) w1" and f: "fewer w w1" using assms Pair by auto
    have eq: "bindA m k w = k x w1" using Pair Inr by (simp add: bindA_def)
    show ?thesis
      using k unfolding prepares_at_def eq using issued_after [OF f] fewer_trans [OF f] by (fastforce split: prod.splits)
  qed
qed

lemma prepares_world: "prepares_at ck (k w) w \<Longrightarrow> prepares_at ck (bindA get_world k) w"
  by (simp add: prepares_at_def bindA_def)

lemma prepares_if [prepares_intros]:
  "(b \<Longrightarrow> prepares_at ck x w) \<Longrightarrow> (\<not> b \<Longrightarrow> prepares_at ck y w) \<Longrightarrow> prepares_at ck (if b then x else y) w"
  by simp

lemma prepares_option [prepares_intros]:
  "(q = None \<Longrightarrow> prepares_at ck x w) \<Longrightarrow> (\<And>a. q = Some a \<Longrightarrow> prepares_at ck (f a) w)
    \<Longrightarrow> prepares_at ck (case q of None \<Rightarrow> x | Some a \<Rightarrow> f a) w"
  by (simp split: option.splits)

lemma prepares_pair [prepares_intros]:
  "(\<And>a b. p = (a, b) \<Longrightarrow> prepares_at ck (f a b) w) \<Longrightarrow> prepares_at ck (case p of (a, b) \<Rightarrow> f a b) w"
  by (simp split: prod.splits)

lemma prepares_all_or_nothing: "prepares_at ck m w \<Longrightarrow> prepares_at ck (all_or_nothing m) w"
  by (cases "m w"; cases "fst (m w)") (auto simp: prepares_at_def all_or_nothing_def)

lemma fewer_admit [prepares_intros]: "fewer w (snd (admit key window limit w))"
  using fewer_keeps [OF keeps_admit, of key window limit w] by (cases "admit key window limit w") simp

lemma prepares_under_session: "prepares_at ck (prepare_under_session ck rq dev fixed s) w"
  unfolding prepare_under_session_def Let_def
  by (rule prepares_world) (intro prepares_intros)

lemma prepares_claim: "prepares_at ck (prepare_claim_authorization ck rq) w"
proof -
  note bad = prepares_refused
  have load: "prepares_at ck (case load_session ck t dev now (wd_security w1) of (session, ss) \<Rightarrow>
           bindA (change_security (\<lambda>_. ss)) (\<lambda>_.
           case session of None \<Rightarrow> returnA (Refused ''wallet_auth_required'' 401 None)
           | Some s \<Rightarrow> prepare_under_session ck rq dev fixed s)) w1" for t dev now w1 fixed
    by (rule prepares_pair, rule prepares_bind)
      (auto simp: fewer_def approvals_def load_session_authorizations intro!: prepares_refused prepares_under_session
        split: option.splits)
  show ?thesis
    unfolding prepare_claim_authorization_def
    by (cases "clean_device_identifier (ap_device rq)"; cases "canonical_location (ap_lat rq) (ap_long rq) (ap_accuracy rq)";
        simp add: bad Let_def)
      (intro conjI impI bad prepares_all_or_nothing prepares_world prepares_bind load; simp add: fewer_cleanup)
qed

section \<open>Approvals and the stages of requests\<close>

definition usable :: "string \<Rightarrow> world \<Rightarrow> nat" where
  "usable k w = (case get_json (approvals w) k of None \<Rightarrow> 0
     | Some a \<Rightarrow> if au_status a = Issued \<or> au_status a = Verifying then 1 else 0)"

fun holds :: "string \<Rightarrow> 'r guard_stage \<Rightarrow> bool" where
  "holds k (Processing s k' a) = (k' = k)"
| "holds k (Running s k' a) = (k' = k)"
| "holds k _ = False"

definition holders :: "string \<Rightarrow> 'r guard_stage list \<Rightarrow> nat" where
  "holders k sts = length (filter (holds k) sts)"

lemma holders_update:
  "i < length sts \<Longrightarrow> holders k (sts[i := st]) + of_bool (holds k (sts ! i)) = holders k sts + of_bool (holds k st)"
proof (induction sts arbitrary: i)
  case (Cons x xs)
  then show ?case by (cases i) (auto simp: holders_def)
qed simp

lemma usable_same: "approvals w' = approvals w \<Longrightarrow> usable k w' = usable k w"
  by (simp add: usable_def)

lemma usable_le: "get_json (approvals w') k = None \<or> get_json (approvals w') k = get_json (approvals w) k
    \<Longrightarrow> usable k w' \<le> usable k w"
  by (elim disjE) (simp_all add: usable_def)

lemma usable_fewer: "fewer w w' \<Longrightarrow> usable k w' \<le> usable k w"
  by (rule usable_le) (simp add: fewer_def)

lemma usable_le_1: "usable k w \<le> 1"
  by (simp add: usable_def split: option.splits)

lemma usable_issued: "issued ck key a w w' \<Longrightarrow> usable k w' \<le> usable k w + of_bool (key = k)"
  using usable_le [of w' k w] usable_le_1 [of k w'] by (cases "key = k") (simp_all add: issued_def)

lemma usable_prepare:
  assumes "prepare_claim_authorization ck rq w = (r, w')"
  shows "usable k w' \<le> usable k w + of_bool (prepare_label r = IssuedApproval k)"
  using prepares_claim [of ck rq w] usable_fewer [of w w' k] usable_issued [of ck _ _ w w' k]
  unfolding prepares_at_def assms by fastforce

lemma set_status_approvals:
  "get_json (ss_authorizations (set_authorization_status k st ss)) k' =
    (if k' = k then map_option (\<lambda>a. a\<lparr>au_status := st\<rparr>) (get_json (ss_authorizations ss) k) else get_json (ss_authorizations ss) k')"
  by (auto simp: set_authorization_status_def split: option.splits)

lemma set_status_records [simp]: "ss_records (set_authorization_status k st ss) = ss_records ss"
  by (simp add: set_authorization_status_def split: option.splits)

lemma keeps_fresh [keeps_intros]: "keeps (fresh_account_decision fresh rq s signer)"
  by (auto simp: keeps_def approvals_def fresh_account_decision_def split: if_splits prod.splits)

text \<open>What the guard relies on: the application and the recorder leave the approvals alone.\<close>

locale approval_client =
  fixes ck :: claim_services and gs :: "'r guard_services"
  assumes app_keeps: "gs_app gs rq w = (r, w') \<Longrightarrow> approvals w' = approvals w"
    and record_keeps: "call_record_hook (gs_record gs) i s la lo ip a w = (q, w') \<Longrightarrow> approvals w' = approvals w"
begin

definition after :: "py_error + 'r guard_stage \<Rightarrow> 'r guard_stage" where
  "after r = (case r of Inr st \<Rightarrow> st | Inl e \<Rightarrow> Answered (GuardRefused ''internal_error'' 500 None))"

lemma after_simps [simp]: "after (Inr st) = st" "after (Inl e) = Answered (GuardRefused ''internal_error'' 500 None)"
  by (simp_all add: after_def)

lemma run_app_cases:
  assumes "run_app gs rq s k a w = (r, w')"
  shows "approvals w' = approvals w \<and> \<not> holds k' (after r)"
  using assms app_keeps
  by (auto simp: run_app_def bindA_def split: sum.splits prod.splits if_splits option.splits)

lemma record_cases:
  assumes "record_and_retire gs rq s k a i answer w = (r, w')"
  shows "approvals w' = approvals w \<and> \<not> holds k' (after r)"
  using assms record_keeps
  by (fastforce simp: record_and_retire_def catchA_def bindA_def split: sum.splits prod.splits)

lemma vet_cases:
  assumes "vet_signer ck gs rq s k a w = (r, w')"
  shows "approvals w' = approvals w \<and> \<not> holds k' (after r)"
  using assms keepsD(1) [OF keeps_fresh]
  by (auto simp: vet_signer_def bindA_def split: option.splits sum.splits prod.splits if_splits)

text \<open>One advance spends at least as much as it uses.\<close>

lemma advance_spends:
  assumes "advance ck gs rq st w = (r, w')"
  shows "of_bool (advance_label st = AppRan k) + of_bool (holds k (after r)) + usable k w' \<le> of_bool (holds k st) + usable k w"
proof (cases st)
  case (Checked s k' a)
  then show ?thesis
    using assms
    by (auto simp: begin_verification_def usable_def approvals_def set_status_approvals split: option.splits if_splits)
next
  case (Vetted s k' a)
  then show ?thesis
    using assms
    by (auto simp: begin_processing_def usable_def approvals_def set_status_approvals split: option.splits if_splits)
next
  case (Attempted s k' a)
  then show ?thesis using vet_cases [of rq s k' a w r w' k] assms usable_same [of w' w k] by simp
next
  case (Running s k' a)
  then show ?thesis using run_app_cases [of rq s k' a w r w' k] assms usable_same [of w' w k] by auto
next
  case (Recording s k' a i q)
  then show ?thesis using record_cases [of rq s k' a i q w r w' k] assms usable_same [of w' w k] by simp
next
  case (Retiring k' q)
  have "usable k w' \<le> usable k w"
    by (rule usable_le) (use assms Retiring in \<open>auto simp: retire_claim_authorization_def approvals_def\<close>)
  then show ?thesis using assms Retiring by (auto simp: retire_claim_authorization_def)
qed (use assms in \<open>auto simp: check_request_def check_risk_def Let_def split: sum.splits option.splits if_splits\<close>)

lemma step_spends:
  assumes "guard_step ck gs rqs (w, sts) l (w', sts')"
  shows "of_bool (l = AppRan k) + holders k sts' + usable k w' \<le> of_bool (l = IssuedApproval k) + holders k sts + usable k w"
  using assms
proof cases
  case (advances i st)
  then show ?thesis using advance_spends [OF advances(5), of k] holders_update [OF advances(3), of k st] by simp
next
  case (crashes i e)
  then show ?thesis using advance_spends [OF crashes(5), of k]
      holders_update [OF crashes(3), of k "Answered (GuardRefused ''internal_error'' 500 None)"] by simp
next
  case (prepares ap r)
  then show ?thesis using usable_prepare [OF prepares(3), of k] by (cases r rule: prepare_label.cases) auto
next
  case elsewhere
  then show ?thesis using usable_same [of w' w k] by (simp add: approvals_def)
qed

lemma run_spends:
  "guard_run ck gs rqs (w, sts) ls (w', sts') \<Longrightarrow>
    count_list ls (AppRan k) + holders k sts' + usable k w' \<le> count_list ls (IssuedApproval k) + holders k sts + usable k w"
proof (induction "(w, sts)" ls "(w', sts')" arbitrary: w' sts' rule: guard_run.induct)
  case (more ls cf1 l)
  obtain w1 sts1 where cf1: "cf1 = (w1, sts1)" by (cases cf1)
  show ?case using more(2) [OF cf1] step_spends [OF more(3) [unfolded cf1], of k]
    by (cases "l = AppRan k"; cases "l = IssuedApproval k") simp_all
qed simp

text \<open>What the stages of a request carry.\<close>

definition approved :: "guarded_request \<Rightarrow> session_doc \<Rightarrow> string \<Rightarrow> authorization \<Rightarrow> bool" where
  "approved rq s k a \<longleftrightarrow> approval_ok a \<and> (\<exists>pf device fixed. gr_proof rq = Some pf \<and> pf_challenge_id pf = k
     \<and> clean_device_identifier (gr_device rq) = Inr device \<and> ses_device s = device
     \<and> canonical_location (gr_lat rq) (gr_long rq) (gr_accuracy rq) = Inr fixed \<and> approval_matches ck rq device fixed a)"

definition signed :: "guarded_request \<Rightarrow> session_doc \<Rightarrow> authorization \<Rightarrow> bool" where
  "signed rq s a \<longleftrightarrow> (\<exists>pf. gr_proof rq = Some pf \<and> canonical_payout_address (au_wallet a) = Some (ses_wallet s)
     \<and> verify_wallet_signature ck (au_message a) (pf_public_key pf) (pf_signature pf) = Inr (ses_wallet s))"

fun stage_ok :: "guarded_request \<Rightarrow> 'r guard_stage \<Rightarrow> bool" where
  "stage_ok rq (Checked s k a) = approved rq s k a"
| "stage_ok rq (Attempted s k a) = approved rq s k a"
| "stage_ok rq (Vetted s k a) = (approved rq s k a \<and> signed rq s a)"
| "stage_ok rq (Processing s k a) = (approved rq s k a \<and> signed rq s a)"
| "stage_ok rq (Running s k a) = (approved rq s k a \<and> signed rq s a)"
| "stage_ok rq _ = True"

definition approvals_ok :: "world \<Rightarrow> bool" where
  "approvals_ok w \<longleftrightarrow> (\<forall>k a. get_json (approvals w) k = Some a \<longrightarrow> approval_ok a)"

lemma check_request_ok:
  assumes "approvals_ok w"
  shows "stage_ok rq (check_request ck rq w)"
proof (cases "check_request ck rq w")
  case (Checked s k a)
  have dev: "ses_device s' = d" if "session_of ck t d w = Some s'" for t d s'
    using that load_session_facts [of ck t d "db_now (wd_db w)" "wd_security w"]
    by (cases "load_session ck t d (db_now (wd_db w)) (wd_security w)")
      (auto simp: session_of_def split: option.splits if_splits)
  show ?thesis
    using Checked assms authorization_key_eq dev
    by (auto simp: check_request_def Let_def approved_def approvals_ok_def approvals_def
        split: sum.splits option.splits if_splits)
qed (auto simp: check_request_def Let_def split: sum.splits option.splits if_splits)

lemma status_ok [simp]: "approval_ok (a\<lparr>au_status := st\<rparr>) = approval_ok a"
  by (simp add: approval_ok_def)

lemma approvals_ok_status:
  "approvals_ok w \<Longrightarrow> approvals_ok (w\<lparr>wd_security := set_authorization_status k st (wd_security w)\<rparr>)"
  by (auto simp: approvals_ok_def approvals_def set_status_approvals split: if_splits)

lemma approvals_ok_same: "approvals w' = approvals w \<Longrightarrow> approvals_ok w' = approvals_ok w"
  by (simp add: approvals_ok_def)

lemma approvals_ok_fewer: "fewer w w' \<Longrightarrow> approvals_ok w \<Longrightarrow> approvals_ok w'"
  unfolding fewer_def approvals_ok_def by (metis option.distinct(1))

lemma approvals_ok_issued: "issued ck k a w w' \<Longrightarrow> approvals_ok w \<Longrightarrow> approvals_ok w'"
  unfolding issued_def approvals_ok_def by (metis option.distinct(1) option.sel)

lemma vet_ok:
  assumes "vet_signer ck gs rq s k a w = (r, w')" and "approved rq s k a"
  shows "stage_ok rq (after r)"
  using assms
  by (auto simp: vet_signer_def bindA_def signed_def split: option.splits sum.splits prod.splits if_splits)

lemma advance_ok:
  assumes "advance ck gs rq st w = (r, w')" and "stage_ok rq st" and "approvals_ok w"
  shows "stage_ok rq (after r) \<and> approvals_ok w'"
proof (cases st)
  case Arrived
  then show ?thesis using assms check_request_ok by auto
next
  case (Checked s k' a)
  then show ?thesis
    using assms approvals_ok_status by (auto simp: begin_verification_def split: option.splits if_splits)
next
  case (Attempted s k' a)
  then show ?thesis
    using assms vet_ok [of rq s k' a w r w'] vet_cases [of rq s k' a w r w'] approvals_ok_same [of w' w] by simp
next
  case (Vetted s k' a)
  then show ?thesis
    using assms approvals_ok_status by (auto simp: begin_processing_def split: option.splits if_splits)
next
  case (Processing s k' a)
  then show ?thesis using assms by (auto simp: check_risk_def Let_def)
next
  case (Running s k' a)
  have "stage_ok rq (after r)"
    using assms Running by (auto simp: run_app_def bindA_def split: sum.splits prod.splits if_splits option.splits)
  then show ?thesis using assms Running run_app_cases [of rq s k' a w r w'] approvals_ok_same [of w' w] by simp
next
  case (Recording s k' a i q)
  have "stage_ok rq (after r)"
    using assms Recording
    by (auto simp: record_and_retire_def catchA_def bindA_def split: sum.splits prod.splits)
  then show ?thesis using assms Recording record_cases [of rq s k' a i q w r w'] approvals_ok_same [of w' w] by simp
next
  case (Retiring k' q)
  have "fewer w w'" using assms Retiring fewer_delete [of w k'] by (auto simp: retire_claim_authorization_def approvals_def)
  then show ?thesis using assms Retiring approvals_ok_fewer by (auto simp: retire_claim_authorization_def)
next
  case (Answered q)
  then show ?thesis using assms by auto
qed

definition config_ok :: "guarded_request list \<Rightarrow> world \<times> 'r guard_stage list \<Rightarrow> bool" where
  "config_ok rqs cf \<longleftrightarrow> approvals_ok (fst cf) \<and> length (snd cf) = length rqs
     \<and> (\<forall>i < length rqs. stage_ok (rqs ! i) (snd cf ! i))"

lemma config_update:
  "config_ok rqs (w, sts) \<Longrightarrow> i < length sts \<Longrightarrow> stage_ok (rqs ! i) st \<Longrightarrow> approvals_ok w' \<Longrightarrow> config_ok rqs (w', sts[i := st])"
  by (simp add: config_ok_def nth_list_update)

lemma prepare_ok:
  assumes "prepare_claim_authorization ck rq w = (r, w')" and "approvals_ok w"
  shows "approvals_ok w'"
  using prepares_claim [of ck rq w] approvals_ok_fewer [OF _ assms(2)] approvals_ok_issued [OF _ assms(2)]
  unfolding prepares_at_def assms(1) by blast

lemma step_ok:
  assumes "guard_step ck gs rqs cf l cf'" and "config_ok rqs cf"
  shows "config_ok rqs cf'"
  using assms(1)
proof cases
  case (advances i sts w st w')
  have "stage_ok (rqs ! i) (sts ! i)" "approvals_ok w" using advances assms(2) by (auto simp: config_ok_def)
  from advance_ok [OF advances(6) this] show ?thesis
    using advances config_update [of rqs w sts i st w'] assms(2) by simp
next
  case (crashes i sts w e w')
  have "stage_ok (rqs ! i) (sts ! i)" "approvals_ok w" using crashes assms(2) by (auto simp: config_ok_def)
  from advance_ok [OF crashes(6) this] show ?thesis
    using crashes config_update [of rqs w sts i _ w'] assms(2) by simp
next
  case (prepares ap w r w' sts)
  then show ?thesis using prepare_ok [OF prepares(4)] assms(2) by (simp add: config_ok_def)
next
  case (elsewhere w' w sts)
  then show ?thesis using assms(2) approvals_ok_same [of w' w] by (simp add: config_ok_def approvals_def)
qed

lemma run_ok: "guard_run ck gs rqs cf ls cf' \<Longrightarrow> config_ok rqs cf \<Longrightarrow> config_ok rqs cf'"
  by (induction rule: guard_run.induct) (use step_ok in blast)+

end

section \<open>The installed guard\<close>

lemma record_keeps_approvals:
  assumes "record_claim_event ck i s la lo ip a w = (r, w')"
  shows "approvals w' = approvals w"
proof -
  have fold_same: "ss_authorizations (fold (\<lambda>k s. case get_json (ss_records s) k of None \<Rightarrow> s
            | Some r \<Rightarrow> s\<lparr>ss_records := set_json k (f r) (ss_records s)\<rparr>) ids ss) = ss_authorizations ss" for f ids ss
    by (induction ids arbitrary: ss) (auto split: option.splits)
  have mark: "ss_authorizations (mark_manual_review ids reason now ss) = ss_authorizations ss" for ids reason now ss
    by (simp add: mark_manual_review_def Let_def fold_same)
  show ?thesis
    using assms by (auto simp: record_claim_event_def bindA_def store_event_def Let_def approvals_def mark split: sum.splits)
qed

interpretation claim_guard: approval_client ck "installed_guard ck fresh" for ck fresh
proof unfold_locales
  show "approvals w' = approvals w" if "gs_app (installed_guard ck fresh) rq w = (r, w')" for rq w r w'
    using that keepsD(1) [OF keeps_route] by (simp add: installed_guard_def)
  show "approvals w' = approvals w" if "call_record_hook (gs_record (installed_guard ck fresh)) i s la lo ip a w = (q, w')"
    for i s la lo ip a w q w'
    using that by (simp add: installed_guard_def installed_record_hook_def)
qed

text \<open>The guard without the replaced recorder.\<close>

definition plain_guard :: "claim_services \<Rightarrow> fresh_check \<Rightarrow> claim_answer guard_services" where
  "plain_guard ck fresh = \<lparr>gs_app = claim_route ck, gs_fresh = fresh, gs_record = TakesApproval (record_claim_event ck)\<rparr>"

interpretation plain_guard: approval_client ck "plain_guard ck fresh" for ck fresh
proof unfold_locales
  show "approvals w' = approvals w" if "gs_app (plain_guard ck fresh) rq w = (r, w')" for rq w r w'
    using that keepsD(1) [OF keeps_route] by (simp add: plain_guard_def)
  show "approvals w' = approvals w" if "call_record_hook (gs_record (plain_guard ck fresh)) i s la lo ip a w = (q, w')"
    for i s la lo ip a w q w'
    using that record_keeps_approvals by (simp add: plain_guard_def)
qed

text \<open>
  C9: However requests, preparations and the rest of the server interleave, the
  claim application runs at most as often under an approval as that approval was
  issued: a signed approval is good for one attempt, also when it is replayed,
  raced, refused or interrupted.
\<close>

theorem approval_single_use:
  assumes "guard_run ck (installed_guard ck fresh) rqs (w, map (\<lambda>_. Arrived) rqs) ls (w', sts')"
    and "get_json (ss_authorizations (wd_security w)) k = None"
  shows "count_list ls (AppRan k) \<le> count_list ls (IssuedApproval k)"
proof -
  have "holders k (map (\<lambda>_. Arrived :: claim_answer guard_stage) rqs) = 0" by (induction rqs) (simp_all add: holders_def)
  moreover have "usable k w = 0" using assms(2) by (simp add: usable_def approvals_def)
  ultimately show ?thesis using claim_guard.run_spends [OF assms(1), of k] by simp
qed

text \<open>
  C10: A request that is handed to the claim application carries a message signed by
  the wallet of its session, and the message names exactly this environment, Spot,
  receiving wallet, device and location, to the sixth decimal of a degree.
\<close>

theorem app_run_signed:
  assumes run: "guard_run ck (installed_guard ck fresh) rqs (w, map (\<lambda>_. Arrived) rqs) ls (w', sts')"
    and none: "ss_authorizations (wd_security w) = []"
    and i: "i < length rqs" "sts' ! i = Running s k a"
  shows "\<exists>pf device fixed nonce message. gr_proof (rqs ! i) = Some pf
    \<and> clean_device_identifier (gr_device (rqs ! i)) = Inr device \<and> ses_device s = device
    \<and> canonical_location (gr_lat (rqs ! i)) (gr_long (rqs ! i)) (gr_accuracy (rqs ! i)) = Inr fixed
    \<and> build_message (ck_mode ck) (claim_network ck) (gr_spot_id (rqs ! i)) (au_wallet a) device fixed nonce
        (au_issued_at a) (au_expires_at a) = Inr message
    \<and> canonical_payout_address (au_wallet a) = Some (ses_wallet s)
    \<and> verify_wallet_signature ck message (pf_public_key pf) (pf_signature pf) = Inr (ses_wallet s)"
proof -
  have "claim_guard.config_ok ck rqs (w, map (\<lambda>_. Arrived) rqs)"
    using none by (simp add: claim_guard.config_ok_def claim_guard.approvals_ok_def approvals_def get_json_def)
  then have "claim_guard.config_ok ck rqs (w', sts')" by (rule claim_guard.run_ok [OF run])
  then have "claim_guard.stage_ok ck (rqs ! i) (sts' ! i)"
    using i(1) by (simp add: claim_guard.config_ok_def)
  then have "claim_guard.approved ck (rqs ! i) s k a" "claim_guard.signed ck (rqs ! i) s a"
    unfolding i(2) by simp_all
  then show ?thesis
    unfolding claim_guard.approved_def claim_guard.signed_def approval_ok_def approval_matches_def
    by (elim exE conjE) (simp, blast)
qed

section \<open>One request\<close>

fun rank :: "'r guard_stage \<Rightarrow> nat" where
  "rank Arrived = 8"
| "rank (Checked s k a) = 7"
| "rank (Attempted s k a) = 6"
| "rank (Vetted s k a) = 5"
| "rank (Processing s k a) = 4"
| "rank (Running s k a) = 3"
| "rank (Recording s k a i r) = 2"
| "rank (Retiring k r) = 1"
| "rank (Answered r) = 0"

lemma check_request_rank: "rank (check_request ck rq w) \<le> 7"
  by (auto simp: check_request_def Let_def split: sum.splits option.splits)

lemma advance_rank:
  assumes "advance ck gs rq st w = (Inr st', w')"
  shows "rank st' \<le> rank st - 1"
proof (cases st)
  case Arrived
  then show ?thesis using assms check_request_rank [of ck rq w] by auto
next
  case (Recording s k a i r)
  then show ?thesis
    using assms by (auto simp: record_and_retire_def catchA_def bindA_def split: sum.splits prod.splits)
qed (use assms in \<open>auto simp: begin_verification_def vet_signer_def begin_processing_def check_risk_def run_app_def
      retire_claim_authorization_def bindA_def Let_def split: sum.splits prod.splits option.splits if_splits\<close>)

lemma advances_rank: "advances n ck gs rq st w = (Inr st', w') \<Longrightarrow> rank st' \<le> rank st - n"
proof (induction n arbitrary: st w)
  case (Suc n)
  then obtain st1 w1 where "advance ck gs rq st w = (Inr st1, w1)" "advances n ck gs rq st1 w1 = (Inr st', w')"
    by (auto elim: bindA_InrE)
  then show ?case using advance_rank [of ck gs rq st w st1 w1] Suc.IH [of st1 w1] by simp
qed simp

text \<open>
  A request ends: after eight steps at the latest the guard has an answer,
  unless a step raised, whatever the application, the recorder and the checks of
  fresh accounts do.
\<close>

lemma guard_answers: "fst (guard_http_request ck gs rq w) \<noteq> Inr None"
proof
  assume n: "fst (guard_http_request ck gs rq w) = Inr None"
  show False
  proof (cases "public_deployment (ck_settings ck)")
    case False
    then show False using n by (auto simp: guard_http_request_def bindA_def split: sum.splits prod.splits)
  next
    case True
    obtain st w' where st: "advances 8 ck gs rq Arrived w = (Inr st, w')" "\<forall>r. st \<noteq> Answered r"
      using n True
      by (auto simp: guard_http_request_def bindA_def split: sum.splits prod.splits guard_stage.splits)
    then have "rank st = 0" using advances_rank [OF st(1)] by simp
    then show False using st(2) by (cases st) auto
  qed
qed

lemma advances_step:
  "advance ck gs rq st w = (Inr st1, w1) \<Longrightarrow> advances (Suc n) ck gs rq st w = advances n ck gs rq st1 w1"
  by simp

text \<open>What the last steps do with the application's answer.\<close>

lemma advances_answered: "advances n ck gs rq (Answered r) w = (Inr (Answered r), w)"
  by (induction n) simp_all

lemma last_steps:
  assumes "run_app gs rq s k a w = (q, w1)" and "gs_app gs rq w = (Inr reply, w4)"
  obtains st w5 where "q = Inr st" "advances 2 ck gs rq st w1 = (Inr (Answered (Forwarded reply)), w5)"
    "\<not> ar_ok reply \<longrightarrow> get_json (ss_authorizations (wd_security w5)) k = None"
proof (cases "ar_ok reply")
  case False
  then have "q = Inr (Retiring k (Forwarded reply))" "w1 = w4" using assms by (simp_all add: run_app_def)
  then show thesis using that by (simp add: numeral_2_eq_2 retire_claim_authorization_def)
next
  case ok: True
  show thesis
  proof (cases "ar_claim_id reply")
    case None
    then have "q = Inr (Answered (Forwarded reply))" using assms ok by (simp add: run_app_def)
    then show thesis using that ok by (simp add: advances_answered)
  next
    case (Some i)
    then have q: "q = Inr (Recording s k a i (Forwarded reply))" using assms ok by (simp add: run_app_def)
    obtain st' w2 where r: "record_and_retire gs rq s k a i (Forwarded reply) w1 = (Inr st', w2)"
        "st' = Retiring k (Forwarded reply) \<or> st' = Answered (Forwarded reply)"
      by (cases "call_record_hook (gs_record gs) i s (number_value (gr_lat rq)) (number_value (gr_long rq)) (gr_ip rq) a w1";
          cases "fst (call_record_hook (gs_record gs) i s (number_value (gr_lat rq)) (number_value (gr_long rq)) (gr_ip rq) a w1)")
        (auto simp: record_and_retire_def catchA_def bindA_def)
    then show thesis using that q ok by (auto simp: numeral_2_eq_2 retire_claim_authorization_def)
  qed
qed

text \<open>
  C11: A valid approval gets through: when the session and the approval match the
  request, the wallet's signature verifies, the account passes the checks of fresh
  accounts and no travel or rate limit blocks the claim, the request reaches the
  application and its answer goes out unchanged; after a refusal the approval is
  gone.
\<close>

theorem valid_approval_reaches_app:
  fixes gs :: "'r guard_services"
  assumes pub: "public_deployment (ck_settings ck)"
    and valid: "check_request ck rq w = (Checked s k a :: 'r guard_stage)"
    and proof_given: "gr_proof rq = Some pf"
    and signature: "verify_wallet_signature ck (au_message a) (pf_public_key pf) (pf_signature pf) = Inr (ses_wallet s)"
    and wallet: "canonical_payout_address (au_wallet a) = Some (ses_wallet s)"
    and w1: "w1 = w\<lparr>wd_security := set_authorization_status k Verifying (wd_security w)\<rparr>"
    and account: "fresh_account_decision (gs_fresh gs) rq s (ses_wallet s) w1 = (Inr (True, b), w2)"
    and w3: "w3 = w2\<lparr>wd_security := set_authorization_status k Processing_claim (wd_security w2)\<rparr>"
    and risk: "\<not> pc_blocked (preclaim_decision_with_durable_wallet_limit ck (gr_spot_id rq) s (gr_ip rq) (wd_db w3) (wd_security w3))"
    and app: "gs_app gs rq w3 = (Inr reply, w4)"
  shows "\<exists>w5. guard_http_request ck gs rq w = (Inr (Some (Forwarded reply)), w5)
    \<and> (\<not> ar_ok reply \<longrightarrow> get_json (ss_authorizations (wd_security w5)) k = None)"
proof -
  have a: "get_json (ss_authorizations (wd_security w)) k = Some a" "au_status a = Issued" "\<not> au_expires_at a \<le> db_now (wd_db w)"
    using valid by (auto simp: check_request_def Let_def split: sum.splits option.splits if_splits)
  have s2: "advance ck gs rq (Checked s k a) w = (Inr (Attempted s k a), w1)"
    using a by (simp add: begin_verification_def w1)
  have s3: "advance ck gs rq (Attempted s k a) w1 = (Inr (Vetted s k a), w2)"
    using proof_given signature wallet account by (simp add: vet_signer_def)
  have "approvals w2 = approvals w1" by (rule keepsD(1) [OF keeps_fresh account])
  then have a2: "get_json (ss_authorizations (wd_security w2)) k = Some (a\<lparr>au_status := Verifying\<rparr>)"
    using a(1) by (simp add: approvals_def w1 set_status_approvals)
  have s4: "advance ck gs rq (Vetted s k a) w2 = (Inr (Processing s k a), w3)"
    using a2 by (simp add: begin_processing_def w3)
  have s5: "advance ck gs rq (Processing s k a) w3 = (Inr (Running s k a), w3)"
    using risk by (simp add: check_risk_def Let_def)
  obtain q w' where r: "run_app gs rq s k a w3 = (q, w')" by (cases "run_app gs rq s k a w3")
  obtain st w5 where st: "q = Inr st" "advances 2 ck gs rq st w' = (Inr (Answered (Forwarded reply)), w5)"
      "\<not> ar_ok reply \<longrightarrow> get_json (ss_authorizations (wd_security w5)) k = None"
    by (rule last_steps [OF r app, where ck = ck])
  have s1: "advance ck gs rq Arrived w = (Inr (Checked s k a), w)" by (simp add: valid)
  have s6: "advance ck gs rq (Running s k a) w3 = (Inr st, w')" using r st(1) by simp
  have "advances (Suc (Suc (Suc (Suc (Suc (Suc 2)))))) ck gs rq Arrived w = (Inr (Answered (Forwarded reply)), w5)"
    by (simp only: advances_step [OF s1] advances_step [OF s2] advances_step [OF s3] advances_step [OF s4]
        advances_step [OF s5] advances_step [OF s6] st(2))
  moreover have "(8::nat) = Suc (Suc (Suc (Suc (Suc (Suc 2)))))" by simp
  ultimately have "advances 8 ck gs rq Arrived w = (Inr (Answered (Forwarded reply)), w5)" by (simp only:)
  then show ?thesis using st(3) pub by (auto simp: guard_http_request_def)
qed

section \<open>Claims without a record\<close>

lemma route_records:
  assumes "advance ck (installed_guard ck fresh) rq st w = (r, w')"
  shows "ss_records (wd_security w') = ss_records (wd_security w)"
proof (cases st)
  case (Attempted s k a)
  have "keeps (vet_signer ck (installed_guard ck fresh) rq s k a)"
    unfolding vet_signer_def by (auto intro!: keeps_intros split: sum.splits option.splits)
  then show ?thesis using keepsD(2) assms Attempted by fastforce
next
  case (Running s k a)
  have "keeps (run_app (installed_guard ck fresh) rq s k a)"
    unfolding run_app_def installed_guard_def by (auto intro!: keeps_intros)
  then show ?thesis using keepsD(2) assms Running by fastforce
qed (use assms in \<open>auto simp: begin_verification_def begin_processing_def record_and_retire_def installed_guard_def
      installed_record_hook_def catchA_def bindA_def retire_claim_authorization_def split: option.splits if_splits\<close>)

lemma advances_records:
  "advances n ck (installed_guard ck fresh) rq st w = (r, w') \<Longrightarrow> ss_records (wd_security w') = ss_records (wd_security w)"
proof (induction n arbitrary: st w)
  case (Suc n)
  obtain q w1 where q: "advance ck (installed_guard ck fresh) rq st w = (q, w1)" by fastforce
  show ?case
  proof (cases q)
    case (Inl e)
    then show ?thesis using Suc.prems q route_records [OF q] by simp
  next
    case (Inr st1)
    then show ?thesis using Suc.prems q route_records [OF q] Suc.IH [of st1 w1] by simp
  qed
qed simp

text \<open>
  C12: With all modules installed the guard never stores a security record: the
  recorder that replaces the original does not take the approval it is called
  with. A claim accepted on a public deployment that has no record before has
  none after its request, and the payout boundary refuses to pay it.
\<close>

theorem guarded_claim_never_recorded:
  assumes run: "guard_http_request ck (installed_guard ck fresh) rq w = (Inr (Some (Forwarded reply)), w')"
    and pub: "public_deployment (ck_settings ck)" and id: "ar_claim_id reply = Some i"
    and none: "get_json (ss_records (wd_security w)) i = None"
  shows "get_json (ss_records (wd_security w')) i = None
    \<and> \<not> sd_allow (fst (payout_security_decision (ck_settings ck) (ck_limits ck) i (wd_db w') (wd_security w')))"
proof -
  obtain st where "advances 8 ck (installed_guard ck fresh) rq Arrived w = (Inr st, w')"
    using run pub by (auto simp: guard_http_request_def elim!: bindA_InrE split: guard_stage.splits)
  then have rec: "get_json (ss_records (wd_security w')) i = None" using advances_records none by fastforce
  then show ?thesis using pub
    by (auto simp: payout_security_decision_def get_claim_security_record_def refuse_def split: option.splits)
qed

section \<open>A claim from approval to answer\<close>

definition sample_device :: string where
  "sample_device = replicate 64 (CHR ''b'')"

definition sample_claim_services :: claim_services where
  "sample_claim_services = \<lparr>ck_settings = public_settings, ck_limits = default_security_limits,
     ck_registration = default_registration_limits, ck_burst = default_burst_limits, ck_verify_per_ip = 64,
     ck_verify_per_device = 5, ck_metres = (\<lambda>_ _ _ _. 20), ck_sha = (\<lambda>s. s),
     ck_verifier = (\<lambda>_ _ _. VerifierReply True (JObj [(''address'', JStr sample_wallet)])),
     ck_random = (\<lambda>n. replicate 20 (CHR ''a'') @ nat_text n), ck_mode = ''production'', ck_network = ''MainAlbatross''\<rparr>"

definition sample_fresh :: fresh_check where
  "sample_fresh rq s signer st = (Inr (True, False), st)"

definition sample_signed_in :: world where
  "sample_signed_in = sample_public\<lparr>wd_db := sample_db\<lparr>db_users := [sample_user 1 ''a'', sample_user 2 sample_device],
       db_spots := [sample_spot\<lparr>sp_starts_at := Some 20\<rparr>], db_now := 60\<rparr>,
     wd_security := (wd_security sample_public)\<lparr>ss_sessions := [(''token'', \<lparr>ses_user_id = 2, ses_device = sample_device,
       ses_wallet = sample_wallet, ses_key_hash = [], ses_created_at = 30, ses_expires_at = 2000000, ses_ip = []\<rparr>)]\<rparr>\<rparr>"

definition sample_preparation :: approval_request where
  "sample_preparation = \<lparr>ap_device = sample_device, ap_token = Some ''token'', ap_spot_id = 1, ap_action = ''claim'',
     ap_lat = Number 0, ap_long = Number 0, ap_accuracy = Number 5\<rparr>"

definition sample_prepared :: world where
  "sample_prepared = snd (prepare_claim_authorization sample_claim_services sample_preparation sample_signed_in)"

definition sample_guarded :: guarded_request where
  "sample_guarded = \<lparr>gr_spot_id = 1, gr_device = sample_device, gr_token = Some ''token'', gr_ip = ''ip'',
     gr_proof = Some \<lparr>pf_challenge_id = ''000000000150.aaaaaaaaaaaaaaaaaaaa0'', pf_public_key = ''p'', pf_signature = ''s''\<rparr>,
     gr_lat = Number 0, gr_long = Number 0, gr_accuracy = Number 5, gr_captcha = None, gr_claim_code = None,
     gr_payout_address = None\<rparr>"

definition sample_guard :: "claim_answer guard_services" where
  "sample_guard = installed_guard sample_claim_services sample_fresh"

lemma sample_running:
  obtains s k a w' where "advances 5 sample_claim_services sample_guard sample_guarded Arrived sample_prepared = (Inr (Running s k a), w')"
proof -
  have "case advances 5 sample_claim_services sample_guard sample_guarded Arrived sample_prepared of
     (Inr (Running s k a), w') \<Rightarrow> True | _ \<Rightarrow> False" by code_simp
  then show thesis using that by (auto split: prod.splits sum.splits guard_stage.splits)
qed

lemma advances_run:
  "guard_run ck gs [rq] cf ls (w, [st]) \<Longrightarrow> advances n ck gs rq st w = (Inr st', w')
    \<Longrightarrow> \<exists>ls'. guard_run ck gs [rq] cf ls' (w', [st'])"
proof (induction n arbitrary: ls st w)
  case (Suc n)
  obtain st1 w1 where s: "advance ck gs rq st w = (Inr st1, w1)" "advances n ck gs rq st1 w1 = (Inr st', w')"
    using Suc.prems(2) by (auto elim: bindA_InrE)
  have "guard_step ck gs [rq] (w, [st]) (advance_label st) (w1, [st1])"
    using guard_step.advances [of 0 "[st]" "[rq]" ck gs w st1 w1] s(1) by simp
  then show ?case using guard_run.more [OF Suc.prems(1)] Suc.IH s(2) by blast
qed auto

lemma sample_run:
  obtains ls s k a w' where "guard_run sample_claim_services (installed_guard sample_claim_services sample_fresh) [sample_guarded]
    (sample_signed_in, map (\<lambda>_. Arrived) [sample_guarded]) ls (w', [Running s k a])"
proof -
  obtain r where p: "prepare_claim_authorization sample_claim_services sample_preparation sample_signed_in = (r, sample_prepared)"
    by (cases "prepare_claim_authorization sample_claim_services sample_preparation sample_signed_in") (simp add: sample_prepared_def)
  obtain s k a w' where adv:
    "advances 5 sample_claim_services sample_guard sample_guarded Arrived sample_prepared = (Inr (Running s k a), w')"
    by (rule sample_running)
  have "guard_run sample_claim_services sample_guard [sample_guarded] (sample_signed_in, [Arrived])
      ([] @ [prepare_label r]) (sample_prepared, [Arrived])"
    by (rule guard_run.more [OF guard_run.here guard_step.prepares [OF p]])
  from advances_run [OF this adv] show thesis using that by (auto simp: sample_guard_def)
qed

lemma sample_no_approvals: "ss_authorizations (wd_security sample_signed_in) = []"
  by (simp add: sample_signed_in_def sample_public_def empty_security_def)

lemma approval_single_use_witness:
  "\<exists>ls cf. guard_run sample_claim_services (installed_guard sample_claim_services sample_fresh) [sample_guarded]
      (sample_signed_in, map (\<lambda>_. Arrived) [sample_guarded]) ls cf
    \<and> count_list ls (AppRan ''k'') \<le> count_list ls (IssuedApproval ''k'')"
proof -
  obtain ls s k a w' where run: "guard_run sample_claim_services (installed_guard sample_claim_services sample_fresh) [sample_guarded]
    (sample_signed_in, map (\<lambda>_. Arrived) [sample_guarded]) ls (w', [Running s k a])" by (rule sample_run)
  have "get_json (ss_authorizations (wd_security sample_signed_in)) ''k'' = None"
    by (simp add: sample_no_approvals get_json_def)
  from approval_single_use [OF run this] run show ?thesis by blast
qed

lemma app_run_signed_witness:
  "\<exists>(a :: authorization) device fixed nonce message. build_message ''production'' (claim_network sample_claim_services) 1 (au_wallet a) device fixed nonce
      (au_issued_at a) (au_expires_at a) = Inr message
    \<and> canonical_location (Number 0) (Number 0) (Number 5) = Inr fixed"
proof -
  obtain ls s k a w' where run: "guard_run sample_claim_services (installed_guard sample_claim_services sample_fresh) [sample_guarded]
    (sample_signed_in, map (\<lambda>_. Arrived) [sample_guarded]) ls (w', [Running s k a])" by (rule sample_run)
  have i: "0 < length [sample_guarded]" "[Running s k a] ! 0 = Running s k a" by simp_all
  have sel: "gr_spot_id sample_guarded = 1" "gr_lat sample_guarded = Number 0" "gr_long sample_guarded = Number 0"
    "gr_accuracy sample_guarded = Number 5" "ck_mode sample_claim_services = ''production''"
    by (simp_all add: sample_guarded_def sample_claim_services_def)
  show ?thesis using app_run_signed [OF run sample_no_approvals i] unfolding nth_Cons_0 sel by blast
qed

lemma guarded_claim_never_recorded_witness:
  "\<exists>w' :: world. get_json (ss_records (wd_security w')) 1 = None
    \<and> \<not> sd_allow (fst (payout_security_decision public_settings default_security_limits 1 (wd_db w') (wd_security w')))"
proof -
  have "case guard_http_request sample_claim_services sample_guard sample_guarded sample_prepared of
     (Inr (Some (Forwarded reply)), w') \<Rightarrow> ar_ok reply \<and> ar_claim_id reply = Some 1 | _ \<Rightarrow> False" by code_simp
  then obtain reply w' where run: "guard_http_request sample_claim_services (installed_guard sample_claim_services sample_fresh)
      sample_guarded sample_prepared = (Inr (Some (Forwarded reply)), w')" and id: "ar_claim_id reply = Some 1"
    unfolding sample_guard_def by (auto split: prod.splits sum.splits option.splits guard_answer.splits)
  have pub: "public_deployment (ck_settings sample_claim_services)" by (simp add: sample_claim_services_def public_settings_def)
  have "get_json (ss_records (wd_security sample_prepared)) 1 = None" by code_simp
  from guarded_claim_never_recorded [OF run pub id this] show ?thesis
    by (auto simp: sample_claim_services_def)
qed

text \<open>The worlds in which the accounts are checked and the application runs.\<close>

definition sample_key :: string where
  "sample_key = ''000000000150.aaaaaaaaaaaaaaaaaaaa0''"

definition attempted_world :: "world \<Rightarrow> world" where
  "attempted_world w = w\<lparr>wd_security := set_authorization_status sample_key Verifying (wd_security w)\<rparr>"

definition vetted_world :: "world \<Rightarrow> world" where
  "vetted_world w = w\<lparr>wd_db := wd_db w, wd_security := (wd_security w)\<lparr>ss_fresh := ss_fresh (wd_security w)\<rparr>\<rparr>"

definition processing_world :: "world \<Rightarrow> world" where
  "processing_world w = w\<lparr>wd_security := set_authorization_status sample_key Processing_claim (wd_security w)\<rparr>"

definition sample_processing :: world where
  "sample_processing = processing_world (vetted_world (attempted_world sample_prepared))"

definition passes :: "claim_answer guard_stage \<Rightarrow> world \<Rightarrow> bool" where
  "passes st w \<longleftrightarrow> (case st of
     Checked s k a \<Rightarrow> k = sample_key
       \<and> verify_wallet_signature sample_claim_services (au_message a) ''p'' ''s'' = Inr (ses_wallet s)
       \<and> canonical_payout_address (au_wallet a) = Some (ses_wallet s)
       \<and> \<not> pc_blocked (preclaim_decision_with_durable_wallet_limit sample_claim_services 1 s ''ip'' (wd_db w) (wd_security w))
   | _ \<Rightarrow> False)"

lemma sample_valid: "passes (check_request sample_claim_services sample_guarded sample_prepared) sample_processing"
  by code_simp

lemma sample_app_runs: "is_ok (fst (claim_route sample_claim_services sample_guarded sample_processing))"
  by code_simp

lemma valid_approval_reaches_app_witness:
  "\<exists>reply w'. guard_http_request sample_claim_services (installed_guard sample_claim_services sample_fresh) sample_guarded sample_prepared
    = (Inr (Some (Forwarded reply)), w')"
proof -
  let ?gs = "installed_guard sample_claim_services sample_fresh"
  obtain s a where valid: "check_request sample_claim_services sample_guarded sample_prepared = (Checked s sample_key a :: claim_answer guard_stage)"
    and signature: "verify_wallet_signature sample_claim_services (au_message a) ''p'' ''s'' = Inr (ses_wallet s)"
    and wallet: "canonical_payout_address (au_wallet a) = Some (ses_wallet s)"
    and risk: "\<not> pc_blocked (preclaim_decision_with_durable_wallet_limit sample_claim_services 1 s ''ip''
             (wd_db sample_processing) (wd_security sample_processing))"
    using sample_valid by (auto simp: passes_def split: guard_stage.splits)
  obtain reply w4 where app: "claim_route sample_claim_services sample_guarded sample_processing = (Inr reply, w4)"
    using sample_app_runs
    by (cases "claim_route sample_claim_services sample_guarded sample_processing"; cases "fst (claim_route sample_claim_services sample_guarded sample_processing)") auto
  have pub: "public_deployment (ck_settings sample_claim_services)" by (simp add: sample_claim_services_def public_settings_def)
  have "get_spot 1 (wd_db (attempted_world sample_prepared)) \<noteq> None" by code_simp
  then have account: "fresh_account_decision (gs_fresh ?gs) sample_guarded s (ses_wallet s) (attempted_world sample_prepared)
      = (Inr (True, False), vetted_world (attempted_world sample_prepared))"
    by (simp add: fresh_account_decision_def installed_guard_def sample_fresh_def vetted_world_def sample_guarded_def)
  have pf: "gr_proof sample_guarded = Some \<lparr>pf_challenge_id = sample_key, pf_public_key = ''p'', pf_signature = ''s''\<rparr>"
    "gr_spot_id sample_guarded = 1" "gr_ip sample_guarded = ''ip''"
    by (simp_all add: sample_guarded_def sample_key_def)
  show ?thesis
    using valid_approval_reaches_app [OF pub valid pf(1) _ wallet attempted_world_def account processing_world_def, of reply w4]
      signature risk app unfolding sample_processing_def by (simp add: pf installed_guard_def) blast
qed

end
