(* ===== verification/Spec2Isabelle.thy ===== *)
theory Spec2Isabelle
  imports BaseProps SpotProps ClaimProps LedgerSpec Reports ChainProps DepositProps SettleProps ThrottleProps RefundProps FundingProps MoneyProps ClaimGuardProps ApprovalProps
begin

text \<open>
  A model of the NIM-Hunt server (\<^verbatim>\<open>src/\<close>, Python over SQLite): users fund
  Spots at a place in the world, others claim the reward when they are there, and
  the server pays out of one deposit address per Spot on the Nimiq chain.

  How the parts correspond to the code.

  \<^item> \<open>Prelude\<close>, \<open>Constants\<close>: Python errors as a sum type, strings, tables as
    lists of records, the constants of \<^verbatim>\<open>constants.py\<close>.
  \<^item> \<open>Schema\<close>, \<open>Store\<close>, \<open>Integrity\<close>: \<^verbatim>\<open>database.py\<close>. One record \<open>db\<close> holds
    every table and the clock; one definition per kind of SQL statement carries
    its CHECK constraints, unique indexes, foreign keys and triggers; \<open>db_ok\<close> is
    the integrity all of them keep.
  \<^item> \<open>Wallet\<close>: the address rules of \<^verbatim>\<open>wallet.py\<close>. \<open>Binary64\<close>: rounding of
    IEEE doubles on rationals, used wherever the code subtracts floats.
  \<^item> \<open>Validation\<close>, \<open>Users\<close>, \<open>SpotReads\<close>, \<open>SpotWrites\<close>, \<open>ClaimReads\<close>,
    \<open>ClaimCodes\<close>, \<open>Claims\<close>, \<open>Transactions\<close>, \<open>Reports\<close>: the sections of
    \<^verbatim>\<open>db_access.py\<close> in their order, with \<^verbatim>\<open>claim_code_policy.py\<close>, which replaces
    two of its functions at run time, inside \<open>Claims\<close>.
  \<^item> \<open>LocationBehaviour\<close>: \<^verbatim>\<open>location_behavior_guard.py\<close> and the decision log of
    \<^verbatim>\<open>security_events.py\<close>.
  \<^item> \<open>ClaimFacts\<close>, \<open>ClaimPolicy\<close>: the contract \<open>claim_promoter\<close> between the
    promoters and the operations that call them, and its interpretations.
  \<^item> \<open>Json\<close>, \<open>ChainVerify\<close>: the part of \<^verbatim>\<open>trans_updater.py\<close> that reads JSON replies
    of a Nimiq node and decides from them what became of a ledger row. The node is
    a \<open>transport\<close>, a function from requests to replies.
  \<^item> \<open>SecurityState\<close>: the keyed documents of \<^verbatim>\<open>security_metadata.py\<close> and the tables
    the safety modules add, as a record next to \<open>db\<close>. \<open>Outbox\<close>: sending with a
    ledger row first (\<^verbatim>\<open>trans_updater.py\<close>); a \<open>world\<close> is the database, the
    security state, the requests handed to the signer and those it has yet to
    answer, and an action on it may fail after it has changed it. \<open>Payments\<close>:
    rewards, fees, deposits, the settling of pending rows.
  \<^item> \<open>SpotCancellation\<close>: cancelling a Spot and the send lease of
    \<^verbatim>\<open>cancellation_safety.py\<close>. \<open>Settlement\<close>: \<^verbatim>\<open>settlement_updater.py\<close>, with the
    functions other modules replace as the record \<open>hooks\<close>.
  \<^item> \<open>PayoutSecurity\<close>, \<open>Throttle\<close>, \<open>RefundSafety\<close>: what \<^verbatim>\<open>claim_security.py\<close>,
    \<^verbatim>\<open>claim_payout_throttle.py\<close> and \<^verbatim>\<open>refund_address_safety.py\<close> put in front of a
    payout, a deposit and a refund.
  \<^item> \<open>Funding\<close>: \<^verbatim>\<open>funding_status.py\<close>, \<^verbatim>\<open>funding_fee_worker.py\<close>,
    \<^verbatim>\<open>funding_monitor.py\<close>: the funding summary of a Spot, the fee of live Spots,
    recovery of lost fee hashes, the counts of the health report. \<open>Moderation\<close>:
    \<^verbatim>\<open>admin_moderation.py\<close> and the ban and audit tables of \<^verbatim>\<open>admin_store.py\<close>.
  \<^item> \<open>ClaimGuards\<close>: \<^verbatim>\<open>claim_location_guard.py\<close>, the wallet limits of
    \<^verbatim>\<open>claim_security_defence_in_depth.py\<close> and \<^verbatim>\<open>claim_wallet_hourly_limit.py\<close>, the
    attempt with all its replacements installed, and the claim route of
    \<^verbatim>\<open>public_html.py\<close>, which commits when it refuses. \<open>ClaimSecurity\<close>: challenges,
    sessions, wallet bindings and registration quotas (\<^verbatim>\<open>claim_security.py\<close>,
    \<^verbatim>\<open>claim_identity.py\<close>, \<^verbatim>\<open>user_registration_security.py\<close>,
    \<^verbatim>\<open>claim_auth_abuse_guard.py\<close>). \<open>ClaimRisk\<close>: recent claim events, the risk of a
    claim, the burst detectors, the security record of a claim. \<open>ClaimApproval\<close>:
    signed approvals (\<^verbatim>\<open>claim_authorization.py\<close>) and \<^verbatim>\<open>guard_http_request\<close>, whose
    stages are the points between two database connections; \<open>guard_run\<close>
    interleaves any number of guarded requests with everything else.
  \<^item> \<open>MoneyProps\<close>: everything that moves money, composed in the order in which
    \<^verbatim>\<open>funding_flow.py\<close> installs it; \<open>money_run\<close> is the run of such operations.
  \<^item> \<open>BaseProps\<close>, \<open>SpotProps\<close>, \<open>ClaimProps\<close>, \<open>TransProps\<close>, \<open>LedgerSpec\<close>, \<open>ChainProps\<close>,
    \<open>OutboxProps\<close>, \<open>DepositProps\<close>, \<open>CancelProps\<close>, \<open>SettleProps\<close>,
    \<open>ThrottleProps\<close>, \<open>RefundProps\<close>, \<open>FundingProps\<close>, \<open>ClaimGuardProps\<close>,
    \<open>ApprovalProps\<close>: the properties. \<open>BaseProps\<close> reads a geohash back without
    the encoder; \<open>LedgerSpec\<close> is the ledger seen as a register of obligations,
    with the exact effect of every operation on it. The guard is proved correct in the locale
    \<open>approval_client\<close> for any application that leaves approvals alone; eight steps
    are enough because every step lowers the rank of the stage.

  Conventions. A function that runs inside one immediate SQLite transaction is a
  function from the database to an error or a result with the new database; an
  error rolls everything back, so no database is returned with it. SQLite
  serialises writers, so concurrent requests are sequences of such steps
  (\<open>claim_run\<close>, \<open>trans_run\<close>). Random draws, the Haversine distance, reverse
  geocoding, key derivation and the configured environment are arguments. A loop
  over random draws is a recursion over the draws and answers \<open>None\<close> while it
  still wants more. Text is ASCII; error messages are kept without their
  formatted arguments.

  Not modelled: the checks of fresh accounts (\<^verbatim>\<open>fresh_claim_guard.py\<close>,
  \<^verbatim>\<open>wallet_cluster_guard.py\<close>; an argument of the guard), the pruning of security
  documents, the parsing of proxy headers, HTTP routing, HTML rendering, social
  cards, posting to X, the admin panel, caching of views, migrations, the signing
  subprocess and the signature verifier (arguments).
\<close>

end
